(* ===== verification/Prelude.thy ===== *)
theory Prelude
  imports Main "HOL-Library.Word" "HOL-Library.Signed_Division"
begin

text \<open>
  The vocabulary every component shares: Go's fixed-width integers as words, byte slices as lists
  of 8-bit words, Go strings as byte strings, \<open>encoding/binary\<close>'s little-endian codecs, the
  decimal rendering of \<open>fmt\<close>'s \<open>%d\<close> verbs, and Go errors as values.  The lemmas are collected in
  \<open>le_simps\<close> (codecs), \<open>slice_simps\<close> (slice expressions) and \<open>sint_simps\<close> (signed arithmetic).
\<close>

named_theorems le_simps \<open>little-endian codecs\<close>
named_theorems slice_simps \<open>slice expressions over concatenated buffers\<close>
named_theorems sint_simps \<open>signed arithmetic that does not overflow\<close>

section \<open>Types\<close>

type_synonym byte = "8 word"
type_synonym bytes = "byte list"
type_synonym uint16 = "16 word"
type_synonym uint32 = "32 word"
type_synonym int32 = "32 word"
type_synonym uint64 = "64 word"
type_synonym int64 = "64 word"

abbreviation MaxInt64 :: int where
  "MaxInt64 \<equiv> 9223372036854775807"

abbreviation MinInt64 :: int where
  "MinInt64 \<equiv> - 9223372036854775808"

section \<open>Errors as values\<close>

text \<open>
  A Go error is a message (\<open>fmt.Errorf\<close> without \<open>%w\<close>, or a local \<open>errors.New\<close>), a package-level
  sentinel variable, or a message prefix that wraps another error with \<open>%w\<close>.
\<close>

datatype go_error =
    NewError string
  | Sentinel string
  | WrapError string go_error

primrec error_string :: "go_error \<Rightarrow> string" where
  "error_string (NewError msg) = msg"
| "error_string (Sentinel msg) = msg"
| "error_string (WrapError msg e) = msg @ '': '' @ error_string e"

primrec errors_is :: "go_error \<Rightarrow> go_error \<Rightarrow> bool" where
  "errors_is (NewError msg) target = False"
| "errors_is (Sentinel msg) target = (target = Sentinel msg)"
| "errors_is (WrapError msg e) target = errors_is e target"

type_synonym 'a result = "go_error + 'a"

definition wrap_result :: "string \<Rightarrow> 'a result \<Rightarrow> 'a result" where
  "wrap_result msg r = (case r of Inl e \<Rightarrow> Inl (WrapError msg e) | Inr x \<Rightarrow> Inr x)"

lemma wrap_result_simps [simp]:
  "wrap_result msg (Inl e) = Inl (WrapError msg e)"
  "wrap_result msg (Inr x) = Inr x"
  by (simp_all add: wrap_result_def)

lemma wrap_result_Inr_iff [simp]: "wrap_result msg r = Inr x \<longleftrightarrow> r = Inr x"
  by (cases r) auto

text \<open>Sequencing: the pattern \<open>x, err := f(); if err != nil { return err }\<close>.\<close>

definition bindR :: "'a result \<Rightarrow> ('a \<Rightarrow> 'b result) \<Rightarrow> 'b result" where
  "bindR r f = (case r of Inl e \<Rightarrow> Inl e | Inr x \<Rightarrow> f x)"

lemma bindR_simps [simp]:
  "bindR (Inl e) f = Inl e"
  "bindR (Inr x) f = f x"
  by (simp_all add: bindR_def)

lemma bindR_Inr_iff: "bindR r f = Inr y \<longleftrightarrow> (\<exists>x. r = Inr x \<and> f x = Inr y)"
  by (cases r) auto

section \<open>Slices\<close>

text \<open>\<open>go_slice lo hi xs\<close> is the Go expression \<open>xs[lo:hi]\<close> for \<open>lo \<le> hi \<le> len(xs)\<close>.\<close>

definition go_slice :: "nat \<Rightarrow> nat \<Rightarrow> 'a list \<Rightarrow> 'a list" where
  "go_slice lo hi xs = take (hi - lo) (drop lo xs)"

lemma length_slice [simp]: "hi \<le> length xs \<Longrightarrow> length (go_slice lo hi xs) = hi - lo"
  by (simp add: go_slice_def)

lemma slice_append_left [slice_simps]:
  "hi \<le> length xs \<Longrightarrow> go_slice lo hi (xs @ ys) = go_slice lo hi xs"
  by (cases "lo \<le> length xs") (simp_all add: go_slice_def)

lemma slice_append_right [slice_simps]:
  "length xs \<le> lo \<Longrightarrow> go_slice lo hi (xs @ ys) = go_slice (lo - length xs) (hi - length xs) ys"
  by (simp add: go_slice_def)

lemma slice_full [slice_simps]: "lo = 0 \<Longrightarrow> hi = length xs \<Longrightarrow> go_slice lo hi xs = xs"
  by (simp add: go_slice_def)

lemma slice_Cons [slice_simps]:
  "0 < lo \<Longrightarrow> go_slice lo hi (x # xs) = go_slice (lo - 1) (hi - 1) xs"
  by (cases lo; cases hi) (simp_all add: go_slice_def)

lemma slice_join: "lo \<le> mid \<Longrightarrow> mid \<le> hi \<Longrightarrow> go_slice lo mid xs @ go_slice mid hi xs = go_slice lo hi xs"
proof -
  assume "lo \<le> mid" "mid \<le> hi"
  then have "take (hi - lo) (drop lo xs) =
      take (mid - lo) (drop lo xs) @ take (hi - mid) (drop (mid - lo) (drop lo xs))"
    using take_add [of "mid - lo" "hi - mid" "drop lo xs"] by simp
  with \<open>lo \<le> mid\<close> show ?thesis by (simp add: go_slice_def)
qed

lemma slice_drop: "go_slice lo (length xs) xs = drop lo xs"
  by (simp add: go_slice_def)

text \<open>A buffer read at a cursor: \<open>drop pos data\<close> starts with the field \<open>xs\<close>.\<close>

lemma slice_at:
  assumes "drop pos data = xs @ rest"
  shows "go_slice pos (pos + length xs) data = xs"
  using assms by (simp add: go_slice_def)

lemma drop_at:
  assumes "drop pos data = xs @ rest"
  shows "drop (pos + length xs) data = rest"
  using assms by (metis add.commute append_eq_conv_conj drop_drop)

lemma length_at: "drop pos data = xs @ rest \<Longrightarrow> xs \<noteq> [] \<Longrightarrow> pos + length xs \<le> length data"
  by (metis Nat.le_diff_conv2 add.commute append_is_Nil_conv drop_eq_Nil le_add1 length_append
      length_drop linorder_le_cases)

text \<open>\<open>copy(arr[:], src)\<close> into a zeroed array of \<open>n\<close> bytes.\<close>

definition to_array :: "nat \<Rightarrow> bytes \<Rightarrow> bytes" where
  "to_array n src = take n src @ replicate (n - length src) 0"

lemma length_to_array [simp]: "length (to_array n src) = n"
  by (simp add: to_array_def)

lemma to_array_id [simp]: "length src = n \<Longrightarrow> to_array n src = src"
  by (simp add: to_array_def)

section \<open>Go strings\<close>

text \<open>A Go string is a byte sequence; a HOL \<open>char\<close> is one byte of it.\<close>

definition bytes_of_string :: "string \<Rightarrow> bytes" where
  "bytes_of_string s = map (\<lambda>c. of_nat (of_char c)) s"

definition string_of_bytes :: "bytes \<Rightarrow> string" where
  "string_of_bytes bs = map (\<lambda>b. char_of (unat b)) bs"

lemma length_bytes_of_string [simp]: "length (bytes_of_string s) = length s"
  by (simp add: bytes_of_string_def)

lemma length_string_of_bytes [simp]: "length (string_of_bytes bs) = length bs"
  by (simp add: string_of_bytes_def)

lemma unat_of_char [simp]: "unat (of_nat (of_char c) :: byte) = of_char c"
  by (simp add: unat_of_nat of_char_mod_256 flip: take_bit_eq_mod)

lemma string_of_bytes_of_string [simp]: "string_of_bytes (bytes_of_string s) = s"
  by (simp add: string_of_bytes_def bytes_of_string_def comp_def)

section \<open>Little-endian codecs\<close>

primrec le_bytes :: "nat \<Rightarrow> nat \<Rightarrow> bytes" where
  "le_bytes 0 v = []"
| "le_bytes (Suc n) v = of_nat (v mod 256) # le_bytes n (v div 256)"

primrec le_nat :: "bytes \<Rightarrow> nat" where
  "le_nat [] = 0"
| "le_nat (b # bs) = unat b + 256 * le_nat bs"

lemma length_le_bytes [simp, le_simps]: "length (le_bytes n v) = n"
  by (induction n arbitrary: v) auto

lemma le_nat_bound: "le_nat bs < 256 ^ length bs"
proof (induction bs)
  case Nil
  then show ?case by simp
next
  case (Cons b bs)
  have "unat b < 256" using unsigned_less [of b, where ?'a = nat] by simp
  with Cons show ?case by simp
qed

lemma le_nat_le_bytes [simp, le_simps]: "le_nat (le_bytes n v) = v mod 256 ^ n"
proof (induction n arbitrary: v)
  case 0
  then show ?case by simp
next
  case (Suc n)
  have "v mod (256 * 256 ^ n) = 256 * (v div 256 mod 256 ^ n) + v mod 256"
    by (rule mod_mult2_eq)
  moreover have "unat (of_nat (v mod 256) :: byte) = v mod 256"
    by (simp add: unat_of_nat take_bit_eq_mod)
  ultimately show ?case using Suc by (simp add: take_bit_eq_mod)
qed

lemma le_bytes_le_nat: "length bs = n \<Longrightarrow> le_bytes n (le_nat bs) = bs"
proof (induction bs arbitrary: n)
  case Nil
  then show ?case by simp
next
  case (Cons b bs)
  have "unat b < 256" using unsigned_less [of b, where ?'a = nat] by simp
  with Cons show ?case by auto
qed

definition put_u32 :: "uint32 \<Rightarrow> bytes" where
  "put_u32 w = le_bytes 4 (unat w)"

definition get_u32 :: "bytes \<Rightarrow> uint32" where
  "get_u32 bs = of_nat (le_nat (take 4 bs))"

definition put_u64 :: "uint64 \<Rightarrow> bytes" where
  "put_u64 w = le_bytes 8 (unat w)"

definition get_u64 :: "bytes \<Rightarrow> uint64" where
  "get_u64 bs = of_nat (le_nat (take 8 bs))"

lemma length_put_u32 [simp, le_simps]: "length (put_u32 w) = 4"
  by (simp add: put_u32_def)

lemma length_put_u64 [simp, le_simps]: "length (put_u64 w) = 8"
  by (simp add: put_u64_def)

lemma put_nonempty [simp]: "put_u32 v \<noteq> []" "put_u64 w \<noteq> []"
  by (simp_all flip: length_0_conv)

lemma get_put_u32 [simp, le_simps]: "get_u32 (put_u32 w @ rest) = w"
  using unsigned_less [of w, where ?'a = nat] by (simp add: get_u32_def put_u32_def)

lemma get_put_u64 [simp, le_simps]: "get_u64 (put_u64 w @ rest) = w"
  using unsigned_less [of w, where ?'a = nat] by (simp add: get_u64_def put_u64_def)

lemma get_put_u32_only [simp, le_simps]: "get_u32 (put_u32 w) = w"
  using get_put_u32 [of w "[]"] by simp

lemma get_put_u64_only [simp, le_simps]: "get_u64 (put_u64 w) = w"
  using get_put_u64 [of w "[]"] by simp

lemma put_get_u32: "length bs = 4 \<Longrightarrow> put_u32 (get_u32 bs) = bs"
  using le_nat_bound [of bs]
  by (simp add: get_u32_def put_u32_def unat_of_nat take_bit_eq_mod le_bytes_le_nat)

lemma put_get_u64: "length bs = 8 \<Longrightarrow> put_u64 (get_u64 bs) = bs"
  using le_nat_bound [of bs]
  by (simp add: get_u64_def put_u64_def unat_of_nat take_bit_eq_mod le_bytes_le_nat)

lemma put_u64_inject [simp]: "put_u64 v = put_u64 w \<longleftrightarrow> v = w"
  by (metis get_put_u64_only)

lemma put_u32_inject [simp]: "put_u32 v = put_u32 w \<longleftrightarrow> v = w"
  by (metis get_put_u32_only)

text \<open>A go_slice length converted to \<open>uint32\<close> for a length prefix; it is faithful below \<open>2^32\<close>.\<close>

definition len_u32 :: "'a list \<Rightarrow> uint32" where
  "len_u32 xs = of_nat (length xs)"

lemma unat_len_u32 [simp]: "length xs < 2 ^ 32 \<Longrightarrow> unat (len_u32 xs) = length xs"
  by (simp add: len_u32_def unat_of_nat take_bit_eq_mod)

section \<open>Decimal rendering\<close>

fun dec_nat :: "nat \<Rightarrow> string" where
  "dec_nat n = (if n < 10 then [char_of (48 + n)]
                else dec_nat (n div 10) @ [char_of (48 + n mod 10)])"

declare dec_nat.simps [simp del]

definition dec_int :: "int \<Rightarrow> string" where
  "dec_int i = (if i < 0 then ''-'' @ dec_nat (nat (- i)) else dec_nat (nat i))"

text \<open>\<open>%0wd\<close>: zero padding to width \<open>w\<close>; a sign counts towards the width.\<close>

definition pad_int :: "nat \<Rightarrow> int \<Rightarrow> string" where
  "pad_int w i =
     (let digits = dec_nat (nat \<bar>i\<bar>); sign = (if i < 0 then ''-'' else '''')
      in sign @ replicate (w - length sign - length digits) (CHR ''0'') @ digits)"

lemma dec_nat_nonempty [simp]: "dec_nat n \<noteq> []"
  by (subst dec_nat.simps) simp

section \<open>Signed 64-bit arithmetic\<close>

lemma sint64_bounds: "MinInt64 \<le> sint (w :: int64) \<and> sint w \<le> MaxInt64"
  using sint_range_size [of w] by (simp add: word_size)

text \<open>Go's \<open>/\<close> and \<open>%\<close> on \<open>int64\<close> truncate towards zero and wrap the result.\<close>

definition div_i64 :: "int64 \<Rightarrow> int64 \<Rightarrow> int64" where
  "div_i64 a b = word_of_int (sint a sdiv sint b)"

definition mod_i64 :: "int64 \<Rightarrow> int64 \<Rightarrow> int64" where
  "mod_i64 a b = word_of_int (sint a smod sint b)"

lemma sint64_of_int [sint_simps]:
  "MinInt64 \<le> i \<Longrightarrow> i \<le> MaxInt64 \<Longrightarrow> sint (word_of_int i :: int64) = i"
  by (simp add: signed_take_bit_int_eq_self_iff sint_sbintrunc' flip: sint_uint)

lemma sint64_sub [sint_simps]:
  fixes a b :: int64
  assumes "MinInt64 \<le> sint a - sint b" and "sint a - sint b \<le> MaxInt64"
  shows "sint (a - b) = sint a - sint b"
  using assms sint64_of_int [of "sint a - sint b"] by (simp flip: wi_hom_sub)

lemma sint64_add [sint_simps]:
  fixes a b :: int64
  assumes "MinInt64 \<le> sint a + sint b" and "sint a + sint b \<le> MaxInt64"
  shows "sint (a + b) = sint a + sint b"
  using assms sint64_of_int [of "sint a + sint b"] by (simp flip: wi_hom_add)

lemma sint64_mult [sint_simps]:
  fixes a b :: int64
  assumes "MinInt64 \<le> sint a * sint b" and "sint a * sint b \<le> MaxInt64"
  shows "sint (a * b) = sint a * sint b"
  using assms sint64_of_int [of "sint a * sint b"] by (simp flip: wi_hom_mult)

lemma sdiv_nonneg: "0 \<le> (a :: int) \<Longrightarrow> 0 < b \<Longrightarrow> a sdiv b = a div b"
  by (cases "0 < a") (auto simp: signed_divide_int_def)

lemma smod_nonneg: "0 \<le> (a :: int) \<Longrightarrow> 0 < b \<Longrightarrow> a smod b = a mod b"
  by (cases "0 < a") (auto simp: signed_modulo_int_def)

lemma sint_minus_i64: "sint (x :: int64) \<noteq> MinInt64 \<Longrightarrow> sint (- x) = - sint x"
  using sint64_of_int [of "- sint x"] sint64_bounds [of x] by (simp flip: wi_hom_neg)

end
