(* ===== verification/Wasm.thy ===== *)
theory Wasm
  imports Prelude
begin

text \<open>
  The boundary to a WebAssembly agent.  The agent and the engine that runs it (wazero) are not in the
  repository: a module instance is a value of the type parameter \<open>'m\<close> and its behaviour a record of
  functions.  A call to an exported function enters the module; the module then runs to its next
  event, which is a return, a trap, or a call of an imported host function; the host answers and the
  module goes on.  The number of events a call may take is the fuel, which stands for the deadline
  of the call's context.  On top of it: \<open>internal/wasmutil\<close>.
\<close>

type_synonym span = "uint32 \<times> uint32"

datatype hostreq =
    ReqClockNow
  | ReqRandBytes uint32 uint32
  | ReqLogEmit uint32 uint32
  | ReqWalletBalance
  | ReqWalletReceiptCount
  | ReqWalletReceipt int32 uint32 uint32
  | ReqNodePrice
  | ReqHTTP span span span span span
  | ReqWalletPay int64 span span span

datatype 'm guest_event = GReturn "uint64 list" 'm | GTrap string | GCall hostreq 'm

record 'm guest =
  g_exported :: "'m \<Rightarrow> string \<Rightarrow> bool"
  g_enter :: "string \<Rightarrow> uint64 list \<Rightarrow> 'm \<Rightarrow> 'm"
  g_event :: "'m \<Rightarrow> 'm guest_event"
  g_answer :: "uint64 list \<Rightarrow> 'm \<Rightarrow> 'm"
  g_read :: "uint32 \<Rightarrow> uint32 \<Rightarrow> 'm \<Rightarrow> bytes option"
  g_write :: "uint32 \<Rightarrow> bytes \<Rightarrow> 'm \<Rightarrow> 'm option"

text \<open>A host answers a request, changing the module's memory and its own state; \<open>None\<close> means that it
  exports no such function.\<close>

type_synonym ('m, 'h) host = "hostreq \<Rightarrow> 'm \<Rightarrow> 'h \<Rightarrow> (uint64 list \<times> 'm \<times> 'h) option"

abbreviation ErrDeadline :: go_error where
  "ErrDeadline \<equiv> Sentinel ''module closed with context deadline exceeded''"

abbreviation ErrNoImport :: go_error where
  "ErrNoImport \<equiv> NewError ''function not instantiated in module igor''"

fun run_guest :: "nat \<Rightarrow> 'm guest \<Rightarrow> ('m, 'h) host \<Rightarrow> 'm \<Rightarrow> 'h \<Rightarrow> uint64 list result \<times> 'm \<times> 'h" where
  "run_guest 0 G H m h = (Inl ErrDeadline, m, h)"
| "run_guest (Suc n) G H m h =
     (case g_event G m of
        GReturn rs m' \<Rightarrow> (Inr rs, m', h)
      | GTrap msg \<Rightarrow> (Inl (NewError msg), m, h)
      | GCall rq m' \<Rightarrow>
          (case H rq m' h of
             None \<Rightarrow> (Inl ErrNoImport, m', h)
           | Some (rs, m'', h') \<Rightarrow> run_guest n G H (g_answer G rs m'') h'))"

lemma run_guest_numeral:
  "run_guest (numeral k) G H m h =
     (case g_event G m of
        GReturn rs m' \<Rightarrow> (Inr rs, m', h)
      | GTrap msg \<Rightarrow> (Inl (NewError msg), m, h)
      | GCall rq m' \<Rightarrow>
          (case H rq m' h of
             None \<Rightarrow> (Inl ErrNoImport, m', h)
           | Some (rs, m'', h') \<Rightarrow> run_guest (pred_numeral k) G H (g_answer G rs m'') h'))"
  by (simp add: numeral_eq_Suc)

definition call_fn ::
    "nat \<Rightarrow> 'm guest \<Rightarrow> ('m, 'h) host \<Rightarrow> string \<Rightarrow> uint64 list \<Rightarrow> 'm \<Rightarrow> 'h \<Rightarrow> uint64 list result \<times> 'm \<times> 'h" where
  "call_fn fuel G H name args m h = run_guest fuel G H (g_enter G name args m) h"

text \<open>\<open>results[0]\<close> of a call that returned nothing is a run-time panic.\<close>

definition result0 :: "uint64 list \<Rightarrow> uint64 result" where
  "result0 rs = (case rs of [] \<Rightarrow> Inl (NewError ''runtime error: index out of range [0] with length 0'')
                          | r # _ \<Rightarrow> Inr r)"

definition CaptureState :: "nat \<Rightarrow> 'm guest \<Rightarrow> ('m, 'h) host \<Rightarrow> 'm \<Rightarrow> 'h \<Rightarrow> bytes result \<times> 'm \<times> 'h" where
  "CaptureState fuel G H m h =
     (if \<not> g_exported G m ''agent_checkpoint'' then (Inl (NewError ''agent_checkpoint not exported''), m, h)
      else case call_fn fuel G H ''agent_checkpoint'' [] m h of
        (Inl e, m, h) \<Rightarrow> (Inl (WrapError ''agent_checkpoint'' e), m, h)
      | (Inr rs, m, h) \<Rightarrow>
        (case result0 rs of
           Inl e \<Rightarrow> (Inl e, m, h)
         | Inr r \<Rightarrow>
           let size = (ucast r :: uint32) in
           if size = 0 then (Inr [], m, h)
           else if \<not> g_exported G m ''agent_checkpoint_ptr''
           then (Inl (NewError ''agent_checkpoint_ptr not exported''), m, h)
           else case call_fn fuel G H ''agent_checkpoint_ptr'' [] m h of
             (Inl e, m, h) \<Rightarrow> (Inl (WrapError ''agent_checkpoint_ptr'' e), m, h)
           | (Inr rs, m, h) \<Rightarrow>
             (case result0 rs of
                Inl e \<Rightarrow> (Inl e, m, h)
              | Inr r \<Rightarrow>
                (case g_read G (ucast r) size m of
                   None \<Rightarrow> (Inl (NewError ''failed to read state from WASM memory''), m, h)
                 | Some data \<Rightarrow> (Inr data, m, h)))))"

definition ResumeAgent :: "nat \<Rightarrow> 'm guest \<Rightarrow> ('m, 'h) host \<Rightarrow> bytes \<Rightarrow> 'm \<Rightarrow> 'h \<Rightarrow> unit result \<times> 'm \<times> 'h" where
  "ResumeAgent fuel G H state m h =
     (if \<not> g_exported G m ''agent_resume'' then (Inl (NewError ''agent_resume not exported''), m, h)
      else if length state = 0 then
        (case call_fn fuel G H ''agent_resume'' [0, 0] m h of
           (Inl e, m, h) \<Rightarrow> (Inl e, m, h) | (Inr _, m, h) \<Rightarrow> (Inr (), m, h))
      else if \<not> g_exported G m ''malloc''
      then (Inl (NewError ''malloc not exported (required for agent_resume)''), m, h)
      else case call_fn fuel G H ''malloc'' [of_nat (length state)] m h of
        (Inl e, m, h) \<Rightarrow> (Inl (WrapError ''malloc'' e), m, h)
      | (Inr rs, m, h) \<Rightarrow>
        (case result0 rs of
           Inl e \<Rightarrow> (Inl e, m, h)
         | Inr r \<Rightarrow>
           let ptr = (ucast r :: uint32) in
           case g_write G ptr state m of
             None \<Rightarrow> (Inl (NewError ''failed to write state to WASM memory''), m, h)
           | Some m \<Rightarrow>
             (case call_fn fuel G H ''agent_resume'' [ucast ptr, of_nat (length state)] m h of
                (Inl e, m, h) \<Rightarrow> (Inl e, m, h) | (Inr _, m, h) \<Rightarrow> (Inr (), m, h))))"

section \<open>Fuel\<close>

lemma run_guest_mono:
  "run_guest n G H m h = (r, m', h') \<Longrightarrow> r \<noteq> Inl ErrDeadline \<Longrightarrow> n \<le> k \<Longrightarrow> run_guest k G H m h = (r, m', h')"
proof (induction n G H m h arbitrary: k rule: run_guest.induct)
  case (2 n G H m h)
  then obtain k' where "k = Suc k'" "n \<le> k'" by (cases k) auto
  with 2 show ?case by (auto split: guest_event.splits option.splits)
qed simp

section \<open>Invariants of the host state\<close>

text \<open>What every answer of the host preserves, every call preserves.\<close>

definition host_keeps :: "('m, 'h) host \<Rightarrow> ('h \<Rightarrow> bool) \<Rightarrow> bool" where
  "host_keeps H P \<longleftrightarrow> (\<forall>rq m h rs m' h'. H rq m h = Some (rs, m', h') \<longrightarrow> P h \<longrightarrow> P h')"

lemma run_guest_invariant:
  assumes "host_keeps H P" "run_guest n G H m h = (r, m', h')" "P h"
  shows "P h'"
  using assms(2,3)
proof (induction n arbitrary: m h)
  case (Suc n)
  then show ?case using assms(1)
    by (auto simp: host_keeps_def split: guest_event.splits option.splits)
qed simp

lemma call_fn_invariant:
  assumes "host_keeps H P" "call_fn n G H name args m h = (r, m', h')" "P h"
  shows "P h'"
  using run_guest_invariant [OF assms(1) assms(2) [unfolded call_fn_def] assms(3)] .

lemma CaptureState_invariant:
  assumes "host_keeps H P" "CaptureState n G H m h = (r, m', h')" "P h"
  shows "P h'"
proof -
  obtain rc mc hc where c: "call_fn n G H ''agent_checkpoint'' [] m h = (rc, mc, hc)" using prod_cases3 by blast
  obtain rp mp hp where p: "call_fn n G H ''agent_checkpoint_ptr'' [] mc hc = (rp, mp, hp)" using prod_cases3 by blast
  have "P hc" using call_fn_invariant [OF assms(1) c assms(3)] .
  moreover have "P hp" using call_fn_invariant [OF assms(1) p \<open>P hc\<close>] .
  ultimately show ?thesis using assms(2,3)
    by (auto simp: CaptureState_def c p Let_def split: if_splits sum.splits option.splits)
qed

section \<open>Indistinguishable modules\<close>

text \<open>
  Two module instances are indistinguishable when a relation that respects every observation relates
  them.  \<open>bisimulation G B\<close> says that \<open>B\<close> is such a relation; equality is one.
\<close>

fun event_rel :: "('m \<Rightarrow> 'm \<Rightarrow> bool) \<Rightarrow> 'm guest_event \<Rightarrow> 'm guest_event \<Rightarrow> bool" where
  "event_rel B (GReturn rs m) (GReturn rs' m') = (rs = rs' \<and> B m m')"
| "event_rel B (GTrap s) (GTrap s') = (s = s')"
| "event_rel B (GCall rq m) (GCall rq' m') = (rq = rq' \<and> B m m')"
| "event_rel B _ _ = False"

definition bisimulation :: "'m guest \<Rightarrow> ('m \<Rightarrow> 'm \<Rightarrow> bool) \<Rightarrow> bool" where
  "bisimulation G B \<longleftrightarrow>
     (\<forall>m m'. B m m' \<longrightarrow>
        (\<forall>name. g_exported G m name = g_exported G m' name) \<and>
        (\<forall>name args. B (g_enter G name args m) (g_enter G name args m')) \<and>
        event_rel B (g_event G m) (g_event G m') \<and>
        (\<forall>rs. B (g_answer G rs m) (g_answer G rs m')) \<and>
        (\<forall>p n. g_read G p n m = g_read G p n m') \<and>
        (\<forall>p d. rel_option B (g_write G p d m) (g_write G p d m')))"

lemma bisimulation_eq: "bisimulation G (=)"
proof -
  have "event_rel (=) e e" for e :: "'a guest_event" by (cases e) auto
  moreover have "rel_option (=) x x" for x :: "'a option" by (simp add: option.rel_eq)
  ultimately show ?thesis by (simp add: bisimulation_def)
qed

lemma bisimulationD:
  assumes "bisimulation G B" "B m m'"
  shows "g_exported G m = g_exported G m'" "B (g_enter G name args m) (g_enter G name args m')"
    "event_rel B (g_event G m) (g_event G m')" "B (g_answer G rs m) (g_answer G rs m')"
    "g_read G p n m = g_read G p n m'" "rel_option B (g_write G p d m) (g_write G p d m')"
  using assms by (auto simp: bisimulation_def)

text \<open>Memory reads return as many bytes as were asked for; documented behaviour of the engine.\<close>

definition reads_exact :: "'m guest \<Rightarrow> bool" where
  "reads_exact G \<longleftrightarrow> (\<forall>p n m d. g_read G p n m = Some d \<longrightarrow> length d = unat n)"

section \<open>An example agent\<close>

text \<open>
  An agent with 32 bytes of memory whose state is the last clock value it saw, kept in the first 8
  bytes: one tick reads the clock and stores it.  It shows that the hypotheses about agents that
  theorems make can hold.
\<close>

datatype example_pc = PcIdle | PcTick | PcStore | PcSize | PcPtr | PcMalloc | PcResume

record example_agent =
  xa_mem :: bytes
  xa_pc :: example_pc
  xa_args :: "uint64 list"

definition example_mem_read :: "uint32 \<Rightarrow> uint32 \<Rightarrow> example_agent \<Rightarrow> bytes option" where
  "example_mem_read p n a =
     (if unat p + unat n \<le> length (xa_mem a) then Some (go_slice (unat p) (unat p + unat n) (xa_mem a)) else None)"

definition example_mem_write :: "uint32 \<Rightarrow> bytes \<Rightarrow> example_agent \<Rightarrow> example_agent option" where
  "example_mem_write p d a =
     (if unat p + length d \<le> length (xa_mem a)
      then Some (a\<lparr>xa_mem := take (unat p) (xa_mem a) @ d @ drop (unat p + length d) (xa_mem a)\<rparr>) else None)"

definition example_enter :: "string \<Rightarrow> uint64 list \<Rightarrow> example_agent \<Rightarrow> example_agent" where
  "example_enter name args a = a\<lparr>xa_args := args, xa_pc :=
     (if name = ''agent_tick'' then PcTick else if name = ''agent_checkpoint'' then PcSize
      else if name = ''agent_checkpoint_ptr'' then PcPtr else if name = ''malloc'' then PcMalloc
      else if name = ''agent_resume'' then PcResume else PcIdle)\<rparr>"

definition example_event :: "example_agent \<Rightarrow> example_agent guest_event" where
  "example_event a = (case xa_pc a of
       PcIdle \<Rightarrow> GReturn [] a
     | PcTick \<Rightarrow> GCall ReqClockNow (a\<lparr>xa_pc := PcStore\<rparr>)
     | PcStore \<Rightarrow> GReturn [] (a\<lparr>xa_mem := put_u64 (xa_args a ! 0) @ drop 8 (xa_mem a), xa_pc := PcIdle, xa_args := []\<rparr>)
     | PcSize \<Rightarrow> GReturn [8] (a\<lparr>xa_pc := PcIdle, xa_args := []\<rparr>)
     | PcPtr \<Rightarrow> GReturn [0] (a\<lparr>xa_pc := PcIdle, xa_args := []\<rparr>)
     | PcMalloc \<Rightarrow> GReturn [16] (a\<lparr>xa_pc := PcIdle, xa_args := []\<rparr>)
     | PcResume \<Rightarrow> GReturn [] (a\<lparr>xa_mem := take 8 (drop (unat (xa_args a ! 0)) (xa_mem a)) @ drop 8 (xa_mem a),
                                xa_pc := PcIdle, xa_args := []\<rparr>))"

definition example_guest :: "example_agent guest" where
  "example_guest =
     \<lparr>g_exported = (\<lambda>_ name. name \<in> set [''agent_init'', ''agent_tick'', ''agent_checkpoint'',
        ''agent_checkpoint_ptr'', ''agent_resume'', ''malloc'']),
      g_enter = example_enter, g_event = example_event, g_answer = (\<lambda>rs a. a\<lparr>xa_args := rs\<rparr>),
      g_read = example_mem_read, g_write = example_mem_write\<rparr>"

definition example_module :: example_agent where
  "example_module = \<lparr>xa_mem = replicate 32 0, xa_pc = PcIdle, xa_args = []\<rparr>"

lemma example_guest_simps [simp]:
  "g_exported example_guest a name \<longleftrightarrow> name \<in> set [''agent_init'', ''agent_tick'', ''agent_checkpoint'',
      ''agent_checkpoint_ptr'', ''agent_resume'', ''malloc'']"
  "g_enter example_guest = example_enter" "g_event example_guest = example_event"
  "g_answer example_guest rs a = a\<lparr>xa_args := rs\<rparr>" "g_read example_guest = example_mem_read"
  "g_write example_guest = example_mem_write"
  by (simp_all add: example_guest_def)

lemma reads_exact_example: "reads_exact example_guest"
  by (auto simp: reads_exact_def example_mem_read_def split: if_splits)

end
