(* ===== verification/EventLog.thy ===== *)
theory EventLog
  imports Prelude
begin

text \<open>
  \<open>src/internal/eventlog/eventlog.go\<close>: the per-tick observation log.  Payloads are stored the way
  the code stores them: as windows into a pre-allocated arena while it has room, as separate heap
  slices afterwards.  \<open>Entries\<close> reads the stored payloads back; the lemmas show that the arena
  never lets one record overwrite another, so that the log is a plain list of observations for
  every other component.
\<close>

type_synonym HostcallID = uint16

abbreviation ClockNow :: HostcallID where "ClockNow \<equiv> 1"
abbreviation RandBytes :: HostcallID where "RandBytes \<equiv> 2"
abbreviation LogEmit :: HostcallID where "LogEmit \<equiv> 3"
abbreviation WalletBalance :: HostcallID where "WalletBalance \<equiv> 4"
abbreviation WalletReceiptCount :: HostcallID where "WalletReceiptCount \<equiv> 5"
abbreviation WalletReceipt :: HostcallID where "WalletReceipt \<equiv> 6"
abbreviation NodePrice :: HostcallID where "NodePrice \<equiv> 7"
abbreviation HTTPRequest :: HostcallID where "HTTPRequest \<equiv> 8"
abbreviation WalletPay :: HostcallID where "WalletPay \<equiv> 9"

text \<open>An entry as a reader sees it, and the place its payload is stored at.\<close>

type_synonym Entry = "HostcallID \<times> bytes"

datatype payload_ref = ArenaRef nat nat | HeapRef bytes

record TickLog =
  tl_TickNumber :: uint64
  tl_refs :: "(HostcallID \<times> payload_ref) list"
  tl_arena :: bytes
  tl_offset :: nat

definition defaultArenaSize :: nat where "defaultArenaSize = 4096"
definition DefaultMaxTicks :: int where "DefaultMaxTicks = 1024"

record EventLog =
  el_current :: "TickLog option"
  el_history :: "TickLog list"
  el_maxTicks :: int

section \<open>Operations\<close>

fun deref :: "bytes \<Rightarrow> payload_ref \<Rightarrow> bytes" where
  "deref arena (ArenaRef off len) = go_slice off (off + len) arena"
| "deref arena (HeapRef p) = p"

definition Entries :: "TickLog \<Rightarrow> Entry list" where
  "Entries tk = map (\<lambda>(hid, r). (hid, deref (tl_arena tk) r)) (tl_refs tk)"

definition NewEventLog :: "int \<Rightarrow> EventLog" where
  "NewEventLog maxTicks = \<lparr>el_current = None, el_history = [], el_maxTicks = maxTicks\<rparr>"

definition new_tick_log :: "uint64 \<Rightarrow> TickLog" where
  "new_tick_log tickNumber =
     \<lparr>tl_TickNumber = tickNumber, tl_refs = [], tl_arena = replicate defaultArenaSize 0, tl_offset = 0\<rparr>"

definition BeginTick :: "uint64 \<Rightarrow> EventLog \<Rightarrow> EventLog" where
  "BeginTick tickNumber l = l\<lparr>el_current := Some (new_tick_log tickNumber)\<rparr>"

text \<open>\<open>overwrite off p arena\<close> is \<open>copy(arena[off:off+len(p)], p)\<close>.\<close>

definition overwrite :: "nat \<Rightarrow> bytes \<Rightarrow> bytes \<Rightarrow> bytes" where
  "overwrite off p arena = take off arena @ p @ drop (off + length p) arena"

definition record_entry :: "HostcallID \<Rightarrow> bytes \<Rightarrow> TickLog \<Rightarrow> TickLog" where
  "record_entry hid payload tk =
     (let needed = length payload in
      if tl_offset tk + needed \<le> length (tl_arena tk)
      then tk\<lparr>tl_arena := overwrite (tl_offset tk) payload (tl_arena tk),
              tl_offset := tl_offset tk + needed,
              tl_refs := tl_refs tk @ [(hid, ArenaRef (tl_offset tk) needed)]\<rparr>
      else tk\<lparr>tl_refs := tl_refs tk @ [(hid, HeapRef payload)]\<rparr>)"

definition Record :: "HostcallID \<Rightarrow> bytes \<Rightarrow> EventLog \<Rightarrow> EventLog" where
  "Record hid payload l =
     (case el_current l of
        None \<Rightarrow> l
      | Some tk \<Rightarrow> l\<lparr>el_current := Some (record_entry hid payload tk)\<rparr>)"

definition SealTick :: "EventLog \<Rightarrow> TickLog option \<times> EventLog" where
  "SealTick l =
     (case el_current l of
        None \<Rightarrow> (None, l)
      | Some sealed \<Rightarrow>
          let history = el_history l @ [sealed] in
          (Some sealed,
           l\<lparr>el_current := None,
             el_history := (if el_maxTicks l > 0 \<and> int (length history) > el_maxTicks l
                            then drop (length history - nat (el_maxTicks l)) history
                            else history)\<rparr>))"

definition CurrentEntries :: "EventLog \<Rightarrow> Entry list option" where
  "CurrentEntries l = map_option Entries (el_current l)"

definition History :: "EventLog \<Rightarrow> TickLog list" where
  "History l = el_history l"

section \<open>The arena never aliases\<close>

fun ref_below :: "nat \<Rightarrow> payload_ref \<Rightarrow> bool" where
  "ref_below n (ArenaRef off len) = (off + len \<le> n)"
| "ref_below n (HeapRef p) = True"

definition wf_tick_log :: "TickLog \<Rightarrow> bool" where
  "wf_tick_log tk \<longleftrightarrow> tl_offset tk \<le> length (tl_arena tk) \<and>
     (\<forall>(hid, r) \<in> set (tl_refs tk). ref_below (tl_offset tk) r)"

definition wf_event_log :: "EventLog \<Rightarrow> bool" where
  "wf_event_log l \<longleftrightarrow> (\<forall>tk. el_current l = Some tk \<longrightarrow> wf_tick_log tk) \<and>
     (el_maxTicks l > 0 \<longrightarrow> int (length (el_history l)) \<le> el_maxTicks l)"

lemma ref_below_mono: "ref_below n r \<Longrightarrow> n \<le> m \<Longrightarrow> ref_below m r"
  by (cases r) auto

lemma length_overwrite [simp]:
  "off + length p \<le> length a \<Longrightarrow> length (overwrite off p a) = length a"
  by (simp add: overwrite_def)

lemma slice_overwrite_below:
  "b \<le> off \<Longrightarrow> off + length p \<le> length a \<Longrightarrow> go_slice s b (overwrite off p a) = go_slice s b a"
  by (simp add: overwrite_def slice_append_left) (simp add: go_slice_def drop_take)

lemma slice_overwrite_same:
  "off + length p \<le> length a \<Longrightarrow> go_slice off (off + length p) (overwrite off p a) = p"
  by (simp add: overwrite_def go_slice_def)

lemma deref_overwrite:
  "ref_below off r \<Longrightarrow> off + length p \<le> length a \<Longrightarrow> deref (overwrite off p a) r = deref a r"
  by (cases r) (simp_all add: slice_overwrite_below)

lemma wf_new_tick_log [simp]: "wf_tick_log (new_tick_log n)"
  by (simp add: wf_tick_log_def new_tick_log_def)

lemma Entries_new_tick_log [simp]: "Entries (new_tick_log n) = []"
  by (simp add: Entries_def new_tick_log_def)

lemma tl_TickNumber_record_entry [simp]:
  "tl_TickNumber (record_entry hid p tk) = tl_TickNumber tk"
  by (simp add: record_entry_def Let_def)

lemma wf_record_entry [simp]: "wf_tick_log tk \<Longrightarrow> wf_tick_log (record_entry hid p tk)"
  by (auto simp: wf_tick_log_def record_entry_def Let_def intro: ref_below_mono)

lemma Entries_record_entry [simp]:
  assumes "wf_tick_log tk"
  shows "Entries (record_entry hid p tk) = Entries tk @ [(hid, p)]"
proof (cases "tl_offset tk + length p \<le> length (tl_arena tk)")
  case True
  have "deref (overwrite (tl_offset tk) p (tl_arena tk)) r = deref (tl_arena tk) r"
    if "(i, r) \<in> set (tl_refs tk)" for i r
    using that assms True by (intro deref_overwrite) (auto simp: wf_tick_log_def)
  with True show ?thesis
    by (auto simp: Entries_def record_entry_def Let_def slice_overwrite_same)
next
  case False
  then show ?thesis by (simp add: Entries_def record_entry_def Let_def)
qed

lemma CurrentEntries_BeginTick [simp]: "CurrentEntries (BeginTick n l) = Some []"
  by (simp add: CurrentEntries_def BeginTick_def)

lemma CurrentEntries_Record:
  "wf_event_log l \<Longrightarrow>
     CurrentEntries (Record hid p l) = map_option (\<lambda>es. es @ [(hid, p)]) (CurrentEntries l)"
  by (auto simp: CurrentEntries_def Record_def wf_event_log_def split: option.splits)

lemma wf_NewEventLog [simp]: "wf_event_log (NewEventLog n)"
  by (simp add: wf_event_log_def NewEventLog_def)

lemma wf_BeginTick [simp]: "wf_event_log l \<Longrightarrow> wf_event_log (BeginTick n l)"
  by (simp add: wf_event_log_def BeginTick_def)

lemma wf_Record [simp]: "wf_event_log l \<Longrightarrow> wf_event_log (Record hid p l)"
  by (auto simp: wf_event_log_def Record_def split: option.splits)

lemma wf_SealTick [simp]: "wf_event_log l \<Longrightarrow> wf_event_log (snd (SealTick l))"
  by (auto simp: wf_event_log_def SealTick_def Let_def split: option.splits)

section \<open>The bounded history as a window over everything sealed\<close>

datatype log_op = OpBegin uint64 | OpRecord HostcallID bytes | OpSeal

text \<open>
  The abstract log: all sealed ticks since the start, each with its number and observations, and
  the tick being recorded.  The concrete log keeps the last \<open>maxTicks\<close> of them.
\<close>

type_synonym tick_view = "uint64 \<times> Entry list"

fun abs_op :: "log_op \<Rightarrow> tick_view list \<times> tick_view option \<Rightarrow> tick_view list \<times> tick_view option" where
  "abs_op (OpBegin n) (dn, cur) = (dn, Some (n, []))"
| "abs_op (OpRecord hid p) (dn, cur) = (dn, map_option (\<lambda>(n, es). (n, es @ [(hid, p)])) cur)"
| "abs_op OpSeal (dn, cur) = (case cur of None \<Rightarrow> (dn, None) | Some t \<Rightarrow> (dn @ [t], None))"

fun do_log_op :: "log_op \<Rightarrow> EventLog \<Rightarrow> EventLog" where
  "do_log_op (OpBegin n) l = BeginTick n l"
| "do_log_op (OpRecord hid p) l = Record hid p l"
| "do_log_op OpSeal l = snd (SealTick l)"

definition abs_tick :: "TickLog \<Rightarrow> tick_view" where
  "abs_tick tk = (tl_TickNumber tk, Entries tk)"

definition last_n :: "int \<Rightarrow> 'a list \<Rightarrow> 'a list" where
  "last_n n xs = (if n > 0 then drop (length xs - nat n) xs else xs)"

definition log_sim :: "EventLog \<Rightarrow> tick_view list \<times> tick_view option \<Rightarrow> bool" where
  "log_sim l a \<longleftrightarrow> wf_event_log l \<and>
     map abs_tick (el_history l) = last_n (el_maxTicks l) (fst a) \<and>
     map_option abs_tick (el_current l) = snd a"

lemma length_last_n: "0 < n \<Longrightarrow> length (last_n n xs) = min (length xs) (nat n)"
  by (simp add: last_n_def)

lemma last_n_snoc_full:
  "0 < n \<Longrightarrow> n < 1 + int (length (last_n n xs)) \<Longrightarrow>
     last_n n (xs @ [x]) = drop (Suc (length (last_n n xs)) - nat n) (last_n n xs @ [x])"
  by (auto simp: last_n_def Suc_diff_le)

lemma last_n_snoc_room:
  "\<not> n < 1 + int (length (last_n n xs)) \<Longrightarrow> last_n n (xs @ [x]) = last_n n xs @ [x]"
proof (cases "0 < n")
  case True
  assume "\<not> n < 1 + int (length (last_n n xs))"
  then have "n \<ge> 1 + int (min (length xs) (nat n))" unfolding length_last_n [OF True] by simp
  then have "Suc (length xs) - nat n = 0" by linarith
  with True show ?thesis by (simp add: last_n_def)
qed (simp add: last_n_def)

lemma log_sim_op: "log_sim l a \<Longrightarrow> log_sim (do_log_op opn l) (abs_op opn a)"
proof (cases opn)
  case (OpBegin n)
  assume "log_sim l a"
  with OpBegin show ?thesis
    by (cases a) (auto simp: log_sim_def BeginTick_def abs_tick_def wf_event_log_def new_tick_log_def
        Entries_def wf_tick_log_def)
next
  case (OpRecord hid p)
  assume "log_sim l a"
  with OpRecord show ?thesis
    by (cases a) (auto simp: log_sim_def Record_def abs_tick_def wf_event_log_def split: option.splits)
next
  case OpSeal
  assume sim: "log_sim l a"
  obtain dn cur where a: "a = (dn, cur)" by (cases a)
  show ?thesis
  proof (cases "el_current l")
    case None
    with sim OpSeal a show ?thesis by (auto simp: log_sim_def SealTick_def)
  next
    case (Some tk)
    have h: "map abs_tick (el_history l) = last_n (el_maxTicks l) dn"
      and c: "cur = Some (abs_tick tk)" and wf: "wf_event_log (snd (SealTick l))"
      using sim a Some by (auto simp: log_sim_def)
    have len: "length (el_history l) = length (last_n (el_maxTicks l) dn)"
      using h by (metis length_map)
    have "map abs_tick (el_history (snd (SealTick l))) = last_n (el_maxTicks l) (dn @ [abs_tick tk])"
    proof (cases "el_maxTicks l > 0 \<and> el_maxTicks l < 1 + int (length (last_n (el_maxTicks l) dn))")
      case True
      then show ?thesis
        by (simp add: SealTick_def Some last_n_snoc_full len h Let_def flip: drop_map)
    next
      case False
      then have "last_n (el_maxTicks l) (dn @ [abs_tick tk]) = last_n (el_maxTicks l) dn @ [abs_tick tk]"
        by (cases "el_maxTicks l > 0") (simp_all add: last_n_snoc_room, simp add: last_n_def)
      with False show ?thesis
        by (auto simp: SealTick_def Some len h Let_def)
    qed
    moreover have "el_maxTicks (snd (SealTick l)) = el_maxTicks l" "el_current (snd (SealTick l)) = None"
      by (simp_all add: SealTick_def Some Let_def)
    ultimately show ?thesis
      using wf by (simp add: log_sim_def OpSeal a c)
  qed
qed

lemma log_sim_run:
  "log_sim l a \<Longrightarrow> log_sim (fold do_log_op ops l) (fold abs_op ops a)"
proof (induction ops arbitrary: l a)
  case Nil
  then show ?case by simp
next
  case (Cons opn ops)
  from Cons.IH [OF log_sim_op [OF Cons.prems]] show ?case by simp
qed

lemma log_sim_init [simp]: "log_sim (NewEventLog n) ([], None)"
  by (simp add: log_sim_def NewEventLog_def wf_event_log_def last_n_def)

text \<open>
  C15 After any sequence of operations on a fresh event log, the retained history is exactly the last
  \<open>maxTicks\<close> sealed ticks (all of them when the bound is not positive), each with its number and
  its observations in the order they were recorded: neither eviction nor the arena storage loses,
  reorders or overwrites an observation.
\<close>

theorem event_log_refines_window:
  "map abs_tick (History (fold do_log_op ops (NewEventLog n))) = last_n n (fst (fold abs_op ops ([], None)))"
proof -
  have m: "el_maxTicks (fold do_log_op ops l) = el_maxTicks l" for l
  proof (induction ops arbitrary: l)
    case Nil
    then show ?case by simp
  next
    case (Cons x ops)
    have "el_maxTicks (do_log_op x l) = el_maxTicks l"
      by (cases x) (simp_all add: BeginTick_def Record_def SealTick_def Let_def split: option.splits)
    with Cons show ?case by simp
  qed
  have "log_sim (fold do_log_op ops (NewEventLog n)) (fold abs_op ops ([], None))"
    by (rule log_sim_run) simp
  then show ?thesis
    by (simp add: log_sim_def History_def m) (simp add: NewEventLog_def)
qed

end
