(* ===== verification/Float64.thy ===== *)
theory Float64
  imports Complex_Main Prelude
begin

text \<open>
  Go's \<open>float64\<close> where the repository computes with it (lease renewal windows, currency amounts,
  backoff delays): a finite float is the rational number it denotes, and an operation is the exact
  rational operation followed by rounding to the nearest 53-bit significand, ties to even.
  Infinities, NaN and subnormal results do not occur in the modelled code paths.
\<close>

fun bit_len :: "nat \<Rightarrow> nat" where
  "bit_len n = (if n = 0 then 0 else Suc (bit_len (n div 2)))"

declare bit_len.simps [simp del]

definition round_half_even :: "rat \<Rightarrow> int" where
  "round_half_even x =
     (let f = \<lfloor>x\<rfloor>; r = x - of_int f in
      if r < 1 / 2 then f else if 1 / 2 < r then f + 1 else if even f then f else f + 1)"

definition float64_round :: "rat \<Rightarrow> rat" where
  "float64_round x =
     (if x = 0 then 0
      else
        let (p, q) = quotient_of \<bar>x\<bar>;
            e = int (bit_len (nat p)) - int (bit_len (nat q)) - 53;
            e = (if 2 ^ 53 \<le> \<bar>x\<bar> / 2 powi e then e + 1 else e)
        in sgn x * of_int (round_half_even (\<bar>x\<bar> / 2 powi e)) * 2 powi e)"

definition float64_mul :: "rat \<Rightarrow> rat \<Rightarrow> rat" where
  "float64_mul a b = float64_round (a * b)"

text \<open>Conversion to an integer truncates towards zero.\<close>

definition float64_trunc :: "rat \<Rightarrow> int" where
  "float64_trunc x = (if x < 0 then \<lceil>x\<rceil> else \<lfloor>x\<rfloor>)"

lemma round_half_even_bounds: "\<lfloor>x\<rfloor> \<le> round_half_even x \<and> round_half_even x \<le> \<lfloor>x\<rfloor> + 1"
  by (simp add: round_half_even_def Let_def)

lemma round_half_even_of_int [simp]: "round_half_even (of_int i) = i"
  by (simp add: round_half_even_def)

lemma round_half_even_nonneg: "0 \<le> x \<Longrightarrow> 0 \<le> round_half_even x"
proof -
  assume "0 \<le> x"
  then have "0 \<le> \<lfloor>x\<rfloor>" by simp
  with round_half_even_bounds [of x] show ?thesis by linarith
qed

lemma float64_round_nonneg: "0 \<le> x \<Longrightarrow> 0 \<le> float64_round x"
  by (auto simp: float64_round_def Let_def split: prod.split
      intro!: mult_nonneg_nonneg round_half_even_nonneg divide_nonneg_nonneg)

lemma float64_mul_nonneg: "0 \<le> a \<Longrightarrow> 0 \<le> b \<Longrightarrow> 0 \<le> float64_mul a b"
  by (simp add: float64_mul_def float64_round_nonneg)

end
