(* ===== verification/Manifest.thy ===== *)
theory Manifest
  imports Float64 "HOL-Library.Char_ord" "HOL-Library.List_Lexorder"
begin

text \<open>
  The agent manifest (\<open>pkg/manifest\<close>): declared capabilities, resource limits, migration policy,
  their parsing and the check against the capabilities of a node.  \<open>json.Unmarshal\<close> is the
  parameter \<open>decode\<close> of the parsers: what it returns for a byte sequence is a
  \<open>manifestJSON\<close> value or an error.  A Go map is an association list whose order is the iteration
  order of that run; \<open>None\<close> is the nil map.
\<close>

datatype json_value = JNull | JBool bool | JNumber rat | JString string
  | JArray "json_value list" | JObject "(string \<times> json_value) list"

record CapabilityConfig =
  cc_Version :: int64
  cc_Options :: "(string \<times> json_value) list option"

type_synonym capability_map = "(string \<times> CapabilityConfig) list option"

record CapabilityManifest =
  cm_Capabilities :: capability_map

record MigrationPolicy =
  mp_Enabled :: bool
  mp_MaxPricePerSecond :: int64
  mp_PreferredRegions :: "string list"

record ResourceLimits =
  rl_MaxMemoryBytes :: uint64
  rl_MaxCPUMillis :: uint64
  rl_MaxStorageBytes :: uint64

record Manifest =
  mf_AgentID :: string
  mf_OwnerPublicKey :: bytes
  mf_Capabilities :: CapabilityManifest
  mf_MigrationPolicy :: "MigrationPolicy option"
  mf_ResourceLimits :: ResourceLimits

record manifestJSON =
  mj_Capabilities :: capability_map
  mj_ResourceLimits :: "ResourceLimits option"
  mj_MigrationPolicy :: "MigrationPolicy option"

abbreviation DefaultMaxMemoryBytes :: uint64 where "DefaultMaxMemoryBytes \<equiv> 67108864"
abbreviation WASMPageSize :: uint64 where "WASMPageSize \<equiv> 65536"

abbreviation NodeCapabilities :: "string list" where
  "NodeCapabilities \<equiv> [''clock'', ''rand'', ''log'', ''wallet'', ''pricing'', ''http'', ''x402'']"

definition entries_of :: "'a list option \<Rightarrow> 'a list" where
  "entries_of m = (case m of None \<Rightarrow> [] | Some es \<Rightarrow> es)"

lemma entries_of_simps [simp]: "entries_of None = []" "entries_of (Some es) = es"
  by (simp_all add: entries_of_def)

text \<open>\<open>Has\<close> and \<open>Names\<close> take a pointer; \<open>None\<close> is nil.\<close>

definition Has :: "CapabilityManifest option \<Rightarrow> string \<Rightarrow> bool" where
  "Has m name = (case m of None \<Rightarrow> False | Some cm \<Rightarrow> map_of (entries_of (cm_Capabilities cm)) name \<noteq> None)"

definition Names :: "CapabilityManifest option \<Rightarrow> string list option" where
  "Names m = (case m of None \<Rightarrow> None
     | Some cm \<Rightarrow> (case cm_Capabilities cm of None \<Rightarrow> None | Some es \<Rightarrow> Some (sort (map fst es))))"

definition MemoryLimitPages :: "ResourceLimits \<Rightarrow> uint32" where
  "MemoryLimitPages r =
     (if rl_MaxMemoryBytes r = 0 then ucast (DefaultMaxMemoryBytes div WASMPageSize)
      else let pages = rl_MaxMemoryBytes r div WASMPageSize;
               pages = (if pages = 0 then 1 else pages);
               pages = (if pages > 65536 then 65536 else pages)
           in ucast pages)"

text \<open>\<open>%q\<close> and \<open>%v\<close> of a string slice, as far as names of capabilities need them: \<open>%q\<close> escapes
  the quote and the backslash.\<close>

definition quote_q :: "string \<Rightarrow> string" where
  "quote_q s = [CHR 0x22] @
     concat (map (\<lambda>c. if c = CHR 0x22 \<or> c = CHR 0x5C then [CHR 0x5C, c] else [c]) s) @ [CHR 0x22]"

fun join_space :: "string list \<Rightarrow> string" where
  "join_space [] = ''''"
| "join_space [s] = s"
| "join_space (s # ss) = s @ '' '' @ join_space ss"

fun check_versions :: "(string \<times> CapabilityConfig) list \<Rightarrow> unit result" where
  "check_versions [] = Inr ()"
| "check_versions ((name, cfg) # es) =
     (if sint (cc_Version cfg) < 1
      then Inl (NewError (''capability '' @ quote_q name @ '': version must be >= 1, got '' @
                          dec_int (sint (cc_Version cfg))))
      else check_versions es)"

definition ParseCapabilityManifest ::
    "(bytes \<Rightarrow> CapabilityManifest result) \<Rightarrow> bytes \<Rightarrow> CapabilityManifest result" where
  "ParseCapabilityManifest decode data =
     (if length data = 0 then Inr \<lparr>cm_Capabilities = None\<rparr>
      else bindR (wrap_result ''parse capability manifest'' (decode data)) (\<lambda>m.
        let caps = entries_of (cm_Capabilities m)
        in bindR (check_versions caps) (\<lambda>_. Inr \<lparr>cm_Capabilities = Some caps\<rparr>)))"

abbreviation no_limits :: ResourceLimits where
  "no_limits \<equiv> \<lparr>rl_MaxMemoryBytes = 0, rl_MaxCPUMillis = 0, rl_MaxStorageBytes = 0\<rparr>"

definition ParseManifest :: "(bytes \<Rightarrow> manifestJSON result) \<Rightarrow> bytes \<Rightarrow> Manifest result" where
  "ParseManifest decode data =
     (if length data = 0
      then Inr \<lparr>mf_AgentID = [], mf_OwnerPublicKey = [], mf_Capabilities = \<lparr>cm_Capabilities = Some []\<rparr>,
                mf_MigrationPolicy = None, mf_ResourceLimits = no_limits\<rparr>
      else bindR (wrap_result ''parse manifest'' (decode data)) (\<lambda>raw.
        let caps = entries_of (mj_Capabilities raw)
        in bindR (check_versions caps) (\<lambda>_.
          Inr \<lparr>mf_AgentID = [], mf_OwnerPublicKey = [], mf_Capabilities = \<lparr>cm_Capabilities = Some caps\<rparr>,
               mf_MigrationPolicy = mj_MigrationPolicy raw,
               mf_ResourceLimits = (case mj_ResourceLimits raw of None \<Rightarrow> no_limits | Some l \<Rightarrow> l)\<rparr>)))"

definition ValidateAgainstNode :: "CapabilityManifest option \<Rightarrow> string list \<Rightarrow> unit result" where
  "ValidateAgainstNode m nodeCapabilities =
     (case m of None \<Rightarrow> Inr ()
      | Some cm \<Rightarrow>
          let missing = filter (\<lambda>name. name \<notin> set nodeCapabilities) (map fst (entries_of (cm_Capabilities cm)))
          in if length missing > 0
             then Inl (NewError (''node cannot satisfy capabilities: ['' @ join_space (sort missing) @ '']''))
             else Inr ())"

text \<open>\<open>LoadSidecarData\<close>; \<open>os.ReadFile\<close> is the argument \<open>read_file\<close>.\<close>

definition has_suffix :: "string \<Rightarrow> string \<Rightarrow> bool" where
  "has_suffix s suffix \<longleftrightarrow> length suffix \<le> length s \<and> drop (length s - length suffix) s = suffix"

definition trim_suffix :: "string \<Rightarrow> string \<Rightarrow> string" where
  "trim_suffix s suffix = (if has_suffix s suffix then take (length s - length suffix) s else s)"

definition sidecar_path :: "string \<Rightarrow> string \<Rightarrow> string" where
  "sidecar_path wasmPath manifestPath =
     (if manifestPath = '''' \<and> has_suffix wasmPath ''.wasm''
      then trim_suffix wasmPath ''.wasm'' @ ''.manifest.json'' else manifestPath)"

definition LoadSidecarData :: "(string \<Rightarrow> bytes result) \<Rightarrow> string \<Rightarrow> string \<Rightarrow> bytes" where
  "LoadSidecarData read_file wasmPath manifestPath =
     (case read_file (sidecar_path wasmPath manifestPath) of
        Inl _ \<Rightarrow> bytes_of_string ''{}''
      | Inr data \<Rightarrow> data)"

section \<open>Lemmas\<close>

lemma Has_iff: "Has (Some cm) name \<longleftrightarrow> name \<in> fst ` set (entries_of (cm_Capabilities cm))"
  by (simp add: Has_def map_of_eq_None_iff)

lemma Has_None [simp]: "\<not> Has None name"
  by (simp add: Has_def)

lemma check_versions_Inr_iff [simp]:
  "check_versions es = Inr u \<longleftrightarrow> (\<forall>(name, cfg) \<in> set es. 1 \<le> sint (cc_Version cfg))"
  by (induction es rule: check_versions.induct) (auto simp: not_less)

lemma ValidateAgainstNode_Inr_iff:
  "ValidateAgainstNode m node = Inr u \<longleftrightarrow> (\<forall>name. Has m name \<longrightarrow> name \<in> set node)"
  by (cases m) (auto simp: ValidateAgainstNode_def Let_def Has_iff filter_empty_conv)

lemma ParseManifest_versions:
  assumes "ParseManifest decode data = Inr m" "(name, cfg) \<in> set (entries_of (cm_Capabilities (mf_Capabilities m)))"
  shows "1 \<le> sint (cc_Version cfg)"
  using assms by (auto simp: ParseManifest_def Let_def bindR_Inr_iff split: if_splits)

lemma unat_memory_pages:
  fixes b :: uint64
  shows "unat (let pages = b div 65536; pages = (if pages = 0 then 1 else pages);
                   pages = (if pages > 65536 then 65536 else pages) in ucast pages :: uint32) =
         min 65536 (max 1 (unat b div 65536))"
proof -
  have d: "unat (b div 65536) = unat b div 65536" by (simp add: unat_div)
  have z: "b div 65536 = 0 \<longleftrightarrow> unat b div 65536 = 0" by (metis d unat_eq_zero)
  have g: "b div 65536 > 65536 \<longleftrightarrow> unat b div 65536 > 65536" by (simp add: word_less_nat_alt d)
  have "unat b div 65536 \<le> 65536 \<Longrightarrow> unat (ucast (b div 65536) :: uint32) = unat b div 65536"
    by (simp add: unsigned_ucast_eq take_bit_nat_eq_self d)
  then show ?thesis by (auto simp: Let_def z g min_def max_def not_less)
qed

section \<open>Properties\<close>

text \<open>
  Admission is exact: for a parsed manifest, the check against the node's capability list
  succeeds precisely when every declared capability is on the list, and otherwise its error names
  the undeclared ones, sorted, and nothing else.
\<close>

theorem ValidateAgainstNode_exact:
  "ValidateAgainstNode m node =
    (if \<forall>name. Has m name \<longrightarrow> name \<in> set node then Inr ()
     else Inl (NewError (''node cannot satisfy capabilities: ['' @
       join_space (filter (\<lambda>name. name \<notin> set node) (entries_of (Names m))) @ '']'')))"
proof (cases "\<forall>name. Has m name \<longrightarrow> name \<in> set node")
  case False
  then obtain cm where m: "m = Some cm" by (cases m) auto
  have "filter (\<lambda>name. name \<notin> set node) (map fst (entries_of (cm_Capabilities cm))) \<noteq> []"
    using False m by (auto simp: Has_iff filter_empty_conv)
  moreover have "entries_of (Names m) = sort (map fst (entries_of (cm_Capabilities cm)))"
    by (simp add: Names_def m split: option.split)
  ultimately show ?thesis
    using False by (simp add: ValidateAgainstNode_def m Let_def filter_sort)
qed (use ValidateAgainstNode_Inr_iff in auto)

abbreviation v1 :: CapabilityConfig where "v1 \<equiv> \<lparr>cc_Version = 1, cc_Options = None\<rparr>"

theorem ValidateAgainstNode_exact_witness:
  "ValidateAgainstNode (Some \<lparr>cm_Capabilities = Some [(''net'', v1), (''clock'', v1), (''kv'', v1)]\<rparr>) NodeCapabilities
     = Inl (NewError ''node cannot satisfy capabilities: [kv net]'')"
proof -
  have "Has (Some \<lparr>cm_Capabilities = Some [(''net'', v1), (''clock'', v1), (''kv'', v1)]\<rparr>) ''net''"
    by (simp add: Has_iff)
  moreover have "sort [''net'', ''clock'', ''kv''] = [''clock'', ''kv'', ''net'']" by code_simp
  ultimately show ?thesis
    by (subst ValidateAgainstNode_exact) (auto simp: Names_def)
qed

text \<open>
  The page limit is always between 1 and 65536 pages (4 GiB, the most a WebAssembly memory can
  have), and a limit of at least one page is never exceeded.
\<close>

theorem MemoryLimitPages_bounds:
  "unat (MemoryLimitPages r) \<in> {1..65536} \<and>
   (unat (rl_MaxMemoryBytes r) < 65536 \<or> unat (MemoryLimitPages r) * 65536 \<le> unat (rl_MaxMemoryBytes r))"
proof (cases "rl_MaxMemoryBytes r = 0")
  case False
  let ?n = "unat (rl_MaxMemoryBytes r) div 65536"
  have "unat (MemoryLimitPages r) = min 65536 (max 1 ?n)"
    using False unat_memory_pages [of "rl_MaxMemoryBytes r"] by (simp add: MemoryLimitPages_def)
  then show ?thesis by (auto simp: min_def max_def)
qed (simp add: MemoryLimitPages_def)

end
