(* ===== verification/Paths.thy ===== *)
theory Paths
  imports Prelude
begin

text \<open>
  The part of \<open>strings\<close> and \<open>path/filepath\<close> the program uses: splitting, joining and the lexical
  cleaning of slash-separated paths (Unix).
\<close>

abbreviation slash :: char where "slash \<equiv> CHR 0x2F"

primrec split_on :: "char \<Rightarrow> string \<Rightarrow> string list" where
  "split_on d [] = [[]]"
| "split_on d (c # cs) =
     (if c = d then [] # split_on d cs
      else case split_on d cs of [] \<Rightarrow> [[c]] | x # xs \<Rightarrow> (c # x) # xs)"

fun join_with :: "char \<Rightarrow> string list \<Rightarrow> string" where
  "join_with d [] = []"
| "join_with d [s] = s"
| "join_with d (s # ss) = s @ d # join_with d ss"

definition has_prefix :: "string \<Rightarrow> string \<Rightarrow> bool" where
  "has_prefix s p \<longleftrightarrow> take (length p) s = p"

text \<open>The element loop of \<open>filepath.Clean\<close>: the accumulator holds the output elements, last first.\<close>

fun clean_loop :: "bool \<Rightarrow> string list \<Rightarrow> string list \<Rightarrow> string list" where
  "clean_loop rooted acc [] = rev acc"
| "clean_loop rooted acc (e # es) =
     (if e = '''' \<or> e = ''.'' then clean_loop rooted acc es
      else if e = ''..'' then
        (case acc of
           [] \<Rightarrow> clean_loop rooted (if rooted then [] else [''..'']) es
         | a # as \<Rightarrow> clean_loop rooted (if a = ''..'' then ''..'' # acc else as) es)
      else clean_loop rooted (e # acc) es)"

definition is_rooted :: "string \<Rightarrow> bool" where
  "is_rooted p \<longleftrightarrow> p \<noteq> [] \<and> hd p = slash"

definition clean_elems :: "string \<Rightarrow> string list" where
  "clean_elems p = clean_loop (is_rooted p) [] (split_on slash p)"

definition filepath_Clean :: "string \<Rightarrow> string" where
  "filepath_Clean p =
     (if is_rooted p then slash # join_with slash (clean_elems p)
      else if clean_elems p = [] then ''.'' else join_with slash (clean_elems p))"

fun filepath_Join :: "string list \<Rightarrow> string" where
  "filepath_Join [] = ''''"
| "filepath_Join (e # es) = (if e = '''' then filepath_Join es else filepath_Clean (join_with slash (e # es)))"

section \<open>Splitting and joining\<close>

lemma split_on_neq_Nil [simp]: "split_on d s \<noteq> []"
  by (induction s) (auto split: list.split)

lemma split_on_append: "split_on d (a @ d # b) = split_on d a @ split_on d b"
  by (induction a) (auto split: list.split)

lemma split_on_plain: "d \<notin> set s \<Longrightarrow> split_on d s = [s]"
  by (induction s) auto

lemma split_on_join:
  assumes "ss \<noteq> []" "\<forall>s \<in> set ss. d \<notin> set s"
  shows "split_on d (join_with d ss) = ss"
  using assms by (induction d ss rule: join_with.induct) (auto simp: split_on_plain split_on_append)

lemma split_on_chars: "s \<in> set (split_on d p) \<Longrightarrow> d \<notin> set s"
  by (induction p arbitrary: s) (auto split: if_splits list.splits)

lemma join_split: "join_with d (split_on d s) = s"
proof (induction s)
  case (Cons c s)
  then show ?case by (cases "split_on d s" rule: join_with.cases [where x = "(d, xs)" for xs, simplified]) auto
qed simp

lemma join_with_snoc: "\<exists>pre. join_with d (ss @ [s]) = pre @ s"
proof (cases "ss = []")
  case False
  then have "join_with d (ss @ [s]) = join_with d ss @ d # s"
    by (induction d ss rule: join_with.induct) auto
  then show ?thesis by (metis append.assoc append_Cons append_Nil)
qed simp

lemma join_with_append:
  "xs \<noteq> [] \<Longrightarrow> ys \<noteq> [] \<Longrightarrow> join_with d (xs @ ys) = join_with d xs @ d # join_with d ys"
proof (induction d xs rule: join_with.induct)
  case (2 d s)
  then show ?case by (cases ys) auto
qed auto

section \<open>Cleaning\<close>

definition normal_elem :: "string \<Rightarrow> bool" where
  "normal_elem e \<longleftrightarrow> e \<noteq> '''' \<and> e \<noteq> ''.'' \<and> e \<noteq> ''..'' \<and> slash \<notin> set e"

text \<open>The elements of a cleaned path: parent references only at the front, none when rooted.\<close>

fun clean_shape :: "bool \<Rightarrow> string list \<Rightarrow> bool" where
  "clean_shape rooted [] = True"
| "clean_shape rooted (e # es) =
     (if e = ''..'' then \<not> rooted \<and> clean_shape rooted es else \<forall>x \<in> set (e # es). normal_elem x)"

lemma clean_shape_snoc:
  "clean_shape r xs \<Longrightarrow> normal_elem e \<Longrightarrow> clean_shape r (xs @ [e])"
  by (induction r xs rule: clean_shape.induct) (auto simp: normal_elem_def split: if_splits)

lemma clean_shape_snocD: "clean_shape r (xs @ [e]) \<Longrightarrow> clean_shape r xs"
  by (induction r xs rule: clean_shape.induct) (auto split: if_splits)

lemma clean_shape_dotdot:
  "clean_shape r (xs @ [''..'']) \<Longrightarrow> clean_shape r (xs @ [''..'', ''..''])"
  by (induction r xs rule: clean_shape.induct) (auto simp: normal_elem_def split: if_splits)

lemma clean_shape_loop:
  assumes "clean_shape r (rev acc)" "\<forall>e \<in> set es. slash \<notin> set e"
  shows "clean_shape r (clean_loop r acc es)"
  using assms
proof (induction r acc es rule: clean_loop.induct)
  case (2 r acc e es)
  then show ?case
    using clean_shape_snoc [of r "rev acc" e]
    by (cases acc) (auto simp: normal_elem_def clean_shape_dotdot dest: clean_shape_snocD)
qed simp

lemma clean_shape_elems: "clean_shape (is_rooted p) (clean_elems p)"
  unfolding clean_elems_def by (rule clean_shape_loop) (auto dest: split_on_chars)

lemma clean_loop_last:
  "normal_elem e \<Longrightarrow> clean_loop r acc (es @ [e]) = clean_loop r acc es @ [e]"
  by (induction r acc es rule: clean_loop.induct) (auto simp: normal_elem_def split: list.split)

lemma split_on_suffix:
  "d \<notin> set suf \<Longrightarrow> \<exists>xs l. split_on d (p @ suf) = xs @ [l @ suf] \<and> d \<notin> set l"
proof (induction p)
  case Nil
  then show ?case by (auto simp: split_on_plain intro: exI [of _ "[]"])
next
  case (Cons c p)
  then obtain xs l where h: "split_on d (p @ suf) = xs @ [l @ suf]" "d \<notin> set l" by auto
  show ?case
  proof (cases "c = d")
    case True
    with h show ?thesis by (auto intro: exI [of _ "[] # xs"])
  next
    case False
    with h show ?thesis
      by (cases xs) (force intro: exI [of _ "[]"], force intro: exI [of _ "(c # x) # ys" for x ys])
  qed
qed

text \<open>A suffix of at least three characters without a slash survives the cleaning.\<close>

lemma clean_suffix:
  assumes "slash \<notin> set suf" "2 < length suf"
  shows "\<exists>pre. filepath_Clean (p @ suf) = pre @ suf"
proof -
  obtain xs l where s: "split_on slash (p @ suf) = xs @ [l @ suf]" "slash \<notin> set l"
    using split_on_suffix [OF assms(1)] by blast
  have "normal_elem (l @ suf)"
    using assms s(2) by (auto simp: normal_elem_def dest: arg_cong [where f = length])
  then have "clean_elems (p @ suf) = clean_loop (is_rooted (p @ suf)) [] xs @ [l @ suf]"
    by (simp add: clean_elems_def s(1) clean_loop_last)
  moreover obtain pre where "join_with slash (clean_loop (is_rooted (p @ suf)) [] xs @ [l @ suf]) = pre @ l @ suf"
    using join_with_snoc by blast
  ultimately show ?thesis
    by (cases "is_rooted (p @ suf)") (auto simp: filepath_Clean_def intro: exI [of _ "slash # pre @ l"] exI [of _ "pre @ l"])
qed

lemma join_suffix:
  assumes "slash \<notin> set suf" "2 < length suf"
  shows "\<exists>pre. filepath_Join (es @ [x @ suf]) = pre @ suf"
proof (induction es)
  case Nil
  show ?case using clean_suffix [OF assms] assms(2) by auto
next
  case (Cons e es)
  obtain pre where "join_with slash ((e # es) @ [x @ suf]) = pre @ x @ suf"
    using join_with_snoc by blast
  then show ?case
    using Cons clean_suffix [OF assms, of "pre @ x"] by simp
qed

lemma clean_shape_hd:
  "clean_shape r es \<Longrightarrow> es \<noteq> [] \<Longrightarrow> hd es \<noteq> ''..'' \<Longrightarrow> e \<in> set es \<Longrightarrow> normal_elem e"
  by (cases es) auto

lemma clean_shape_rooted: "clean_shape True es \<Longrightarrow> e \<in> set es \<Longrightarrow> normal_elem e"
  by (cases es) (auto split: if_splits)

lemma clean_shape_no_slash: "clean_shape r es \<Longrightarrow> e \<in> set es \<Longrightarrow> slash \<notin> set e"
  by (induction r es rule: clean_shape.induct) (auto simp: normal_elem_def split: if_splits)

lemma clean_shape_not_dot: "clean_shape r es \<Longrightarrow> e \<in> set es \<Longrightarrow> e \<noteq> ''.'' \<and> e \<noteq> ''''"
  by (induction r es rule: clean_shape.induct) (auto simp: normal_elem_def split: if_splits)

declare filepath_Join.simps [simp del]

section \<open>Containment\<close>

lemma join_clean_hd:
  assumes "clean_shape r es" "es \<noteq> []"
  shows "join_with slash es \<noteq> [] \<and> hd (join_with slash es) \<noteq> slash"
proof -
  obtain e es' where es: "es = e # es'" using assms(2) by (cases es) auto
  then have "e \<noteq> []" "hd e \<noteq> slash"
    using clean_shape_no_slash [OF assms(1), of e] clean_shape_not_dot [OF assms(1), of e]
    by (auto dest: hd_in_set)
  then show ?thesis by (cases es') (simp_all add: es)
qed

lemma is_rooted_Clean: "is_rooted (filepath_Clean p) \<longleftrightarrow> is_rooted p"
  using join_clean_hd [OF clean_shape_elems [of p]]
  by (auto simp: filepath_Clean_def is_rooted_def)

lemma split_join_elems: "clean_elems p \<noteq> [] \<Longrightarrow> split_on slash (join_with slash (clean_elems p)) = clean_elems p"
  using clean_shape_no_slash [OF clean_shape_elems] by (intro split_on_join) auto

lemma has_prefixD: "has_prefix s (p @ [c]) \<Longrightarrow> \<exists>r. s = p @ c # r"
  unfolding has_prefix_def by (metis append.assoc append_Cons append_Nil append_take_drop_id)

text \<open>A cleaned path that starts with the cleaned base and a slash lies below the base: what follows
  are ordinary elements, so no parent reference leads out again.  The base must have an element and
  must not begin with a parent reference.\<close>

lemma clean_below:
  assumes "has_prefix (filepath_Clean p) (filepath_Clean base @ [slash])"
    "clean_elems base \<noteq> []" "hd (clean_elems base) \<noteq> ''..''"
  shows "\<exists>rest. filepath_Clean p = filepath_Clean base @ slash # join_with slash rest \<and>
    clean_elems p = clean_elems base @ rest \<and> rest \<noteq> [] \<and> (\<forall>e \<in> set rest. normal_elem e)"
proof -
  obtain r where r: "filepath_Clean p = filepath_Clean base @ slash # r"
    using has_prefixD [OF assms(1)] by blast
  have base: "filepath_Clean base = (if is_rooted base then [slash] else []) @ join_with slash (clean_elems base)"
    using assms(2) by (simp add: filepath_Clean_def)
  have "filepath_Clean base \<noteq> []"
    using join_clean_hd [OF clean_shape_elems assms(2)] by (simp add: base)
  then have same: "is_rooted p \<longleftrightarrow> is_rooted base"
    using is_rooted_Clean [of p] is_rooted_Clean [of base] r by (simp add: is_rooted_def)
  have "clean_elems p \<noteq> []"
    using r same join_clean_hd [OF clean_shape_elems assms(2)]
    by (auto simp: base filepath_Clean_def Cons_eq_append_conv)
  with r same have j: "join_with slash (clean_elems p) = join_with slash (clean_elems base) @ slash # r"
    by (auto simp: base filepath_Clean_def [of p])
  have e: "clean_elems p = clean_elems base @ split_on slash r"
    using arg_cong [OF j, of "split_on slash"] split_join_elems [OF \<open>clean_elems p \<noteq> []\<close>]
      split_join_elems [OF assms(2)] by (simp add: split_on_append)
  have "\<forall>x \<in> set (clean_elems p). normal_elem x"
    using clean_shape_hd [OF clean_shape_elems [of p]] \<open>clean_elems p \<noteq> []\<close> assms(2,3) e by simp
  moreover have "r = join_with slash (split_on slash r)" by (rule join_split [symmetric])
  ultimately show ?thesis using r e by auto
qed

end
