(* ===== verification/Crypto.thy ===== *)
theory Crypto
  imports Prelude
begin

text \<open>
  The cryptographic primitives the repository calls (\<open>crypto/sha256\<close>, \<open>crypto/ed25519\<close>) are a
  parameter of the model: a record of functions, passed to every definition that uses them.  What
  the code relies on, the documented behaviour of those packages, is the predicate \<open>crypto_ok\<close>:
  the sizes of digests, keys and signatures, and that a signature made with a private key verifies
  under its public half.  Nothing is assumed about forgery or collisions: theorems that need
  collision resistance are stated as reductions that exhibit a collision.
\<close>

record crypto =
  Sum256 :: "bytes \<Rightarrow> bytes"
  ed_Public :: "bytes \<Rightarrow> bytes"
  ed_Sign :: "bytes \<Rightarrow> bytes \<Rightarrow> bytes"
  ed_Verify :: "bytes \<Rightarrow> bytes \<Rightarrow> bytes \<Rightarrow> bool"

abbreviation PublicKeySize :: nat where "PublicKeySize \<equiv> 32"
abbreviation PrivateKeySize :: nat where "PrivateKeySize \<equiv> 64"
abbreviation SignatureSize :: nat where "SignatureSize \<equiv> 64"

definition crypto_ok :: "crypto \<Rightarrow> bool" where
  "crypto_ok C \<longleftrightarrow>
     (\<forall>m. length (Sum256 C m) = 32) \<and>
     (\<forall>k. length k = PrivateKeySize \<longrightarrow> length (ed_Public C k) = PublicKeySize) \<and>
     (\<forall>k m. length k = PrivateKeySize \<longrightarrow> length (ed_Sign C k m) = SignatureSize) \<and>
     (\<forall>k m. length k = PrivateKeySize \<longrightarrow> ed_Verify C (ed_Public C k) m (ed_Sign C k m))"

lemma crypto_okD:
  assumes "crypto_ok C"
  shows length_Sum256: "length (Sum256 C m) = 32"
    and length_ed_Public: "length k = PrivateKeySize \<Longrightarrow> length (ed_Public C k) = PublicKeySize"
    and length_ed_Sign: "length k = PrivateKeySize \<Longrightarrow> length (ed_Sign C k m) = SignatureSize"
    and ed_Verify_Sign: "length k = PrivateKeySize \<Longrightarrow> ed_Verify C (ed_Public C k) m (ed_Sign C k m)"
  using assms by (simp_all add: crypto_ok_def)

text \<open>A hash collision: two different messages with the same digest.\<close>

definition collision :: "crypto \<Rightarrow> bytes \<Rightarrow> bytes \<Rightarrow> bool" where
  "collision C a b \<longleftrightarrow> a \<noteq> b \<and> Sum256 C a = Sum256 C b"

text \<open>
  A concrete instance, with no security at all, on which the hypotheses can be evaluated: the
  digest keeps the first bytes of the message, a signature is the public key followed by a digest.
\<close>

definition sample_crypto :: crypto where
  "sample_crypto = \<lparr>
     Sum256 = (\<lambda>m. to_array 32 m),
     ed_Public = (\<lambda>k. to_array 32 k),
     ed_Sign = (\<lambda>k m. to_array 32 k @ to_array 32 m),
     ed_Verify = (\<lambda>p m s. s = p @ to_array 32 m)\<rparr>"

lemma sample_crypto_simps [simp]:
  "Sum256 sample_crypto m = to_array 32 m"
  "ed_Public sample_crypto k = to_array 32 k"
  "ed_Sign sample_crypto k m = to_array 32 k @ to_array 32 m"
  "ed_Verify sample_crypto p m s = (s = p @ to_array 32 m)"
  by (simp_all add: sample_crypto_def)

lemma crypto_ok_sample [simp]: "crypto_ok sample_crypto"
  by (simp add: crypto_ok_def)

end
