(* ===== verification/Hostcall.thy ===== *)
theory Hostcall
  imports Wasm EventLog Manifest Paths Crypto "HOL-Library.AList"
begin

text \<open>
  The capability membrane (\<open>internal/hostcall\<close>): the functions of the host module \<open>igor\<close>, which are
  the only way an agent observes or changes anything outside its own memory, and their registration
  from the manifest.  The three state interfaces of the package are one record of functions over a
  wallet state \<open>'w\<close>; the laws its payment client relies on are the locale \<open>wallet_pay_state\<close>.
  Clock, random source and HTTP client are sequences of values consumed in call order.
\<close>

section \<open>Interfaces and environment\<close>

text \<open>\<open>WalletState\<close>, \<open>PricingState\<close> and \<open>WalletPayState\<close>.\<close>

record 'w wallet_ops =
  w_GetBudget :: "'w \<Rightarrow> int64"
  w_GetReceiptCount :: "'w \<Rightarrow> nat"
  w_GetReceiptBytes :: "int \<Rightarrow> 'w \<Rightarrow> bytes result"
  w_GetNodePrice :: "'w \<Rightarrow> int64"
  w_DeductBudget :: "int64 \<Rightarrow> 'w \<Rightarrow> unit result \<times> 'w"
  w_GetAgentPubKey :: "'w \<Rightarrow> bytes"
  w_SignPayment :: "bytes \<Rightarrow> 'w \<Rightarrow> bytes"

record httpParams =
  hp_method :: string
  hp_url :: string
  hp_headers :: "(string \<times> string) list"
  hp_body :: "bytes option"

text \<open>What \<open>http.NewRequestWithContext\<close> and \<open>client.Do\<close> may give: a request that cannot be built, an
  error (with the request context expired or not), or a response whose body yields some bytes and then ends
  or fails.\<close>

datatype http_outcome = BadRequest | DoError bool | Response int64 bytes bool

record env =
  ev_clock :: "nat \<Rightarrow> int64"
  ev_rand :: "nat \<Rightarrow> bytes option"
  ev_hostname :: "string \<Rightarrow> string result"
  ev_http :: "nat \<Rightarrow> httpParams \<Rightarrow> int64 \<Rightarrow> http_outcome"
  ev_calls :: nat

record 'w hc_state =
  hc_log :: EventLog
  hc_wallet :: 'w
  hc_env :: env

definition next_env :: "'w hc_state \<Rightarrow> nat \<times> 'w hc_state" where
  "next_env h = (ev_calls (hc_env h), h\<lparr>hc_env := (hc_env h)\<lparr>ev_calls := Suc (ev_calls (hc_env h))\<rparr>\<rparr>)"

definition record_obs :: "HostcallID \<Rightarrow> bytes \<Rightarrow> 'w hc_state \<Rightarrow> 'w hc_state" where
  "record_obs hid payload h = h\<lparr>hc_log := Record hid payload (hc_log h)\<rparr>"

text \<open>How the engine passes results to the module.\<close>

definition ret_i64 :: "int64 \<Rightarrow> uint64 list" where "ret_i64 v = [v]"
definition ret_i32 :: "int32 \<Rightarrow> uint64 list" where "ret_i32 v = [ucast v]"

section \<open>Clock, randomness, log\<close>

definition clock_now :: "'m \<Rightarrow> 'w hc_state \<Rightarrow> uint64 list \<times> 'm \<times> 'w hc_state" where
  "clock_now m h =
     (let (n, h) = next_env h;
          now = ev_clock (hc_env h) n
      in (ret_i64 now, m, record_obs ClockNow (put_u64 now) h))"

abbreviation maxRandBytes :: uint32 where "maxRandBytes \<equiv> 67108864"
abbreviation maxLogBytes :: uint32 where "maxLogBytes \<equiv> 1048576"

definition rand_bytes :: "'m guest \<Rightarrow> uint32 \<Rightarrow> uint32 \<Rightarrow> 'm \<Rightarrow> 'w hc_state \<Rightarrow> uint64 list \<times> 'm \<times> 'w hc_state" where
  "rand_bytes G ptr len m h =
     (if len = 0 then (ret_i32 0, m, h)
      else if len > maxRandBytes then (ret_i32 (-2), m, h)
      else let (n, h) = next_env h in
        case ev_rand (hc_env h) n of
          None \<Rightarrow> (ret_i32 (-1), m, h)
        | Some r \<Rightarrow>
          let buf = to_array (unat len) r;
              h = record_obs RandBytes buf h
          in case g_write G ptr buf m of
               None \<Rightarrow> (ret_i32 (-4), m, h)
             | Some m \<Rightarrow> (ret_i32 0, m, h))"

definition log_emit :: "'m guest \<Rightarrow> uint32 \<Rightarrow> uint32 \<Rightarrow> 'm \<Rightarrow> 'w hc_state \<Rightarrow> uint64 list \<times> 'm \<times> 'w hc_state" where
  "log_emit G ptr len m h =
     (if len = 0 then ([], m, h)
      else if len > maxLogBytes then ([], m, h)
      else case g_read G ptr len m of
        None \<Rightarrow> ([], m, h)
      | Some data \<Rightarrow> ([], m, record_obs LogEmit data h))"

section \<open>Wallet and pricing observations\<close>

definition wallet_balance :: "'w wallet_ops \<Rightarrow> 'm \<Rightarrow> 'w hc_state \<Rightarrow> uint64 list \<times> 'm \<times> 'w hc_state" where
  "wallet_balance W m h =
     (let balance = w_GetBudget W (hc_wallet h)
      in (ret_i64 balance, m, record_obs WalletBalance (put_u64 balance) h))"

definition wallet_receipt_count :: "'w wallet_ops \<Rightarrow> 'm \<Rightarrow> 'w hc_state \<Rightarrow> uint64 list \<times> 'm \<times> 'w hc_state" where
  "wallet_receipt_count W m h =
     (let count = (of_nat (w_GetReceiptCount W (hc_wallet h)) :: int32)
      in (ret_i32 count, m, record_obs WalletReceiptCount (put_u32 count) h))"

definition wallet_receipt ::
    "'m guest \<Rightarrow> 'w wallet_ops \<Rightarrow> int32 \<Rightarrow> uint32 \<Rightarrow> uint32 \<Rightarrow> 'm \<Rightarrow> 'w hc_state \<Rightarrow> uint64 list \<times> 'm \<times> 'w hc_state" where
  "wallet_receipt G W index ptr len m h =
     (case w_GetReceiptBytes W (sint index) (hc_wallet h) of
        Inl _ \<Rightarrow> (ret_i32 (-1), m, h)
      | Inr data \<Rightarrow>
        if len_u32 data > len then (ret_i32 (-4), m, h)
        else let h = record_obs WalletReceipt data h
             in case g_write G ptr data m of
                  None \<Rightarrow> (ret_i32 (-4), m, h)
                | Some m \<Rightarrow> (ret_i32 (len_u32 data), m, h))"

definition node_price :: "'w wallet_ops \<Rightarrow> 'm \<Rightarrow> 'w hc_state \<Rightarrow> uint64 list \<times> 'm \<times> 'w hc_state" where
  "node_price W m h =
     (let price = w_GetNodePrice W (hc_wallet h)
      in (ret_i64 price, m, record_obs NodePrice (put_u64 price) h))"

section \<open>Capability options\<close>

text \<open>\<open>strings.ToLower\<close> and \<open>strings.TrimSpace\<close> on ASCII text.\<close>

definition to_lower :: "string \<Rightarrow> string" where
  "to_lower s = map (\<lambda>c. if CHR ''A'' \<le> c \<and> c \<le> CHR ''Z'' then char_of (of_char c + (32 :: nat)) else c) s"

definition is_space :: "char \<Rightarrow> bool" where
  "is_space c \<longleftrightarrow> c \<in> {CHR 0x09, CHR 0x0A, CHR 0x0B, CHR 0x0C, CHR 0x0D, CHR 0x20}"

definition trim_space :: "string \<Rightarrow> string" where
  "trim_space s = rev (dropWhile is_space (rev (dropWhile is_space s)))"

definition string_options :: "string \<Rightarrow> CapabilityConfig \<Rightarrow> string list" where
  "string_options key cfg =
     (case cc_Options cfg of
        None \<Rightarrow> []
      | Some opts \<Rightarrow>
        (case map_of opts key of
           Some (JArray vs) \<Rightarrow> List.map_filter (\<lambda>v. case v of JString s \<Rightarrow> Some s | _ \<Rightarrow> None) vs
         | _ \<Rightarrow> []))"

definition extractAllowedRecipients :: "CapabilityConfig \<Rightarrow> string list" where
  "extractAllowedRecipients cfg = string_options ''allowed_recipients'' cfg"

definition extractAllowedHosts :: "CapabilityConfig \<Rightarrow> string list" where
  "extractAllowedHosts cfg = map to_lower (string_options ''allowed_hosts'' cfg)"

text \<open>\<open>int(v)\<close> of a float outside the range of \<open>int\<close> is left to the implementation; amd64 gives the smallest value.\<close>

definition int_of_float :: "rat \<Rightarrow> int64" where
  "int_of_float f = (let v = float64_trunc f in if MinInt64 \<le> v \<and> v \<le> MaxInt64 then word_of_int v else word_of_int MinInt64)"

definition extractIntOption :: "(string \<times> json_value) list option \<Rightarrow> string \<Rightarrow> int64 \<Rightarrow> int64" where
  "extractIntOption opts key defaultVal =
     (case opts of
        None \<Rightarrow> defaultVal
      | Some os \<Rightarrow> (case map_of os key of Some (JNumber f) \<Rightarrow> int_of_float f | _ \<Rightarrow> defaultVal))"

section \<open>HTTP\<close>

abbreviation defaultHTTPTimeoutMs :: int64 where "defaultHTTPTimeoutMs \<equiv> 10000"
abbreviation defaultMaxResponseBytes :: int64 where "defaultMaxResponseBytes \<equiv> 1048576"
abbreviation httpErrNetwork :: int32 where "httpErrNetwork \<equiv> -1"
abbreviation httpErrInputTooLong :: int32 where "httpErrInputTooLong \<equiv> -2"
abbreviation httpErrHostBlocked :: int32 where "httpErrHostBlocked \<equiv> -3"
abbreviation httpErrTimeout :: int32 where "httpErrTimeout \<equiv> -4"
abbreviation httpErrRespTooLarge :: int32 where "httpErrRespTooLarge \<equiv> -5"

definition split_n2 :: "char \<Rightarrow> string \<Rightarrow> (string \<times> string) option" where
  "split_n2 d s = (if d \<in> set s then Some (takeWhile (\<lambda>c. c \<noteq> d) s, tl (dropWhile (\<lambda>c. c \<noteq> d) s)) else None)"

fun parse_header_lines :: "string list \<Rightarrow> (string \<times> string) list \<Rightarrow> (string \<times> string) list" where
  "parse_header_lines [] headers = headers"
| "parse_header_lines (line # ls) headers =
     (let line = trim_space line in
      if line = '''' then parse_header_lines ls headers
      else case split_n2 CHR '':'' line of
        None \<Rightarrow> parse_header_lines ls headers
      | Some (k, v) \<Rightarrow> parse_header_lines ls (AList.update (trim_space k) (trim_space v) headers))"

definition parseHeaders :: "string \<Rightarrow> (string \<times> string) list" where
  "parseHeaders raw = parse_header_lines (split_on CHR 0x0A raw) []"

definition readHTTPParams :: "'m guest \<Rightarrow> 'm \<Rightarrow> span \<Rightarrow> span \<Rightarrow> span \<Rightarrow> span \<Rightarrow> int32 + httpParams" where
  "readHTTPParams G m method url headers body =
     (if snd method > 16 \<or> snd url > 8192 \<or> snd headers > 32768 \<or> snd body > 1048576
      then Inl httpErrInputTooLong
      else case g_read G (fst method) (snd method) m of
        None \<Rightarrow> Inl httpErrNetwork
      | Some methodData \<Rightarrow>
        (case g_read G (fst url) (snd url) m of
           None \<Rightarrow> Inl httpErrNetwork
         | Some urlData \<Rightarrow>
           (case (if snd headers > 0 then map_option (\<lambda>d. parseHeaders (string_of_bytes d)) (g_read G (fst headers) (snd headers) m)
                  else Some []) of
              None \<Rightarrow> Inl httpErrNetwork
            | Some hs \<Rightarrow>
              (case (if snd body > 0 then map_option Some (g_read G (fst body) (snd body) m) else Some None) of
                 None \<Rightarrow> Inl httpErrNetwork
               | Some b \<Rightarrow> Inr \<lparr>hp_method = string_of_bytes methodData, hp_url = string_of_bytes urlData,
                               hp_headers = hs, hp_body = b\<rparr>))))"

definition writeSizeHint :: "'m guest \<Rightarrow> uint32 \<Rightarrow> uint32 \<Rightarrow> nat \<Rightarrow> 'm \<Rightarrow> 'm" where
  "writeSizeHint G respPtr respCap sz m =
     (if respCap \<ge> 4 then case g_write G respPtr (put_u32 (of_nat sz)) m of None \<Rightarrow> m | Some m' \<Rightarrow> m' else m)"

definition checkAllowedHost :: "(string \<Rightarrow> string result) \<Rightarrow> string \<Rightarrow> string list \<Rightarrow> unit result" where
  "checkAllowedHost hostname rawURL allowedHosts =
     (if length allowedHosts = 0 then Inr ()
      else bindR (wrap_result ''invalid URL'' (hostname rawURL)) (\<lambda>h.
        let host = to_lower h
        in if host \<in> set allowedHosts then Inr ()
           else Inl (NewError (''host '' @ quote_q host @ '' not in allowed_hosts''))))"

record http_cfg =
  ht_allowedHosts :: "string list"
  ht_timeoutMs :: int64
  ht_maxRespBytes :: int64

definition http_request ::
    "'m guest \<Rightarrow> http_cfg \<Rightarrow> span \<Rightarrow> span \<Rightarrow> span \<Rightarrow> span \<Rightarrow> span \<Rightarrow> 'm \<Rightarrow> 'w hc_state \<Rightarrow> uint64 list \<times> 'm \<times> 'w hc_state" where
  "http_request G cfg method url headers body resp m h =
     (case readHTTPParams G m method url headers body of
        Inl code \<Rightarrow> (ret_i32 code, m, h)
      | Inr params \<Rightarrow>
        (case checkAllowedHost (ev_hostname (hc_env h)) (hp_url params) (ht_allowedHosts cfg) of
           Inl _ \<Rightarrow> (ret_i32 httpErrHostBlocked, m, h)
         | Inr _ \<Rightarrow>
           let (n, h) = next_env h in
           case ev_http (hc_env h) n params (ht_timeoutMs cfg) of
             BadRequest \<Rightarrow> (ret_i32 httpErrNetwork, m, h)
           | DoError expired \<Rightarrow> (ret_i32 (if expired then httpErrTimeout else httpErrNetwork), m, h)
           | Response status full fails \<Rightarrow>
             let limit = sint (ht_maxRespBytes cfg + 1);
                 respBody = take (nat limit) full
             in if fails \<and> int (length full) < limit then (ret_i32 httpErrNetwork, m, h)
                else if int (length respBody) > sint (ht_maxRespBytes cfg)
                then (ret_i32 httpErrRespTooLarge, writeSizeHint G (fst resp) (snd resp) (length respBody) m, h)
                else let needed = (of_nat (4 + length respBody) :: uint32) in
                  if needed > snd resp
                  then (ret_i32 httpErrRespTooLarge, writeSizeHint G (fst resp) (snd resp) (length respBody) m, h)
                  else case g_write G (fst resp) (put_u32 (len_u32 respBody) @ respBody) m of
                    None \<Rightarrow> (ret_i32 httpErrNetwork, m, h)
                  | Some m \<Rightarrow> (ret_i32 (ucast status), m,
                      record_obs HTTPRequest (put_u32 (ucast status) @ respBody) h)))"

section \<open>Payment\<close>

abbreviation payErrInsufficientBudget :: int32 where "payErrInsufficientBudget \<equiv> -1"
abbreviation payErrInputTooLong :: int32 where "payErrInputTooLong \<equiv> -2"
abbreviation payErrRecipientBlocked :: int32 where "payErrRecipientBlocked \<equiv> -3"
abbreviation payErrAmountExceeded :: int32 where "payErrAmountExceeded \<equiv> -4"
abbreviation payErrBufferTooSmall :: int32 where "payErrBufferTooSmall \<equiv> -5"
abbreviation payErrProcessing :: int32 where "payErrProcessing \<equiv> -6"

record pay_cfg =
  py_allowedRecipients :: "string list"
  py_maxPayment :: int64

text \<open>The signed part of a payment receipt.\<close>

definition payment_data :: "int64 \<Rightarrow> int64 \<Rightarrow> bytes \<Rightarrow> bytes \<Rightarrow> bytes \<Rightarrow> bytes" where
  "payment_data amount ts recipient memo pubKey =
     put_u64 amount @ put_u64 ts @ put_u32 (len_u32 recipient) @ recipient @ put_u32 (len_u32 memo) @ memo @ pubKey"

text \<open>The last part of the host function, after every check: deduct, build and sign the receipt, hand it out, record it.\<close>

definition pay_settle ::
    "'m guest \<Rightarrow> 'w wallet_ops \<Rightarrow> int64 \<Rightarrow> bytes \<Rightarrow> bytes \<Rightarrow> bytes \<Rightarrow> uint32 \<Rightarrow> uint32 \<Rightarrow> 'm \<Rightarrow> 'w hc_state \<Rightarrow>
     uint64 list \<times> 'm \<times> 'w hc_state" where
  "pay_settle G W amount recipient memo pubKey needed receiptPtr m h =
     (case w_DeductBudget W amount (hc_wallet h) of
        (Inl _, w) \<Rightarrow> (ret_i32 payErrProcessing, m, h\<lparr>hc_wallet := w\<rparr>)
      | (Inr _, w) \<Rightarrow>
        let (n, h) = next_env (h\<lparr>hc_wallet := w\<rparr>);
            receiptData = payment_data amount (ev_clock (hc_env h) n) recipient memo pubKey;
            fullReceipt = receiptData @ w_SignPayment W receiptData (hc_wallet h);
            out = to_array (unat needed) (put_u32 (len_u32 fullReceipt) @ fullReceipt)
        in case g_write G receiptPtr out m of
             None \<Rightarrow> (ret_i32 payErrProcessing, m, h)
           | Some m \<Rightarrow> (ret_i32 needed, m, record_obs WalletPay (put_u64 amount @ fullReceipt) h))"

definition full_receipt_len :: "bytes \<Rightarrow> bytes \<Rightarrow> bytes \<Rightarrow> nat" where
  "full_receipt_len recipient memo pubKey =
     (let receiptDataLen = 8 + 8 + 4 + length recipient + 4 + length memo + length pubKey
      in receiptDataLen + SignatureSize)"

definition pay_needed :: "bytes \<Rightarrow> bytes \<Rightarrow> bytes \<Rightarrow> uint32" where
  "pay_needed recipient memo pubKey = of_nat (4 + full_receipt_len recipient memo pubKey)"

definition read_memo :: "'m guest \<Rightarrow> span \<Rightarrow> 'm \<Rightarrow> bytes option" where
  "read_memo G memoS m = (if snd memoS > 0 then g_read G (fst memoS) (snd memoS) m else Some [])"

definition wallet_pay ::
    "'m guest \<Rightarrow> 'w wallet_ops \<Rightarrow> pay_cfg \<Rightarrow> int64 \<Rightarrow> span \<Rightarrow> span \<Rightarrow> span \<Rightarrow> 'm \<Rightarrow> 'w hc_state \<Rightarrow>
     uint64 list \<times> 'm \<times> 'w hc_state" where
  "wallet_pay G W cfg amount recip memoS rcpt m h =
     (if snd recip > 256 \<or> snd memoS > 512 then (ret_i32 payErrInputTooLong, m, h)
      else case g_read G (fst recip) (snd recip) m of
        None \<Rightarrow> (ret_i32 payErrProcessing, m, h)
      | Some recipient \<Rightarrow>
      (case read_memo G memoS m of
        None \<Rightarrow> (ret_i32 payErrProcessing, m, h)
      | Some memo \<Rightarrow>
        if sint amount \<le> 0 then (ret_i32 payErrProcessing, m, h)
        else if 0 < sint (py_maxPayment cfg) \<and> sint amount > sint (py_maxPayment cfg)
        then (ret_i32 payErrAmountExceeded, m, h)
        else if py_allowedRecipients cfg \<noteq> [] \<and> string_of_bytes recipient \<notin> set (py_allowedRecipients cfg)
        then (ret_i32 payErrRecipientBlocked, m, h)
        else
          let pubKey = w_GetAgentPubKey W (hc_wallet h);
              fullReceiptLen = full_receipt_len recipient memo pubKey;
              needed = pay_needed recipient memo pubKey
          in if needed > snd rcpt
             then (ret_i32 payErrBufferTooSmall, writeSizeHint G (fst rcpt) (snd rcpt) fullReceiptLen m, h)
             else if sint (w_GetBudget W (hc_wallet h)) < sint amount
             then (ret_i32 payErrInsufficientBudget, m, h)
             else pay_settle G W amount recipient memo pubKey needed (fst rcpt) m h))"

section \<open>Registration\<close>

record Registry =
  rg_walletState :: bool
  rg_pricingState :: bool
  rg_walletPayState :: bool

definition NewRegistry :: Registry where
  "NewRegistry = \<lparr>rg_walletState = False, rg_pricingState = False, rg_walletPayState = False\<rparr>"

definition SetWalletState :: "Registry \<Rightarrow> Registry" where "SetWalletState r = r\<lparr>rg_walletState := True\<rparr>"
definition SetPricingState :: "Registry \<Rightarrow> Registry" where "SetPricingState r = r\<lparr>rg_pricingState := True\<rparr>"
definition SetWalletPayState :: "Registry \<Rightarrow> Registry" where "SetWalletPayState r = r\<lparr>rg_walletPayState := True\<rparr>"

text \<open>The functions the instantiated host module exports, with the configuration its closures captured.\<close>

record host_module =
  hm_clock :: bool
  hm_rand :: bool
  hm_log :: bool
  hm_wallet :: bool
  hm_pricing :: bool
  hm_http :: "http_cfg option"
  hm_pay :: "pay_cfg option"

abbreviation empty_module :: host_module where
  "empty_module \<equiv> \<lparr>hm_clock = False, hm_rand = False, hm_log = False, hm_wallet = False,
     hm_pricing = False, hm_http = None, hm_pay = None\<rparr>"

definition cap_config :: "CapabilityManifest option \<Rightarrow> string \<Rightarrow> CapabilityConfig" where
  "cap_config m name =
     (case m of None \<Rightarrow> \<lparr>cc_Version = 0, cc_Options = None\<rparr>
      | Some cm \<Rightarrow> (case map_of (entries_of (cm_Capabilities cm)) name of
                     None \<Rightarrow> \<lparr>cc_Version = 0, cc_Options = None\<rparr> | Some c \<Rightarrow> c))"

definition registerHTTP :: "CapabilityConfig \<Rightarrow> http_cfg" where
  "registerHTTP capCfg =
     \<lparr>ht_allowedHosts = extractAllowedHosts capCfg,
      ht_timeoutMs = extractIntOption (cc_Options capCfg) ''timeout_ms'' defaultHTTPTimeoutMs,
      ht_maxRespBytes = extractIntOption (cc_Options capCfg) ''max_response_bytes'' defaultMaxResponseBytes\<rparr>"

definition registerPayment :: "CapabilityConfig \<Rightarrow> pay_cfg" where
  "registerPayment capCfg =
     \<lparr>py_allowedRecipients = extractAllowedRecipients capCfg,
      py_maxPayment = extractIntOption (cc_Options capCfg) ''max_payment_microcents'' 0\<rparr>"

text \<open>The engine's part is two arguments: the result of closing an \<open>igor\<close> module that already exists
  (\<open>Inr ()\<close> if there is none) and of instantiating the new one.  \<open>None\<close> is the case in which no module
  is instantiated.\<close>

definition RegisterHostModule ::
    "unit result \<Rightarrow> unit result \<Rightarrow> Registry \<Rightarrow> CapabilityManifest option \<Rightarrow> host_module option result" where
  "RegisterHostModule close_existing instantiate r m =
     bindR (wrap_result ''failed to close existing igor module'' close_existing) (\<lambda>_.
       let md = \<lparr>hm_clock = Has m ''clock'', hm_rand = Has m ''rand'', hm_log = Has m ''log'',
                 hm_wallet = (Has m ''wallet'' \<and> rg_walletState r),
                 hm_pricing = (Has m ''pricing'' \<and> rg_pricingState r),
                 hm_http = (if Has m ''http'' then Some (registerHTTP (cap_config m ''http'')) else None),
                 hm_pay = (if Has m ''x402'' \<and> rg_walletPayState r
                           then Some (registerPayment (cap_config m ''x402'')) else None)\<rparr>
       in if md = empty_module then Inr None
          else bindR (wrap_result ''failed to instantiate igor host module'' instantiate) (\<lambda>_. Inr (Some md)))"

fun exports :: "host_module option \<Rightarrow> hostreq \<Rightarrow> bool" where
  "exports None _ = False"
| "exports (Some md) ReqClockNow = hm_clock md"
| "exports (Some md) (ReqRandBytes _ _) = hm_rand md"
| "exports (Some md) (ReqLogEmit _ _) = hm_log md"
| "exports (Some md) ReqWalletBalance = hm_wallet md"
| "exports (Some md) ReqWalletReceiptCount = hm_wallet md"
| "exports (Some md) (ReqWalletReceipt _ _ _) = hm_wallet md"
| "exports (Some md) ReqNodePrice = hm_pricing md"
| "exports (Some md) (ReqHTTP _ _ _ _ _) = (hm_http md \<noteq> None)"
| "exports (Some md) (ReqWalletPay _ _ _ _) = (hm_pay md \<noteq> None)"

text \<open>The registered module as a host.\<close>

definition live_host :: "'m guest \<Rightarrow> 'w wallet_ops \<Rightarrow> host_module option \<Rightarrow> ('m, 'w hc_state) host" where
  "live_host G W md rq m h =
     (if \<not> exports md rq then None
      else Some (case rq of
          ReqClockNow \<Rightarrow> clock_now m h
        | ReqRandBytes p n \<Rightarrow> rand_bytes G p n m h
        | ReqLogEmit p n \<Rightarrow> log_emit G p n m h
        | ReqWalletBalance \<Rightarrow> wallet_balance W m h
        | ReqWalletReceiptCount \<Rightarrow> wallet_receipt_count W m h
        | ReqWalletReceipt i p n \<Rightarrow> wallet_receipt G W i p n m h
        | ReqNodePrice \<Rightarrow> node_price W m h
        | ReqHTTP a b c d e \<Rightarrow> http_request G (the (hm_http (the md))) a b c d e m h
        | ReqWalletPay v a b c \<Rightarrow> wallet_pay G W (the (hm_pay (the md))) v a b c m h))"

section \<open>What a host call may do\<close>

fun capability_of :: "hostreq \<Rightarrow> string" where
  "capability_of ReqClockNow = ''clock''"
| "capability_of (ReqRandBytes _ _) = ''rand''"
| "capability_of (ReqLogEmit _ _) = ''log''"
| "capability_of ReqWalletBalance = ''wallet''"
| "capability_of ReqWalletReceiptCount = ''wallet''"
| "capability_of (ReqWalletReceipt _ _ _) = ''wallet''"
| "capability_of ReqNodePrice = ''pricing''"
| "capability_of (ReqHTTP _ _ _ _ _) = ''http''"
| "capability_of (ReqWalletPay _ _ _ _) = ''x402''"

fun hostcall_id :: "hostreq \<Rightarrow> HostcallID" where
  "hostcall_id ReqClockNow = ClockNow"
| "hostcall_id (ReqRandBytes _ _) = RandBytes"
| "hostcall_id (ReqLogEmit _ _) = LogEmit"
| "hostcall_id ReqWalletBalance = WalletBalance"
| "hostcall_id ReqWalletReceiptCount = WalletReceiptCount"
| "hostcall_id (ReqWalletReceipt _ _ _) = WalletReceipt"
| "hostcall_id ReqNodePrice = NodePrice"
| "hostcall_id (ReqHTTP _ _ _ _ _) = HTTPRequest"
| "hostcall_id (ReqWalletPay _ _ _ _) = WalletPay"

lemma next_env_simps [simp]:
  "hc_log (snd (next_env h)) = hc_log h" "hc_wallet (snd (next_env h)) = hc_wallet h"
  "fst (next_env h) = ev_calls (hc_env h)"
  "ev_clock (hc_env (snd (next_env h))) = ev_clock (hc_env h)"
  "ev_rand (hc_env (snd (next_env h))) = ev_rand (hc_env h)"
  by (simp_all add: next_env_def)

lemma record_obs_simps [simp]:
  "hc_log (record_obs i p h) = Record i p (hc_log h)" "hc_wallet (record_obs i p h) = hc_wallet h"
  "hc_env (record_obs i p h) = hc_env h"
  by (simp_all add: record_obs_def)

named_theorems hostcall_defs \<open>the definitions of the host functions\<close>

declare clock_now_def [hostcall_defs] rand_bytes_def [hostcall_defs] log_emit_def [hostcall_defs]
  wallet_balance_def [hostcall_defs] wallet_receipt_count_def [hostcall_defs]
  wallet_receipt_def [hostcall_defs] node_price_def [hostcall_defs]

text \<open>A payment either is refused with nothing changed but a size hint, or fails in \<open>DeductBudget\<close>,
  or deducts and then writes and records the receipt, or deducts and cannot write the receipt.\<close>

definition pay_checks :: "'m guest \<Rightarrow> 'w wallet_ops \<Rightarrow> pay_cfg \<Rightarrow> int64 \<Rightarrow> span \<Rightarrow> span \<Rightarrow> span \<Rightarrow> 'm \<Rightarrow> 'w hc_state \<Rightarrow>
    bytes \<Rightarrow> bytes \<Rightarrow> bool" where
  "pay_checks G W cfg amount recip memoS rcpt m h recipient memo \<longleftrightarrow>
     snd recip \<le> 256 \<and> snd memoS \<le> 512 \<and> g_read G (fst recip) (snd recip) m = Some recipient \<and>
     read_memo G memoS m = Some memo \<and>
     0 < sint amount \<and> (0 < sint (py_maxPayment cfg) \<longrightarrow> sint amount \<le> sint (py_maxPayment cfg)) \<and>
     (py_allowedRecipients cfg \<noteq> [] \<longrightarrow> string_of_bytes recipient \<in> set (py_allowedRecipients cfg)) \<and>
     pay_needed recipient memo (w_GetAgentPubKey W (hc_wallet h)) \<le> snd rcpt \<and>
     sint amount \<le> sint (w_GetBudget W (hc_wallet h))"

lemma wallet_pay_checked:
  assumes "pay_checks G W cfg amount recip memoS rcpt m h recipient memo"
  shows "wallet_pay G W cfg amount recip memoS rcpt m h =
    (let pubKey = w_GetAgentPubKey W (hc_wallet h)
     in pay_settle G W amount recipient memo pubKey (pay_needed recipient memo pubKey) (fst rcpt) m h)"
  using assms by (auto simp add: wallet_pay_def pay_checks_def Let_def not_less not_le)

lemma wallet_pay_unchecked:
  assumes "\<And>recipient memo. \<not> pay_checks G W cfg amount recip memoS rcpt m h recipient memo"
  shows "\<exists>e m'. wallet_pay G W cfg amount recip memoS rcpt m h = (ret_i32 e, m', h) \<and> sint e < 0"
proof -
  show ?thesis
  proof (cases "snd recip > 256 \<or> snd memoS > 512 \<or> g_read G (fst recip) (snd recip) m = None \<or> read_memo G memoS m = None")
    case True
    then show ?thesis by (auto simp: wallet_pay_def split: option.split)
  next
    case False
    then obtain recipient memo where r: "g_read G (fst recip) (snd recip) m = Some recipient" "read_memo G memoS m = Some memo"
      by auto
    let ?pub = "w_GetAgentPubKey W (hc_wallet h)"
    from assms [of recipient memo] False r consider "sint amount \<le> 0"
      | "0 < sint amount" "0 < sint (py_maxPayment cfg)" "sint (py_maxPayment cfg) < sint amount"
      | "0 < sint amount" "0 < sint (py_maxPayment cfg) \<longrightarrow> sint amount \<le> sint (py_maxPayment cfg)"
        "py_allowedRecipients cfg \<noteq> []" "string_of_bytes recipient \<notin> set (py_allowedRecipients cfg)"
      | "0 < sint amount" "0 < sint (py_maxPayment cfg) \<longrightarrow> sint amount \<le> sint (py_maxPayment cfg)"
        "py_allowedRecipients cfg \<noteq> [] \<longrightarrow> string_of_bytes recipient \<in> set (py_allowedRecipients cfg)"
        "snd rcpt < pay_needed recipient memo ?pub \<or> sint (w_GetBudget W (hc_wallet h)) < sint amount"
      unfolding pay_checks_def by (meson not_le not_less)
    then show ?thesis
      by cases (use False r in \<open>auto simp add: wallet_pay_def Let_def\<close>)
  qed
qed

lemma pay_settle_cases:
  assumes "pay_settle G W amount recipient memo pubKey needed ptr m h = (rs, m', h')"
  obtains (deduct_failed) e w where "rs = ret_i32 payErrProcessing" "w_DeductBudget W amount (hc_wallet h) = (Inl e, w)"
        "h' = h\<lparr>hc_wallet := w\<rparr>"
    | (unwritten) u w where "rs = ret_i32 payErrProcessing" "w_DeductBudget W amount (hc_wallet h) = (Inr u, w)"
        "hc_wallet h' = w" "hc_log h' = hc_log h"
    | (paid) u w ts receiptData full where
        "w_DeductBudget W amount (hc_wallet h) = (Inr u, w)" "hc_wallet h' = w"
        "receiptData = payment_data amount ts recipient memo pubKey"
        "full = receiptData @ w_SignPayment W receiptData w"
        "hc_log h' = Record WalletPay (put_u64 amount @ full) (hc_log h)" "rs = ret_i32 needed"
        "g_write G ptr (to_array (unat needed) (put_u32 (len_u32 full) @ full)) m = Some m'"
proof (cases "w_DeductBudget W amount (hc_wallet h)")
  case (Pair r w)
  show thesis
  proof (cases r)
    case (Inl e)
    then show thesis using deduct_failed Pair assms by (simp add: pay_settle_def)
  next
    case (Inr u)
    obtain n h1 where n: "next_env (h\<lparr>hc_wallet := w\<rparr>) = (n, h1)" by fastforce
    have h1: "hc_log h1 = hc_log h" "hc_wallet h1 = w"
      using n next_env_simps(1,2) [of "h\<lparr>hc_wallet := w\<rparr>"] by simp_all
    define receiptData where "receiptData = payment_data amount (ev_clock (hc_env h1) n) recipient memo pubKey"
    define full where "full = receiptData @ w_SignPayment W receiptData w"
    note eq = assms [unfolded pay_settle_def Pair Inr prod.case sum.case n Let_def h1,
        folded receiptData_def, folded full_def]
    show thesis
    proof (cases "g_write G ptr (to_array (unat needed) (put_u32 (len_u32 full) @ full)) m")
      case None
      with eq unwritten [of u w] Pair Inr h1 show thesis by simp
    next
      case (Some m1)
      with eq paid [of u w receiptData "ev_clock (hc_env h1) n" full] Pair Inr h1 show thesis
        by (auto simp: receiptData_def full_def)
    qed
  qed
qed

lemma pay_settle_log:
  "pay_settle G W amount recipient memo pubKey needed ptr m h = (rs, m', h') \<Longrightarrow>
    hc_log h' = hc_log h \<or> (\<exists>p. hc_log h' = Record WalletPay p (hc_log h))"
  by (erule pay_settle_cases) auto

lemma wallet_pay_log:
  assumes "wallet_pay G W cfg amount recip memoS rcpt m h = (rs, m', h')"
  shows "hc_log h' = hc_log h \<or> (\<exists>p. hc_log h' = Record WalletPay p (hc_log h))"
proof (cases "\<exists>recipient memo. pay_checks G W cfg amount recip memoS rcpt m h recipient memo")
  case True
  then obtain recipient memo where "pay_checks G W cfg amount recip memoS rcpt m h recipient memo" by blast
  from assms [unfolded wallet_pay_checked [OF this] Let_def] show ?thesis by (rule pay_settle_log)
next
  case False
  with wallet_pay_unchecked [of G W cfg amount recip memoS rcpt m h] assms show ?thesis by auto
qed

lemma http_request_log:
  "http_request G cfg a b c d e m h = (rs, m', h') \<Longrightarrow>
    hc_log h' = hc_log h \<or> (\<exists>p. hc_log h' = Record HTTPRequest p (hc_log h))"
  by (auto simp: http_request_def next_env_def Let_def split: sum.splits http_outcome.splits if_splits option.splits)

text \<open>Every answered request appends at most one entry to the event log, under its own identifier.\<close>

lemma live_host_log:
  assumes "live_host G W md rq m h = Some (rs, m', h')"
  shows "hc_log h' = hc_log h \<or> (\<exists>p. hc_log h' = Record (hostcall_id rq) p (hc_log h))"
  using assms
  by (cases rq)
    (auto simp: live_host_def hostcall_defs next_env_def Let_def dest!: wallet_pay_log http_request_log
      split: if_splits option.splits sum.splits)

text \<open>No host function but \<open>wallet_pay\<close> changes the wallet.\<close>

lemma wallet_pay_wallet:
  assumes "wallet_pay G W cfg amount recip memoS rcpt m h = (rs, m', h')"
  shows "hc_wallet h' = hc_wallet h \<or>
    (\<exists>r. 0 < sint amount \<and> sint amount \<le> sint (w_GetBudget W (hc_wallet h)) \<and>
         w_DeductBudget W amount (hc_wallet h) = (r, hc_wallet h'))"
proof (cases "\<exists>recipient memo. pay_checks G W cfg amount recip memoS rcpt m h recipient memo")
  case True
  then obtain recipient memo where c: "pay_checks G W cfg amount recip memoS rcpt m h recipient memo" by blast
  from assms [unfolded wallet_pay_checked [OF c] Let_def] c show ?thesis
    by (cases rule: pay_settle_cases) (auto simp: pay_checks_def)
next
  case False
  with wallet_pay_unchecked [of G W cfg amount recip memoS rcpt m h] assms show ?thesis by auto
qed

lemma http_request_wallet:
  "http_request G cfg a b c d e m h = (rs, m', h') \<Longrightarrow> hc_wallet h' = hc_wallet h"
  by (auto simp: http_request_def next_env_def Let_def split: sum.splits http_outcome.splits if_splits option.splits)

lemma live_host_wallet:
  assumes "live_host G W md rq m h = Some (rs, m', h')"
  shows "hc_wallet h' = hc_wallet h \<or>
    (\<exists>amount r. 0 < sint amount \<and> sint amount \<le> sint (w_GetBudget W (hc_wallet h)) \<and>
         w_DeductBudget W amount (hc_wallet h) = (r, hc_wallet h'))"
  using assms
  by (cases rq)
    (auto simp: live_host_def hostcall_defs next_env_def Let_def dest!: wallet_pay_wallet http_request_wallet
      split: if_splits option.splits sum.splits)

section \<open>The payment client, over any wallet that keeps the contract\<close>

text \<open>What \<open>wallet_pay\<close> relies on: \<open>DeductBudget\<close> takes the amount exactly when it is covered and changes
  nothing otherwise; keys and signatures have their fixed sizes.\<close>

locale wallet_pay_state =
  fixes W :: "'w wallet_ops" and wf :: "'w \<Rightarrow> bool"
  assumes deduct_covered: "sint a \<le> sint (w_GetBudget W w) \<Longrightarrow>
      \<exists>w'. w_DeductBudget W a w = (Inr (), w') \<and> w_GetBudget W w' = w_GetBudget W w - a \<and> (wf w \<longrightarrow> wf w')"
    and deduct_short: "sint (w_GetBudget W w) < sint a \<Longrightarrow> \<exists>e. w_DeductBudget W a w = (Inl e, w)"
    and pubkey_size: "wf w \<Longrightarrow> length (w_GetAgentPubKey W w) = PublicKeySize"
    and signature_size: "wf w \<Longrightarrow> length (w_SignPayment W d w) = SignatureSize"
begin

lemma deductE:
  assumes "w_DeductBudget W a w = (Inr u, w')"
  shows "sint a \<le> sint (w_GetBudget W w) \<and> w_GetBudget W w' = w_GetBudget W w - a \<and> (wf w \<longrightarrow> wf w')"
  using assms deduct_covered [of a w] deduct_short [of w a] by (cases "sint a \<le> sint (w_GetBudget W w)") auto

text \<open>The four outcomes collapse to three: refused, charged with no receipt handed out, paid.\<close>

lemma pay_outcomes:
  assumes "wallet_pay G W cfg amount recip memoS rcpt m h = (rs, m', h')"
  obtains (refused) e where "rs = ret_i32 e" "sint e < 0" "h' = h"
    | (unwritten) recipient memo where "rs = ret_i32 payErrProcessing"
        "pay_checks G W cfg amount recip memoS rcpt m h recipient memo"
        "w_GetBudget W (hc_wallet h') = w_GetBudget W (hc_wallet h) - amount" "hc_log h' = hc_log h"
    | (paid) recipient memo w ts receiptData full where
        "pay_checks G W cfg amount recip memoS rcpt m h recipient memo"
        "w_DeductBudget W amount (hc_wallet h) = (Inr (), w)" "hc_wallet h' = w"
        "w_GetBudget W w = w_GetBudget W (hc_wallet h) - amount"
        "receiptData = payment_data amount ts recipient memo (w_GetAgentPubKey W (hc_wallet h))"
        "full = receiptData @ w_SignPayment W receiptData w"
        "hc_log h' = Record WalletPay (put_u64 amount @ full) (hc_log h)"
        "rs = ret_i32 (pay_needed recipient memo (w_GetAgentPubKey W (hc_wallet h)))"
        "g_write G (fst rcpt) (to_array (unat (pay_needed recipient memo (w_GetAgentPubKey W (hc_wallet h))))
           (put_u32 (len_u32 full) @ full)) m = Some m'"
proof (cases "\<exists>recipient memo. pay_checks G W cfg amount recip memoS rcpt m h recipient memo")
  case False
  then show thesis using wallet_pay_unchecked [of G W cfg amount recip memoS rcpt m h] assms refused by auto
next
  case True
  then obtain recipient memo where c: "pay_checks G W cfg amount recip memoS rcpt m h recipient memo" by blast
  then have "sint amount \<le> sint (w_GetBudget W (hc_wallet h))" by (simp add: pay_checks_def)
  from deduct_covered [OF this] obtain w where
    d: "w_DeductBudget W amount (hc_wallet h) = (Inr (), w)" "w_GetBudget W w = w_GetBudget W (hc_wallet h) - amount"
    by blast
  from assms [unfolded wallet_pay_checked [OF c] Let_def] show thesis
  proof (cases rule: pay_settle_cases)
    case deduct_failed
    with d show thesis by simp
  next
    case u: unwritten
    with d c show thesis by (intro unwritten) auto
  next
    case p: (paid u w' ts receiptData full)
    then have "w' = w" using d(1) by simp
    with p show thesis by (intro paid [OF c d(1) _ d(2), of receiptData ts full]) simp_all
  qed
qed

text \<open>With the sizes of the contract, what is handed out and recorded is the complete receipt.\<close>

lemma pay_sizes:
  assumes "pay_checks G W cfg amount recip memoS rcpt m h recipient memo" "reads_exact G" "wf (hc_wallet h)" "wf w"
    "receiptData = payment_data amount ts recipient memo (w_GetAgentPubKey W (hc_wallet h))"
    "full = receiptData @ w_SignPayment W receiptData w"
  shows "length full = full_receipt_len recipient memo (w_GetAgentPubKey W (hc_wallet h))"
    "unat (pay_needed recipient memo (w_GetAgentPubKey W (hc_wallet h))) = 4 + length full"
    "length full < 1024"
proof -
  have r: "length recipient \<le> 256"
    using assms(1,2) by (auto simp: pay_checks_def reads_exact_def word_le_nat_alt)
  have mm: "length memo \<le> 512"
    using assms(1,2) by (auto simp: pay_checks_def reads_exact_def read_memo_def word_le_nat_alt split: if_splits)
  show l: "length full = full_receipt_len recipient memo (w_GetAgentPubKey W (hc_wallet h))"
    using signature_size [OF assms(4)] assms(5,6) by (simp add: payment_data_def full_receipt_len_def)
  have b: "full_receipt_len recipient memo (w_GetAgentPubKey W (hc_wallet h)) \<le> 888"
    using r mm pubkey_size [OF assms(3)] by (simp add: full_receipt_len_def)
  show "unat (pay_needed recipient memo (w_GetAgentPubKey W (hc_wallet h))) = 4 + length full"
    unfolding pay_needed_def l using b by (simp add: unsigned_of_nat take_bit_nat_eq_self del: of_nat_add)
  show "length full < 1024" using l b by simp
qed

end

section \<open>Properties\<close>

text \<open>
  C32 Deny by default: with the wallet, pricing and payment states installed, as the agent loader installs
  them, the registered host module answers a request exactly when the manifest declares the capability
  the request belongs to.
\<close>

theorem membrane_deny_by_default:
  assumes "RegisterHostModule close_existing instantiate
    (SetWalletPayState (SetPricingState (SetWalletState NewRegistry))) m = Inr md"
  shows "(\<exists>x. live_host G W md rq mo h = Some x) \<longleftrightarrow> Has m (capability_of rq)"
proof -
  define full where "full = \<lparr>hm_clock = Has m ''clock'', hm_rand = Has m ''rand'', hm_log = Has m ''log'',
     hm_wallet = Has m ''wallet'', hm_pricing = Has m ''pricing'',
     hm_http = (if Has m ''http'' then Some (registerHTTP (cap_config m ''http'')) else None),
     hm_pay = (if Has m ''x402'' then Some (registerPayment (cap_config m ''x402'')) else None)\<rparr>"
  have "md = (if full = empty_module then None else Some full)"
    using assms
    by (simp add: RegisterHostModule_def SetWalletPayState_def SetPricingState_def SetWalletState_def
        NewRegistry_def bindR_Inr_iff Let_def flip: full_def split: if_splits)
  moreover have "exports (Some full) rq \<longleftrightarrow> Has m (capability_of rq)"
    by (cases rq) (simp_all add: full_def)
  moreover have "\<not> exports (Some empty_module) rq" by (cases rq) simp_all
  ultimately have "exports md rq \<longleftrightarrow> Has m (capability_of rq)" by auto
  then show ?thesis unfolding live_host_def by (simp only: split: if_split) blast
qed

definition clock_manifest :: "CapabilityManifest option" where
  "clock_manifest = Some \<lparr>cm_Capabilities = Some [(''clock'', v1)]\<rparr>"

lemma Has_clock_manifest [simp]: "Has clock_manifest name \<longleftrightarrow> name = ''clock''"
  by (auto simp: clock_manifest_def Has_iff)

abbreviation clock_module :: host_module where
  "clock_module \<equiv> \<lparr>hm_clock = True, hm_rand = False, hm_log = False, hm_wallet = False, hm_pricing = False,
     hm_http = None, hm_pay = None\<rparr>"

theorem membrane_deny_by_default_witness:
  "\<forall>W h. (\<exists>x. live_host example_guest W (Some clock_module) ReqClockNow example_module h = Some x) \<and>
     (\<not> (\<exists>x. live_host example_guest W (Some clock_module) ReqNodePrice example_module h = Some x))"
proof -
  have r: "RegisterHostModule (Inr ()) (Inr ())
      (SetWalletPayState (SetPricingState (SetWalletState NewRegistry))) clock_manifest = Inr (Some clock_module)"
    by (simp add: RegisterHostModule_def)
  show ?thesis
    using membrane_deny_by_default [OF r, where rq = ReqClockNow and G = example_guest and mo = example_module]
      membrane_deny_by_default [OF r, where rq = ReqNodePrice and G = example_guest and mo = example_module]
    by fastforce
qed

text \<open>
  C33 The HTTP allow list holds: with a non-empty list, a call of \<open>http_request\<close> that does anything but
  return an error code (it consults the client or records an observation) was for a URL whose
  lower-cased host is on the list.
\<close>

theorem http_request_host_allowed:
  assumes "http_request G cfg method url headers body resp m h = (rs, m', h')" "ht_allowedHosts cfg \<noteq> []" "h' \<noteq> h"
  shows "\<exists>params host. readHTTPParams G m method url headers body = Inr params \<and>
    ev_hostname (hc_env h) (hp_url params) = Inr host \<and> to_lower host \<in> set (ht_allowedHosts cfg)"
proof -
  obtain params where p: "readHTTPParams G m method url headers body = Inr params"
    using assms by (auto simp: http_request_def split: sum.splits)
  then have "checkAllowedHost (ev_hostname (hc_env h)) (hp_url params) (ht_allowedHosts cfg) = Inr ()"
    using assms by (auto simp: http_request_def split: sum.splits)
  with p assms(2) show ?thesis
    by (auto simp: checkAllowedHost_def bindR_Inr_iff wrap_result_def Let_def split: if_splits sum.splits)
qed

definition example_env :: env where
  "example_env = \<lparr>ev_clock = (\<lambda>n. 1000 + of_nat n), ev_rand = (\<lambda>n. Some [of_nat n]),
     ev_hostname = (\<lambda>u. Inr ''API.x''), ev_http = (\<lambda>n p t. Response 200 [1, 2] False), ev_calls = 0\<rparr>"

theorem http_request_host_allowed_witness:
  "\<exists>params host. readHTTPParams example_guest example_module (0, 3) (3, 5) (0, 0) (0, 0) = Inr params \<and>
    ev_hostname example_env (hp_url params) = Inr host \<and> to_lower host \<in> {''api.x''}"
proof -
  let ?h = "\<lparr>hc_log = NewEventLog 4, hc_wallet = (), hc_env = example_env\<rparr>"
  let ?cfg = "\<lparr>ht_allowedHosts = [''api.x''], ht_timeoutMs = 10, ht_maxRespBytes = 100\<rparr>"
  let ?call = "http_request example_guest ?cfg (0, 3) (3, 5) (0, 0) (0, 0) (8, 20) example_module ?h"
  have lower: "to_lower ''API.x'' = ''api.x''" by code_simp
  have "ev_calls (hc_env (snd (snd ?call))) = 1"
    using lower by (simp add: http_request_def readHTTPParams_def example_mem_read_def example_mem_write_def
        example_module_def example_env_def checkAllowedHost_def next_env_def writeSizeHint_def Let_def)
  then have "snd (snd ?call) \<noteq> ?h" by (auto simp: example_env_def)
  moreover obtain rs m' h' where c: "?call = (rs, m', h')" using prod_cases3 by blast
  ultimately show ?thesis using http_request_host_allowed [OF c] by simp
qed

end
