(* ===== verification/Lineage.thy ===== *)
theory Lineage
  imports Crypto
begin

text \<open>
  \<open>src/pkg/lineage/lineage.go\<close>: content hashes, signing domains and signatures of checkpoints, and
  the 128-byte lineage extension of the v4 header.
\<close>

abbreviation PrevHashSize :: nat where "PrevHashSize \<equiv> 32"
abbreviation ExtensionSize :: nat where "ExtensionSize \<equiv> 128"

definition ContentHash :: "crypto \<Rightarrow> bytes \<Rightarrow> bytes" where
  "ContentHash C checkpoint = Sum256 C checkpoint"

definition SignCheckpoint :: "crypto \<Rightarrow> bytes \<Rightarrow> bytes \<Rightarrow> bytes result" where
  "SignCheckpoint C signingDomain privKey =
     (if length privKey \<noteq> PrivateKeySize
      then Inl (NewError ''invalid Ed25519 private key size'')
      else Inr (to_array SignatureSize (ed_Sign C privKey signingDomain)))"

definition VerifyCheckpoint :: "crypto \<Rightarrow> bytes \<Rightarrow> bytes \<Rightarrow> bytes \<Rightarrow> bool" where
  "VerifyCheckpoint C signingDomain pubKey sig =
     (if length pubKey \<noteq> PublicKeySize then False else ed_Verify C pubKey signingDomain sig)"

definition MarshalExtension :: "bytes \<Rightarrow> bytes \<Rightarrow> bytes \<Rightarrow> bytes" where
  "MarshalExtension prevHash pubKey sig = prevHash @ pubKey @ sig"

definition UnmarshalExtension :: "bytes \<Rightarrow> (bytes \<times> bytes \<times> bytes) result" where
  "UnmarshalExtension data =
     (if length data < ExtensionSize
      then Inl (NewError (''lineage extension too short: '' @ dec_nat (length data) @
                          '' bytes (need '' @ dec_nat ExtensionSize @ '')''))
      else Inr (go_slice 0 PrevHashSize data,
                go_slice PrevHashSize (PrevHashSize + PublicKeySize) data,
                go_slice (PrevHashSize + PublicKeySize) ExtensionSize data))"

definition BuildSigningDomain :: "bytes \<Rightarrow> bytes \<Rightarrow> bytes" where
  "BuildSigningDomain headerBeforeSig state = headerBeforeSig @ state"

lemma length_ContentHash [simp]: "crypto_ok C \<Longrightarrow> length (ContentHash C b) = 32"
  by (simp add: ContentHash_def length_Sum256)

lemma SignCheckpoint_InrD:
  "SignCheckpoint C d k = Inr s \<Longrightarrow> length k = PrivateKeySize \<and> length s = SignatureSize"
  by (auto simp: SignCheckpoint_def split: if_splits)

lemma SignCheckpoint_ok:
  "crypto_ok C \<Longrightarrow> length k = PrivateKeySize \<Longrightarrow> SignCheckpoint C d k = Inr (ed_Sign C k d)"
  by (simp add: SignCheckpoint_def length_ed_Sign)

lemma Verify_SignCheckpoint:
  "crypto_ok C \<Longrightarrow> SignCheckpoint C d k = Inr s \<Longrightarrow> VerifyCheckpoint C d (ed_Public C k) s"
  by (auto simp: SignCheckpoint_def VerifyCheckpoint_def length_ed_Sign length_ed_Public
      ed_Verify_Sign split: if_splits)

lemma UnmarshalExtension_MarshalExtension:
  assumes "length prevHash = PrevHashSize" "length pubKey = PublicKeySize" "length sig = SignatureSize"
  shows "UnmarshalExtension (MarshalExtension prevHash pubKey sig @ rest) = Inr (prevHash, pubKey, sig)"
  using assms by (simp add: UnmarshalExtension_def MarshalExtension_def slice_simps)

end
