(* ===== verification/Checkpoint.thy ===== *)
theory Checkpoint
  imports Lineage
begin

text \<open>
  The checkpoint file format of \<open>src/internal/agent/instance.go\<close>: header versions 2, 3 and 4, the
  parser \<open>ParseCheckpointHeader\<close>, and the byte layouts that \<open>buildCheckpoint\<close> writes (version 3
  without an agent identity, version 4 with one).  The theory \<open>Agent\<close> builds the layouts from an
  instance.
\<close>

abbreviation checkpointVersionV2 :: byte where "checkpointVersionV2 \<equiv> 2"
abbreviation checkpointVersionV3 :: byte where "checkpointVersionV3 \<equiv> 3"
abbreviation checkpointVersionV4 :: byte where "checkpointVersionV4 \<equiv> 4"
abbreviation checkpointHeaderLenV2 :: nat where "checkpointHeaderLenV2 \<equiv> 57"
abbreviation checkpointHeaderLenV3 :: nat where "checkpointHeaderLenV3 \<equiv> 81"
abbreviation checkpointHeaderLenV4 :: nat where "checkpointHeaderLenV4 \<equiv> 209"

record EpochData =
  ep_MajorVersion :: uint64
  ep_LeaseGeneration :: uint64

record CheckpointHeader =
  hd_Version :: byte
  hd_Budget :: int64
  hd_PricePerSecond :: int64
  hd_TickNumber :: uint64
  hd_WASMHash :: bytes
  hd_Epoch :: EpochData
  hd_LeaseExpiry :: int64
  hd_PrevHash :: bytes
  hd_AgentPubKey :: bytes
  hd_Signature :: bytes
  hd_HasLineage :: bool
  hd_HeaderLen :: nat

section \<open>Parsing\<close>

definition ParseCheckpointHeader :: "bytes \<Rightarrow> (CheckpointHeader \<times> bytes) result" where
  "ParseCheckpointHeader checkpoint =
     (if length checkpoint < 1 then Inl (NewError ''checkpoint empty'')
      else
        let version = checkpoint ! 0 in
        bindR (if version = checkpointVersionV2 then Inr checkpointHeaderLenV2
               else if version = checkpointVersionV3 then Inr checkpointHeaderLenV3
               else if version = checkpointVersionV4 then Inr checkpointHeaderLenV4
               else Inl (NewError (''unsupported checkpoint version: '' @ dec_nat (unat version))))
        (\<lambda>headerLen.
          if length checkpoint < headerLen
          then Inl (NewError (''checkpoint too short: '' @ dec_nat (length checkpoint) @
                              '' bytes (need '' @ dec_nat headerLen @ '')''))
          else
            let budgetParsed = get_u64 (go_slice 1 9 checkpoint) :: int64;
                priceParsed = get_u64 (go_slice 9 17 checkpoint) :: int64 in
            if sint budgetParsed < 0
            then Inl (NewError (''checkpoint contains negative budget: '' @ dec_int (sint budgetParsed)))
            else if sint priceParsed < 0
            then Inl (NewError (''checkpoint contains negative price: '' @ dec_int (sint priceParsed)))
            else
              let hdr = \<lparr>hd_Version = version, hd_Budget = budgetParsed,
                         hd_PricePerSecond = priceParsed,
                         hd_TickNumber = get_u64 (go_slice 17 25 checkpoint),
                         hd_WASMHash = go_slice 25 57 checkpoint,
                         hd_Epoch = \<lparr>ep_MajorVersion = 0, ep_LeaseGeneration = 0\<rparr>,
                         hd_LeaseExpiry = 0, hd_PrevHash = replicate 32 0, hd_AgentPubKey = [],
                         hd_Signature = replicate 64 0, hd_HasLineage = False,
                         hd_HeaderLen = headerLen\<rparr>;
                  hdr = (if version \<ge> checkpointVersionV3
                         then hdr\<lparr>hd_Epoch := \<lparr>ep_MajorVersion = get_u64 (go_slice 57 65 checkpoint),
                                               ep_LeaseGeneration = get_u64 (go_slice 65 73 checkpoint)\<rparr>,
                                  hd_LeaseExpiry := get_u64 (go_slice 73 81 checkpoint)\<rparr>
                         else hdr);
                  hdr = (if version \<ge> checkpointVersionV4
                         then hdr\<lparr>hd_PrevHash := go_slice 81 113 checkpoint,
                                  hd_AgentPubKey := go_slice 113 145 checkpoint,
                                  hd_Signature := go_slice 145 209 checkpoint,
                                  hd_HasLineage := True\<rparr>
                         else hdr)
              in Inr (hdr, drop headerLen checkpoint)))"

definition ExtractAgentState :: "bytes \<Rightarrow> bytes result" where
  "ExtractAgentState checkpoint = bindR (ParseCheckpointHeader checkpoint) (\<lambda>(hdr, state). Inr state)"

section \<open>Building\<close>

text \<open>The fields \<open>buildCheckpoint\<close> takes from an instance and its lease.\<close>

record checkpoint_fields =
  cf_Budget :: int64
  cf_PricePerSecond :: int64
  cf_TickNumber :: uint64
  cf_WASMHash :: bytes
  cf_majorVersion :: uint64
  cf_leaseGeneration :: uint64
  cf_leaseExpiryNanos :: int64

definition header_v3 :: "byte \<Rightarrow> checkpoint_fields \<Rightarrow> bytes" where
  "header_v3 version f =
     [version] @ put_u64 (cf_Budget f) @ put_u64 (cf_PricePerSecond f) @ put_u64 (cf_TickNumber f) @
     to_array 32 (cf_WASMHash f) @ put_u64 (cf_majorVersion f) @ put_u64 (cf_leaseGeneration f) @
     put_u64 (cf_leaseExpiryNanos f)"

definition build_v3 :: "checkpoint_fields \<Rightarrow> bytes \<Rightarrow> bytes" where
  "build_v3 f state = header_v3 checkpointVersionV3 f @ state"

text \<open>The first 145 bytes of a version 4 checkpoint: everything before the signature slot.\<close>

definition header_before_sig :: "checkpoint_fields \<Rightarrow> bytes \<Rightarrow> bytes \<Rightarrow> bytes" where
  "header_before_sig f prevHash pubKey =
     header_v3 checkpointVersionV4 f @ to_array 32 prevHash @ to_array 32 pubKey"

definition build_v4 ::
  "crypto \<Rightarrow> checkpoint_fields \<Rightarrow> bytes \<Rightarrow> bytes \<Rightarrow> bytes \<Rightarrow> bytes \<Rightarrow> bytes result" where
  "build_v4 C f prevHash pubKey privKey state =
     (let hdr = header_before_sig f prevHash pubKey;
          signingDomain = BuildSigningDomain hdr state
      in bindR (wrap_result ''sign checkpoint'' (SignCheckpoint C signingDomain privKey)) (\<lambda>sig.
           Inr (hdr @ sig @ state)))"

section \<open>Layout lemmas\<close>

lemma length_header_v3 [simp]: "length (header_v3 v f) = 81"
  by (simp add: header_v3_def)

lemma length_header_before_sig [simp]: "length (header_before_sig f p k) = 145"
  by (simp add: header_before_sig_def)

lemma header_v3_0 [simp]: "(header_v3 v f @ rest) ! 0 = v"
  by (simp add: header_v3_def)

lemma header_v3_slices [slice_simps]:
  "go_slice 1 9 (header_v3 v f @ rest) = put_u64 (cf_Budget f)"
  "go_slice 9 17 (header_v3 v f @ rest) = put_u64 (cf_PricePerSecond f)"
  "go_slice 17 25 (header_v3 v f @ rest) = put_u64 (cf_TickNumber f)"
  "go_slice 25 57 (header_v3 v f @ rest) = to_array 32 (cf_WASMHash f)"
  "go_slice 57 65 (header_v3 v f @ rest) = put_u64 (cf_majorVersion f)"
  "go_slice 65 73 (header_v3 v f @ rest) = put_u64 (cf_leaseGeneration f)"
  "go_slice 73 81 (header_v3 v f @ rest) = put_u64 (cf_leaseExpiryNanos f)"
  by (simp_all add: header_v3_def slice_simps)

lemmas header_v3_slice_simps = header_v3_slices header_v3_slices(1) [unfolded One_nat_def]

text \<open>What a parsed header says about the bytes, and the conditions under which parsing succeeds.\<close>

definition parseable :: "bytes \<Rightarrow> bool" where
  "parseable c \<longleftrightarrow>
     c \<noteq> [] \<and>
     (c ! 0 = 2 \<and> 57 \<le> length c \<or> c ! 0 = 3 \<and> 81 \<le> length c \<or> c ! 0 = 4 \<and> 209 \<le> length c) \<and>
     0 \<le> sint (get_u64 (go_slice 1 9 c)) \<and> 0 \<le> sint (get_u64 (go_slice 9 17 c))"

lemma ParseCheckpointHeader_Inr_iff: "(\<exists>r. ParseCheckpointHeader c = Inr r) \<longleftrightarrow> parseable c"
  by (cases c) (auto simp: ParseCheckpointHeader_def parseable_def Let_def not_less)

lemma ParseCheckpointHeader_v2:
  assumes "57 \<le> length c" "c ! 0 = 2"
    "0 \<le> sint (get_u64 (go_slice 1 9 c))" "0 \<le> sint (get_u64 (go_slice 9 17 c))"
  shows "ParseCheckpointHeader c =
    Inr (\<lparr>hd_Version = 2, hd_Budget = get_u64 (go_slice 1 9 c), hd_PricePerSecond = get_u64 (go_slice 9 17 c),
          hd_TickNumber = get_u64 (go_slice 17 25 c), hd_WASMHash = go_slice 25 57 c,
          hd_Epoch = \<lparr>ep_MajorVersion = 0, ep_LeaseGeneration = 0\<rparr>,
          hd_LeaseExpiry = 0, hd_PrevHash = replicate 32 0, hd_AgentPubKey = [],
          hd_Signature = replicate 64 0, hd_HasLineage = False, hd_HeaderLen = 57\<rparr>, drop 57 c)"
  using assms by (cases "c = []") (simp_all add: ParseCheckpointHeader_def Let_def not_less)

lemma ParseCheckpointHeader_v3:
  assumes "81 \<le> length c" "c ! 0 = 3"
    "0 \<le> sint (get_u64 (go_slice 1 9 c))" "0 \<le> sint (get_u64 (go_slice 9 17 c))"
  shows "ParseCheckpointHeader c =
    Inr (\<lparr>hd_Version = 3, hd_Budget = get_u64 (go_slice 1 9 c), hd_PricePerSecond = get_u64 (go_slice 9 17 c),
          hd_TickNumber = get_u64 (go_slice 17 25 c), hd_WASMHash = go_slice 25 57 c,
          hd_Epoch = \<lparr>ep_MajorVersion = get_u64 (go_slice 57 65 c),
                      ep_LeaseGeneration = get_u64 (go_slice 65 73 c)\<rparr>,
          hd_LeaseExpiry = get_u64 (go_slice 73 81 c), hd_PrevHash = replicate 32 0,
          hd_AgentPubKey = [], hd_Signature = replicate 64 0, hd_HasLineage = False,
          hd_HeaderLen = 81\<rparr>, drop 81 c)"
  using assms by (cases "c = []") (simp_all add: ParseCheckpointHeader_def Let_def not_less)

lemma ParseCheckpointHeader_v4:
  assumes "209 \<le> length c" "c ! 0 = 4"
    "0 \<le> sint (get_u64 (go_slice 1 9 c))" "0 \<le> sint (get_u64 (go_slice 9 17 c))"
  shows "ParseCheckpointHeader c =
    Inr (\<lparr>hd_Version = 4, hd_Budget = get_u64 (go_slice 1 9 c), hd_PricePerSecond = get_u64 (go_slice 9 17 c),
          hd_TickNumber = get_u64 (go_slice 17 25 c), hd_WASMHash = go_slice 25 57 c,
          hd_Epoch = \<lparr>ep_MajorVersion = get_u64 (go_slice 57 65 c),
                      ep_LeaseGeneration = get_u64 (go_slice 65 73 c)\<rparr>,
          hd_LeaseExpiry = get_u64 (go_slice 73 81 c), hd_PrevHash = go_slice 81 113 c,
          hd_AgentPubKey = go_slice 113 145 c, hd_Signature = go_slice 145 209 c, hd_HasLineage = True,
          hd_HeaderLen = 209\<rparr>, drop 209 c)"
  using assms by (cases "c = []") (simp_all add: ParseCheckpointHeader_def Let_def not_less)

lemmas ParseCheckpointHeader_versions =
  ParseCheckpointHeader_v2 ParseCheckpointHeader_v3 ParseCheckpointHeader_v4

lemma parse_cases [consumes 1]:
  assumes "ParseCheckpointHeader c = Inr (h, st)"
  obtains (v2) "57 \<le> length c" "c ! 0 = 2" | (v3) "81 \<le> length c" "c ! 0 = 3"
    | (v4) "209 \<le> length c" "c ! 0 = 4"
  using assms ParseCheckpointHeader_Inr_iff [of c] by (auto simp: parseable_def)

lemma parse_nonneg:
  assumes "ParseCheckpointHeader c = Inr (h, st)"
  shows "0 \<le> sint (get_u64 (go_slice 1 9 c))" "0 \<le> sint (get_u64 (go_slice 9 17 c))"
  using assms ParseCheckpointHeader_Inr_iff [of c] by (auto simp: parseable_def)

text \<open>The parsed fields, read off the bytes.\<close>

lemma parse_fields:
  assumes "ParseCheckpointHeader c = Inr (h, st)"
  shows "57 \<le> length c \<and> hd_Version h = c ! 0 \<and> hd_Budget h = get_u64 (go_slice 1 9 c) \<and>
    hd_PricePerSecond h = get_u64 (go_slice 9 17 c) \<and> hd_TickNumber h = get_u64 (go_slice 17 25 c) \<and>
    hd_WASMHash h = go_slice 25 57 c \<and> (hd_HasLineage h \<longleftrightarrow> c ! 0 = 4) \<and>
    st = drop (hd_HeaderLen h) c"
  using parse_nonneg [OF assms] assms
  by (cases rule: parse_cases [OF assms])
    (auto simp: ParseCheckpointHeader_versions)

lemma parse_fields_v2:
  assumes "ParseCheckpointHeader c = Inr (h, st)" "c ! 0 = 2"
  shows "hd_HeaderLen h = 57"
  using parse_nonneg [OF assms(1)] assms
  by (cases rule: parse_cases [OF assms(1)]) (auto simp: ParseCheckpointHeader_v2)

lemma parse_fields_v3:
  assumes "ParseCheckpointHeader c = Inr (h, st)" "c ! 0 = 3"
  shows "81 \<le> length c \<and> hd_HeaderLen h = 81 \<and>
    hd_Epoch h = \<lparr>ep_MajorVersion = get_u64 (go_slice 57 65 c),
                  ep_LeaseGeneration = get_u64 (go_slice 65 73 c)\<rparr> \<and>
    hd_LeaseExpiry h = get_u64 (go_slice 73 81 c)"
  using parse_nonneg [OF assms(1)] assms
  by (cases rule: parse_cases [OF assms(1)]) (auto simp: ParseCheckpointHeader_v3)

lemma parse_fields_v4:
  assumes "ParseCheckpointHeader c = Inr (h, st)" "c ! 0 = 4"
  shows "209 \<le> length c \<and> hd_HeaderLen h = 209 \<and>
    hd_Epoch h = \<lparr>ep_MajorVersion = get_u64 (go_slice 57 65 c),
                  ep_LeaseGeneration = get_u64 (go_slice 65 73 c)\<rparr> \<and>
    hd_LeaseExpiry h = get_u64 (go_slice 73 81 c) \<and> hd_PrevHash h = go_slice 81 113 c \<and>
    hd_AgentPubKey h = go_slice 113 145 c \<and> hd_Signature h = go_slice 145 209 c"
  using parse_nonneg [OF assms(1)] assms
  by (cases rule: parse_cases [OF assms(1)]) (auto simp: ParseCheckpointHeader_v4)

lemma parse_common:
  assumes "ParseCheckpointHeader c = Inr (h, st)"
  shows "get_u64 (go_slice 1 9 c) = hd_Budget h" "get_u64 (go_slice 9 17 c) = hd_PricePerSecond h"
    "get_u64 (go_slice 17 25 c) = hd_TickNumber h" "go_slice 25 57 c = hd_WASMHash h"
  using parse_fields [OF assms] by auto

lemma parse_epoch:
  assumes "ParseCheckpointHeader c = Inr (h, st)" "c ! 0 = 3 \<or> c ! 0 = 4"
  shows "get_u64 (go_slice 57 65 c) = ep_MajorVersion (hd_Epoch h)"
    "get_u64 (go_slice 65 73 c) = ep_LeaseGeneration (hd_Epoch h)"
    "get_u64 (go_slice 73 81 c) = hd_LeaseExpiry h"
  using assms(2) parse_fields_v3 [OF assms(1)] parse_fields_v4 [OF assms(1)] by auto

lemma parse_lineage:
  assumes "ParseCheckpointHeader c = Inr (h, st)" "c ! 0 = 4"
  shows "go_slice 81 113 c = hd_PrevHash h" "go_slice 113 145 c = hd_AgentPubKey h"
    "go_slice 145 209 c = hd_Signature h"
  using parse_fields_v4 [OF assms] by auto

lemma parse_nonneg_fields:
  assumes "ParseCheckpointHeader c = Inr (h, st)"
  shows "0 \<le> sint (hd_Budget h) \<and> 0 \<le> sint (hd_PricePerSecond h)"
  using parse_nonneg [OF assms] parse_fields [OF assms] by simp

section \<open>Round trips\<close>

definition header_of_fields :: "checkpoint_fields \<Rightarrow> CheckpointHeader" where
  "header_of_fields f =
     \<lparr>hd_Version = checkpointVersionV3, hd_Budget = cf_Budget f, hd_PricePerSecond = cf_PricePerSecond f,
      hd_TickNumber = cf_TickNumber f, hd_WASMHash = cf_WASMHash f,
      hd_Epoch = \<lparr>ep_MajorVersion = cf_majorVersion f, ep_LeaseGeneration = cf_leaseGeneration f\<rparr>,
      hd_LeaseExpiry = cf_leaseExpiryNanos f, hd_PrevHash = replicate 32 0, hd_AgentPubKey = [],
      hd_Signature = replicate 64 0, hd_HasLineage = False, hd_HeaderLen = checkpointHeaderLenV3\<rparr>"

definition wf_fields :: "checkpoint_fields \<Rightarrow> bool" where
  "wf_fields f \<longleftrightarrow>
     0 \<le> sint (cf_Budget f) \<and> 0 \<le> sint (cf_PricePerSecond f) \<and> length (cf_WASMHash f) = 32"

lemma parse_build_v3:
  "wf_fields f \<Longrightarrow> ParseCheckpointHeader (build_v3 f state) = Inr (header_of_fields f, state)"
  by (subst ParseCheckpointHeader_v3)
    (simp_all add: build_v3_def header_v3_slice_simps wf_fields_def header_of_fields_def)

lemma v4_slices:
  assumes "length sig = 64"
  shows "go_slice 81 113 (header_before_sig f p k @ sig @ state) = to_array 32 p"
    "go_slice 113 145 (header_before_sig f p k @ sig @ state) = to_array 32 k"
    "go_slice 145 209 (header_before_sig f p k @ sig @ state) = sig"
    "drop 209 (header_before_sig f p k @ sig @ state) = state"
    "take 145 (header_before_sig f p k @ sig @ state) = header_before_sig f p k"
  using assms by (simp_all add: header_before_sig_def slice_simps)

lemma parse_v4_layout:
  assumes "wf_fields f" "length p = 32" "length k = 32" "length sig = 64"
  shows "ParseCheckpointHeader (header_before_sig f p k @ sig @ state) =
    Inr ((header_of_fields f)\<lparr>hd_Version := checkpointVersionV4, hd_PrevHash := p, hd_AgentPubKey := k,
           hd_Signature := sig, hd_HasLineage := True, hd_HeaderLen := checkpointHeaderLenV4\<rparr>, state)"
proof -
  let ?c = "header_before_sig f p k @ sig @ state"
  have c: "?c = header_v3 checkpointVersionV4 f @ to_array 32 p @ to_array 32 k @ sig @ state"
    by (simp add: header_before_sig_def)
  note slices = header_v3_slices [where v = checkpointVersionV4 and f = f
      and rest = "to_array 32 p @ to_array 32 k @ sig @ state", folded c]
  have "?c ! 0 = 4" "209 \<le> length ?c"
    using assms(4) by (simp_all add: c)
  with assms show ?thesis
    by (subst ParseCheckpointHeader_v4)
      (simp_all only: slices v4_slices get_put_u64_only to_array_id wf_fields_def header_of_fields_def
        CheckpointHeader.simps)
qed

lemma build_v4_InrD:
  assumes "build_v4 C f prevHash pubKey privKey state = Inr c"
  obtains sig where "c = header_before_sig f prevHash pubKey @ sig @ state" "length sig = 64"
    "SignCheckpoint C (header_before_sig f prevHash pubKey @ state) privKey = Inr sig"
  using assms SignCheckpoint_InrD
  by (fastforce simp: build_v4_def BuildSigningDomain_def Let_def bindR_Inr_iff)

text \<open>The header a parser returns determines the bytes it was given.\<close>

lemma slices_cover:
  "57 \<le> length c \<Longrightarrow>
     c = [c ! 0] @ go_slice 1 9 c @ go_slice 9 17 c @ go_slice 17 25 c @ go_slice 25 57 c @ drop 57 c"
proof -
  assume "57 \<le> length c"
  then have "c = go_slice 0 1 c @ go_slice 1 9 c @ go_slice 9 17 c @ go_slice 17 25 c @ go_slice 25 57 c @
      go_slice 57 (length c) c"
    by (simp add: slice_join del: One_nat_def) (simp add: go_slice_def)
  moreover have "go_slice 0 1 c = [c ! 0]"
    using \<open>57 \<le> length c\<close> by (cases c) (simp_all add: go_slice_def)
  ultimately show ?thesis by (simp add: slice_drop)
qed

lemma u64_field_inject:
  "get_u64 (go_slice a (a + 8) c) = get_u64 (go_slice a (a + 8) d) \<Longrightarrow>
     a + 8 \<le> length c \<Longrightarrow> a + 8 \<le> length d \<Longrightarrow> go_slice a (a + 8) c = go_slice a (a + 8) d"
  by (metis diff_add_inverse length_slice put_get_u64)

lemma common_fields_inject:
  assumes "57 \<le> length c" "57 \<le> length d" "c ! 0 = d ! 0"
    "get_u64 (go_slice 1 9 c) = get_u64 (go_slice 1 9 d)"
    "get_u64 (go_slice 9 17 c) = get_u64 (go_slice 9 17 d)"
    "get_u64 (go_slice 17 25 c) = get_u64 (go_slice 17 25 d)"
    "go_slice 25 57 c = go_slice 25 57 d" "drop 57 c = drop 57 d"
  shows "c = d"
proof -
  have "go_slice 1 9 c = go_slice 1 9 d" "go_slice 9 17 c = go_slice 9 17 d"
    "go_slice 17 25 c = go_slice 17 25 d"
    using u64_field_inject [of 1 c d] u64_field_inject [of 9 c d] u64_field_inject [of 17 c d] assms
    by simp_all
  with slices_cover [OF assms(1)] slices_cover [OF assms(2)] assms(3,7,8) show ?thesis
    by metis
qed

lemma drop57_v3:
  assumes "81 \<le> length c"
  shows "drop 57 c = go_slice 57 65 c @ go_slice 65 73 c @ go_slice 73 81 c @ drop 81 c"
  using assms by (simp add: slice_join flip: slice_drop)

lemma drop81_v4:
  assumes "209 \<le> length c"
  shows "drop 81 c = go_slice 81 113 c @ go_slice 113 145 c @ go_slice 145 209 c @ drop 209 c"
  using assms by (simp add: slice_join flip: slice_drop)

lemma epoch_fields_inject:
  assumes "81 \<le> length c" "81 \<le> length d"
    "get_u64 (go_slice 57 65 c) = get_u64 (go_slice 57 65 d)"
    "get_u64 (go_slice 65 73 c) = get_u64 (go_slice 65 73 d)"
    "get_u64 (go_slice 73 81 c) = get_u64 (go_slice 73 81 d)" "drop 81 c = drop 81 d"
  shows "drop 57 c = drop 57 d"
  using u64_field_inject [of 57 c d] u64_field_inject [of 65 c d] u64_field_inject [of 73 c d] assms
  by (simp add: drop57_v3)

lemma build_v4_parse:
  assumes "crypto_ok C" "wf_fields f" "length prevHash = 32" "length privKey = PrivateKeySize"
  shows "\<exists>c sig. build_v4 C f prevHash (ed_Public C privKey) privKey state = Inr c \<and>
    ParseCheckpointHeader c =
      Inr ((header_of_fields f)\<lparr>hd_Version := checkpointVersionV4, hd_PrevHash := prevHash,
             hd_AgentPubKey := ed_Public C privKey, hd_Signature := sig, hd_HasLineage := True,
             hd_HeaderLen := checkpointHeaderLenV4\<rparr>, state) \<and>
    VerifyCheckpoint C (BuildSigningDomain (take 145 c) state) (ed_Public C privKey) sig"
proof -
  let ?h = "header_before_sig f prevHash (ed_Public C privKey)"
  let ?sig = "ed_Sign C privKey (?h @ state)" and ?c = "?h @ ed_Sign C privKey (?h @ state) @ state"
  have sig: "SignCheckpoint C (?h @ state) privKey = Inr ?sig" "length ?sig = 64"
    using assms by (simp_all add: SignCheckpoint_ok length_ed_Sign)
  have b: "build_v4 C f prevHash (ed_Public C privKey) privKey state = Inr ?c"
    by (simp add: build_v4_def BuildSigningDomain_def sig Let_def)
  have "VerifyCheckpoint C (BuildSigningDomain (take 145 ?c) state) (ed_Public C privKey) ?sig"
    using Verify_SignCheckpoint [OF assms(1) sig(1)] by (simp add: BuildSigningDomain_def)
  with b parse_v4_layout [OF assms(2,3) length_ed_Public [OF assms(1,4)] sig(2)] show ?thesis
    by blast
qed

section \<open>Properties\<close>

text \<open>
  Parsing loses nothing: two byte sequences that parse to the same header and agent state are the
  same bytes, for every header version.  A checkpoint therefore has exactly one reading, and the
  content hash of the bytes identifies header and state together.
\<close>

theorem ParseCheckpointHeader_injective:
  assumes "ParseCheckpointHeader c = Inr r" "ParseCheckpointHeader d = Inr r"
  shows "c = d"
proof -
  obtain h st where r: "r = (h, st)" by (cases r)
  note c = assms(1) [unfolded r] and d = assms(2) [unfolded r]
  note fc = parse_fields [OF c] and fd = parse_fields [OF d]
  have v: "c ! 0 = d ! 0" and st: "drop (hd_HeaderLen h) c = drop (hd_HeaderLen h) d"
    using fc fd by auto
  have "drop 57 c = drop 57 d"
  proof (cases rule: parse_cases [OF c, case_names v2 v3 v4])
    case v2
    then show ?thesis using parse_fields_v2 [OF c] st by simp
  next
    case v3
    with v have "d ! 0 = 3" by simp
    with parse_fields_v3 [OF d] parse_fields_v3 [OF c v3(2)] st
    have "drop 81 c = drop 81 d" "81 \<le> length d" by auto
    with v3 \<open>d ! 0 = 3\<close> show ?thesis
      by (intro epoch_fields_inject) (simp_all add: parse_epoch [OF c] parse_epoch [OF d])
  next
    case v4
    with v have "d ! 0 = 4" by simp
    note gc = parse_fields_v4 [OF c v4(2)] and gd = parse_fields_v4 [OF d \<open>d ! 0 = 4\<close>]
    have "drop 209 c = drop 209 d" "209 \<le> length c" "209 \<le> length d"
      using st gc gd by auto
    then have "drop 81 c = drop 81 d"
      by (simp add: drop81_v4 parse_lineage [OF c v4(2)] parse_lineage [OF d \<open>d ! 0 = 4\<close>])
    moreover have "81 \<le> length c" "81 \<le> length d" using gc gd by auto
    ultimately show ?thesis using v4 \<open>d ! 0 = 4\<close>
      by (intro epoch_fields_inject) (simp_all add: parse_epoch [OF c] parse_epoch [OF d])
  qed
  moreover have "57 \<le> length c" "57 \<le> length d" using fc fd by blast+
  ultimately show ?thesis using v
    by - (rule common_fields_inject, simp_all only: parse_common [OF c] parse_common [OF d])
qed

definition sample_fields :: checkpoint_fields where
  "sample_fields = \<lparr>cf_Budget = 5000000, cf_PricePerSecond = 1000, cf_TickNumber = 7,
     cf_WASMHash = replicate 32 1, cf_majorVersion = 2, cf_leaseGeneration = 1, cf_leaseExpiryNanos = 0\<rparr>"

lemma sample_fields_tick [simp]: "cf_TickNumber sample_fields = 7"
  by (simp add: sample_fields_def)

lemma wf_sample_fields [simp]: "wf_fields sample_fields"
  by (simp add: wf_fields_def sample_fields_def)

theorem ParseCheckpointHeader_injective_witness:
  "ParseCheckpointHeader (build_v3 sample_fields [9, 8]) = Inr (header_of_fields sample_fields, [9, 8]) \<and>
   (\<forall>d. ParseCheckpointHeader d = Inr (header_of_fields sample_fields, [9, 8]) \<longleftrightarrow>
      d = build_v3 sample_fields [9, 8])"
  using parse_build_v3 [OF wf_sample_fields, of "[9, 8]"]
    ParseCheckpointHeader_injective [OF parse_build_v3 [OF wf_sample_fields, of "[9, 8]"]]
  by metis

text \<open>
  C34 What \<open>buildCheckpoint\<close> writes, \<open>ParseCheckpointHeader\<close> reads back: a version 4 checkpoint with a
  non-negative budget and price parses to exactly the fields, previous hash, public key and state
  it was built from, and its signature verifies over the signing domain that the loader
  reconstructs from the first 145 bytes and the state.
\<close>

theorem build_v4_roundtrip:
  assumes "crypto_ok C" "wf_fields f" "length prevHash = 32" "length privKey = PrivateKeySize"
  shows "\<exists>c sig. build_v4 C f prevHash (ed_Public C privKey) privKey state = Inr c \<and>
    ParseCheckpointHeader c =
      Inr ((header_of_fields f)\<lparr>hd_Version := checkpointVersionV4, hd_PrevHash := prevHash,
             hd_AgentPubKey := ed_Public C privKey, hd_Signature := sig, hd_HasLineage := True,
             hd_HeaderLen := checkpointHeaderLenV4\<rparr>, state) \<and>
    VerifyCheckpoint C (BuildSigningDomain (take 145 c) state) (ed_Public C privKey) sig"
  using build_v4_parse [OF assms] .

theorem build_v4_roundtrip_witness:
  "\<exists>c h. build_v4 sample_crypto sample_fields (replicate 32 0) (replicate 32 5) (replicate 64 5) [9] = Inr c \<and>
    ParseCheckpointHeader c = Inr (h, [9]) \<and> hd_TickNumber h = 7 \<and> hd_AgentPubKey h = replicate 32 5"
  using build_v4_roundtrip [of sample_crypto sample_fields "replicate 32 0" "replicate 64 5" "[9]"]
  by (auto simp: header_of_fields_def to_array_def)

end
