(* ===== verification/Storage.thy ===== *)
theory Storage
  imports Paths Checkpoint "HOL-Library.AList"
begin

text \<open>
  Checkpoint persistence (\<open>internal/storage\<close>): the operating system calls the provider uses, the
  filesystem provider on top of them, and the contract its clients rely on as the locale
  \<open>blob_store\<close>, interpreted on the three kinds of file the provider keeps.

  The operating system is a file table with a fault plan and a trace.  A file carries its content and
  whether that content has been synced; each system call takes the next element of the plan and
  fails if it is \<open>Some k\<close> (a write then has written \<open>k\<close> bytes); the trace lists the file tables
  between which the process may crash.
\<close>

section \<open>Operating system calls\<close>

type_synonym file_table = "(string \<times> (bytes \<times> bool)) list"

record os_state =
  os_files :: file_table
  os_faults :: "nat option list"
  os_trace :: "file_table list"

abbreviation ErrNotExist :: go_error where "ErrNotExist \<equiv> Sentinel ''file does not exist''"
abbreviation ErrIO :: go_error where "ErrIO \<equiv> NewError ''input/output error''"

definition next_fault :: "os_state \<Rightarrow> nat option \<times> os_state" where
  "next_fault s = (case os_faults s of [] \<Rightarrow> (None, s) | f # fs \<Rightarrow> (f, s\<lparr>os_faults := fs\<rparr>))"

definition set_files :: "file_table \<Rightarrow> os_state \<Rightarrow> os_state" where
  "set_files t s = s\<lparr>os_files := t, os_trace := os_trace s @ [t]\<rparr>"

definition os_Create :: "string \<Rightarrow> os_state \<Rightarrow> unit result \<times> os_state" where
  "os_Create path s = (case next_fault s of
     (Some _, s) \<Rightarrow> (Inl ErrIO, s)
   | (None, s) \<Rightarrow> (Inr (), set_files (AList.update path ([], False) (os_files s)) s))"

definition file_content :: "string \<Rightarrow> os_state \<Rightarrow> bytes" where
  "file_content path s = (case map_of (os_files s) path of None \<Rightarrow> [] | Some (c, _) \<Rightarrow> c)"

definition os_Write :: "string \<Rightarrow> bytes \<Rightarrow> os_state \<Rightarrow> unit result \<times> os_state" where
  "os_Write path data s = (case next_fault s of
     (Some k, s) \<Rightarrow> (Inl ErrIO, set_files (AList.update path (file_content path s @ take k data, False) (os_files s)) s)
   | (None, s) \<Rightarrow> (Inr (), set_files (AList.update path (file_content path s @ data, False) (os_files s)) s))"

definition os_Sync :: "string \<Rightarrow> os_state \<Rightarrow> unit result \<times> os_state" where
  "os_Sync path s = (case next_fault s of
     (Some _, s) \<Rightarrow> (Inl ErrIO, s)
   | (None, s) \<Rightarrow> (Inr (), set_files (AList.update path (file_content path s, True) (os_files s)) s))"

definition os_Close :: "os_state \<Rightarrow> unit result \<times> os_state" where
  "os_Close s = (case next_fault s of (Some _, s) \<Rightarrow> (Inl ErrIO, s) | (None, s) \<Rightarrow> (Inr (), s))"

definition os_Rename :: "string \<Rightarrow> string \<Rightarrow> os_state \<Rightarrow> unit result \<times> os_state" where
  "os_Rename old new s = (case next_fault s of
     (Some _, s) \<Rightarrow> (Inl ErrIO, s)
   | (None, s) \<Rightarrow> (case map_of (os_files s) old of
        None \<Rightarrow> (Inl ErrNotExist, s)
      | Some f \<Rightarrow> (Inr (), set_files (AList.update new f (AList.delete old (os_files s))) s)))"

definition os_Remove :: "string \<Rightarrow> os_state \<Rightarrow> unit result \<times> os_state" where
  "os_Remove path s = (case next_fault s of
     (Some _, s) \<Rightarrow> (Inl ErrIO, s)
   | (None, s) \<Rightarrow> (if map_of (os_files s) path = None then (Inl ErrNotExist, s)
                  else (Inr (), set_files (AList.delete path (os_files s)) s)))"

definition os_ReadFile :: "string \<Rightarrow> os_state \<Rightarrow> bytes result \<times> os_state" where
  "os_ReadFile path s = (case next_fault s of
     (Some _, s) \<Rightarrow> (Inl ErrIO, s)
   | (None, s) \<Rightarrow> (case map_of (os_files s) path of
        None \<Rightarrow> (Inl ErrNotExist, s) | Some (c, _) \<Rightarrow> (Inr c, s)))"

definition os_MkdirAll :: "string \<Rightarrow> os_state \<Rightarrow> unit result \<times> os_state" where
  "os_MkdirAll path s = (case next_fault s of (Some _, s) \<Rightarrow> (Inl ErrIO, s) | (None, s) \<Rightarrow> (Inr (), s))"

definition os_Stat :: "string \<Rightarrow> os_state \<Rightarrow> unit result \<times> os_state" where
  "os_Stat path s = (case next_fault s of
     (Some _, s) \<Rightarrow> (Inl ErrIO, s)
   | (None, s) \<Rightarrow> ((if map_of (os_files s) path = None then Inl ErrNotExist else Inr ()), s))"

definition os_WriteFile :: "string \<Rightarrow> bytes \<Rightarrow> os_state \<Rightarrow> unit result \<times> os_state" where
  "os_WriteFile path data s = (case os_Create path s of
     (Inl e, s) \<Rightarrow> (Inl e, s)
   | (Inr _, s) \<Rightarrow> os_Write path data s)"

text \<open>\<open>filepath.Glob\<close> of a pattern \<open>dir/*suffix\<close>, for a directory name without glob metacharacters.\<close>

definition dir_prefix :: "string \<Rightarrow> string" where
  "dir_prefix dir = (let c = filepath_Clean dir in
     if c = ''.'' then '''' else if c = ''/'' then ''/'' else c @ ''/'')"

definition glob_suffix :: "string \<Rightarrow> string \<Rightarrow> os_state \<Rightarrow> string list" where
  "glob_suffix dir suffix s =
     filter (\<lambda>p. let pre = dir_prefix dir; rest = drop (length pre) p in
       has_prefix p pre \<and> slash \<notin> set rest \<and> length suffix \<le> length rest \<and>
       drop (length rest - length suffix) rest = suffix) (map fst (os_files s))"

section \<open>The filesystem provider\<close>

abbreviation ErrCheckpointNotFound :: go_error where
  "ErrCheckpointNotFound \<equiv> Sentinel ''checkpoint not found''"
abbreviation ErrReceiptsNotFound :: go_error where "ErrReceiptsNotFound \<equiv> Sentinel ''receipts not found''"
abbreviation ErrIdentityNotFound :: go_error where "ErrIdentityNotFound \<equiv> Sentinel ''identity not found''"

definition provider_path :: "string \<Rightarrow> string \<Rightarrow> string \<Rightarrow> string result" where
  "provider_path suffix baseDir agentID =
     (let cleaned = filepath_Clean (filepath_Join [baseDir, agentID @ suffix])
      in if \<not> has_prefix cleaned (filepath_Clean baseDir @ [slash])
         then Inl (NewError ''invalid agent ID: path traversal detected'') else Inr cleaned)"

definition checkpointPath :: "string \<Rightarrow> string \<Rightarrow> string result" where
  "checkpointPath = provider_path ''.checkpoint''"

definition receiptPath :: "string \<Rightarrow> string \<Rightarrow> string result" where
  "receiptPath = provider_path ''.receipts''"

definition identityPath :: "string \<Rightarrow> string \<Rightarrow> string result" where
  "identityPath = provider_path ''.identity''"

text \<open>The write pattern the three \<open>Save\<close> methods share, with their deferred clean-up of the
  temporary file; \<open>what\<close> is the noun in their messages.\<close>

definition remove_temp :: "string \<Rightarrow> go_error \<Rightarrow> os_state \<Rightarrow> unit result \<times> os_state" where
  "remove_temp tempPath e s = (Inl e, snd (os_Remove tempPath s))"

definition atomic_write :: "string \<Rightarrow> string \<Rightarrow> bytes \<Rightarrow> os_state \<Rightarrow> unit result \<times> os_state" where
  "atomic_write what path data s =
     (let tempPath = path @ ''.tmp'' in
      case os_Create tempPath s of
        (Inl e, s) \<Rightarrow> (Inl (WrapError (''failed to create temp '' @ what) e), s)
      | (Inr _, s) \<Rightarrow>
        (case os_Write tempPath data s of
           (Inl e, s) \<Rightarrow> remove_temp tempPath (WrapError (''failed to write '' @ what) e) (snd (os_Close s))
         | (Inr _, s) \<Rightarrow>
           (case os_Sync tempPath s of
              (Inl e, s) \<Rightarrow> remove_temp tempPath (WrapError (''failed to fsync '' @ what) e) (snd (os_Close s))
            | (Inr _, s) \<Rightarrow>
              (case os_Close s of
                 (Inl e, s) \<Rightarrow> remove_temp tempPath (WrapError (''failed to close temp '' @ what) e) s
               | (Inr _, s) \<Rightarrow>
                 (case os_Rename tempPath path s of
                    (Inl e, s) \<Rightarrow> remove_temp tempPath (WrapError (''failed to rename '' @ what) e) s
                  | (Inr _, s) \<Rightarrow> (Inr (), s))))))"

definition HistoryDir :: "string \<Rightarrow> string \<Rightarrow> string" where
  "HistoryDir baseDir agentID = filepath_Join [baseDir, ''history'', agentID]"

definition pad10 :: "uint64 \<Rightarrow> string" where
  "pad10 n = (let ds = dec_nat (unat n) in replicate (10 - length ds) CHR ''0'' @ ds)"

definition archiveCheckpoint :: "string \<Rightarrow> string \<Rightarrow> bytes \<Rightarrow> os_state \<Rightarrow> os_state" where
  "archiveCheckpoint baseDir agentID state s =
     (if length state < 25 then s
      else let tickNumber = get_u64 (go_slice 17 25 state);
               histDir = filepath_Join [baseDir, ''history'', agentID]
           in case os_MkdirAll histDir s of
                (Inl _, s) \<Rightarrow> s
              | (Inr _, s) \<Rightarrow>
                let histPath = filepath_Join [histDir, pad10 tickNumber @ ''.ckpt'']
                in case os_Stat histPath s of
                     (Inr _, s) \<Rightarrow> s
                   | (Inl _, s) \<Rightarrow> snd (os_WriteFile histPath state s))"

definition SaveCheckpoint :: "string \<Rightarrow> string \<Rightarrow> bytes \<Rightarrow> os_state \<Rightarrow> unit result \<times> os_state" where
  "SaveCheckpoint baseDir agentID state s =
     (case checkpointPath baseDir agentID of
        Inl e \<Rightarrow> (Inl e, s)
      | Inr path \<Rightarrow>
          (case atomic_write ''checkpoint'' path state s of
             (Inl e, s) \<Rightarrow> (Inl e, s)
           | (Inr _, s) \<Rightarrow> (Inr (), archiveCheckpoint baseDir agentID state s)))"

definition load_blob :: "string result \<Rightarrow> string \<Rightarrow> go_error \<Rightarrow> os_state \<Rightarrow> bytes result \<times> os_state" where
  "load_blob path what notFound s =
     (case path of
        Inl e \<Rightarrow> (Inl e, s)
      | Inr path \<Rightarrow>
          (case os_ReadFile path s of
             (Inl e, s) \<Rightarrow> (Inl (if errors_is e ErrNotExist then notFound
                                else WrapError (''failed to read '' @ what) e), s)
           | (Inr data, s) \<Rightarrow> (Inr data, s)))"

definition delete_blob :: "string result \<Rightarrow> string \<Rightarrow> os_state \<Rightarrow> unit result \<times> os_state" where
  "delete_blob path what s =
     (case path of
        Inl e \<Rightarrow> (Inl e, s)
      | Inr path \<Rightarrow>
          (case os_Remove path s of
             (Inl e, s) \<Rightarrow> (if errors_is e ErrNotExist then Inr ()
                           else Inl (WrapError (''failed to delete '' @ what) e), s)
           | (Inr _, s) \<Rightarrow> (Inr (), s)))"

definition LoadCheckpoint :: "string \<Rightarrow> string \<Rightarrow> os_state \<Rightarrow> bytes result \<times> os_state" where
  "LoadCheckpoint baseDir agentID = load_blob (checkpointPath baseDir agentID) ''checkpoint'' ErrCheckpointNotFound"

definition DeleteCheckpoint :: "string \<Rightarrow> string \<Rightarrow> os_state \<Rightarrow> unit result \<times> os_state" where
  "DeleteCheckpoint baseDir agentID = delete_blob (checkpointPath baseDir agentID) ''checkpoint''"

definition save_blob :: "string result \<Rightarrow> string \<Rightarrow> bytes \<Rightarrow> os_state \<Rightarrow> unit result \<times> os_state" where
  "save_blob path what data s =
     (case path of Inl e \<Rightarrow> (Inl e, s) | Inr path \<Rightarrow> atomic_write what path data s)"

definition SaveReceipts :: "string \<Rightarrow> string \<Rightarrow> bytes \<Rightarrow> os_state \<Rightarrow> unit result \<times> os_state" where
  "SaveReceipts baseDir agentID = save_blob (receiptPath baseDir agentID) ''receipts''"

definition LoadReceipts :: "string \<Rightarrow> string \<Rightarrow> os_state \<Rightarrow> bytes result \<times> os_state" where
  "LoadReceipts baseDir agentID = load_blob (receiptPath baseDir agentID) ''receipts'' ErrReceiptsNotFound"

definition DeleteReceipts :: "string \<Rightarrow> string \<Rightarrow> os_state \<Rightarrow> unit result \<times> os_state" where
  "DeleteReceipts baseDir agentID = delete_blob (receiptPath baseDir agentID) ''receipts''"

definition SaveIdentity :: "string \<Rightarrow> string \<Rightarrow> bytes \<Rightarrow> os_state \<Rightarrow> unit result \<times> os_state" where
  "SaveIdentity baseDir agentID = save_blob (identityPath baseDir agentID) ''identity''"

definition LoadIdentity :: "string \<Rightarrow> string \<Rightarrow> os_state \<Rightarrow> bytes result \<times> os_state" where
  "LoadIdentity baseDir agentID = load_blob (identityPath baseDir agentID) ''identity'' ErrIdentityNotFound"

definition DeleteIdentity :: "string \<Rightarrow> string \<Rightarrow> os_state \<Rightarrow> unit result \<times> os_state" where
  "DeleteIdentity baseDir agentID = delete_blob (identityPath baseDir agentID) ''identity''"

fun remove_all :: "string list \<Rightarrow> os_state \<Rightarrow> os_state" where
  "remove_all [] s = s"
| "remove_all (p # ps) s = remove_all ps (snd (os_Remove p s))"

definition cleanStaleTempFiles :: "string \<Rightarrow> os_state \<Rightarrow> os_state" where
  "cleanStaleTempFiles baseDir s = remove_all (glob_suffix baseDir ''.tmp'' s) s"

definition NewFSProvider :: "string \<Rightarrow> os_state \<Rightarrow> string result \<times> os_state" where
  "NewFSProvider baseDir s =
     (case os_MkdirAll baseDir s of
        (Inl e, s) \<Rightarrow> (Inl (WrapError ''failed to create checkpoint directory'' e), s)
      | (Inr _, s) \<Rightarrow> (Inr baseDir, cleanStaleTempFiles baseDir s))"

text \<open>The interface \<open>storage.Provider\<close> as a record of its methods, and the filesystem's instance.\<close>

record 's provider =
  pv_SaveCheckpoint :: "string \<Rightarrow> bytes \<Rightarrow> 's \<Rightarrow> unit result \<times> 's"
  pv_LoadCheckpoint :: "string \<Rightarrow> 's \<Rightarrow> bytes result \<times> 's"
  pv_DeleteCheckpoint :: "string \<Rightarrow> 's \<Rightarrow> unit result \<times> 's"
  pv_SaveReceipts :: "string \<Rightarrow> bytes \<Rightarrow> 's \<Rightarrow> unit result \<times> 's"
  pv_LoadReceipts :: "string \<Rightarrow> 's \<Rightarrow> bytes result \<times> 's"
  pv_DeleteReceipts :: "string \<Rightarrow> 's \<Rightarrow> unit result \<times> 's"
  pv_SaveIdentity :: "string \<Rightarrow> bytes \<Rightarrow> 's \<Rightarrow> unit result \<times> 's"
  pv_LoadIdentity :: "string \<Rightarrow> 's \<Rightarrow> bytes result \<times> 's"
  pv_DeleteIdentity :: "string \<Rightarrow> 's \<Rightarrow> unit result \<times> 's"

definition fs_provider :: "string \<Rightarrow> os_state provider" where
  "fs_provider baseDir =
     \<lparr>pv_SaveCheckpoint = SaveCheckpoint baseDir, pv_LoadCheckpoint = LoadCheckpoint baseDir,
      pv_DeleteCheckpoint = DeleteCheckpoint baseDir,
      pv_SaveReceipts = SaveReceipts baseDir, pv_LoadReceipts = LoadReceipts baseDir,
      pv_DeleteReceipts = DeleteReceipts baseDir,
      pv_SaveIdentity = SaveIdentity baseDir, pv_LoadIdentity = LoadIdentity baseDir,
      pv_DeleteIdentity = DeleteIdentity baseDir\<rparr>"

section \<open>What a sequence of system calls leaves alone\<close>

text \<open>\<open>keeps Q s s'\<close>: between \<open>s\<close> and \<open>s'\<close> no file of \<open>Q\<close> changed, in the end and at every
  point where a crash can happen.\<close>

definition keeps :: "string set \<Rightarrow> os_state \<Rightarrow> os_state \<Rightarrow> bool" where
  "keeps Q s s' \<longleftrightarrow>
     (\<forall>q \<in> Q. map_of (os_files s') q = map_of (os_files s) q) \<and>
     (\<exists>ts. os_trace s' = os_trace s @ ts \<and> (\<forall>t \<in> set ts. \<forall>q \<in> Q. map_of t q = map_of (os_files s) q))"

lemma keeps_refl [simp, intro]: "keeps Q s s"
  by (simp add: keeps_def)

lemma keeps_trans [trans]: "keeps Q s s' \<Longrightarrow> keeps Q s' s'' \<Longrightarrow> keeps Q s s''"
  by (fastforce simp: keeps_def)

lemma keeps_mono: "keeps Q s s' \<Longrightarrow> R \<subseteq> Q \<Longrightarrow> keeps R s s'"
  by (fastforce simp: keeps_def)

lemma keepsD: "keeps Q s s' \<Longrightarrow> q \<in> Q \<Longrightarrow> map_of (os_files s') q = map_of (os_files s) q"
  by (simp add: keeps_def)

lemma keeps_next_fault: "next_fault s = (f, s') \<Longrightarrow> keeps Q s s' \<and> os_files s' = os_files s"
  by (auto simp: next_fault_def keeps_def split: list.splits)

lemma keeps_set_files:
  "(\<And>q. q \<in> Q \<Longrightarrow> map_of t q = map_of (os_files s) q) \<Longrightarrow> keeps Q s (set_files t s)"
  by (auto simp: keeps_def set_files_def)

lemma keeps_fault_set:
  assumes "next_fault s = (f, s')" "\<And>q. q \<in> Q \<Longrightarrow> map_of t q = map_of (os_files s') q"
  shows "keeps Q s (set_files t s')"
  using keeps_trans [OF conjunct1 [OF keeps_next_fault [OF assms(1)]] keeps_set_files [OF assms(2)]] .

lemma os_files_set_files [simp]: "os_files (set_files t s) = t"
  by (simp add: set_files_def)

lemma os_faults_set_files [simp]: "os_faults (set_files t s) = os_faults s"
  by (simp add: set_files_def)

named_theorems os_calls \<open>the definitions of the system calls\<close>

declare os_Create_def [os_calls] os_Write_def [os_calls] os_Sync_def [os_calls] os_Close_def [os_calls]
  os_Rename_def [os_calls] os_Remove_def [os_calls] os_ReadFile_def [os_calls]
  os_MkdirAll_def [os_calls] os_Stat_def [os_calls]

lemma keeps_os_call:
  "os_Create p s = (r, s') \<Longrightarrow> keeps (- {p}) s s'"
  "os_Write p d s = (r, s') \<Longrightarrow> keeps (- {p}) s s'"
  "os_Sync p s = (r, s') \<Longrightarrow> keeps (- {p}) s s'"
  "os_Remove p s = (r', s') \<Longrightarrow> keeps (- {p}) s s'"
  "os_Rename p q s = (r', s') \<Longrightarrow> keeps (- {p, q}) s s'"
  "os_Close s = (r', s') \<Longrightarrow> keeps Q s s'"
  "os_ReadFile p s = (r'', s') \<Longrightarrow> keeps Q s s'"
  "os_MkdirAll p s = (r', s') \<Longrightarrow> keeps Q s s'"
  "os_Stat p s = (r', s') \<Longrightarrow> keeps Q s s'"
  by (auto simp: os_calls update_conv' delete_conv' split: prod.splits option.splits if_splits
      intro: keeps_next_fault [THEN conjunct1] intro!: keeps_fault_set)

lemma os_temp_content:
  "os_Create p s = (Inr u, s') \<Longrightarrow> map_of (os_files s') p = Some ([], False)"
  "os_Write p d s = (Inr u, s') \<Longrightarrow> map_of (os_files s) p = Some ([], b) \<Longrightarrow>
     map_of (os_files s') p = Some (d, False)"
  "os_Sync p s = (Inr u, s') \<Longrightarrow> map_of (os_files s) p = Some (d, b) \<Longrightarrow>
     map_of (os_files s') p = Some (d, True)"
  "os_Close s = (r, s') \<Longrightarrow> map_of (os_files s') p = map_of (os_files s) p"
  by (auto simp: os_calls file_content_def update_conv' split: prod.splits option.splits if_splits
      dest: keeps_next_fault)

lemma os_temp_written:
  assumes "os_Create p s = (Inr u, sc)" "os_Write p d sc = (Inr v, sw)" "os_Sync p sw = (Inr w, sy)"
    "os_Close sy = (r, sl)"
  shows "map_of (os_files sl) p = Some (d, True)"
  using os_temp_content(4) [OF assms(4)]
    os_temp_content(3) [OF assms(3) os_temp_content(2) [OF assms(2) os_temp_content(1) [OF assms(1)]]]
  by simp

lemma os_Rename_effect:
  assumes "os_Rename p q s = (r, s')" "p \<noteq> q"
  shows "(r = Inr () \<and> map_of (os_files s') q = map_of (os_files s) p \<and>
      os_trace s' = os_trace s @ [os_files s']) \<or>
    (\<exists>e. r = Inl e \<and> os_files s' = os_files s \<and> os_trace s' = os_trace s)"
  using assms
  by (auto simp: os_Rename_def update_conv' set_files_def next_fault_def
      split: prod.splits option.splits list.splits)

lemma remove_temp_effect:
  "remove_temp p e s = (r, s') \<Longrightarrow> r = Inl e \<and> keeps (- {p}) s s'"
  by (cases "os_Remove p s") (auto simp: remove_temp_def dest: keeps_os_call)

lemma remove_temp_after:
  "remove_temp p e s1 = (r, s') \<Longrightarrow> keeps (- {p}) s s1 \<Longrightarrow> r = Inl e \<and> keeps (- {p}) s s'"
  using remove_temp_effect keeps_trans by blast

text \<open>Either the write fails and only the temporary file may have changed, or the temporary file was
  complete and synced when it was renamed over the final path.\<close>

lemma atomic_write_cases [consumes 1, case_names failed renamed]:
  assumes "atomic_write what p d s = (r, s')"
  obtains (failed) e where "r = Inl e" "keeps (- {p @ ''.tmp''}) s s'"
    | (renamed) s1 where "r = Inr ()" "keeps (- {p @ ''.tmp''}) s s1"
        "map_of (os_files s1) (p @ ''.tmp'') = Some (d, True)" "os_Rename (p @ ''.tmp'') p s1 = (Inr (), s')"
proof -
  let ?t = "p @ ''.tmp''"
  obtain rc sc where c: "os_Create ?t s = (rc, sc)" by fastforce
  obtain rw sw where w: "os_Write ?t d sc = (rw, sw)" by fastforce
  obtain ry sy where y: "os_Sync ?t sw = (ry, sy)" by fastforce
  obtain rl sl where l: "os_Close sy = (rl, sl)" by fastforce
  obtain rn sn where n: "os_Rename ?t p sl = (rn, sn)" by fastforce
  note calls = c w y l n
  have kc: "keeps (- {?t}) s sc" using c by (rule keeps_os_call)
  have kw: "keeps (- {?t}) s sw" using kc keeps_os_call(2) [OF w] by (rule keeps_trans)
  have ky: "keeps (- {?t}) s sy" using kw keeps_os_call(3) [OF y] by (rule keeps_trans)
  have kl: "keeps (- {?t}) s sl" using ky keeps_os_call(6) [OF l] by (rule keeps_trans)
  show thesis
  proof (cases "(\<exists>u. rc = Inr u) \<and> (\<exists>u. rw = Inr u) \<and> (\<exists>u. ry = Inr u) \<and> (\<exists>u. rl = Inr u)")
    case True
    then have content: "map_of (os_files sl) ?t = Some (d, True)"
      using os_temp_written [of ?t s _ sc d _ sw _ sy _ sl] calls by auto
    from True os_Rename_effect [OF n] consider (ok) "rn = Inr ()" | (err) e where "rn = Inl e" "keeps (- {?t}) s sn"
      using kl by (auto simp: keeps_def)
    then show thesis
    proof cases
      case ok
      then show thesis using renamed [OF _ kl content] assms True calls
        by (auto simp: atomic_write_def)
    next
      case err
      then have "remove_temp ?t (WrapError (''failed to rename '' @ what) e) sn = (r, s')"
        using assms True calls by (auto simp: atomic_write_def)
      from remove_temp_effect [OF this] err(2) show thesis
        using failed keeps_trans by blast
    qed
  next
    case False
    then consider e where "rc = Inl e"
      | u e where "rc = Inr u" "rw = Inl e" | u e where "rc = Inr u" "rw = Inr u" "ry = Inl e"
      | u e where "rc = Inr u" "rw = Inr u" "ry = Inr u" "rl = Inl e"
      by (metis (full_types) old.sum.exhaust old.unit.exhaust)
    moreover have "keeps (- {?t}) s (snd (os_Close sw))"
      using keeps_trans [OF kw] keeps_os_call(6) by (metis prod.collapse)
    ultimately show thesis
      using assms kc kl failed by cases (auto simp: atomic_write_def calls dest: remove_temp_after)
  qed
qed

text \<open>A crash keeps what was synced; a file that was not may hold anything afterwards.\<close>

definition crash_outcome :: "file_table \<Rightarrow> file_table \<Rightarrow> bool" where
  "crash_outcome t t' \<longleftrightarrow>
     (\<forall>p. (map_of t p = None \<longleftrightarrow> map_of t' p = None) \<and>
       (\<forall>c. map_of t p = Some (c, True) \<longrightarrow> map_of t' p = Some (c, True)))"

definition durable_at :: "string \<Rightarrow> file_table \<Rightarrow> bool" where
  "durable_at p t \<longleftrightarrow> (\<forall>c b. map_of t p = Some (c, b) \<longrightarrow> b)"

lemma crash_outcome_durable:
  assumes "crash_outcome t t'" "durable_at p t"
  shows "map_of t' p = map_of t p"
proof (cases "map_of t p")
  case None
  then show ?thesis using assms(1) unfolding crash_outcome_def by metis
next
  case (Some f)
  then show ?thesis using assms by (cases f) (auto simp: crash_outcome_def durable_at_def)
qed

lemma temp_neq [simp]: "p \<noteq> p @ ''.tmp''" "p @ ''.tmp'' \<noteq> p"
  by simp_all

lemma atomic_write_steps:
  assumes "atomic_write what p d s = (r, s')"
  shows "\<exists>ts. os_trace s' = os_trace s @ ts \<and>
    (\<forall>t \<in> set ts. map_of t p = map_of (os_files s) p \<or> map_of t p = Some (d, True))"
  using assms
proof (cases rule: atomic_write_cases)
  case (failed e)
  then show ?thesis by (fastforce simp: keeps_def)
next
  case (renamed s1)
  from os_Rename_effect [OF renamed(4)] renamed(3)
  have "os_trace s' = os_trace s1 @ [os_files s'] \<and> map_of (os_files s') p = Some (d, True)" by simp
  with renamed(2) show ?thesis by (fastforce simp: keeps_def)
qed

lemma atomic_write_result:
  assumes "atomic_write what p d s = (r, s')"
  shows "case r of Inr _ \<Rightarrow> map_of (os_files s') p = Some (d, True)
                 | Inl _ \<Rightarrow> map_of (os_files s') p = map_of (os_files s) p"
  using assms
proof (cases rule: atomic_write_cases)
  case (failed e)
  then show ?thesis by (simp add: keeps_def)
next
  case (renamed s1)
  with os_Rename_effect [OF renamed(4)] show ?thesis by simp
qed

lemma atomic_write_keeps:
  assumes "atomic_write what p d s = (r, s')"
  shows "keeps (- {p, p @ ''.tmp''}) s s'"
  using assms
proof (cases rule: atomic_write_cases)
  case (failed e)
  show ?thesis using failed(2) by (rule keeps_mono) auto
next
  case (renamed s1)
  have "keeps (- {p, p @ ''.tmp''}) s s1" using renamed(2) by (rule keeps_mono) auto
  moreover have "keeps (- {p, p @ ''.tmp''}) s1 s'" using keeps_os_call(5) [OF renamed(4)] by (rule keeps_mono) auto
  ultimately show ?thesis by (rule keeps_trans)
qed

section \<open>Paths of the provider's files\<close>

lemma provider_path_ends:
  assumes "provider_path suffix baseDir agentID = Inr path" "slash \<notin> set suffix" "2 < length suffix"
  shows "\<exists>pre. path = pre @ suffix"
  using assms clean_suffix [OF assms(2,3)] join_suffix [OF assms(2,3), of "[baseDir]" agentID]
  by (auto simp: provider_path_def Let_def split: if_splits)

lemma hist_path_neq:
  assumes "checkpointPath baseDir agentID = Inr path"
  shows "filepath_Join [histDir, x @ ''.ckpt''] \<noteq> path"
proof
  assume eq: "filepath_Join [histDir, x @ ''.ckpt''] = path"
  obtain pre where "path = pre @ ''.checkpoint''"
    using provider_path_ends [of "''.checkpoint''" baseDir agentID path] assms by (auto simp: checkpointPath_def)
  moreover obtain pre' where "path = pre' @ ''.ckpt''"
    using eq join_suffix [of "''.ckpt''" "[histDir]" x] by auto
  ultimately have "rev (pre @ ''.checkpoint'') = rev (pre' @ ''.ckpt'')" by simp
  then show False by simp
qed

lemma os_WriteFile_keeps: "keeps (- {p}) s (snd (os_WriteFile p d s))"
proof (cases "os_Create p s")
  case (Pair r s1)
  then show ?thesis
    using keeps_os_call(1) [OF Pair] keeps_os_call(2) [of p d s1] keeps_trans
    by (cases r; cases "os_Write p d s1") (auto simp: os_WriteFile_def)
qed

lemma archiveCheckpoint_keeps:
  assumes "checkpointPath baseDir agentID = Inr path"
  shows "keeps {path} s (archiveCheckpoint baseDir agentID' state s)"
proof (cases "length state < 25")
  case False
  define histDir where "histDir = filepath_Join [baseDir, ''history'', agentID']"
  define histPath where "histPath = filepath_Join [histDir, pad10 (get_u64 (go_slice 17 25 state)) @ ''.ckpt'']"
  have neq: "{path} \<subseteq> - {histPath}" using hist_path_neq [OF assms] by (auto simp: histPath_def)
  obtain rm sm where m: "os_MkdirAll histDir s = (rm, sm)" by fastforce
  obtain rs ss where st: "os_Stat histPath sm = (rs, ss)" by fastforce
  have k: "keeps {path} s ss" "keeps {path} s sm"
    using keeps_os_call(8) [OF m] keeps_os_call(9) [OF st] keeps_trans by blast+
  have "keeps {path} ss (snd (os_WriteFile histPath state ss))"
    using keeps_mono [OF os_WriteFile_keeps neq] .
  with k show ?thesis
    by (auto simp: archiveCheckpoint_def Let_def m st simp flip: histDir_def histPath_def
        split: sum.splits intro: keeps_trans)
qed (simp add: archiveCheckpoint_def)

section \<open>The store contract\<close>

text \<open>
  What the clients of \<open>storage.Provider\<close> rely on, for each kind of blob: a save that returns nil has
  stored the data, a save that returns an error has left what was stored; a load returns what is
  stored or an error; without input/output errors (\<open>reliable\<close>) saves of valid keys succeed and loads
  find what is stored.
\<close>

locale blob_store =
  fixes save :: "string \<Rightarrow> bytes \<Rightarrow> 's \<Rightarrow> unit result \<times> 's"
    and load :: "string \<Rightarrow> 's \<Rightarrow> bytes result \<times> 's"
    and del :: "string \<Rightarrow> 's \<Rightarrow> unit result \<times> 's"
    and notFound :: go_error
    and stored :: "string \<Rightarrow> 's \<Rightarrow> bytes option"
    and valid :: "string \<Rightarrow> bool"
    and reliable :: "'s \<Rightarrow> bool"
  assumes save_ok: "save k d s = (Inr u, s') \<Longrightarrow> stored k s' = Some d"
    and save_err: "save k d s = (Inl e, s') \<Longrightarrow> stored k s' = stored k s"
    and save_live: "reliable s \<Longrightarrow> valid k \<Longrightarrow> \<exists>s'. save k d s = (Inr (), s')"
    and load_ok: "load k s = (Inr d, s') \<Longrightarrow> stored k s = Some d"
    and load_live: "reliable s \<Longrightarrow> valid k \<Longrightarrow>
      fst (load k s) = (case stored k s of None \<Rightarrow> Inl notFound | Some d \<Rightarrow> Inr d)"
    and load_keeps: "load k s = (q, s') \<Longrightarrow> stored j s' = stored j s"
    and del_ok: "del k s = (Inr u, s') \<Longrightarrow> stored k s' = None"
    and del_err: "del k s = (Inl e, s') \<Longrightarrow> stored k s' = stored k s"
    and reliable_save: "reliable s \<Longrightarrow> save k d s = (r, s') \<Longrightarrow> reliable s'"
    and reliable_load: "reliable s \<Longrightarrow> load k s = (q, s') \<Longrightarrow> reliable s'"
    and valid_stored: "stored k s \<noteq> None \<Longrightarrow> valid k"
begin

text \<open>Read your writes.\<close>

lemma load_after_save:
  assumes "save k d s = (Inr u, s')" "reliable s'"
  shows "fst (load k s') = Inr d"
  using load_live [OF assms(2)] save_ok [OF assms(1)] valid_stored [of k s'] by simp

text \<open>A save is all or nothing.\<close>

lemma save_old_or_new:
  "save k d s = (r, s') \<Longrightarrow> stored k s' = (case r of Inr _ \<Rightarrow> Some d | Inl _ \<Rightarrow> stored k s)"
  using save_ok save_err by (cases r) auto

lemma load_never_invents:
  "save k d s = (r, s') \<Longrightarrow> load k s' = (Inr x, s'') \<Longrightarrow> x = d \<or> stored k s = Some x"
  using save_old_or_new [of k d s r s'] load_ok [of k s' x s''] by (cases r) auto

lemma load_after_delete:
  assumes "del k s = (Inr u, s')" "reliable s'" "valid k"
  shows "fst (load k s') = Inl notFound"
  using load_live [OF assms(2,3)] del_ok [OF assms(1)] by simp

end

section \<open>The filesystem provider fulfils the contract\<close>

definition stored_at :: "string result \<Rightarrow> os_state \<Rightarrow> bytes option" where
  "stored_at path s = (case path of Inl _ \<Rightarrow> None | Inr p \<Rightarrow> map_option fst (map_of (os_files s) p))"

definition no_faults :: "os_state \<Rightarrow> bool" where
  "no_faults s \<longleftrightarrow> (\<forall>f \<in> set (os_faults s). f = None)"

lemma next_fault_no_faults: "no_faults s \<Longrightarrow> next_fault s = (f, s') \<Longrightarrow> f = None \<and> no_faults s'"
  by (auto simp: next_fault_def no_faults_def split: list.splits)

lemma no_faults_set_files [simp]: "no_faults (set_files t s) = no_faults s"
  by (simp add: no_faults_def)

lemma no_faults_os_call:
  assumes "no_faults s"
  shows "os_Create p s = (r, s') \<Longrightarrow> r = Inr () \<and> no_faults s'"
    "os_Write p d s = (r, s') \<Longrightarrow> r = Inr () \<and> no_faults s'"
    "os_Sync p s = (r, s') \<Longrightarrow> r = Inr () \<and> no_faults s'"
    "os_Close s = (r, s') \<Longrightarrow> r = Inr () \<and> no_faults s'"
    "os_MkdirAll p s = (r, s') \<Longrightarrow> r = Inr () \<and> no_faults s'"
    "os_Rename p q s = (r, s') \<Longrightarrow> no_faults s' \<and> (map_of (os_files s) p \<noteq> None \<longrightarrow> r = Inr ())"
    "os_Remove p s = (r, s') \<Longrightarrow> no_faults s'"
    "os_Stat p s = (r, s') \<Longrightarrow> no_faults s'"
  using assms
  by (auto simp: os_calls split: prod.splits option.splits if_splits dest: next_fault_no_faults
      keeps_next_fault)

lemma no_faults_ReadFile:
  assumes "no_faults s" "os_ReadFile p s = (r, s')"
  shows "no_faults s' \<and> r = (case map_of (os_files s) p of None \<Rightarrow> Inl ErrNotExist | Some f \<Rightarrow> Inr (fst f))"
proof -
  obtain f s1 where f: "next_fault s = (f, s1)" by fastforce
  from next_fault_no_faults [OF assms(1) f] keeps_next_fault [OF f] assms(2) show ?thesis
    by (auto simp: os_ReadFile_def f split: option.splits)
qed

lemma atomic_write_no_faults:
  assumes "no_faults s" "atomic_write what p d s = (r, s')"
  shows "r = Inr () \<and> no_faults s'"
proof -
  let ?t = "p @ ''.tmp''"
  obtain rc sc where c: "os_Create ?t s = (rc, sc)" by fastforce
  obtain rw sw where w: "os_Write ?t d sc = (rw, sw)" by fastforce
  obtain ry sy where y: "os_Sync ?t sw = (ry, sy)" by fastforce
  obtain rl sl where l: "os_Close sy = (rl, sl)" by fastforce
  obtain rn sn where n: "os_Rename ?t p sl = (rn, sn)" by fastforce
  have h: "rc = Inr ()" "rw = Inr ()" "ry = Inr ()" "rl = Inr ()" "no_faults sl"
    using no_faults_os_call [OF assms(1)] c no_faults_os_call w y l by metis+
  then have "map_of (os_files sl) ?t = Some (d, True)" using os_temp_written c w y l by blast
  then have "rn = Inr () \<and> no_faults sn" using no_faults_os_call(6) [OF h(5) n] by simp
  with h assms(2) show ?thesis by (simp add: atomic_write_def c w y l n)
qed

lemma no_faults_WriteFile: "no_faults s \<Longrightarrow> no_faults (snd (os_WriteFile p d s))"
proof -
  assume nf: "no_faults s"
  obtain r s1 where c: "os_Create p s = (r, s1)" by fastforce
  obtain r2 s2 where w: "os_Write p d s1 = (r2, s2)" by fastforce
  from no_faults_os_call(1) [OF nf c] no_faults_os_call(2) [OF _ w] show ?thesis
    by (simp add: os_WriteFile_def c w)
qed

lemma archive_no_faults: "no_faults s \<Longrightarrow> no_faults (archiveCheckpoint baseDir agentID state s)"
proof -
  assume nf: "no_faults s"
  define histDir where "histDir = filepath_Join [baseDir, ''history'', agentID]"
  define histPath where "histPath = filepath_Join [histDir, pad10 (get_u64 (go_slice 17 25 state)) @ ''.ckpt'']"
  obtain rm sm where m: "os_MkdirAll histDir s = (rm, sm)" by fastforce
  obtain rs ss where st: "os_Stat histPath sm = (rs, ss)" by fastforce
  from no_faults_os_call(5) [OF nf m] no_faults_os_call(8) [OF _ st] no_faults_WriteFile nf show ?thesis
    by (auto simp: archiveCheckpoint_def Let_def m st simp flip: histDir_def histPath_def split: sum.splits)
qed

lemma SaveCheckpoint_stored:
  assumes "SaveCheckpoint baseDir k d s = (r, s')"
  shows "stored_at (checkpointPath baseDir k) s' =
    (case r of Inr _ \<Rightarrow> Some d | Inl _ \<Rightarrow> stored_at (checkpointPath baseDir k) s)"
proof (cases "checkpointPath baseDir k")
  case (Inr path)
  obtain ra sa where a: "atomic_write ''checkpoint'' path d s = (ra, sa)" by fastforce
  from keepsD [OF archiveCheckpoint_keeps [OF Inr]] atomic_write_result [OF a] assms
  show ?thesis by (cases ra) (auto simp: SaveCheckpoint_def stored_at_def Inr a)
qed (use assms in \<open>auto simp: SaveCheckpoint_def stored_at_def\<close>)

lemma SaveCheckpoint_no_faults:
  assumes "no_faults s" "SaveCheckpoint baseDir k d s = (r, s')"
  shows "no_faults s' \<and> (\<forall>path. checkpointPath baseDir k = Inr path \<longrightarrow> r = Inr ())"
proof (cases "checkpointPath baseDir k")
  case (Inr path)
  obtain ra sa where a: "atomic_write ''checkpoint'' path d s = (ra, sa)" by fastforce
  from atomic_write_no_faults [OF assms(1) a] archive_no_faults [of sa] assms(2) show ?thesis
    by (auto simp: SaveCheckpoint_def Inr a)
qed (use assms in \<open>simp add: SaveCheckpoint_def\<close>)

lemma save_blob_stored:
  "save_blob path what d s = (r, s') \<Longrightarrow> stored_at path s' = (case r of Inr _ \<Rightarrow> Some d | Inl _ \<Rightarrow> stored_at path s)"
  by (cases path; cases r) (auto simp: save_blob_def stored_at_def dest!: atomic_write_result)

lemma save_blob_no_faults:
  "no_faults s \<Longrightarrow> save_blob path what d s = (r, s') \<Longrightarrow> no_faults s' \<and> (\<forall>p. path = Inr p \<longrightarrow> r = Inr ())"
  by (auto simp: save_blob_def split: sum.splits dest: atomic_write_no_faults)

lemma load_blob_keeps: "load_blob path what nf s = (r, s') \<Longrightarrow> stored_at path' s' = stored_at path' s"
  by (cases path; cases path')
    (auto simp: load_blob_def stored_at_def keepsD split: prod.splits sum.splits
      dest!: keeps_os_call(7) [where Q = UNIV])

lemma load_blob_ok: "load_blob path what nf s = (Inr d, s') \<Longrightarrow> stored_at path s = Some d"
  by (auto simp: load_blob_def stored_at_def os_ReadFile_def split: prod.splits sum.splits option.splits
      dest: keeps_next_fault)

lemma load_blob_no_faults:
  assumes "no_faults s" "load_blob path what nf s = (r, s')"
  shows "no_faults s' \<and> (\<forall>p. path = Inr p \<longrightarrow> r = (case stored_at path s of None \<Rightarrow> Inl nf | Some d \<Rightarrow> Inr d))"
  using assms no_faults_ReadFile [OF assms(1)]
  by (fastforce simp: load_blob_def stored_at_def split: prod.splits sum.splits option.splits)

lemma delete_blob_stored:
  "delete_blob path what s = (r, s') \<Longrightarrow>
    (case r of Inr _ \<Rightarrow> stored_at path s' = None | Inl _ \<Rightarrow> stored_at path s' = stored_at path s)"
  by (cases path) (auto simp: delete_blob_def stored_at_def os_Remove_def delete_conv'
      split: prod.splits sum.splits option.splits if_splits dest: keeps_next_fault)

lemmas blob_lemmas = save_blob_stored save_blob_no_faults load_blob_keeps load_blob_ok load_blob_no_faults
  delete_blob_stored

definition valid_path :: "string result \<Rightarrow> bool" where
  "valid_path p \<longleftrightarrow> (case p of Inl _ \<Rightarrow> False | Inr _ \<Rightarrow> True)"

lemma valid_pathE: "valid_path p \<Longrightarrow> (\<And>x. p = Inr x \<Longrightarrow> thesis) \<Longrightarrow> thesis"
  by (cases p) (auto simp: valid_path_def)

lemma stored_valid: "stored_at p s \<noteq> None \<Longrightarrow> valid_path p"
  by (auto simp: stored_at_def valid_path_def split: sum.splits)

text \<open>The contract for any three operations that are a save, \<open>load_blob\<close> and \<open>delete_blob\<close> on the same
  path function; it is then interpreted for checkpoints, receipts and identities.\<close>

lemma blob_storeI:
  assumes "\<And>k d s r s'. save k d s = (r, s') \<Longrightarrow>
      stored_at (path k) s' = (case r of Inr _ \<Rightarrow> Some d | Inl _ \<Rightarrow> stored_at (path k) s)"
    and "\<And>k d s r s'. no_faults s \<Longrightarrow> save k d s = (r, s') \<Longrightarrow>
      no_faults s' \<and> (\<forall>p. path k = Inr p \<longrightarrow> r = Inr ())"
  shows "blob_store save (\<lambda>k. load_blob (path k) what nf) (\<lambda>k. delete_blob (path k) what) nf
    (\<lambda>k. stored_at (path k)) (\<lambda>k. valid_path (path k)) no_faults"
proof
  fix k d s u s' assume "save k d s = (Inr u, s')"
  then show "stored_at (path k) s' = Some d" using assms(1) by fastforce
next
  fix k d s e s' assume "save k d s = (Inl e, s')"
  then show "stored_at (path k) s' = stored_at (path k) s" using assms(1) by fastforce
next
  fix s k d assume "no_faults s" "valid_path (path k)"
  then show "\<exists>s'. save k d s = (Inr (), s')"
    using assms(2) [of s k d] by (cases "save k d s") (auto elim: valid_pathE)
next
  fix s k assume "no_faults s" "valid_path (path k)"
  then show "fst (load_blob (path k) what nf s) = (case stored_at (path k) s of None \<Rightarrow> Inl nf | Some d \<Rightarrow> Inr d)"
    using load_blob_no_faults [of s "path k" what nf] by (cases "load_blob (path k) what nf s") (auto elim: valid_pathE)
next
  fix k s assume "stored_at (path k) s \<noteq> None"
  then show "valid_path (path k)" by (rule stored_valid)
qed (use assms(2) in \<open>auto dest: blob_lemmas\<close>)

interpretation ckpt: blob_store "SaveCheckpoint b" "LoadCheckpoint b" "DeleteCheckpoint b" ErrCheckpointNotFound
    "\<lambda>k. stored_at (checkpointPath b k)" "\<lambda>k. valid_path (checkpointPath b k)" no_faults for b
  unfolding LoadCheckpoint_def DeleteCheckpoint_def
  by (rule blob_storeI) (auto dest: SaveCheckpoint_stored SaveCheckpoint_no_faults)

interpretation rcpt: blob_store "SaveReceipts b" "LoadReceipts b" "DeleteReceipts b" ErrReceiptsNotFound
    "\<lambda>k. stored_at (receiptPath b k)" "\<lambda>k. valid_path (receiptPath b k)" no_faults for b
  unfolding LoadReceipts_def DeleteReceipts_def SaveReceipts_def
  by (rule blob_storeI) (auto dest: blob_lemmas)

interpretation idn: blob_store "SaveIdentity b" "LoadIdentity b" "DeleteIdentity b" ErrIdentityNotFound
    "\<lambda>k. stored_at (identityPath b k)" "\<lambda>k. valid_path (identityPath b k)" no_faults for b
  unfolding LoadIdentity_def DeleteIdentity_def SaveIdentity_def
  by (rule blob_storeI) (auto dest: blob_lemmas)

section \<open>Opening the provider\<close>

lemma remove_all_effect:
  "keeps (- set ps) s (remove_all ps s) \<and>
   (no_faults s \<longrightarrow> no_faults (remove_all ps s) \<and> (\<forall>p \<in> set ps. map_of (os_files (remove_all ps s)) p = None))"
proof (induction ps arbitrary: s)
  case (Cons p ps)
  obtain r s1 where r: "os_Remove p s = (r, s1)" by fastforce
  have k: "keeps (- set (p # ps)) s s1" using keeps_os_call(4) [OF r] by (rule keeps_mono) auto
  moreover have "keeps (- set (p # ps)) s1 (remove_all ps s1)"
    using Cons.IH [of s1, THEN conjunct1] by (rule keeps_mono) auto
  moreover have "no_faults s \<Longrightarrow> no_faults s1 \<and> map_of (os_files s1) p = None"
    using r next_fault_no_faults [of s] by (auto simp: os_Remove_def delete_conv' split: prod.splits if_splits option.splits)
  moreover have "p \<notin> set ps \<Longrightarrow> map_of (os_files (remove_all ps s1)) p = map_of (os_files s1) p"
    using Cons.IH [of s1] by (simp add: keeps_def)
  ultimately show ?case using Cons.IH [of s1] keeps_trans by (auto simp: r)
qed simp

lemma checkpointPath_no_tmp:
  assumes "checkpointPath b k = Inr path"
  shows "path \<notin> set (glob_suffix dir ''.tmp'' s)"
proof
  assume "path \<in> set (glob_suffix dir ''.tmp'' s)"
  then obtain n m where "drop m (drop n path) = ''.tmp''"
    by (auto simp: glob_suffix_def Let_def)
  then have "path = take (m + n) path @ ''.tmp''"
    by (metis append_take_drop_id drop_drop)
  moreover obtain pre where "path = pre @ ''.checkpoint''"
    using provider_path_ends [of "''.checkpoint''" b k path] assms by (auto simp: checkpointPath_def)
  ultimately obtain x where "rev (pre @ ''.checkpoint'') = rev (x @ ''.tmp'')" by metis
  then show False by simp
qed

section \<open>Properties\<close>

text \<open>
  C4 Saving a checkpoint is atomic across crashes: whatever system call fails and wherever the process
  stops while \<open>SaveCheckpoint\<close> runs (archiving included), after the crash the checkpoint file holds
  either exactly what it held before or exactly the new checkpoint, provided the old one was synced.
\<close>

theorem SaveCheckpoint_crash_atomic:
  assumes "SaveCheckpoint baseDir agentID state s = (r, s')" "checkpointPath baseDir agentID = Inr path"
    "durable_at path (os_files s)"
    "t \<in> set (drop (length (os_trace s)) (os_trace s'))" "crash_outcome t t'"
  shows "map_of t' path \<in> {map_of (os_files s) path, Some (state, True)}"
proof -
  obtain ra sa where a: "atomic_write ''checkpoint'' path state s = (ra, sa)" by fastforce
  obtain ts where ts: "os_trace sa = os_trace s @ ts"
    "\<forall>t \<in> set ts. map_of t path = map_of (os_files s) path \<or> map_of t path = Some (state, True)"
    using atomic_write_steps [OF a] by blast
  have "map_of t path = map_of (os_files s) path \<or> map_of t path = Some (state, True)"
  proof (cases ra)
    case (Inl e)
    with assms(1,2,4) ts show ?thesis by (simp add: SaveCheckpoint_def a)
  next
    case (Inr u)
    then have s': "s' = archiveCheckpoint baseDir agentID state sa"
      using assms(1,2) by (simp add: SaveCheckpoint_def a)
    with archiveCheckpoint_keeps [OF assms(2), of sa agentID state] atomic_write_result [OF a] Inr
    obtain us where "os_trace s' = os_trace sa @ us" "\<forall>t \<in> set us. map_of t path = Some (state, True)"
      by (auto simp: keeps_def)
    with assms(4) ts show ?thesis by auto
  qed
  with assms(3) have "durable_at path t" "map_of t path \<in> {map_of (os_files s) path, Some (state, True)}"
    by (auto simp: durable_at_def)
  with crash_outcome_durable [OF assms(5)] show ?thesis by simp
qed

definition sample_os :: os_state where
  "sample_os = \<lparr>os_files = [(''ckpt/a.checkpoint'', ([1], True))], os_faults = [], os_trace = []\<rparr>"

theorem SaveCheckpoint_crash_atomic_witness:
  "map_of [(''ckpt/a.checkpoint'', ([1], True)), (''ckpt/a.checkpoint.tmp'', ([7, 7], False))] ''ckpt/a.checkpoint''
     \<in> {Some ([1 :: byte], True), Some ([2, 3], True)}"
proof -
  let ?t = "[(''ckpt/a.checkpoint'', ([1 :: byte], True)), (''ckpt/a.checkpoint.tmp'', ([2, 3], False))]"
  let ?t' = "[(''ckpt/a.checkpoint'', ([1 :: byte], True)), (''ckpt/a.checkpoint.tmp'', ([7, 7], False))]"
  have p: "checkpointPath ''ckpt'' ''a'' = Inr ''ckpt/a.checkpoint''" by code_simp
  have t: "?t \<in> set (drop (length (os_trace sample_os)) (os_trace (snd (SaveCheckpoint ''ckpt'' ''a'' [2, 3] sample_os))))"
    by code_simp
  have "durable_at ''ckpt/a.checkpoint'' (os_files sample_os)" "crash_outcome ?t ?t'"
    by (simp_all add: durable_at_def crash_outcome_def sample_os_def)
  from SaveCheckpoint_crash_atomic [OF prod.collapse [symmetric] p this(1) t this(2)]
  show ?thesis by (simp add: sample_os_def)
qed

text \<open>
  Read your writes: a load that follows \<open>SaveCheckpoint\<close>, with no input/output error after it, returns the
  saved checkpoint if the save returned nil, and what was stored before, or \<open>ErrCheckpointNotFound\<close>, if the
  save returned an error.
\<close>

theorem SaveCheckpoint_then_Load:
  assumes "SaveCheckpoint baseDir agentID state s = (r, s')" "no_faults s'" "checkpointPath baseDir agentID = Inr path"
  shows "fst (LoadCheckpoint baseDir agentID s') =
    (case r of Inr _ \<Rightarrow> Inr state
     | Inl _ \<Rightarrow> (case map_of (os_files s) path of None \<Rightarrow> Inl ErrCheckpointNotFound | Some f \<Rightarrow> Inr (fst f)))"
proof -
  have "stored_at (checkpointPath baseDir agentID) s = map_option fst (map_of (os_files s) path)"
    by (simp add: stored_at_def assms(3))
  with ckpt.load_live [OF assms(2), of baseDir agentID] ckpt.save_old_or_new [OF assms(1)] assms(3)
  show ?thesis by (cases r; cases "map_of (os_files s) path") (simp_all add: valid_path_def)
qed

theorem SaveCheckpoint_then_Load_witness:
  "fst (LoadCheckpoint ''ckpt'' ''a''
     (snd (SaveCheckpoint ''ckpt'' ''a'' [2, 3] (sample_os\<lparr>os_faults := [None, Some 1]\<rparr>)))) = Inr [1]"
proof -
  let ?r = "SaveCheckpoint ''ckpt'' ''a'' [2, 3] (sample_os\<lparr>os_faults := [None, Some 1]\<rparr>)"
  have p: "checkpointPath ''ckpt'' ''a'' = Inr ''ckpt/a.checkpoint''" by code_simp
  have f: "no_faults (snd ?r)" by code_simp
  have "fst ?r = Inl (WrapError ''failed to write checkpoint'' ErrIO)" by code_simp
  with SaveCheckpoint_then_Load [OF prod.collapse [symmetric] f p] show ?thesis
    by (simp add: sample_os_def)
qed

text \<open>
  An agent ID cannot lead out of the storage directory: when the cleaned base directory has an element and
  does not begin with a parent reference, every path \<open>checkpointPath\<close> accepts is the base
  followed by ordinary path elements, none of them empty, a dot or a parent reference.
\<close>

theorem checkpointPath_contained:
  assumes "checkpointPath baseDir agentID = Inr path" "clean_elems baseDir \<noteq> []" "hd (clean_elems baseDir) \<noteq> ''..''"
  shows "\<exists>rest. path = filepath_Clean baseDir @ slash # join_with slash rest \<and> rest \<noteq> [] \<and>
    (\<forall>e \<in> set rest. e \<noteq> '''' \<and> e \<noteq> ''.'' \<and> e \<noteq> ''..'' \<and> slash \<notin> set e)"
proof -
  have "has_prefix path (filepath_Clean baseDir @ [slash])" "\<exists>p. path = filepath_Clean p"
    using assms(1) by (auto simp: checkpointPath_def provider_path_def Let_def split: if_splits)
  with clean_below [of _ baseDir] assms(2,3) show ?thesis by (fastforce simp: normal_elem_def)
qed

theorem checkpointPath_contained_witness:
  "\<exists>rest. ''data/ckpt/x/b.checkpoint'' = filepath_Clean ''./data//ckpt'' @ slash # join_with slash rest \<and> rest \<noteq> []"
proof -
  have "checkpointPath ''./data//ckpt'' ''x/a/../b'' = Inr ''data/ckpt/x/b.checkpoint''"
    "clean_elems ''./data//ckpt'' \<noteq> []" "hd (clean_elems ''./data//ckpt'') \<noteq> ''..''"
    by code_simp+
  from checkpointPath_contained [OF this] show ?thesis by blast
qed

text \<open>
  The prefix test depends on how the base directory is spelled: with base \<open>.\<close> every agent ID is
  refused, because a cleaned path never starts with a dot element, and with base \<open>..\<close> an ID with a
  parent reference is accepted and leads outside the base.
\<close>

theorem checkpointPath_relative_bases:
  "(\<exists>e. checkpointPath ''.'' agentID = Inl e) \<and>
   checkpointPath ''..'' ''../x'' = Inr ''../../x.checkpoint''"
proof
  let ?p = "filepath_Join [''.'', agentID @ ''.checkpoint'']"
  have "\<not> has_prefix (filepath_Clean ?p) (filepath_Clean ''.'' @ [slash])"
  proof
    assume p: "has_prefix (filepath_Clean ?p) (filepath_Clean ''.'' @ [slash])"
    have "filepath_Clean ''.'' = ''.''" by code_simp
    with has_prefixD [OF p] obtain r where r: "filepath_Clean ?p = ''.'' @ slash # r"
      by auto
    then have "clean_elems ?p \<noteq> []" "join_with slash (clean_elems ?p) = ''.'' @ slash # r"
      by (auto simp: filepath_Clean_def [of ?p] split: if_splits)
    with split_join_elems [of ?p] have "''.'' \<in> set (clean_elems ?p)"
      by (simp add: split_on_append) (metis list.set_intros(1))
    with clean_shape_not_dot [OF clean_shape_elems] show False by blast
  qed
  then show "\<exists>e. checkpointPath ''.'' agentID = Inl e"
    by (simp add: checkpointPath_def provider_path_def Let_def)
  show "checkpointPath ''..'' ''../x'' = Inr ''../../x.checkpoint''" by code_simp
qed

text \<open>
  Opening a storage directory never loses a checkpoint: \<open>NewFSProvider\<close> removes temporary files
  left by an interrupted save, whatever fails meanwhile, and no checkpoint changes; without
  input/output errors none of the temporary files it found remains.
\<close>

theorem NewFSProvider_keeps_checkpoints:
  assumes "NewFSProvider baseDir s = (r, s')"
  shows "stored_at (checkpointPath b k) s' = stored_at (checkpointPath b k) s \<and>
    (no_faults s \<longrightarrow> (\<forall>p \<in> set (glob_suffix baseDir ''.tmp'' s). map_of (os_files s') p = None))"
proof -
  obtain rm sm where m: "os_MkdirAll baseDir s = (rm, sm)" by fastforce
  then have f: "os_files sm = os_files s"
    by (auto simp: os_MkdirAll_def split: prod.splits option.splits dest: keeps_next_fault)
  then have g: "glob_suffix baseDir ''.tmp'' sm = glob_suffix baseDir ''.tmp'' s" by (simp add: glob_suffix_def)
  have "stored_at (checkpointPath b k) (cleanStaleTempFiles baseDir sm) = stored_at (checkpointPath b k) sm"
    using checkpointPath_no_tmp [of b k _ baseDir sm]
      remove_all_effect [of "glob_suffix baseDir ''.tmp'' sm" sm, THEN conjunct1]
    by (cases "checkpointPath b k") (simp_all add: stored_at_def cleanStaleTempFiles_def keeps_def)
  moreover have "no_faults s \<Longrightarrow> rm = Inr () \<and> no_faults sm" using no_faults_os_call(5) m by blast
  moreover have "stored_at (checkpointPath b k) sm = stored_at (checkpointPath b k) s"
    by (cases "checkpointPath b k") (simp_all add: stored_at_def f)
  moreover have "no_faults sm \<Longrightarrow> p \<in> set (glob_suffix baseDir ''.tmp'' s) \<Longrightarrow>
      map_of (os_files (cleanStaleTempFiles baseDir sm)) p = None" for p
    using remove_all_effect [of "glob_suffix baseDir ''.tmp'' sm" sm] by (simp add: cleanStaleTempFiles_def g)
  ultimately show ?thesis
    using assms by (cases rm) (auto simp: NewFSProvider_def m)
qed

theorem NewFSProvider_keeps_checkpoints_witness:
  "stored_at (checkpointPath ''ckpt'' ''a'') (snd (NewFSProvider ''ckpt'' sample_os)) =
   stored_at (checkpointPath ''ckpt'' ''a'') sample_os"
  using NewFSProvider_keeps_checkpoints [OF prod.collapse [symmetric], of "''ckpt''" "''a''" "''ckpt''" sample_os]
  by blast

end
