(* ===== verification/Identity.thy ===== *)
theory Identity
  imports Crypto Storage
begin

text \<open>
  Agent identity (\<open>pkg/identity\<close>): the stored form of the key pair, the \<open>did:key\<close> name with its
  base58btc encoding, and loading an identity from a store or creating one.  Strings are byte
  sequences; a decoder that ranges over runes meets a non-ASCII rune only to reject it.
\<close>

record AgentIdentity =
  id_PublicKey :: bytes
  id_PrivateKey :: bytes

text \<open>\<open>ed25519.GenerateKey(rand.Reader)\<close> is the argument \<open>keygen\<close>: a key pair or an error.\<close>

definition identity_Generate :: "(bytes \<times> bytes) result \<Rightarrow> AgentIdentity result" where
  "identity_Generate keygen =
     bindR (wrap_result ''generate agent identity'' keygen)
       (\<lambda>(pub, priv). Inr \<lparr>id_PublicKey = pub, id_PrivateKey = priv\<rparr>)"

text \<open>\<open>priv.Public()\<close> always has type \<open>ed25519.PublicKey\<close>, so the failed assertion of the source is no branch here.\<close>

definition FromPrivateKey :: "crypto \<Rightarrow> bytes \<Rightarrow> AgentIdentity result" where
  "FromPrivateKey C priv =
     (if length priv \<noteq> PrivateKeySize then Inl (NewError ''invalid Ed25519 private key size'')
      else Inr \<lparr>id_PublicKey = ed_Public C priv, id_PrivateKey = priv\<rparr>)"

definition identity_MarshalBinary :: "AgentIdentity \<Rightarrow> bytes" where
  "identity_MarshalBinary i = put_u32 (len_u32 (id_PrivateKey i)) @ id_PrivateKey i"

definition identity_UnmarshalBinary :: "crypto \<Rightarrow> bytes \<Rightarrow> AgentIdentity result" where
  "identity_UnmarshalBinary C data =
     (if length data < 4 then Inl (NewError ''identity data too short'')
      else let keyLen = get_u32 (go_slice 0 4 data)
           in if unat keyLen \<noteq> PrivateKeySize
              then Inl (NewError (''unexpected private key length: '' @ dec_nat (unat keyLen)))
              else if length data < 4 + unat keyLen then Inl (NewError ''identity data truncated'')
              else FromPrivateKey C (go_slice 4 (4 + unat keyLen) data))"

section \<open>Base 58 and the decentralized identifier\<close>

definition base58Alphabet :: string where
  "base58Alphabet = ''123456789ABCDEFGHJKLMNPQRSTUVWXYZabcdefghijkmnopqrstuvwxyz''"

text \<open>\<open>big.Int\<close>: \<open>SetBytes\<close> reads big-endian, \<open>Bytes\<close> writes the shortest big-endian form; the digit
  loops produce the least significant digit first.\<close>

fun digits :: "nat \<Rightarrow> nat \<Rightarrow> nat list" where
  "digits b n = (if n = 0 \<or> b < 2 then [] else n mod b # digits b (n div b))"

declare digits.simps [simp del]

definition undigits :: "nat \<Rightarrow> nat list \<Rightarrow> nat" where
  "undigits b ds = foldr (\<lambda>d a. d + b * a) ds 0"

definition big_SetBytes :: "bytes \<Rightarrow> nat" where
  "big_SetBytes data = foldl (\<lambda>a b. a * 256 + unat b) 0 data"

definition big_Bytes :: "nat \<Rightarrow> bytes" where
  "big_Bytes n = rev (map of_nat (digits 256 n))"

definition base58Encode :: "bytes \<Rightarrow> string" where
  "base58Encode data =
     (let result = map (\<lambda>d. base58Alphabet ! d) (digits 58 (big_SetBytes data));
          result = result @ map (\<lambda>_. base58Alphabet ! 0) (takeWhile (\<lambda>b. b = 0) data)
      in rev result)"

fun find_char :: "char \<Rightarrow> string \<Rightarrow> nat option" where
  "find_char c [] = None"
| "find_char c (a # as) = (if a = c then Some 0 else map_option Suc (find_char c as))"

fun decode_loop :: "nat \<Rightarrow> string \<Rightarrow> nat result" where
  "decode_loop result [] = Inr result"
| "decode_loop result (c # s) =
     (case find_char c base58Alphabet of
        None \<Rightarrow> Inl (NewError (''invalid base58 character: '' @ [c]))
      | Some idx \<Rightarrow> decode_loop (result * 58 + idx) s)"

definition base58Decode :: "string \<Rightarrow> bytes result" where
  "base58Decode s =
     bindR (decode_loop 0 s) (\<lambda>result.
       Inr (replicate (length (takeWhile (\<lambda>c. c = base58Alphabet ! 0) s)) 0 @ big_Bytes result))"

abbreviation did_prefix :: string where "did_prefix \<equiv> ''did:key:z''"

definition DID :: "AgentIdentity \<Rightarrow> string" where
  "DID i = did_prefix @ base58Encode ([0xed, 0x01] @ id_PublicKey i)"

definition DIDShort :: "AgentIdentity \<Rightarrow> string" where
  "DIDShort i =
     (let did = DID i
      in if length did \<le> 24 then did else take 16 did @ ''...'' @ drop (length did - 4) did)"

text \<open>\<open>%02x\<close> of a byte.\<close>

definition hex_digit :: "nat \<Rightarrow> char" where
  "hex_digit n = ''0123456789abcdef'' ! n"

definition hex_byte :: "byte \<Rightarrow> string" where
  "hex_byte b = [hex_digit (unat b div 16), hex_digit (unat b mod 16)]"

definition ParseDID :: "string \<Rightarrow> bytes result" where
  "ParseDID did =
     (if length did \<le> length did_prefix then Inl (NewError ''invalid did:key: too short'')
      else if take (length did_prefix) did \<noteq> did_prefix
      then Inl (NewError ''invalid did:key: missing 'did:key:z' prefix'')
      else bindR (wrap_result ''invalid did:key: base58 decode'' (base58Decode (drop (length did_prefix) did))) (\<lambda>decoded.
        if length decoded < 2 then Inl (NewError ''invalid did:key: decoded too short'')
        else if decoded ! 0 \<noteq> 0xed \<or> decoded ! 1 \<noteq> 0x01
        then Inl (NewError (''invalid did:key: not an Ed25519 key (got multicodec 0x'' @
               hex_byte (decoded ! 0) @ hex_byte (decoded ! 1) @ '')''))
        else let pubKey = drop 2 decoded
             in if length pubKey \<noteq> 32
                then Inl (NewError (''invalid did:key: Ed25519 key must be 32 bytes, got '' @ dec_nat (length pubKey)))
                else Inr pubKey))"

section \<open>Loading or creating an identity\<close>

text \<open>The \<open>Store\<close> interface is the pair of functions \<open>load\<close> and \<open>save\<close>.\<close>

definition LoadOrGenerate ::
    "crypto \<Rightarrow> (bytes \<times> bytes) result \<Rightarrow> (string \<Rightarrow> 's \<Rightarrow> bytes result \<times> 's) \<Rightarrow>
     (string \<Rightarrow> bytes \<Rightarrow> 's \<Rightarrow> unit result \<times> 's) \<Rightarrow> string \<Rightarrow> 's \<Rightarrow> AgentIdentity result \<times> 's" where
  "LoadOrGenerate C keygen load save agentID s =
     (case load agentID s of (data, s) \<Rightarrow>
        case bindR data (identity_UnmarshalBinary C) of
          Inr i \<Rightarrow> (Inr i, s)
        | Inl _ \<Rightarrow>
            (case wrap_result ''generate identity'' (identity_Generate keygen) of
               Inl e \<Rightarrow> (Inl e, s)
             | Inr i \<Rightarrow>
                 (case save agentID (identity_MarshalBinary i) s of
                    (Inl e, s) \<Rightarrow> (Inl (WrapError ''save identity'' e), s)
                  | (Inr _, s) \<Rightarrow> (Inr i, s))))"

section \<open>Digits\<close>

lemma undigits_simps [simp]: "undigits b [] = 0" "undigits b (d # ds) = d + b * undigits b ds"
  by (simp_all add: undigits_def)

lemma undigits_digits: "2 \<le> b \<Longrightarrow> undigits b (digits b n) = n"
  by (induction b n rule: digits.induct) (subst digits.simps, auto simp: mod_mult_div_eq not_less)

lemma digits_undigits:
  "2 \<le> b \<Longrightarrow> \<forall>d \<in> set ds. d < b \<Longrightarrow> ds = [] \<or> last ds \<noteq> 0 \<Longrightarrow> digits b (undigits b ds) = ds"
proof (induction ds)
  case Nil
  then show ?case by (simp add: digits.simps)
next
  case (Cons d ds)
  have "digits b (undigits b ds) = ds" using Cons by (cases ds) auto
  moreover have "d + b * undigits b ds \<noteq> 0"
  proof (cases "ds = []")
    case False
    then have "undigits b ds \<noteq> 0" using \<open>digits b (undigits b ds) = ds\<close> by (metis digits.simps)
    then show ?thesis using Cons.prems(1) by simp
  qed (use Cons in simp)
  ultimately show ?case using Cons.prems by (subst digits.simps) simp
qed

lemma digits_less: "d \<in> set (digits b n) \<Longrightarrow> d < b"
  by (induction b n rule: digits.induct) (subst (asm) (2) digits.simps, auto split: if_splits)

lemma last_digits: "digits b n \<noteq> [] \<Longrightarrow> last (digits b n) \<noteq> 0"
proof (induction b n rule: digits.induct)
  case (1 b n)
  then have n: "\<not> (n = 0 \<or> b < 2)" by (metis digits.simps)
  show ?case
  proof (cases "digits b (n div b) = []")
    case True
    with n have "n div b = 0" by (auto simp: digits.simps [of b "n div b"] split: if_splits)
    with n True show ?thesis by (simp add: digits.simps [of b n] div_eq_0_iff)
  next
    case False
    with 1 n show ?thesis by (simp add: digits.simps [of b n])
  qed
qed

lemma foldl_undigits: "foldl (\<lambda>a d. a * b + d) a ds = undigits b (rev ds @ [a])"
  by (induction ds arbitrary: a) (simp_all add: undigits_def algebra_simps)

lemma undigits_zeros [simp]: "undigits b (ds @ replicate k 0) = undigits b ds"
  by (induction ds) (simp_all add: undigits_def, induction k, simp_all)

lemma big_SetBytes_undigits: "big_SetBytes data = undigits 256 (rev (map unat data))"
  using foldl_undigits [of 256 0 "map unat data"] undigits_zeros [of 256 "rev (map unat data)" 1]
  by (simp add: big_SetBytes_def foldl_map)

lemma takeWhile_zeros: "takeWhile (\<lambda>b. b = (0 :: byte)) data = replicate (length (takeWhile (\<lambda>b. b = 0) data)) 0"
  by (induction data) auto

lemma big_Bytes_SetBytes: "big_Bytes (big_SetBytes data) = dropWhile (\<lambda>b. b = 0) data"
proof -
  define k rest where "k = length (takeWhile (\<lambda>b. b = 0) data)" and "rest = dropWhile (\<lambda>b. b = 0) data"
  have d: "data = replicate k 0 @ rest" unfolding k_def rest_def
    by (metis takeWhile_dropWhile_id takeWhile_zeros)
  have "big_SetBytes data = undigits 256 (rev (map unat rest))"
    unfolding big_SetBytes_undigits by (subst d) simp
  moreover have "rest = [] \<or> hd rest \<noteq> 0"
    using hd_dropWhile [of "\<lambda>b. b = 0" data] by (auto simp: rest_def)
  then have "digits 256 (undigits 256 (rev (map unat rest))) = rev (map unat rest)"
    using unsigned_less [where ?'a = nat and ?'b = 8]
    by (intro digits_undigits) (auto simp: last_rev unat_eq_zero, cases rest, auto simp: unat_eq_zero)
  ultimately show ?thesis by (simp add: big_Bytes_def rest_def rev_map comp_def)
qed

section \<open>Base 58\<close>

lemma find_char_nth: "distinct xs \<Longrightarrow> i < length xs \<Longrightarrow> find_char (xs ! i) xs = Some i"
  by (induction xs arbitrary: i) (auto simp: nth_Cons split: nat.split)

lemma alphabet_facts: "distinct base58Alphabet" "length base58Alphabet = 58"
  unfolding base58Alphabet_def by simp_all

lemma decode_loop_digits:
  "\<forall>d \<in> set ds. d < 58 \<Longrightarrow>
    decode_loop a (map (\<lambda>d. base58Alphabet ! d) ds) = Inr (foldl (\<lambda>a d. a * 58 + d) a ds)"
  by (induction ds arbitrary: a) (simp_all add: find_char_nth alphabet_facts)

lemma base58Encode_eq:
  "base58Encode data = map (\<lambda>d. base58Alphabet ! d)
     (replicate (length (takeWhile (\<lambda>b. b = 0) data)) 0 @ rev (digits 58 (big_SetBytes data)))"
  by (simp add: base58Encode_def rev_map Let_def map_replicate_const)

lemma takeWhile_replicate_append:
  "takeWhile (\<lambda>c. c = a) (replicate k a @ xs) = replicate k a @ takeWhile (\<lambda>c. c = a) xs"
  by (induction k) auto

lemma base58_roundtrip: "base58Decode (base58Encode data) = Inr data"
proof -
  define k where "k = length (takeWhile (\<lambda>b. b = 0) data)"
  define ds where "ds = digits 58 (big_SetBytes data)"
  let ?one = "base58Alphabet ! 0"
  have lt: "\<forall>d \<in> set (replicate k 0 @ rev ds). d < 58"
    using digits_less [of _ 58] by (auto simp: ds_def)
  have "foldl (\<lambda>a d. a * 58 + d) 0 (replicate k 0 @ rev ds) = big_SetBytes data"
    using foldl_undigits [of 58 0 "replicate k 0 @ rev ds"] undigits_zeros [of 58 ds "k + 1"]
    by (simp add: replicate_add undigits_digits ds_def flip: replicate_append_same)
  then have loop: "decode_loop 0 (base58Encode data) = Inr (big_SetBytes data)"
    using decode_loop_digits [OF lt, of 0] by (simp only: base58Encode_eq k_def ds_def)
  have hd: "ds \<noteq> [] \<Longrightarrow> base58Alphabet ! hd (rev ds) \<noteq> ?one"
    using last_digits [of 58 "big_SetBytes data"] digits_less [of "last ds" 58 "big_SetBytes data"]
    by (simp add: nth_eq_iff_index_eq alphabet_facts hd_rev ds_def)
  have "takeWhile (\<lambda>c. c = ?one) (map (\<lambda>d. base58Alphabet ! d) (rev ds)) = []"
    using hd by (cases "rev ds") auto
  then have "takeWhile (\<lambda>c. c = ?one) (base58Encode data) = replicate k ?one"
    by (subst base58Encode_eq, fold k_def ds_def) (simp add: takeWhile_replicate_append)
  then show ?thesis
    by (simp add: base58Decode_def loop big_Bytes_SetBytes k_def flip: takeWhile_zeros)
qed

lemma base58Encode_not_Nil: "data \<noteq> [] \<Longrightarrow> base58Encode data \<noteq> []"
  using base58_roundtrip [of data] by (auto simp: base58Decode_def big_Bytes_def digits.simps)

section \<open>Stored identities\<close>

definition wf_identity :: "crypto \<Rightarrow> AgentIdentity \<Rightarrow> bool" where
  "wf_identity C i \<longleftrightarrow> length (id_PrivateKey i) = PrivateKeySize \<and> id_PublicKey i = ed_Public C (id_PrivateKey i)"

lemma identity_roundtrip: "wf_identity C i \<Longrightarrow> identity_UnmarshalBinary C (identity_MarshalBinary i) = Inr i"
  by (simp add: identity_UnmarshalBinary_def identity_MarshalBinary_def wf_identity_def FromPrivateKey_def
      slice_simps len_u32_def)

section \<open>Loading or creating, over any store that keeps the contract\<close>

context blob_store
begin

abbreviation load_or_generate :: "crypto \<Rightarrow> (bytes \<times> bytes) result \<Rightarrow> string \<Rightarrow> 's \<Rightarrow> AgentIdentity result \<times> 's" where
  "load_or_generate C keygen \<equiv> LoadOrGenerate C keygen load save"

text \<open>After a success, the same identity is what the store holds.\<close>

lemma load_or_generate_stored:
  assumes "load_or_generate C keygen k s = (Inr i, s')" "\<And>pub priv. keygen = Inr (pub, priv) \<Longrightarrow>
      length priv = PrivateKeySize \<and> pub = ed_Public C priv"
  shows "\<exists>data. stored k s' = Some data \<and> identity_UnmarshalBinary C data = Inr i"
proof -
  obtain data s1 where l: "load k s = (data, s1)" by fastforce
  show ?thesis
  proof (cases "bindR data (identity_UnmarshalBinary C)")
    case (Inr j)
    then obtain d where "data = Inr d" "identity_UnmarshalBinary C d = Inr j" by (auto simp: bindR_Inr_iff)
    moreover have "s' = s1" "i = j" using assms(1) by (simp_all add: LoadOrGenerate_def l Inr)
    ultimately show ?thesis using load_ok [of k s d s1] load_keeps [OF l] l by auto
  next
    case (Inl e)
    with assms(1) l obtain u where g: "identity_Generate keygen = Inr i"
      and sv: "save k (identity_MarshalBinary i) s1 = (Inr u, s')"
      by (auto simp: LoadOrGenerate_def wrap_result_def split: sum.splits prod.splits)
    from g assms(2) have "wf_identity C i"
      by (auto simp: identity_Generate_def bindR_Inr_iff wf_identity_def wrap_result_def split: sum.splits)
    with save_ok [OF sv] show ?thesis by (auto simp: identity_roundtrip)
  qed
qed

lemma load_or_generate_stable:
  assumes "load_or_generate C keygen k s = (Inr i, s')" "reliable s'" "\<And>pub priv. keygen = Inr (pub, priv) \<Longrightarrow>
      length priv = PrivateKeySize \<and> pub = ed_Public C priv"
  shows "fst (load_or_generate C keygen' k s') = Inr i"
proof -
  obtain data where d: "stored k s' = Some data" "identity_UnmarshalBinary C data = Inr i"
    using load_or_generate_stored [OF assms(1,3)] by blast
  then have "fst (load k s') = Inr data" using load_live [OF assms(2), of k] valid_stored [of k s'] by simp
  with d(2) show ?thesis by (cases "load k s'") (simp add: LoadOrGenerate_def)
qed

end

section \<open>Properties\<close>

text \<open>
  The decentralized identifier determines the public key: \<open>ParseDID\<close> of the identifier that \<open>DID\<close> builds
  returns exactly the 32 bytes of the key, leading zero bytes included.
\<close>

theorem ParseDID_DID:
  assumes "length (id_PublicKey i) = 32"
  shows "ParseDID (DID i) = Inr (id_PublicKey i)"
  using assms base58Encode_not_Nil [of "[0xed, 0x01] @ id_PublicKey i"]
  by (simp add: ParseDID_def DID_def base58_roundtrip [of "0xed # 0x01 # id_PublicKey i"])

theorem ParseDID_DID_witness:
  "ParseDID (DID \<lparr>id_PublicKey = replicate 32 0, id_PrivateKey = []\<rparr>) = Inr (replicate 32 0)"
  using ParseDID_DID [of "\<lparr>id_PublicKey = replicate 32 0, id_PrivateKey = []\<rparr>"] by simp

text \<open>
  An agent keeps its identity: once \<open>LoadOrGenerate\<close> has returned an identity over the filesystem
  store, a later call on the same agent returns the same identity, whatever key a fresh generation
  would have given, as long as reads do not fail.
\<close>

theorem LoadOrGenerate_stable:
  assumes "LoadOrGenerate C keygen (LoadIdentity b) (SaveIdentity b) agentID s = (Inr i, s')" "no_faults s'"
    "\<And>pub priv. keygen = Inr (pub, priv) \<Longrightarrow> length priv = PrivateKeySize \<and> pub = ed_Public C priv"
  shows "fst (LoadOrGenerate C keygen' (LoadIdentity b) (SaveIdentity b) agentID s') = Inr i"
  using idn.load_or_generate_stable [OF assms] .

theorem LoadOrGenerate_stable_witness:
  "fst (LoadOrGenerate sample_crypto (Inr ([], [])) (LoadIdentity ''b'') (SaveIdentity ''b'') ''a''
     (snd (LoadOrGenerate sample_crypto (Inr (ed_Public sample_crypto (replicate 64 5), replicate 64 5))
        (LoadIdentity ''b'') (SaveIdentity ''b'') ''a'' sample_os))) =
   Inr \<lparr>id_PublicKey = ed_Public sample_crypto (replicate 64 5), id_PrivateKey = replicate 64 5\<rparr>"
proof -
  let ?g = "LoadOrGenerate sample_crypto (Inr (ed_Public sample_crypto (replicate 64 5), replicate 64 5))
        (LoadIdentity ''b'') (SaveIdentity ''b'') ''a'' sample_os"
  have v: "valid_path (identityPath ''b'' ''a'')" and n: "no_faults sample_os"
    and st: "stored_at (identityPath ''b'' ''a'') sample_os = None"
    by code_simp+
  obtain q s1 where l: "LoadIdentity ''b'' ''a'' sample_os = (q, s1)" by fastforce
  from idn.load_live [OF n v] l st have "q = Inl ErrIdentityNotFound" by simp
  moreover have n1: "no_faults s1" using idn.reliable_load [OF n l] .
  moreover from idn.save_live [OF n1 v] obtain s2 where
    s: "SaveIdentity ''b'' ''a'' (identity_MarshalBinary
      \<lparr>id_PublicKey = ed_Public sample_crypto (replicate 64 5), id_PrivateKey = replicate 64 5\<rparr>) s1 = (Inr (), s2)" by blast
  moreover have "no_faults s2" using idn.reliable_save [OF n1 s] .
  ultimately have g: "?g = (Inr \<lparr>id_PublicKey = ed_Public sample_crypto (replicate 64 5),
        id_PrivateKey = replicate 64 5\<rparr>, s2)" and n2: "no_faults s2"
    by (simp_all add: LoadOrGenerate_def l identity_Generate_def)
  show ?thesis unfolding g snd_conv by (rule LoadOrGenerate_stable [OF g n2]) auto
qed

end
