(* ===== verification/Receipt.thy ===== *)
theory Receipt
  imports Crypto
begin

text \<open>
  \<open>src/pkg/receipt/receipt.go\<close>: payment receipts, their canonical sign data, signatures, and the
  binary formats of a receipt and of a receipt list.  \<open>wf_receipt\<close> is the size condition under
  which the 32-bit length prefixes are exact; every receipt an agent can hold in memory meets it.
\<close>

record Receipt =
  rc_AgentID :: string
  rc_NodeID :: string
  rc_EpochStart :: uint64
  rc_EpochEnd :: uint64
  rc_CostMicrocents :: int64
  rc_BudgetAfter :: int64
  rc_Timestamp :: int64
  rc_Signature :: bytes

section \<open>Operations\<close>

definition MarshalSignData :: "Receipt \<Rightarrow> bytes" where
  "MarshalSignData r =
     put_u32 (len_u32 (rc_AgentID r)) @ bytes_of_string (rc_AgentID r) @
     put_u32 (len_u32 (rc_NodeID r)) @ bytes_of_string (rc_NodeID r) @
     put_u64 (rc_EpochStart r) @ put_u64 (rc_EpochEnd r) @
     put_u64 (rc_CostMicrocents r) @ put_u64 (rc_BudgetAfter r) @ put_u64 (rc_Timestamp r)"

definition receipt_Sign :: "crypto \<Rightarrow> bytes \<Rightarrow> Receipt \<Rightarrow> Receipt result" where
  "receipt_Sign C key r =
     (if length key \<noteq> PrivateKeySize
      then Inl (NewError ''invalid Ed25519 private key size'')
      else Inr (r\<lparr>rc_Signature := ed_Sign C key (MarshalSignData r)\<rparr>))"

definition receipt_Verify :: "crypto \<Rightarrow> bytes \<Rightarrow> Receipt \<Rightarrow> bool" where
  "receipt_Verify C key r =
     (if length key \<noteq> PublicKeySize \<or> length (rc_Signature r) \<noteq> SignatureSize then False
      else ed_Verify C key (MarshalSignData r) (rc_Signature r))"

definition receipt_MarshalBinary :: "Receipt \<Rightarrow> bytes" where
  "receipt_MarshalBinary r =
     MarshalSignData r @ put_u32 (len_u32 (rc_Signature r)) @ rc_Signature r"

text \<open>The reader closures of \<open>UnmarshalBinary\<close>, with the cursor \<open>pos\<close> passed explicitly.\<close>

definition readUint32 :: "bytes \<Rightarrow> nat \<Rightarrow> (uint32 \<times> nat) result" where
  "readUint32 data pos =
     (if pos + 4 > length data then Inl (NewError ''receipt truncated at uint32'')
      else Inr (get_u32 (drop pos data), pos + 4))"

definition readUint64 :: "bytes \<Rightarrow> nat \<Rightarrow> (uint64 \<times> nat) result" where
  "readUint64 data pos =
     (if pos + 8 > length data then Inl (NewError ''receipt truncated at uint64'')
      else Inr (get_u64 (drop pos data), pos + 8))"

definition readString :: "bytes \<Rightarrow> nat \<Rightarrow> (string \<times> nat) result" where
  "readString data pos =
     bindR (readUint32 data pos) (\<lambda>(slen, pos).
       if pos + unat slen > length data
       then Inl (NewError (''receipt truncated at string (need '' @ dec_nat (unat slen) @
                           '', have '' @ dec_nat (length data - pos) @ '')''))
       else Inr (string_of_bytes (go_slice pos (pos + unat slen) data), pos + unat slen))"

definition receipt_UnmarshalBinary :: "bytes \<Rightarrow> Receipt result" where
  "receipt_UnmarshalBinary data =
     (if length data < 4 then Inl (NewError ''receipt too short'')
      else
        bindR (wrap_result ''agentID'' (readString data 0)) (\<lambda>(agentID, pos).
        bindR (wrap_result ''nodeID'' (readString data pos)) (\<lambda>(nodeID, pos).
        bindR (wrap_result ''epochStart'' (readUint64 data pos)) (\<lambda>(epochStart, pos).
        bindR (wrap_result ''epochEnd'' (readUint64 data pos)) (\<lambda>(epochEnd, pos).
        bindR (wrap_result ''costMicrocents'' (readUint64 data pos)) (\<lambda>(cost, pos).
        bindR (wrap_result ''budgetAfter'' (readUint64 data pos)) (\<lambda>(budgetAfter, pos).
        bindR (wrap_result ''timestamp'' (readUint64 data pos)) (\<lambda>(timestamp, pos).
        bindR (wrap_result ''sigLen'' (readUint32 data pos)) (\<lambda>(sigLen, pos).
          if pos + unat sigLen > length data
          then Inl (NewError (''receipt truncated at signature (need '' @ dec_nat (unat sigLen) @
                              '', have '' @ dec_nat (length data - pos) @ '')''))
          else Inr \<lparr>rc_AgentID = agentID, rc_NodeID = nodeID, rc_EpochStart = epochStart,
                    rc_EpochEnd = epochEnd, rc_CostMicrocents = cost,
                    rc_BudgetAfter = budgetAfter, rc_Timestamp = timestamp,
                    rc_Signature = go_slice pos (pos + unat sigLen) data\<rparr>)))))))))"

fun marshal_entries :: "Receipt list \<Rightarrow> bytes" where
  "marshal_entries [] = []"
| "marshal_entries (r # rs) =
     (let rb = receipt_MarshalBinary r in put_u32 (len_u32 rb) @ rb @ marshal_entries rs)"

definition MarshalReceipts :: "Receipt list \<Rightarrow> bytes" where
  "MarshalReceipts receipts = put_u32 (len_u32 receipts) @ marshal_entries receipts"

text \<open>The loop of \<open>UnmarshalReceipts\<close>: \<open>n\<close> entries are left, \<open>i\<close> is the loop counter.\<close>

primrec unmarshal_entries :: "bytes \<Rightarrow> nat \<Rightarrow> nat \<Rightarrow> nat \<Rightarrow> Receipt list result" where
  "unmarshal_entries data 0 i pos = Inr []"
| "unmarshal_entries data (Suc n) i pos =
     (if pos + 4 > length data
      then Inl (NewError (''receipts truncated at entry '' @ dec_nat i @ '' length''))
      else
        let rlen = unat (get_u32 (drop pos data)); pos = pos + 4 in
        if pos + rlen > length data
        then Inl (NewError (''receipts truncated at entry '' @ dec_nat i @ '' data''))
        else
          bindR (wrap_result (''receipt '' @ dec_nat i)
                   (receipt_UnmarshalBinary (go_slice pos (pos + rlen) data))) (\<lambda>r.
          bindR (unmarshal_entries data n (Suc i) (pos + rlen)) (\<lambda>rs. Inr (r # rs))))"

definition UnmarshalReceipts :: "bytes \<Rightarrow> Receipt list result" where
  "UnmarshalReceipts data =
     (if length data < 4 then Inl (NewError ''receipts data too short'')
      else unmarshal_entries data (unat (get_u32 (go_slice 0 4 data))) 0 4)"

section \<open>Sizes\<close>

definition wf_receipt :: "Receipt \<Rightarrow> bool" where
  "wf_receipt r \<longleftrightarrow>
     length (rc_AgentID r) + length (rc_NodeID r) + length (rc_Signature r) + 52 < 2 ^ 32"

lemma length_receipt_MarshalBinary [simp]:
  "length (receipt_MarshalBinary r) =
     length (rc_AgentID r) + length (rc_NodeID r) + length (rc_Signature r) + 52"
  by (simp add: receipt_MarshalBinary_def MarshalSignData_def)

lemma wf_receipt_lengths:
  assumes "wf_receipt r"
  shows "length (rc_AgentID r) < 2 ^ 32" "length (rc_NodeID r) < 2 ^ 32"
    "length (rc_Signature r) < 2 ^ 32" "length (receipt_MarshalBinary r) < 2 ^ 32"
  using assms by (simp_all add: wf_receipt_def)

section \<open>Readers on well-formed input\<close>

text \<open>Each reader consumes exactly what its writer produced, at any position of a buffer.\<close>

lemma readUint32_at:
  "drop pos data = put_u32 v @ rest \<Longrightarrow> readUint32 data pos = Inr (v, pos + 4)"
proof -
  assume d: "drop pos data = put_u32 v @ rest"
  then have "length data - pos = 4 + length rest" by (metis length_append length_drop length_put_u32)
  with d show ?thesis by (simp add: readUint32_def)
qed

lemma readUint64_at:
  "drop pos data = put_u64 v @ rest \<Longrightarrow> readUint64 data pos = Inr (v, pos + 8)"
proof -
  assume d: "drop pos data = put_u64 v @ rest"
  then have "length data - pos = 8 + length rest" by (metis length_append length_drop length_put_u64)
  with d show ?thesis by (simp add: readUint64_def)
qed

lemma readString_at:
  assumes d: "drop pos data = put_u32 (len_u32 s) @ bytes_of_string s @ rest"
    and len: "length s < 2 ^ 32"
  shows "readString data pos = Inr (s, pos + 4 + length s)"
proof -
  have d4: "drop (pos + 4) data = bytes_of_string s @ rest"
    using drop_at [OF d] by simp
  have "pos + 4 + length s \<le> length data"
    using length_at [of pos data "put_u32 (len_u32 s) @ bytes_of_string s" rest] d by simp
  moreover have "go_slice (pos + 4) (pos + 4 + length s) data = bytes_of_string s"
    using slice_at [OF d4] by simp
  ultimately show ?thesis
    using len by (simp add: readString_def readUint32_at [OF d])
qed

lemma receipt_UnmarshalBinary_MarshalBinary:
  assumes wf: "wf_receipt r"
  shows "receipt_UnmarshalBinary (receipt_MarshalBinary r @ rest) = Inr r"
proof -
  let ?data = "receipt_MarshalBinary r @ rest"
  let ?a = "length (rc_AgentID r)" and ?n = "length (rc_NodeID r)"
  note sizes = wf_receipt_lengths [OF wf]
  have e: "?data =
      put_u32 (len_u32 (rc_AgentID r)) @ bytes_of_string (rc_AgentID r) @
      put_u32 (len_u32 (rc_NodeID r)) @ bytes_of_string (rc_NodeID r) @
      put_u64 (rc_EpochStart r) @ put_u64 (rc_EpochEnd r) @
      put_u64 (rc_CostMicrocents r) @ put_u64 (rc_BudgetAfter r) @ put_u64 (rc_Timestamp r) @
      put_u32 (len_u32 (rc_Signature r)) @ rc_Signature r @ rest"
    by (simp add: receipt_MarshalBinary_def MarshalSignData_def)
  have s0: "readString ?data 0 = Inr (rc_AgentID r, 4 + ?a)"
    using readString_at [of 0 ?data] sizes(1) e by simp
  have s1: "readString ?data (4 + ?a) = Inr (rc_NodeID r, 4 + ?a + 4 + ?n)"
    by (rule readString_at) (use sizes in \<open>simp_all add: e\<close>)
  have s2: "readUint64 ?data (4 + ?a + 4 + ?n) = Inr (rc_EpochStart r, 4 + ?a + 4 + ?n + 8)"
    by (rule readUint64_at) (simp add: e)
  have s3: "readUint64 ?data (4 + ?a + 4 + ?n + 8) = Inr (rc_EpochEnd r, 4 + ?a + 4 + ?n + 8 + 8)"
    by (rule readUint64_at) (simp add: e)
  have s4: "readUint64 ?data (4 + ?a + 4 + ?n + 8 + 8)
      = Inr (rc_CostMicrocents r, 4 + ?a + 4 + ?n + 8 + 8 + 8)"
    by (rule readUint64_at) (simp add: e)
  have s5: "readUint64 ?data (4 + ?a + 4 + ?n + 8 + 8 + 8)
      = Inr (rc_BudgetAfter r, 4 + ?a + 4 + ?n + 8 + 8 + 8 + 8)"
    by (rule readUint64_at) (simp add: e)
  have s6: "readUint64 ?data (4 + ?a + 4 + ?n + 8 + 8 + 8 + 8)
      = Inr (rc_Timestamp r, 4 + ?a + 4 + ?n + 8 + 8 + 8 + 8 + 8)"
    by (rule readUint64_at) (simp add: e)
  have s7: "readUint32 ?data (4 + ?a + 4 + ?n + 8 + 8 + 8 + 8 + 8)
      = Inr (len_u32 (rc_Signature r), 4 + ?a + 4 + ?n + 8 + 8 + 8 + 8 + 8 + 4)"
    by (rule readUint32_at) (simp add: e)
  have sig: "go_slice (4 + ?a + 4 + ?n + 8 + 8 + 8 + 8 + 8 + 4)
      (4 + ?a + 4 + ?n + 8 + 8 + 8 + 8 + 8 + 4 + length (rc_Signature r)) ?data = rc_Signature r"
    by (rule slice_at) (simp add: e)
  show ?thesis
    unfolding receipt_UnmarshalBinary_def s0 s1 s2 s3 s4 s5 s6 s7 wrap_result_simps bindR_simps
      prod.case
    using sizes sig by simp
qed

section \<open>Properties\<close>

lemma unmarshal_entries_marshal_entries:
  assumes "\<forall>r \<in> set rs. wf_receipt r" and "drop pos data = marshal_entries rs @ rest"
    and "pos \<le> length data"
  shows "unmarshal_entries data (length rs) i pos = Inr rs"
  using assms
proof (induction rs arbitrary: i pos)
  case Nil
  then show ?case by simp
next
  case (Cons r rs)
  let ?rb = "receipt_MarshalBinary r"
  have d: "drop pos data = put_u32 (len_u32 ?rb) @ ?rb @ marshal_entries rs @ rest"
    using Cons.prems(2) by (simp add: Let_def)
  have d4: "drop (pos + 4) data = ?rb @ marshal_entries rs @ rest"
    using drop_at [OF d] by simp
  have dr: "drop (pos + 4 + length ?rb) data = marshal_entries rs @ rest"
    by (rule drop_at [OF d4])
  have wf: "wf_receipt r" and "length ?rb < 2 ^ 32"
    using Cons.prems(1) wf_receipt_lengths(4) by auto
  then have ulen: "unat (get_u32 (drop pos data)) = length ?rb"
    unfolding d by (metis get_put_u32 unat_len_u32)
  have end_in: "pos + 4 + length ?rb \<le> length data"
    using length_at [of pos data "put_u32 (len_u32 ?rb) @ ?rb"] d by simp
  have "receipt_UnmarshalBinary (go_slice (pos + 4) (pos + 4 + length ?rb) data) = Inr r"
    using slice_at [OF d4] receipt_UnmarshalBinary_MarshalBinary [OF wf, of "[]"] by simp
  moreover have "unmarshal_entries data (length rs) (Suc i) (pos + 4 + length ?rb) = Inr rs"
    using Cons.prems(1) dr end_in by (intro Cons.IH) auto
  ultimately show ?case
    using ulen end_in by (simp del: length_receipt_MarshalBinary)
qed

lemma UnmarshalReceipts_MarshalReceipts:
  assumes "\<forall>r \<in> set rs. wf_receipt r" and "length rs < 2 ^ 32"
  shows "UnmarshalReceipts (MarshalReceipts rs) = Inr rs"
proof -
  have "unmarshal_entries (MarshalReceipts rs) (length rs) 0 4 = Inr rs"
    by (rule unmarshal_entries_marshal_entries [where rest = "[]"])
      (simp_all add: assms MarshalReceipts_def)
  moreover have "unat (get_u32 (go_slice 0 4 (MarshalReceipts rs))) = length rs"
    using assms(2) by (simp add: MarshalReceipts_def slice_simps)
  ultimately show ?thesis
    by (simp add: UnmarshalReceipts_def) (simp add: MarshalReceipts_def)
qed

text \<open>The sign data is an unambiguous encoding of everything but the signature.\<close>

lemma MarshalSignData_inject:
  assumes "wf_receipt r" "wf_receipt q" "MarshalSignData r = MarshalSignData q"
  shows "r\<lparr>rc_Signature := []\<rparr> = q\<lparr>rc_Signature := []\<rparr>"
proof -
  have wf: "wf_receipt (r\<lparr>rc_Signature := []\<rparr>)" "wf_receipt (q\<lparr>rc_Signature := []\<rparr>)"
    using assms(1,2) by (simp_all add: wf_receipt_def)
  have "receipt_MarshalBinary (r\<lparr>rc_Signature := []\<rparr>) = receipt_MarshalBinary (q\<lparr>rc_Signature := []\<rparr>)"
    using assms(3) by (simp add: receipt_MarshalBinary_def MarshalSignData_def)
  then show ?thesis
    by (metis append_Nil2 receipt_UnmarshalBinary_MarshalBinary sum.inject(2) wf)
qed

lemma receipt_Sign_Verify:
  assumes "crypto_ok C" "receipt_Sign C key r = Inr r'"
  shows "receipt_Verify C (ed_Public C key) r' \<and> r'\<lparr>rc_Signature := rc_Signature r\<rparr> = r"
proof -
  have k: "length key = PrivateKeySize" and r': "r' = r\<lparr>rc_Signature := ed_Sign C key (MarshalSignData r)\<rparr>"
    using assms(2) by (auto simp: receipt_Sign_def split: if_splits)
  have "MarshalSignData r' = MarshalSignData r"
    by (simp add: r' MarshalSignData_def)
  with assms(1) k show ?thesis
    by (simp add: r' receipt_Verify_def length_ed_Public length_ed_Sign ed_Verify_Sign)
qed

end
