(* ===== verification/Budget.thy ===== *)
theory Budget
  imports Float64
begin

text \<open>
  \<open>src/pkg/budget/budget.go\<close>: currency amounts in microcents and their display.
\<close>

abbreviation MicrocentScale :: int64 where "MicrocentScale \<equiv> 1000000"

text \<open>
  \<open>FromFloat\<close>; Go leaves the conversion of an out-of-range float to the implementation, which is
  the value \<open>None\<close> here.
\<close>

definition FromFloat :: "rat \<Rightarrow> int64 option" where
  "FromFloat f =
     (let v = float64_trunc (float64_mul f (of_int (sint MicrocentScale))) in
      if MinInt64 \<le> v \<and> v \<le> MaxInt64 then Some (word_of_int v) else None)"

definition budget_Format :: "int64 \<Rightarrow> string" where
  "budget_Format microcents =
     (let sign = (if sint microcents < 0 then ''-'' else '''');
          m = (if sint microcents < 0 then - microcents else microcents);
          whole = div_i64 m MicrocentScale;
          frac = mod_i64 m MicrocentScale
      in sign @ dec_int (sint whole) @ ''.'' @ pad_int 6 (sint frac))"

section \<open>Reading a rendered number back\<close>

definition digit_val :: "char \<Rightarrow> nat" where
  "digit_val c = of_char c - 48"

definition read_dec :: "string \<Rightarrow> nat" where
  "read_dec s = foldl (\<lambda>n c. 10 * n + digit_val c) 0 s"

lemma of_char_char_of_small: "n < 256 \<Longrightarrow> of_char (char_of n :: char) = (n :: nat)"
  by (simp add: of_char_of)

lemma read_dec_dec_nat [simp]: "read_dec (dec_nat n) = n"
proof (induction n rule: dec_nat.induct)
  case (1 n)
  show ?case
  proof (cases "n < 10")
    case True
    then show ?thesis
      by (subst dec_nat.simps) (simp add: read_dec_def digit_val_def of_char_char_of_small)
  next
    case False
    then show ?thesis
      using 1 by (subst dec_nat.simps)
        (simp add: read_dec_def digit_val_def of_char_char_of_small)
  qed
qed

lemma dec_nat_inject [simp]: "dec_nat m = dec_nat n \<longleftrightarrow> m = n"
  by (metis read_dec_dec_nat)

lemma dec_nat_digits: "c \<in> set (dec_nat n) \<Longrightarrow> 48 \<le> (of_char c :: nat) \<and> (of_char c :: nat) \<le> 57"
proof (induction n rule: dec_nat.induct)
  case (1 n)
  then show ?case
    by (subst (asm) (2) dec_nat.simps) (auto simp: of_char_char_of_small split: if_splits)
qed

lemma length_dec_nat_le: "n < 10 ^ k \<Longrightarrow> 0 < k \<Longrightarrow> length (dec_nat n) \<le> k"
proof (induction n arbitrary: k rule: dec_nat.induct)
  case (1 n)
  show ?case
  proof (cases "n < 10")
    case True
    with 1 show ?thesis by (subst dec_nat.simps) simp
  next
    case False
    then obtain j where k: "k = Suc j" "0 < j"
      using "1.prems" by (cases k; cases "k - 1") auto
    with "1.prems" have "n div 10 < 10 ^ j" by auto
    with "1.IH" False k have "length (dec_nat (n div 10)) \<le> j" by simp
    with False k show ?thesis by (subst dec_nat.simps) simp
  qed
qed

lemma read_dec_zeros: "read_dec (replicate k (CHR ''0'') @ s) = read_dec s"
  by (induction k) (simp_all add: read_dec_def digit_val_def)

section \<open>Properties\<close>

lemma budget_Format_eq:
  assumes "sint b \<noteq> MinInt64"
  shows "budget_Format b =
    (if sint b < 0 then ''-'' else '''') @ dec_nat (nat \<bar>sint b\<bar> div 1000000) @ ''.'' @
    pad_int 6 (int (nat \<bar>sint b\<bar> mod 1000000))"
proof -
  let ?m = "if sint b < 0 then - b else b"
  have m: "sint ?m = \<bar>sint b\<bar>"
    using sint_minus_i64 [OF assms] by simp
  have b: "\<bar>sint b\<bar> \<le> MaxInt64"
    using sint64_bounds [of b] assms by linarith
  have "sint (div_i64 ?m MicrocentScale) = \<bar>sint b\<bar> div 1000000"
    unfolding div_i64_def m using b
    by (simp add: sdiv_nonneg sint64_of_int)
  moreover have "sint (mod_i64 ?m MicrocentScale) = \<bar>sint b\<bar> mod 1000000"
    unfolding mod_i64_def m using b
    by (simp add: smod_nonneg sint64_of_int)
  ultimately show ?thesis
    by (simp add: budget_Format_def Let_def dec_int_def nat_div_distrib zmod_int)
qed

lemma pad6_shape:
  assumes "n < 1000000"
  shows "read_dec (pad_int 6 (int n)) = n \<and> length (pad_int 6 (int n)) = 6"
  using length_dec_nat_le [of n 6] assms by (simp add: pad_int_def read_dec_zeros Let_def)

lemma append_sep_inject:
  assumes "c \<notin> set xs" "c \<notin> set us" "xs @ c # ys = us @ c # vs"
  shows "xs = us \<and> ys = vs"
  using assms by (induction xs arbitrary: us) (auto simp: Cons_eq_append_conv)

text \<open>
  Budget display is exact and unambiguous: two amounts (other than the most negative one) with the
  same rendering are the same amount, so no budget is displayed as another.
\<close>

theorem budget_Format_injective:
  assumes "sint a \<noteq> MinInt64" "sint b \<noteq> MinInt64" "budget_Format a = budget_Format b"
  shows "a = b"
proof -
  let ?w = "\<lambda>x :: int64. nat \<bar>sint x\<bar> div 1000000" and ?f = "\<lambda>x :: int64. nat \<bar>sint x\<bar> mod 1000000"
  let ?s = "\<lambda>x :: int64. (if sint x < 0 then ''-'' else '''') @ dec_nat (?w x)"
  have no_dot: "CHR ''.'' \<notin> set (?s x)" and no_minus: "CHR ''-'' \<notin> set (dec_nat n)" for x n
    using dec_nat_digits [of "CHR ''.''"] dec_nat_digits [of "CHR ''-''"] by auto
  have "?s a @ CHR ''.'' # pad_int 6 (int (?f a)) = ?s b @ CHR ''.'' # pad_int 6 (int (?f b))"
    using assms(3) by (simp add: budget_Format_eq assms(1,2))
  from append_sep_inject [OF no_dot no_dot this]
  have s: "?s a = ?s b" and p: "pad_int 6 (int (?f a)) = pad_int 6 (int (?f b))"
    by (rule conjunct1, rule conjunct2)
  have f: "?f a = ?f b"
  proof -
    have "read_dec (pad_int 6 (int (?f x))) = ?f x" for x
      by (rule conjunct1 [OF pad6_shape]) simp
    from this [of a] this [of b] show ?thesis unfolding p by (rule trans [OF sym])
  qed
  have minus: "CHR ''-'' \<in> set (?s x) \<longleftrightarrow> sint x < 0" for x
    using no_minus by simp
  have sg: "sint a < 0 \<longleftrightarrow> sint b < 0"
    using minus [of a] minus [of b] unfolding s by blast
  have w: "?w a = ?w b"
    using s sg by (cases "sint b < 0") simp_all
  have "nat \<bar>sint a\<bar> = nat \<bar>sint b\<bar>"
    using w f by (metis div_mult_mod_eq)
  with sg have "sint a = sint b" by linarith
  then show ?thesis by (rule signed_word_eqI)
qed

theorem budget_Format_injective_witness:
  "sint (1500000 :: int64) \<noteq> MinInt64 \<and> budget_Format 1500000 = ''1.500000'' \<and>
   budget_Format 1500000 \<noteq> budget_Format 1500001"
proof -
  have "budget_Format 1500000 = ''1.500000''"
    by (simp add: budget_Format_eq pad_int_def dec_nat.simps char_of_def bit_0 Let_def)
  moreover have "budget_Format 1500000 \<noteq> budget_Format 1500001"
    using budget_Format_injective [of 1500000 1500001] by auto
  ultimately show ?thesis by simp
qed

text \<open>
  The most negative amount is displayed wrongly: negating it overflows, so the rendering has two
  signs and a signed fraction.
\<close>

theorem budget_Format_min_int64:
  "budget_Format (word_of_int MinInt64) = ''--9223372036854.-775808''"
proof -
  have m: "sint (word_of_int MinInt64 :: int64) = MinInt64"
    by (rule sint64_of_int) simp_all
  have n: "- (word_of_int MinInt64 :: int64) = word_of_int MinInt64" by simp
  have w: "sint (div_i64 (word_of_int MinInt64) MicrocentScale) = - 9223372036854"
    unfolding div_i64_def m by (simp add: signed_divide_int_def)
  have f: "sint (mod_i64 (word_of_int MinInt64) MicrocentScale) = - 775808"
    unfolding mod_i64_def m by (simp add: signed_modulo_int_def signed_divide_int_def)
  show ?thesis
    unfolding budget_Format_def Let_def m n if_P [OF neg_numeral_less_zero] w f
    by (simp add: dec_int_def pad_int_def dec_nat.simps char_of_def bit_0 Let_def)
qed

end
