(* ===== verification/Authority.thy ===== *)
theory Authority
  imports Float64
begin

text \<open>
  \<open>src/internal/authority/{authority,lease}.go\<close>: authority epochs, the authority state machine and
  time-bounded leases.  Instants are integers (nanoseconds since the Unix epoch), \<open>time_zero\<close> is
  Go's zero \<open>time.Time\<close>.  A method that reads the clock takes the reading as an argument, one
  argument per reading.
\<close>

section \<open>Epochs\<close>

datatype Epoch = Epoch (MajorVersion: uint64) (LeaseGeneration: uint64)

definition Supersedes :: "Epoch \<Rightarrow> Epoch \<Rightarrow> bool" where
  "Supersedes e other =
     (if MajorVersion e \<noteq> MajorVersion other then MajorVersion e > MajorVersion other
      else LeaseGeneration e > LeaseGeneration other)"

definition Epoch_Equal :: "Epoch \<Rightarrow> Epoch \<Rightarrow> bool" where
  "Epoch_Equal e other \<longleftrightarrow>
     MajorVersion e = MajorVersion other \<and> LeaseGeneration e = LeaseGeneration other"

definition Epoch_String :: "Epoch \<Rightarrow> string" where
  "Epoch_String e =
     ''('' @ dec_nat (unat (MajorVersion e)) @ '','' @ dec_nat (unat (LeaseGeneration e)) @ '')''"

instantiation Epoch :: linorder
begin

definition less_Epoch :: "Epoch \<Rightarrow> Epoch \<Rightarrow> bool" where
  "less_Epoch a b \<longleftrightarrow> Supersedes b a"

definition less_eq_Epoch :: "Epoch \<Rightarrow> Epoch \<Rightarrow> bool" where
  "less_eq_Epoch a b \<longleftrightarrow> a = b \<or> Supersedes b a"

instance
proof
  fix x y z :: Epoch
  show "(x < y) = (x \<le> y \<and> \<not> y \<le> x)"
    by (auto simp: less_Epoch_def less_eq_Epoch_def Supersedes_def split: if_splits)
  show "x \<le> x"
    by (simp add: less_eq_Epoch_def)
  show "x \<le> y \<Longrightarrow> y \<le> z \<Longrightarrow> x \<le> z"
    by (auto simp: less_eq_Epoch_def Supersedes_def split: if_splits)
  show "x \<le> y \<Longrightarrow> y \<le> x \<Longrightarrow> x = y"
    by (auto simp: less_eq_Epoch_def Supersedes_def split: if_splits)
  show "x \<le> y \<or> y \<le> x"
    by (cases x; cases y) (auto simp: less_eq_Epoch_def Supersedes_def)
qed

end

section \<open>The authority state\<close>

datatype AuthState =
    StateActiveOwner
  | StateHandoffInitiated
  | StateHandoffPending
  | StateRetired
  | StateRecoveryRequired

fun State_String :: "AuthState \<Rightarrow> string" where
  "State_String StateActiveOwner = ''ACTIVE_OWNER''"
| "State_String StateHandoffInitiated = ''HANDOFF_INITIATED''"
| "State_String StateHandoffPending = ''HANDOFF_PENDING''"
| "State_String StateRetired = ''RETIRED''"
| "State_String StateRecoveryRequired = ''RECOVERY_REQUIRED''"

definition CanTick :: "AuthState \<Rightarrow> bool" where
  "CanTick s \<longleftrightarrow> s = StateActiveOwner"

section \<open>Leases\<close>

type_synonym instant = int

definition time_zero :: instant where
  "time_zero = - 62135596800 * 1000000000"

abbreviation Second :: int64 where "Second \<equiv> 1000000000"

definition time_Add :: "instant \<Rightarrow> int64 \<Rightarrow> instant" where
  "time_Add t d = t + sint d"

text \<open>\<open>Time.Sub\<close> saturates at the bounds of \<open>Duration\<close>.\<close>

definition time_Sub :: "instant \<Rightarrow> instant \<Rightarrow> int64" where
  "time_Sub a b = word_of_int (max MinInt64 (min MaxInt64 (a - b)))"

record LeaseConfig =
  lc_Duration :: int64
  lc_RenewalWindow :: rat
  lc_GracePeriod :: int64

definition DefaultLeaseConfig :: LeaseConfig where
  "DefaultLeaseConfig =
     \<lparr>lc_Duration = 60 * Second, lc_RenewalWindow = 1 / 2, lc_GracePeriod = 10 * Second\<rparr>"

definition LeaseConfig_Validate :: "LeaseConfig \<Rightarrow> unit result" where
  "LeaseConfig_Validate c =
     (if sint (lc_Duration c) \<le> 0 then Inl (NewError ''lease duration must be positive'')
      else if lc_RenewalWindow c \<le> 0 \<or> lc_RenewalWindow c \<ge> 1
      then Inl (NewError ''renewal window must be in (0, 1)'')
      else if sint (lc_GracePeriod c) < 0 then Inl (NewError ''grace period must be non-negative'')
      else Inr ())"

record Lease =
  ls_Epoch :: Epoch
  ls_Expiry :: instant
  ls_State :: AuthState
  ls_config :: LeaseConfig

definition NewLease :: "LeaseConfig \<Rightarrow> instant \<Rightarrow> Lease" where
  "NewLease cfg now =
     \<lparr>ls_Epoch = Epoch 0 0, ls_Expiry = time_Add now (lc_Duration cfg),
      ls_State = StateActiveOwner, ls_config = cfg\<rparr>"

definition NewLeaseFromMigration :: "uint64 \<Rightarrow> LeaseConfig \<Rightarrow> instant \<Rightarrow> Lease" where
  "NewLeaseFromMigration sourceMajor cfg now =
     \<lparr>ls_Epoch = Epoch (sourceMajor + 1) 0, ls_Expiry = time_Add now (lc_Duration cfg),
      ls_State = StateActiveOwner, ls_config = cfg\<rparr>"

definition NewLeaseFromCheckpoint :: "Epoch \<Rightarrow> LeaseConfig \<Rightarrow> instant \<Rightarrow> Lease" where
  "NewLeaseFromCheckpoint epoch cfg now =
     \<lparr>ls_Epoch = epoch, ls_Expiry = time_Add now (lc_Duration cfg),
      ls_State = StateActiveOwner, ls_config = cfg\<rparr>"

definition IsExpired :: "instant \<Rightarrow> Lease \<Rightarrow> bool" where
  "IsExpired now l \<longleftrightarrow> ls_Expiry l \<noteq> time_zero \<and> now > ls_Expiry l"

definition IsExpiredWithGrace :: "instant \<Rightarrow> Lease \<Rightarrow> bool" where
  "IsExpiredWithGrace now l \<longleftrightarrow>
     ls_Expiry l \<noteq> time_zero \<and> now > time_Add (ls_Expiry l) (lc_GracePeriod (ls_config l))"

definition NeedsRenewal :: "instant \<Rightarrow> Lease \<Rightarrow> bool" where
  "NeedsRenewal now l =
     (if ls_Expiry l = time_zero then False
      else
        let remaining = time_Sub (ls_Expiry l) now;
            threshold = float64_trunc (float64_mul
              (float64_round (of_int (sint (lc_Duration (ls_config l)))))
              (lc_RenewalWindow (ls_config l)))
        in sint remaining \<le> threshold)"

type_synonym lease_result = "go_error option \<times> Lease"

definition Renew :: "instant \<Rightarrow> instant \<Rightarrow> Lease \<Rightarrow> lease_result" where
  "Renew now1 now2 l =
     (if ls_State l \<noteq> StateActiveOwner
      then (Some (NewError (''cannot renew lease in state '' @ State_String (ls_State l))), l)
      else if IsExpiredWithGrace now1 l
      then (Some (NewError ''cannot renew: lease expired beyond grace period''), l)
      else (None, l\<lparr>ls_Epoch := Epoch (MajorVersion (ls_Epoch l)) (LeaseGeneration (ls_Epoch l) + 1),
                    ls_Expiry := time_Add now2 (lc_Duration (ls_config l))\<rparr>))"

definition ValidateForTick :: "instant \<Rightarrow> Lease \<Rightarrow> lease_result" where
  "ValidateForTick now l =
     (if ls_State l \<noteq> StateActiveOwner
      then (Some (NewError (''tick forbidden: authority state is '' @ State_String (ls_State l))), l)
      else if IsExpiredWithGrace now l
      then (Some (NewError ''tick forbidden: lease expired, entered RECOVERY_REQUIRED''),
            l\<lparr>ls_State := StateRecoveryRequired\<rparr>)
      else (None, l))"

definition TransitionToHandoff :: "Lease \<Rightarrow> lease_result" where
  "TransitionToHandoff l =
     (if ls_State l \<noteq> StateActiveOwner
      then (Some (NewError (''cannot initiate handoff from state '' @ State_String (ls_State l))), l)
      else (None, l\<lparr>ls_State := StateHandoffInitiated\<rparr>))"

definition TransitionToRetired :: "Lease \<Rightarrow> lease_result" where
  "TransitionToRetired l =
     (if ls_State l \<noteq> StateHandoffInitiated \<and> ls_State l \<noteq> StateHandoffPending
      then (Some (NewError (''cannot retire from state '' @ State_String (ls_State l))), l)
      else (None, l\<lparr>ls_State := StateRetired\<rparr>))"

definition RevertHandoff :: "Lease \<Rightarrow> lease_result" where
  "RevertHandoff l =
     (if ls_State l \<noteq> StateHandoffInitiated
      then (Some (NewError (''cannot revert handoff from state '' @ State_String (ls_State l))), l)
      else (None, l\<lparr>ls_State := StateActiveOwner\<rparr>))"

definition Recover :: "instant \<Rightarrow> Lease \<Rightarrow> lease_result" where
  "Recover now l =
     (if ls_State l \<noteq> StateRecoveryRequired
      then (Some (NewError (''cannot recover from state '' @ State_String (ls_State l))), l)
      else (None, l\<lparr>ls_Epoch := Epoch (MajorVersion (ls_Epoch l) + 1) 0,
                    ls_Expiry := time_Add now (lc_Duration (ls_config l)),
                    ls_State := StateActiveOwner\<rparr>))"

definition GetMajorVersion :: "Lease \<Rightarrow> uint64" where
  "GetMajorVersion l = MajorVersion (ls_Epoch l)"

definition GetLeaseGeneration :: "Lease \<Rightarrow> uint64" where
  "GetLeaseGeneration l = LeaseGeneration (ls_Epoch l)"

definition ExpiryUnixNano :: "Lease \<Rightarrow> int64" where
  "ExpiryUnixNano l = word_of_int (ls_Expiry l)"

lemmas lease_op_defs =
  Renew_def ValidateForTick_def TransitionToHandoff_def TransitionToRetired_def RevertHandoff_def
  Recover_def

section \<open>The lease as a state machine\<close>

text \<open>
  One rule per method call that succeeds, and one for the failing validation that gives authority
  up.  \<open>ambiguous\<close> is the assignment of \<open>RECOVERY_REQUIRED\<close> by the migration service when a
  transfer was sent and no confirmation arrived.
\<close>

inductive lease_step :: "Lease \<Rightarrow> Lease \<Rightarrow> bool" where
  renew: "Renew t1 t2 l = (None, l') \<Longrightarrow> lease_step l l'"
| validate: "ValidateForTick t l = (r, l') \<Longrightarrow> lease_step l l'"
| handoff: "TransitionToHandoff l = (None, l') \<Longrightarrow> lease_step l l'"
| retire: "TransitionToRetired l = (None, l') \<Longrightarrow> lease_step l l'"
| revert: "RevertHandoff l = (None, l') \<Longrightarrow> lease_step l l'"
| recover: "Recover t l = (None, l') \<Longrightarrow> lease_step l l'"
| ambiguous: "ls_State l = StateHandoffInitiated \<Longrightarrow>
    lease_step l (l\<lparr>ls_State := StateRecoveryRequired\<rparr>)"

inductive lease_run :: "nat \<Rightarrow> Lease \<Rightarrow> Lease \<Rightarrow> bool" where
  start: "lease_run 0 l l"
| step: "lease_run n l l' \<Longrightarrow> lease_step l' l'' \<Longrightarrow> lease_run (Suc n) l l''"

text \<open>The transitions the state machine document allows.\<close>

fun state_edge :: "AuthState \<Rightarrow> AuthState \<Rightarrow> bool" where
  "state_edge StateActiveOwner s = (s \<in> {StateActiveOwner, StateHandoffInitiated, StateRecoveryRequired})"
| "state_edge StateHandoffInitiated s =
     (s \<in> {StateHandoffInitiated, StateActiveOwner, StateRetired, StateRecoveryRequired})"
| "state_edge StateHandoffPending s = (s \<in> {StateHandoffPending, StateRetired})"
| "state_edge StateRetired s = (s = StateRetired)"
| "state_edge StateRecoveryRequired s = (s \<in> {StateRecoveryRequired, StateActiveOwner})"

lemma state_edge_refl [simp]: "state_edge s s"
  by (cases s) simp_all

lemma lease_step_edge: "lease_step l l' \<Longrightarrow> state_edge (ls_State l) (ls_State l')"
  by (induction rule: lease_step.induct) (auto simp: lease_op_defs split: if_splits)

text \<open>How one step moves the epoch: not at all, one generation up, or one major version up.\<close>

lemma lease_step_epoch:
  "lease_step l l' \<Longrightarrow>
     ls_Epoch l' = ls_Epoch l \<or>
     ls_Epoch l' = Epoch (MajorVersion (ls_Epoch l)) (LeaseGeneration (ls_Epoch l) + 1) \<or>
     ls_Epoch l' = Epoch (MajorVersion (ls_Epoch l) + 1) 0 \<and> ls_State l = StateRecoveryRequired"
  by (induction rule: lease_step.induct) (auto simp: lease_op_defs split: if_splits)

lemma lease_run_retired:
  "lease_run n l l' \<Longrightarrow> ls_State l = StateRetired \<Longrightarrow> ls_State l' = StateRetired \<and> ls_Epoch l' = ls_Epoch l"
proof (induction rule: lease_run.induct)
  case (step n l l' l'')
  then have r: "ls_State l' = StateRetired" by simp
  with lease_step_edge [OF step.hyps(2)] have "ls_State l'' = StateRetired" by simp
  moreover have "ls_Epoch l'' = ls_Epoch l'"
    using step.hyps(2) r by (cases rule: lease_step.cases) (auto simp: lease_op_defs split: if_splits)
  ultimately show ?case using step by simp
qed simp

lemma unat_plus1: "unat (w :: uint64) + 1 < 2 ^ 64 \<Longrightarrow> unat (w + 1) = unat w + 1"
  by (simp add: unat_word_ariths)

lemma Epoch_le_iff:
  "e \<le> f \<longleftrightarrow> unat (MajorVersion e) < unat (MajorVersion f) \<or>
     MajorVersion e = MajorVersion f \<and> unat (LeaseGeneration e) \<le> unat (LeaseGeneration f)"
  by (cases e; cases f)
    (auto simp: less_eq_Epoch_def Supersedes_def word_less_nat_alt word_unat_eq_iff)

lemma lease_run_epoch_bound:
  "lease_run n l l' \<Longrightarrow>
     unat (MajorVersion (ls_Epoch l)) + n < 2 ^ 64 \<Longrightarrow>
     unat (LeaseGeneration (ls_Epoch l)) + n < 2 ^ 64 \<Longrightarrow>
     ls_Epoch l \<le> ls_Epoch l' \<and>
     unat (MajorVersion (ls_Epoch l')) \<le> unat (MajorVersion (ls_Epoch l)) + n \<and>
     unat (LeaseGeneration (ls_Epoch l')) \<le> unat (LeaseGeneration (ls_Epoch l)) + n"
proof (induction rule: lease_run.induct)
  case (start l)
  then show ?case by simp
next
  case (step n l l' l'')
  then have IH: "ls_Epoch l \<le> ls_Epoch l'"
    "unat (MajorVersion (ls_Epoch l')) \<le> unat (MajorVersion (ls_Epoch l)) + n"
    "unat (LeaseGeneration (ls_Epoch l')) \<le> unat (LeaseGeneration (ls_Epoch l)) + n" by auto
  have mv: "unat (MajorVersion (ls_Epoch l') + 1) = unat (MajorVersion (ls_Epoch l')) + 1"
    and lg: "unat (LeaseGeneration (ls_Epoch l') + 1) = unat (LeaseGeneration (ls_Epoch l')) + 1"
    by (rule unat_plus1, use step.prems IH(2,3) in linarith)+
  have "ls_Epoch l' \<le> ls_Epoch l'' \<and>
      unat (MajorVersion (ls_Epoch l'')) \<le> unat (MajorVersion (ls_Epoch l')) + 1 \<and>
      unat (LeaseGeneration (ls_Epoch l'')) \<le> unat (LeaseGeneration (ls_Epoch l')) + 1"
    using lease_step_epoch [OF step.hyps(2)] mv lg by (auto simp: Epoch_le_iff)
  with IH show ?case by auto
qed

section \<open>Properties\<close>

text \<open>
  Epochs fence: along any run of \<open>n\<close> lease operations (renewals, validations, handoffs, retirement,
  reverts, recoveries, the ambiguous-transfer transition) the epoch never decreases in the order
  that \<open>Supersedes\<close> defines, as long as the 64-bit counters are \<open>n\<close> below their wrap-around.
\<close>

theorem lease_run_epoch_monotone:
  assumes "lease_run n l l'"
    and "unat (MajorVersion (ls_Epoch l)) + n < 2 ^ 64"
    and "unat (LeaseGeneration (ls_Epoch l)) + n < 2 ^ 64"
  shows "ls_Epoch l' = ls_Epoch l \<or> Supersedes (ls_Epoch l') (ls_Epoch l)"
  using lease_run_epoch_bound [OF assms] by (auto simp: less_eq_Epoch_def)

definition sample_lease :: Lease where
  "sample_lease = NewLease DefaultLeaseConfig 0"

lemma sample_lease_simps [simp]:
  "ls_State sample_lease = StateActiveOwner" "ls_Epoch sample_lease = Epoch 0 0"
  "ls_config sample_lease = DefaultLeaseConfig" "ls_Expiry sample_lease = 60000000000"
  by (simp_all add: sample_lease_def NewLease_def DefaultLeaseConfig_def time_Add_def)

lemma sample_lease_renew:
  "Renew 0 0 sample_lease = (None, sample_lease\<lparr>ls_Epoch := Epoch 0 1, ls_Expiry := 60000000000\<rparr>)"
  by (simp add: Renew_def IsExpiredWithGrace_def DefaultLeaseConfig_def time_Add_def)

theorem lease_run_epoch_monotone_witness:
  "Supersedes (ls_Epoch (snd (Renew 0 0 sample_lease))) (ls_Epoch sample_lease)"
proof -
  let ?l = "sample_lease\<lparr>ls_Epoch := Epoch 0 1, ls_Expiry := 60000000000\<rparr>"
  have "lease_run (Suc 0) sample_lease ?l"
    by (rule lease_run.step [OF lease_run.start]) (rule lease_step.renew [OF sample_lease_renew])
  from lease_run_epoch_monotone [OF this] show ?thesis
    by (simp add: sample_lease_renew)
qed

text \<open>
  Retirement is final: once a source lease is RETIRED after a confirmed migration, no sequence of
  lease operations makes it tick again or changes its epoch.
\<close>

theorem retired_lease_never_ticks:
  assumes "lease_run n l l'" and "ls_State l = StateRetired"
  shows "ls_Epoch l' = ls_Epoch l \<and> \<not> CanTick (ls_State l') \<and>
    ValidateForTick now l' = (Some (NewError ''tick forbidden: authority state is RETIRED''), l')"
  using lease_run_retired [OF assms] by (simp add: CanTick_def ValidateForTick_def)

theorem retired_lease_never_ticks_witness:
  "\<not> CanTick (ls_State (sample_lease\<lparr>ls_State := StateRetired\<rparr>))"
  using retired_lease_never_ticks [OF lease_run.start [of "sample_lease\<lparr>ls_State := StateRetired\<rparr>"]]
  by simp

text \<open>
  A tick is permitted exactly while the lease is owned and not expired beyond its grace period; a
  refused tick leaves the lease alone unless it was owned, in which case authority is given up
  (RECOVERY_REQUIRED), and from there only \<open>Recover\<close>, which moves to a superseding epoch, brings
  ticking back.
\<close>

theorem tick_permission:
  "(fst (ValidateForTick now l) = None \<longleftrightarrow>
      ls_State l = StateActiveOwner \<and>
      (ls_Expiry l = time_zero \<or> now \<le> ls_Expiry l + sint (lc_GracePeriod (ls_config l)))) \<and>
   (fst (ValidateForTick now l) = None \<longleftrightarrow> CanTick (ls_State (snd (ValidateForTick now l)))) \<and>
   (lease_step (l\<lparr>ls_State := StateRecoveryRequired\<rparr>) l' \<and> CanTick (ls_State l') \<longrightarrow>
      ls_Epoch l' = Epoch (MajorVersion (ls_Epoch l) + 1) 0)"
proof -
  have "ls_Epoch l' = Epoch (MajorVersion (ls_Epoch l) + 1) 0"
    if "lease_step (l\<lparr>ls_State := StateRecoveryRequired\<rparr>) l'" "CanTick (ls_State l')"
    using that by (cases rule: lease_step.cases)
      (auto simp: lease_op_defs CanTick_def split: if_splits)
  then show ?thesis
    by (auto simp: ValidateForTick_def IsExpiredWithGrace_def CanTick_def time_Add_def)
qed

theorem tick_permission_witness:
  "fst (ValidateForTick 70000000000 sample_lease) = None \<and>
   fst (ValidateForTick 70000000001 sample_lease) \<noteq> None"
  using tick_permission [of 70000000000 sample_lease sample_lease]
    tick_permission [of 70000000001 sample_lease sample_lease]
  by (auto simp: DefaultLeaseConfig_def time_zero_def)

text \<open>
  The lease granted to a migrated agent supersedes every lease the source can still hold by
  renewing: its epoch is above \<open>(m, g)\<close> for every generation \<open>g\<close> of the source's major version
  \<open>m\<close> (below the wrap-around of the major version).
\<close>

theorem migration_lease_supersedes:
  assumes "unat m + 1 < 2 ^ 64"
  shows "Supersedes (ls_Epoch (NewLeaseFromMigration m cfg now)) (Epoch m g)"
  using unat_plus1 [OF assms]
  by (simp add: NewLeaseFromMigration_def Supersedes_def word_less_nat_alt word_unat_eq_iff)

theorem migration_lease_supersedes_witness:
  "Supersedes (ls_Epoch (NewLeaseFromMigration 3 DefaultLeaseConfig 0)) (Epoch 3 7)"
  by (rule migration_lease_supersedes) simp

end
