(* ===== verification/Agent.thy ===== *)
theory Agent
  imports Hostcall Identity Receipt Budget Authority
begin

text \<open>
  A running agent (\<open>internal/agent/instance.go\<close>, \<open>internal/runtime/engine.go\<close>,
  \<open>internal/settlement\<close>): loading, ticking with metering and replay snapshots, checkpointing and
  resuming.  \<open>Instance\<close> carries the fields of the Go struct that the code reads or writes; the
  engine, storage provider, budget adapter, clock and call limits are in \<open>system\<close> and \<open>world\<close>.
  \<open>in_Host\<close> is the host module that the instance's imports are linked to.
\<close>

section \<open>Data\<close>

record TickSnapshot =
  sn_TickNumber :: uint64
  sn_PreState :: bytes
  sn_PostStateHash :: bytes
  sn_TickLog :: "TickLog option"

definition observationScore :: "TickSnapshot \<Rightarrow> nat" where
  "observationScore snap = (case sn_TickLog snap of None \<Rightarrow> 0 | Some tk \<Rightarrow> length (Entries tk))"

record 'm Instance =
  in_AgentID :: string
  in_WASMBytes :: bytes
  in_WASMHash :: bytes
  in_Module :: 'm
  in_Host :: "host_module option"
  in_State :: bytes
  in_Budget :: int64
  in_PricePerSecond :: int64
  in_Manifest :: CapabilityManifest
  in_FullManifest :: Manifest
  in_EventLog :: EventLog
  in_TickNumber :: uint64
  in_ReplayWindow :: "TickSnapshot list"
  in_replayWindowMax :: int
  in_Receipts :: "Receipt list"
  in_lastReceiptTick :: uint64
  in_epochCost :: int64
  in_signingKey :: "bytes option"
  in_nodeID :: string
  in_Lease :: "Lease option"
  in_AgentIdentity :: "AgentIdentity option"
  in_PrevCheckpointHash :: bytes

text \<open>\<open>settlement.BudgetAdapter\<close> over an adapter state \<open>'a\<close>, and the mock adapter.\<close>

record 'a BudgetAdapter =
  ba_ValidateBudget :: "string \<Rightarrow> int64 \<Rightarrow> unit result"
  ba_RecordSettlement :: "Receipt \<Rightarrow> 'a \<Rightarrow> unit result \<times> 'a"

definition MockAdapter :: "Receipt list BudgetAdapter" where
  "MockAdapter = \<lparr>ba_ValidateBudget = (\<lambda>_ _. Inr ()), ba_RecordSettlement = (\<lambda>r rs. (Inr (), rs @ [r]))\<rparr>"

text \<open>The surroundings of an instance: \<open>system\<close> holds the functions, \<open>world\<close> what they change.
  \<open>sy_fuel\<close> bounds a call without a deadline of its own, \<open>sy_tickFuel\<close> stands for \<open>DefaultTickTimeout\<close>.\<close>

record ('m, 's, 'a) system =
  sy_guest :: "'m guest"
  sy_crypto :: crypto
  sy_storage :: "'s provider"
  sy_adapter :: "'a BudgetAdapter option"
  sy_fuel :: nat
  sy_tickFuel :: nat

record ('s, 'a) world =
  wo_env :: env
  wo_store :: 's
  wo_settled :: 'a

section \<open>The wallet interfaces on an instance\<close>

definition DeductBudget :: "int64 \<Rightarrow> 'm Instance \<Rightarrow> unit result \<times> 'm Instance" where
  "DeductBudget amount i =
     (if sint (in_Budget i) < sint amount
      then (Inl (NewError (''insufficient budget: have '' @ dec_int (sint (in_Budget i)) @ '', need '' @
                           dec_int (sint amount))), i)
      else (Inr (), i\<lparr>in_Budget := in_Budget i - amount\<rparr>))"

definition GetReceiptBytes :: "int \<Rightarrow> 'm Instance \<Rightarrow> bytes result" where
  "GetReceiptBytes index i =
     (if index < 0 \<or> int (length (in_Receipts i)) \<le> index
      then Inl (NewError (''receipt index '' @ dec_int index @ '' out of range [0, '' @
                          dec_nat (length (in_Receipts i)) @ '')''))
      else Inr (receipt_MarshalBinary (in_Receipts i ! nat index)))"

definition GetAgentPubKey :: "'m Instance \<Rightarrow> bytes" where
  "GetAgentPubKey i = (case in_AgentIdentity i of None \<Rightarrow> replicate PublicKeySize 0 | Some a \<Rightarrow> id_PublicKey a)"

definition SignPayment :: "crypto \<Rightarrow> bytes \<Rightarrow> 'm Instance \<Rightarrow> bytes" where
  "SignPayment C data i =
     (case in_AgentIdentity i of None \<Rightarrow> replicate SignatureSize 0 | Some a \<Rightarrow> ed_Sign C (id_PrivateKey a) data)"

definition instance_wallet :: "crypto \<Rightarrow> 'm Instance wallet_ops" where
  "instance_wallet C =
     \<lparr>w_GetBudget = in_Budget, w_GetReceiptCount = (\<lambda>i. length (in_Receipts i)),
      w_GetReceiptBytes = GetReceiptBytes, w_GetNodePrice = in_PricePerSecond,
      w_DeductBudget = DeductBudget, w_GetAgentPubKey = GetAgentPubKey, w_SignPayment = SignPayment C\<rparr>"

section \<open>Calls into the module\<close>

text \<open>During a call the host functions work on the instance's event log and wallet; afterwards the
  instance holds the new module state and log.\<close>

definition agent_host :: "('m, 's, 'a) system \<Rightarrow> 'm Instance \<Rightarrow> ('m, 'm Instance hc_state) host" where
  "agent_host S i = live_host (sy_guest S) (instance_wallet (sy_crypto S)) (in_Host i)"

definition enter_hc :: "'m Instance \<Rightarrow> ('s, 'a) world \<Rightarrow> 'm Instance hc_state" where
  "enter_hc i w = \<lparr>hc_log = in_EventLog i, hc_wallet = i, hc_env = wo_env w\<rparr>"

definition leave_hc :: "'m \<Rightarrow> 'm Instance hc_state \<Rightarrow> ('s, 'a) world \<Rightarrow> 'm Instance \<times> ('s, 'a) world" where
  "leave_hc m h w = ((hc_wallet h)\<lparr>in_Module := m, in_EventLog := hc_log h\<rparr>, w\<lparr>wo_env := hc_env h\<rparr>)"

definition exported :: "('m, 's, 'a) system \<Rightarrow> 'm Instance \<Rightarrow> string \<Rightarrow> bool" where
  "exported S i name = g_exported (sy_guest S) (in_Module i) name"

definition agent_call ::
    "('m, 's, 'a) system \<Rightarrow> nat \<Rightarrow> string \<Rightarrow> uint64 list \<Rightarrow> 'm Instance \<Rightarrow> ('s, 'a) world \<Rightarrow>
     uint64 list result \<times> 'm Instance \<times> ('s, 'a) world" where
  "agent_call S fuel name args i w =
     (case call_fn fuel (sy_guest S) (agent_host S i) name args (in_Module i) (enter_hc i w) of
        (r, m, h) \<Rightarrow> (r, leave_hc m h w))"

definition captureState ::
    "('m, 's, 'a) system \<Rightarrow> 'm Instance \<Rightarrow> ('s, 'a) world \<Rightarrow> bytes result \<times> 'm Instance \<times> ('s, 'a) world" where
  "captureState S i w =
     (case CaptureState (sy_fuel S) (sy_guest S) (agent_host S i) (in_Module i) (enter_hc i w) of
        (r, m, h) \<Rightarrow> (r, leave_hc m h w))"

section \<open>Receipts\<close>

definition CreateReceipt :: "crypto \<Rightarrow> int64 \<Rightarrow> 'm Instance \<Rightarrow> unit result \<times> 'm Instance" where
  "CreateReceipt C now i =
     (case in_signingKey i of
        None \<Rightarrow> (Inr (), i)
      | Some key \<Rightarrow>
        let r = \<lparr>rc_AgentID = in_AgentID i, rc_NodeID = in_nodeID i, rc_EpochStart = in_lastReceiptTick i + 1,
                 rc_EpochEnd = in_TickNumber i, rc_CostMicrocents = in_epochCost i,
                 rc_BudgetAfter = in_Budget i, rc_Timestamp = now, rc_Signature = []\<rparr>
        in case receipt_Sign C key r of
             Inl e \<Rightarrow> (Inl (WrapError ''sign receipt'' e), i)
           | Inr r \<Rightarrow> (Inr (), i\<lparr>in_Receipts := in_Receipts i @ [r], in_lastReceiptTick := in_TickNumber i,
                               in_epochCost := 0\<rparr>))"

section \<open>Loading\<close>

text \<open>The engine's answers while an agent is loaded.\<close>

record 'm engine =
  en_closeHost :: "unit result"
  en_instantiateHost :: "unit result"
  en_compile :: "bytes \<Rightarrow> unit result"
  en_instantiate :: "bytes \<Rightarrow> host_module option \<Rightarrow> string \<Rightarrow> 'm result"

definition CompileWASMBytes :: "'m engine \<Rightarrow> bytes \<Rightarrow> unit result" where
  "CompileWASMBytes E wasmBytes = wrap_result ''failed to compile WASM module'' (en_compile E wasmBytes)"

definition LoadWASM :: "'m engine \<Rightarrow> (string \<Rightarrow> bytes result) \<Rightarrow> string \<Rightarrow> unit result" where
  "LoadWASM E read_file wasmPath =
     bindR (wrap_result ''failed to read WASM file'' (read_file wasmPath)) (CompileWASMBytes E)"

text \<open>\<open>wasi\<close> is the outcome of instantiating WASI in the new runtime, which is \<open>E\<close>.\<close>

definition NewEngine :: "unit result \<Rightarrow> 'm engine \<Rightarrow> 'm engine result" where
  "NewEngine wasi E = bindR (wrap_result ''instantiate WASI'' wasi) (\<lambda>_. Inr E)"

definition InstantiateModule :: "'m engine \<Rightarrow> bytes \<Rightarrow> host_module option \<Rightarrow> string \<Rightarrow> 'm result" where
  "InstantiateModule E wasmBytes md moduleName =
     wrap_result ''failed to instantiate module'' (en_instantiate E wasmBytes md moduleName)"

text \<open>While \<open>_initialize\<close> runs, the wallet references are still nil: a wallet, pricing or payment call
  dereferences nil, which the engine turns into a failed call.  Clock, random, log and HTTP work, and the
  event log drops what they record since no tick has begun.\<close>

fun needs_instance :: "hostreq \<Rightarrow> bool" where
  "needs_instance ReqWalletBalance = True"
| "needs_instance ReqWalletReceiptCount = True"
| "needs_instance (ReqWalletReceipt _ _ _) = True"
| "needs_instance ReqNodePrice = True"
| "needs_instance (ReqWalletPay _ _ _ _) = True"
| "needs_instance _ = False"

abbreviation nil_wallet :: "unit wallet_ops" where
  "nil_wallet \<equiv> \<lparr>w_GetBudget = (\<lambda>_. 0), w_GetReceiptCount = (\<lambda>_. 0), w_GetReceiptBytes = (\<lambda>_ _. Inr []),
     w_GetNodePrice = (\<lambda>_. 0), w_DeductBudget = (\<lambda>_ _. (Inr (), ())), w_GetAgentPubKey = (\<lambda>_. []),
     w_SignPayment = (\<lambda>_ _. [])\<rparr>"

definition init_host :: "'m guest \<Rightarrow> host_module option \<Rightarrow> ('m, unit hc_state) host" where
  "init_host G md rq m h = (if needs_instance rq then None else live_host G nil_wallet md rq m h)"

abbreviation required_exports :: "string list" where
  "required_exports \<equiv> [''agent_init'', ''agent_tick'', ''agent_checkpoint'', ''agent_checkpoint_ptr'', ''agent_resume'']"

definition verifyExports :: "('m, 's, 'a) system \<Rightarrow> 'm Instance \<Rightarrow> unit result" where
  "verifyExports S i =
     (case find (\<lambda>name. \<not> exported S i name) required_exports of
        None \<Rightarrow> Inr ()
      | Some name \<Rightarrow> Inl (NewError (''missing required export: '' @ name)))"

record load_args =
  la_agentID :: string
  la_budget :: int64
  la_price :: int64
  la_manifest :: bytes
  la_signingKey :: "bytes option"
  la_nodeID :: string
  la_identity :: "AgentIdentity option"

definition check_memory :: "Manifest \<Rightarrow> unit result" where
  "check_memory m =
     (let need = rl_MaxMemoryBytes (mf_ResourceLimits m)
      in if need > 0 \<and> need > DefaultMaxMemoryBytes
         then Inl (NewError (''agent requires '' @ dec_nat (unat need) @ '' bytes memory, node provides '' @
                             dec_nat (unat DefaultMaxMemoryBytes)))
         else Inr ())"

definition new_instance :: "crypto \<Rightarrow> load_args \<Rightarrow> bytes \<Rightarrow> Manifest \<Rightarrow> host_module option \<Rightarrow> EventLog \<Rightarrow> 'm \<Rightarrow> 'm Instance" where
  "new_instance C a wasmBytes m md el mo =
     \<lparr>in_AgentID = la_agentID a, in_WASMBytes = wasmBytes, in_WASMHash = Sum256 C wasmBytes, in_Module = mo,
      in_Host = md, in_State = [], in_Budget = la_budget a, in_PricePerSecond = la_price a,
      in_Manifest = mf_Capabilities m, in_FullManifest = m, in_EventLog = el, in_TickNumber = 0,
      in_ReplayWindow = [], in_replayWindowMax = 0, in_Receipts = [], in_lastReceiptTick = 0, in_epochCost = 0,
      in_signingKey = la_signingKey a, in_nodeID = la_nodeID a, in_Lease = None,
      in_AgentIdentity = la_identity a, in_PrevCheckpointHash = replicate 32 0\<rparr>"

definition loadAgent ::
    "('m, 's, 'a) system \<Rightarrow> 'm engine \<Rightarrow> (bytes \<Rightarrow> manifestJSON result) \<Rightarrow> bytes \<Rightarrow> load_args \<Rightarrow> env \<Rightarrow>
     'm Instance result \<times> env" where
  "loadAgent S E decode wasmBytes a ev =
     (case bindR (wrap_result ''failed to parse manifest'' (ParseManifest decode (la_manifest a))) (\<lambda>m.
           bindR (wrap_result ''manifest validation failed''
                    (ValidateAgainstNode (Some (mf_Capabilities m)) NodeCapabilities)) (\<lambda>_.
           bindR (check_memory m) (\<lambda>_.
           bindR (wrap_result ''failed to register host module''
                    (RegisterHostModule (en_closeHost E) (en_instantiateHost E)
                       (SetWalletPayState (SetPricingState (SetWalletState NewRegistry))) (Some (mf_Capabilities m)))) (\<lambda>md.
           bindR (wrap_result ''failed to compile WASM'' (CompileWASMBytes E wasmBytes)) (\<lambda>_.
           bindR (wrap_result ''failed to instantiate module'' (InstantiateModule E wasmBytes md (la_agentID a))) (\<lambda>mo.
           Inr (m, md, mo))))))) of
        Inl e \<Rightarrow> (Inl e, ev)
      | Inr (m, md, mo) \<Rightarrow>
        let el = NewEventLog DefaultMaxTicks;
            (r, mo, h) = (if g_exported (sy_guest S) mo ''_initialize''
               then call_fn (sy_fuel S) (sy_guest S) (init_host (sy_guest S) md) ''_initialize'' [] mo
                      \<lparr>hc_log = el, hc_wallet = (), hc_env = ev\<rparr>
               else (Inr [], mo, \<lparr>hc_log = el, hc_wallet = (), hc_env = ev\<rparr>))
        in case r of
             Inl e \<Rightarrow> (Inl (WrapError ''_initialize failed'' e), hc_env h)
           | Inr _ \<Rightarrow>
             let i = new_instance (sy_crypto S) a wasmBytes m md (hc_log h) mo
             in (bindR (wrap_result ''agent lifecycle validation failed'' (verifyExports S i)) (\<lambda>_. Inr i), hc_env h))"

definition LoadAgentFromBytes where "LoadAgentFromBytes = loadAgent"

definition LoadAgent ::
    "('m, 's, 'a) system \<Rightarrow> 'm engine \<Rightarrow> (bytes \<Rightarrow> manifestJSON result) \<Rightarrow> (string \<Rightarrow> bytes result) \<Rightarrow> string \<Rightarrow>
     load_args \<Rightarrow> env \<Rightarrow> 'm Instance result \<times> env" where
  "LoadAgent S E decode read_file wasmPath a ev =
     (case wrap_result ''failed to read WASM file'' (read_file wasmPath) of
        Inl e \<Rightarrow> (Inl e, ev)
      | Inr wasmBytes \<Rightarrow> loadAgent S E decode wasmBytes a ev)"

definition agent_Init ::
    "('m, 's, 'a) system \<Rightarrow> 'm Instance \<Rightarrow> ('s, 'a) world \<Rightarrow> unit result \<times> 'm Instance \<times> ('s, 'a) world" where
  "agent_Init S i w =
     (if \<not> exported S i ''agent_init'' then (Inl (NewError ''agent_init function not found''), i, w)
      else case agent_call S (sy_fuel S) ''agent_init'' [] i w of
        (Inl e, i, w) \<Rightarrow> (Inl (WrapError ''agent_init failed'' e), i, w)
      | (Inr _, i, w) \<Rightarrow> (Inr (), i, w))"

section \<open>Ticking\<close>

abbreviation DefaultReplayWindowSize :: nat where "DefaultReplayWindowSize \<equiv> 16"

text \<open>The eviction loop over the scores of all snapshots but the first and the newest; it returns the
  index with the lowest score, the first such.\<close>

fun evict_scan :: "nat \<Rightarrow> nat \<Rightarrow> nat \<Rightarrow> nat list \<Rightarrow> nat" where
  "evict_scan j evictIdx evictScore [] = evictIdx"
| "evict_scan j evictIdx evictScore (score # scores) =
     (if score < evictScore then evict_scan (Suc j) j score scores
      else evict_scan (Suc j) evictIdx evictScore scores)"

definition add_snapshot :: "int \<Rightarrow> TickSnapshot \<Rightarrow> TickSnapshot list \<Rightarrow> TickSnapshot list" where
  "add_snapshot replayWindowMax snap window =
     (let window = window @ [snap];
          maxSnaps = (if replayWindowMax \<le> 0 then DefaultReplayWindowSize else nat replayWindowMax)
      in if length window > maxSnaps
         then let evictIdx = evict_scan 1 0 (observationScore (hd window)) (map observationScore (butlast (tl window)))
              in take evictIdx window @ drop (Suc evictIdx) window
         else window)"

definition tick_cost :: "int64 \<Rightarrow> int64 \<Rightarrow> int64 \<Rightarrow> int64" where
  "tick_cost nanos price budget =
     (if 0 < sint price \<and> sint nanos > sint (div_i64 (word_of_int MaxInt64) price) then budget
      else div_i64 (nanos * price) 1000000000)"

text \<open>\<open>elapsed\<close> is what \<open>time.Since\<close> measures around the call, in nanoseconds.\<close>

definition Tick ::
    "('m, 's, 'a) system \<Rightarrow> int64 \<Rightarrow> 'm Instance \<Rightarrow> ('s, 'a) world \<Rightarrow> bool result \<times> 'm Instance \<times> ('s, 'a) world" where
  "Tick S elapsed i w =
     (if sint (in_Budget i) \<le> 0
      then (Inl (NewError (''budget exhausted: '' @ budget_Format (in_Budget i))), i, w)
      else case (case sy_adapter S of None \<Rightarrow> Inr () | Some A \<Rightarrow> ba_ValidateBudget A (in_AgentID i) (in_Budget i)) of
        Inl e \<Rightarrow> (Inl (WrapError ''budget validation failed'' e), i, w)
      | Inr _ \<Rightarrow>
      (case captureState S i w of
        (Inl e, i, w) \<Rightarrow> (Inl (WrapError ''pre-tick checkpoint failed'' e), i, w)
      | (Inr preState, i, w) \<Rightarrow>
        let i = i\<lparr>in_TickNumber := in_TickNumber i + 1\<rparr>;
            i = i\<lparr>in_EventLog := BeginTick (in_TickNumber i) (in_EventLog i)\<rparr>
        in if \<not> exported S i ''agent_tick'' then (Inl (NewError ''agent_tick function not found''), i, w)
        else case agent_call S (sy_tickFuel S) ''agent_tick'' [] i w of (results, i, w) \<Rightarrow>
          let (sealed, el) = SealTick (in_EventLog i);
              i = i\<lparr>in_EventLog := el\<rparr>
          in case results of
            Inl e \<Rightarrow> (Inl (WrapError ''agent_tick failed'' e), i, w)
          | Inr rs \<Rightarrow>
            let hasMoreWork = (rs \<noteq> [] \<and> rs ! 0 \<noteq> 0)
            in case captureState S i w of
              (Inl e, i, w) \<Rightarrow> (Inl (WrapError ''post-tick checkpoint failed'' e), i, w)
            | (Inr postState, i, w) \<Rightarrow>
              let snap = \<lparr>sn_TickNumber = in_TickNumber i, sn_PreState = preState,
                          sn_PostStateHash = Sum256 (sy_crypto S) postState, sn_TickLog = sealed\<rparr>;
                  i = i\<lparr>in_ReplayWindow := add_snapshot (in_replayWindowMax i) snap (in_ReplayWindow i)\<rparr>;
                  costMicrocents = tick_cost elapsed (in_PricePerSecond i) (in_Budget i);
                  i = i\<lparr>in_Budget := in_Budget i - costMicrocents, in_epochCost := in_epochCost i + costMicrocents\<rparr>
              in (Inr hasMoreWork, i, w)))"

section \<open>Checkpointing and resuming\<close>

definition Checkpoint ::
    "('m, 's, 'a) system \<Rightarrow> 'm Instance \<Rightarrow> ('s, 'a) world \<Rightarrow> bytes result \<times> 'm Instance \<times> ('s, 'a) world" where
  "Checkpoint S i w =
     (if \<not> exported S i ''agent_checkpoint'' then (Inl (NewError ''agent_checkpoint function not found''), i, w)
      else case agent_call S (sy_fuel S) ''agent_checkpoint'' [] i w of
        (Inl e, i, w) \<Rightarrow> (Inl (WrapError ''agent_checkpoint failed'' e), i, w)
      | (Inr rs, i, w) \<Rightarrow>
        (case result0 rs of
           Inl e \<Rightarrow> (Inl e, i, w)
         | Inr r \<Rightarrow>
           let size = (ucast r :: uint32) in
           if size = 0 then (Inr [], i, w)
           else if \<not> exported S i ''agent_checkpoint_ptr''
           then (Inl (NewError ''agent_checkpoint_ptr function not found''), i, w)
           else case agent_call S (sy_fuel S) ''agent_checkpoint_ptr'' [] i w of
             (Inl e, i, w) \<Rightarrow> (Inl (WrapError ''agent_checkpoint_ptr failed'' e), i, w)
           | (Inr rs, i, w) \<Rightarrow>
             (case result0 rs of
                Inl e \<Rightarrow> (Inl e, i, w)
              | Inr r \<Rightarrow>
                (case g_read (sy_guest S) (ucast r) size (in_Module i) of
                   None \<Rightarrow> (Inl (NewError ''failed to read checkpoint state from memory''), i, w)
                 | Some state \<Rightarrow> (Inr state, i\<lparr>in_State := state\<rparr>, w)))))"

definition Resume ::
    "('m, 's, 'a) system \<Rightarrow> bytes \<Rightarrow> 'm Instance \<Rightarrow> ('s, 'a) world \<Rightarrow> unit result \<times> 'm Instance \<times> ('s, 'a) world" where
  "Resume S state i w =
     (if \<not> exported S i ''agent_resume'' then (Inl (NewError ''agent_resume function not found''), i, w)
      else if length state = 0 then
        (case agent_call S (sy_fuel S) ''agent_resume'' [0, 0] i w of
           (Inl e, i, w) \<Rightarrow> (Inl (WrapError ''agent_resume failed'' e), i, w)
         | (Inr _, i, w) \<Rightarrow> (Inr (), i, w))
      else if \<not> exported S i ''malloc''
      then (Inl (NewError ''malloc function not found (required for agent_resume)''), i, w)
      else case agent_call S (sy_fuel S) ''malloc'' [of_nat (length state)] i w of
        (Inl e, i, w) \<Rightarrow> (Inl (WrapError ''malloc failed'' e), i, w)
      | (Inr rs, i, w) \<Rightarrow>
        (case result0 rs of
           Inl e \<Rightarrow> (Inl e, i, w)
         | Inr r \<Rightarrow>
           let ptr = (ucast r :: uint32) in
           if ptr = 0 then (Inl (NewError ''malloc returned null pointer (out of memory)''), i, w)
           else case g_write (sy_guest S) ptr state (in_Module i) of
             None \<Rightarrow> (Inl (NewError ''failed to write state to WASM memory''), i, w)
           | Some m \<Rightarrow>
             (case agent_call S (sy_fuel S) ''agent_resume'' [ucast ptr, of_nat (length state)] (i\<lparr>in_Module := m\<rparr>) w of
                (Inl e, i, w) \<Rightarrow> (Inl (WrapError ''agent_resume failed'' e), i, w)
              | (Inr _, i, w) \<Rightarrow> (Inr (), i\<lparr>in_State := state\<rparr>, w))))"

definition instance_fields :: "'m Instance \<Rightarrow> checkpoint_fields" where
  "instance_fields i =
     \<lparr>cf_Budget = in_Budget i, cf_PricePerSecond = in_PricePerSecond i, cf_TickNumber = in_TickNumber i,
      cf_WASMHash = in_WASMHash i,
      cf_majorVersion = (case in_Lease i of None \<Rightarrow> 0 | Some l \<Rightarrow> GetMajorVersion l),
      cf_leaseGeneration = (case in_Lease i of None \<Rightarrow> 0 | Some l \<Rightarrow> GetLeaseGeneration l),
      cf_leaseExpiryNanos = (case in_Lease i of None \<Rightarrow> 0 | Some l \<Rightarrow> ExpiryUnixNano l)\<rparr>"

definition buildCheckpoint :: "crypto \<Rightarrow> bytes \<Rightarrow> 'm Instance \<Rightarrow> bytes result \<times> 'm Instance" where
  "buildCheckpoint C state i =
     (case in_AgentIdentity i of
        None \<Rightarrow> (Inr (build_v3 (instance_fields i) state), i)
      | Some a \<Rightarrow>
        (case build_v4 C (instance_fields i) (in_PrevCheckpointHash i) (id_PublicKey a) (id_PrivateKey a) state of
           Inl e \<Rightarrow> (Inl e, i)
         | Inr c \<Rightarrow> (Inr c, i\<lparr>in_PrevCheckpointHash := ContentHash C c\<rparr>)))"

text \<open>The part of \<open>SaveCheckpointToStorage\<close> after the checkpoint is stored; its failures are only logged.\<close>

definition save_receipts ::
    "('m, 's, 'a) system \<Rightarrow> int64 \<Rightarrow> 'm Instance \<Rightarrow> ('s, 'a) world \<Rightarrow> 'm Instance \<times> ('s, 'a) world" where
  "save_receipts S now i w =
     (let i = snd (CreateReceipt (sy_crypto S) now i)
      in if in_Receipts i = [] then (i, w)
         else let w = w\<lparr>wo_store := snd (pv_SaveReceipts (sy_storage S) (in_AgentID i)
                                           (MarshalReceipts (in_Receipts i)) (wo_store w))\<rparr>
              in (i, case sy_adapter S of
                       None \<Rightarrow> w
                     | Some A \<Rightarrow> w\<lparr>wo_settled := snd (ba_RecordSettlement A (last (in_Receipts i)) (wo_settled w))\<rparr>))"

definition SaveCheckpointToStorage ::
    "('m, 's, 'a) system \<Rightarrow> int64 \<Rightarrow> 'm Instance \<Rightarrow> ('s, 'a) world \<Rightarrow> unit result \<times> 'm Instance \<times> ('s, 'a) world" where
  "SaveCheckpointToStorage S now i w =
     (case Checkpoint S i w of
        (Inl e, i, w) \<Rightarrow> (Inl (WrapError ''failed to checkpoint agent'' e), i, w)
      | (Inr state, i, w) \<Rightarrow>
        (case buildCheckpoint (sy_crypto S) state i of
           (Inl e, i) \<Rightarrow> (Inl (WrapError ''failed to build checkpoint'' e), i, w)
         | (Inr checkpoint, i) \<Rightarrow>
           (case pv_SaveCheckpoint (sy_storage S) (in_AgentID i) checkpoint (wo_store w) of
              (Inl e, s) \<Rightarrow> (Inl (WrapError ''failed to save checkpoint'' e), i, w\<lparr>wo_store := s\<rparr>)
            | (Inr _, s) \<Rightarrow> (Inr (), save_receipts S now i (w\<lparr>wo_store := s\<rparr>)))))"

definition restore_receipts :: "bytes result \<Rightarrow> 'm Instance \<Rightarrow> 'm Instance" where
  "restore_receipts receiptData i =
     (case bindR receiptData UnmarshalReceipts of
        Inl _ \<Rightarrow> i
      | Inr receipts \<Rightarrow>
        let i = i\<lparr>in_Receipts := receipts\<rparr>
        in if receipts \<noteq> [] then i\<lparr>in_lastReceiptTick := rc_EpochEnd (last receipts)\<rparr> else i)"

definition LoadCheckpointFromStorage ::
    "('m, 's, 'a) system \<Rightarrow> 'm Instance \<Rightarrow> ('s, 'a) world \<Rightarrow> unit result \<times> 'm Instance \<times> ('s, 'a) world" where
  "LoadCheckpointFromStorage S i w =
     (case pv_LoadCheckpoint (sy_storage S) (in_AgentID i) (wo_store w) of
        (Inl e, s) \<Rightarrow>
          (if errors_is e ErrCheckpointNotFound then (Inr (), i, w\<lparr>wo_store := s\<rparr>)
           else (Inl (WrapError ''failed to load checkpoint'' e), i, w\<lparr>wo_store := s\<rparr>))
      | (Inr checkpoint, s) \<Rightarrow>
        let w = w\<lparr>wo_store := s\<rparr> in
        (case ParseCheckpointHeader checkpoint of
           Inl e \<Rightarrow> (Inl (WrapError ''invalid checkpoint'' e), i, w)
         | Inr (hdr, state) \<Rightarrow>
           if hd_WASMHash hdr \<noteq> in_WASMHash i
           then (Inl (NewError ''WASM hash mismatch: checkpoint was created by a different binary''), i, w)
           else if hd_HasLineage hdr \<and>
             \<not> VerifyCheckpoint (sy_crypto S) (BuildSigningDomain (take 145 checkpoint) state) (hd_AgentPubKey hdr) (hd_Signature hdr)
           then (Inl (NewError ''checkpoint signature verification failed''), i, w)
           else
             let i = (if hd_HasLineage hdr then i\<lparr>in_PrevCheckpointHash := ContentHash (sy_crypto S) checkpoint\<rparr> else i);
                 i = i\<lparr>in_Budget := hd_Budget hdr, in_PricePerSecond := hd_PricePerSecond hdr, in_TickNumber := hd_TickNumber hdr\<rparr>;
                 (receiptData, s) = pv_LoadReceipts (sy_storage S) (in_AgentID i) (wo_store w);
                 i = restore_receipts receiptData i
             in case Resume S state i (w\<lparr>wo_store := s\<rparr>) of
                  (Inl e, i, w) \<Rightarrow> (Inl (WrapError ''failed to resume agent'' e), i, w)
                | (Inr _, i, w) \<Rightarrow> (Inr (), i, w)))"

definition SetReplayWindowSize :: "int \<Rightarrow> 'm Instance \<Rightarrow> 'm Instance" where
  "SetReplayWindowSize n i = i\<lparr>in_replayWindowMax := n\<rparr>"

definition LatestSnapshot :: "'m Instance \<Rightarrow> TickSnapshot option" where
  "LatestSnapshot i = (if in_ReplayWindow i = [] then None else Some (last (in_ReplayWindow i)))"

section \<open>The wallet contract holds for an instance\<close>

definition wf_keys :: "crypto \<Rightarrow> 'm Instance \<Rightarrow> bool" where
  "wf_keys C i \<longleftrightarrow> crypto_ok C \<and> (case in_AgentIdentity i of None \<Rightarrow> True | Some a \<Rightarrow> wf_identity C a)"

lemma instance_wallet_simps [simp]:
  "w_GetBudget (instance_wallet C) = in_Budget"
  "w_GetReceiptCount (instance_wallet C) i = length (in_Receipts i)"
  "w_GetReceiptBytes (instance_wallet C) = GetReceiptBytes"
  "w_GetNodePrice (instance_wallet C) = in_PricePerSecond"
  "w_DeductBudget (instance_wallet C) = DeductBudget"
  "w_GetAgentPubKey (instance_wallet C) = GetAgentPubKey"
  "w_SignPayment (instance_wallet C) = SignPayment C"
  by (simp_all add: instance_wallet_def)

interpretation pay: wallet_pay_state "instance_wallet C" "wf_keys C" for C
proof
  fix a :: int64 and w :: "'a Instance"
  assume "sint a \<le> sint (w_GetBudget (instance_wallet C) w)"
  then show "\<exists>w'. w_DeductBudget (instance_wallet C) a w = (Inr (), w') \<and>
      w_GetBudget (instance_wallet C) w' = w_GetBudget (instance_wallet C) w - a \<and> (wf_keys C w \<longrightarrow> wf_keys C w')"
    by (simp add: DeductBudget_def wf_keys_def)
next
  fix a :: int64 and w :: "'a Instance"
  assume "sint (w_GetBudget (instance_wallet C) w) < sint a"
  then show "\<exists>e. w_DeductBudget (instance_wallet C) a w = (Inl e, w)" by (simp add: DeductBudget_def)
next
  fix w :: "'a Instance" assume "wf_keys C w"
  then show "length (w_GetAgentPubKey (instance_wallet C) w) = PublicKeySize"
    by (auto simp: wf_keys_def wf_identity_def GetAgentPubKey_def length_ed_Public split: option.splits)
next
  fix w :: "'a Instance" and d assume "wf_keys C w"
  then show "length (w_SignPayment (instance_wallet C) d w) = SignatureSize"
    by (auto simp: wf_keys_def wf_identity_def SignPayment_def length_ed_Sign split: option.splits)
qed

section \<open>Metering\<close>

lemma sint_MaxInt64: "sint (word_of_int MaxInt64 :: int64) = MaxInt64"
  by (simp add: sint_simps)

lemma div_less_iff:
  fixes m n p :: int
  assumes "0 < p"
  shows "m div p < n \<longleftrightarrow> m < n * p"
proof
  assume "m div p < n"
  then have "(m div p + 1) * p \<le> n * p" using assms by (intro mult_right_mono) auto
  moreover have "m < (m div p + 1) * p"
    using assms pos_mod_bound [of p m] div_mult_mod_eq [of m p] unfolding distrib_right by linarith
  ultimately show "m < n * p" by linarith
next
  assume "m < n * p"
  show "m div p < n"
  proof (rule ccontr)
    assume "\<not> m div p < n"
    then have "n * p \<le> m div p * p" using assms by (intro mult_right_mono) auto
    moreover have "m div p * p \<le> m" using assms pos_mod_sign [of p m] div_mult_mod_eq [of m p] by linarith
    ultimately show False using \<open>m < n * p\<close> by linarith
  qed
qed

lemma div_le_self:
  fixes m p :: int
  assumes "0 \<le> m" "0 < p"
  shows "m div p \<le> m"
proof -
  have "(m + 1) * 1 \<le> (m + 1) * p" using assms by (intro mult_left_mono) auto
  then have "m < (m + 1) * p" by simp
  with div_less_iff [OF assms(2), of m "m + 1"] show ?thesis by simp
qed

lemma tick_cost_exact:
  assumes "0 \<le> sint nanos" "0 \<le> sint price"
  shows "sint (tick_cost nanos price b) =
    (if sint nanos * sint price \<le> MaxInt64 then sint nanos * sint price div 1000000000 else sint b)"
proof -
  have guard: "0 < sint price \<Longrightarrow>
      sint (div_i64 (word_of_int MaxInt64) price) < sint nanos \<longleftrightarrow> MaxInt64 < sint nanos * sint price"
  proof -
    assume p: "0 < sint price"
    have "MaxInt64 div sint price \<le> MaxInt64" using p by (intro div_le_self) auto
    moreover have "0 \<le> MaxInt64 div sint price" using p by (intro div_int_pos_iff [THEN iffD2]) auto
    ultimately have "sint (div_i64 (word_of_int MaxInt64) price) = MaxInt64 div sint price"
      using p by (simp add: div_i64_def sint_MaxInt64 sdiv_nonneg sint64_of_int)
    then show ?thesis using div_less_iff [OF p] by simp
  qed
  show ?thesis
  proof (cases "sint nanos * sint price \<le> MaxInt64")
    case True
    have n: "0 \<le> sint nanos * sint price" using assms by simp
    then have "sint (nanos * price) = sint nanos * sint price" using True by (intro sint64_mult) auto
    moreover have "sint nanos * sint price div 1000000000 \<le> MaxInt64"
      using True div_le_self [OF n, of 1000000000] by linarith
    ultimately have "sint (div_i64 (nanos * price) 1000000000) = sint nanos * sint price div 1000000000"
      using n by (simp add: div_i64_def sdiv_nonneg sint64_of_int pos_imp_zdiv_nonneg_iff)
    with True guard show ?thesis by (auto simp: tick_cost_def)
  next
    case False
    then have "0 < sint price" using assms(2) by (cases "sint price = 0") auto
    with guard False show ?thesis by (simp add: tick_cost_def)
  qed
qed

section \<open>The replay window\<close>

lemma evict_scan_min:
  assumes "scores = drop j xs" "j \<le> length xs" "k < j" "\<forall>n<j. xs ! k \<le> xs ! n" "\<forall>n<k. xs ! k < xs ! n"
    "r = evict_scan j k (xs ! k) scores"
  shows "r < length xs \<and> (\<forall>n<length xs. xs ! r \<le> xs ! n) \<and> (\<forall>n<r. xs ! r < xs ! n)"
  using assms
proof (induction scores arbitrary: j k)
  case Nil
  then show ?case by auto
next
  case (Cons x scores)
  then have x: "x = xs ! j" "scores = drop (Suc j) xs" "Suc j \<le> length xs"
    by (metis Cons_nth_drop_Suc drop_eq_Nil2 linorder_not_le list.distinct(1) list.inject,
        metis Cons_nth_drop_Suc drop_eq_Nil2 linorder_not_le list.distinct(1) list.inject,
        metis Suc_leI drop_eq_Nil2 linorder_not_le list.distinct(1))
  show ?case
  proof (cases "x < xs ! k")
    case True
    then have "r = evict_scan (Suc j) j (xs ! j) scores" using Cons.prems(6) x(1) by simp
    with Cons.prems(4) True x show ?thesis
      by (intro Cons.IH [of "Suc j" j]) (auto simp: less_Suc_eq intro: less_imp_le order.strict_trans2)
  next
    case False
    then have "r = evict_scan (Suc j) k (xs ! k) scores" using Cons.prems(6) x(1) by simp
    with Cons.prems(3,4,5) False x show ?thesis
      by (intro Cons.IH [of "Suc j" k]) (auto simp: less_Suc_eq)
  qed
qed

lemma evict_index:
  assumes "2 \<le> length window"
    "r = evict_scan 1 0 (observationScore (hd window)) (map observationScore (butlast (tl window)))"
  shows "r < length window - 1 \<and> (\<forall>n<length window - 1. observationScore (window ! r) \<le> observationScore (window ! n)) \<and>
    (\<forall>n<r. observationScore (window ! r) < observationScore (window ! n))"
proof -
  let ?xs = "map observationScore (butlast window)"
  have len: "length ?xs = length window - 1" by simp
  have "map observationScore (butlast (tl window)) = drop 1 ?xs"
    by (cases window; cases "tl window") (simp_all add: drop_map)
  moreover have "observationScore (hd window) = ?xs ! 0"
    using assms(1) by (cases window; cases "tl window") auto
  moreover have "?xs ! n = observationScore (window ! n)" if "n < length window - 1" for n
    using that by (simp add: nth_butlast)
  ultimately show ?thesis
    using evict_scan_min [of "drop 1 ?xs" 1 ?xs 0 r] assms by fastforce
qed

section \<open>Properties\<close>

text \<open>
  A payment is all or nothing, with one exception the accounting shows.  \<open>wallet_pay\<close> on an instance
  either returns a negative code and leaves budget, log and clock as they were, or the amount is
  positive, within the cap and the budget, goes to an allowed recipient and is deducted exactly
  once, leaving a budget of at least zero; then either the receipt is recorded in the event log, or,
  if the receipt cannot be written to the agent's memory, the code \<open>-6\<close> is returned and nothing is recorded.
\<close>

theorem wallet_pay_accounting:
  fixes h :: "'m Instance hc_state"
  assumes "wallet_pay G (instance_wallet C) cfg amount recip memoS rcpt m h = (rs, m', h')"
  defines "b \<equiv> sint (in_Budget (hc_wallet h))" and "b' \<equiv> sint (in_Budget (hc_wallet h'))"
  shows "(h' = h \<and> (\<exists>e. rs = ret_i32 e \<and> sint e < 0)) \<or>
    (0 < sint amount \<and> (sint (py_maxPayment cfg) \<le> 0 \<or> sint amount \<le> sint (py_maxPayment cfg)) \<and>
     b' = b - sint amount \<and> 0 \<le> b' \<and>
     (\<exists>recipient. g_read G (fst recip) (snd recip) m = Some recipient \<and>
        (py_allowedRecipients cfg = [] \<or> string_of_bytes recipient \<in> set (py_allowedRecipients cfg))) \<and>
     (hc_log h' = hc_log h \<and> rs = ret_i32 payErrProcessing \<or>
      (\<exists>receipt. hc_log h' = Record WalletPay (put_u64 amount @ receipt) (hc_log h))))"
proof -
  have deducted: "0 < sint amount \<and> (sint (py_maxPayment cfg) \<le> 0 \<or> sint amount \<le> sint (py_maxPayment cfg)) \<and>
      b' = b - sint amount \<and> 0 \<le> b' \<and>
      (\<exists>recipient. g_read G (fst recip) (snd recip) m = Some recipient \<and>
        (py_allowedRecipients cfg = [] \<or> string_of_bytes recipient \<in> set (py_allowedRecipients cfg)))"
    if c: "pay_checks G (instance_wallet C) cfg amount recip memoS rcpt m h recipient memo"
      and d: "in_Budget (hc_wallet h') = in_Budget (hc_wallet h) - amount" for recipient memo
  proof -
    from c have *: "0 < sint amount" "sint amount \<le> b" by (simp_all add: pay_checks_def b_def)
    then have "b' = b - sint amount"
      using sint64_bounds [of "in_Budget (hc_wallet h)"] unfolding b_def b'_def d by (intro sint64_sub) auto
    with * c show ?thesis by (auto simp: pay_checks_def)
  qed
  from assms(1) show ?thesis
  proof (cases rule: pay.pay_outcomes)
    case (refused e)
    then show ?thesis by blast
  next
    case (unwritten recipient memo)
    with deducted [of recipient memo] show ?thesis by simp
  next
    case (paid recipient memo w ts receiptData full)
    with deducted [of recipient memo] show ?thesis by auto
  qed
qed

definition example_instance :: "example_agent Instance" where
  "example_instance =
     \<lparr>in_AgentID = ''a'', in_WASMBytes = [0], in_WASMHash = Sum256 sample_crypto [0], in_Module = example_module,
      in_Host = Some clock_module, in_State = [], in_Budget = 100, in_PricePerSecond = 60, in_Manifest = the clock_manifest,
      in_FullManifest = \<lparr>mf_AgentID = [], mf_OwnerPublicKey = [], mf_Capabilities = the clock_manifest,
        mf_MigrationPolicy = None, mf_ResourceLimits = no_limits\<rparr>,
      in_EventLog = NewEventLog 1024, in_TickNumber = 0, in_ReplayWindow = [], in_replayWindowMax = 0,
      in_Receipts = [], in_lastReceiptTick = 0, in_epochCost = 0, in_signingKey = None, in_nodeID = ''n'',
      in_Lease = None, in_AgentIdentity = None, in_PrevCheckpointHash = replicate 32 0\<rparr>"

text \<open>A payment of 5 with an empty recipient and memo and an announced buffer of 1000 bytes at address 0, which
  the 32 bytes of memory do not have.\<close>

lemma example_payment:
  "wallet_pay example_guest (instance_wallet sample_crypto) \<lparr>py_allowedRecipients = [], py_maxPayment = 50\<rparr> 5
     (0, 0) (0, 0) (0, 1000) example_module \<lparr>hc_log = NewEventLog 4, hc_wallet = example_instance, hc_env = example_env\<rparr> =
   (ret_i32 payErrProcessing, example_module,
    \<lparr>hc_log = NewEventLog 4, hc_wallet = example_instance\<lparr>in_Budget := 95\<rparr>, hc_env = example_env\<lparr>ev_calls := 1\<rparr>\<rparr>)"
  by (simp add: wallet_pay_def example_mem_read_def read_memo_def pay_needed_def full_receipt_len_def
      GetAgentPubKey_def example_instance_def pay_settle_def DeductBudget_def next_env_def example_env_def
      example_mem_write_def example_module_def Let_def)

theorem wallet_pay_accounting_witness:
  "sint (in_Budget (hc_wallet \<lparr>hc_log = NewEventLog 4, hc_wallet = example_instance\<lparr>in_Budget := 95\<rparr>,
     hc_env = example_env\<lparr>ev_calls := 1\<rparr>\<rparr>)) = sint (in_Budget example_instance) - sint (5 :: int64)"
  using wallet_pay_accounting [OF example_payment] by (auto simp: example_instance_def)

text \<open>
  Money can leave without a receipt: \<open>wallet_pay\<close> deducts the amount before it writes the receipt to the
  agent's memory, so when the announced buffer lies outside that memory the call returns the error
  code \<open>-6\<close>, records nothing for replay, and the budget is reduced all the same.
\<close>

theorem wallet_pay_charged_without_receipt:
  "\<exists>h'. wallet_pay example_guest (instance_wallet sample_crypto) \<lparr>py_allowedRecipients = [], py_maxPayment = 50\<rparr> 5
     (0, 0) (0, 0) (0, 1000) example_module \<lparr>hc_log = NewEventLog 4, hc_wallet = example_instance, hc_env = example_env\<rparr> =
     (ret_i32 payErrProcessing, example_module, h') \<and>
   hc_log h' = NewEventLog 4 \<and> in_Budget (hc_wallet h') = 95 \<and> in_Budget example_instance = 100"
  unfolding example_payment by (simp add: example_instance_def)

text \<open>
  C31 The charge of a tick: for a non-negative price and duration it is exactly the duration in
  nanoseconds times the price per second, divided by \<open>10^9\<close> and rounded down, as long as the product fits
  in 63 bits, and the whole remaining budget when it does not; the multiplication never wraps.
\<close>

theorem tick_cost_no_overflow:
  assumes "0 \<le> sint nanos" "0 \<le> sint price"
  shows "sint (tick_cost nanos price budget) =
    (if sint nanos * sint price \<le> MaxInt64 then sint nanos * sint price div 1000000000 else sint budget)"
  using assms by (rule tick_cost_exact)

theorem tick_cost_no_overflow_witness:
  "sint (tick_cost 9000000000000000000 1000 500) = 500"
  using tick_cost_no_overflow [of 9000000000000000000 1000 500] by simp

lemma add_snapshot_set: "set (add_snapshot n snap window) \<subseteq> insert snap (set window)"
  unfolding add_snapshot_def Let_def by (auto dest: in_set_takeD in_set_dropD)

text \<open>
  The replay window keeps the newest snapshot and at most its maximum: below the maximum the snapshot
  is appended; at the maximum one older snapshot leaves, the oldest of those with the fewest recorded
  observations, and the others stay in order.
\<close>

theorem add_snapshot_window:
  assumes "length window \<le> n" "n = (if replayWindowMax \<le> 0 then 16 else nat replayWindowMax)"
  shows "if length window < n then add_snapshot replayWindowMax snap window = window @ [snap]
    else \<exists>k<length window. add_snapshot replayWindowMax snap window = take k window @ drop (Suc k) window @ [snap] \<and>
      (\<forall>j<length window. observationScore (window ! k) \<le> observationScore (window ! j)) \<and>
      (\<forall>j<k. observationScore (window ! k) < observationScore (window ! j))"
proof (cases "length window < n")
  case True
  with assms show ?thesis by (auto simp: add_snapshot_def Let_def)
next
  case False
  with assms have n: "length window = n" "1 \<le> n" by (auto split: if_splits)
  let ?w = "window @ [snap]"
  obtain k where k: "k = evict_scan 1 0 (observationScore (hd ?w)) (map observationScore (butlast (tl ?w)))" by blast
  have "2 \<le> length ?w" using n by simp
  from evict_index [OF this k]
  have "k < length window" "\<forall>j<length window. observationScore (?w ! k) \<le> observationScore (?w ! j)"
    "\<forall>j<k. observationScore (?w ! k) < observationScore (?w ! j)" by simp_all
  moreover have "add_snapshot replayWindowMax snap window = take k ?w @ drop (Suc k) ?w"
    using n assms(2) by (simp add: add_snapshot_def Let_def k)
  ultimately show ?thesis using False by (auto simp: nth_append intro!: exI [of _ k])
qed

theorem add_snapshot_window_witness:
  "\<exists>k<1. add_snapshot 1 \<lparr>sn_TickNumber = 2, sn_PreState = [], sn_PostStateHash = [], sn_TickLog = None\<rparr>
      [\<lparr>sn_TickNumber = 1, sn_PreState = [], sn_PostStateHash = [], sn_TickLog = None\<rparr>] =
    take k [\<lparr>sn_TickNumber = 1, sn_PreState = [], sn_PostStateHash = [], sn_TickLog = None\<rparr>] @
    drop (Suc k) [\<lparr>sn_TickNumber = 1, sn_PreState = [], sn_PostStateHash = [], sn_TickLog = None\<rparr>] @
    [\<lparr>sn_TickNumber = 2, sn_PreState = [], sn_PostStateHash = [], sn_TickLog = None\<rparr>]"
  using add_snapshot_window [of "[\<lparr>sn_TickNumber = 1, sn_PreState = [], sn_PostStateHash = [], sn_TickLog = None\<rparr>]" 1 1
      "\<lparr>sn_TickNumber = 2, sn_PreState = [], sn_PostStateHash = [], sn_TickLog = None\<rparr>"]
  by auto

end
