(* ===== verification/Durability.thy ===== *)
theory Durability
  imports Agent
begin

text \<open>
  What survives: host calls can only spend budget, a tick never earns, and a checkpoint that was saved
  restores the same instance in another process.  These facts tie the agent, the checkpoint format, the
  receipts and the filesystem provider together.
\<close>

section \<open>What a call into the module can change\<close>

text \<open>\<open>spent i i'\<close>: only module, log, cached state and budget may differ, and the budget went down, not
  below zero.\<close>

definition spent :: "'m Instance \<Rightarrow> 'm Instance \<Rightarrow> bool" where
  "spent i i' \<longleftrightarrow>
     i'\<lparr>in_Module := in_Module i, in_EventLog := in_EventLog i, in_State := in_State i, in_Budget := in_Budget i\<rparr> = i \<and>
     sint (in_Budget i') \<le> sint (in_Budget i) \<and> (0 \<le> sint (in_Budget i) \<longrightarrow> 0 \<le> sint (in_Budget i'))"

lemma spent_refl [simp]: "spent i i"
  by (simp add: spent_def)

lemma spent_trans [trans]:
  assumes "spent i j" "spent j k"
  shows "spent i k"
proof -
  have "k\<lparr>in_Module := in_Module i, in_EventLog := in_EventLog i, in_State := in_State i, in_Budget := in_Budget i\<rparr> =
      (k\<lparr>in_Module := in_Module j, in_EventLog := in_EventLog j, in_State := in_State j, in_Budget := in_Budget j\<rparr>)
        \<lparr>in_Module := in_Module i, in_EventLog := in_EventLog i, in_State := in_State i, in_Budget := in_Budget i\<rparr>"
    by simp
  also have "\<dots> = i" using assms by (simp add: spent_def)
  finally show ?thesis using assms by (auto simp: spent_def)
qed

lemma spent_update [simp]:
  "spent i (j\<lparr>in_Module := m\<rparr>) \<longleftrightarrow> spent i j" "spent i (j\<lparr>in_EventLog := l\<rparr>) \<longleftrightarrow> spent i j"
  "spent i (j\<lparr>in_State := st\<rparr>) \<longleftrightarrow> spent i j"
  by (simp_all add: spent_def)

lemma spent_fields:
  assumes "spent i i'"
  shows "in_AgentID i' = in_AgentID i" "in_WASMHash i' = in_WASMHash i" "in_WASMBytes i' = in_WASMBytes i"
    "in_Host i' = in_Host i" "in_PricePerSecond i' = in_PricePerSecond i" "in_TickNumber i' = in_TickNumber i"
    "in_AgentIdentity i' = in_AgentIdentity i" "in_PrevCheckpointHash i' = in_PrevCheckpointHash i"
    "in_ReplayWindow i' = in_ReplayWindow i" "in_replayWindowMax i' = in_replayWindowMax i"
    "in_Receipts i' = in_Receipts i" "in_epochCost i' = in_epochCost i" "in_signingKey i' = in_signingKey i"
    "in_lastReceiptTick i' = in_lastReceiptTick i" "in_Lease i' = in_Lease i" "in_nodeID i' = in_nodeID i"
    "in_Manifest i' = in_Manifest i"
    "sint (in_Budget i') \<le> sint (in_Budget i)" "0 \<le> sint (in_Budget i) \<Longrightarrow> 0 \<le> sint (in_Budget i')"
  using assms by (cases i; cases i'; simp add: spent_def)+

lemma DeductBudget_spent:
  assumes "DeductBudget a i = (r, i')" "0 < sint a" "sint a \<le> sint (in_Budget i)"
  shows "spent i i'"
proof -
  have "sint (in_Budget i - a) = sint (in_Budget i) - sint a"
    using assms(2,3) sint64_bounds [of "in_Budget i"] by (intro sint64_sub) auto
  moreover have "i' = i\<lparr>in_Budget := in_Budget i - a\<rparr>"
    using assms by (simp add: DeductBudget_def)
  ultimately show ?thesis using assms by (simp add: spent_def)
qed

lemma host_keeps_spent:
  "host_keeps (live_host G (instance_wallet C) md) (\<lambda>h. spent i (hc_wallet h) \<and> wf_event_log (hc_log h))"
  unfolding host_keeps_def
proof (intro allI impI)
  fix rq m h rs m' h'
  assume c: "live_host G (instance_wallet C) md rq m h = Some (rs, m', h')"
    and p: "spent i (hc_wallet h) \<and> wf_event_log (hc_log h)"
  have "spent (hc_wallet h) (hc_wallet h')"
    using live_host_wallet [OF c] by (auto intro: DeductBudget_spent)
  then show "spent i (hc_wallet h') \<and> wf_event_log (hc_log h')"
    using live_host_log [OF c] p by (auto intro: spent_trans)
qed

lemma leave_spent:
  assumes "spent i (hc_wallet h)" "leave_hc m h w = (i', w')"
  shows "spent i i'" "wo_store w' = wo_store w" "wo_settled w' = wo_settled w" "in_EventLog i' = hc_log h"
    "in_Module i' = m"
  using assms by (auto simp: leave_hc_def)

lemma agent_call_spent:
  assumes "agent_call S fuel name args i w = (r, i', w')" "wf_event_log (in_EventLog i)"
  shows "spent i i' \<and> wf_event_log (in_EventLog i') \<and> wo_store w' = wo_store w \<and> wo_settled w' = wo_settled w"
proof -
  obtain r1 m1 h1 where c: "call_fn fuel (sy_guest S) (agent_host S i) name args (in_Module i) (enter_hc i w) = (r1, m1, h1)"
    using prod_cases3 by blast
  from call_fn_invariant [OF host_keeps_spent c [unfolded agent_host_def], of i] assms(2)
  have "spent i (hc_wallet h1) \<and> wf_event_log (hc_log h1)" by (simp add: enter_hc_def)
  with leave_spent [of i h1 m1 w i' w'] assms(1) show ?thesis by (simp add: agent_call_def c)
qed

lemma captureState_spent:
  assumes "captureState S i w = (r, i', w')" "wf_event_log (in_EventLog i)"
  shows "spent i i' \<and> wf_event_log (in_EventLog i') \<and> wo_store w' = wo_store w \<and> wo_settled w' = wo_settled w"
proof -
  obtain r1 m1 h1 where c: "CaptureState (sy_fuel S) (sy_guest S) (agent_host S i) (in_Module i) (enter_hc i w) = (r1, m1, h1)"
    using prod_cases3 by blast
  from CaptureState_invariant [OF host_keeps_spent c [unfolded agent_host_def], of i] assms(2)
  have "spent i (hc_wallet h1) \<and> wf_event_log (hc_log h1)" by (simp add: enter_hc_def)
  with leave_spent [of i h1 m1 w i' w'] assms(1) show ?thesis by (simp add: captureState_def c)
qed

lemma Checkpoint_spent:
  assumes "Checkpoint S i w = (r, i', w')" "wf_event_log (in_EventLog i)"
  shows "spent i i' \<and> wf_event_log (in_EventLog i') \<and> wo_store w' = wo_store w \<and> wo_settled w' = wo_settled w"
proof -
  obtain rc ic wc where c: "agent_call S (sy_fuel S) ''agent_checkpoint'' [] i w = (rc, ic, wc)" using prod_cases3 by blast
  obtain rp ip wp where p: "agent_call S (sy_fuel S) ''agent_checkpoint_ptr'' [] ic wc = (rp, ip, wp)" using prod_cases3 by blast
  note k = agent_call_spent [OF c assms(2)]
  note k2 = agent_call_spent [OF p conjunct1 [OF conjunct2 [OF k]]]
  have "spent i ip" using k k2 spent_trans by blast
  with k k2 assms show ?thesis
    by (auto simp: Checkpoint_def c p Let_def split: if_splits sum.splits option.splits)
qed

section \<open>A tick, step by step\<close>

definition begin_tick :: "'m Instance \<Rightarrow> 'm Instance" where
  "begin_tick i = i\<lparr>in_TickNumber := in_TickNumber i + 1,
     in_EventLog := BeginTick (in_TickNumber i + 1) (in_EventLog i)\<rparr>"

definition finish_tick :: "crypto \<Rightarrow> int64 \<Rightarrow> bytes \<Rightarrow> bytes \<Rightarrow> TickLog option \<Rightarrow> 'm Instance \<Rightarrow> 'm Instance" where
  "finish_tick C elapsed pre post sealed i =
     (let snap = \<lparr>sn_TickNumber = in_TickNumber i, sn_PreState = pre, sn_PostStateHash = Sum256 C post, sn_TickLog = sealed\<rparr>;
          cost = tick_cost elapsed (in_PricePerSecond i) (in_Budget i)
      in i\<lparr>in_ReplayWindow := add_snapshot (in_replayWindowMax i) snap (in_ReplayWindow i),
           in_Budget := in_Budget i - cost, in_epochCost := in_epochCost i + cost\<rparr>)"

lemma Tick_cases:
  assumes "Tick S elapsed i w = (r, i', w')"
  obtains (refused) e where "r = Inl e" "i' = i" "w' = w"
    | (no_pre) e where "r = Inl (WrapError ''pre-tick checkpoint failed'' e)" "captureState S i w = (Inl e, i', w')"
    | (no_tick) pre i1 where "r = Inl (NewError ''agent_tick function not found'')"
        "captureState S i w = (Inr pre, i1, w')" "i' = begin_tick i1"
    | (failed) e pre i1 w1 i2 sealed el where "r = Inl (WrapError ''agent_tick failed'' e)"
        "captureState S i w = (Inr pre, i1, w1)" "agent_call S (sy_tickFuel S) ''agent_tick'' [] (begin_tick i1) w1 = (Inl e, i2, w')"
        "SealTick (in_EventLog i2) = (sealed, el)" "i' = i2\<lparr>in_EventLog := el\<rparr>"
    | (no_post) e pre i1 w1 rs i2 w2 sealed el where "r = Inl (WrapError ''post-tick checkpoint failed'' e)"
        "captureState S i w = (Inr pre, i1, w1)" "agent_call S (sy_tickFuel S) ''agent_tick'' [] (begin_tick i1) w1 = (Inr rs, i2, w2)"
        "SealTick (in_EventLog i2) = (sealed, el)" "captureState S (i2\<lparr>in_EventLog := el\<rparr>) w2 = (Inl e, i', w')"
    | (done_ok) pre i1 w1 rs i2 w2 sealed el post i3 where "r = Inr (rs \<noteq> [] \<and> rs ! 0 \<noteq> 0)"
        "0 < sint (in_Budget i)" "captureState S i w = (Inr pre, i1, w1)"
        "exported S (begin_tick i1) ''agent_tick''"
        "agent_call S (sy_tickFuel S) ''agent_tick'' [] (begin_tick i1) w1 = (Inr rs, i2, w2)"
        "SealTick (in_EventLog i2) = (sealed, el)" "captureState S (i2\<lparr>in_EventLog := el\<rparr>) w2 = (Inr post, i3, w')"
        "i' = finish_tick (sy_crypto S) elapsed pre post sealed i3"
proof -
  define V where "V = (case sy_adapter S of None \<Rightarrow> Inr () | Some A \<Rightarrow> ba_ValidateBudget A (in_AgentID i) (in_Budget i))"
  obtain rp i1 w1 where p: "captureState S i w = (rp, i1, w1)" using prod_cases3 by blast
  obtain rt i2 w2 where t: "agent_call S (sy_tickFuel S) ''agent_tick'' [] (begin_tick i1) w1 = (rt, i2, w2)"
    using prod_cases3 by blast
  obtain sealed el where s: "SealTick (in_EventLog i2) = (sealed, el)" by fastforce
  obtain rq i3 w3 where q: "captureState S (i2\<lparr>in_EventLog := el\<rparr>) w2 = (rq, i3, w3)" using prod_cases3 by blast
  have b: "i1\<lparr>in_TickNumber := in_TickNumber i1 + 1, in_EventLog := BeginTick (in_TickNumber i1 + 1) (in_EventLog i1)\<rparr> = begin_tick i1"
    by (simp add: begin_tick_def)
  show thesis
  proof (cases "sint (in_Budget i) \<le> 0 \<or> (\<exists>e. V = Inl e)")
    case True
    then show thesis using refused assms by (auto simp: Tick_def simp flip: V_def split: if_splits)
  next
    case ok: False
    then have v: "V = Inr ()" by (cases V) auto
    show thesis
    proof (cases rp)
      case (Inl e)
      then show thesis using no_pre p ok v assms by (auto simp: Tick_def simp flip: V_def)
    next
      case rp: (Inr pre)
      show thesis
      proof (cases "exported S (begin_tick i1) ''agent_tick''")
        case False
        then show thesis using no_tick p rp ok v assms by (auto simp: Tick_def Let_def b simp flip: V_def)
      next
        case True
        note base = p rp ok v assms t s q b True
        show thesis
        proof (cases rt)
          case (Inl e)
          then show thesis using failed base by (auto simp: Tick_def Let_def simp flip: V_def)
        next
          case rt: (Inr rs)
          then show thesis
          proof (cases rq)
            case (Inl e)
            then show thesis using no_post base rt by (auto simp: Tick_def Let_def simp flip: V_def)
          next
            case (Inr post)
            then show thesis using done_ok base rt by (auto simp: Tick_def Let_def finish_tick_def simp flip: V_def)
          qed
        qed
      qed
    qed
  qed
qed

lemma begin_tick_wf: "wf_event_log (in_EventLog i) \<Longrightarrow> wf_event_log (in_EventLog (begin_tick i))"
  by (simp add: begin_tick_def)

lemma spent_begin_tick: "spent (begin_tick i) j \<Longrightarrow>
   sint (in_Budget j) \<le> sint (in_Budget i) \<and> (0 \<le> sint (in_Budget i) \<longrightarrow> 0 \<le> sint (in_Budget j)) \<and>
   in_TickNumber j = in_TickNumber i + 1 \<and> in_PricePerSecond j = in_PricePerSecond i \<and> in_epochCost j = in_epochCost i"
  using spent_fields [of "begin_tick i" j] by (simp add: begin_tick_def)

lemma SealTick_wf: "SealTick l = (s, l') \<Longrightarrow> wf_event_log l \<Longrightarrow> wf_event_log l'"
  using wf_SealTick by (metis snd_conv)

text \<open>The budget through a whole tick: what the host calls spent, then the metered cost.\<close>

lemma tick_cost_bounds:
  assumes "0 \<le> sint nanos" "0 \<le> sint price" "0 \<le> sint b"
  shows "0 \<le> sint (tick_cost nanos price b)" "sint (b - tick_cost nanos price b) \<le> sint b"
proof -
  show c: "0 \<le> sint (tick_cost nanos price b)"
    using assms by (simp add: tick_cost_exact pos_imp_zdiv_nonneg_iff)
  have "sint (b - tick_cost nanos price b) = sint b - sint (tick_cost nanos price b)"
    using c assms(3) sint64_bounds [of b] sint64_bounds [of "tick_cost nanos price b"] by (intro sint64_sub) linarith+
  with c show "sint (b - tick_cost nanos price b) \<le> sint b" by simp
qed

lemma Tick_spends:
  assumes "Tick S elapsed i w = (r, i', w')" "wf_event_log (in_EventLog i)"
    "0 \<le> sint elapsed" "0 \<le> sint (in_PricePerSecond i)"
  shows "sint (in_Budget i') \<le> sint (in_Budget i) \<and> wf_event_log (in_EventLog i') \<and> wo_store w' = wo_store w \<and>
    (in_TickNumber i' = in_TickNumber i \<or> in_TickNumber i' = in_TickNumber i + 1) \<and>
    (\<forall>more. r = Inr more \<longrightarrow> in_TickNumber i' = in_TickNumber i + 1)"
  using assms(1)
proof (cases rule: Tick_cases)
  case (refused e)
  then show ?thesis using assms(2) by simp
next
  case (no_pre e)
  then show ?thesis using captureState_spent [OF no_pre(2) assms(2)] spent_fields [of i i'] by simp
next
  case (no_tick pre i1)
  note k1 = captureState_spent [OF no_tick(2) assms(2)]
  then show ?thesis using no_tick spent_fields [of i i1] by (simp add: begin_tick_def)
next
  case (failed e pre i1 w1 i2 sealed el)
  note k1 = captureState_spent [OF failed(2) assms(2)]
  note k2 = agent_call_spent [OF failed(3) begin_tick_wf]
  show ?thesis using k1 k2 spent_begin_tick [of i1 i2] spent_fields [of i i1] SealTick_wf [OF failed(4)] failed
    by (auto simp: begin_tick_def)
next
  case (no_post e pre i1 w1 rs i2 w2 sealed el)
  note k1 = captureState_spent [OF no_post(2) assms(2)]
  note k2 = agent_call_spent [OF no_post(3) begin_tick_wf]
  have "wf_event_log el" using k1 k2 SealTick_wf [OF no_post(4)] by blast
  with captureState_spent [OF no_post(5)] have "spent (i2\<lparr>in_EventLog := el\<rparr>) i'" "wf_event_log (in_EventLog i')"
    "wo_store w' = wo_store w2" by simp_all
  with k1 k2 spent_begin_tick [of i1 i2] spent_fields [of i i1] spent_fields [of "i2\<lparr>in_EventLog := el\<rparr>" i'] no_post
  show ?thesis by auto
next
  case (done_ok pre i1 w1 rs i2 w2 sealed el post i3)
  note k1 = captureState_spent [OF done_ok(3) assms(2)]
  note k2 = agent_call_spent [OF done_ok(5) begin_tick_wf]
  have "wf_event_log el" using k1 k2 SealTick_wf [OF done_ok(6)] by blast
  with captureState_spent [OF done_ok(7)] have k3: "spent (i2\<lparr>in_EventLog := el\<rparr>) i3" "wf_event_log (in_EventLog i3)"
    "wo_store w' = wo_store w2" by simp_all
  have f: "sint (in_Budget i3) \<le> sint (in_Budget i)" "0 \<le> sint (in_Budget i3)"
    "in_PricePerSecond i3 = in_PricePerSecond i" "in_TickNumber i3 = in_TickNumber i + 1"
    using k1 k2 k3(1) spent_begin_tick [of i1 i2] spent_fields [of i i1] spent_fields [of "i2\<lparr>in_EventLog := el\<rparr>" i3] done_ok(2)
    by auto
  have "sint (in_Budget i') \<le> sint (in_Budget i3)"
    using tick_cost_bounds(2) [OF assms(3,4) f(2)] done_ok(8) f(3) by (simp add: finish_tick_def Let_def)
  with f k1 k2 k3 done_ok(8) show ?thesis by (auto simp: finish_tick_def Let_def)
qed

section \<open>Properties of a tick\<close>

text \<open>
  A tick never earns: whatever the agent does and however the tick ends, for a non-negative price and
  duration the budget afterwards is at most the budget before, storage is untouched, and the tick
  number moves by at most one, and by exactly one when the tick succeeds.
\<close>

theorem Tick_never_earns:
  assumes "Tick S elapsed i w = (r, i', w')" "wf_event_log (in_EventLog i)"
    "0 \<le> sint elapsed" "0 \<le> sint (in_PricePerSecond i)"
  shows "sint (in_Budget i') \<le> sint (in_Budget i) \<and> wo_store w' = wo_store w \<and>
    (in_TickNumber i' = in_TickNumber i \<or> in_TickNumber i' = in_TickNumber i + 1) \<and>
    (\<forall>more. r = Inr more \<longrightarrow> in_TickNumber i' = in_TickNumber i + 1)"
  using Tick_spends [OF assms] by blast

definition example_system :: "(example_agent, os_state, Receipt list) system" where
  "example_system = \<lparr>sy_guest = example_guest, sy_crypto = sample_crypto, sy_storage = fs_provider ''b'',
     sy_adapter = Some MockAdapter, sy_fuel = 10, sy_tickFuel = 10\<rparr>"

definition example_world :: "(os_state, Receipt list) world" where
  "example_world = \<lparr>wo_env = example_env, wo_store = \<lparr>os_files = [], os_faults = [], os_trace = []\<rparr>, wo_settled = []\<rparr>"

lemma example_instance_fields [simp]:
  "in_Budget example_instance = 100" "in_PricePerSecond example_instance = 60" "in_TickNumber example_instance = 0"
  "in_EventLog example_instance = NewEventLog 1024" "in_Module example_instance = example_module"
  "in_Host example_instance = Some clock_module" "in_AgentID example_instance = ''a''"
  "in_replayWindowMax example_instance = 0" "in_ReplayWindow example_instance = []" "in_epochCost example_instance = 0"
  "in_AgentIdentity example_instance = None" "in_Lease example_instance = None"
  "in_WASMHash example_instance = Sum256 sample_crypto [0]" "in_signingKey example_instance = None"
  "in_Receipts example_instance = []" "in_PrevCheckpointHash example_instance = replicate 32 0"
  by (simp_all add: example_instance_def)

lemma example_system_fields [simp]:
  "sy_guest example_system = example_guest" "sy_crypto example_system = sample_crypto"
  "sy_storage example_system = fs_provider ''b''" "sy_adapter example_system = Some MockAdapter"
  "sy_fuel example_system = 10" "sy_tickFuel example_system = 10"
  by (simp_all add: example_system_def)

theorem Tick_never_earns_witness:
  "sint (in_Budget (fst (snd (Tick example_system 3000000000 example_instance example_world)))) \<le> 100"
proof -
  obtain r i' w' where t: "Tick example_system 3000000000 example_instance example_world = (r, i', w')"
    using prod_cases3 by blast
  from Tick_never_earns [OF t] show ?thesis by (simp add: t)
qed

text \<open>The example agent, evaluated: capturing its state, and one tick.\<close>

lemma example_capture:
  assumes "32 \<le> length (xa_mem m)"
  shows "CaptureState 10 example_guest H m h =
    (Inr (take 8 (xa_mem m)), m\<lparr>xa_pc := PcIdle, xa_args := []\<rparr>, h)"
  using assms
  by (simp add: CaptureState_def call_fn_def run_guest_numeral example_enter_def example_event_def result0_def
      example_mem_read_def go_slice_def Let_def)

lemma example_capture_instance:
  assumes "32 \<le> length (xa_mem (in_Module i))"
  shows "captureState example_system i w =
    (Inr (take 8 (xa_mem (in_Module i))), i\<lparr>in_Module := (in_Module i)\<lparr>xa_pc := PcIdle, xa_args := []\<rparr>\<rparr>, w)"
  by (simp add: captureState_def example_capture [OF assms] leave_hc_def enter_hc_def)

lemma example_tick_call:
  assumes "in_Host i = Some clock_module"
  shows "agent_call example_system 10 ''agent_tick'' [] i w =
    (Inr [], i\<lparr>in_Module := (in_Module i)\<lparr>xa_mem := put_u64 (ev_clock (wo_env w) (ev_calls (wo_env w))) @ drop 8 (xa_mem (in_Module i)),
        xa_pc := PcIdle, xa_args := []\<rparr>,
       in_EventLog := Record ClockNow (put_u64 (ev_clock (wo_env w) (ev_calls (wo_env w)))) (in_EventLog i)\<rparr>,
     w\<lparr>wo_env := (wo_env w)\<lparr>ev_calls := Suc (ev_calls (wo_env w))\<rparr>\<rparr>)"
  using assms
  by (simp add: agent_call_def call_fn_def run_guest_numeral example_enter_def example_event_def agent_host_def
      live_host_def clock_now_def enter_hc_def leave_hc_def next_env_def record_obs_def ret_i64_def Let_def)


section \<open>Saving and resuming\<close>

lemma SaveReceipts_keeps_checkpoint:
  assumes "SaveReceipts b k d s = (r, s')"
  shows "stored_at (checkpointPath b' k') s' = stored_at (checkpointPath b' k') s"
proof (cases "checkpointPath b' k'")
  case (Inr path)
  then obtain pre where path: "path = pre @ ''.checkpoint''"
    using provider_path_ends [of "''.checkpoint''" b' k' path] by (auto simp: checkpointPath_def)
  show ?thesis
  proof (cases "receiptPath b k")
    case rp: (Inr p)
    then obtain pre' where p: "p = pre' @ ''.receipts''"
      using provider_path_ends [of "''.receipts''" b k p] by (auto simp: receiptPath_def)
    have "rev path \<noteq> rev p" "rev path \<noteq> rev (p @ ''.tmp'')" by (simp_all add: path p)
    then have n: "path \<in> - {p, p @ ''.tmp''}" by auto
    have "atomic_write ''receipts'' p d s = (r, s')" using assms rp by (simp add: SaveReceipts_def save_blob_def)
    from keepsD [OF atomic_write_keeps [OF this] n] show ?thesis by (simp add: stored_at_def Inr)
  qed (use assms in \<open>simp add: SaveReceipts_def save_blob_def\<close>)
qed (simp add: stored_at_def)

lemma wf_instance_fields:
  assumes "0 \<le> sint (in_Budget i)" "0 \<le> sint (in_PricePerSecond i)" "length (in_WASMHash i) = 32"
  shows "wf_fields (instance_fields i)"
  using assms by (simp add: wf_fields_def instance_fields_def)

lemma header_of_instance [simp]:
  "hd_Budget (header_of_fields (instance_fields i)) = in_Budget i"
  "hd_PricePerSecond (header_of_fields (instance_fields i)) = in_PricePerSecond i"
  "hd_TickNumber (header_of_fields (instance_fields i)) = in_TickNumber i"
  "hd_WASMHash (header_of_fields (instance_fields i)) = in_WASMHash i"
  "\<not> hd_HasLineage (header_of_fields (instance_fields i))"
  by (simp_all add: header_of_fields_def instance_fields_def)

text \<open>The checkpoint an instance builds parses back to its own fields, and its signature verifies.\<close>

lemma buildCheckpoint_parse:
  assumes "buildCheckpoint C state i = (Inr c, i2)" "wf_keys C i" "length (in_PrevCheckpointHash i) = 32"
    "0 \<le> sint (in_Budget i)" "0 \<le> sint (in_PricePerSecond i)" "length (in_WASMHash i) = 32"
  shows "\<exists>hdr. ParseCheckpointHeader c = Inr (hdr, state) \<and> hd_Budget hdr = in_Budget i \<and>
    hd_PricePerSecond hdr = in_PricePerSecond i \<and> hd_TickNumber hdr = in_TickNumber i \<and> hd_WASMHash hdr = in_WASMHash i \<and>
    (hd_HasLineage hdr \<longleftrightarrow> in_AgentIdentity i \<noteq> None) \<and>
    (hd_HasLineage hdr \<longrightarrow> hd_PrevHash hdr = in_PrevCheckpointHash i \<and>
       hd_AgentPubKey hdr = id_PublicKey (the (in_AgentIdentity i)) \<and>
       VerifyCheckpoint C (BuildSigningDomain (take 145 c) state) (hd_AgentPubKey hdr) (hd_Signature hdr)) \<and>
    i2 = (if hd_HasLineage hdr then i\<lparr>in_PrevCheckpointHash := ContentHash C c\<rparr> else i)"
proof (cases "in_AgentIdentity i")
  case None
  then show ?thesis
    using assms(1) parse_build_v3 [OF wf_instance_fields [OF assms(4-6)], of state]
    by (intro exI [of _ "header_of_fields (instance_fields i)"]) (auto simp: buildCheckpoint_def)
next
  case (Some a)
  then have a: "length (id_PrivateKey a) = PrivateKeySize" "id_PublicKey a = ed_Public C (id_PrivateKey a)" "crypto_ok C"
    using assms(2) by (simp_all add: wf_keys_def wf_identity_def)
  from build_v4_parse [OF a(3) wf_instance_fields [OF assms(4-6)] assms(3) a(1), of state] obtain sig where
    "build_v4 C (instance_fields i) (in_PrevCheckpointHash i) (id_PublicKey a) (id_PrivateKey a) state = Inr c"
    "ParseCheckpointHeader c = Inr ((header_of_fields (instance_fields i))\<lparr>hd_Version := checkpointVersionV4,
       hd_PrevHash := in_PrevCheckpointHash i, hd_AgentPubKey := id_PublicKey a, hd_Signature := sig, hd_HasLineage := True,
       hd_HeaderLen := checkpointHeaderLenV4\<rparr>, state)"
    "VerifyCheckpoint C (BuildSigningDomain (take 145 c) state) (id_PublicKey a) sig"
    using assms(1) a by (auto simp: buildCheckpoint_def Some split: sum.splits)
  with assms(1) Some show ?thesis by (auto simp: buildCheckpoint_def)
qed

lemma Save_cases:
  assumes "SaveCheckpointToStorage S now i w = (Inr u, i', w')"
  obtains state i1 w1 c i2 s where "Checkpoint S i w = (Inr state, i1, w1)"
    "buildCheckpoint (sy_crypto S) state i1 = (Inr c, i2)"
    "pv_SaveCheckpoint (sy_storage S) (in_AgentID i2) c (wo_store w1) = (Inr (), s)"
    "save_receipts S now i2 (w1\<lparr>wo_store := s\<rparr>) = (i', w')"
  using assms by (auto simp: SaveCheckpointToStorage_def split: prod.splits sum.splits)

lemma CreateReceipt_frame:
  "CreateReceipt C now i = (r, i') \<Longrightarrow> \<exists>rs lt ec. i' = i\<lparr>in_Receipts := rs, in_lastReceiptTick := lt, in_epochCost := ec\<rparr>"
  by (cases i) (auto simp: CreateReceipt_def Let_def split: option.splits sum.splits)

lemma save_receipts_frame:
  assumes "save_receipts S now i w = (i', w')" "sy_storage S = fs_provider b"
  shows "(\<exists>rs lt ec. i' = i\<lparr>in_Receipts := rs, in_lastReceiptTick := lt, in_epochCost := ec\<rparr>) \<and>
    stored_at (checkpointPath b k) (wo_store w') = stored_at (checkpointPath b k) (wo_store w)"
proof -
  obtain r i1 where c: "CreateReceipt (sy_crypto S) now i = (r, i1)" by fastforce
  obtain r2 s2 where sv: "SaveReceipts b (in_AgentID i1) (MarshalReceipts (in_Receipts i1)) (wo_store w) = (r2, s2)" by fastforce
  have "stored_at (checkpointPath b k) (wo_store w') = stored_at (checkpointPath b k) (wo_store w)"
    using assms SaveReceipts_keeps_checkpoint [OF sv, of b k] sv
    by (auto simp: save_receipts_def c fs_provider_def Let_def split: if_splits option.splits)
  moreover have "i' = i1" using assms(1) by (auto simp: save_receipts_def c Let_def split: if_splits)
  ultimately show ?thesis using CreateReceipt_frame [OF c] by simp
qed

lemma restore_receipts_frame:
  "\<exists>rs lt. restore_receipts d i = i\<lparr>in_Receipts := rs, in_lastReceiptTick := lt\<rparr>"
proof (cases "bindR d UnmarshalReceipts")
  case (Inl e)
  then show ?thesis by (intro exI [of _ "in_Receipts i"] exI [of _ "in_lastReceiptTick i"]) (simp add: restore_receipts_def)
next
  case (Inr rs)
  then show ?thesis
    by (intro exI [of _ rs] exI [of _ "if rs = [] then in_lastReceiptTick i else rc_EpochEnd (last rs)"])
      (simp add: restore_receipts_def)
qed

text \<open>After a successful save, what the store holds for the agent is the checkpoint of the saved instance.\<close>

lemma Save_stored:
  assumes "SaveCheckpointToStorage S now i w = (Inr u, i', w')" "sy_storage S = fs_provider b"
    "wf_event_log (in_EventLog i)"
  obtains state i1 w1 c i2 where "Checkpoint S i w = (Inr state, i1, w1)" "buildCheckpoint (sy_crypto S) state i1 = (Inr c, i2)"
    "stored_at (checkpointPath b (in_AgentID i)) (wo_store w') = Some c" "spent i i1"
    "\<exists>rs lt ec. i' = i2\<lparr>in_Receipts := rs, in_lastReceiptTick := lt, in_epochCost := ec\<rparr>"
proof -
  from assms(1) obtain state i1 w1 c i2 s where
    s: "Checkpoint S i w = (Inr state, i1, w1)" "buildCheckpoint (sy_crypto S) state i1 = (Inr c, i2)"
      "pv_SaveCheckpoint (sy_storage S) (in_AgentID i2) c (wo_store w1) = (Inr (), s)"
      "save_receipts S now i2 (w1\<lparr>wo_store := s\<rparr>) = (i', w')"
    by (rule Save_cases)
  have sp: "spent i i1" using Checkpoint_spent [OF s(1) assms(3)] by blast
  have id: "in_AgentID i2 = in_AgentID i"
    using s(2) spent_fields(1) [OF sp] by (auto simp: buildCheckpoint_def split: option.splits sum.splits)
  have "SaveCheckpoint b (in_AgentID i) c (wo_store w1) = (Inr (), s)"
    using s(3) id by (simp add: assms(2) fs_provider_def)
  from ckpt.save_ok [OF this] have "stored_at (checkpointPath b (in_AgentID i)) s = Some c" .
  with save_receipts_frame [OF s(4) assms(2), of "in_AgentID i"]
  have "stored_at (checkpointPath b (in_AgentID i)) (wo_store w') = Some c"
    "\<exists>rs lt ec. i' = i2\<lparr>in_Receipts := rs, in_lastReceiptTick := lt, in_epochCost := ec\<rparr>" by simp_all
  with s sp that show thesis by blast
qed

text \<open>
  C3 What was saved comes back: after \<open>SaveCheckpointToStorage\<close> succeeded on the filesystem store,
  \<open>LoadCheckpointFromStorage\<close> on any instance of the same agent and binary, say in a new process, passes every
  check, restores budget, price, tick number and the lineage hash of the saved instance, and hands
  \<open>Resume\<close> exactly the state bytes the agent had produced for the checkpoint.
\<close>

theorem checkpoint_save_then_load:
  assumes "SaveCheckpointToStorage S now i w = (Inr u, i', w')" "sy_storage S = fs_provider b"
    "wf_event_log (in_EventLog i)" "no_faults (wo_store w')" "wf_keys (sy_crypto S) i"
    "length (in_PrevCheckpointHash i) = 32" "length (in_WASMHash i) = 32"
    "0 \<le> sint (in_Budget i)" "0 \<le> sint (in_PricePerSecond i)"
    "in_AgentID j = in_AgentID i" "in_WASMHash j = in_WASMHash i"
  shows "\<exists>state j' v. fst (Checkpoint S i w) = Inr state \<and>
    LoadCheckpointFromStorage S j w' =
      (case Resume S state j' v of
         (Inl e, k, v) \<Rightarrow> (Inl (WrapError ''failed to resume agent'' e), k, v)
       | (Inr _, k, v) \<Rightarrow> (Inr (), k, v)) \<and>
    in_Budget j' = in_Budget i' \<and> in_PricePerSecond j' = in_PricePerSecond i' \<and> in_TickNumber j' = in_TickNumber i' \<and>
    (in_AgentIdentity i = None \<or> in_PrevCheckpointHash j' = in_PrevCheckpointHash i') \<and> in_Module j' = in_Module j"
proof -
  from Save_stored [OF assms(1-3)] obtain state i1 w1 c i2 where
    s: "Checkpoint S i w = (Inr state, i1, w1)" "buildCheckpoint (sy_crypto S) state i1 = (Inr c, i2)"
      "stored_at (checkpointPath b (in_AgentID i)) (wo_store w') = Some c" "spent i i1"
      "\<exists>rs lt ec. i' = i2\<lparr>in_Receipts := rs, in_lastReceiptTick := lt, in_epochCost := ec\<rparr>" by blast
  note f = spent_fields [OF s(4)]
  have wfk: "wf_keys (sy_crypto S) i1" using assms(5) f by (simp add: wf_keys_def)
  from buildCheckpoint_parse [OF s(2) wfk] f assms(6-9) obtain hdr where
    h: "ParseCheckpointHeader c = Inr (hdr, state)" "hd_Budget hdr = in_Budget i1" "hd_PricePerSecond hdr = in_PricePerSecond i1"
      "hd_TickNumber hdr = in_TickNumber i1" "hd_WASMHash hdr = in_WASMHash i1" "hd_HasLineage hdr \<longleftrightarrow> in_AgentIdentity i1 \<noteq> None"
      "hd_HasLineage hdr \<longrightarrow> VerifyCheckpoint (sy_crypto S) (BuildSigningDomain (take 145 c) state) (hd_AgentPubKey hdr) (hd_Signature hdr)"
      "i2 = (if hd_HasLineage hdr then i1\<lparr>in_PrevCheckpointHash := ContentHash (sy_crypto S) c\<rparr> else i1)"
    by auto
  obtain q s1 where l: "LoadCheckpoint b (in_AgentID i) (wo_store w') = (q, s1)" by fastforce
  have q: "q = Inr c"
    using ckpt.load_live [OF assms(4), of b "in_AgentID i"] s(3) stored_valid [of "checkpointPath b (in_AgentID i)" "wo_store w'"] l
    by simp
  define j1 where "j1 = (if hd_HasLineage hdr then j\<lparr>in_PrevCheckpointHash := ContentHash (sy_crypto S) c\<rparr> else j)"
  define j2 where "j2 = j1\<lparr>in_Budget := hd_Budget hdr, in_PricePerSecond := hd_PricePerSecond hdr, in_TickNumber := hd_TickNumber hdr\<rparr>"
  obtain rd s2 where r: "LoadReceipts b (in_AgentID i) s1 = (rd, s2)" by fastforce
  have "LoadCheckpointFromStorage S j w' =
      (case Resume S state (restore_receipts rd j2) (w'\<lparr>wo_store := s2\<rparr>) of
         (Inl e, k, v) \<Rightarrow> (Inl (WrapError ''failed to resume agent'' e), k, v)
       | (Inr _, k, v) \<Rightarrow> (Inr (), k, v))"
  proof (cases "hd_HasLineage hdr")
    case True
    with h(7) have v: "VerifyCheckpoint (sy_crypto S) (BuildSigningDomain (take 145 c) state) (hd_AgentPubKey hdr) (hd_Signature hdr)"
      by simp
    show ?thesis
      using l q h(1,5) f r assms(10,11) v True
      by (simp add: LoadCheckpointFromStorage_def assms(2) fs_provider_def j2_def j1_def)
  next
    case False
    then show ?thesis
      using l q h(1,5) f r assms(10,11)
      by (simp add: LoadCheckpointFromStorage_def assms(2) fs_provider_def j2_def j1_def)
  qed
  moreover obtain rs lt where "restore_receipts rd j2 = j2\<lparr>in_Receipts := rs, in_lastReceiptTick := lt\<rparr>"
    using restore_receipts_frame by blast
  ultimately show ?thesis using s f h by (auto simp: j2_def j1_def)
qed


lemma example_save:
  "fst (SaveCheckpointToStorage example_system 7 example_instance example_world) = Inr ()"
  "no_faults (wo_store (snd (snd (SaveCheckpointToStorage example_system 7 example_instance example_world))))"
  by code_simp+


theorem checkpoint_save_then_load_witness:
  "\<exists>state j' v. LoadCheckpointFromStorage example_system (example_instance\<lparr>in_Budget := 1, in_TickNumber := 9\<rparr>)
      (snd (snd (SaveCheckpointToStorage example_system 7 example_instance example_world))) =
      (case Resume example_system state j' v of
         (Inl e, k, v) \<Rightarrow> (Inl (WrapError ''failed to resume agent'' e), k, v)
       | (Inr _, k, v) \<Rightarrow> (Inr (), k, v)) \<and>
    in_Budget j' = 100 \<and> in_TickNumber j' = 0"
proof -
  let ?r = "SaveCheckpointToStorage example_system 7 example_instance example_world"
  have s: "?r = (Inr (), fst (snd ?r), snd (snd ?r))" using example_save(1) by (simp add: prod_eq_iff)
  have b: "in_Budget (fst (snd ?r)) = 100" "in_TickNumber (fst (snd ?r)) = 0" by code_simp+
  have e: "wf_event_log (in_EventLog example_instance)" "wf_keys sample_crypto example_instance"
    by (simp_all add: wf_keys_def)
  show ?thesis
    using checkpoint_save_then_load [OF s _ e(1) example_save(2), of "''b''" "example_instance\<lparr>in_Budget := 1, in_TickNumber := 9\<rparr>"]
      e b length_Sum256 [of sample_crypto]
    by (auto simp: wf_keys_def)
qed

end
