(* ===== verification/Replay.thy ===== *)
theory Replay
  imports Durability
begin

text \<open>
  Replay verification (\<open>internal/replay/engine.go\<close>): a tick is run again in a fresh module whose host
  functions answer from the recorded observations, and the resulting state is compared.  The
  host functions exist twice in the code, once over an iterator and once over a holder whose iterator
  is swapped between the ticks of a chain; both are written out here.  The locale
  \<open>host_simulation\<close> states when one host can stand in for another; it is interpreted for replay
  against the live host, and for the chain host against the single-tick host.
\<close>

section \<open>The entry iterator\<close>

record entryIterator =
  it_entries :: "Entry list"
  it_pos :: nat

definition entry_next :: "HostcallID \<Rightarrow> entryIterator \<Rightarrow> Entry result \<times> entryIterator" where
  "entry_next expectedID it =
     (if it_pos it \<ge> length (it_entries it)
      then (Inl (NewError (''event log exhausted at position '' @ dec_nat (it_pos it) @ '', expected hostcall '' @
                           dec_nat (unat expectedID))), it)
      else let entry = it_entries it ! it_pos it in
        if fst entry \<noteq> expectedID
        then (Inl (NewError (''hostcall mismatch at position '' @ dec_nat (it_pos it) @ '': expected '' @
                             dec_nat (unat expectedID) @ '', got '' @ dec_nat (unat (fst entry)))), it)
        else (Inr entry, it\<lparr>it_pos := Suc (it_pos it)\<rparr>))"

definition remaining :: "entryIterator \<Rightarrow> int" where
  "remaining it = int (length (it_entries it)) - int (it_pos it)"

section \<open>Replay host functions\<close>

record replay_state =
  rp_iter :: entryIterator
  rp_err :: "go_error option"

definition payload_length_error :: "string \<Rightarrow> bytes \<Rightarrow> nat \<Rightarrow> go_error" where
  "payload_length_error name payload expected =
     NewError (name @ '' payload length '' @ dec_nat (length payload) @ '', expected '' @ dec_nat expected)"

definition replay_clock_now :: "'m \<Rightarrow> replay_state \<Rightarrow> uint64 list \<times> 'm \<times> replay_state" where
  "replay_clock_now m st =
     (case entry_next ClockNow (rp_iter st) of
        (Inl e, it) \<Rightarrow> (ret_i64 0, m, st\<lparr>rp_iter := it, rp_err := Some e\<rparr>)
      | (Inr (_, payload), it) \<Rightarrow>
        if length payload \<noteq> 8
        then (ret_i64 0, m, st\<lparr>rp_iter := it, rp_err := Some (payload_length_error ''clock_now'' payload 8)\<rparr>)
        else (ret_i64 (get_u64 payload), m, st\<lparr>rp_iter := it\<rparr>))"

definition replay_rand_bytes :: "'m guest \<Rightarrow> uint32 \<Rightarrow> uint32 \<Rightarrow> 'm \<Rightarrow> replay_state \<Rightarrow> uint64 list \<times> 'm \<times> replay_state" where
  "replay_rand_bytes G ptr len m st =
     (case entry_next RandBytes (rp_iter st) of
        (Inl e, it) \<Rightarrow> (ret_i32 (-1), m, st\<lparr>rp_iter := it, rp_err := Some e\<rparr>)
      | (Inr (_, payload), it) \<Rightarrow>
        if len_u32 payload \<noteq> len
        then (ret_i32 (-1), m, st\<lparr>rp_iter := it, rp_err := Some (payload_length_error ''rand_bytes'' payload (unat len))\<rparr>)
        else case g_write G ptr payload m of
          None \<Rightarrow> (ret_i32 (-4), m, st\<lparr>rp_iter := it, rp_err := Some (NewError ''rand_bytes memory write failed'')\<rparr>)
        | Some m \<Rightarrow> (ret_i32 0, m, st\<lparr>rp_iter := it\<rparr>))"

definition replay_log_emit :: "'m \<Rightarrow> replay_state \<Rightarrow> uint64 list \<times> 'm \<times> replay_state" where
  "replay_log_emit m st =
     (case entry_next LogEmit (rp_iter st) of
        (Inl e, it) \<Rightarrow> ([], m, st\<lparr>rp_iter := it, rp_err := Some e\<rparr>)
      | (Inr _, it) \<Rightarrow> ([], m, st\<lparr>rp_iter := it\<rparr>))"

definition replay_wallet_balance :: "'m \<Rightarrow> replay_state \<Rightarrow> uint64 list \<times> 'm \<times> replay_state" where
  "replay_wallet_balance m st =
     (case entry_next WalletBalance (rp_iter st) of
        (Inl e, it) \<Rightarrow> (ret_i64 0, m, st\<lparr>rp_iter := it, rp_err := Some e\<rparr>)
      | (Inr (_, payload), it) \<Rightarrow>
        if length payload \<noteq> 8
        then (ret_i64 0, m, st\<lparr>rp_iter := it, rp_err := Some (payload_length_error ''wallet_balance'' payload 8)\<rparr>)
        else (ret_i64 (get_u64 payload), m, st\<lparr>rp_iter := it\<rparr>))"

definition replay_wallet_receipt_count :: "'m \<Rightarrow> replay_state \<Rightarrow> uint64 list \<times> 'm \<times> replay_state" where
  "replay_wallet_receipt_count m st =
     (case entry_next WalletReceiptCount (rp_iter st) of
        (Inl e, it) \<Rightarrow> (ret_i32 0, m, st\<lparr>rp_iter := it, rp_err := Some e\<rparr>)
      | (Inr (_, payload), it) \<Rightarrow>
        if length payload \<noteq> 4
        then (ret_i32 0, m, st\<lparr>rp_iter := it, rp_err := Some (payload_length_error ''wallet_receipt_count'' payload 4)\<rparr>)
        else (ret_i32 (get_u32 payload), m, st\<lparr>rp_iter := it\<rparr>))"

definition replay_wallet_receipt :: "'m guest \<Rightarrow> uint32 \<Rightarrow> uint32 \<Rightarrow> 'm \<Rightarrow> replay_state \<Rightarrow> uint64 list \<times> 'm \<times> replay_state" where
  "replay_wallet_receipt G ptr len m st =
     (case entry_next WalletReceipt (rp_iter st) of
        (Inl e, it) \<Rightarrow> (ret_i32 (-1), m, st\<lparr>rp_iter := it, rp_err := Some e\<rparr>)
      | (Inr (_, payload), it) \<Rightarrow>
        if len_u32 payload > len
        then (ret_i32 (-4), m, st\<lparr>rp_iter := it, rp_err := Some (NewError (''wallet_receipt payload '' @
                dec_nat (length payload) @ '' exceeds buffer '' @ dec_nat (unat len)))\<rparr>)
        else case g_write G ptr payload m of
          None \<Rightarrow> (ret_i32 (-4), m, st\<lparr>rp_iter := it, rp_err := Some (NewError ''wallet_receipt memory write failed'')\<rparr>)
        | Some m \<Rightarrow> (ret_i32 (len_u32 payload), m, st\<lparr>rp_iter := it\<rparr>))"

definition replay_node_price :: "'m \<Rightarrow> replay_state \<Rightarrow> uint64 list \<times> 'm \<times> replay_state" where
  "replay_node_price m st =
     (case entry_next NodePrice (rp_iter st) of
        (Inl e, it) \<Rightarrow> (ret_i64 0, m, st\<lparr>rp_iter := it, rp_err := Some e\<rparr>)
      | (Inr (_, payload), it) \<Rightarrow>
        if length payload \<noteq> 8
        then (ret_i64 0, m, st\<lparr>rp_iter := it, rp_err := Some (payload_length_error ''node_price'' payload 8)\<rparr>)
        else (ret_i64 (get_u64 payload), m, st\<lparr>rp_iter := it\<rparr>))"

abbreviation payReplayErr :: int32 where "payReplayErr \<equiv> -6"

definition replay_wallet_pay :: "'m guest \<Rightarrow> uint32 \<Rightarrow> uint32 \<Rightarrow> 'm \<Rightarrow> replay_state \<Rightarrow> uint64 list \<times> 'm \<times> replay_state" where
  "replay_wallet_pay G receiptPtr receiptCap m st =
     (case entry_next WalletPay (rp_iter st) of
        (Inl e, it) \<Rightarrow> (ret_i32 payReplayErr, m, st\<lparr>rp_iter := it, rp_err := Some e\<rparr>)
      | (Inr (_, payload), it) \<Rightarrow>
        if length payload < 8
        then (ret_i32 payReplayErr, m, st\<lparr>rp_iter := it,
                rp_err := Some (NewError (''wallet_pay payload too short: '' @ dec_nat (length payload)))\<rparr>)
        else let receipt = drop 8 payload;
                 needed = (of_nat (4 + length receipt) :: uint32)
          in if needed > receiptCap
             then (ret_i32 (-5),
                   if receiptCap \<ge> 4 then (case g_write G receiptPtr (put_u32 (len_u32 receipt)) m of None \<Rightarrow> m | Some m \<Rightarrow> m) else m,
                   st\<lparr>rp_iter := it\<rparr>)
             else case g_write G receiptPtr (to_array (unat needed) (put_u32 (len_u32 receipt) @ receipt)) m of
               None \<Rightarrow> (ret_i32 payReplayErr, m, st\<lparr>rp_iter := it, rp_err := Some (NewError ''wallet_pay memory write failed'')\<rparr>)
             | Some m \<Rightarrow> (ret_i32 needed, m, st\<lparr>rp_iter := it\<rparr>))"

text \<open>The replay module; the payment function captures no configuration, and there is no HTTP function.\<close>

definition registerReplayHostModule :: "unit result \<Rightarrow> CapabilityManifest option \<Rightarrow> host_module option result" where
  "registerReplayHostModule instantiate m =
     (let md = \<lparr>hm_clock = Has m ''clock'', hm_rand = Has m ''rand'', hm_log = Has m ''log'',
                hm_wallet = Has m ''wallet'', hm_pricing = Has m ''pricing'', hm_http = None,
                hm_pay = (if Has m ''x402'' then Some \<lparr>py_allowedRecipients = [], py_maxPayment = 0\<rparr> else None)\<rparr>
      in if md = empty_module then Inr None else bindR instantiate (\<lambda>_. Inr (Some md)))"

definition replay_host :: "'m guest \<Rightarrow> host_module option \<Rightarrow> ('m, replay_state) host" where
  "replay_host G md rq m st =
     (if \<not> exports md rq then None
      else case rq of
          ReqClockNow \<Rightarrow> Some (replay_clock_now m st)
        | ReqRandBytes p n \<Rightarrow> Some (replay_rand_bytes G p n m st)
        | ReqLogEmit _ _ \<Rightarrow> Some (replay_log_emit m st)
        | ReqWalletBalance \<Rightarrow> Some (replay_wallet_balance m st)
        | ReqWalletReceiptCount \<Rightarrow> Some (replay_wallet_receipt_count m st)
        | ReqWalletReceipt _ p n \<Rightarrow> Some (replay_wallet_receipt G p n m st)
        | ReqNodePrice \<Rightarrow> Some (replay_node_price m st)
        | ReqHTTP _ _ _ _ _ \<Rightarrow> None
        | ReqWalletPay _ _ _ c \<Rightarrow> Some (replay_wallet_pay G (fst c) (snd c) m st))"

section \<open>Replaying one tick\<close>

record Result =
  rr_Verified :: bool
  rr_TickNumber :: uint64
  rr_ReplayedState :: bytes
  rr_ExpectedState :: "bytes option"
  rr_FirstDiffByte :: int
  rr_Error :: "go_error option"

fun diff_loop :: "nat \<Rightarrow> nat \<Rightarrow> bytes \<Rightarrow> bytes \<Rightarrow> nat option" where
  "diff_loop i 0 a b = None"
| "diff_loop i (Suc n) a b = (if a ! i \<noteq> b ! i then Some i else diff_loop (Suc i) n a b)"

definition firstDiff :: "bytes \<Rightarrow> bytes \<Rightarrow> int" where
  "firstDiff a b =
     (let n = (if length b < length a then length b else length a)
      in case diff_loop 0 n a b of
           Some i \<Rightarrow> int i
         | None \<Rightarrow> if length a \<noteq> length b then int n else -1)"

text \<open>The call of \<open>_initialize\<close> that both replays make.\<close>

definition run_initialize :: "nat \<Rightarrow> 'm guest \<Rightarrow> ('m, 'h) host \<Rightarrow> 'm \<Rightarrow> 'h \<Rightarrow> uint64 list result \<times> 'm \<times> 'h" where
  "run_initialize fuel G H m h =
     (if g_exported G m ''_initialize'' then call_fn fuel G H ''_initialize'' [] m h else (Inr [], m, h))"

definition ReplayTick ::
    "nat \<Rightarrow> nat \<Rightarrow> 'm guest \<Rightarrow> unit result \<Rightarrow> 'm engine \<Rightarrow> bytes \<Rightarrow> CapabilityManifest option \<Rightarrow> bytes \<Rightarrow> TickLog \<Rightarrow>
     bytes option \<Rightarrow> Result" where
  "ReplayTick fuel tickFuel G wasi E wasmBytes capManifest state tickLog expectedState =
     (let result = \<lparr>rr_Verified = False, rr_TickNumber = tl_TickNumber tickLog, rr_ReplayedState = [],
                    rr_ExpectedState = expectedState, rr_FirstDiffByte = -1, rr_Error = None\<rparr>;
          failed = (\<lambda>e. result\<lparr>rr_Error := Some e\<rparr>)
      in case bindR (wrap_result ''replay: instantiate WASI'' wasi) (\<lambda>_.
              bindR (wrap_result ''replay: register host module''
                      (registerReplayHostModule (en_instantiateHost E) capManifest)) (\<lambda>md.
              bindR (wrap_result ''replay: compile WASM'' (en_compile E wasmBytes)) (\<lambda>_.
              bindR (wrap_result ''replay: instantiate module'' (en_instantiate E wasmBytes md ''replay'')) (\<lambda>mo.
              Inr (md, mo))))) of
           Inl e \<Rightarrow> failed e
         | Inr (md, mo) \<Rightarrow>
           let H = replay_host G md;
               st = \<lparr>rp_iter = \<lparr>it_entries = Entries tickLog, it_pos = 0\<rparr>, rp_err = None\<rparr>
           in case run_initialize fuel G H mo st of
                (Inl e, _, _) \<Rightarrow> failed (WrapError ''replay: _initialize'' e)
              | (Inr _, mo, st) \<Rightarrow>
              (case ResumeAgent fuel G H state mo st of
                (Inl e, _, _) \<Rightarrow> failed (WrapError ''replay: resume'' e)
              | (Inr _, mo, st) \<Rightarrow>
                if \<not> g_exported G mo ''agent_tick'' then failed (NewError ''replay: agent_tick not exported'')
                else case call_fn tickFuel G H ''agent_tick'' [] mo st of
                  (Inl e, _, _) \<Rightarrow> failed (WrapError ''replay: agent_tick'' e)
                | (Inr _, mo, st) \<Rightarrow>
                  (case rp_err st of
                     Some e \<Rightarrow> failed (WrapError ''replay: hostcall error'' e)
                   | None \<Rightarrow>
                     if remaining (rp_iter st) > 0
                     then failed (NewError (''replay: '' @ dec_int (remaining (rp_iter st)) @ '' unconsumed event log entries''))
                     else case CaptureState fuel G H mo st of
                       (Inl e, _, _) \<Rightarrow> failed (WrapError ''replay: checkpoint'' e)
                     | (Inr replayedState, _, _) \<Rightarrow>
                       let result = result\<lparr>rr_ReplayedState := replayedState\<rparr>
                       in case expectedState of
                            None \<Rightarrow> result
                          | Some expected \<Rightarrow>
                            if replayedState = expected then result\<lparr>rr_Verified := True\<rparr>
                            else result\<lparr>rr_FirstDiffByte := firstDiff replayedState expected\<rparr>)))"


section \<open>Replaying a chain of ticks\<close>

text \<open>The holder's iterator is a nil pointer until the first tick; a host call before that is a nil
  dereference, which the engine turns into a failed call (\<open>None\<close>).\<close>

record chain_state =
  ch_iter :: "entryIterator option"
  ch_err :: "go_error option"

definition chain_next :: "HostcallID \<Rightarrow> chain_state \<Rightarrow> (Entry result \<times> chain_state) option" where
  "chain_next expectedID c =
     (case ch_iter c of
        None \<Rightarrow> None
      | Some it \<Rightarrow> (case entry_next expectedID it of (r, it) \<Rightarrow> Some (r, c\<lparr>ch_iter := Some it\<rparr>)))"

definition chain_clock_now :: "'m \<Rightarrow> chain_state \<Rightarrow> (uint64 list \<times> 'm \<times> chain_state) option" where
  "chain_clock_now m c =
     (case chain_next ClockNow c of
        None \<Rightarrow> None
      | Some (Inl e, c) \<Rightarrow> Some (ret_i64 0, m, c\<lparr>ch_err := Some e\<rparr>)
      | Some (Inr (_, payload), c) \<Rightarrow>
        if length payload \<noteq> 8 then Some (ret_i64 0, m, c\<lparr>ch_err := Some (payload_length_error ''clock_now'' payload 8)\<rparr>)
        else Some (ret_i64 (get_u64 payload), m, c))"

definition chain_rand_bytes :: "'m guest \<Rightarrow> uint32 \<Rightarrow> uint32 \<Rightarrow> 'm \<Rightarrow> chain_state \<Rightarrow> (uint64 list \<times> 'm \<times> chain_state) option" where
  "chain_rand_bytes G ptr len m c =
     (case chain_next RandBytes c of
        None \<Rightarrow> None
      | Some (Inl e, c) \<Rightarrow> Some (ret_i32 (-1), m, c\<lparr>ch_err := Some e\<rparr>)
      | Some (Inr (_, payload), c) \<Rightarrow>
        if len_u32 payload \<noteq> len
        then Some (ret_i32 (-1), m, c\<lparr>ch_err := Some (payload_length_error ''rand_bytes'' payload (unat len))\<rparr>)
        else case g_write G ptr payload m of
          None \<Rightarrow> Some (ret_i32 (-4), m, c\<lparr>ch_err := Some (NewError ''rand_bytes memory write failed'')\<rparr>)
        | Some m \<Rightarrow> Some (ret_i32 0, m, c))"

definition chain_log_emit :: "'m \<Rightarrow> chain_state \<Rightarrow> (uint64 list \<times> 'm \<times> chain_state) option" where
  "chain_log_emit m c =
     (case chain_next LogEmit c of
        None \<Rightarrow> None
      | Some (Inl e, c) \<Rightarrow> Some ([], m, c\<lparr>ch_err := Some e\<rparr>)
      | Some (Inr _, c) \<Rightarrow> Some ([], m, c))"

definition chain_wallet_balance :: "'m \<Rightarrow> chain_state \<Rightarrow> (uint64 list \<times> 'm \<times> chain_state) option" where
  "chain_wallet_balance m c =
     (case chain_next WalletBalance c of
        None \<Rightarrow> None
      | Some (Inl e, c) \<Rightarrow> Some (ret_i64 0, m, c\<lparr>ch_err := Some e\<rparr>)
      | Some (Inr (_, payload), c) \<Rightarrow>
        if length payload \<noteq> 8 then Some (ret_i64 0, m, c\<lparr>ch_err := Some (payload_length_error ''wallet_balance'' payload 8)\<rparr>)
        else Some (ret_i64 (get_u64 payload), m, c))"

definition chain_wallet_receipt_count :: "'m \<Rightarrow> chain_state \<Rightarrow> (uint64 list \<times> 'm \<times> chain_state) option" where
  "chain_wallet_receipt_count m c =
     (case chain_next WalletReceiptCount c of
        None \<Rightarrow> None
      | Some (Inl e, c) \<Rightarrow> Some (ret_i32 0, m, c\<lparr>ch_err := Some e\<rparr>)
      | Some (Inr (_, payload), c) \<Rightarrow>
        if length payload \<noteq> 4
        then Some (ret_i32 0, m, c\<lparr>ch_err := Some (payload_length_error ''wallet_receipt_count'' payload 4)\<rparr>)
        else Some (ret_i32 (get_u32 payload), m, c))"

definition chain_wallet_receipt :: "'m guest \<Rightarrow> uint32 \<Rightarrow> uint32 \<Rightarrow> 'm \<Rightarrow> chain_state \<Rightarrow> (uint64 list \<times> 'm \<times> chain_state) option" where
  "chain_wallet_receipt G ptr len m c =
     (case chain_next WalletReceipt c of
        None \<Rightarrow> None
      | Some (Inl e, c) \<Rightarrow> Some (ret_i32 (-1), m, c\<lparr>ch_err := Some e\<rparr>)
      | Some (Inr (_, payload), c) \<Rightarrow>
        if len_u32 payload > len
        then Some (ret_i32 (-4), m, c\<lparr>ch_err := Some (NewError (''wallet_receipt payload '' @
               dec_nat (length payload) @ '' exceeds buffer '' @ dec_nat (unat len)))\<rparr>)
        else case g_write G ptr payload m of
          None \<Rightarrow> Some (ret_i32 (-4), m, c\<lparr>ch_err := Some (NewError ''wallet_receipt memory write failed'')\<rparr>)
        | Some m \<Rightarrow> Some (ret_i32 (len_u32 payload), m, c))"

definition chain_node_price :: "'m \<Rightarrow> chain_state \<Rightarrow> (uint64 list \<times> 'm \<times> chain_state) option" where
  "chain_node_price m c =
     (case chain_next NodePrice c of
        None \<Rightarrow> None
      | Some (Inl e, c) \<Rightarrow> Some (ret_i64 0, m, c\<lparr>ch_err := Some e\<rparr>)
      | Some (Inr (_, payload), c) \<Rightarrow>
        if length payload \<noteq> 8 then Some (ret_i64 0, m, c\<lparr>ch_err := Some (payload_length_error ''node_price'' payload 8)\<rparr>)
        else Some (ret_i64 (get_u64 payload), m, c))"

definition chain_wallet_pay :: "'m guest \<Rightarrow> uint32 \<Rightarrow> uint32 \<Rightarrow> 'm \<Rightarrow> chain_state \<Rightarrow> (uint64 list \<times> 'm \<times> chain_state) option" where
  "chain_wallet_pay G receiptPtr receiptCap m c =
     (case chain_next WalletPay c of
        None \<Rightarrow> None
      | Some (Inl e, c) \<Rightarrow> Some (ret_i32 payReplayErr, m, c\<lparr>ch_err := Some e\<rparr>)
      | Some (Inr (_, payload), c) \<Rightarrow>
        if length payload < 8
        then Some (ret_i32 payReplayErr, m,
               c\<lparr>ch_err := Some (NewError (''wallet_pay payload too short: '' @ dec_nat (length payload)))\<rparr>)
        else let receipt = drop 8 payload;
                 needed = (of_nat (4 + length receipt) :: uint32)
          in if needed > receiptCap
             then Some (ret_i32 (-5),
                   if receiptCap \<ge> 4 then (case g_write G receiptPtr (put_u32 (len_u32 receipt)) m of None \<Rightarrow> m | Some m \<Rightarrow> m) else m,
                   c)
             else case g_write G receiptPtr (to_array (unat needed) (put_u32 (len_u32 receipt) @ receipt)) m of
               None \<Rightarrow> Some (ret_i32 payReplayErr, m, c\<lparr>ch_err := Some (NewError ''wallet_pay memory write failed'')\<rparr>)
             | Some m \<Rightarrow> Some (ret_i32 needed, m, c))"

definition registerChainReplayHostModule :: "unit result \<Rightarrow> CapabilityManifest option \<Rightarrow> host_module option result" where
  "registerChainReplayHostModule instantiate m =
     (let md = \<lparr>hm_clock = Has m ''clock'', hm_rand = Has m ''rand'', hm_log = Has m ''log'',
                hm_wallet = Has m ''wallet'', hm_pricing = Has m ''pricing'', hm_http = None,
                hm_pay = (if Has m ''x402'' then Some \<lparr>py_allowedRecipients = [], py_maxPayment = 0\<rparr> else None)\<rparr>
      in if md = empty_module then Inr None else bindR instantiate (\<lambda>_. Inr (Some md)))"

definition chain_host :: "'m guest \<Rightarrow> host_module option \<Rightarrow> ('m, chain_state) host" where
  "chain_host G md rq m c =
     (if \<not> exports md rq then None
      else case rq of
          ReqClockNow \<Rightarrow> chain_clock_now m c
        | ReqRandBytes p n \<Rightarrow> chain_rand_bytes G p n m c
        | ReqLogEmit _ _ \<Rightarrow> chain_log_emit m c
        | ReqWalletBalance \<Rightarrow> chain_wallet_balance m c
        | ReqWalletReceiptCount \<Rightarrow> chain_wallet_receipt_count m c
        | ReqWalletReceipt _ p n \<Rightarrow> chain_wallet_receipt G p n m c
        | ReqNodePrice \<Rightarrow> chain_node_price m c
        | ReqHTTP _ _ _ _ _ \<Rightarrow> None
        | ReqWalletPay _ _ _ x \<Rightarrow> chain_wallet_pay G (fst x) (snd x) m c)"

record ChainSnapshot =
  cs_TickNumber :: uint64
  cs_TickLog :: "TickLog option"

record ChainResult =
  cr_Verified :: bool
  cr_TicksReplayed :: nat
  cr_FirstTick :: uint64
  cr_LastTick :: uint64
  cr_FinalReplayedState :: bytes
  cr_ExpectedFinalHash :: bytes
  cr_Error :: "go_error option"
  cr_FailedAtTick :: uint64

text \<open>The loop over the snapshots: the module and holder after the last tick, or the failed tick with its error.
  The first argument counts the ticks replayed so far.\<close>

fun chain_loop ::
    "nat \<Rightarrow> nat \<Rightarrow> 'm guest \<Rightarrow> ('m, chain_state) host \<Rightarrow> 'm \<Rightarrow> chain_state \<Rightarrow> ChainSnapshot list \<Rightarrow>
     nat \<times> (uint64 \<times> go_error + 'm \<times> chain_state)" where
  "chain_loop i tickFuel G H m c [] = (i, Inr (m, c))"
| "chain_loop i tickFuel G H m c (snap # snaps) =
     (let it = (case cs_TickLog snap of None \<Rightarrow> \<lparr>it_entries = [], it_pos = 0\<rparr>
                | Some tk \<Rightarrow> \<lparr>it_entries = Entries tk, it_pos = 0\<rparr>);
          tick = dec_nat (unat (cs_TickNumber snap));
          failed = (\<lambda>e. (i, Inl (cs_TickNumber snap, e)))
      in case call_fn tickFuel G H ''agent_tick'' [] m \<lparr>ch_iter = Some it, ch_err = None\<rparr> of
           (Inl e, _, _) \<Rightarrow> failed (WrapError (''replay chain: tick '' @ tick) e)
         | (Inr _, m, c) \<Rightarrow>
           (case ch_err c of
              Some e \<Rightarrow> failed (WrapError (''replay chain: tick '' @ tick @ '' hostcall'') e)
            | None \<Rightarrow>
              let left = (case ch_iter c of None \<Rightarrow> 0 | Some it \<Rightarrow> remaining it)
              in if left > 0
                 then failed (NewError (''replay chain: tick '' @ tick @ '': '' @ dec_int left @ '' unconsumed entries''))
                 else chain_loop (Suc i) tickFuel G H m c snaps))"

definition ReplayChain ::
    "nat \<Rightarrow> nat \<Rightarrow> 'm guest \<Rightarrow> crypto \<Rightarrow> unit result \<Rightarrow> 'm engine \<Rightarrow> bytes \<Rightarrow> CapabilityManifest option \<Rightarrow> bytes \<Rightarrow>
     ChainSnapshot list \<Rightarrow> bytes \<Rightarrow> ChainResult" where
  "ReplayChain fuel tickFuel G C wasi E wasmBytes capManifest initialState snapshots expectedFinalHash =
     (let result = \<lparr>cr_Verified = False, cr_TicksReplayed = 0, cr_FirstTick = 0, cr_LastTick = 0,
                    cr_FinalReplayedState = [], cr_ExpectedFinalHash = expectedFinalHash, cr_Error = None, cr_FailedAtTick = 0\<rparr>
      in if length snapshots = 0 then result\<lparr>cr_Error := Some (NewError ''replay chain: no snapshots provided'')\<rparr>
      else
        let result = result\<lparr>cr_FirstTick := cs_TickNumber (hd snapshots), cr_LastTick := cs_TickNumber (last snapshots)\<rparr>;
            failed = (\<lambda>e. result\<lparr>cr_Error := Some e\<rparr>)
        in case bindR (wrap_result ''replay chain: instantiate WASI'' wasi) (\<lambda>_.
                bindR (wrap_result ''replay chain: register host module''
                        (registerChainReplayHostModule (en_instantiateHost E) capManifest)) (\<lambda>md.
                bindR (wrap_result ''replay chain: compile'' (en_compile E wasmBytes)) (\<lambda>_.
                bindR (wrap_result ''replay chain: instantiate'' (en_instantiate E wasmBytes md ''replay-chain'')) (\<lambda>mo.
                Inr (md, mo))))) of
             Inl e \<Rightarrow> failed e
           | Inr (md, mo) \<Rightarrow>
             let H = chain_host G md
             in case run_initialize fuel G H mo \<lparr>ch_iter = None, ch_err = None\<rparr> of
                  (Inl e, _, _) \<Rightarrow> failed (WrapError ''replay chain: _initialize'' e)
                | (Inr _, mo, c) \<Rightarrow>
                (case ResumeAgent fuel G H initialState mo c of
                  (Inl e, _, _) \<Rightarrow> failed (WrapError ''replay chain: initial resume'' e)
                | (Inr _, mo, c) \<Rightarrow>
                  if \<not> g_exported G mo ''agent_tick'' then failed (NewError ''replay chain: agent_tick not exported'')
                  else case chain_loop 0 tickFuel G H mo c snapshots of
                    (n, Inl (tick, e)) \<Rightarrow> result\<lparr>cr_TicksReplayed := n, cr_Error := Some e, cr_FailedAtTick := tick\<rparr>
                  | (n, Inr (mo, c)) \<Rightarrow>
                    (case CaptureState fuel G H mo c of
                       (Inl e, _, _) \<Rightarrow> result\<lparr>cr_TicksReplayed := n, cr_Error := Some (WrapError ''replay chain: final checkpoint'' e)\<rparr>
                     | (Inr finalState, _, _) \<Rightarrow>
                       result\<lparr>cr_TicksReplayed := n, cr_FinalReplayedState := finalState,
                              cr_Verified := (Sum256 C finalState = expectedFinalHash)\<rparr>)))"

end
