(* ===== verification/Migration.thy ===== *)
theory Migration
  imports Replay
begin

text \<open>
  Agent migration (\<open>internal/migration\<close>, \<open>pkg/protocol\<close>): packaging an agent, sending it to a peer with
  retries and fallbacks, finishing or reverting the handoff, and the handler that receives an agent.  Instances are
  shared by pointer between the service and the caller, and \<open>finalizeMigration\<close> compares pointers, so a node
  keeps its instances in a heap (a list, a pointer is an index) and its active agents as a map from
  agent IDs to pointers.  What the network and the peer do with one transfer is a \<open>transfer_outcome\<close>; the
  JSON codec is the identity on packages.  Log lines, metrics and closing of modules are left out.
\<close>

section \<open>Messages\<close>

record ReplayEntry =
  re_HostcallID :: uint16
  re_Payload :: bytes

record ReplayData =
  rd_PreTickState :: bytes
  rd_TickNumber :: uint64
  rd_Entries :: "ReplayEntry list"

record AgentPackage =
  pk_AgentID :: string
  pk_WASMBinary :: bytes
  pk_WASMHash :: bytes
  pk_Checkpoint :: bytes
  pk_ManifestData :: bytes
  pk_Budget :: int64
  pk_PricePerSecond :: int64
  pk_ReplayData :: "ReplayData option"
  pk_Receipts :: bytes
  pk_MajorVersion :: uint64
  pk_LeaseGeneration :: uint64
  pk_AgentIdentity :: bytes

record AgentTransfer =
  tr_Package :: AgentPackage
  tr_SourceNodeID :: string

record AgentStarted =
  as_AgentID :: string
  as_NodeID :: string
  as_Success :: bool
  as_Error :: string

section \<open>Replay data\<close>

definition replayDataFromInstance :: "crypto \<Rightarrow> 'm Instance \<Rightarrow> bytes \<Rightarrow> ReplayData option" where
  "replayDataFromInstance C inst checkpoint =
     (case LatestSnapshot inst of
        None \<Rightarrow> None
      | Some snap \<Rightarrow>
        (case sn_TickLog snap of
           None \<Rightarrow> None
         | Some tk \<Rightarrow>
           (case ExtractAgentState checkpoint of
              Inl _ \<Rightarrow> None
            | Inr storedState \<Rightarrow>
              if Sum256 C storedState \<noteq> sn_PostStateHash snap then None
              else Some \<lparr>rd_PreTickState = sn_PreState snap, rd_TickNumber = tl_TickNumber tk,
                         rd_Entries = map (\<lambda>(hid, p). \<lparr>re_HostcallID = hid, re_Payload = p\<rparr>) (Entries tk)\<rparr>)))"

definition toTickLog :: "ReplayData \<Rightarrow> TickLog" where
  "toTickLog rd =
     \<lparr>tl_TickNumber = rd_TickNumber rd, tl_refs = map (\<lambda>e. (re_HostcallID e, HeapRef (re_Payload e))) (rd_Entries rd),
      tl_arena = [], tl_offset = 0\<rparr>"

section \<open>Retry policy\<close>

record RetryConfig =
  rt_MaxAttempts :: int
  rt_InitialDelay :: int64
  rt_MaxDelay :: int64
  rt_BackoffFactor :: rat

definition DefaultRetryConfig :: RetryConfig where
  "DefaultRetryConfig = \<lparr>rt_MaxAttempts = 3, rt_InitialDelay = 1 * Second, rt_MaxDelay = 30 * Second, rt_BackoffFactor = 2\<rparr>"

abbreviation ErrTransferSent :: go_error where
  "ErrTransferSent \<equiv> Sentinel ''transfer sent but confirmation not received''"

definition str_contains :: "string \<Rightarrow> string \<Rightarrow> bool" where
  "str_contains s sub = list_ex (\<lambda>i. take (length sub) (drop i s) = sub) [0..<Suc (length s)]"

abbreviation fatalPrefixes :: "string list" where
  "fatalPrefixes \<equiv> [''WASM hash'', ''WASM binary hash mismatch'', ''capability check failed'',
     ''agent migration policy disabled'', ''lease handoff transition'']"

abbreviation target_failed :: string where "target_failed \<equiv> ''target failed to start agent: ''"

definition IsRetriable :: "go_error option \<Rightarrow> bool" where
  "IsRetriable err =
     (case err of
        None \<Rightarrow> False
      | Some e \<Rightarrow>
        if errors_is e ErrTransferSent then False
        else let msg = error_string e in
          if list_ex (str_contains msg) fatalPrefixes then False
          else if has_prefix msg target_failed \<and> list_ex (str_contains (drop (length target_failed) msg)) fatalPrefixes
          then False
          else True)"

definition IsAmbiguous :: "go_error option \<Rightarrow> bool" where
  "IsAmbiguous err = (case err of None \<Rightarrow> False | Some e \<Rightarrow> errors_is e ErrTransferSent)"

definition BackoffDelay :: "RetryConfig \<Rightarrow> nat \<Rightarrow> int64" where
  "BackoffDelay cfg attempt =
     (let delay = float64_mul (float64_round (of_int (sint (rt_InitialDelay cfg)))) (float64_round (rt_BackoffFactor cfg ^ attempt));
          limit = float64_round (of_int (sint (rt_MaxDelay cfg)));
          delay = (if delay > limit then limit else delay)
      in word_of_int (float64_trunc delay))"

section \<open>The service\<close>

text \<open>The fields of \<open>Service\<close> that are set once, and the node's changing state.  \<open>ms_hostKey\<close> is what the peer store
  returns for the host's own key.\<close>

record ('m, 's, 'a) Service =
  ms_system :: "('m, 's, 'a) system"
  ms_engine :: "'m engine"
  ms_wasi :: "unit result"
  ms_decode :: "bytes \<Rightarrow> manifestJSON result"
  ms_decodeCaps :: "bytes \<Rightarrow> CapabilityManifest result"
  ms_readFile :: "string \<Rightarrow> bytes result"
  ms_replayMode :: string
  ms_pricePerSecond :: int64
  ms_leaseConfig :: LeaseConfig
  ms_hostKey :: "bytes result option"
  ms_nodeID :: string

record ('m, 's, 'a) node =
  nd_heap :: "'m Instance list"
  nd_active :: "(string \<times> nat) list"
  nd_nodeCapabilities :: "string list option"
  nd_world :: "('s, 'a) world"

abbreviation ms_storage :: "('m, 's, 'a) Service \<Rightarrow> 's provider" where
  "ms_storage sv \<equiv> sy_storage (ms_system sv)"

definition with_store :: "('s \<Rightarrow> 'r \<times> 's) \<Rightarrow> ('m, 's, 'a) node \<Rightarrow> 'r \<times> ('m, 's, 'a) node" where
  "with_store f nd =
     (case f (wo_store (nd_world nd)) of (r, s) \<Rightarrow> (r, nd\<lparr>nd_world := (nd_world nd)\<lparr>wo_store := s\<rparr>\<rparr>))"

definition signingKey :: "('m, 's, 'a) Service \<Rightarrow> bytes option" where
  "signingKey sv =
     (case ms_hostKey sv of
        None \<Rightarrow> None
      | Some (Inl _) \<Rightarrow> None
      | Some (Inr raw) \<Rightarrow> if length raw \<noteq> PrivateKeySize then None else Some raw)"

definition GetActiveInstance :: "string \<Rightarrow> ('m, 's, 'a) node \<Rightarrow> nat option" where
  "GetActiveInstance agentID nd = map_of (nd_active nd) agentID"

definition GetActiveAgents :: "('m, 's, 'a) node \<Rightarrow> string list" where
  "GetActiveAgents nd = map fst (nd_active nd)"

definition RegisterAgent :: "string \<Rightarrow> nat \<Rightarrow> ('m, 's, 'a) node \<Rightarrow> ('m, 's, 'a) node" where
  "RegisterAgent agentID p nd = nd\<lparr>nd_active := AList.update agentID p (nd_active nd)\<rparr>"

definition SetNodeCapabilities :: "string list option \<Rightarrow> ('m, 's, 'a) node \<Rightarrow> ('m, 's, 'a) node" where
  "SetNodeCapabilities caps nd = nd\<lparr>nd_nodeCapabilities := caps\<rparr>"

definition getLease :: "nat \<Rightarrow> ('m, 's, 'a) node \<Rightarrow> Lease option" where
  "getLease p nd = in_Lease (nd_heap nd ! p)"

definition setLease :: "nat \<Rightarrow> Lease \<Rightarrow> ('m, 's, 'a) node \<Rightarrow> ('m, 's, 'a) node" where
  "setLease p l nd = nd\<lparr>nd_heap := (nd_heap nd)[p := (nd_heap nd ! p)\<lparr>in_Lease := Some l\<rparr>]\<rparr>"

definition buildMigrationPackage ::
    "('m, 's, 'a) Service \<Rightarrow> string \<Rightarrow> string \<Rightarrow> ('m, 's, 'a) node \<Rightarrow> (AgentPackage \<times> nat option) result \<times> ('m, 's, 'a) node" where
  "buildMigrationPackage sv agentID wasmPath nd =
     (case wrap_result ''failed to read WASM binary'' (ms_readFile sv wasmPath) of
        Inl e \<Rightarrow> (Inl e, nd)
      | Inr wasmBinary \<Rightarrow>
        let manifestData = LoadSidecarData (ms_readFile sv) wasmPath ''''
        in case with_store (pv_LoadCheckpoint (ms_storage sv) agentID) nd of
             (Inl e, nd) \<Rightarrow> (Inl (WrapError ''failed to load checkpoint'' e), nd)
           | (Inr checkpoint, nd) \<Rightarrow>
             let (budgetVal, pricePerSecond, epoch) =
                   (case ParseCheckpointHeader checkpoint of
                      Inl _ \<Rightarrow> (0, 0, Epoch 0 0)
                    | Inr (hdr, _) \<Rightarrow> (hd_Budget hdr, hd_PricePerSecond hdr,
                        Epoch (ep_MajorVersion (hd_Epoch hdr)) (ep_LeaseGeneration (hd_Epoch hdr))));
                 (r, nd) = with_store (pv_LoadReceipts (ms_storage sv) agentID) nd;
                 pkg = \<lparr>pk_AgentID = agentID, pk_WASMBinary = wasmBinary, pk_WASMHash = Sum256 (sy_crypto (ms_system sv)) wasmBinary,
                        pk_Checkpoint = checkpoint, pk_ManifestData = manifestData, pk_Budget = budgetVal,
                        pk_PricePerSecond = pricePerSecond, pk_ReplayData = None,
                        pk_Receipts = (case r of Inl _ \<Rightarrow> [] | Inr d \<Rightarrow> d),
                        pk_MajorVersion = MajorVersion epoch, pk_LeaseGeneration = LeaseGeneration epoch, pk_AgentIdentity = []\<rparr>;
                 localInstance = GetActiveInstance agentID nd
             in (Inr (case localInstance of
                        None \<Rightarrow> pkg
                      | Some p \<Rightarrow>
                        pkg\<lparr>pk_ReplayData := replayDataFromInstance (sy_crypto (ms_system sv)) (nd_heap nd ! p) checkpoint,
                            pk_AgentIdentity := (case in_AgentIdentity (nd_heap nd ! p) of
                               None \<Rightarrow> [] | Some a \<Rightarrow> identity_MarshalBinary a)\<rparr>, localInstance), nd))"

text \<open>What becomes of one transfer.\<close>

datatype transfer_outcome =
    BadAddress go_error
  | BadPeerInfo go_error
  | ConnectFailed go_error
  | StreamFailed go_error
  | SendFailed go_error
  | NoConfirmation
  | Confirmed AgentStarted

fun migrateToTarget :: "transfer_outcome \<Rightarrow> unit result" where
  "migrateToTarget (BadAddress e) = Inl (WrapError ''invalid target address'' e)"
| "migrateToTarget (BadPeerInfo e) = Inl (WrapError ''failed to extract peer info'' e)"
| "migrateToTarget (ConnectFailed e) = Inl (WrapError ''failed to connect to target peer'' e)"
| "migrateToTarget (StreamFailed e) = Inl (WrapError ''failed to open migration stream'' e)"
| "migrateToTarget (SendFailed e) = Inl (WrapError ''failed to send transfer'' e)"
| "migrateToTarget NoConfirmation = Inl (WrapError ''failed to read confirmation'' ErrTransferSent)"
| "migrateToTarget (Confirmed started) =
     (if \<not> as_Success started then Inl (NewError (target_failed @ as_Error started)) else Inr ())"

definition cleanupLocalAgent :: "('m, 's, 'a) Service \<Rightarrow> string \<Rightarrow> ('m, 's, 'a) node \<Rightarrow> unit result \<times> ('m, 's, 'a) node" where
  "cleanupLocalAgent sv agentID nd =
     (case with_store (pv_DeleteCheckpoint (ms_storage sv) agentID) nd of
        (Inl e, nd) \<Rightarrow> (Inl (WrapError ''migration succeeded but failed to delete local checkpoint'' e), nd)
      | (Inr _, nd) \<Rightarrow>
        let nd = snd (with_store (pv_DeleteReceipts (ms_storage sv) agentID) nd);
            nd = snd (with_store (pv_DeleteIdentity (ms_storage sv) agentID) nd)
        in (Inr (), nd))"

definition finalizeMigration :: "('m, 's, 'a) Service \<Rightarrow> string \<Rightarrow> nat option \<Rightarrow> ('m, 's, 'a) node \<Rightarrow> ('m, 's, 'a) node" where
  "finalizeMigration sv agentID localInstance nd =
     (let nd = (case localInstance of
                  None \<Rightarrow> nd
                | Some p \<Rightarrow> (case getLease p nd of None \<Rightarrow> nd | Some l \<Rightarrow> setLease p (snd (TransitionToRetired l)) nd));
          nd = (if localInstance \<noteq> None \<and> GetActiveInstance agentID nd = localInstance
                then nd\<lparr>nd_active := AList.delete agentID (nd_active nd)\<rparr> else nd)
      in snd (cleanupLocalAgent sv agentID nd))"

definition revertHandoff :: "string \<Rightarrow> ('m, 's, 'a) node \<Rightarrow> ('m, 's, 'a) node" where
  "revertHandoff agentID nd =
     (case GetActiveInstance agentID nd of
        None \<Rightarrow> nd
      | Some p \<Rightarrow> (case getLease p nd of None \<Rightarrow> nd | Some l \<Rightarrow> setLease p (snd (RevertHandoff l)) nd))"

text \<open>The first step of both migrations: the local lease, if there is one, goes to \<open>HANDOFF_INITIATED\<close>.\<close>

definition initiate_handoff :: "string \<Rightarrow> ('m, 's, 'a) node \<Rightarrow> unit result \<times> ('m, 's, 'a) node" where
  "initiate_handoff agentID nd =
     (case GetActiveInstance agentID nd of
        None \<Rightarrow> (Inr (), nd)
      | Some p \<Rightarrow>
        (case getLease p nd of
           None \<Rightarrow> (Inr (), nd)
         | Some l \<Rightarrow>
           (case TransitionToHandoff l of
              (Some e, l') \<Rightarrow> (Inl (WrapError ''lease handoff transition'' e), setLease p l' nd)
            | (None, l') \<Rightarrow> (Inr (), setLease p l' nd))))"

type_synonym transfers = "string \<Rightarrow> nat \<Rightarrow> AgentPackage \<Rightarrow> transfer_outcome"

definition MigrateAgent ::
    "('m, 's, 'a) Service \<Rightarrow> transfers \<Rightarrow> string \<Rightarrow> string \<Rightarrow> string \<Rightarrow> ('m, 's, 'a) node \<Rightarrow> unit result \<times> ('m, 's, 'a) node" where
  "MigrateAgent sv net agentID wasmPath targetPeerAddr nd =
     (case initiate_handoff agentID nd of
        (Inl e, nd) \<Rightarrow> (Inl e, nd)
      | (Inr _, nd) \<Rightarrow>
        (case buildMigrationPackage sv agentID wasmPath nd of
           (Inl e, nd) \<Rightarrow> (Inl e, nd)
         | (Inr (pkg, localInstance), nd) \<Rightarrow>
           (case migrateToTarget (net targetPeerAddr 0 pkg) of
              Inl e \<Rightarrow> (Inl e, nd)
            | Inr _ \<Rightarrow> (Inr (), finalizeMigration sv agentID localInstance nd))))"

text \<open>The inner loop over the attempts for one target, with the attempts made so far.  \<open>cancelled target attempt\<close> says
  whether the context is done before the backoff delay after that attempt has passed.\<close>

datatype attempt_end = Migrated | Ambiguous go_error | GivenUp | ContextDone

fun try_target ::
    "(string \<Rightarrow> nat \<Rightarrow> transfer_outcome) \<Rightarrow> (string \<Rightarrow> nat \<Rightarrow> bool) \<Rightarrow> int \<Rightarrow> string \<Rightarrow> nat \<Rightarrow> nat \<Rightarrow> attempt_end \<times> (string \<times> nat) list" where
  "try_target net cancelled maxAttempts target attempt 0 = (GivenUp, [])"
| "try_target net cancelled maxAttempts target attempt (Suc n) =
     (case migrateToTarget (net target attempt) of
        Inr _ \<Rightarrow> (Migrated, [(target, attempt)])
      | Inl migrateErr \<Rightarrow>
        if IsAmbiguous (Some migrateErr) then (Ambiguous migrateErr, [(target, attempt)])
        else if \<not> IsRetriable (Some migrateErr) then (GivenUp, [(target, attempt)])
        else if int attempt < maxAttempts - 1 \<and> cancelled target attempt then (ContextDone, [(target, attempt)])
        else case try_target net cancelled maxAttempts target (Suc attempt) n of
               (r, made) \<Rightarrow> (r, (target, attempt) # made))"

fun try_targets ::
    "(string \<Rightarrow> nat \<Rightarrow> transfer_outcome) \<Rightarrow> (string \<Rightarrow> nat \<Rightarrow> bool) \<Rightarrow> int \<Rightarrow> string list \<Rightarrow> (attempt_end \<times> string) \<times> (string \<times> nat) list" where
  "try_targets net cancelled maxAttempts [] = ((GivenUp, ''''), [])"
| "try_targets net cancelled maxAttempts (target # targets) =
     (case try_target net cancelled maxAttempts target 0 (nat maxAttempts) of
        (GivenUp, made) \<Rightarrow>
          (case try_targets net cancelled maxAttempts targets of (r, made') \<Rightarrow> (r, made @ made'))
      | (r, made) \<Rightarrow> ((r, target), made))"

definition target_list :: "string \<Rightarrow> string list \<Rightarrow> string list" where
  "target_list primaryTarget candidates =
     (if primaryTarget \<noteq> '''' then [primaryTarget] else []) @ filter (\<lambda>c. c \<noteq> primaryTarget) candidates"

abbreviation ErrContextDone :: go_error where "ErrContextDone \<equiv> Sentinel ''context canceled''"

definition MigrateAgentWithRetry ::
    "('m, 's, 'a) Service \<Rightarrow> transfers \<Rightarrow> (string \<Rightarrow> nat \<Rightarrow> bool) \<Rightarrow> string \<Rightarrow> string \<Rightarrow> string \<Rightarrow> string list \<Rightarrow> RetryConfig \<Rightarrow>
     ('m, 's, 'a) node \<Rightarrow> string result \<times> ('m, 's, 'a) node" where
  "MigrateAgentWithRetry sv net cancelled agentID wasmPath primaryTarget candidates retryCfg nd =
     (let li = GetActiveInstance agentID nd
      in case initiate_handoff agentID nd of
           (Inl e, nd) \<Rightarrow> (Inl e, nd)
         | (Inr _, nd) \<Rightarrow>
           (case buildMigrationPackage sv agentID wasmPath nd of
              (Inl e, nd) \<Rightarrow> (Inl e, revertHandoff agentID nd)
            | (Inr (pkg, localInstance), nd) \<Rightarrow>
              let targets = target_list primaryTarget candidates
              in if length targets = 0 then (Inl (NewError ''no migration targets available''), revertHandoff agentID nd)
              else case try_targets (\<lambda>t a. net t a pkg) cancelled (rt_MaxAttempts retryCfg) targets of
                ((Migrated, target), _) \<Rightarrow> (Inr target, finalizeMigration sv agentID localInstance nd)
              | ((Ambiguous migrateErr, _), _) \<Rightarrow>
                  (Inl (WrapError ''migration ambiguous (transfer sent, no confirmation)'' migrateErr),
                   case li of
                     None \<Rightarrow> nd
                   | Some p \<Rightarrow> (case getLease p nd of None \<Rightarrow> nd
                                | Some l \<Rightarrow> setLease p (l\<lparr>ls_State := StateRecoveryRequired\<rparr>) nd))
              | ((ContextDone, _), _) \<Rightarrow> (Inl ErrContextDone, revertHandoff agentID nd)
              | ((GivenUp, _), _) \<Rightarrow>
                  (Inl (NewError (''migration failed: all targets exhausted for agent '' @ agentID)), revertHandoff agentID nd)))"


section \<open>Receiving an agent\<close>

definition sendStartConfirmation :: "('m, 's, 'a) Service \<Rightarrow> string \<Rightarrow> bool \<Rightarrow> string \<Rightarrow> AgentStarted" where
  "sendStartConfirmation sv agentID success errorMsg =
     \<lparr>as_AgentID = agentID, as_NodeID = ms_nodeID sv, as_Success = success, as_Error = errorMsg\<rparr>"

definition restoreAgentIdentity ::
    "('m, 's, 'a) Service \<Rightarrow> AgentPackage \<Rightarrow> ('m, 's, 'a) node \<Rightarrow> AgentIdentity option result \<times> ('m, 's, 'a) node" where
  "restoreAgentIdentity sv pkg nd =
     (if length (pk_AgentIdentity pkg) = 0 then (Inr None, nd)
      else case identity_UnmarshalBinary (sy_crypto (ms_system sv)) (pk_AgentIdentity pkg) of
        Inl e \<Rightarrow> (Inl e, nd)
      | Inr agentIdent \<Rightarrow>
        (Inr (Some agentIdent), snd (with_store (pv_SaveIdentity (ms_storage sv) (pk_AgentID pkg) (pk_AgentIdentity pkg)) nd)))"

definition loadMigratedAgent ::
    "('m, 's, 'a) Service \<Rightarrow> AgentPackage \<Rightarrow> ('m, 's, 'a) node \<Rightarrow> 'm Instance result \<times> ('m, 's, 'a) node" where
  "loadMigratedAgent sv pkg nd =
     (case restoreAgentIdentity sv pkg nd of
        (Inl e, nd) \<Rightarrow> (Inl (WrapError ''invalid agent identity'' e), nd)
      | (Inr agentIdent, nd) \<Rightarrow>
        let S = ms_system sv;
            a = \<lparr>la_agentID = pk_AgentID pkg, la_budget = pk_Budget pkg, la_price = pk_PricePerSecond pkg,
                 la_manifest = pk_ManifestData pkg, la_signingKey = signingKey sv, la_nodeID = ms_nodeID sv,
                 la_identity = agentIdent\<rparr>;
            (r, ev) = LoadAgentFromBytes S (ms_engine sv) (ms_decode sv) (pk_WASMBinary pkg) a (wo_env (nd_world nd));
            w = (nd_world nd)\<lparr>wo_env := ev\<rparr>
        in case r of
             Inl e \<Rightarrow> (Inl (WrapError ''load agent'' e), nd\<lparr>nd_world := w\<rparr>)
           | Inr i \<Rightarrow>
             (case agent_Init S i w of
                (Inl e, i, w) \<Rightarrow> (Inl (WrapError ''init agent'' e), nd\<lparr>nd_world := w\<rparr>)
              | (Inr _, i, w) \<Rightarrow>
                (case LoadCheckpointFromStorage S i w of
                   (Inl e, i, w) \<Rightarrow> (Inl (WrapError ''resume agent'' e), nd\<lparr>nd_world := w\<rparr>)
                 | (Inr _, i, w) \<Rightarrow> (Inr i, nd\<lparr>nd_world := w\<rparr>))))"

text \<open>The rejection message, if any.\<close>

definition validateIncomingManifest :: "('m, 's, 'a) Service \<Rightarrow> Manifest \<Rightarrow> ('m, 's, 'a) node \<Rightarrow> string option" where
  "validateIncomingManifest sv m nd =
     (let policy = mf_MigrationPolicy m;
          need = rl_MaxMemoryBytes (mf_ResourceLimits m);
          nodeCaps = (case nd_nodeCapabilities nd of None \<Rightarrow> NodeCapabilities | Some caps \<Rightarrow> caps)
      in if policy \<noteq> None \<and> \<not> mp_Enabled (the policy) then Some ''agent migration policy disabled''
         else if policy \<noteq> None \<and> sint (mp_MaxPricePerSecond (the policy)) > 0 \<and>
           sint (ms_pricePerSecond sv) > sint (mp_MaxPricePerSecond (the policy))
         then Some (''node price '' @ dec_int (sint (ms_pricePerSecond sv)) @ '' exceeds agent max '' @
                    dec_int (sint (mp_MaxPricePerSecond (the policy))))
         else if need > 0 \<and> need > DefaultMaxMemoryBytes
         then Some (''agent requires '' @ dec_nat (unat need) @ '' bytes memory, node provides '' @
                    dec_nat (unat DefaultMaxMemoryBytes))
         else case ValidateAgainstNode (Some (mf_Capabilities m)) nodeCaps of
           Inl e \<Rightarrow> Some (''capability check failed: '' @ error_string e)
         | Inr _ \<Rightarrow> None)"

definition verifyMigrationReplay :: "('m, 's, 'a) Service \<Rightarrow> AgentPackage \<Rightarrow> ReplayData \<Rightarrow> string option" where
  "verifyMigrationReplay sv pkg rd =
     (case ParseCapabilityManifest (ms_decodeCaps sv) (pk_ManifestData pkg) of
        Inl e \<Rightarrow> Some (''replay verification failed: invalid manifest: '' @ error_string e)
      | Inr capManifest \<Rightarrow>
        (case ExtractAgentState (pk_Checkpoint pkg) of
           Inl e \<Rightarrow> Some (''replay verification failed: '' @ error_string e)
         | Inr postTickState \<Rightarrow>
           let S = ms_system sv;
               result = ReplayTick (sy_fuel S) (sy_tickFuel S) (sy_guest S) (ms_wasi sv) (ms_engine sv) (pk_WASMBinary pkg)
                          (Some capManifest) (rd_PreTickState rd) (toTickLog rd) (Some postTickState)
           in case rr_Error result of
                Some e \<Rightarrow> Some (''replay verification failed: '' @ error_string e)
              | None \<Rightarrow>
                if \<not> rr_Verified result
                then Some (''replay divergence at tick '' @ dec_nat (unat (rr_TickNumber result)) @ '', first diff byte '' @
                           dec_int (rr_FirstDiffByte result))
                else None))"

definition deleteOrphanedCheckpoint :: "('m, 's, 'a) Service \<Rightarrow> string \<Rightarrow> ('m, 's, 'a) node \<Rightarrow> ('m, 's, 'a) node" where
  "deleteOrphanedCheckpoint sv agentID nd = snd (with_store (pv_DeleteCheckpoint (ms_storage sv) agentID) nd)"

text \<open>The handler after the integrity, replay and manifest checks.\<close>

definition accept_package :: "('m, 's, 'a) Service \<Rightarrow> instant \<Rightarrow> AgentPackage \<Rightarrow> ('m, 's, 'a) node \<Rightarrow> AgentStarted \<times> ('m, 's, 'a) node" where
  "accept_package sv now pkg nd =
     (case with_store (pv_SaveCheckpoint (ms_storage sv) (pk_AgentID pkg) (pk_Checkpoint pkg)) nd of
        (Inl e, nd) \<Rightarrow> (sendStartConfirmation sv (pk_AgentID pkg) False (error_string e), nd)
      | (Inr _, nd) \<Rightarrow>
        let nd = (if length (pk_Receipts pkg) > 0
                  then snd (with_store (pv_SaveReceipts (ms_storage sv) (pk_AgentID pkg) (pk_Receipts pkg)) nd) else nd)
        in case loadMigratedAgent sv pkg nd of
             (Inl loadErr, nd) \<Rightarrow>
               (sendStartConfirmation sv (pk_AgentID pkg) False (error_string loadErr), deleteOrphanedCheckpoint sv (pk_AgentID pkg) nd)
           | (Inr i, nd) \<Rightarrow>
             let i = (if sint (lc_Duration (ms_leaseConfig sv)) > 0
                      then i\<lparr>in_Lease := Some (NewLeaseFromMigration (pk_MajorVersion pkg) (ms_leaseConfig sv) now)\<rparr> else i);
                 nd = nd\<lparr>nd_heap := nd_heap nd @ [i]\<rparr>
             in (sendStartConfirmation sv (pk_AgentID pkg) True '''',
                 RegisterAgent (pk_AgentID pkg) (length (nd_heap nd) - 1) nd))"

definition handleIncomingMigration ::
    "('m, 's, 'a) Service \<Rightarrow> instant \<Rightarrow> AgentTransfer result \<Rightarrow> ('m, 's, 'a) node \<Rightarrow> AgentStarted \<times> ('m, 's, 'a) node" where
  "handleIncomingMigration sv now decoded nd =
     (case decoded of
        Inl e \<Rightarrow> (sendStartConfirmation sv '''' False (error_string e), nd)
      | Inr transfer \<Rightarrow>
        let pkg = tr_Package transfer;
            reject = (\<lambda>msg. (sendStartConfirmation sv (pk_AgentID pkg) False msg, nd));
            migrateVerify = (ms_replayMode sv = ''on-migrate'' \<or> ms_replayMode sv = ''full'')
        in if length (pk_WASMHash pkg) \<noteq> 32 then reject ''WASM hash missing or invalid length''
           else if Sum256 (sy_crypto (ms_system sv)) (pk_WASMBinary pkg) \<noteq> pk_WASMHash pkg then reject ''WASM binary hash mismatch''
           else case (if migrateVerify then (case pk_ReplayData pkg of None \<Rightarrow> None | Some rd \<Rightarrow> verifyMigrationReplay sv pkg rd) else None) of
             Some msg \<Rightarrow> reject msg
           | None \<Rightarrow>
             (case ParseManifest (ms_decode sv) (pk_ManifestData pkg) of
                Inl e \<Rightarrow> reject (''invalid manifest: '' @ error_string e)
              | Inr fullManifest \<Rightarrow>
                (case validateIncomingManifest sv fullManifest nd of
                   Some rejectMsg \<Rightarrow> reject rejectMsg
                 | None \<Rightarrow> accept_package sv now pkg nd)))"

end
