(* ===== verification/MigrationSafe.thy ===== *)
theory MigrationSafe
  imports Migration
begin

text \<open>
  What migration guarantees: a package is delivered at most once, the source keeps ticking authority only if
  no transfer can have been accepted, the number of transfers is bounded, and a node that confirms an
  agent holds it under a newer authority epoch.
\<close>

section \<open>The attempts of one migration\<close>

definition delivered :: "transfer_outcome \<Rightarrow> bool" where
  "delivered out = (case migrateToTarget out of Inr _ \<Rightarrow> True | Inl _ \<Rightarrow> False)"

text \<open>A transfer that failed for certain: not delivered, and not sent without a confirmation.\<close>

definition definite_failure :: "transfer_outcome \<Rightarrow> bool" where
  "definite_failure out = (case migrateToTarget out of Inr _ \<Rightarrow> False | Inl e \<Rightarrow> \<not> IsAmbiguous (Some e))"

definition outcome :: "(string \<Rightarrow> nat \<Rightarrow> transfer_outcome) \<Rightarrow> string \<times> nat \<Rightarrow> transfer_outcome" where
  "outcome net x = net (fst x) (snd x)"

text \<open>How a loop over attempts ended, seen from the attempts it made.\<close>

definition attempts_ended :: "(string \<Rightarrow> nat \<Rightarrow> transfer_outcome) \<Rightarrow> attempt_end \<Rightarrow> (string \<times> nat) list \<Rightarrow> bool" where
  "attempts_ended net r made \<longleftrightarrow>
     (\<forall>x \<in> set (butlast made). definite_failure (outcome net x)) \<and>
     (case r of
        Migrated \<Rightarrow> made \<noteq> [] \<and> delivered (outcome net (last made))
      | Ambiguous e \<Rightarrow> made \<noteq> [] \<and> migrateToTarget (outcome net (last made)) = Inl e \<and> IsAmbiguous (Some e)
      | _ \<Rightarrow> \<forall>x \<in> set made. definite_failure (outcome net x))"

lemma attempts_ended_Cons:
  "definite_failure (outcome net x) \<Longrightarrow> attempts_ended net r made \<Longrightarrow> attempts_ended net r (x # made)"
  by (auto simp: attempts_ended_def split: attempt_end.splits)

lemma attempts_ended_append:
  "\<forall>x \<in> set xs. definite_failure (outcome net x) \<Longrightarrow> attempts_ended net r made \<Longrightarrow> attempts_ended net r (xs @ made)"
  by (induction xs) (auto intro: attempts_ended_Cons)

lemma try_target_ended:
  "try_target net cancelled maxA target attempt n = (r, made) \<Longrightarrow>
     attempts_ended net r made \<and> length made \<le> n \<and> (\<forall>x \<in> set made. fst x = target \<and> attempt \<le> snd x \<and> snd x < attempt + n)"
proof (induction n arbitrary: attempt r made)
  case 0
  then show ?case by (auto simp: attempts_ended_def)
next
  case (Suc n)
  let ?out = "net target attempt"
  have o: "outcome net (target, attempt) = ?out" by (simp add: outcome_def)
  show ?case
  proof (cases "migrateToTarget ?out")
    case (Inr u)
    with Suc.prems show ?thesis by (auto simp: attempts_ended_def delivered_def o)
  next
    case (Inl e)
    show ?thesis
    proof (cases "IsAmbiguous (Some e) \<or> \<not> IsRetriable (Some e) \<or> int attempt < maxA - 1 \<and> cancelled target attempt")
      case True
      with Suc.prems Inl show ?thesis by (cases "IsAmbiguous (Some e)") (auto simp: attempts_ended_def definite_failure_def o split: if_splits)
    next
      case False
      obtain r' made' where rec: "try_target net cancelled maxA target (Suc attempt) n = (r', made')" by fastforce
      with Suc.prems Inl False have eq: "r = r'" "made = (target, attempt) # made'" by auto
      have "definite_failure (outcome net (target, attempt))" using False Inl by (simp add: definite_failure_def o)
      with Suc.IH [OF rec] eq show ?thesis by (auto intro: attempts_ended_Cons)
    qed
  qed
qed

lemma try_targets_ended:
  "try_targets net cancelled maxA targets = ((r, t), made) \<Longrightarrow>
     attempts_ended net r made \<and> length made \<le> nat maxA * length targets \<and>
     (\<forall>x \<in> set made. fst x \<in> set targets \<and> int (snd x) < maxA) \<and> (r = Migrated \<longrightarrow> t = fst (last made))"
proof (induction targets arbitrary: r t made)
  case Nil
  then show ?case by (auto simp: attempts_ended_def)
next
  case (Cons target targets)
  obtain r1 made1 where one: "try_target net cancelled maxA target 0 (nat maxA) = (r1, made1)" by fastforce
  note e1 = try_target_ended [OF one]
  show ?case
  proof (cases "r1 = GivenUp")
    case True
    obtain r2 t2 made2 where rest: "try_targets net cancelled maxA targets = ((r2, t2), made2)" using prod_cases3 by (metis surj_pair)
    with Cons.prems one True have eq: "r = r2" "t = t2" "made = made1 @ made2" by auto
    have f: "\<forall>x \<in> set made1. definite_failure (outcome net x)" using e1 True by (auto simp: attempts_ended_def)
    have "r2 = Migrated \<Longrightarrow> made2 \<noteq> []" using Cons.IH [OF rest] by (auto simp: attempts_ended_def)
    with Cons.IH [OF rest] e1 eq attempts_ended_append [OF f, of r2 made2] show ?thesis by auto
  next
    case False
    then have eq: "r = r1" "t = target" "made = made1" using Cons.prems one by (cases r1; simp)+
    have "r = Migrated \<Longrightarrow> made \<noteq> []" using e1 eq by (auto simp: attempts_ended_def)
    with e1 eq show ?thesis by (auto simp: dest: last_in_set)
  qed
qed


section \<open>The lease of the migrating agent\<close>

lemma with_store_simps [simp]:
  "nd_heap (snd (with_store f nd)) = nd_heap nd" "nd_active (snd (with_store f nd)) = nd_active nd"
  "nd_nodeCapabilities (snd (with_store f nd)) = nd_nodeCapabilities nd"
  by (simp_all add: with_store_def split: prod.split)

lemma with_store_frame: "with_store f nd = (r, nd') \<Longrightarrow> nd_heap nd' = nd_heap nd \<and> nd_active nd' = nd_active nd"
  using with_store_simps [of f nd] by simp

lemma buildMigrationPackage_frame:
  "buildMigrationPackage sv agentID wasmPath nd = (r, nd') \<Longrightarrow>
     nd_heap nd' = nd_heap nd \<and> nd_active nd' = nd_active nd \<and> (\<forall>pkg li. r = Inr (pkg, li) \<longrightarrow> li = GetActiveInstance agentID nd)"
  by (auto simp: buildMigrationPackage_def Let_def case_prod_unfold GetActiveInstance_def split: sum.splits prod.splits
      dest!: with_store_frame)

lemma cleanup_frame [simp]:
  "nd_heap (snd (cleanupLocalAgent sv agentID nd)) = nd_heap nd" "nd_active (snd (cleanupLocalAgent sv agentID nd)) = nd_active nd"
  by (auto simp: cleanupLocalAgent_def Let_def split: sum.splits prod.splits dest!: with_store_frame)

lemma lease_update [simp]:
  "p < length (nd_heap nd) \<Longrightarrow> getLease p (setLease p l nd) = Some l" "nd_active (setLease p l nd) = nd_active nd"
  "length (nd_heap (setLease p l nd)) = length (nd_heap nd)" "GetActiveInstance a (setLease p l nd) = GetActiveInstance a nd"
  by (simp_all add: getLease_def setLease_def GetActiveInstance_def)

text \<open>An agent that is active on the node, under a lease it owns.\<close>

definition owned :: "string \<Rightarrow> nat \<Rightarrow> Lease \<Rightarrow> ('m, 's, 'a) node \<Rightarrow> bool" where
  "owned agentID p l nd \<longleftrightarrow> GetActiveInstance agentID nd = Some p \<and> p < length (nd_heap nd) \<and> getLease p nd = Some l"

lemma owned_frame: "nd_heap nd' = nd_heap nd \<Longrightarrow> nd_active nd' = nd_active nd \<Longrightarrow> owned a p l nd' = owned a p l nd"
  by (simp add: owned_def GetActiveInstance_def getLease_def)

lemma owned_setLease: "owned a p l nd \<Longrightarrow> owned a p l' (setLease p l' nd)"
  by (simp add: owned_def)

lemma handoff_owned:
  assumes "owned a p l nd" "ls_State l = StateActiveOwner"
  shows "\<exists>nd'. initiate_handoff a nd = (Inr (), nd') \<and> owned a p (l\<lparr>ls_State := StateHandoffInitiated\<rparr>) nd'"
  using assms owned_setLease [OF assms(1)] by (simp add: initiate_handoff_def TransitionToHandoff_def owned_def)

lemma revert_owned:
  assumes "owned a p (l\<lparr>ls_State := StateHandoffInitiated\<rparr>) nd" "ls_State l = StateActiveOwner"
  shows "owned a p l (revertHandoff a nd)"
proof -
  have "l\<lparr>ls_State := StateActiveOwner\<rparr> = l" using assms(2) by (metis Lease.surjective Lease.update_convs(3))
  with assms(1) owned_setLease [OF assms(1), of l] show ?thesis by (simp add: revertHandoff_def RevertHandoff_def owned_def)
qed

lemma finalize_owned:
  assumes "owned a p (l\<lparr>ls_State := StateHandoffInitiated\<rparr>) nd"
  shows "GetActiveInstance a (finalizeMigration sv a (Some p) nd) = None \<and>
    getLease p (finalizeMigration sv a (Some p) nd) = Some (l\<lparr>ls_State := StateRetired\<rparr>)"
proof -
  have m: "map_of (AList.delete a xs) a = None" for xs :: "(string \<times> nat) list" by (simp add: delete_conv')
  define nd1 where "nd1 = setLease p (l\<lparr>ls_State := StateRetired\<rparr>) nd"
  have "finalizeMigration sv a (Some p) nd = snd (cleanupLocalAgent sv a (nd1\<lparr>nd_active := AList.delete a (nd_active nd1)\<rparr>))"
    using assms by (simp add: finalizeMigration_def TransitionToRetired_def owned_def nd1_def)
  moreover have "getLease p nd1 = Some (l\<lparr>ls_State := StateRetired\<rparr>)" using assms by (simp add: nd1_def owned_def)
  ultimately show ?thesis by (simp add: GetActiveInstance_def getLease_def m)
qed

text \<open>The outcomes of the transfers a migration with retry makes, in order.\<close>

definition transfers_made ::
    "('m, 's, 'a) Service \<Rightarrow> transfers \<Rightarrow> (string \<Rightarrow> nat \<Rightarrow> bool) \<Rightarrow> string \<Rightarrow> string \<Rightarrow> string \<Rightarrow> string list \<Rightarrow> RetryConfig \<Rightarrow>
     ('m, 's, 'a) node \<Rightarrow> transfer_outcome list" where
  "transfers_made sv net cancelled agentID wasmPath primaryTarget candidates retryCfg nd =
     (case buildMigrationPackage sv agentID wasmPath (snd (initiate_handoff agentID nd)) of
        (Inr (pkg, _), _) \<Rightarrow>
          map (outcome (\<lambda>t a. net t a pkg))
            (snd (try_targets (\<lambda>t a. net t a pkg) cancelled (rt_MaxAttempts retryCfg) (target_list primaryTarget candidates)))
      | _ \<Rightarrow> [])"

lemma retry_outcome:
  assumes m: "MigrateAgentWithRetry sv net cancelled agentID wasmPath primaryTarget candidates retryCfg nd = (r, nd')"
    and o: "owned agentID p l nd" "ls_State l = StateActiveOwner"
    and outs: "outs = transfers_made sv net cancelled agentID wasmPath primaryTarget candidates retryCfg nd"
  shows "(\<forall>out \<in> set (butlast outs). definite_failure out) \<and>
    (case r of
       Inr target \<Rightarrow> outs \<noteq> [] \<and> delivered (last outs) \<and> GetActiveInstance agentID nd' = None \<and>
         getLease p nd' = Some (l\<lparr>ls_State := StateRetired\<rparr>)
     | Inl e \<Rightarrow> if outs = [] \<or> definite_failure (last outs) then owned agentID p l nd'
         else \<not> delivered (last outs) \<and> owned agentID p (l\<lparr>ls_State := StateRecoveryRequired\<rparr>) nd')"
proof -
  from handoff_owned [OF o] obtain nd1 where h: "initiate_handoff agentID nd = (Inr (), nd1)"
    "owned agentID p (l\<lparr>ls_State := StateHandoffInitiated\<rparr>) nd1" by blast
  obtain b nd2 where b: "buildMigrationPackage sv agentID wasmPath nd1 = (b, nd2)" by fastforce
  have o2: "owned agentID p (l\<lparr>ls_State := StateHandoffInitiated\<rparr>) nd2"
    using buildMigrationPackage_frame [OF b] h(2) owned_frame by blast
  have p: "GetActiveInstance agentID nd = Some p" using o(1) by (simp add: owned_def)
  show ?thesis
  proof (cases b)
    case (Inl e)
    with m h b o(2) revert_owned [OF o2 o(2)] outs show ?thesis
      by (auto simp: MigrateAgentWithRetry_def Let_def transfers_made_def)
  next
    case (Inr x)
    then obtain pkg where x: "b = Inr (pkg, Some p)"
      using buildMigrationPackage_frame [OF b] h(2) by (cases x) (auto simp: owned_def)
    let ?net = "\<lambda>t a. net t a pkg"
    obtain q t made where tr: "try_targets ?net cancelled (rt_MaxAttempts retryCfg) (target_list primaryTarget candidates) = ((q, t), made)"
      by (metis surj_pair)
    have e: "attempts_ended ?net q made" using try_targets_ended [OF tr] by blast
    have os: "outs = map (outcome ?net) made" using outs by (simp add: transfers_made_def h b x tr)
    have bl: "\<forall>out \<in> set (butlast outs). definite_failure out"
      using e by (simp add: os attempts_ended_def flip: map_butlast)
    have lst: "made \<noteq> [] \<Longrightarrow> last outs = outcome ?net (last made)" by (simp add: os last_map)
    note df = definite_failure_def delivered_def
    show ?thesis
    proof (cases "target_list primaryTarget candidates = []")
      case True
      with m h b x o2 tr revert_owned [OF o2 o(2)] bl os show ?thesis
        by (auto simp: MigrateAgentWithRetry_def Let_def)
    next
      case False
      have gu: "outs = [] \<or> definite_failure (last outs)" if "q = GivenUp \<or> q = ContextDone"
        using that e lst by (cases "made = []") (auto simp: attempts_ended_def os)
      show ?thesis
        using m h b x tr False e bl lst gu finalize_owned [OF o2] revert_owned [OF o2 o(2)] owned_setLease [OF o2] o2 p
        by (cases q) (auto simp: MigrateAgentWithRetry_def Let_def attempts_ended_def df owned_def os)
    qed
  qed
qed


section \<open>Properties\<close>


definition example_service :: "(example_agent, os_state, Receipt list) Service" where
  "example_service =
     \<lparr>ms_system = example_system, ms_engine = \<lparr>en_closeHost = Inr (), en_instantiateHost = Inr (), en_compile = (\<lambda>_. Inr ()),
        en_instantiate = (\<lambda>_ _ _. Inr example_module)\<rparr>, ms_wasi = Inr (), ms_decode = (\<lambda>_. Inl (NewError ''json'')),
      ms_decodeCaps = (\<lambda>_. Inl (NewError ''json'')), ms_readFile = (\<lambda>_. Inr [0]), ms_replayMode = ''off'',
      ms_pricePerSecond = 60, ms_leaseConfig = DefaultLeaseConfig, ms_hostKey = None, ms_nodeID = ''n''\<rparr>"

definition example_lease :: Lease where
  "example_lease = NewLease DefaultLeaseConfig 0"

definition example_node :: "(example_agent, os_state, Receipt list) node" where
  "example_node =
     \<lparr>nd_heap = [example_instance\<lparr>in_Lease := Some example_lease\<rparr>], nd_active = [(''a'', 0)], nd_nodeCapabilities = None,
      nd_world = example_world\<lparr>wo_store := \<lparr>os_files = [(''b/a.checkpoint'', ([9], True))], os_faults = [], os_trace = []\<rparr>\<rparr>\<rparr>"

lemma example_owned: "owned ''a'' 0 example_lease example_node" "ls_State example_lease = StateActiveOwner"
  by (simp_all add: owned_def example_node_def GetActiveInstance_def getLease_def example_lease_def NewLease_def)

lemma example_transfers:
  "transfers_made example_service (\<lambda>t a pkg. NoConfirmation) (\<lambda>_ _. False) ''a'' ''w'' ''x'' [''y''] DefaultRetryConfig example_node =
     [NoConfirmation]"
  by code_simp


text \<open>
  The retry loop is bounded: it makes at most \<open>MaxAttempts\<close> transfers per target, only to targets on the list, and with
  attempt numbers below \<open>MaxAttempts\<close>; with a non-positive \<open>MaxAttempts\<close> it makes none.
\<close>

theorem retry_attempts_bounded:
  assumes "try_targets net cancelled maxAttempts targets = (res, made)"
  shows "length made \<le> nat maxAttempts * length targets \<and>
    (\<forall>x \<in> set made. fst x \<in> set targets \<and> int (snd x) < maxAttempts)"
  using try_targets_ended [of net cancelled maxAttempts targets "fst res" "snd res" made] assms by simp

theorem retry_attempts_bounded_witness:
  "\<exists>res made. try_targets (\<lambda>_ _. ConnectFailed ErrIO) (\<lambda>_ _. False) 3 [''x'', ''y''] = (res, made) \<and> length made \<le> 6"
proof -
  obtain res made where t: "try_targets (\<lambda>_ _. ConnectFailed ErrIO) (\<lambda>_ _. False) 3 [''x'', ''y''] = (res, made)" by fastforce
  from retry_attempts_bounded [OF t] t show ?thesis by simp
qed

text \<open>
  The migration without retry does not give the agent back: when \<open>MigrateAgent\<close> fails, for whatever
  reason, the lease of an agent that was running is left in \<open>HANDOFF_INITIATED\<close>, so that the agent never
  passes the tick check again on this node.
\<close>

theorem MigrateAgent_failure_strands_agent:
  assumes "MigrateAgent sv net agentID wasmPath target nd = (Inl e, nd')"
    "owned agentID p l nd" "ls_State l = StateActiveOwner"
  shows "owned agentID p (l\<lparr>ls_State := StateHandoffInitiated\<rparr>) nd' \<and>
    (\<exists>err. ValidateForTick now (l\<lparr>ls_State := StateHandoffInitiated\<rparr>) = (Some err, l\<lparr>ls_State := StateHandoffInitiated\<rparr>))"
proof -
  from handoff_owned [OF assms(2,3)] obtain nd1 where h: "initiate_handoff agentID nd = (Inr (), nd1)"
    "owned agentID p (l\<lparr>ls_State := StateHandoffInitiated\<rparr>) nd1" by blast
  obtain b nd2 where b: "buildMigrationPackage sv agentID wasmPath nd1 = (b, nd2)" by fastforce
  have "owned agentID p (l\<lparr>ls_State := StateHandoffInitiated\<rparr>) nd2"
    using buildMigrationPackage_frame [OF b] h(2) owned_frame by blast
  moreover have "nd' = nd2"
    using assms(1) h(1) b by (auto simp: MigrateAgent_def split: sum.splits prod.splits)
  ultimately show ?thesis by (simp add: ValidateForTick_def)
qed

theorem MigrateAgent_failure_strands_agent_witness:
  "owned ''a'' 0 (example_lease\<lparr>ls_State := StateHandoffInitiated\<rparr>)
     (snd (MigrateAgent (example_service\<lparr>ms_readFile := (\<lambda>_. Inl ErrNotExist)\<rparr>) (\<lambda>t a pkg. NoConfirmation) ''a'' ''w'' ''x'' example_node))"
proof -
  let ?r = "MigrateAgent (example_service\<lparr>ms_readFile := (\<lambda>_. Inl ErrNotExist)\<rparr>) (\<lambda>t a pkg. NoConfirmation) ''a'' ''w'' ''x'' example_node"
  have f: "fst ?r = Inl (WrapError ''failed to read WASM binary'' ErrNotExist)" by code_simp
  from MigrateAgent_failure_strands_agent [OF prod.collapse [of ?r, symmetric, unfolded f] example_owned] show ?thesis by simp
qed


section \<open>Receiving\<close>

lemma restoreAgentIdentity_frame:
  "restoreAgentIdentity sv pkg nd = (r, nd') \<Longrightarrow> nd_heap nd' = nd_heap nd \<and> nd_active nd' = nd_active nd"
  by (auto simp: restoreAgentIdentity_def split: if_splits sum.splits)

lemma loadMigratedAgent_frame:
  assumes "loadMigratedAgent sv pkg nd = (r, nd')"
  shows "nd_heap nd' = nd_heap nd \<and> nd_active nd' = nd_active nd"
proof -
  obtain ri nd1 where "restoreAgentIdentity sv pkg nd = (ri, nd1)" by fastforce
  with restoreAgentIdentity_frame [OF this] assms show ?thesis
    by (auto simp: loadMigratedAgent_def Let_def split: sum.splits prod.splits)
qed

text \<open>What an accepted package leaves on the node: one more instance, registered under the agent's ID.\<close>

definition arrived :: "('m, 's, 'a) Service \<Rightarrow> instant \<Rightarrow> AgentPackage \<Rightarrow> ('m, 's, 'a) node \<Rightarrow> ('m, 's, 'a) node \<Rightarrow> bool" where
  "arrived sv now pkg nd nd' \<longleftrightarrow>
     (\<exists>i. nd_heap nd' = nd_heap nd @ [i] \<and> nd_active nd' = AList.update (pk_AgentID pkg) (length (nd_heap nd)) (nd_active nd) \<and>
        (0 < sint (lc_Duration (ms_leaseConfig sv)) \<longrightarrow>
           in_Lease i = Some (NewLeaseFromMigration (pk_MajorVersion pkg) (ms_leaseConfig sv) now)))"

lemma accept_package_outcome:
  assumes "accept_package sv now pkg nd = (st, nd')"
  shows "if as_Success st then arrived sv now pkg nd nd' else nd_heap nd' = nd_heap nd \<and> nd_active nd' = nd_active nd"
proof -
  obtain r1 nd1 where s: "with_store (pv_SaveCheckpoint (ms_storage sv) (pk_AgentID pkg) (pk_Checkpoint pkg)) nd = (r1, nd1)" by fastforce
  define nd2 where "nd2 = (if pk_Receipts pkg \<noteq> []
    then snd (with_store (pv_SaveReceipts (ms_storage sv) (pk_AgentID pkg) (pk_Receipts pkg)) nd1) else nd1)"
  obtain r3 nd3 where l: "loadMigratedAgent sv pkg nd2 = (r3, nd3)" by fastforce
  have f: "nd_heap nd1 = nd_heap nd" "nd_active nd1 = nd_active nd" "nd_heap nd3 = nd_heap nd" "nd_active nd3 = nd_active nd"
    using with_store_frame [OF s] loadMigratedAgent_frame [OF l] by (simp_all add: nd2_def)
  show ?thesis
  proof (cases r1)
    case (Inl e)
    with assms s f show ?thesis by (auto simp: accept_package_def sendStartConfirmation_def)
  next
    case (Inr u)
    with assms s l f show ?thesis
      by (cases r3) (auto simp: accept_package_def sendStartConfirmation_def Let_def deleteOrphanedCheckpoint_def arrived_def
          RegisterAgent_def simp flip: nd2_def)
  qed
qed

text \<open>
  C11 What a confirmation means.  A node confirms an agent only if the binary matches its hash, the manifest is
  acceptable here, and, when replay verification is on and the package carries replay data, the replay verified; then the agent is active
  here on a fresh instance, with a lease one major epoch above the package's.  If the node does not confirm,
  its active agents and instances are as before.
\<close>

theorem incoming_confirmation_sound:
  assumes "handleIncomingMigration sv now (Inr transfer) nd = (st, nd')" "pkg = tr_Package transfer"
  shows "if as_Success st
    then Sum256 (sy_crypto (ms_system sv)) (pk_WASMBinary pkg) = pk_WASMHash pkg \<and>
      (\<exists>m. ParseManifest (ms_decode sv) (pk_ManifestData pkg) = Inr m \<and> validateIncomingManifest sv m nd = None) \<and>
      (\<forall>rd. ms_replayMode sv \<in> {''on-migrate'', ''full''} \<longrightarrow> pk_ReplayData pkg = Some rd \<longrightarrow> verifyMigrationReplay sv pkg rd = None) \<and>
      arrived sv now pkg nd nd'
    else nd_heap nd' = nd_heap nd \<and> nd_active nd' = nd_active nd"
proof -
  define checks where "checks \<longleftrightarrow> length (pk_WASMHash pkg) = 32 \<and> Sum256 (sy_crypto (ms_system sv)) (pk_WASMBinary pkg) = pk_WASMHash pkg"
  define rejected where "rejected = (if ms_replayMode sv = ''on-migrate'' \<or> ms_replayMode sv = ''full''
    then (case pk_ReplayData pkg of None \<Rightarrow> None | Some rd \<Rightarrow> verifyMigrationReplay sv pkg rd) else None)"
  have fail: ?thesis if "nd' = nd" "\<not> as_Success st" using that by simp
  note h = assms(1) [unfolded handleIncomingMigration_def sum.case Let_def, folded assms(2), folded rejected_def]
  show ?thesis
  proof (cases "checks \<and> rejected = None")
    case False
    with h show ?thesis by (intro fail) (auto simp: checks_def sendStartConfirmation_def split: if_splits option.splits)
  next
    case True
    then have c: "length (pk_WASMHash pkg) = 32" "Sum256 (sy_crypto (ms_system sv)) (pk_WASMBinary pkg) = pk_WASMHash pkg"
      "rejected = None" by (simp_all add: checks_def)
    have rd: "ms_replayMode sv \<in> {''on-migrate'', ''full''} \<longrightarrow> pk_ReplayData pkg = Some rd \<longrightarrow> verifyMigrationReplay sv pkg rd = None" for rd
      using c(3) by (auto simp: rejected_def split: if_splits)
    show ?thesis
    proof (cases "\<exists>m. ParseManifest (ms_decode sv) (pk_ManifestData pkg) = Inr m \<and> validateIncomingManifest sv m nd = None")
      case False
      with h c show ?thesis by (intro fail) (auto simp: sendStartConfirmation_def split: if_splits option.splits sum.splits)
    next
      case m: True
      then have "accept_package sv now pkg nd = (st, nd')" using h c by auto
      from accept_package_outcome [OF this] m c(2) rd show ?thesis by auto
    qed
  qed
qed


definition example_package :: AgentPackage where
  "example_package =
     \<lparr>pk_AgentID = ''g'', pk_WASMBinary = [0], pk_WASMHash = Sum256 sample_crypto [0],
      pk_Checkpoint = build_v3 (instance_fields example_instance) [], pk_ManifestData = [], pk_Budget = 100, pk_PricePerSecond = 60,
      pk_ReplayData = None, pk_Receipts = [], pk_MajorVersion = 4, pk_LeaseGeneration = 2, pk_AgentIdentity = []\<rparr>"

lemma example_arrival:
  "as_Success (fst (handleIncomingMigration example_service 5 (Inr \<lparr>tr_Package = example_package, tr_SourceNodeID = ''s''\<rparr>) example_node))"
  by code_simp

theorem incoming_confirmation_sound_witness:
  "arrived example_service 5 example_package example_node
     (snd (handleIncomingMigration example_service 5 (Inr \<lparr>tr_Package = example_package, tr_SourceNodeID = ''s''\<rparr>) example_node))"
proof -
  let ?t = "\<lparr>tr_Package = example_package, tr_SourceNodeID = ''s''\<rparr>"
  let ?r = "handleIncomingMigration example_service 5 (Inr ?t) example_node"
  from incoming_confirmation_sound [OF prod.collapse [of ?r, symmetric], of example_package] example_arrival show ?thesis by simp
qed

end
