(* ===== verification/ReplaySound.thy ===== *)
theory ReplaySound
  imports Replay "HOL-Library.Sublist"
begin

text \<open>
  Why replay verifies: a tick whose host calls were all recorded, run again on the recorded
  observations in an indistinguishable module, takes the same course and ends in the same state.  Then the
  limits of that, which are the branches the live host does not record.
\<close>

section \<open>One host standing in for another\<close>

text \<open>\<open>run_all P\<close>: every host call the run makes is answered in a way that satisfies \<open>P\<close>.\<close>

fun run_all :: "(hostreq \<Rightarrow> uint64 list \<Rightarrow> 'h \<Rightarrow> 'h \<Rightarrow> bool) \<Rightarrow> nat \<Rightarrow> 'm guest \<Rightarrow> ('m, 'h) host \<Rightarrow> 'm \<Rightarrow> 'h \<Rightarrow> bool" where
  "run_all P 0 G H m h = True"
| "run_all P (Suc n) G H m h =
     (case g_event G m of
        GCall rq m' \<Rightarrow>
          (case H rq m' h of
             None \<Rightarrow> True
           | Some (rs, m'', h') \<Rightarrow> P rq rs h h' \<and> run_all P n G H (g_answer G rs m'') h')
      | _ \<Rightarrow> True)"

lemma run_all_numeral:
  "run_all P (numeral k) G H m h =
     (case g_event G m of
        GCall rq m' \<Rightarrow>
          (case H rq m' h of
             None \<Rightarrow> True
           | Some (rs, m'', h') \<Rightarrow> P rq rs h h' \<and> run_all P (pred_numeral k) G H (g_answer G rs m'') h')
      | _ \<Rightarrow> True)"
  by (simp add: numeral_eq_Suc)

locale host_simulation =
  fixes G :: "'m guest" and B :: "'m \<Rightarrow> 'm \<Rightarrow> bool" and H1 :: "('m, 'a) host" and H2 :: "('m, 'b) host"
    and R :: "'a \<Rightarrow> 'b \<Rightarrow> bool" and P :: "hostreq \<Rightarrow> uint64 list \<Rightarrow> 'a \<Rightarrow> 'a \<Rightarrow> bool"
  assumes bisim: "bisimulation G B"
    and answers: "H1 rq m h = Some (rs, m', h') \<Longrightarrow> P rq rs h h' \<Longrightarrow> B m n \<Longrightarrow> R h k \<Longrightarrow>
      \<exists>n' k'. H2 rq n k = Some (rs, n', k') \<and> B m' n' \<and> R h' k'"
begin

lemma run_simulated:
  assumes "run_guest f G H1 m h = (Inr rs, m', h')" "run_all P f G H1 m h" "B m n" "R h k"
  shows "\<exists>n' k'. run_guest f G H2 n k = (Inr rs, n', k') \<and> B m' n' \<and> R h' k'"
  using assms
proof (induction f arbitrary: m h n k)
  case (Suc f)
  have ev: "event_rel B (g_event G m) (g_event G n)" using bisimulationD(3) [OF bisim Suc.prems(3)] .
  show ?case
  proof (cases "g_event G m")
    case (GReturn vs m1)
    with Suc.prems ev show ?thesis by (cases "g_event G n") auto
  next
    case (GTrap msg)
    with Suc.prems show ?thesis by simp
  next
    case (GCall rq m1)
    with ev obtain n1 where n1: "g_event G n = GCall rq n1" "B m1 n1" by (cases "g_event G n") auto
    from Suc.prems(1) GCall obtain vs m2 h2 where
      a: "H1 rq m1 h = Some (vs, m2, h2)" "run_guest f G H1 (g_answer G vs m2) h2 = (Inr rs, m', h')"
      by (auto split: option.splits)
    with Suc.prems(2) GCall have p: "P rq vs h h2" "run_all P f G H1 (g_answer G vs m2) h2" by simp_all
    from answers [OF a(1) p(1) n1(2) Suc.prems(4)] obtain n2 k2 where
      b: "H2 rq n1 k = Some (vs, n2, k2)" "B m2 n2" "R h2 k2" by blast
    from Suc.IH [OF a(2) p(2) bisimulationD(4) [OF bisim b(2)] b(3)] b(1) n1(1) show ?thesis by simp
  qed
qed simp

lemma call_simulated:
  assumes "call_fn f G H1 name args m h = (Inr rs, m', h')" "run_all P f G H1 (g_enter G name args m) h" "B m n" "R h k"
  shows "\<exists>n' k'. call_fn f G H2 name args n k = (Inr rs, n', k') \<and> B m' n' \<and> R h' k'"
  using run_simulated [OF assms(1) [unfolded call_fn_def] assms(2) bisimulationD(2) [OF bisim assms(3)] assms(4)]
  by (simp add: call_fn_def)

end

text \<open>Indistinguishable modules, with the requirement on the relation built in.\<close>

definition alike :: "'m guest \<Rightarrow> ('m \<Rightarrow> 'm \<Rightarrow> bool) \<Rightarrow> 'm \<Rightarrow> 'm \<Rightarrow> bool" where
  "alike G B m n \<longleftrightarrow> bisimulation G B \<and> B m n"

lemma bisimulation_alike: "bisimulation G (alike G B)"
proof (cases "bisimulation G B")
  case True
  then have "alike G B = B" by (auto simp: alike_def fun_eq_iff)
  with True show ?thesis by simp
next
  case False
  then show ?thesis by (simp add: bisimulation_def [of G "alike G B"] alike_def)
qed

lemmas alikeD = bisimulationD [OF bisimulation_alike]

section \<open>The replay host stands in for the live host\<close>

text \<open>
  A live answer can be replayed when it was recorded and succeeded: exactly one entry was added, a random
  or receipt buffer was written, and the request was not for HTTP.
\<close>

definition replayable :: "hostreq \<Rightarrow> uint64 list \<Rightarrow> 'w hc_state \<Rightarrow> 'w hc_state \<Rightarrow> bool" where
  "replayable rq rs h h' \<longleftrightarrow>
     map_option length (CurrentEntries (hc_log h')) = map_option (\<lambda>es. Suc (length es)) (CurrentEntries (hc_log h)) \<and>
     (case rq of
        ReqRandBytes _ _ \<Rightarrow> rs = ret_i32 0
      | ReqWalletReceipt _ _ _ \<Rightarrow> hd rs < 2147483648
      | ReqHTTP _ _ _ _ _ \<Rightarrow> False
      | _ \<Rightarrow> True)"

definition covers :: "host_module option \<Rightarrow> host_module option \<Rightarrow> bool" where
  "covers md md2 \<longleftrightarrow> (\<forall>rq. exports md rq \<longrightarrow> hostcall_id rq \<noteq> HTTPRequest \<longrightarrow> exports md2 rq)"

text \<open>The iterator over the tick's entries stands where the live log is.\<close>

definition replay_at :: "'m guest \<Rightarrow> crypto \<Rightarrow> host_module option \<Rightarrow> host_module option \<Rightarrow> Entry list \<Rightarrow>
    'n Instance hc_state \<Rightarrow> replay_state \<Rightarrow> bool" where
  "replay_at G C md md2 es h st \<longleftrightarrow>
     reads_exact G \<and> covers md md2 \<and> wf_event_log (hc_log h) \<and> wf_keys C (hc_wallet h) \<and>
     (\<exists>cur. CurrentEntries (hc_log h) = Some cur \<and> st = \<lparr>rp_iter = \<lparr>it_entries = es, it_pos = length cur\<rparr>, rp_err = None\<rparr>)"

definition recorded_in :: "Entry list \<Rightarrow> hostreq \<Rightarrow> uint64 list \<Rightarrow> 'w hc_state \<Rightarrow> 'w hc_state \<Rightarrow> bool" where
  "recorded_in es rq rs h h' \<longleftrightarrow>
     replayable rq rs h h' \<and> (\<exists>cur. CurrentEntries (hc_log h') = Some cur \<and> prefix cur es)"

lemma entry_next_recorded:
  assumes "wf_event_log l" "CurrentEntries l = Some cur" "CurrentEntries (Record hid p l) = Some cur'" "prefix cur' es"
  shows "entry_next hid \<lparr>it_entries = es, it_pos = length cur\<rparr> = (Inr (hid, p), \<lparr>it_entries = es, it_pos = length cur'\<rparr>)"
proof -
  have "cur' = cur @ [(hid, p)]" using assms(1-3) by (simp add: CurrentEntries_Record)
  moreover from this assms(4) obtain rest where "es = cur @ (hid, p) # rest" by (auto simp: prefix_def)
  ultimately show ?thesis by (simp add: entry_next_def Let_def)
qed

text \<open>Per host function: the live answer is recorded, and its replay gives the same answer.\<close>

lemma write_alike:
  assumes "alike G B m n" "g_write G p d m = Some m'"
  shows "\<exists>n'. g_write G p d n = Some n' \<and> alike G B m' n'"
  using alikeD(6) [OF assms(1), of p d] assms(2) by (auto simp: option_rel_Some1)

lemma pay_replayed:
  assumes w: "wallet_pay G (instance_wallet C) cfg amount recip memoS rcpt m h = (rs, m', h')"
    and r: "reads_exact G" "wf_keys C (hc_wallet h)" "alike G B m n"
    and l: "wf_event_log (hc_log h)" "CurrentEntries (hc_log h) = Some cur" "CurrentEntries (hc_log h') = Some cur'"
      "length cur' = Suc (length cur)" "prefix cur' es"
  shows "\<exists>n'. replay_wallet_pay G (fst rcpt) (snd rcpt) n \<lparr>rp_iter = \<lparr>it_entries = es, it_pos = length cur\<rparr>, rp_err = None\<rparr> =
      (rs, n', \<lparr>rp_iter = \<lparr>it_entries = es, it_pos = length cur'\<rparr>, rp_err = None\<rparr>) \<and> alike G B m' n' \<and> wf_keys C (hc_wallet h')"
  using w
proof (cases rule: pay.pay_outcomes)
  case (refused e)
  with l show ?thesis by simp
next
  case (unwritten recipient memo)
  with l show ?thesis by simp
next
  case (paid recipient memo w1 ts receiptData full)
  let ?needed = "pay_needed recipient memo (GetAgentPubKey (hc_wallet h))"
  have wf1: "wf_keys C w1" using pay.deductE [OF paid(2)] r(2) by simp
  note sz = pay.pay_sizes [OF paid(1) r(1,2) wf1 paid(5,6)]
  have nx: "entry_next WalletPay \<lparr>it_entries = es, it_pos = length cur\<rparr> =
      (Inr (WalletPay, put_u64 amount @ full), \<lparr>it_entries = es, it_pos = length cur'\<rparr>)"
    using entry_next_recorded [OF l(1,2) l(3) [unfolded paid(7)] l(5)] .
  have nd: "of_nat (4 + length full) = ?needed"
    using sz(2) by (metis instance_wallet_simps(6) of_nat_unat ucast_id)
  from write_alike [OF r(3) paid(9)] obtain n' where
    "g_write G (fst rcpt) (to_array (unat ?needed) (put_u32 (len_u32 full) @ full)) n = Some n'" "alike G B m' n'"
    by auto
  moreover have "\<not> snd rcpt < ?needed" using paid(1) by (simp add: pay_checks_def not_less)
  ultimately show ?thesis using paid(3,8) wf1 nd
    by (simp add: replay_wallet_pay_def nx Let_def)
qed

lemma length_one_more:
  assumes "replayable rq rs h h'" "CurrentEntries (hc_log h) = Some cur" "CurrentEntries (hc_log h') = Some cur'"
  shows "length cur' = Suc (length cur)" "hostcall_id rq \<noteq> HTTPRequest"
  using assms by (cases rq; simp add: replayable_def)+

abbreviation replaying :: "Entry list \<Rightarrow> Entry list \<Rightarrow> replay_state" where
  "replaying es cur \<equiv> \<lparr>rp_iter = \<lparr>it_entries = es, it_pos = length cur\<rparr>, rp_err = None\<rparr>"

text \<open>The requests that neither write to memory nor touch the wallet.\<close>

definition plain :: "hostreq \<Rightarrow> bool" where
  "plain rq \<longleftrightarrow> rq \<in> {ReqClockNow, ReqWalletBalance, ReqWalletReceiptCount, ReqNodePrice} \<or> (\<exists>ptr len. rq = ReqLogEmit ptr len)"

lemma plain_replayed:
  assumes c: "live_host G W md rq m h = Some (rs, m', h')" and ex: "exports md2 rq" and pl: "plain rq"
    and l: "wf_event_log (hc_log h)" "CurrentEntries (hc_log h) = Some cur" "CurrentEntries (hc_log h') = Some cur'"
      "length cur' = Suc (length cur)" "prefix cur' es"
  shows "replay_host G md2 rq n (replaying es cur) = Some (rs, n, replaying es cur') \<and> m' = m \<and> hc_wallet h' = hc_wallet h"
proof -
  note nx = entry_next_recorded [OF l(1,2) _ l(5)]
  show ?thesis
  proof (cases rq)
    case (ReqLogEmit ptr len)
    then obtain data where "hc_log h' = Record LogEmit data (hc_log h)" "hc_wallet h' = hc_wallet h" "m' = m" "rs = []"
      using c l by (auto simp: live_host_def log_emit_def split: if_splits option.splits)
    with ReqLogEmit ex l(3) show ?thesis by (simp add: replay_host_def replay_log_emit_def nx)
  qed (use c ex pl l(3) in \<open>auto simp: plain_def live_host_def replay_host_def nx Let_def next_env_def clock_now_def replay_clock_now_def
      wallet_balance_def replay_wallet_balance_def wallet_receipt_count_def replay_wallet_receipt_count_def node_price_def
      replay_node_price_def split: if_splits\<close>)
qed

lemma rand_replayed:
  assumes c: "live_host G W md (ReqRandBytes ptr len) m h = Some (rs, m', h')" and ex: "exports md2 (ReqRandBytes ptr len)"
    and rp: "replayable (ReqRandBytes ptr len) rs h h'" and b: "alike G B m n"
    and l: "wf_event_log (hc_log h)" "CurrentEntries (hc_log h) = Some cur" "CurrentEntries (hc_log h') = Some cur'"
      "length cur' = Suc (length cur)" "prefix cur' es"
  shows "\<exists>n'. replay_host G md2 (ReqRandBytes ptr len) n (replaying es cur) = Some (rs, n', replaying es cur') \<and>
    alike G B m' n' \<and> hc_wallet h' = hc_wallet h"
proof -
  have rs: "rs = ret_i32 0" using rp by (simp add: replayable_def)
  obtain buf where w: "hc_log h' = Record RandBytes buf (hc_log h)" "hc_wallet h' = hc_wallet h"
    "length buf = unat len" "g_write G ptr buf m = Some m'"
    using c rp l by (auto simp: live_host_def rand_bytes_def next_env_def replayable_def ret_i32_def Let_def split: if_splits option.splits)
  from write_alike [OF b w(4)] obtain n' where "g_write G ptr buf n = Some n'" "alike G B m' n'" by blast
  with w ex rs entry_next_recorded [OF l(1,2) _ l(5), of RandBytes buf] l(3) show ?thesis
    by (auto simp: replay_host_def replay_rand_bytes_def len_u32_def)
qed

lemma receipt_replayed:
  assumes c: "live_host G W md (ReqWalletReceipt index ptr len) m h = Some (rs, m', h')" and ex: "exports md2 (ReqWalletReceipt index ptr len)"
    and rp: "replayable (ReqWalletReceipt index ptr len) rs h h'" and b: "alike G B m n"
    and l: "wf_event_log (hc_log h)" "CurrentEntries (hc_log h) = Some cur" "CurrentEntries (hc_log h') = Some cur'"
      "length cur' = Suc (length cur)" "prefix cur' es"
  shows "\<exists>n'. replay_host G md2 (ReqWalletReceipt index ptr len) n (replaying es cur) = Some (rs, n', replaying es cur') \<and>
    alike G B m' n' \<and> hc_wallet h' = hc_wallet h"
proof -
  obtain data where w: "hc_log h' = Record WalletReceipt data (hc_log h)" "hc_wallet h' = hc_wallet h"
    "\<not> len < len_u32 data" "g_write G ptr data m = Some m'" "rs = ret_i32 (len_u32 data)"
    using c rp l
    by (auto simp: live_host_def wallet_receipt_def replayable_def ret_i32_def Let_def split: if_splits option.splits sum.splits)
  from write_alike [OF b w(4)] obtain n' where "g_write G ptr data n = Some n'" "alike G B m' n'" by blast
  with w ex entry_next_recorded [OF l(1,2) _ l(5), of WalletReceipt data] l(3) show ?thesis
    by (auto simp: replay_host_def replay_wallet_receipt_def)
qed

lemma live_replayed:
  assumes c: "live_host G (instance_wallet C) md rq m h = Some (rs, m', h')"
    and p: "recorded_in es rq rs h h'" and b: "alike G B m n" and r: "replay_at G C md md2 es h st"
  shows "\<exists>n' st'. replay_host G md2 rq n st = Some (rs, n', st') \<and> alike G B m' n' \<and> replay_at G C md md2 es h' st'"
proof -
  obtain cur where cur: "CurrentEntries (hc_log h) = Some cur" "st = replaying es cur"
    using r by (auto simp: replay_at_def)
  obtain cur' where cur': "CurrentEntries (hc_log h') = Some cur'" "prefix cur' es"
    using p by (auto simp: recorded_in_def)
  have rp: "replayable rq rs h h'" using p by (simp add: recorded_in_def)
  note one = length_one_more [OF rp cur(1) cur'(1)]
  have R: "reads_exact G" "covers md md2" "wf_event_log (hc_log h)" "wf_keys C (hc_wallet h)"
    using r by (simp_all add: replay_at_def)
  have wf': "wf_event_log (hc_log h')" using live_host_log [OF c] R(3) by auto
  have ex: "exports md rq" "exports md2 rq"
    using c R(2) one(2) by (auto simp: live_host_def covers_def split: if_splits)
  note l = R(3) cur(1) cur'(1) one(1) cur'(2)
  have "\<exists>n'. replay_host G md2 rq n st = Some (rs, n', replaying es cur') \<and> alike G B m' n' \<and> wf_keys C (hc_wallet h')"
  proof (cases rq)
    case (ReqRandBytes ptr len)
    with rand_replayed [OF c [unfolded ReqRandBytes] ex(2) [unfolded ReqRandBytes] rp [unfolded ReqRandBytes] b l] cur(2) R(4)
    show ?thesis by auto
  next
    case (ReqWalletReceipt index ptr len)
    with receipt_replayed [OF c [unfolded ReqWalletReceipt] ex(2) [unfolded ReqWalletReceipt] rp [unfolded ReqWalletReceipt] b l] cur(2) R(4)
    show ?thesis by auto
  next
    case (ReqHTTP u v x y z)
    with one(2) show ?thesis by simp
  next
    case (ReqWalletPay amount recip memoS rcpt)
    with c ex have "wallet_pay G (instance_wallet C) (the (hm_pay (the md))) amount recip memoS rcpt m h = (rs, m', h')"
      by (simp add: live_host_def)
    from pay_replayed [OF this R(1,4) b l] ReqWalletPay ex cur(2) show ?thesis by (auto simp: replay_host_def)
  qed (use plain_replayed [OF c ex(2) _ l] b cur(2) R(4) in \<open>auto simp: plain_def\<close>)
  with R cur' wf' show ?thesis by (auto simp: replay_at_def)
qed


interpretation rep: host_simulation G "alike G B" "live_host G (instance_wallet C) md" "replay_host G md2"
  "replay_at G C md md2 es" "recorded_in es" for G B C md md2 es
  by unfold_locales (rule bisimulation_alike, rule live_replayed)

text \<open>What is in the log at the end of a run contains, as prefixes, what was there after each host call; so
  being replayable call by call is being recorded in the final log.\<close>

lemma live_prefix:
  assumes "live_host G W md rq m h = Some (rs, m', h')" "wf_event_log (hc_log h)" "CurrentEntries (hc_log h) = Some cur"
  shows "wf_event_log (hc_log h') \<and> (\<exists>cur'. CurrentEntries (hc_log h') = Some cur' \<and> prefix cur cur')"
  using live_host_log [OF assms(1)] assms(2,3) by (auto simp: CurrentEntries_Record)

text \<open>A host that only ever appends to the current tick.\<close>

locale recording_host =
  fixes H :: "('m, 'w hc_state) host"
  assumes records: "H rq m h = Some (rs, m', h') \<Longrightarrow> wf_event_log (hc_log h) \<Longrightarrow> CurrentEntries (hc_log h) = Some cur \<Longrightarrow>
    wf_event_log (hc_log h') \<and> (\<exists>cur'. CurrentEntries (hc_log h') = Some cur' \<and> prefix cur cur')"
begin

lemma run_prefix:
  assumes "run_guest f G H m h = (r, m', h')" "wf_event_log (hc_log h)" "CurrentEntries (hc_log h) = Some cur"
  shows "\<exists>es. CurrentEntries (hc_log h') = Some es \<and> prefix cur es"
  using assms
proof (induction f arbitrary: m h cur)
  case (Suc f)
  show ?case
  proof (cases "g_event G m")
    case (GCall rq m1)
    show ?thesis
    proof (cases "H rq m1 h")
      case (Some x)
      then obtain rs m2 h2 where x: "H rq m1 h = Some (rs, m2, h2)" by (cases x) auto
      from records [OF this Suc.prems(2,3)] obtain cur2 where
        c: "wf_event_log (hc_log h2)" "CurrentEntries (hc_log h2) = Some cur2" "prefix cur cur2" by blast
      have "run_guest f G H (g_answer G rs m2) h2 = (r, m', h')" using Suc.prems(1) GCall x by simp
      from Suc.IH [OF this c(1,2)] c(3) show ?thesis using prefix_order.trans by blast
    qed (use Suc.prems GCall in simp)
  qed (use Suc.prems in auto)
qed simp

lemma run_recorded_in:
  assumes "run_guest f G H m h = (r, m', h')" "wf_event_log (hc_log h)" "CurrentEntries (hc_log h) = Some cur"
    "run_all replayable f G H m h" "CurrentEntries (hc_log h') = Some es"
  shows "run_all (recorded_in es) f G H m h"
  using assms
proof (induction f arbitrary: m h cur)
  case (Suc f)
  show ?case
  proof (cases "g_event G m")
    case (GCall rq m1)
    show ?thesis
    proof (cases "H rq m1 h")
      case (Some x)
      then obtain rs m2 h2 where x: "H rq m1 h = Some (rs, m2, h2)" by (cases x) auto
      from records [OF this Suc.prems(2,3)] obtain cur2 where
        c: "wf_event_log (hc_log h2)" "CurrentEntries (hc_log h2) = Some cur2" by blast
      have t: "run_guest f G H (g_answer G rs m2) h2 = (r, m', h')"
        "run_all replayable f G H (g_answer G rs m2) h2" "replayable rq rs h h2"
        using Suc.prems(1,4) GCall x by simp_all
      from run_prefix [OF t(1) c] Suc.prems(5) have "prefix cur2 es" by auto
      with Suc.IH [OF t(1) c t(2) Suc.prems(5)] GCall x t(3) c(2) show ?thesis by (simp add: recorded_in_def)
    qed (use GCall in simp)
  qed auto
qed simp

end

interpretation live: recording_host "live_host G W md" for G W md
  by unfold_locales (rule live_prefix)

text \<open>The recorded tick, replayed in an indistinguishable module, returns the same and uses up the log.\<close>

lemma call_replayed:
  assumes "call_fn f G (live_host G (instance_wallet C) md) name args m h = (Inr rs, m', h')"
    "wf_event_log (hc_log h)" "CurrentEntries (hc_log h) = Some []" "wf_keys C (hc_wallet h)"
    "run_all replayable f G (live_host G (instance_wallet C) md) (g_enter G name args m) h"
    "CurrentEntries (hc_log h') = Some es" "alike G B m n" "reads_exact G" "covers md md2"
  shows "\<exists>n'. call_fn f G (replay_host G md2) name args n \<lparr>rp_iter = \<lparr>it_entries = es, it_pos = 0\<rparr>, rp_err = None\<rparr> =
      (Inr rs, n', \<lparr>rp_iter = \<lparr>it_entries = es, it_pos = length es\<rparr>, rp_err = None\<rparr>) \<and> alike G B m' n'"
proof -
  have "run_all (recorded_in es) f G (live_host G (instance_wallet C) md) (g_enter G name args m) h"
    using live.run_recorded_in [OF assms(1) [unfolded call_fn_def] assms(2,3,5,6)] .
  moreover have "replay_at G C md md2 es h \<lparr>rp_iter = \<lparr>it_entries = es, it_pos = 0\<rparr>, rp_err = None\<rparr>"
    using assms by (simp add: replay_at_def)
  ultimately show ?thesis
    using rep.call_simulated [OF assms(1) _ assms(7), of es md2] assms(6) by (fastforce simp: replay_at_def)
qed


section \<open>Captures that leave the host alone\<close>

definition quiet :: "'m guest \<Rightarrow> string \<Rightarrow> uint64 list \<Rightarrow> 'm \<Rightarrow> bool" where
  "quiet G name args m = (case g_event G (g_enter G name args m) of GCall _ _ \<Rightarrow> False | _ \<Rightarrow> True)"

definition quiet_checkpoint :: "'m guest \<Rightarrow> bool" where
  "quiet_checkpoint G \<longleftrightarrow> (\<forall>m. quiet G ''agent_checkpoint'' [] m \<and> quiet G ''agent_checkpoint_ptr'' [] m)"

lemma quiet_call:
  assumes "quiet G name args m" "alike G B m n" "call_fn f G H1 name args m h = (r, m', h')"
  shows "h' = h \<and> (\<exists>n'. call_fn f G H2 name args n k = (r, n', k) \<and> alike G B m' n')"
proof (cases f)
  case 0
  with assms alikeD(2) [OF assms(2)] show ?thesis by (auto simp: call_fn_def)
next
  case (Suc j)
  have e: "alike G B (g_enter G name args m) (g_enter G name args n)" using alikeD(2) [OF assms(2)] .
  show ?thesis
    using assms(1,3) alikeD(3) [OF e] e Suc
    by (cases "g_event G (g_enter G name args m)"; cases "g_event G (g_enter G name args n)")
      (auto simp: call_fn_def quiet_def)
qed

lemma quiet_capture:
  assumes "quiet_checkpoint G" "alike G B m n" "CaptureState f G H1 m h = (r, m', h')"
  shows "h' = h \<and> (\<exists>n'. CaptureState f G H2 n k = (r, n', k) \<and> alike G B m' n')"
proof -
  note q = assms(1) [unfolded quiet_checkpoint_def, rule_format]
  obtain rc mc hc where c: "call_fn f G H1 ''agent_checkpoint'' [] m h = (rc, mc, hc)" using prod_cases3 by blast
  from quiet_call [OF conjunct1 [OF q] assms(2) c, of H2 k] obtain nc where
    c2: "hc = h" "call_fn f G H2 ''agent_checkpoint'' [] n k = (rc, nc, k)" "alike G B mc nc" by blast
  obtain rp mp hp where p: "call_fn f G H1 ''agent_checkpoint_ptr'' [] mc h = (rp, mp, hp)" using prod_cases3 by blast
  from quiet_call [OF conjunct2 [OF q] c2(3) p, of H2 k] obtain np where
    p2: "hp = h" "call_fn f G H2 ''agent_checkpoint_ptr'' [] nc k = (rp, np, k)" "alike G B mp np" by blast
  note ex = alikeD(1) [OF assms(2)] alikeD(1) [OF c2(3)] and rd = alikeD(5) [OF p2(3)]
  show ?thesis
  proof (cases "g_exported G m ''agent_checkpoint''")
    case True
    show ?thesis
      using assms(2,3) True c2(3) p2(3) rd
      by (auto simp: CaptureState_def c c2(1,2) p p2(1,2) ex [symmetric] Let_def split: if_splits sum.splits option.splits)
  qed (use assms ex in \<open>auto simp: CaptureState_def\<close>)
qed

lemma captureState_quiet:
  assumes "captureState S i w = (r, i', w')" "quiet_checkpoint (sy_guest S)"
  shows "w' = w \<and> (\<exists>m. i' = i\<lparr>in_Module := m\<rparr>)"
proof -
  obtain r1 m1 h1 where c: "CaptureState (sy_fuel S) (sy_guest S) (agent_host S i) (in_Module i) (enter_hc i w) = (r1, m1, h1)"
    using prod_cases3 by blast
  have "alike (sy_guest S) (=) (in_Module i) (in_Module i)" by (simp add: alike_def bisimulation_eq)
  from quiet_capture [OF assms(2) this c, of "agent_host S i" "enter_hc i w"] have "h1 = enter_hc i w" by blast
  with assms(1) have "(i', w') = leave_hc m1 (enter_hc i w) w" by (simp add: captureState_def c)
  then show ?thesis by (auto simp: leave_hc_def enter_hc_def intro!: exI [of _ m1])
qed


section \<open>A verified tick\<close>

lemma add_snapshot_last: "add_snapshot n snap w \<noteq> [] \<and> last (add_snapshot n snap w) = snap"
proof (cases "w = []")
  case True
  then show ?thesis by (auto simp: add_snapshot_def Let_def)
next
  case False
  let ?w = "w @ [snap]"
  have "2 \<le> length ?w" using False by (cases w) auto
  from evict_index [OF this refl] have "evict_scan 1 0 (observationScore (hd ?w)) (map observationScore (butlast (tl ?w))) < length w"
    by simp
  then show ?thesis by (simp add: add_snapshot_def Let_def)
qed

text \<open>The replay's fresh module, started and resumed from \<open>state\<close> without touching the iterator \<open>st\<close>.\<close>

definition boots_to ::
    "nat \<Rightarrow> 'm guest \<Rightarrow> unit result \<Rightarrow> 'm engine \<Rightarrow> bytes \<Rightarrow> CapabilityManifest option \<Rightarrow> bytes \<Rightarrow> replay_state \<Rightarrow> 'm \<Rightarrow> bool" where
  "boots_to fuel G wasi E wasmBytes capManifest state st n \<longleftrightarrow>
     (\<exists>md mo mo1 rs. wasi = Inr () \<and> registerReplayHostModule (en_instantiateHost E) capManifest = Inr md \<and>
        en_compile E wasmBytes = Inr () \<and> en_instantiate E wasmBytes md ''replay'' = Inr mo \<and>
        run_initialize fuel G (replay_host G md) mo st = (Inr rs, mo1, st) \<and>
        ResumeAgent fuel G (replay_host G md) state mo1 st = (Inr (), n, st))"

lemma covers_registered:
  assumes "RegisterHostModule a b (SetWalletPayState (SetPricingState (SetWalletState NewRegistry))) m = Inr md"
    "registerReplayHostModule c m = Inr md2"
  shows "covers md md2"
  unfolding covers_def
proof (intro allI impI)
  fix rq assume "exports md rq" "hostcall_id rq \<noteq> HTTPRequest"
  then show "exports md2 rq"
    using assms
    by (cases rq; cases md)
      (auto simp: RegisterHostModule_def registerReplayHostModule_def SetWalletPayState_def SetPricingState_def
        SetWalletState_def NewRegistry_def bindR_Inr_iff Let_def split: if_splits)
qed

lemma ReplayTick_ok:
  assumes "boots_to fuel G wasi E wasmBytes man state \<lparr>rp_iter = \<lparr>it_entries = Entries tk, it_pos = 0\<rparr>, rp_err = None\<rparr> n"
    "\<And>md. registerReplayHostModule (en_instantiateHost E) man = Inr md \<Longrightarrow>
       \<exists>n' n''. call_fn tickFuel G (replay_host G md) ''agent_tick'' [] n
         \<lparr>rp_iter = \<lparr>it_entries = Entries tk, it_pos = 0\<rparr>, rp_err = None\<rparr> =
         (Inr rs, n', \<lparr>rp_iter = \<lparr>it_entries = Entries tk, it_pos = length (Entries tk)\<rparr>, rp_err = None\<rparr>) \<and>
       CaptureState fuel G (replay_host G md) n' \<lparr>rp_iter = \<lparr>it_entries = Entries tk, it_pos = length (Entries tk)\<rparr>, rp_err = None\<rparr> =
         (Inr post, n'', \<lparr>rp_iter = \<lparr>it_entries = Entries tk, it_pos = length (Entries tk)\<rparr>, rp_err = None\<rparr>)"
    "g_exported G n ''agent_tick''"
  shows "ReplayTick fuel tickFuel G wasi E wasmBytes man state tk (Some post) =
    \<lparr>rr_Verified = True, rr_TickNumber = tl_TickNumber tk, rr_ReplayedState = post, rr_ExpectedState = Some post,
     rr_FirstDiffByte = -1, rr_Error = None\<rparr>"
proof -
  from assms(1) obtain md mo mo1 vs where b: "wasi = Inr ()" "registerReplayHostModule (en_instantiateHost E) man = Inr md"
    "en_compile E wasmBytes = Inr ()" "en_instantiate E wasmBytes md ''replay'' = Inr mo"
    "run_initialize fuel G (replay_host G md) mo \<lparr>rp_iter = \<lparr>it_entries = Entries tk, it_pos = 0\<rparr>, rp_err = None\<rparr> =
      (Inr vs, mo1, \<lparr>rp_iter = \<lparr>it_entries = Entries tk, it_pos = 0\<rparr>, rp_err = None\<rparr>)"
    "ResumeAgent fuel G (replay_host G md) state mo1 \<lparr>rp_iter = \<lparr>it_entries = Entries tk, it_pos = 0\<rparr>, rp_err = None\<rparr> =
      (Inr (), n, \<lparr>rp_iter = \<lparr>it_entries = Entries tk, it_pos = 0\<rparr>, rp_err = None\<rparr>)"
    by (auto simp: boots_to_def)
  with assms(2) [OF b(2)] assms(3) show ?thesis by (auto simp: ReplayTick_def Let_def remaining_def)
qed


text \<open>A recorded call that replays, followed by a capture that consults no host, gives a verified tick.\<close>

lemma ReplayTick_replayed:
  assumes boot: "\<And>st. boots_to fuel G wasi E wasmBytes man state st n" and q: "quiet_checkpoint G"
    and ex: "g_exported G n ''agent_tick''"
    and cap: "CaptureState fuel G H m2 h = (Inr post, m3, h3)"
    and call: "\<And>md. registerReplayHostModule (en_instantiateHost E) man = Inr md \<Longrightarrow>
       \<exists>n'. call_fn tickFuel G (replay_host G md) ''agent_tick'' [] n (replaying (Entries tk) []) =
         (Inr rs, n', replaying (Entries tk) (Entries tk)) \<and> alike G B m2 n'"
  shows "ReplayTick fuel tickFuel G wasi E wasmBytes man state tk (Some post) =
    \<lparr>rr_Verified = True, rr_TickNumber = tl_TickNumber tk, rr_ReplayedState = post, rr_ExpectedState = Some post,
     rr_FirstDiffByte = -1, rr_Error = None\<rparr>"
proof (rule ReplayTick_ok [OF boot _ ex, where rs = rs])
  fix md assume "registerReplayHostModule (en_instantiateHost E) man = Inr md"
  from call [OF this] obtain n' where
    r: "call_fn tickFuel G (replay_host G md) ''agent_tick'' [] n (replaying (Entries tk) []) =
      (Inr rs, n', replaying (Entries tk) (Entries tk))" "alike G B m2 n'" by blast
  from quiet_capture [OF q r(2) cap, of "replay_host G md" "replaying (Entries tk) (Entries tk)"] r(1)
  show "\<exists>n' n''. call_fn tickFuel G (replay_host G md) ''agent_tick'' [] n
         \<lparr>rp_iter = \<lparr>it_entries = Entries tk, it_pos = 0\<rparr>, rp_err = None\<rparr> =
         (Inr rs, n', replaying (Entries tk) (Entries tk)) \<and>
       CaptureState fuel G (replay_host G md) n' (replaying (Entries tk) (Entries tk)) =
         (Inr post, n'', replaying (Entries tk) (Entries tk))"
    by fastforce
qed


lemma ReplayTick_without_expectation:
  assumes "ReplayTick fuel tickFuel G wasi E wasmBytes man state tk (Some post) =
      \<lparr>rr_Verified = True, rr_TickNumber = n, rr_ReplayedState = post, rr_ExpectedState = Some post, rr_FirstDiffByte = -1, rr_Error = None\<rparr>"
  shows "rr_Error (ReplayTick fuel tickFuel G wasi E wasmBytes man state tk None) = None \<and>
    rr_ReplayedState (ReplayTick fuel tickFuel G wasi E wasmBytes man state tk None) = post"
proof -
  define boot where "boot = bindR (wrap_result ''replay: instantiate WASI'' wasi) (\<lambda>_.
    bindR (wrap_result ''replay: register host module'' (registerReplayHostModule (en_instantiateHost E) man)) (\<lambda>md.
    bindR (wrap_result ''replay: compile WASM'' (en_compile E wasmBytes)) (\<lambda>_.
    bindR (wrap_result ''replay: instantiate module'' (en_instantiate E wasmBytes md ''replay'')) (\<lambda>mo. Inr (md, mo)))))"
  note d = ReplayTick_def [of fuel tickFuel G wasi E wasmBytes man state tk, unfolded Let_def, folded boot_def]
  from assms obtain md mo where b: "boot = Inr (md, mo)" by (cases boot) (auto simp: d)
  let ?H = "replay_host G md" and ?st = "\<lparr>rp_iter = \<lparr>it_entries = Entries tk, it_pos = 0\<rparr>, rp_err = None\<rparr>"
  obtain r1 m1 s1 where i: "run_initialize fuel G ?H mo ?st = (r1, m1, s1)" using prod_cases3 by blast
  obtain r2 m2 s2 where u: "ResumeAgent fuel G ?H state m1 s1 = (r2, m2, s2)" using prod_cases3 by blast
  obtain r3 m3 s3 where t: "call_fn tickFuel G ?H ''agent_tick'' [] m2 s2 = (r3, m3, s3)" using prod_cases3 by blast
  obtain r4 m4 s4 where c: "CaptureState fuel G ?H m3 s3 = (r4, m4, s4)" using prod_cases3 by blast
  note d' = d b i u t c
  from assms obtain x1 where 1: "r1 = Inr x1" by (cases r1) (auto simp: d')
  from assms 1 obtain x2 where 2: "r2 = Inr x2" by (cases r2) (auto simp: d')
  from assms 1 2 have 3: "g_exported G m2 ''agent_tick''" by (rule_tac ccontr) (simp add: d')
  from assms 1 2 3 obtain x3 where 4: "r3 = Inr x3" by (cases r3) (auto simp: d')
  from assms 1 2 3 4 have 5: "rp_err s3 = None" by (cases "rp_err s3") (auto simp: d')
  from assms 1 2 3 4 5 have 6: "\<not> remaining (rp_iter s3) > 0" by (rule_tac notI) (simp add: d')
  from assms 1 2 3 4 5 6 obtain x4 where 7: "r4 = Inr x4" by (cases r4) (auto simp: d')
  from assms 1 2 3 4 5 6 7 have "x4 = post" by (simp add: d' split: if_splits)
  with 1 2 3 4 5 6 7 show ?thesis by (simp add: d')
qed

lemma SealTick_current:
  assumes "SealTick l = (sealed, l')" "CurrentEntries l = Some es"
  shows "\<exists>tk. sealed = Some tk \<and> Entries tk = es"
  using assms by (cases "el_current l") (auto simp: SealTick_def CurrentEntries_def Let_def)

lemma LatestSnapshot_finish:
  "LatestSnapshot (finish_tick C elapsed pre post sealed i) =
     Some \<lparr>sn_TickNumber = in_TickNumber i, sn_PreState = pre, sn_PostStateHash = Sum256 C post, sn_TickLog = sealed\<rparr>"
  by (simp add: LatestSnapshot_def finish_tick_def Let_def add_snapshot_last)

text \<open>The host calls of the tick that starts from \<open>i\<close> and \<open>w\<close> were all recorded.\<close>

definition tick_replayable :: "('m, 's, 'a) system \<Rightarrow> 'm Instance \<Rightarrow> ('s, 'a) world \<Rightarrow> bool" where
  "tick_replayable S i w =
     run_all replayable (sy_tickFuel S) (sy_guest S) (agent_host S (begin_tick i))
       (g_enter (sy_guest S) ''agent_tick'' [] (in_Module i)) (enter_hc (begin_tick i) w)"

text \<open>The argument, shared with migration.\<close>

lemma replay_tick_verified:
  assumes "Tick S elapsed i w = (Inr again, i', w')" "captureState S i w = (Inr pre, i1, w1)"
    and "wf_event_log (in_EventLog i)" "wf_keys (sy_crypto S) i" "reads_exact (sy_guest S)" "quiet_checkpoint (sy_guest S)"
    and "RegisterHostModule a b (SetWalletPayState (SetPricingState (SetWalletState NewRegistry))) (Some (in_Manifest i)) =
      Inr (in_Host i)"
    and "tick_replayable S i1 w1"
    and "\<And>st. boots_to (sy_fuel S) (sy_guest S) wasi E wasmBytes (Some (in_Manifest i)) pre st n"
    and "bisimulation (sy_guest S) B" "B (in_Module i1) n"
  shows "\<exists>snap tk post. LatestSnapshot i' = Some snap \<and> sn_PreState snap = pre \<and> sn_TickLog snap = Some tk \<and>
    sn_PostStateHash snap = Sum256 (sy_crypto S) post \<and>
    ReplayTick (sy_fuel S) (sy_tickFuel S) (sy_guest S) wasi E wasmBytes (Some (in_Manifest i)) pre tk (Some post) =
      \<lparr>rr_Verified = True, rr_TickNumber = tl_TickNumber tk, rr_ReplayedState = post, rr_ExpectedState = Some post,
       rr_FirstDiffByte = -1, rr_Error = None\<rparr>"
  using assms(1)
proof (cases rule: Tick_cases)
  case (done_ok pre' j1 v1 rs i2 w2 sealed el post i3)
  let ?G = "sy_guest S" and ?C = "sy_crypto S"
  from done_ok(3) assms(2) have eq: "pre' = pre" "j1 = i1" "v1 = w1" by auto
  from captureState_quiet [OF assms(2,6)] obtain m1 where i1: "i1 = i\<lparr>in_Module := m1\<rparr>" "w1 = w" by blast
  have al: "alike ?G B (in_Module i1) n" using assms by (simp add: alike_def)
  define i1' where "i1' = begin_tick i1"
  obtain m2 h2 where c: "call_fn (sy_tickFuel S) ?G (live_host ?G (instance_wallet ?C) (in_Host i)) ''agent_tick'' [] (in_Module i1)
      (enter_hc i1' w1) = (Inr rs, m2, h2)" "(i2, w2) = leave_hc m2 h2 w1"
    using done_ok(5) eq i1 by (auto simp: agent_call_def agent_host_def begin_tick_def i1'_def split: prod.splits)
  have h: "wf_event_log (hc_log (enter_hc i1' w1))" "CurrentEntries (hc_log (enter_hc i1' w1)) = Some []"
    "wf_keys ?C (hc_wallet (enter_hc i1' w1))"
    using assms(3,4) i1 by (simp_all add: enter_hc_def begin_tick_def i1'_def wf_keys_def)
  from live.run_prefix [OF c(1) [unfolded call_fn_def] h(1,2)] obtain es where es: "CurrentEntries (hc_log h2) = Some es" by blast
  have l2: "in_EventLog i2 = hc_log h2" "in_Module i2 = m2" using c(2) by (simp_all add: leave_hc_def)
  from SealTick_current [OF done_ok(6)] es l2 obtain tk where tk: "sealed = Some tk" "Entries tk = es" by auto
  have ra: "run_all replayable (sy_tickFuel S) ?G (live_host ?G (instance_wallet ?C) (in_Host i))
      (g_enter ?G ''agent_tick'' [] (in_Module i1)) (enter_hc i1' w1)"
    using assms(8) i1 by (simp add: tick_replayable_def agent_host_def i1'_def begin_tick_def)
  obtain h3 where cap: "CaptureState (sy_fuel S) ?G (agent_host S (i2\<lparr>in_EventLog := el\<rparr>)) m2 (enter_hc (i2\<lparr>in_EventLog := el\<rparr>) w2) =
      (Inr post, in_Module i3, h3)"
    using done_ok(7) l2 by (auto simp: captureState_def leave_hc_def split: prod.splits)
  have "ReplayTick (sy_fuel S) (sy_tickFuel S) ?G wasi E wasmBytes (Some (in_Manifest i)) pre tk (Some post) =
      \<lparr>rr_Verified = True, rr_TickNumber = tl_TickNumber tk, rr_ReplayedState = post, rr_ExpectedState = Some post,
       rr_FirstDiffByte = -1, rr_Error = None\<rparr>"
  proof (rule ReplayTick_replayed [OF assms(9,6) _ cap])
    show "g_exported ?G n ''agent_tick''"
      using done_ok(4) eq alikeD(1) [OF al] by (simp add: exported_def begin_tick_def)
  next
    fix md assume md: "registerReplayHostModule (en_instantiateHost E) (Some (in_Manifest i)) = Inr md"
    show "\<exists>n'. call_fn (sy_tickFuel S) ?G (replay_host ?G md) ''agent_tick'' [] n (replaying (Entries tk) []) =
         (Inr rs, n', replaying (Entries tk) (Entries tk)) \<and> alike ?G B m2 n'"
      using call_replayed [OF c(1) h ra es al assms(5) covers_registered [OF assms(7) md]] tk(2) by simp
  qed
  then show ?thesis using LatestSnapshot_finish done_ok(8) eq tk(1) by fastforce
qed simp_all



definition example_engine :: "example_agent engine" where
  "example_engine = \<lparr>en_closeHost = Inr (), en_instantiateHost = Inr (), en_compile = (\<lambda>_. Inr ()),
     en_instantiate = (\<lambda>_ _ _. Inr example_module)\<rparr>"

lemma quiet_example: "quiet_checkpoint example_guest"
  by (simp add: quiet_checkpoint_def quiet_def example_enter_def example_event_def)

lemma boots_example:
  "boots_to 10 example_guest (Inr ()) example_engine [0] clock_manifest (take 8 (xa_mem example_module)) st
     (example_module\<lparr>xa_pc := PcIdle, xa_args := []\<rparr>)"
  by (simp add: boots_to_def registerReplayHostModule_def example_engine_def run_initialize_def ResumeAgent_def
      call_fn_def run_guest_numeral example_enter_def example_event_def example_mem_write_def example_mem_read_def
      example_module_def result0_def Let_def flip: replicate_add)


lemma example_pre:
  "captureState example_system example_instance example_world =
     (Inr (take 8 (xa_mem example_module)), example_instance\<lparr>in_Module := example_module\<lparr>xa_pc := PcIdle, xa_args := []\<rparr>\<rparr>,
      example_world)"
  by (simp add: example_capture_instance example_module_def)

lemma example_tick_ok: "fst (Tick example_system 3000000 example_instance example_world) = Inr False"
  by (simp add: Tick_def example_capture_instance example_tick_call exported_def MockAdapter_def example_world_def
      example_module_def SealTick_def Record_def BeginTick_def NewEventLog_def Let_def split: option.split)

lemma example_tick_replayable:
  "tick_replayable example_system (example_instance\<lparr>in_Module := example_module\<lparr>xa_pc := PcIdle, xa_args := []\<rparr>\<rparr>) example_world"
  by (simp add: tick_replayable_def run_all_numeral example_enter_def example_event_def agent_host_def live_host_def
      begin_tick_def enter_hc_def clock_now_def replayable_def next_env_def CurrentEntries_Record Let_def)



section \<open>The chain host is the single-tick host\<close>

definition holding :: "replay_state \<Rightarrow> chain_state" where
  "holding st = \<lparr>ch_iter = Some (rp_iter st), ch_err = rp_err st\<rparr>"

lemma chain_next_holding:
  "chain_next hid (holding st) = (case entry_next hid (rp_iter st) of (r, it) \<Rightarrow> Some (r, holding (st\<lparr>rp_iter := it\<rparr>)))"
  by (simp add: chain_next_def holding_def split: prod.split)

lemma holding_err [simp]: "(holding st)\<lparr>ch_err := e\<rparr> = holding (st\<lparr>rp_err := e\<rparr>)"
  by (simp add: holding_def)

text \<open>The two copies of the replay host functions agree, answer by answer and so run by run.\<close>

lemma chain_host_holding:
  "chain_host G md rq m (holding st) =
     map_option (\<lambda>(rs, n, st'). (rs, n, holding st')) (replay_host G md rq m st)"
proof -
  obtain r it where nx: "entry_next (hostcall_id rq) (rp_iter st) = (r, it)" by fastforce
  show ?thesis
    using nx
    by (cases rq; cases r)
      (auto simp: chain_host_def replay_host_def chain_next_holding chain_clock_now_def replay_clock_now_def
        chain_rand_bytes_def replay_rand_bytes_def chain_log_emit_def replay_log_emit_def chain_wallet_balance_def
        replay_wallet_balance_def chain_wallet_receipt_count_def replay_wallet_receipt_count_def chain_wallet_receipt_def
        replay_wallet_receipt_def chain_node_price_def replay_node_price_def chain_wallet_pay_def replay_wallet_pay_def
        Let_def split: option.splits)
qed


lemma run_chain:
  "run_guest f G (chain_host G md) m (holding st) =
     (case run_guest f G (replay_host G md) m st of (r, n, st') \<Rightarrow> (r, n, holding st'))"
  by (induction f arbitrary: m st) (auto simp: chain_host_holding split: guest_event.splits option.splits)

text \<open>What replaying one tick on the single-tick host yields: the module afterwards, if the tick returned,
  no host call failed and the log was used up.\<close>

definition fresh_iter :: "ChainSnapshot \<Rightarrow> replay_state" where
  "fresh_iter snap = \<lparr>rp_iter = \<lparr>it_entries = (case cs_TickLog snap of None \<Rightarrow> [] | Some tk \<Rightarrow> Entries tk), it_pos = 0\<rparr>, rp_err = None\<rparr>"

definition replay_one :: "nat \<Rightarrow> 'm guest \<Rightarrow> host_module option \<Rightarrow> ChainSnapshot \<Rightarrow> 'm \<Rightarrow> 'm option" where
  "replay_one tickFuel G md snap m =
     (case call_fn tickFuel G (replay_host G md) ''agent_tick'' [] m (fresh_iter snap) of
        (Inr _, m', st) \<Rightarrow> if rp_err st = None \<and> remaining (rp_iter st) \<le> 0 then Some m' else None
      | _ \<Rightarrow> None)"

fun replay_all :: "nat \<Rightarrow> 'm guest \<Rightarrow> host_module option \<Rightarrow> ChainSnapshot list \<Rightarrow> 'm \<Rightarrow> 'm option" where
  "replay_all tickFuel G md [] m = Some m"
| "replay_all tickFuel G md (snap # snaps) m =
     (case replay_one tickFuel G md snap m of None \<Rightarrow> None | Some m' \<Rightarrow> replay_all tickFuel G md snaps m')"

lemma holding_fresh:
  "\<lparr>ch_iter = Some (case cs_TickLog snap of None \<Rightarrow> \<lparr>it_entries = [], it_pos = 0\<rparr> | Some tk \<Rightarrow> \<lparr>it_entries = Entries tk, it_pos = 0\<rparr>),
    ch_err = None\<rparr> = holding (fresh_iter snap)"
  by (simp add: holding_def fresh_iter_def split: option.split)

lemma chain_call:
  assumes "call_fn tickFuel G (replay_host G md) ''agent_tick'' [] m (fresh_iter snap) = (r, n, st)"
  shows "call_fn tickFuel G (chain_host G md) ''agent_tick'' [] m (holding (fresh_iter snap)) = (r, n, holding st)"
  using assms by (simp add: call_fn_def run_chain)

lemma chain_loop_Some:
  assumes "replay_one tickFuel G md snap m = Some m'"
  shows "chain_loop i tickFuel G (chain_host G md) m c (snap # snaps) =
     chain_loop (Suc i) tickFuel G (chain_host G md) m'
       (holding (snd (snd (call_fn tickFuel G (replay_host G md) ''agent_tick'' [] m (fresh_iter snap))))) snaps"
proof -
  obtain r n st where x: "call_fn tickFuel G (replay_host G md) ''agent_tick'' [] m (fresh_iter snap) = (r, n, st)"
    using prod_cases3 by blast
  from assms chain_call [OF x] show ?thesis
    by (cases r) (auto simp: replay_one_def x holding_fresh Let_def holding_def [of st] split: if_splits)
qed

lemma chain_loop_None:
  assumes "replay_one tickFuel G md snap m = None"
  shows "\<exists>e. chain_loop i tickFuel G (chain_host G md) m c (snap # snaps) = (i, Inl e)"
proof -
  obtain r n st where x: "call_fn tickFuel G (replay_host G md) ''agent_tick'' [] m (fresh_iter snap) = (r, n, st)"
    using prod_cases3 by blast
  from assms chain_call [OF x] show ?thesis
    by (cases r; cases "rp_err st") (auto simp: replay_one_def x holding_fresh Let_def holding_def [of st] split: if_splits)
qed

lemma chain_loop_all:
  "(\<exists>c'. chain_loop i tickFuel G (chain_host G md) m c snaps = (i + length snaps, Inr (m', c'))) \<longleftrightarrow>
     replay_all tickFuel G md snaps m = Some m'"
proof (induction snaps arbitrary: i m c)
  case (Cons snap snaps)
  show ?case
  proof (cases "replay_one tickFuel G md snap m")
    case None
    with chain_loop_None [OF None, of i c snaps] show ?thesis by auto
  next
    case (Some n)
    from Cons.IH [of "Suc i" n] show ?thesis by (simp only: chain_loop_Some [OF Some]) (simp add: Some)
  qed
qed auto

text \<open>
  The loop of \<open>ReplayChain\<close> does what replaying the ticks one by one with the single-tick host functions
  does: it gets through all snapshots, ending in module \<open>m'\<close>, exactly when each tick in turn returns, has no
  failed host call and uses up its own log on the single-tick host, and the last one ends in \<open>m'\<close>.  In
  particular no observation of one tick can be consumed by another.
\<close>

theorem chain_loop_replays_each_tick:
  "(\<exists>c'. chain_loop 0 tickFuel G (chain_host G md) m c snaps = (length snaps, Inr (m', c'))) \<longleftrightarrow>
     replay_all tickFuel G md snaps m = Some m'"
  using chain_loop_all [of 0] by simp

section \<open>What cannot be replayed\<close>

text \<open>
  Not every tick can be replayed.  The live \<open>rand_bytes\<close> and \<open>log_emit\<close> answer an empty request without
  recording it, while their replays always ask for an entry: where the log has none left they report an
  error.  And the replay host module never exports \<open>http_request\<close>, for whatever manifest.
\<close>

theorem replay_misses_unrecorded:
  "rand_bytes G ptr 0 m h = (ret_i32 0, m, h) \<and> log_emit G ptr 0 m h = ([], m, h) \<and>
   rp_err (snd (snd (replay_rand_bytes G ptr 0 m \<lparr>rp_iter = \<lparr>it_entries = es, it_pos = length es\<rparr>, rp_err = None\<rparr>))) =
     Some (NewError (''event log exhausted at position '' @ dec_nat (length es) @ '', expected hostcall 2'')) \<and>
   rp_err (snd (snd (replay_log_emit m \<lparr>rp_iter = \<lparr>it_entries = es, it_pos = length es\<rparr>, rp_err = None\<rparr>))) =
     Some (NewError (''event log exhausted at position '' @ dec_nat (length es) @ '', expected hostcall 3'')) \<and>
   replay_host G md (ReqHTTP a b c d e) m st = None"
proof -
  have "dec_nat 2 = ''2''" "dec_nat 3 = ''3''" by code_simp+
  then show ?thesis
    by (simp add: rand_bytes_def log_emit_def replay_rand_bytes_def replay_log_emit_def entry_next_def replay_host_def)
qed

end
