(* ===== verification/Inspector.thy ===== *)
theory Inspector
  imports Durability
begin

text \<open>
  Checkpoint inspection (\<open>internal/inspector\<close>): parsing one checkpoint for display, and the lineage
  verifier \<open>VerifyChain\<close>, which walks an agent's checkpoint history.  What the operating system returns for
  a directory listing and for each file is an argument.  The theorems characterise the verifier by a
  declarative chain condition, show that the checkpoints the agent builds satisfy it, and that a verified
  history is determined by its newest checkpoint unless SHA-256 collides.
\<close>

section \<open>Inspecting one checkpoint\<close>

definition hex_string :: "bytes \<Rightarrow> string" where
  "hex_string bs = concat (map hex_byte bs)"

record Result =
  ir_Version :: byte
  ir_Budget :: int64
  ir_BudgetFormatted :: string
  ir_PricePerSecond :: int64
  ir_PriceFormatted :: string
  ir_TickNumber :: uint64
  ir_WASMHash :: bytes
  ir_WASMHashHex :: string
  ir_Epoch :: EpochData
  ir_LeaseExpiry :: int64
  ir_StateSize :: nat
  ir_State :: bytes
  ir_TotalSize :: nat
  ir_WASMVerified :: "bool option"
  ir_WASMPath :: string
  ir_HasLineage :: bool
  ir_PrevHash :: bytes
  ir_PrevHashHex :: string
  ir_AgentPubKey :: bytes
  ir_AgentPubKeyHex :: string
  ir_SignatureValid :: "bool option"

definition Inspect :: "crypto \<Rightarrow> bytes \<Rightarrow> Result result" where
  "Inspect C data =
     bindR (wrap_result ''parse checkpoint'' (ParseCheckpointHeader data)) (\<lambda>(hdr, state).
       let r = \<lparr>ir_Version = hd_Version hdr, ir_Budget = hd_Budget hdr, ir_BudgetFormatted = budget_Format (hd_Budget hdr),
                ir_PricePerSecond = hd_PricePerSecond hdr, ir_PriceFormatted = budget_Format (hd_PricePerSecond hdr),
                ir_TickNumber = hd_TickNumber hdr, ir_WASMHash = hd_WASMHash hdr, ir_WASMHashHex = hex_string (hd_WASMHash hdr),
                ir_Epoch = hd_Epoch hdr, ir_LeaseExpiry = hd_LeaseExpiry hdr, ir_StateSize = length state, ir_State = state,
                ir_TotalSize = length data, ir_WASMVerified = None, ir_WASMPath = [], ir_HasLineage = hd_HasLineage hdr,
                ir_PrevHash = replicate 32 0, ir_PrevHashHex = [], ir_AgentPubKey = [], ir_AgentPubKeyHex = [],
                ir_SignatureValid = None\<rparr>
       in Inr (if hd_HasLineage hdr
               then r\<lparr>ir_PrevHash := hd_PrevHash hdr, ir_PrevHashHex := hex_string (hd_PrevHash hdr),
                      ir_AgentPubKey := hd_AgentPubKey hdr, ir_AgentPubKeyHex := hex_string (hd_AgentPubKey hdr),
                      ir_SignatureValid := Some (VerifyCheckpoint C (BuildSigningDomain (take 145 data) state)
                                                   (hd_AgentPubKey hdr) (hd_Signature hdr))\<rparr>
               else r))"

definition InspectFile :: "crypto \<Rightarrow> (string \<Rightarrow> bytes result) \<Rightarrow> string \<Rightarrow> Result result" where
  "InspectFile C read_file path = bindR (wrap_result ''read checkpoint'' (read_file path)) (Inspect C)"

definition VerifyWASM :: "crypto \<Rightarrow> (string \<Rightarrow> bytes result) \<Rightarrow> string \<Rightarrow> Result \<Rightarrow> unit result \<times> Result" where
  "VerifyWASM C read_file wasmPath r =
     (case wrap_result ''read WASM'' (read_file wasmPath) of
        Inl e \<Rightarrow> (Inl e, r)
      | Inr wasmBytes \<Rightarrow>
        let hash = Sum256 C wasmBytes;
            verified = (hash = ir_WASMHash r);
            r = r\<lparr>ir_WASMVerified := Some verified, ir_WASMPath := wasmPath\<rparr>
        in if \<not> verified
           then (Inl (NewError (''WASM hash mismatch: checkpoint='' @ ir_WASMHashHex r @ '' binary='' @ hex_string hash)), r)
           else (Inr (), r))"

section \<open>The lineage verifier\<close>

record ChainSegment =
  sg_WASMHashHex :: string
  sg_StartTick :: uint64
  sg_EndTick :: uint64
  sg_Count :: nat

record ChainResult =
  ic_AgentDID :: string
  ic_AgentPubKeyHex :: string
  ic_Checkpoints :: nat
  ic_FirstTick :: uint64
  ic_LastTick :: uint64
  ic_ChainValid :: bool
  ic_Errors :: "string list"
  ic_Segments :: "ChainSegment list"

record chainState =
  cs_prevContentHash :: bytes
  cs_prevTick :: uint64
  cs_currentSegment :: "ChainSegment option"
  cs_agentPubKey :: bytes

definition addError :: "string \<Rightarrow> ChainResult \<Rightarrow> ChainResult" where
  "addError msg r = r\<lparr>ic_Errors := ic_Errors r @ [msg]\<rparr>"

text \<open>\<open>filepath.Base\<close>.\<close>

definition filepath_Base :: "string \<Rightarrow> string" where
  "filepath_Base p =
     (let es = filter (\<lambda>e. e \<noteq> []) (split_on slash p)
      in if p = [] then ''.'' else if es = [] then [slash] else last es)"

definition listCheckpointFiles :: "(string \<times> bool) list result \<Rightarrow> string \<Rightarrow> string list result" where
  "listCheckpointFiles read_dir historyDir =
     bindR (wrap_result ''read history directory'' read_dir) (\<lambda>entries.
       let files = map (\<lambda>e. filepath_Join [historyDir, fst e])
                     (filter (\<lambda>e. \<not> snd e \<and> has_suffix (fst e) ''.ckpt'') entries)
       in if length files = 0 then Inl (NewError (''no checkpoint files found in '' @ historyDir))
          else Inr (sort files))"

abbreviation tick_msg :: "CheckpointHeader \<Rightarrow> string \<Rightarrow> string" where
  "tick_msg hdr msg \<equiv> ''tick '' @ dec_nat (unat (hd_TickNumber hdr)) @ '': '' @ msg"

definition verifyLineage ::
    "crypto \<Rightarrow> nat \<Rightarrow> bytes \<Rightarrow> CheckpointHeader \<Rightarrow> bytes \<Rightarrow> chainState \<Rightarrow> ChainResult \<Rightarrow> ChainResult" where
  "verifyLineage C i data hdr agentState cs result =
     (if \<not> hd_HasLineage hdr
      then (if i > 0 then addError (tick_msg hdr ''missing lineage (not v4)'') result else result)
      else
        let result = (if \<not> VerifyCheckpoint C (BuildSigningDomain (take 145 data) agentState) (hd_AgentPubKey hdr) (hd_Signature hdr)
                      then addError (tick_msg hdr ''INVALID signature'') result else result)
        in if i > 0
           then let result = (if hd_PrevHash hdr \<noteq> cs_prevContentHash cs
                              then addError (tick_msg hdr (''prevHash mismatch (expected '' @
                                     hex_string (take 8 (cs_prevContentHash cs)) @ ''..., got '' @
                                     hex_string (take 8 (hd_PrevHash hdr)) @ ''...)'')) result
                              else result)
                in if hd_AgentPubKey hdr \<noteq> cs_agentPubKey cs
                   then addError (tick_msg hdr ''agent identity changed'') result else result
           else result)"

definition updateSegments :: "CheckpointHeader \<Rightarrow> chainState \<Rightarrow> ChainResult \<Rightarrow> chainState \<times> ChainResult" where
  "updateSegments hdr cs result =
     (let wasmHex = hex_string (hd_WASMHash hdr)
      in case cs_currentSegment cs of
           Some seg \<Rightarrow>
             if sg_WASMHashHex seg \<noteq> wasmHex
             then let new = \<lparr>sg_WASMHashHex = wasmHex, sg_StartTick = hd_TickNumber hdr, sg_EndTick = hd_TickNumber hdr, sg_Count = 1\<rparr>
                  in (cs\<lparr>cs_currentSegment := Some new\<rparr>, result\<lparr>ic_Segments := ic_Segments result @ [new]\<rparr>)
             else let seg = seg\<lparr>sg_EndTick := hd_TickNumber hdr, sg_Count := sg_Count seg + 1\<rparr>
                  in (cs\<lparr>cs_currentSegment := Some seg\<rparr>, result\<lparr>ic_Segments := (ic_Segments result)[length (ic_Segments result) - 1 := seg]\<rparr>)
         | None \<Rightarrow>
             let new = \<lparr>sg_WASMHashHex = wasmHex, sg_StartTick = hd_TickNumber hdr, sg_EndTick = hd_TickNumber hdr, sg_Count = 1\<rparr>
             in (cs\<lparr>cs_currentSegment := Some new\<rparr>, result\<lparr>ic_Segments := ic_Segments result @ [new]\<rparr>))"

definition verifyCheckpoint ::
    "crypto \<Rightarrow> nat \<Rightarrow> bytes \<Rightarrow> CheckpointHeader \<Rightarrow> bytes \<Rightarrow> chainState \<Rightarrow> ChainResult \<Rightarrow> chainState \<times> ChainResult" where
  "verifyCheckpoint C i data hdr agentState cs result =
     (let result = (if i = 0 then result\<lparr>ic_FirstTick := hd_TickNumber hdr\<rparr> else result);
          cs = (if i = 0 \<and> hd_HasLineage hdr then cs\<lparr>cs_agentPubKey := hd_AgentPubKey hdr\<rparr> else cs);
          result = (if i = 0 \<and> hd_HasLineage hdr
                    then result\<lparr>ic_AgentPubKeyHex := hex_string (cs_agentPubKey cs),
                                ic_AgentDID := DID \<lparr>id_PublicKey = cs_agentPubKey cs, id_PrivateKey = []\<rparr>\<rparr>
                    else result);
          result = result\<lparr>ic_LastTick := hd_TickNumber hdr\<rparr>;
          result = (if i > 0 \<and> hd_TickNumber hdr \<le> cs_prevTick cs
                    then addError (tick_msg hdr (''non-monotonic (prev was '' @ dec_nat (unat (cs_prevTick cs)) @ '')'')) result
                    else result);
          result = verifyLineage C i data hdr agentState cs result;
          (cs, result) = updateSegments hdr cs result
      in (cs\<lparr>cs_prevContentHash := ContentHash C data, cs_prevTick := hd_TickNumber hdr\<rparr>, result))"

fun verify_loop ::
    "crypto \<Rightarrow> (string \<Rightarrow> bytes result) \<Rightarrow> nat \<Rightarrow> string list \<Rightarrow> chainState \<Rightarrow> ChainResult \<Rightarrow> ChainResult" where
  "verify_loop C read_file i [] cs result = result"
| "verify_loop C read_file i (f # files) cs result =
     (case read_file f of
        Inl readErr \<Rightarrow>
          verify_loop C read_file (Suc i) files cs
            (addError (''failed to read '' @ filepath_Base f @ '': '' @ error_string readErr) result)
      | Inr data \<Rightarrow>
        (case ParseCheckpointHeader data of
           Inl parseErr \<Rightarrow>
             verify_loop C read_file (Suc i) files cs
               (addError (''failed to parse '' @ filepath_Base f @ '': '' @ error_string parseErr) result)
         | Inr (hdr, agentState) \<Rightarrow>
           (case verifyCheckpoint C i data hdr agentState cs (result\<lparr>ic_Checkpoints := ic_Checkpoints result + 1\<rparr>) of
              (cs, result) \<Rightarrow> verify_loop C read_file (Suc i) files cs result)))"

definition new_chain_state :: chainState where
  "new_chain_state = \<lparr>cs_prevContentHash = replicate 32 0, cs_prevTick = 0, cs_currentSegment = None, cs_agentPubKey = []\<rparr>"

definition new_chain_result :: ChainResult where
  "new_chain_result = \<lparr>ic_AgentDID = [], ic_AgentPubKeyHex = [], ic_Checkpoints = 0, ic_FirstTick = 0, ic_LastTick = 0,
     ic_ChainValid = True, ic_Errors = [], ic_Segments = []\<rparr>"

definition VerifyChain ::
    "crypto \<Rightarrow> (string \<times> bool) list result \<Rightarrow> (string \<Rightarrow> bytes result) \<Rightarrow> string \<Rightarrow> ChainResult result" where
  "VerifyChain C read_dir read_file historyDir =
     bindR (listCheckpointFiles read_dir historyDir) (\<lambda>files.
       let result = verify_loop C read_file 0 files new_chain_state new_chain_result
       in Inr (if length (ic_Errors result) > 0 then result\<lparr>ic_ChainValid := False\<rparr> else result))"


section \<open>What the verifier checks\<close>

definition tick_of :: "bytes \<Rightarrow> uint64" where
  "tick_of d = (case ParseCheckpointHeader d of Inl _ \<Rightarrow> 0 | Inr (hdr, _) \<Rightarrow> hd_TickNumber hdr)"

definition prev_of :: "bytes \<Rightarrow> bytes" where
  "prev_of d = (case ParseCheckpointHeader d of Inl _ \<Rightarrow> [] | Inr (hdr, _) \<Rightarrow> hd_PrevHash hdr)"

definition signature_ok :: "crypto \<Rightarrow> bytes \<Rightarrow> CheckpointHeader \<times> bytes \<Rightarrow> bool" where
  "signature_ok C d p = VerifyCheckpoint C (BuildSigningDomain (take 145 d) (snd p)) (hd_AgentPubKey (fst p)) (hd_Signature (fst p))"

definition signed_by :: "crypto \<Rightarrow> bytes \<Rightarrow> bytes \<Rightarrow> bool" where
  "signed_by C key d =
     (case ParseCheckpointHeader d of
        Inl _ \<Rightarrow> False
      | Inr p \<Rightarrow> hd_HasLineage (fst p) \<and> hd_AgentPubKey (fst p) = key \<and> signature_ok C d p)"

text \<open>The rest of a history after a checkpoint with content hash \<open>ph\<close> and tick \<open>pt\<close>.\<close>

fun chain_ok :: "crypto \<Rightarrow> bytes \<Rightarrow> bytes \<Rightarrow> uint64 \<Rightarrow> bytes list \<Rightarrow> bool" where
  "chain_ok C key ph pt [] = True"
| "chain_ok C key ph pt (d # ds) =
     (signed_by C key d \<and> prev_of d = ph \<and> pt < tick_of d \<and> chain_ok C key (ContentHash C d) (tick_of d) ds)"

definition history_ok :: "crypto \<Rightarrow> bytes list \<Rightarrow> bool" where
  "history_ok C ds =
     (case ds of
        [] \<Rightarrow> True
      | d # ds \<Rightarrow>
        (case ParseCheckpointHeader d of
           Inl _ \<Rightarrow> False
         | Inr p \<Rightarrow> (hd_HasLineage (fst p) \<longrightarrow> signature_ok C d p) \<and>
                    chain_ok C (hd_AgentPubKey (fst p)) (ContentHash C d) (tick_of d) ds))"

lemma addError_simps [simp]:
  "ic_Errors (addError msg r) = ic_Errors r @ [msg]" "ic_ChainValid (addError msg r) = ic_ChainValid r"
  by (simp_all add: addError_def)

lemma verifyLineage_Errors:
  "ic_Errors (verifyLineage C i d hdr st cs r) = [] \<longleftrightarrow>
     ic_Errors r = [] \<and> (if hd_HasLineage hdr then signature_ok C d (hdr, st) \<and>
        (i > 0 \<longrightarrow> hd_PrevHash hdr = cs_prevContentHash cs \<and> hd_AgentPubKey hdr = cs_agentPubKey cs) else i = 0)"
  by (simp add: verifyLineage_def signature_ok_def Let_def)

lemma verifyLineage_valid [simp]: "ic_ChainValid (verifyLineage C i d hdr st cs r) = ic_ChainValid r"
  by (simp add: verifyLineage_def Let_def)

lemma updateSegments_simps [simp]:
  "ic_Errors (snd (updateSegments hdr cs r)) = ic_Errors r" "ic_ChainValid (snd (updateSegments hdr cs r)) = ic_ChainValid r"
  "cs_agentPubKey (fst (updateSegments hdr cs r)) = cs_agentPubKey cs"
  by (simp_all add: updateSegments_def Let_def split: option.split)

lemma verifyCheckpoint_state:
  "cs_prevContentHash (fst (verifyCheckpoint C i d hdr st cs r)) = ContentHash C d"
  "cs_prevTick (fst (verifyCheckpoint C i d hdr st cs r)) = hd_TickNumber hdr"
  "cs_agentPubKey (fst (verifyCheckpoint C i d hdr st cs r)) =
     (if i = 0 \<and> hd_HasLineage hdr then hd_AgentPubKey hdr else cs_agentPubKey cs)"
  "ic_ChainValid (snd (verifyCheckpoint C i d hdr st cs r)) = ic_ChainValid r"
  by (simp_all add: verifyCheckpoint_def Let_def case_prod_unfold)

lemma verifyCheckpoint_Errors:
  "ic_Errors (snd (verifyCheckpoint C i d hdr st cs r)) = [] \<longleftrightarrow>
     ic_Errors r = [] \<and> (i > 0 \<longrightarrow> cs_prevTick cs < hd_TickNumber hdr) \<and>
     (if hd_HasLineage hdr then signature_ok C d (hdr, st) \<and>
        (i > 0 \<longrightarrow> hd_PrevHash hdr = cs_prevContentHash cs \<and> hd_AgentPubKey hdr = cs_agentPubKey cs) else i = 0)"
  by (auto simp: verifyCheckpoint_def Let_def case_prod_unfold verifyLineage_Errors not_le)

lemma verify_loop_valid: "ic_ChainValid (verify_loop C rf i files cs r) = ic_ChainValid r"
  by (induction files arbitrary: i cs r)
    (simp_all add: verifyCheckpoint_state case_prod_unfold split: sum.split prod.split)

lemma verify_loop_keeps_errors: "ic_Errors r \<noteq> [] \<Longrightarrow> ic_Errors (verify_loop C rf i files cs r) \<noteq> []"
proof (induction files arbitrary: i cs r)
  case (Cons f files)
  then show ?case
    using verifyCheckpoint_Errors [of C i _ _ _ cs "r\<lparr>ic_Checkpoints := ic_Checkpoints r + 1\<rparr>"]
    by (auto simp: case_prod_unfold split: sum.split)
qed simp

lemma verify_loop_chain:
  "ic_Errors (verify_loop C rf (Suc i) files cs r) = [] \<longleftrightarrow>
     ic_Errors r = [] \<and> (\<exists>ds. map rf files = map Inr ds \<and>
       chain_ok C (cs_agentPubKey cs) (cs_prevContentHash cs) (cs_prevTick cs) ds)"
proof (induction files arbitrary: i cs r)
  case (Cons f files)
  show ?case
  proof (cases "rf f")
    case (Inl e)
    then show ?thesis by (auto simp: verify_loop_keeps_errors)
  next
    case rd: (Inr d)
    show ?thesis
    proof (cases "ParseCheckpointHeader d")
      case (Inl e)
      then show ?thesis by (auto simp: rd verify_loop_keeps_errors signed_by_def Cons_eq_map_conv)
    next
      case (Inr p)
      then show ?thesis
        by (auto simp: rd Cons.IH case_prod_unfold verifyCheckpoint_Errors verifyCheckpoint_state signed_by_def
            tick_of_def prev_of_def Cons_eq_map_conv)
    qed
  qed
qed auto


lemma verify_loop_history:
  "ic_Errors (verify_loop C rf 0 files new_chain_state new_chain_result) = [] \<longleftrightarrow>
     (\<exists>ds. map rf files = map Inr ds \<and> history_ok C ds)"
proof (cases files)
  case (Cons f files')
  show ?thesis
  proof (cases "rf f")
    case (Inl e)
    then show ?thesis by (auto simp: Cons verify_loop_keeps_errors)
  next
    case rd: (Inr d)
    show ?thesis
    proof (cases "ParseCheckpointHeader d")
      case (Inl e)
      then show ?thesis by (auto simp: Cons rd verify_loop_keeps_errors history_ok_def Cons_eq_map_conv)
    next
      case (Inr p)
      have key: "\<not> hd_HasLineage (fst p) \<Longrightarrow> hd_AgentPubKey (fst p) = []"
        using Inr by (cases p) (auto simp: ParseCheckpointHeader_def Let_def bindR_Inr_iff split: if_splits)
      show ?thesis
        using Inr key
        by (auto simp: Cons rd verify_loop_chain case_prod_unfold verifyCheckpoint_Errors verifyCheckpoint_state history_ok_def
            tick_of_def Cons_eq_map_conv new_chain_result_def new_chain_state_def)
    qed
  qed
qed (simp add: history_ok_def new_chain_result_def)


section \<open>The histories an agent writes\<close>

lemma chain_ok_snoc:
  "chain_ok C key ph pt (ds @ [d]) \<longleftrightarrow> chain_ok C key ph pt ds \<and> signed_by C key d \<and>
     prev_of d = (if ds = [] then ph else ContentHash C (last ds)) \<and> (if ds = [] then pt else tick_of (last ds)) < tick_of d"
  by (induction ds arbitrary: ph pt) auto

lemma history_ok_snoc:
  assumes "history_ok C ds" "\<forall>x \<in> set ds. signed_by C key x" "signed_by C key d"
    "ds \<noteq> [] \<longrightarrow> prev_of d = ContentHash C (last ds) \<and> tick_of (last ds) < tick_of d"
  shows "history_ok C (ds @ [d])"
proof (cases ds)
  case Nil
  with assms(3) show ?thesis by (auto simp: history_ok_def signed_by_def split: sum.splits)
next
  case (Cons x xs)
  then obtain p where p: "ParseCheckpointHeader x = Inr p" "hd_AgentPubKey (fst p) = key"
    using assms(2) by (auto simp: signed_by_def split: sum.splits)
  with assms Cons show ?thesis by (auto simp: history_ok_def chain_ok_snoc)
qed

text \<open>What happens to an agent between two saves: it may tick, migrate or be restarted, as long as it keeps its
  identity, the hash of its last checkpoint, and a tick number that does not go back.\<close>

definition carried_on :: "'m Instance \<Rightarrow> 'm Instance \<Rightarrow> bool" where
  "carried_on j k \<longleftrightarrow> in_AgentIdentity k = in_AgentIdentity j \<and> in_PrevCheckpointHash k = in_PrevCheckpointHash j"

definition savable :: "crypto \<Rightarrow> 'm Instance \<Rightarrow> bool" where
  "savable C j \<longleftrightarrow> wf_keys C j \<and> length (in_PrevCheckpointHash j) = 32 \<and> 0 \<le> sint (in_Budget j) \<and>
     0 \<le> sint (in_PricePerSecond j) \<and> length (in_WASMHash j) = 32"

inductive writes_history :: "crypto \<Rightarrow> 'm Instance \<Rightarrow> bytes list \<Rightarrow> 'm Instance \<Rightarrow> bool" for C i where
  start: "writes_history C i [] i"
| carry_on: "writes_history C i ds j \<Longrightarrow> carried_on j k \<Longrightarrow> writes_history C i ds k"
| save: "writes_history C i ds j \<Longrightarrow> savable C j \<Longrightarrow> (ds \<noteq> [] \<longrightarrow> tick_of (last ds) < in_TickNumber j) \<Longrightarrow>
    buildCheckpoint C state j = (Inr d, k) \<Longrightarrow> writes_history C i (ds @ [d]) k"

lemma built_signed:
  assumes "buildCheckpoint C state j = (Inr d, k)" "savable C j" "in_AgentIdentity j = Some a"
  shows "signed_by C (id_PublicKey a) d \<and> prev_of d = in_PrevCheckpointHash j \<and> tick_of d = in_TickNumber j \<and>
    in_PrevCheckpointHash k = ContentHash C d \<and> in_AgentIdentity k = Some a"
  using buildCheckpoint_parse [OF assms(1)] assms(2,3)
  by (auto simp: savable_def signed_by_def prev_of_def tick_of_def signature_ok_def)

lemma writes_history_ok:
  assumes "writes_history C i ds j" "in_AgentIdentity i = Some a"
  shows "history_ok C ds \<and> (\<forall>d \<in> set ds. signed_by C (id_PublicKey a) d) \<and> in_AgentIdentity j = Some a \<and>
    (ds \<noteq> [] \<longrightarrow> in_PrevCheckpointHash j = ContentHash C (last ds))"
  using assms(1)
proof (induction rule: writes_history.induct)
  case start
  with assms(2) show ?case by (simp add: history_ok_def)
next
  case (carry_on ds j k)
  then show ?case by (simp add: carried_on_def)
next
  case (save ds j state d k)
  note b = built_signed [OF save.hyps(4,2), of a]
  have "history_ok C (ds @ [d])"
    using save b by (intro history_ok_snoc [where key = "id_PublicKey a"]) auto
  with save.IH b show ?case by auto
qed

lemma Tick_carried_on:
  assumes "Tick S elapsed i w = (r, i', w')" "wf_event_log (in_EventLog i)"
  shows "carried_on i i'"
proof -
  have b: "carried_on j (begin_tick j)" "carried_on j (finish_tick C elapsed pre post sealed j)" for j :: "'a Instance" and C pre post sealed
    by (simp_all add: carried_on_def begin_tick_def finish_tick_def Let_def)
  have s: "carried_on j k" if "spent j k" for j k :: "'a Instance"
    using spent_fields [OF that] by (simp add: carried_on_def)
  have e: "carried_on j (k\<lparr>in_EventLog := l\<rparr>) \<longleftrightarrow> carried_on j k" for j k :: "'a Instance" and l by (simp add: carried_on_def)
  have t: "carried_on i k" if "carried_on i j" "carried_on j k" for i j k :: "'a Instance"
    using that by (simp add: carried_on_def)
  show ?thesis using assms(1)
  proof (cases rule: Tick_cases)
    case (no_pre e)
    then show ?thesis using captureState_spent [OF _ assms(2)] s by blast
  next
    case (no_tick pre i1)
    then show ?thesis using captureState_spent [OF _ assms(2)] s b t by blast
  next
    case (failed e pre i1 w1 i2 sealed el)
    then show ?thesis
      using captureState_spent [OF failed(2) assms(2)] agent_call_spent [OF failed(3) begin_tick_wf] s b(1) t \<open>i' = _\<close>
      by (metis e)
  next
    case (no_post e pre i1 w1 rs i2 w2 sealed el)
    have "wf_event_log (in_EventLog i1)" "carried_on i i1" using captureState_spent [OF no_post(2) assms(2)] s by blast+
    with agent_call_spent [OF no_post(3) begin_tick_wf] have "wf_event_log (in_EventLog i2)" "carried_on i i2" using s b(1) t by blast+
    moreover have "carried_on (i2\<lparr>in_EventLog := el\<rparr>) i'"
      using captureState_spent [OF no_post(5)] SealTick_wf [OF no_post(4)] \<open>wf_event_log (in_EventLog i2)\<close> by (intro s) simp
    ultimately show ?thesis by (auto simp: carried_on_def)
  next
    case (done_ok pre i1 w1 rs i2 w2 sealed el post i3)
    have "wf_event_log (in_EventLog i1)" "carried_on i i1" using captureState_spent [OF done_ok(3) assms(2)] s by blast+
    with agent_call_spent [OF done_ok(5) begin_tick_wf] have "wf_event_log (in_EventLog i2)" "carried_on i i2" using s b(1) t by blast+
    moreover have "carried_on (i2\<lparr>in_EventLog := el\<rparr>) i3"
      using captureState_spent [OF done_ok(7)] SealTick_wf [OF done_ok(6)] \<open>wf_event_log (in_EventLog i2)\<close> by (intro s) simp
    ultimately have "carried_on i i3" by (auto simp: carried_on_def)
    with b(2) t done_ok(8) show ?thesis by blast
  qed (simp add: carried_on_def)
qed


section \<open>Properties\<close>

lemma VerifyChain_accepts:
  assumes "listCheckpointFiles read_dir historyDir = Inr files"
  shows "(\<exists>r. VerifyChain C read_dir read_file historyDir = Inr r \<and> ic_ChainValid r) \<longleftrightarrow>
    (\<exists>ds. map read_file files = map Inr ds \<and> history_ok C ds)"
  using verify_loop_history [of C read_file files] verify_loop_valid [of C read_file 0 files new_chain_state new_chain_result]
  by (simp add: VerifyChain_def assms Let_def) (simp add: new_chain_result_def)

text \<open>An agent with the key \<open>7, 7, ...\<close> and its first checkpoint, as an example.\<close>

definition sample_signer :: "example_agent Instance" where
  "sample_signer = example_instance\<lparr>in_AgentIdentity := Some \<lparr>id_PublicKey = replicate 32 7, id_PrivateKey = replicate 64 7\<rparr>\<rparr>"

lemma savable_sample: "savable sample_crypto sample_signer"
  by (simp add: savable_def sample_signer_def wf_keys_def wf_identity_def to_array_def)

lemma sample_signer_builds: "\<exists>d k. buildCheckpoint sample_crypto [5] sample_signer = (Inr d, k)"
  by (simp add: buildCheckpoint_def sample_signer_def build_v4_def SignCheckpoint_def Let_def)

lemma sample_listing: "listCheckpointFiles (Inr [(''old'', True), (''0000000001.ckpt'', False)]) ''h'' = Inr [''h/0000000001.ckpt'']"
  by code_simp

lemma sample_history: "\<exists>d k. writes_history sample_crypto sample_signer [d] k"
  using writes_history.save [OF writes_history.start savable_sample] sample_signer_builds by fastforce

lemma sample_history2: "\<exists>d e k. writes_history sample_crypto sample_signer [d, e] k"
proof -
  obtain d k where b: "buildCheckpoint sample_crypto [5] sample_signer = (Inr d, k)" using sample_signer_builds by blast
  have k: "k = sample_signer\<lparr>in_PrevCheckpointHash := ContentHash sample_crypto d\<rparr>"
    using b by (auto simp: buildCheckpoint_def sample_signer_def split: sum.splits)
  let ?j = "k\<lparr>in_TickNumber := 9\<rparr>"
  have h: "writes_history sample_crypto sample_signer [d] ?j"
    using writes_history.carry_on [OF writes_history.save [OF writes_history.start savable_sample _ b], of ?j]
    by (simp add: carried_on_def)
  have t: "tick_of d = 0"
    using built_signed [OF b savable_sample] by (auto simp: sample_signer_def)
  have sv: "savable sample_crypto ?j"
    using savable_sample by (simp add: savable_def k wf_keys_def)
  obtain e l where "buildCheckpoint sample_crypto [6] ?j = (Inr e, l)"
    by (simp add: k buildCheckpoint_def sample_signer_def build_v4_def SignCheckpoint_def Let_def)
  with writes_history.save [OF h sv] t show ?thesis by (fastforce simp: k)
qed

text \<open>
  C6 The lineage verifier is exact: over a directory with checkpoint files, it reports a valid chain exactly
  when every file can be read and parsed, the first one carries a valid signature if it has lineage, and every later one is a
  version 4 checkpoint signed by the same key, with a strictly greater tick number, whose previous hash is the
  content hash of the file before it.
\<close>

theorem VerifyChain_valid_iff:
  assumes "listCheckpointFiles read_dir historyDir = Inr files"
  shows "(\<exists>r. VerifyChain C read_dir read_file historyDir = Inr r \<and> ic_ChainValid r) \<longleftrightarrow>
    (\<exists>ds. map read_file files = map Inr ds \<and> history_ok C ds)"
  by (rule VerifyChain_accepts [OF assms])

theorem VerifyChain_valid_iff_witness:
  "\<not> (\<exists>r. VerifyChain sample_crypto (Inr [(''old'', True), (''0000000001.ckpt'', False)]) (\<lambda>_. Inr [9]) ''h'' = Inr r \<and> ic_ChainValid r)"
proof -
  have "\<not> history_ok sample_crypto [[9]]" by code_simp
  then show ?thesis using VerifyChain_valid_iff [OF sample_listing, of sample_crypto "\<lambda>_. Inr [9]"] by auto
qed

text \<open>
  C7 What an agent with an identity writes, the verifier accepts: if an agent's checkpoints were built one after
  the other, with ticks, restarts or migrations in between that keep identity and lineage hash, and each at a
  higher tick than the one before, then \<open>VerifyChain\<close> over a directory that holds exactly these checkpoints in order
  reports a valid chain.
\<close>

theorem agent_history_verifies:
  assumes "writes_history C i ds j" "in_AgentIdentity i = Some a"
    "listCheckpointFiles read_dir historyDir = Inr files" "map read_file files = map Inr ds"
  shows "\<exists>r. VerifyChain C read_dir read_file historyDir = Inr r \<and> ic_ChainValid r"
  using VerifyChain_accepts [OF assms(3)] writes_history_ok [OF assms(1,2)] assms(4) by blast

theorem agent_history_verifies_witness:
  "\<exists>d r. VerifyChain sample_crypto (Inr [(''old'', True), (''0000000001.ckpt'', False)]) (\<lambda>_. Inr d) ''h'' = Inr r \<and>
     ic_ChainValid r"
proof -
  obtain d k where h: "writes_history sample_crypto sample_signer [d] k" using sample_history by blast
  from agent_history_verifies [OF h _ sample_listing, of _ "\<lambda>_. Inr d"] show ?thesis by (auto simp: sample_signer_def)
qed

lemma chain_ok_links:
  "chain_ok C key ph pt ds \<Longrightarrow> Suc n < length ds \<Longrightarrow> prev_of (ds ! Suc n) = ContentHash C (ds ! n)"
proof (induction ds arbitrary: ph pt n)
  case (Cons d ds)
  then show ?case by (cases n; cases ds) auto
qed simp

lemma history_ok_links: "history_ok C ds \<Longrightarrow> Suc n < length ds \<Longrightarrow> prev_of (ds ! Suc n) = ContentHash C (ds ! n)"
proof -
  assume h: "history_ok C ds" "Suc n < length ds"
  then obtain d rest key where ds: "ds = d # rest" "chain_ok C key (ContentHash C d) (tick_of d) rest"
    by (cases ds) (auto simp: history_ok_def split: sum.splits)
  show ?thesis
  proof (cases n)
    case 0
    with ds h(2) show ?thesis by (cases rest) auto
  next
    case (Suc k)
    with chain_ok_links [OF ds(2), of k] ds(1) h(2) show ?thesis by simp
  qed
qed

lemma chain_ok_prefix: "chain_ok C key ph pt (xs @ ys) \<Longrightarrow> chain_ok C key ph pt xs"
  by (induction xs arbitrary: ph pt) auto

lemma history_ok_prefix: "history_ok C (xs @ ys) \<Longrightarrow> history_ok C xs"
  by (cases xs) (auto simp: history_ok_def dest: chain_ok_prefix split: sum.splits)

text \<open>Reading two linked histories backwards from the same checkpoint: they agree as far as both reach, or
  somewhere two different checkpoints have the same hash.\<close>

lemma links_agree:
  assumes "history_ok C (xs @ [z])" "history_ok C (ys @ [z])" "length xs \<le> length ys"
    "\<forall>x \<in> set xs. \<forall>y \<in> set ys. ContentHash C x = ContentHash C y \<longrightarrow> x = y"
  shows "\<exists>zs. ys = zs @ xs"
  using assms
proof (induction xs arbitrary: ys z rule: rev_induct)
  case (snoc x xs)
  then obtain y ys' where ys: "ys = ys' @ [y]" by (cases ys rule: rev_cases) auto
  from history_ok_links [OF snoc.prems(1), of "length xs"] history_ok_links [OF snoc.prems(2), of "length ys'"]
  have "ContentHash C x = ContentHash C y" by (simp add: nth_append ys)
  with snoc.prems(4) ys have xy: "x = y" by simp
  have "history_ok C (xs @ [x])" "history_ok C (ys' @ [x])"
    using history_ok_prefix [of C "xs @ [x]" "[z]"] history_ok_prefix [of C "ys' @ [x]" "[z]"] snoc.prems(1,2) ys xy by simp_all
  from snoc.IH [OF this] snoc.prems(3,4) ys xy show ?case by auto
qed simp



end
