(* ===== verification/Config.thy ===== *)
theory Config
  imports Authority Manifest
begin

text \<open>
  \<open>src/internal/config/config.go\<close> and the command-line overrides of \<open>src/cmd/igord-lab/main.go\<close>:
  the node's configuration, its defaults, its validation and how flags change it.  The random node
  identifier is an argument.  \<open>%v\<close> and \<open>%f\<close> of durations and floats in error texts are left to
  the arguments \<open>showDuration\<close> and \<open>showFloat\<close>.
\<close>

record Config =
  cfg_NodeID :: string
  cfg_ListenAddress :: string
  cfg_PricePerSecond :: int64
  cfg_BootstrapPeers :: "string list"
  cfg_CheckpointDir :: string
  cfg_ReplayWindowSize :: int
  cfg_VerifyInterval :: int
  cfg_ReplayMode :: string
  cfg_ReplayCostLog :: bool
  cfg_ReplayOnDivergence :: string
  cfg_LeaseDuration :: int64
  cfg_LeaseRenewalWindow :: rat
  cfg_LeaseGracePeriod :: int64
  cfg_MigrationMaxRetries :: int
  cfg_MigrationRetryDelay :: int64

definition default_config :: "string \<Rightarrow> Config" where
  "default_config nodeID =
     \<lparr>cfg_NodeID = nodeID, cfg_ListenAddress = ''/ip4/0.0.0.0/tcp/4001'', cfg_PricePerSecond = 1000,
      cfg_BootstrapPeers = [], cfg_CheckpointDir = ''./checkpoints'', cfg_ReplayWindowSize = 16,
      cfg_VerifyInterval = 5, cfg_ReplayMode = ''full'', cfg_ReplayCostLog = False, cfg_ReplayOnDivergence = ''log'',
      cfg_LeaseDuration = 60 * Second, cfg_LeaseRenewalWindow = 1 / 2, cfg_LeaseGracePeriod = 10 * Second,
      cfg_MigrationMaxRetries = 3, cfg_MigrationRetryDelay = Second\<rparr>"

definition config_Validate :: "(int64 \<Rightarrow> string) \<Rightarrow> (rat \<Rightarrow> string) \<Rightarrow> Config \<Rightarrow> unit result" where
  "config_Validate showDuration showFloat c =
     (if sint (cfg_PricePerSecond c) \<le> 0
      then Inl (NewError (''PricePerSecond must be positive, got '' @ dec_int (sint (cfg_PricePerSecond c))))
      else if cfg_ReplayWindowSize c < 0
      then Inl (NewError (''ReplayWindowSize must be non-negative, got '' @ dec_int (cfg_ReplayWindowSize c)))
      else if cfg_VerifyInterval c < 0
      then Inl (NewError (''VerifyInterval must be non-negative, got '' @ dec_int (cfg_VerifyInterval c)))
      else if cfg_ReplayMode c \<notin> {''off'', ''periodic'', ''on-migrate'', ''full''}
      then Inl (NewError (''ReplayMode must be one of off/periodic/on-migrate/full, got '' @ quote_q (cfg_ReplayMode c)))
      else if cfg_ReplayOnDivergence c \<notin> {''log'', ''pause'', ''intensify'', ''migrate''}
      then Inl (NewError (''ReplayOnDivergence must be one of log/pause/intensify/migrate, got '' @ quote_q (cfg_ReplayOnDivergence c)))
      else if cfg_MigrationMaxRetries c < 0
      then Inl (NewError (''MigrationMaxRetries must be non-negative, got '' @ dec_int (cfg_MigrationMaxRetries c)))
      else if sint (cfg_MigrationRetryDelay c) < 0
      then Inl (NewError (''MigrationRetryDelay must be non-negative, got '' @ showDuration (cfg_MigrationRetryDelay c)))
      else if sint (cfg_LeaseDuration c) < 0
      then Inl (NewError (''LeaseDuration must be non-negative, got '' @ showDuration (cfg_LeaseDuration c)))
      else if sint (cfg_LeaseDuration c) > 0 \<and> (cfg_LeaseRenewalWindow c \<le> 0 \<or> cfg_LeaseRenewalWindow c \<ge> 1)
      then Inl (NewError (''LeaseRenewalWindow must be in (0, 1), got '' @ showFloat (cfg_LeaseRenewalWindow c)))
      else if sint (cfg_LeaseDuration c) > 0 \<and> sint (cfg_LeaseGracePeriod c) < 0
      then Inl (NewError (''LeaseGracePeriod must be non-negative, got '' @ showDuration (cfg_LeaseGracePeriod c)))
      else Inr ())"

definition config_Load :: "(int64 \<Rightarrow> string) \<Rightarrow> (rat \<Rightarrow> string) \<Rightarrow> string \<Rightarrow> Config result" where
  "config_Load showDuration showFloat nodeID =
     (let cfg = default_config nodeID
      in bindR (wrap_result ''invalid config'' (config_Validate showDuration showFloat cfg)) (\<lambda>_. Inr cfg))"

text \<open>The flags of the lab node that change the configuration.\<close>

record lab_flags =
  fl_replayWindow :: int
  fl_verifyInterval :: int
  fl_replayMode :: string
  fl_replayCostLog :: bool
  fl_replayOnDivergence :: string
  fl_leaseDuration :: int64
  fl_leaseGrace :: int64
  fl_migrationRetries :: int
  fl_migrationRetryDelay :: int64

definition applyCLIOverrides :: "lab_flags \<Rightarrow> Config \<Rightarrow> Config" where
  "applyCLIOverrides f cfg =
     (let cfg = (if fl_replayWindow f > 0 then cfg\<lparr>cfg_ReplayWindowSize := fl_replayWindow f\<rparr> else cfg);
          cfg = (if fl_verifyInterval f > 0 then cfg\<lparr>cfg_VerifyInterval := fl_verifyInterval f\<rparr> else cfg);
          cfg = (if fl_replayMode f \<noteq> '''' then cfg\<lparr>cfg_ReplayMode := fl_replayMode f\<rparr> else cfg);
          cfg = (if fl_replayCostLog f then cfg\<lparr>cfg_ReplayCostLog := True\<rparr> else cfg);
          cfg = (if fl_replayOnDivergence f \<noteq> '''' then cfg\<lparr>cfg_ReplayOnDivergence := fl_replayOnDivergence f\<rparr> else cfg);
          cfg = cfg\<lparr>cfg_LeaseDuration := fl_leaseDuration f\<rparr>;
          cfg = cfg\<lparr>cfg_LeaseGracePeriod := fl_leaseGrace f\<rparr>;
          cfg = (if fl_migrationRetries f > 0 then cfg\<lparr>cfg_MigrationMaxRetries := fl_migrationRetries f\<rparr> else cfg);
          cfg = (if sint (fl_migrationRetryDelay f) > 0 then cfg\<lparr>cfg_MigrationRetryDelay := fl_migrationRetryDelay f\<rparr> else cfg)
      in cfg)"

definition lease_config :: "Config \<Rightarrow> LeaseConfig" where
  "lease_config cfg =
     \<lparr>lc_Duration = cfg_LeaseDuration cfg, lc_RenewalWindow = cfg_LeaseRenewalWindow cfg, lc_GracePeriod = cfg_LeaseGracePeriod cfg\<rparr>"

section \<open>What validation guarantees\<close>

lemma config_Load_ok: "config_Load sd sf nodeID = Inr (default_config nodeID)"
  by (simp add: config_Load_def config_Validate_def default_config_def)

lemma config_Validate_ok_iff:
  "config_Validate sd sf c = Inr () \<longleftrightarrow>
     0 < sint (cfg_PricePerSecond c) \<and> 0 \<le> cfg_ReplayWindowSize c \<and> 0 \<le> cfg_VerifyInterval c \<and>
     cfg_ReplayMode c \<in> {''off'', ''periodic'', ''on-migrate'', ''full''} \<and>
     cfg_ReplayOnDivergence c \<in> {''log'', ''pause'', ''intensify'', ''migrate''} \<and>
     0 \<le> cfg_MigrationMaxRetries c \<and> 0 \<le> sint (cfg_MigrationRetryDelay c) \<and>
     (sint (cfg_LeaseDuration c) = 0 \<or> LeaseConfig_Validate (lease_config c) = Inr ())"
  by (auto simp: config_Validate_def LeaseConfig_Validate_def lease_config_def not_less not_le)

text \<open>
  Validation accepts exactly the usable configurations: it succeeds if and only if the price is positive, the
  sizes are not negative, mode and policy are known words, and leases are either off or given by a
  configuration that \<open>LeaseConfig.Validate\<close> accepts; the defaults of \<open>Load\<close> pass.
\<close>

theorem config_Validate_exact:
  "(config_Validate sd sf c = Inr () \<longleftrightarrow>
     0 < sint (cfg_PricePerSecond c) \<and> 0 \<le> cfg_ReplayWindowSize c \<and> 0 \<le> cfg_VerifyInterval c \<and>
     cfg_ReplayMode c \<in> {''off'', ''periodic'', ''on-migrate'', ''full''} \<and>
     cfg_ReplayOnDivergence c \<in> {''log'', ''pause'', ''intensify'', ''migrate''} \<and>
     0 \<le> cfg_MigrationMaxRetries c \<and> 0 \<le> sint (cfg_MigrationRetryDelay c) \<and>
     (sint (cfg_LeaseDuration c) = 0 \<or> LeaseConfig_Validate (lease_config c) = Inr ())) \<and>
   config_Load sd sf nodeID = Inr (default_config nodeID)"
  using config_Validate_ok_iff config_Load_ok by blast

text \<open>The overrides are applied after validation and are not validated again.\<close>

lemma overrides_unvalidated:
  assumes "fl_replayMode f = ''always''"
  shows "\<exists>cfg. config_Load sd sf nodeID = Inr cfg \<and> config_Validate sd sf (applyCLIOverrides f cfg) \<noteq> Inr ()"
proof -
  have "cfg_ReplayMode (applyCLIOverrides f (default_config nodeID)) = ''always''"
    using assms by (simp add: applyCLIOverrides_def Let_def)
  then show ?thesis by (auto simp: config_Load_ok config_Validate_ok_iff)
qed

end
