(* ===== verification/Runner.thy ===== *)
theory Runner
  imports Config Migration
begin

text \<open>
  \<open>src/internal/runner/runner.go\<close>, \<open>src/internal/runner/research/research.go\<close> and the tick loops of
  \<open>src/cmd/igord/main.go\<close> and \<open>src/cmd/igord-lab/main.go\<close>: one agent driven by timers and signals.
  A loop's \<open>select\<close> is a list of events, in the order they arrive; each event carries what the
  clock and the runtime return while it is handled.  Log lines, banners and the deferred \<open>Close\<close>
  calls are left out.
\<close>

section \<open>One tick, and what follows it\<close>

datatype DivergenceAction = DivergenceNone | DivergenceLog | DivergencePause | DivergenceIntensify | DivergenceMigrate

text \<open>A panic below \<open>Tick\<close> is an event of the surroundings: its value and the state it leaves.\<close>

type_synonym ('m, 's, 'a) panic = "(string \<times> 'm Instance \<times> ('s, 'a) world) option"

definition SafeTick ::
    "('m, 's, 'a) panic \<Rightarrow> ('m, 's, 'a) system \<Rightarrow> int64 \<Rightarrow> 'm Instance \<Rightarrow> ('s, 'a) world \<Rightarrow> bool result \<times> 'm Instance \<times> ('s, 'a) world" where
  "SafeTick panicked S elapsed i w =
     (case panicked of
        Some (r, i, w) \<Rightarrow> (Inl (NewError (''tick panicked: '' @ r)), i, w)
      | None \<Rightarrow> Tick S elapsed i w)"

definition trySaveCheckpoint ::
    "('m, 's, 'a) system \<Rightarrow> int64 \<Rightarrow> 'm Instance \<Rightarrow> ('s, 'a) world \<Rightarrow> 'm Instance \<times> ('s, 'a) world" where
  "trySaveCheckpoint S now i w = snd (SaveCheckpointToStorage S now i w)"

definition HandleTickFailure ::
    "('m, 's, 'a) system \<Rightarrow> int64 \<Rightarrow> go_error \<Rightarrow> 'm Instance \<Rightarrow> ('s, 'a) world \<Rightarrow> go_error \<times> 'm Instance \<times> ('s, 'a) world" where
  "HandleTickFailure S now tickErr i w = (tickErr, trySaveCheckpoint S now i w)"

definition EscalationForPolicy :: "string \<Rightarrow> DivergenceAction" where
  "EscalationForPolicy policy =
     (if policy = ''pause'' then DivergencePause
      else if policy = ''intensify'' then DivergenceIntensify
      else if policy = ''migrate'' then DivergenceMigrate
      else DivergenceLog)"

definition LoadManifestData :: "(string \<Rightarrow> bytes result) \<Rightarrow> string \<Rightarrow> string \<Rightarrow> bytes" where
  "LoadManifestData read_file wasmPath manifestPathFlag = LoadSidecarData read_file wasmPath manifestPathFlag"

section \<open>Leases and verification\<close>

type_synonym ('m, 's, 'a) MigrationTrigger = "string \<Rightarrow> 'm Instance \<Rightarrow> ('s, 'a) world \<Rightarrow> unit result \<times> 'm Instance \<times> ('s, 'a) world"

definition HandleDivergenceAction ::
    "('m, 's, 'a) system \<Rightarrow> int64 \<Rightarrow> DivergenceAction \<Rightarrow> ('m, 's, 'a) MigrationTrigger option \<Rightarrow> Config \<Rightarrow> 'm Instance \<Rightarrow>
     ('s, 'a) world \<Rightarrow> bool \<times> Config \<times> 'm Instance \<times> ('s, 'a) world" where
  "HandleDivergenceAction S now action migrateFn cfg i w =
     (case action of
        DivergencePause \<Rightarrow> (True, cfg, trySaveCheckpoint S now i w)
      | DivergenceIntensify \<Rightarrow> (False, cfg\<lparr>cfg_VerifyInterval := 1\<rparr>, i, w)
      | DivergenceMigrate \<Rightarrow>
          (case migrateFn of
             Some f \<Rightarrow>
               (case f (in_AgentID i) i w of
                  (Inr _, i, w) \<Rightarrow> (True, cfg, i, w)
                | (Inl _, i, w) \<Rightarrow> (True, cfg, trySaveCheckpoint S now i w))
           | None \<Rightarrow> (True, cfg, trySaveCheckpoint S now i w))
      | _ \<Rightarrow> (False, cfg, i, w))"

text \<open>\<open>clk k\<close> is the \<open>k\<close>-th reading of the clock while the event is handled.\<close>

definition CheckAndRenewLease :: "(nat \<Rightarrow> instant) \<Rightarrow> 'm Instance \<Rightarrow> go_error option \<times> 'm Instance" where
  "CheckAndRenewLease clk i =
     (case in_Lease i of
        None \<Rightarrow> (None, i)
      | Some lease \<Rightarrow>
        (case ValidateForTick (clk 0) lease of
           (Some err, lease) \<Rightarrow> (Some err, i\<lparr>in_Lease := Some lease\<rparr>)
         | (None, lease) \<Rightarrow>
           if NeedsRenewal (clk 1) lease
           then (None, i\<lparr>in_Lease := Some (snd (Renew (clk 2) (clk 3) lease))\<rparr>)
           else (None, i\<lparr>in_Lease := Some lease\<rparr>)))"

definition HandleLeaseExpiry ::
    "('m, 's, 'a) system \<Rightarrow> int64 \<Rightarrow> go_error \<Rightarrow> 'm Instance \<Rightarrow> ('s, 'a) world \<Rightarrow> go_error \<times> 'm Instance \<times> ('s, 'a) world" where
  "HandleLeaseExpiry S now leaseErr i w = (leaseErr, trySaveCheckpoint S now i w)"

definition AttemptLeaseRecovery ::
    "('m, 's, 'a) system \<Rightarrow> instant \<Rightarrow> int64 \<Rightarrow> 'm Instance \<Rightarrow> ('s, 'a) world \<Rightarrow> unit result \<times> 'm Instance \<times> ('s, 'a) world" where
  "AttemptLeaseRecovery S t now i w =
     (case in_Lease i of
        None \<Rightarrow> (Inl (NewError ''lease recovery: no lease configured''), i, w)
      | Some lease \<Rightarrow>
        (case Recover t lease of
           (Some e, lease) \<Rightarrow> (Inl (WrapError ''lease recovery'' e), i\<lparr>in_Lease := Some lease\<rparr>, w)
         | (None, lease) \<Rightarrow> (Inr (), trySaveCheckpoint S now (i\<lparr>in_Lease := Some lease\<rparr>) w)))"

fun verify_window ::
    "('m, 's, 'a) system \<Rightarrow> unit result \<Rightarrow> 'm engine \<Rightarrow> 'm Instance \<Rightarrow> uint64 \<Rightarrow> string \<Rightarrow> TickSnapshot list \<Rightarrow> uint64 \<times> DivergenceAction" where
  "verify_window S wasi E i lastVerified policy [] = (lastVerified, DivergenceNone)"
| "verify_window S wasi E i lastVerified policy (snap # snaps) =
     (if sn_TickNumber snap \<le> lastVerified then verify_window S wasi E i lastVerified policy snaps
      else case sn_TickLog snap of
        None \<Rightarrow> verify_window S wasi E i lastVerified policy snaps
      | Some tk \<Rightarrow>
        if length (Entries tk) = 0 then verify_window S wasi E i lastVerified policy snaps
        else
          let result = ReplayTick (sy_fuel S) (sy_tickFuel S) (sy_guest S) wasi E (in_WASMBytes i) (Some (in_Manifest i))
                         (sn_PreState snap) tk None
          in if rr_Error result \<noteq> None then (sn_TickNumber snap, EscalationForPolicy policy)
             else if Sum256 (sy_crypto S) (rr_ReplayedState result) \<noteq> sn_PostStateHash snap
             then (sn_TickNumber snap, EscalationForPolicy policy)
             else (sn_TickNumber snap, DivergenceNone))"

definition VerifyNextTick ::
    "('m, 's, 'a) system \<Rightarrow> unit result \<Rightarrow> 'm engine \<Rightarrow> 'm Instance \<Rightarrow> uint64 \<Rightarrow> string \<Rightarrow> uint64 \<times> DivergenceAction" where
  "VerifyNextTick S wasi E i lastVerified policy = verify_window S wasi E i lastVerified policy (in_ReplayWindow i)"

text \<open>\<open>priv\<close> is what the peer store holds for the host: nothing, or the outcome of reading the raw key.\<close>

definition ExtractSigningKey :: "bytes result option \<Rightarrow> string \<Rightarrow> bytes option \<times> string" where
  "ExtractSigningKey priv hostID =
     (case priv of
        None \<Rightarrow> (None, '''')
      | Some (Inl _) \<Rightarrow> (None, '''')
      | Some (Inr raw) \<Rightarrow> if length raw \<noteq> PrivateKeySize then (None, '''') else (Some raw, hostID))"

section \<open>The lab node's loop\<close>

record ('m, 's, 'a) tick_input =
  ti_clock :: "nat \<Rightarrow> instant"
  ti_elapsed :: int64
  ti_now :: int64
  ti_panic :: "('m, 's, 'a) panic"

record ('m, 's, 'a) lab_state =
  lb_instance :: "'m Instance"
  lb_world :: "('s, 'a) world"
  lb_cfg :: Config
  lb_ticksSinceVerify :: int
  lb_lastVerifiedTick :: uint64

datatype tickResult = tickNormal | tickFastPath | tickRecovered | tickStopped

definition handleTick ::
    "('m, 's, 'a) system \<Rightarrow> unit result \<Rightarrow> 'm engine \<Rightarrow> bool \<Rightarrow> ('m, 's, 'a) tick_input \<Rightarrow> ('m, 's, 'a) lab_state \<Rightarrow>
     tickResult result \<times> ('m, 's, 'a) lab_state" where
  "handleTick S wasi E periodicVerify t st =
     (case CheckAndRenewLease (ti_clock t) (lb_instance st) of
        (Some leaseErr, i) \<Rightarrow>
          let recovery = (if in_Lease i \<noteq> None \<and> ls_State (the (in_Lease i)) = StateRecoveryRequired
                          then Some (AttemptLeaseRecovery S (ti_clock t 4) (ti_now t) i (lb_world st)) else None)
          in (case recovery of
                Some (Inr _, i, w) \<Rightarrow> (Inr tickRecovered, st\<lparr>lb_instance := i, lb_world := w\<rparr>)
              | Some (Inl _, i, w) \<Rightarrow>
                (case HandleLeaseExpiry S (ti_now t) leaseErr i w of
                   (e, i, w) \<Rightarrow> (Inl e, st\<lparr>lb_instance := i, lb_world := w\<rparr>))
              | None \<Rightarrow>
                (case HandleLeaseExpiry S (ti_now t) leaseErr i (lb_world st) of
                   (e, i, w) \<Rightarrow> (Inl e, st\<lparr>lb_instance := i, lb_world := w\<rparr>)))
      | (None, i) \<Rightarrow>
        (case SafeTick (ti_panic t) S (ti_elapsed t) i (lb_world st) of
           (Inl tickErr, i, w) \<Rightarrow>
             (case HandleTickFailure S (ti_now t) tickErr i w of
                (e, i, w) \<Rightarrow> (Inl e, st\<lparr>lb_instance := i, lb_world := w\<rparr>))
         | (Inr hasMoreWork, i, w) \<Rightarrow>
             let n = lb_ticksSinceVerify st + 1;
                 next_result = (if hasMoreWork then tickFastPath else tickNormal);
                 st = st\<lparr>lb_instance := i, lb_world := w, lb_ticksSinceVerify := n\<rparr>
             in if periodicVerify \<and> cfg_VerifyInterval (lb_cfg st) > 0 \<and> n \<ge> cfg_VerifyInterval (lb_cfg st)
                then case VerifyNextTick S wasi E i (lb_lastVerifiedTick st) (cfg_ReplayOnDivergence (lb_cfg st)) of
                  (lastVerified, action) \<Rightarrow>
                    (case HandleDivergenceAction S (ti_now t) action None (lb_cfg st) i w of
                       (stop, cfg, i, w) \<Rightarrow>
                         let st = st\<lparr>lb_ticksSinceVerify := 0, lb_lastVerifiedTick := lastVerified, lb_cfg := cfg,
                                     lb_instance := i, lb_world := w\<rparr>
                         in (Inr (if stop then tickStopped else next_result), st))
                else (Inr next_result, st)))"

datatype ('m, 's, 'a) loop_event =
    EvTick "('m, 's, 'a) tick_input"
  | EvCheckpoint int64
  | EvSignal int64
  | EvDone go_error

datatype loop_exit = Running | Exited "go_error option"

fun lab_loop ::
    "('m, 's, 'a) system \<Rightarrow> unit result \<Rightarrow> 'm engine \<Rightarrow> bool \<Rightarrow> ('m, 's, 'a) loop_event list \<Rightarrow> ('m, 's, 'a) lab_state \<Rightarrow>
     loop_exit \<times> ('m, 's, 'a) lab_state" where
  "lab_loop S wasi E pv [] st = (Running, st)"
| "lab_loop S wasi E pv (EvDone e # evs) st = (Exited (Some e), st)"
| "lab_loop S wasi E pv (EvSignal now # evs) st =
     (case SaveCheckpointToStorage S now (lb_instance st) (lb_world st) of
        (_, i, w) \<Rightarrow> (Exited None, st\<lparr>lb_instance := i, lb_world := w\<rparr>))"
| "lab_loop S wasi E pv (EvTick t # evs) st =
     (case handleTick S wasi E pv t st of
        (Inl e, st) \<Rightarrow> (Exited (Some e), st)
      | (Inr tickStopped, st) \<Rightarrow> (Exited None, st)
      | (Inr _, st) \<Rightarrow> lab_loop S wasi E pv evs st)"
| "lab_loop S wasi E pv (EvCheckpoint now # evs) st =
     (case SaveCheckpointToStorage S now (lb_instance st) (lb_world st) of
        (_, i, w) \<Rightarrow> lab_loop S wasi E pv evs (st\<lparr>lb_instance := i, lb_world := w\<rparr>))"

text \<open>\<open>initLocalAgent\<close>; registering the agent with the migration service stores a reference to the same instance and
  has no effect here.  \<open>now\<close> is read when the lease is granted.\<close>

definition initLocalAgent ::
    "('m, 's, 'a) system \<Rightarrow> Config \<Rightarrow> instant \<Rightarrow> 'm Instance \<Rightarrow> ('s, 'a) world \<Rightarrow> unit result \<times> 'm Instance \<times> ('s, 'a) world" where
  "initLocalAgent S cfg now i w =
     (let i = SetReplayWindowSize (cfg_ReplayWindowSize cfg) i
      in case agent_Init S i w of
           (Inl e, i, w) \<Rightarrow> (Inl (WrapError ''failed to initialize agent'' e), i, w)
         | (Inr _, i, w) \<Rightarrow>
           (case LoadCheckpointFromStorage S i w of
              (_, i, w) \<Rightarrow>
                (Inr (), if sint (cfg_LeaseDuration cfg) > 0 then i\<lparr>in_Lease := Some (NewLease (lease_config cfg) now)\<rparr> else i, w)))"

definition runLocalAgent ::
    "('m, 's, 'a) system \<Rightarrow> unit result \<Rightarrow> 'm engine \<Rightarrow> (bytes \<Rightarrow> manifestJSON result) \<Rightarrow> (string \<Rightarrow> bytes result) \<Rightarrow>
     (bytes \<times> bytes) result \<Rightarrow> bytes result option \<Rightarrow> string \<Rightarrow> Config \<Rightarrow> string \<Rightarrow> int64 \<Rightarrow> string \<Rightarrow> instant \<Rightarrow>
     ('m, 's, 'a) loop_event list \<Rightarrow> ('s, 'a) world \<Rightarrow> loop_exit \<times> ('m, 's, 'a) lab_state option" where
  "runLocalAgent S wasi E decode read_file keygen priv hostID cfg wasmPath budgetMicrocents manifestPathFlag now evs w =
     (let manifestData = LoadManifestData read_file wasmPath manifestPathFlag;
          (signingKey, nodeID) = ExtractSigningKey priv hostID
      in case LoadOrGenerate (sy_crypto S) keygen (pv_LoadIdentity (sy_storage S)) (pv_SaveIdentity (sy_storage S)) ''local-agent'' (wo_store w) of
           (Inl e, _) \<Rightarrow> (Exited (Some (WrapError ''agent identity'' e)), None)
         | (Inr ident, s) \<Rightarrow>
           let w = w\<lparr>wo_store := s\<rparr>;
               a = \<lparr>la_agentID = ''local-agent'', la_budget = budgetMicrocents, la_price = cfg_PricePerSecond cfg,
                    la_manifest = manifestData, la_signingKey = signingKey, la_nodeID = nodeID, la_identity = Some ident\<rparr>
           in case LoadAgent S E decode read_file wasmPath a (wo_env w) of
                (Inl e, _) \<Rightarrow> (Exited (Some (WrapError ''failed to load agent'' e)), None)
              | (Inr i, ev) \<Rightarrow>
                (case initLocalAgent S cfg now i (w\<lparr>wo_env := ev\<rparr>) of
                   (Inl e, _) \<Rightarrow> (Exited (Some e), None)
                 | (Inr _, i, w) \<Rightarrow>
                   map_prod id Some (lab_loop S wasi E (cfg_ReplayMode cfg = ''periodic'' \<or> cfg_ReplayMode cfg = ''full'') evs
                     \<lparr>lb_instance = i, lb_world = w, lb_cfg = cfg, lb_ticksSinceVerify = 0, lb_lastVerifiedTick = 0\<rparr>)))"

section \<open>The product node\<close>

fun igord_loop ::
    "('m, 's, 'a) system \<Rightarrow> ('m, 's, 'a) loop_event list \<Rightarrow> 'm Instance \<Rightarrow> ('s, 'a) world \<Rightarrow> loop_exit \<times> 'm Instance \<times> ('s, 'a) world" where
  "igord_loop S [] i w = (Running, i, w)"
| "igord_loop S (EvDone e # evs) i w = (Exited None, i, w)"
| "igord_loop S (EvSignal now # evs) i w =
     (case SaveCheckpointToStorage S now i w of (_, i, w) \<Rightarrow> (Exited None, i, w))"
| "igord_loop S (EvTick t # evs) i w =
     (case SafeTick (ti_panic t) S (ti_elapsed t) i w of
        (Inl _, i, w) \<Rightarrow> (case SaveCheckpointToStorage S (ti_now t) i w of (_, i, w) \<Rightarrow> (Exited None, i, w))
      | (Inr hasMore, i, w) \<Rightarrow> igord_loop S evs i w)"
| "igord_loop S (EvCheckpoint now # evs) i w =
     (case SaveCheckpointToStorage S now i w of (_, i, w) \<Rightarrow> igord_loop S evs i w)"

text \<open>The start of an agent up to its tick loop, with the budget already converted by \<open>FromFloat\<close>; \<open>None\<close> in the result means the process exits with status 1.
  \<open>S\<close> holds the guest, the crypto and the mock adapter; the storage is the provider on \<open>checkpointDir\<close>.\<close>

definition at_dir :: "string \<Rightarrow> ('m, os_state, 'a) system \<Rightarrow> ('m, os_state, 'a) system" where
  "at_dir checkpointDir S = S\<lparr>sy_storage := fs_provider checkpointDir\<rparr>"

definition start_agent ::
    "('m, os_state, 'a) system \<Rightarrow> 'm engine \<Rightarrow> (bytes \<Rightarrow> manifestJSON result) \<Rightarrow> (string \<Rightarrow> bytes result) \<Rightarrow> string \<Rightarrow> load_args \<Rightarrow>
     (os_state, 'a) world \<Rightarrow> ('m Instance \<times> (os_state, 'a) world) option" where
  "start_agent S E decode read_file wasmPath a w =
     (case LoadAgent S E decode read_file wasmPath a (wo_env w) of
        (Inl _, _) \<Rightarrow> None
      | (Inr i, ev) \<Rightarrow>
        (case agent_Init S i (w\<lparr>wo_env := ev\<rparr>) of
           (Inl _, _) \<Rightarrow> None
         | (Inr _, i, w) \<Rightarrow> Some (i, w)))"

definition runStandalone ::
    "('m, os_state, 'a) system \<Rightarrow> unit result \<Rightarrow> 'm engine \<Rightarrow> (bytes \<Rightarrow> manifestJSON result) \<Rightarrow> (string \<Rightarrow> bytes result) \<Rightarrow> (bytes \<times> bytes) result \<Rightarrow>
     string \<Rightarrow> string \<Rightarrow> int64 \<Rightarrow> string \<Rightarrow> string \<Rightarrow> (os_state, 'a) world \<Rightarrow> ('m Instance \<times> (os_state, 'a) world) option" where
  "runStandalone S wasi E decode read_file keygen wasmPath agentID budgetMicrocents manifestPath checkpointDir w =
     (let S = at_dir checkpointDir S in
      case NewFSProvider checkpointDir (wo_store w) of
        (Inl _, _) \<Rightarrow> None
      | (Inr _, s) \<Rightarrow>
        (case NewEngine wasi E of
           Inl _ \<Rightarrow> None
         | Inr E \<Rightarrow>
        (case LoadOrGenerate (sy_crypto S) keygen (pv_LoadIdentity (sy_storage S)) (pv_SaveIdentity (sy_storage S)) agentID s of
           (Inl _, _) \<Rightarrow> None
         | (Inr ident, s) \<Rightarrow>
           let a = \<lparr>la_agentID = agentID, la_budget = budgetMicrocents, la_price = 1000000,
                    la_manifest = LoadManifestData read_file wasmPath manifestPath, la_signingKey = None, la_nodeID = '''',
                    la_identity = Some ident\<rparr>
           in case start_agent S E decode read_file wasmPath a (w\<lparr>wo_store := s\<rparr>) of
                None \<Rightarrow> None
              | Some (i, w) \<Rightarrow> Some (snd (LoadCheckpointFromStorage S i w)))))"

definition resumeFromCheckpoint ::
    "('m, os_state, 'a) system \<Rightarrow> unit result \<Rightarrow> 'm engine \<Rightarrow> (bytes \<Rightarrow> manifestJSON result) \<Rightarrow> (string \<Rightarrow> bytes result) \<Rightarrow> (bytes \<times> bytes) result \<Rightarrow>
     string \<Rightarrow> string \<Rightarrow> string \<Rightarrow> int64 \<Rightarrow> string \<Rightarrow> string \<Rightarrow> (os_state, 'a) world \<Rightarrow> ('m Instance \<times> (os_state, 'a) world) option" where
  "resumeFromCheckpoint S wasi E decode read_file keygen ckptPath wasmPath agentID budgetMicrocents manifestPath checkpointDir w =
     (let S = at_dir checkpointDir S; st = sy_storage S in
      case NewFSProvider checkpointDir (wo_store w) of
        (Inl _, _) \<Rightarrow> None
      | (Inr _, s) \<Rightarrow>
      (case read_file ckptPath of
        Inl _ \<Rightarrow> None
      | Inr ckptData \<Rightarrow>
      (case pv_SaveCheckpoint st agentID ckptData s of
        (Inl _, _) \<Rightarrow> None
      | (Inr _, s) \<Rightarrow>
      (case ParseCheckpointHeader ckptData of
        Inl _ \<Rightarrow> None
      | Inr (hdr, _) \<Rightarrow>
      (case NewEngine wasi E of
        Inl _ \<Rightarrow> None
      | Inr E \<Rightarrow>
      (case pv_LoadIdentity st agentID s of (idData, s) \<Rightarrow>
       case (case bindR idData (identity_UnmarshalBinary (sy_crypto S)) of
               Inr ident \<Rightarrow> (Inr ident, s)
             | Inl _ \<Rightarrow> LoadOrGenerate (sy_crypto S) keygen (pv_LoadIdentity st) (pv_SaveIdentity st) agentID s) of
        (Inl _, _) \<Rightarrow> None
      | (Inr ident, s) \<Rightarrow>
        let b = (if budgetMicrocents = 0 then hd_Budget hdr else budgetMicrocents);
            a = \<lparr>la_agentID = agentID, la_budget = b, la_price = hd_PricePerSecond hdr,
                 la_manifest = LoadManifestData read_file wasmPath manifestPath, la_signingKey = None, la_nodeID = '''',
                 la_identity = Some ident\<rparr>
        in case start_agent S E decode read_file wasmPath a (w\<lparr>wo_store := s\<rparr>) of
             None \<Rightarrow> None
           | Some (i, w) \<Rightarrow>
             (case LoadCheckpointFromStorage S i w of
                (Inl _, _) \<Rightarrow> None
              | (Inr _, i, w) \<Rightarrow> Some (i, w))))))))"


section \<open>What a save leaves alone\<close>

lemma save_receipts_instance: "save_receipts S now i w = (i', w') \<Longrightarrow> i' = snd (CreateReceipt (sy_crypto S) now i)"
  by (auto simp: save_receipts_def Let_def split: if_splits)

text \<open>Saving runs the agent's checkpoint function, so the agent may spend, but it neither ticks nor changes its lease.\<close>

lemma Save_frame:
  assumes "SaveCheckpointToStorage S now i w = (r, i', w')" "wf_event_log (in_EventLog i)"
  shows "in_TickNumber i' = in_TickNumber i \<and> in_Lease i' = in_Lease i \<and> in_PricePerSecond i' = in_PricePerSecond i \<and>
    in_ReplayWindow i' = in_ReplayWindow i \<and> sint (in_Budget i') \<le> sint (in_Budget i) \<and> wf_event_log (in_EventLog i')"
proof -
  obtain rc i1 w1 where c: "Checkpoint S i w = (rc, i1, w1)" using prod_cases3 by blast
  have k: "spent i i1" "wf_event_log (in_EventLog i1)" using Checkpoint_spent [OF c assms(2)] by auto
  note f = spent_fields(5,6,9,15,18) [OF k(1)]
  show ?thesis
  proof (cases rc)
    case (Inl e)
    with assms c f k show ?thesis by (simp add: SaveCheckpointToStorage_def)
  next
    case (Inr state)
    obtain rb i2 where b: "buildCheckpoint (sy_crypto S) state i1 = (rb, i2)" by fastforce
    have i2: "\<exists>h. i2 = i1\<lparr>in_PrevCheckpointHash := h\<rparr>"
      using b by (cases i1) (auto simp: buildCheckpoint_def split: option.splits sum.splits)
    obtain rr i3 where cr: "CreateReceipt (sy_crypto S) now i2 = (rr, i3)" by fastforce
    have "i' = i2 \<or> i' = i3"
      using assms(1) Inr c b cr
      by (auto simp: SaveCheckpointToStorage_def split: sum.splits prod.splits dest: save_receipts_instance)
    with i2 CreateReceipt_frame [OF cr] f k show ?thesis by auto
  qed
qed

lemma trySave_frame:
  assumes "trySaveCheckpoint S now i w = (i', w')" "wf_event_log (in_EventLog i)"
  shows "in_TickNumber i' = in_TickNumber i \<and> in_Lease i' = in_Lease i \<and> in_PricePerSecond i' = in_PricePerSecond i \<and>
    in_ReplayWindow i' = in_ReplayWindow i \<and> sint (in_Budget i') \<le> sint (in_Budget i) \<and> wf_event_log (in_EventLog i')"
proof -
  obtain r where "SaveCheckpointToStorage S now i w = (r, i', w')"
    using assms(1) by (metis trySaveCheckpoint_def prod.collapse)
  from Save_frame [OF this assms(2)] show ?thesis .
qed

section \<open>Authority\<close>

lemma CheckAndRenewLease_refused:
  assumes "in_Lease i = Some l" "ls_State l \<noteq> StateActiveOwner \<or> IsExpiredWithGrace (clk 0) l"
  obtains e where "CheckAndRenewLease clk i =
    (Some e, i\<lparr>in_Lease := Some (if ls_State l = StateActiveOwner then l\<lparr>ls_State := StateRecoveryRequired\<rparr> else l)\<rparr>)"
  using assms by (cases "ls_State l = StateActiveOwner") (auto simp: CheckAndRenewLease_def ValidateForTick_def)

text \<open>
  C9 No tick without authority: when the agent has a lease that is not that of an active owner, or that has
  expired beyond its grace period, \<open>handleTick\<close> runs no tick: tick number and replay window stay.  Either the loop ends
  with an error, or the lease was recovered under the next major version and the loop goes on.
\<close>

theorem no_tick_without_authority:
  assumes "in_Lease (lb_instance st) = Some l" "ls_State l \<noteq> StateActiveOwner \<or> IsExpiredWithGrace (ti_clock t 0) l"
    "wf_event_log (in_EventLog (lb_instance st))" "handleTick S wasi E pv t st = (r, st')"
  shows "in_TickNumber (lb_instance st') = in_TickNumber (lb_instance st) \<and>
    in_ReplayWindow (lb_instance st') = in_ReplayWindow (lb_instance st) \<and>
    ((\<exists>e. r = Inl e) \<or>
     (r = Inr tickRecovered \<and> in_Lease (lb_instance st') = Some (l\<lparr>ls_Epoch := Epoch (MajorVersion (ls_Epoch l) + 1) 0,
        ls_Expiry := time_Add (ti_clock t 4) (lc_Duration (ls_config l)), ls_State := StateActiveOwner\<rparr>)))"
proof -
  define l1 where "l1 = (if ls_State l = StateActiveOwner then l\<lparr>ls_State := StateRecoveryRequired\<rparr> else l)"
  define i1 where "i1 = (lb_instance st)\<lparr>in_Lease := Some l1\<rparr>"
  obtain e where c: "CheckAndRenewLease (ti_clock t) (lb_instance st) = (Some e, i1)"
    using CheckAndRenewLease_refused [where clk = "ti_clock t", OF assms(1,2)] unfolding i1_def l1_def by metis
  have i1: "wf_event_log (in_EventLog i1)" "in_TickNumber i1 = in_TickNumber (lb_instance st)" "in_Lease i1 = Some l1"
    "in_ReplayWindow i1 = in_ReplayWindow (lb_instance st)" using assms(3) by (simp_all add: i1_def)
  show ?thesis
  proof (cases "ls_State l1 = StateRecoveryRequired")
    case True
    define l2 where "l2 = l1\<lparr>ls_Epoch := Epoch (MajorVersion (ls_Epoch l1) + 1) 0,
        ls_Expiry := time_Add (ti_clock t 4) (lc_Duration (ls_config l1)), ls_State := StateActiveOwner\<rparr>"
    obtain i3 w3 where s: "trySaveCheckpoint S (ti_now t) (i1\<lparr>in_Lease := Some l2\<rparr>) (lb_world st) = (i3, w3)" by fastforce
    have "AttemptLeaseRecovery S (ti_clock t 4) (ti_now t) i1 (lb_world st) = (Inr (), i3, w3)"
      using True i1(3) s by (simp add: AttemptLeaseRecovery_def Recover_def l2_def)
    with True assms(4) c i1 have "r = Inr tickRecovered" "lb_instance st' = i3"
      by (auto simp: handleTick_def)
    moreover have "l2 = l\<lparr>ls_Epoch := Epoch (MajorVersion (ls_Epoch l) + 1) 0,
        ls_Expiry := time_Add (ti_clock t 4) (lc_Duration (ls_config l)), ls_State := StateActiveOwner\<rparr>"
      by (simp add: l2_def l1_def)
    ultimately show ?thesis using trySave_frame [OF s] i1 by simp
  next
    case False
    obtain i3 w3 where s: "trySaveCheckpoint S (ti_now t) i1 (lb_world st) = (i3, w3)" by fastforce
    with False assms(4) c i1 have "r = Inl e" "lb_instance st' = i3"
      by (auto simp: handleTick_def HandleLeaseExpiry_def)
    then show ?thesis using trySave_frame [OF s] i1 by simp
  qed
qed


definition retired_state :: "(example_agent, os_state, Receipt list) lab_state" where
  "retired_state = \<lparr>lb_instance = example_instance\<lparr>in_Lease := Some ((NewLease DefaultLeaseConfig 0)\<lparr>ls_State := StateRetired\<rparr>)\<rparr>,
     lb_world = example_world, lb_cfg = default_config ''n'', lb_ticksSinceVerify = 0, lb_lastVerifiedTick = 0\<rparr>"

definition tick_at :: "instant \<Rightarrow> ('m, 's, 'a) tick_input" where
  "tick_at t = \<lparr>ti_clock = (\<lambda>_. t), ti_elapsed = 3000000, ti_now = word_of_int t, ti_panic = None\<rparr>"

theorem no_tick_without_authority_witness:
  "\<forall>E. \<exists>r st'. handleTick example_system (Inr ()) E True (tick_at 5) retired_state = (r, st') \<and>
     in_TickNumber (lb_instance st') = 0 \<and> (\<exists>e. r = Inl e)"
proof
  fix E
  obtain r st' where h: "handleTick example_system (Inr ()) E True (tick_at 5) retired_state = (r, st')" by fastforce
  from no_tick_without_authority [OF _ _ _ this, of "(NewLease DefaultLeaseConfig 0)\<lparr>ls_State := StateRetired\<rparr>"]
  have a: "in_TickNumber (lb_instance st') = 0" "(\<exists>e. r = Inl e) \<or> r = Inr tickRecovered"
    by (auto simp: retired_state_def)
  have "r \<noteq> Inr tickRecovered"
    using h by (auto simp: handleTick_def CheckAndRenewLease_def ValidateForTick_def retired_state_def NewLease_def split: prod.splits)
  with a h show "\<exists>r st'. handleTick example_system (Inr ()) E True (tick_at 5) retired_state = (r, st') \<and>
     in_TickNumber (lb_instance st') = 0 \<and> (\<exists>e. r = Inl e)" by blast
qed

text \<open>How long before expiry \<open>NeedsRenewal\<close> starts to answer yes.\<close>

definition renewal_threshold :: "LeaseConfig \<Rightarrow> int" where
  "renewal_threshold c = float64_trunc (float64_mul (float64_round (of_int (sint (lc_Duration c)))) (lc_RenewalWindow c))"

fun spaced :: "int \<Rightarrow> instant \<Rightarrow> instant list \<Rightarrow> bool" where
  "spaced gap t [] = True"
| "spaced gap t (u # us) = (u \<le> t + gap \<and> spaced gap u us)"

text \<open>The lease checks of a loop that ticks at the given times all succeed.\<close>

fun lease_checks :: "instant list \<Rightarrow> 'm Instance \<Rightarrow> bool" where
  "lease_checks [] i = True"
| "lease_checks (t # ts) i = (case CheckAndRenewLease (\<lambda>_. t) i of (None, i) \<Rightarrow> lease_checks ts i | (Some _, _) \<Rightarrow> False)"

lemma not_NeedsRenewal:
  assumes "\<not> NeedsRenewal t l" "0 \<le> renewal_threshold (ls_config l)"
  shows "ls_Expiry l = time_zero \<or> renewal_threshold (ls_config l) < ls_Expiry l - t"
proof -
  have "sint (time_Sub (ls_Expiry l) t) = max MinInt64 (min MaxInt64 (ls_Expiry l - t))"
    unfolding time_Sub_def by (rule sint64_of_int) auto
  moreover have "renewal_threshold (ls_config l) < sint (time_Sub (ls_Expiry l) t)" if "ls_Expiry l \<noteq> time_zero"
    using assms(1) unfolding NeedsRenewal_def renewal_threshold_def Let_def by (simp only: if_not_P [OF that] not_le)
  ultimately show ?thesis using assms(2) by (cases "ls_Expiry l = time_zero") auto
qed

definition alive :: "instant \<Rightarrow> Lease \<Rightarrow> bool" where
  "alive t l \<longleftrightarrow> ls_State l = StateActiveOwner \<and> (ls_Expiry l = time_zero \<or> t \<le> ls_Expiry l + sint (lc_GracePeriod (ls_config l)))"

lemma CheckAndRenewLease_alive:
  assumes "in_Lease i = Some l" "alive t l" "0 \<le> renewal_threshold (ls_config l)"
    "gap \<le> sint (lc_GracePeriod (ls_config l)) + renewal_threshold (ls_config l)"
    "gap \<le> sint (lc_GracePeriod (ls_config l)) + sint (lc_Duration (ls_config l))" "u \<le> t + gap"
  obtains i' l' where "CheckAndRenewLease (\<lambda>_. t) i = (None, i')" "in_Lease i' = Some l'" "alive u l'" "ls_config l' = ls_config l"
proof (cases "NeedsRenewal t l")
  case True
  have "\<not> IsExpiredWithGrace t l" using assms(2) by (auto simp: alive_def IsExpiredWithGrace_def time_Add_def)
  with True assms that [of "i\<lparr>in_Lease := Some (snd (Renew t t l))\<rparr>" "snd (Renew t t l)"] show thesis
    by (auto simp: CheckAndRenewLease_def ValidateForTick_def Renew_def alive_def time_Add_def)
next
  case False
  have "\<not> IsExpiredWithGrace t l" using assms(2) by (auto simp: alive_def IsExpiredWithGrace_def time_Add_def)
  with False assms not_NeedsRenewal [OF False assms(3)] that [of "i\<lparr>in_Lease := Some l\<rparr>" l] show thesis
    by (auto simp: CheckAndRenewLease_def ValidateForTick_def alive_def)
qed


lemma lease_checks_alive:
  assumes "in_Lease i = Some l" "alive t l" "ls_config l = c" "0 \<le> renewal_threshold c"
    "gap \<le> sint (lc_GracePeriod c) + renewal_threshold c" "gap \<le> sint (lc_GracePeriod c) + sint (lc_Duration c)" "spaced gap t ts"
  shows "lease_checks (t # ts) i"
  using assms(1-3,7)
proof (induction ts arbitrary: i l t)
  case Nil
  obtain i' l' where "CheckAndRenewLease (\<lambda>_. t) i = (None, i')"
    by (rule CheckAndRenewLease_alive [of i l t gap "t + gap"]) (use Nil assms in auto)
  then show ?case by simp
next
  case (Cons u us)
  obtain i' l' where "CheckAndRenewLease (\<lambda>_. t) i = (None, i')" "in_Lease i' = Some l'" "alive u l'" "ls_config l' = c"
    by (rule CheckAndRenewLease_alive [of i l t gap u]) (use Cons.prems assms in auto)
  with Cons.IH [of i' l' u] Cons.prems(4) show ?case by simp
qed

text \<open>
  C13 An owner that ticks regularly keeps its lease: if the lease is held by an active owner, was granted at \<open>t\<close>
  and the times between ticks never exceed the grace period plus the smaller of the lease duration and the renewal
  threshold, then the check before every tick succeeds, however long the loop runs.
\<close>

theorem regular_ticks_keep_lease:
  assumes "0 \<le> renewal_threshold c"
    "gap \<le> sint (lc_GracePeriod c) + min (sint (lc_Duration c)) (renewal_threshold c)" "spaced gap t ts"
  shows "lease_checks ts (i\<lparr>in_Lease := Some (NewLease c t)\<rparr>)"
proof (cases ts)
  case (Cons u us)
  with assms show ?thesis
    by (intro lease_checks_alive [of _ "NewLease c t" u c gap us, folded Cons]) (auto simp: NewLease_def alive_def time_Add_def)
qed simp

lemma bit_len_steps: "0 < n \<Longrightarrow> bit_len n = Suc (bit_len (n div 2))" "bit_len 0 = 0"
  by (simp_all add: bit_len.simps)

lemma float64_exact: "float64_round 60000000000 = 60000000000" "float64_round 30000000000 = 30000000000"
  by (simp_all add: float64_round_def quotient_of_int [of "60000000000", simplified] quotient_of_int [of "30000000000", simplified] bit_len_steps power_int_def power_one_over Let_def round_half_even_def)

lemma default_threshold: "renewal_threshold DefaultLeaseConfig = 30000000000"
  by (simp add: renewal_threshold_def DefaultLeaseConfig_def float64_mul_def float64_exact float64_trunc_def)

theorem regular_ticks_keep_lease_witness:
  "lease_checks [35000000000, 70000000000, 100000000000] (example_instance\<lparr>in_Lease := Some (NewLease DefaultLeaseConfig 0)\<rparr>)"
proof -
  have d: "lc_GracePeriod DefaultLeaseConfig = 10000000000" "lc_Duration DefaultLeaseConfig = 60000000000"
    by (simp_all add: DefaultLeaseConfig_def)
  show ?thesis
    by (rule regular_ticks_keep_lease [of DefaultLeaseConfig 40000000000 0]) (simp_all add: default_threshold d)
qed

section \<open>Budget and termination\<close>

text \<open>A successful tick that costs anything at all at least takes one microcent.\<close>

lemma Tick_pays:
  assumes "Tick S elapsed i w = (Inr again, i', w')" "wf_event_log (in_EventLog i)"
    "0 \<le> sint elapsed" "0 \<le> sint (in_PricePerSecond i)" "1000000000 \<le> sint elapsed * sint (in_PricePerSecond i)"
  shows "sint (in_Budget i') < sint (in_Budget i) \<and> 0 < sint (in_Budget i) \<and> in_PricePerSecond i' = in_PricePerSecond i \<and>
    wf_event_log (in_EventLog i')"
  using assms(1)
proof (cases rule: Tick_cases)
  case (done_ok pre i1 w1 rs i2 w2 sealed el post i3)
  note k1 = captureState_spent [OF done_ok(3) assms(2)]
  note k2 = agent_call_spent [OF done_ok(5) begin_tick_wf]
  have "wf_event_log el" using k1 k2 SealTick_wf [OF done_ok(6)] by blast
  with captureState_spent [OF done_ok(7)] have k3: "spent (i2\<lparr>in_EventLog := el\<rparr>) i3" "wf_event_log (in_EventLog i3)" by simp_all
  have f: "sint (in_Budget i3) \<le> sint (in_Budget i)" "0 \<le> sint (in_Budget i3)" "in_PricePerSecond i3 = in_PricePerSecond i"
    using k1 k2 k3(1) spent_begin_tick [of i1 i2] spent_fields [of i i1] spent_fields [of "i2\<lparr>in_EventLog := el\<rparr>" i3] done_ok(2)
    by auto
  let ?c = "tick_cost elapsed (in_PricePerSecond i) (in_Budget i3)"
  have "1 \<le> sint ?c \<or> sint ?c = sint (in_Budget i3)"
    using assms(3-5) zdiv_mono1 [OF assms(5), of 1000000000] by (simp add: tick_cost_exact)
  moreover have "sint (in_Budget i3 - ?c) = sint (in_Budget i3) - sint ?c"
    using tick_cost_bounds(1) [OF assms(3,4) f(2)] f(2) sint64_bounds [of "in_Budget i3"] sint64_bounds [of ?c]
    by (intro sint64_sub) linarith+
  ultimately have "sint (in_Budget i3 - ?c) < sint (in_Budget i)" using f(1) done_ok(2) by auto
  with f k3 done_ok(2,8) show ?thesis by (simp add: finish_tick_def Let_def)
qed auto


fun is_tick :: "('m, 's, 'a) loop_event \<Rightarrow> bool" where
  "is_tick (EvTick t) = True"
| "is_tick _ = False"

text \<open>Every tick of the sequence completes without a panic and takes long enough to cost a microcent at this price.\<close>

fun paid_tick :: "int \<Rightarrow> ('m, 's, 'a) loop_event \<Rightarrow> bool" where
  "paid_tick price (EvTick t) = (ti_panic t = None \<and> 0 \<le> sint (ti_elapsed t) \<and> 1000000000 \<le> sint (ti_elapsed t) * price)"
| "paid_tick price _ = True"

lemma igord_loop_ends:
  assumes "list_all (paid_tick (sint (in_PricePerSecond i))) evs" "max 0 (sint (in_Budget i)) < int (length (filter is_tick evs))"
    "wf_event_log (in_EventLog i)" "0 \<le> sint (in_PricePerSecond i)"
  shows "fst (igord_loop S evs i w) = Exited None"
  using assms
proof (induction S evs i w rule: igord_loop.induct)
  case (1 S i w)
  then show ?case by simp
next
  case (4 S t evs i w)
  have p: "ti_panic t = None" "0 \<le> sint (ti_elapsed t)" "1000000000 \<le> sint (ti_elapsed t) * sint (in_PricePerSecond i)"
    using 4(2) by auto
  obtain r i1 w1 where tk: "Tick S (ti_elapsed t) i w = (r, i1, w1)" using prod_cases3 by blast
  then have st: "SafeTick (ti_panic t) S (ti_elapsed t) i w = (r, i1, w1)" using p by (simp add: SafeTick_def)
  show ?case
  proof (cases r)
    case (Inl e)
    then show ?thesis using st by (simp split: prod.split)
  next
    case (Inr again)
    have "sint (in_Budget i1) < sint (in_Budget i) \<and> 0 < sint (in_Budget i) \<and> in_PricePerSecond i1 = in_PricePerSecond i \<and> wf_event_log (in_EventLog i1)"
      using Tick_pays [OF tk [unfolded Inr] 4(4) p(2) 4(5) p(3)] by simp
    then show ?thesis using 4(1) [OF st [symmetric] Inr refl] 4(2,3,5) st Inr by (cases "filter is_tick evs = []") auto
  qed
next
  case (5 S now evs i w)
  obtain r i1 w1 where s: "SaveCheckpointToStorage S now i w = (r, i1, w1)" using prod_cases3 by blast
  then show ?case using 5(1) [OF s [symmetric] refl] Save_frame [OF s 5(4)] 5(2,3,5) by simp
qed (simp_all split: prod.splits)

text \<open>
  C10 A node stops an agent that has spent its budget: with ticks that each cost at least a microcent, the tick loop of
  \<open>igord\<close> ends no later than at the tick after the budget has been used up, whatever the agent does and however
  timers and checkpoints interleave.
\<close>

theorem budget_bounds_ticks:
  assumes "list_all (paid_tick (sint (in_PricePerSecond i))) evs" "max 0 (sint (in_Budget i)) < int (length (filter is_tick evs))"
    "wf_event_log (in_EventLog i)" "0 \<le> sint (in_PricePerSecond i)"
  shows "\<exists>i' w'. igord_loop S evs i w = (Exited None, i', w')"
  using igord_loop_ends [OF assms, of S w] by (cases "igord_loop S evs i w") auto

theorem budget_bounds_ticks_witness:
  "\<exists>i' w'. igord_loop example_system (replicate 101 (EvTick ((tick_at 0)\<lparr>ti_elapsed := 3000000000\<rparr>))) example_instance example_world =
     (Exited None, i', w')"
  by (rule budget_bounds_ticks) (simp_all add: list_all_iff tick_at_def)

section \<open>Restarts\<close>

text \<open>
  A budget given to \<open>igord resume\<close> has no effect on the resumed instance: once a stored checkpoint is found and accepted,
  \<open>LoadCheckpointFromStorage\<close> gives the same result whatever budget the instance was loaded with.
\<close>

theorem load_discards_budget:
  assumes "LoadCheckpointFromStorage S i w = (Inr (), i', w')"
    "pv_LoadCheckpoint (sy_storage S) (in_AgentID i) (wo_store w) = (Inr c, s)"
  shows "LoadCheckpointFromStorage S (i\<lparr>in_Budget := b\<rparr>) w = (Inr (), i', w')"
  using assms by (auto simp: LoadCheckpointFromStorage_def restore_receipts_def Let_def split: sum.splits if_splits prod.splits)


definition saved_world :: "(os_state, Receipt list) world" where
  "saved_world = snd (snd (SaveCheckpointToStorage example_system 7 example_instance example_world))"

lemma example_load:
  "fst (LoadCheckpointFromStorage example_system example_instance saved_world) = Inr ()"
  "\<not> isl (fst (pv_LoadCheckpoint (sy_storage example_system) (in_AgentID example_instance) (wo_store saved_world)))"
  by code_simp+

theorem load_discards_budget_witness:
  "\<exists>i' w'. LoadCheckpointFromStorage example_system (example_instance\<lparr>in_Budget := 77\<rparr>) saved_world = (Inr (), i', w')"
proof -
  let ?l = "LoadCheckpointFromStorage example_system example_instance saved_world"
  let ?p = "pv_LoadCheckpoint (sy_storage example_system) (in_AgentID example_instance) (wo_store saved_world)"
  have l: "?l = (Inr (), fst (snd ?l), snd (snd ?l))" using example_load(1) by (simp add: prod_eq_iff)
  have p: "?p = (Inr (projr (fst ?p)), snd ?p)" using example_load(2) by (simp add: prod_eq_iff)
  from load_discards_budget [OF l p] show ?thesis by blast
qed

text \<open>
  A restarted node forgets the epoch of its agent: \<open>initLocalAgent\<close> grants the lease of epoch (0,0), whatever epoch the
  checkpoint it loads carries, so that a lease granted by the next migration does not supersede the
  epoch of any agent that has migrated before.
\<close>

theorem restart_forgets_epoch:
  assumes "initLocalAgent S cfg now i w = (Inr (), i', w')" "0 < sint (cfg_LeaseDuration cfg)" "1 \<le> major"
  shows "\<exists>l. in_Lease i' = Some l \<and> ls_Epoch l = Epoch 0 0 \<and>
    \<not> Supersedes (ls_Epoch (NewLeaseFromMigration (MajorVersion (ls_Epoch l)) c t)) (Epoch major gen)"
proof -
  have "in_Lease i' = Some (NewLease (lease_config cfg) now)"
    using assms(1,2) by (auto simp: initLocalAgent_def Let_def split: prod.splits sum.splits)
  with assms(3) show ?thesis by (auto simp: NewLease_def NewLeaseFromMigration_def Supersedes_def not_less)
qed

theorem restart_forgets_epoch_witness:
  "\<exists>l. in_Lease (fst (snd (initLocalAgent example_system (default_config ''n'') 0 example_instance saved_world))) = Some l \<and>
    ls_Epoch l = Epoch 0 0 \<and> \<not> Supersedes (ls_Epoch (NewLeaseFromMigration (MajorVersion (ls_Epoch l)) DefaultLeaseConfig 0)) (Epoch 3 0)"
proof -
  let ?r = "initLocalAgent example_system (default_config ''n'') 0 example_instance saved_world"
  have "fst ?r = Inr ()" by code_simp
  then have r: "?r = (Inr (), fst (snd ?r), snd (snd ?r))" by (simp add: prod_eq_iff)
  show ?thesis using restart_forgets_epoch [OF r, of 3 DefaultLeaseConfig 0 0] by (simp add: default_config_def)
qed

end
