(* ===== verification/Effects.thy ===== *)
theory Effects
  imports Prelude
begin

text \<open>
  \<open>src/sdk/igor/encoding.go\<close> and \<open>src/sdk/igor/effects.go\<close>: the encoder and decoder agents
  serialise their state with, and the effect log that carries the intents of an agent through
  crashes.  The locale \<open>field_codec\<close> is the contract of one pair of encoder and decoder methods;
  the effect log's wire format is built from two such pairs.  The last sections follow one log
  through any sequence of its operations and of checkpoint/resume cycles.  Nil and empty slices
  are one value here: no operation of the log tells them apart.
\<close>

section \<open>The encoder\<close>

record Encoder =
  en_buf :: bytes

definition NewEncoder :: Encoder where
  "NewEncoder = \<lparr>en_buf = []\<rparr>"

definition Encoder_Uint64 :: "uint64 \<Rightarrow> Encoder \<Rightarrow> Encoder" where
  "Encoder_Uint64 v e = e\<lparr>en_buf := en_buf e @ put_u64 v\<rparr>"

definition Encoder_Int64 :: "int64 \<Rightarrow> Encoder \<Rightarrow> Encoder" where
  "Encoder_Int64 v e = Encoder_Uint64 v e"

definition Encoder_Uint32 :: "uint32 \<Rightarrow> Encoder \<Rightarrow> Encoder" where
  "Encoder_Uint32 v e = e\<lparr>en_buf := en_buf e @ put_u32 v\<rparr>"

definition Encoder_Int32 :: "int32 \<Rightarrow> Encoder \<Rightarrow> Encoder" where
  "Encoder_Int32 v e = Encoder_Uint32 v e"

definition Encoder_Bytes :: "bytes \<Rightarrow> Encoder \<Rightarrow> Encoder" where
  "Encoder_Bytes v e = (let e = Encoder_Uint32 (len_u32 v) e in e\<lparr>en_buf := en_buf e @ v\<rparr>)"

definition Encoder_String :: "string \<Rightarrow> Encoder \<Rightarrow> Encoder" where
  "Encoder_String v e = Encoder_Bytes (bytes_of_string v) e"

definition Encoder_Bool :: "bool \<Rightarrow> Encoder \<Rightarrow> Encoder" where
  "Encoder_Bool v e = (if v then e\<lparr>en_buf := en_buf e @ [1]\<rparr> else e\<lparr>en_buf := en_buf e @ [0]\<rparr>)"

definition Encoder_Raw :: "bytes \<Rightarrow> Encoder \<Rightarrow> Encoder" where
  "Encoder_Raw b e = e\<lparr>en_buf := en_buf e @ b\<rparr>"

definition Encoder_Finish :: "Encoder \<Rightarrow> bytes" where
  "Encoder_Finish e = en_buf e"

section \<open>The decoder\<close>

abbreviation errShortRead :: go_error where
  "errShortRead \<equiv> Sentinel ''igor: short read during decode''"

record Decoder =
  de_data :: bytes
  de_pos :: nat
  de_err :: "go_error option"

definition NewDecoder :: "bytes \<Rightarrow> Decoder" where
  "NewDecoder data = \<lparr>de_data = data, de_pos = 0, de_err = None\<rparr>"

definition Decoder_Uint64 :: "Decoder \<Rightarrow> uint64 \<times> Decoder" where
  "Decoder_Uint64 d =
     (if de_err d \<noteq> None \<or> de_pos d + 8 > length (de_data d) then (0, d\<lparr>de_err := Some errShortRead\<rparr>)
      else (get_u64 (go_slice (de_pos d) (de_pos d + 8) (de_data d)), d\<lparr>de_pos := de_pos d + 8\<rparr>))"

definition Decoder_Int64 :: "Decoder \<Rightarrow> int64 \<times> Decoder" where
  "Decoder_Int64 d = Decoder_Uint64 d"

definition Decoder_Uint32 :: "Decoder \<Rightarrow> uint32 \<times> Decoder" where
  "Decoder_Uint32 d =
     (if de_err d \<noteq> None \<or> de_pos d + 4 > length (de_data d) then (0, d\<lparr>de_err := Some errShortRead\<rparr>)
      else (get_u32 (go_slice (de_pos d) (de_pos d + 4) (de_data d)), d\<lparr>de_pos := de_pos d + 4\<rparr>))"

definition Decoder_Int32 :: "Decoder \<Rightarrow> int32 \<times> Decoder" where
  "Decoder_Int32 d = Decoder_Uint32 d"

definition Decoder_Bytes :: "Decoder \<Rightarrow> bytes \<times> Decoder" where
  "Decoder_Bytes d =
     (case Decoder_Uint32 d of (len, d) \<Rightarrow>
        if de_err d \<noteq> None then ([], d)
        else if de_pos d + unat len > length (de_data d) then ([], d\<lparr>de_err := Some errShortRead\<rparr>)
        else (go_slice (de_pos d) (de_pos d + unat len) (de_data d), d\<lparr>de_pos := de_pos d + unat len\<rparr>))"

definition Decoder_String :: "Decoder \<Rightarrow> string \<times> Decoder" where
  "Decoder_String d = (case Decoder_Bytes d of (b, d) \<Rightarrow> if de_err d \<noteq> None then ('''', d) else (string_of_bytes b, d))"

definition Decoder_Bool :: "Decoder \<Rightarrow> bool \<times> Decoder" where
  "Decoder_Bool d =
     (if de_err d \<noteq> None \<or> de_pos d \<ge> length (de_data d) then (False, d\<lparr>de_err := Some errShortRead\<rparr>)
      else (de_data d ! de_pos d \<noteq> 0, d\<lparr>de_pos := de_pos d + 1\<rparr>))"

definition Decoder_FixedBytes :: "nat \<Rightarrow> Decoder \<Rightarrow> bytes \<times> Decoder" where
  "Decoder_FixedBytes n d =
     (if de_err d \<noteq> None \<or> de_pos d + n > length (de_data d) then ([], d\<lparr>de_err := Some errShortRead\<rparr>)
      else (go_slice (de_pos d) (de_pos d + n) (de_data d), d\<lparr>de_pos := de_pos d + n\<rparr>))"

text \<open>\<open>ReadInto\<close> fills the caller's slice \<open>dst\<close>; on a short read it leaves \<open>dst\<close> as it was.\<close>

definition Decoder_ReadInto :: "bytes \<Rightarrow> Decoder \<Rightarrow> bytes \<times> Decoder" where
  "Decoder_ReadInto dst d =
     (if de_err d \<noteq> None \<or> de_pos d + length dst > length (de_data d) then (dst, d\<lparr>de_err := Some errShortRead\<rparr>)
      else (go_slice (de_pos d) (de_pos d + length dst) (de_data d), d\<lparr>de_pos := de_pos d + length dst\<rparr>))"

definition Decoder_Err :: "Decoder \<Rightarrow> go_error option" where
  "Decoder_Err d = de_err d"

section \<open>The effect log\<close>

type_synonym IntentState = byte

abbreviation Recorded :: IntentState where "Recorded \<equiv> 1"
abbreviation InFlight :: IntentState where "InFlight \<equiv> 2"
abbreviation Confirmed :: IntentState where "Confirmed \<equiv> 3"
abbreviation Unresolved :: IntentState where "Unresolved \<equiv> 4"
abbreviation Compensated :: IntentState where "Compensated \<equiv> 5"

record Intent =
  it_ID :: bytes
  it_State :: IntentState
  it_Data :: bytes

record EffectLog =
  ef_intents :: "Intent list"

abbreviation errIntentExists :: go_error where "errIntentExists \<equiv> Sentinel ''igor: intent ID already exists''"
abbreviation errIntentNotFound :: go_error where "errIntentNotFound \<equiv> Sentinel ''igor: intent not found''"
abbreviation errInvalidTransition :: go_error where "errInvalidTransition \<equiv> Sentinel ''igor: invalid intent state transition''"

text \<open>\<open>find\<close> returns a pointer into the slice; here it is the index of the intent.\<close>

fun find_index :: "bytes \<Rightarrow> nat \<Rightarrow> Intent list \<Rightarrow> nat option" where
  "find_index ident i [] = None"
| "find_index ident i (x # xs) = (if it_ID x = ident then Some i else find_index ident (Suc i) xs)"

definition effect_find :: "bytes \<Rightarrow> EffectLog \<Rightarrow> nat option" where
  "effect_find ident e = find_index ident 0 (ef_intents e)"

definition effect_Record :: "bytes \<Rightarrow> bytes \<Rightarrow> EffectLog \<Rightarrow> unit result \<times> EffectLog" where
  "effect_Record ident data e =
     (if effect_find ident e \<noteq> None then (Inl errIntentExists, e)
      else (Inr (), e\<lparr>ef_intents := ef_intents e @ [\<lparr>it_ID = ident, it_State = Recorded, it_Data = data\<rparr>]\<rparr>))"

definition set_state :: "nat \<Rightarrow> IntentState \<Rightarrow> EffectLog \<Rightarrow> EffectLog" where
  "set_state k s e = e\<lparr>ef_intents := (ef_intents e)[k := (ef_intents e ! k)\<lparr>it_State := s\<rparr>]\<rparr>"

definition effect_Begin :: "bytes \<Rightarrow> EffectLog \<Rightarrow> unit result \<times> EffectLog" where
  "effect_Begin ident e =
     (case effect_find ident e of
        None \<Rightarrow> (Inl errIntentNotFound, e)
      | Some k \<Rightarrow>
          if it_State (ef_intents e ! k) \<noteq> Recorded then (Inl errInvalidTransition, e)
          else (Inr (), set_state k InFlight e))"

definition effect_Confirm :: "bytes \<Rightarrow> EffectLog \<Rightarrow> unit result \<times> EffectLog" where
  "effect_Confirm ident e =
     (case effect_find ident e of
        None \<Rightarrow> (Inl errIntentNotFound, e)
      | Some k \<Rightarrow>
          if it_State (ef_intents e ! k) \<noteq> InFlight \<and> it_State (ef_intents e ! k) \<noteq> Unresolved
          then (Inl errInvalidTransition, e)
          else (Inr (), set_state k Confirmed e))"

definition effect_Compensate :: "bytes \<Rightarrow> EffectLog \<Rightarrow> unit result \<times> EffectLog" where
  "effect_Compensate ident e =
     (case effect_find ident e of
        None \<Rightarrow> (Inl errIntentNotFound, e)
      | Some k \<Rightarrow>
          if it_State (ef_intents e ! k) \<noteq> InFlight \<and> it_State (ef_intents e ! k) \<noteq> Unresolved
          then (Inl errInvalidTransition, e)
          else (Inr (), set_state k Compensated e))"

definition effect_Pending :: "EffectLog \<Rightarrow> Intent list" where
  "effect_Pending e = filter (\<lambda>x. it_State x \<noteq> Confirmed \<and> it_State x \<noteq> Compensated) (ef_intents e)"

definition effect_Unresolved :: "EffectLog \<Rightarrow> Intent list" where
  "effect_Unresolved e = filter (\<lambda>x. it_State x = Unresolved) (ef_intents e)"

definition effect_Get :: "bytes \<Rightarrow> EffectLog \<Rightarrow> Intent option" where
  "effect_Get ident e = map_option (\<lambda>k. ef_intents e ! k) (effect_find ident e)"

definition effect_Len :: "EffectLog \<Rightarrow> nat" where
  "effect_Len e = length (ef_intents e)"

text \<open>The loop of \<open>Prune\<close>: the intents it keeps, in order, and how many it drops.\<close>

fun prune_loop :: "nat \<Rightarrow> Intent list \<Rightarrow> Intent list \<Rightarrow> nat \<times> Intent list" where
  "prune_loop n kept [] = (n, kept)"
| "prune_loop n kept (x # xs) =
     (if it_State x = Confirmed \<or> it_State x = Compensated then prune_loop (n + 1) kept xs
      else prune_loop n (kept @ [x]) xs)"

definition effect_Prune :: "EffectLog \<Rightarrow> nat \<times> EffectLog" where
  "effect_Prune e = (case prune_loop 0 [] (ef_intents e) of (n, kept) \<Rightarrow> (n, e\<lparr>ef_intents := kept\<rparr>))"

fun marshal_loop :: "Intent list \<Rightarrow> Encoder \<Rightarrow> Encoder" where
  "marshal_loop [] enc = enc"
| "marshal_loop (x # xs) enc =
     (let enc = enc\<lparr>en_buf := en_buf enc @ [it_State x]\<rparr>;
          enc = Encoder_Bytes (it_ID x) enc;
          enc = Encoder_Bytes (it_Data x) enc
      in marshal_loop xs enc)"

definition effect_Marshal :: "EffectLog \<Rightarrow> bytes" where
  "effect_Marshal e =
     Encoder_Finish (marshal_loop (ef_intents e) (Encoder_Uint32 (len_u32 (ef_intents e)) NewEncoder))"

text \<open>The loop of \<open>Unmarshal\<close>, with \<open>n\<close> rounds left.\<close>

primrec unmarshal_loop :: "nat \<Rightarrow> Decoder \<Rightarrow> Intent list" where
  "unmarshal_loop 0 d = []"
| "unmarshal_loop (Suc n) d =
     (if Decoder_Err d \<noteq> None then []
      else if de_pos d \<ge> length (de_data d) then []
      else let state = de_data d ! de_pos d;
               d = d\<lparr>de_pos := de_pos d + 1\<rparr>;
               (ident, d) = Decoder_Bytes d;
               (payload, d) = Decoder_Bytes d;
               state = (if state = InFlight then Unresolved else state)
           in \<lparr>it_ID = ident, it_State = state, it_Data = payload\<rparr> # unmarshal_loop n d)"

definition effect_Unmarshal :: "bytes \<Rightarrow> EffectLog" where
  "effect_Unmarshal data =
     (if length data = 0 then \<lparr>ef_intents = []\<rparr>
      else case Decoder_Uint32 (NewDecoder data) of (count, d) \<Rightarrow>
        if Decoder_Err d \<noteq> None then \<lparr>ef_intents = []\<rparr>
        else \<lparr>ef_intents = unmarshal_loop (unat count) d\<rparr>)"

section \<open>One encoded field and its reader\<close>

text \<open>The bytes a decoder without error has still to read.\<close>

definition decoder_at :: "bytes \<Rightarrow> Decoder \<Rightarrow> bool" where
  "decoder_at rest d \<longleftrightarrow> de_err d = None \<and> de_pos d \<le> length (de_data d) \<and> drop (de_pos d) (de_data d) = rest"

lemma decoder_at_New [simp]: "decoder_at rest (NewDecoder data) \<longleftrightarrow> rest = data"
  by (auto simp: decoder_at_def NewDecoder_def)

lemma decoder_at_advance:
  "decoder_at (w @ rest) d \<Longrightarrow> decoder_at rest (d\<lparr>de_pos := de_pos d + length w\<rparr>)"
  using drop_at [of "de_pos d" "de_data d" w rest] length_at [of "de_pos d" "de_data d" w rest]
  by (cases "w = []") (simp_all add: decoder_at_def)

lemma decoder_at_Err: "decoder_at rest d \<Longrightarrow> Decoder_Err d = None"
  by (simp add: decoder_at_def Decoder_Err_def)

locale field_codec =
  fixes enc :: "'a \<Rightarrow> Encoder \<Rightarrow> Encoder"
    and dec :: "Decoder \<Rightarrow> 'a \<times> Decoder"
    and wire :: "'a \<Rightarrow> bytes"
    and fits :: "'a \<Rightarrow> bool"
  assumes enc_appends: "enc x e = e\<lparr>en_buf := en_buf e @ wire x\<rparr>"
    and dec_reads: "fits x \<Longrightarrow> de_err d = None \<Longrightarrow> de_pos d \<le> length (de_data d) \<Longrightarrow>
      drop (de_pos d) (de_data d) = wire x @ rest \<Longrightarrow> dec d = (x, d\<lparr>de_pos := de_pos d + length (wire x)\<rparr>)"
    and dec_sticky: "de_err d \<noteq> None \<Longrightarrow> de_err (snd (dec d)) \<noteq> None"
    and dec_inside: "de_pos d \<le> length (de_data d) \<Longrightarrow>
      de_data (snd (dec d)) = de_data d \<and> de_pos d \<le> de_pos (snd (dec d)) \<and> de_pos (snd (dec d)) \<le> length (de_data d)"
begin

lemma decode_encoded:
  assumes "fits x" "de_err d = None" "de_data d = en_buf (enc x e) @ rest" "de_pos d = length (en_buf e)"
  shows "dec d = (x, d\<lparr>de_pos := length (en_buf (enc x e))\<rparr>)"
  using dec_reads [OF assms(1,2), of rest] assms(3,4) by (simp add: enc_appends)

text \<open>One step of a sequence of reads: the reader returns the field and moves behind it.\<close>

lemma step_read:
  assumes "decoder_at (wire x @ rest) d" "fits x" "\<And>d'. decoder_at rest d' \<Longrightarrow> f x d' = R"
  shows "(case dec d of (v, d') \<Rightarrow> f v d') = R"
proof -
  have "dec d = (x, d\<lparr>de_pos := de_pos d + length (wire x)\<rparr>)"
    using assms(1) dec_reads [OF assms(2), of d rest] by (simp add: decoder_at_def)
  with assms(3) decoder_at_advance [OF assms(1)] show ?thesis by simp
qed

end

lemma drop_eq_le: "drop n xs = ys @ zs \<Longrightarrow> n \<le> length xs \<Longrightarrow> n + length ys \<le> length xs"
  by (metis add_le_cancel_left length_append length_drop le_add_diff_inverse le_add1)

lemma slice_at_drop: "drop n xs = ys @ zs \<Longrightarrow> go_slice n (n + length ys) xs = ys"
  by (rule slice_at)

lemma Decoder_Uint32_reads:
  assumes "de_err d = None" "de_pos d \<le> length (de_data d)" "drop (de_pos d) (de_data d) = put_u32 x @ rest"
  shows "Decoder_Uint32 d = (x, d\<lparr>de_pos := de_pos d + 4\<rparr>)"
  using drop_eq_le [OF assms(3,2)] slice_at_drop [OF assms(3)] assms(1) by (simp add: Decoder_Uint32_def)

lemma Decoder_Bytes_reads:
  assumes "length x < 2 ^ 32" "de_err d = None" "de_pos d \<le> length (de_data d)"
    "drop (de_pos d) (de_data d) = put_u32 (len_u32 x) @ x @ rest"
  shows "Decoder_Bytes d = (x, d\<lparr>de_pos := de_pos d + 4 + length x\<rparr>)"
proof -
  have x: "drop (de_pos d + 4) (de_data d) = x @ rest"
    using drop_at [OF assms(4)] by simp
  have "de_pos d + 4 \<le> length (de_data d)" using drop_eq_le [OF assms(4,3)] by simp
  from drop_eq_le [OF x this] slice_at_drop [OF x] assms(1) show ?thesis
    by (simp add: Decoder_Bytes_def Decoder_Uint32_reads [OF assms(2-4)] assms(2))
qed

lemma Decoder_Bytes_inside:
  "de_pos d \<le> length (de_data d) \<Longrightarrow>
   de_data (snd (Decoder_Bytes d)) = de_data d \<and> de_pos d \<le> de_pos (snd (Decoder_Bytes d)) \<and>
   de_pos (snd (Decoder_Bytes d)) \<le> length (de_data d)"
  by (auto simp: Decoder_Bytes_def Decoder_Uint32_def)

interpretation u64: field_codec Encoder_Uint64 Decoder_Uint64 put_u64 "\<lambda>_. True"
proof unfold_locales
  fix x :: uint64 and d :: Decoder and rest
  assume "de_err d = None" "de_pos d \<le> length (de_data d)" and w: "drop (de_pos d) (de_data d) = put_u64 x @ rest"
  then show "Decoder_Uint64 d = (x, d\<lparr>de_pos := de_pos d + length (put_u64 x)\<rparr>)"
    using drop_eq_le [OF w] slice_at_drop [OF w] by (simp add: Decoder_Uint64_def)
qed (auto simp: Encoder_Uint64_def Decoder_Uint64_def)

interpretation u32: field_codec Encoder_Uint32 Decoder_Uint32 put_u32 "\<lambda>_. True"
proof unfold_locales
  fix x :: uint32 and d :: Decoder and rest
  assume "de_err d = None" "de_pos d \<le> length (de_data d)" "drop (de_pos d) (de_data d) = put_u32 x @ rest"
  then show "Decoder_Uint32 d = (x, d\<lparr>de_pos := de_pos d + length (put_u32 x)\<rparr>)"
    by (simp add: Decoder_Uint32_reads)
qed (auto simp: Encoder_Uint32_def Decoder_Uint32_def)

interpretation i64: field_codec Encoder_Int64 Decoder_Int64 put_u64 "\<lambda>_. True"
  using u64.field_codec_axioms unfolding Encoder_Int64_def [abs_def] Decoder_Int64_def [abs_def] .

interpretation i32: field_codec Encoder_Int32 Decoder_Int32 put_u32 "\<lambda>_. True"
  using u32.field_codec_axioms unfolding Encoder_Int32_def [abs_def] Decoder_Int32_def [abs_def] .

interpretation byt: field_codec Encoder_Bytes Decoder_Bytes "\<lambda>x. put_u32 (len_u32 x) @ x" "\<lambda>x. length x < 2 ^ 32"
  by unfold_locales
    (simp_all add: Encoder_Bytes_def Encoder_Uint32_def Decoder_Bytes_reads Decoder_Bytes_inside add.assoc,
     simp add: Decoder_Bytes_def Decoder_Uint32_def)


interpretation str: field_codec Encoder_String Decoder_String
  "\<lambda>x. put_u32 (len_u32 (bytes_of_string x)) @ bytes_of_string x" "\<lambda>x. length x < 2 ^ 32"
proof unfold_locales
  fix x :: string and d :: Decoder and rest
  assume a: "length x < 2 ^ 32" "de_err d = None" "de_pos d \<le> length (de_data d)"
    "drop (de_pos d) (de_data d) = (put_u32 (len_u32 (bytes_of_string x)) @ bytes_of_string x) @ rest"
  with byt.dec_reads [of "bytes_of_string x" d rest]
  show "Decoder_String d = (x, d\<lparr>de_pos := de_pos d + length (put_u32 (len_u32 (bytes_of_string x)) @ bytes_of_string x)\<rparr>)"
    by (simp add: Decoder_String_def)
next
  fix d :: Decoder
  assume "de_err d \<noteq> None"
  with byt.dec_sticky [of d] show "de_err (snd (Decoder_String d)) \<noteq> None"
    by (auto simp: Decoder_String_def split: prod.splits if_splits)
next
  fix d :: Decoder
  assume "de_pos d \<le> length (de_data d)"
  with byt.dec_inside [of d]
  show "de_data (snd (Decoder_String d)) = de_data d \<and> de_pos d \<le> de_pos (snd (Decoder_String d)) \<and>
      de_pos (snd (Decoder_String d)) \<le> length (de_data d)"
    by (auto simp: Decoder_String_def split: prod.splits if_splits)
qed (simp add: Encoder_String_def byt.enc_appends)

interpretation boo: field_codec Encoder_Bool Decoder_Bool "\<lambda>b. [if b then 1 else 0]" "\<lambda>_. True"
proof unfold_locales
  fix x :: bool and d :: Decoder and rest
  assume "de_err d = None" "de_pos d \<le> length (de_data d)" and w: "drop (de_pos d) (de_data d) = [if x then 1 else 0] @ rest"
  then have "de_pos d < length (de_data d)" "de_data d ! de_pos d = (if x then 1 else 0)"
    using drop_eq_le [OF w] by (auto simp: hd_drop_conv_nth [symmetric])
  with \<open>de_err d = None\<close> show "Decoder_Bool d = (x, d\<lparr>de_pos := de_pos d + length [if x then 1 else 0 :: byte]\<rparr>)"
    by (simp add: Decoder_Bool_def)
qed (auto simp: Encoder_Bool_def Decoder_Bool_def)

interpretation raw: field_codec Encoder_Raw "Decoder_FixedBytes n" "\<lambda>b. b" "\<lambda>b. length b = n" for n
proof unfold_locales
  fix x :: bytes and d :: Decoder and rest
  assume "length x = n" "de_err d = None" "de_pos d \<le> length (de_data d)" and w: "drop (de_pos d) (de_data d) = x @ rest"
  then show "Decoder_FixedBytes n d = (x, d\<lparr>de_pos := de_pos d + length x\<rparr>)"
    using drop_eq_le [OF w] slice_at_drop [OF w] by (auto simp: Decoder_FixedBytes_def)
qed (auto simp: Encoder_Raw_def Decoder_FixedBytes_def)


text \<open>Any sequence of encoder calls, and the decoder calls that mirror it.\<close>

datatype field = FUint64 uint64 | FInt64 int64 | FUint32 uint32 | FInt32 int32 | FBytes bytes | FString string | FBool bool | FRaw bytes

primrec write_field :: "field \<Rightarrow> Encoder \<Rightarrow> Encoder" where
  "write_field (FUint64 v) = Encoder_Uint64 v"
| "write_field (FInt64 v) = Encoder_Int64 v"
| "write_field (FUint32 v) = Encoder_Uint32 v"
| "write_field (FInt32 v) = Encoder_Int32 v"
| "write_field (FBytes v) = Encoder_Bytes v"
| "write_field (FString v) = Encoder_String v"
| "write_field (FBool v) = Encoder_Bool v"
| "write_field (FRaw v) = Encoder_Raw v"

text \<open>The first argument only says which method is called, and for \<open>FixedBytes\<close> with which size.\<close>

primrec read_field :: "field \<Rightarrow> Decoder \<Rightarrow> field \<times> Decoder" where
  "read_field (FUint64 _) d = apfst FUint64 (Decoder_Uint64 d)"
| "read_field (FInt64 _) d = apfst FInt64 (Decoder_Int64 d)"
| "read_field (FUint32 _) d = apfst FUint32 (Decoder_Uint32 d)"
| "read_field (FInt32 _) d = apfst FInt32 (Decoder_Int32 d)"
| "read_field (FBytes _) d = apfst FBytes (Decoder_Bytes d)"
| "read_field (FString _) d = apfst FString (Decoder_String d)"
| "read_field (FBool _) d = apfst FBool (Decoder_Bool d)"
| "read_field (FRaw v) d = apfst FRaw (Decoder_FixedBytes (length v) d)"

primrec read_fields :: "field list \<Rightarrow> Decoder \<Rightarrow> field list \<times> Decoder" where
  "read_fields [] d = ([], d)"
| "read_fields (f # fs) d = (case read_field f d of (v, d) \<Rightarrow> apfst (Cons v) (read_fields fs d))"

definition write_fields :: "field list \<Rightarrow> bytes" where
  "write_fields fs = Encoder_Finish (fold write_field fs NewEncoder)"

primrec field_fits :: "field \<Rightarrow> bool" where
  "field_fits (FUint64 v) = True"
| "field_fits (FInt64 v) = True"
| "field_fits (FUint32 v) = True"
| "field_fits (FInt32 v) = True"
| "field_fits (FBytes v) = (length v < 2 ^ 32)"
| "field_fits (FString v) = (length v < 2 ^ 32)"
| "field_fits (FBool v) = True"
| "field_fits (FRaw v) = True"

lemmas codec_appends = u64.enc_appends u32.enc_appends i64.enc_appends i32.enc_appends byt.enc_appends str.enc_appends
  boo.enc_appends raw.enc_appends

lemma write_field_appends: "\<exists>w. \<forall>e. write_field f e = e\<lparr>en_buf := en_buf e @ w\<rparr>"
  by (cases f) (auto simp: codec_appends)

lemma fold_write_appends: "\<exists>w. en_buf (fold write_field fs e) = en_buf e @ w"
proof (induction fs arbitrary: e)
  case (Cons f fs)
  from write_field_appends [of f] obtain w where "write_field f e = e\<lparr>en_buf := en_buf e @ w\<rparr>" by blast
  with Cons.IH [of "write_field f e"] show ?case by auto
qed simp

lemma read_field_written:
  assumes "field_fits f" "de_err d = None" "de_data d = en_buf (write_field f e) @ rest" "de_pos d = length (en_buf e)"
  shows "read_field f d = (f, d\<lparr>de_pos := length (en_buf (write_field f e))\<rparr>)"
proof (cases f)
  case (FRaw v)
  then show ?thesis using raw.decode_encoded [OF refl, of d v e] assms by simp
qed (use assms in \<open>simp_all add: u64.decode_encoded u32.decode_encoded i64.decode_encoded i32.decode_encoded
      byt.decode_encoded str.decode_encoded boo.decode_encoded\<close>)

lemma read_fields_written:
  assumes "list_all field_fits fs" "de_err d = None" "de_data d = en_buf (fold write_field fs e)" "de_pos d = length (en_buf e)"
  shows "read_fields fs d = (fs, d\<lparr>de_pos := length (de_data d)\<rparr>)"
  using assms
proof (induction fs arbitrary: d e)
  case (Cons f fs)
  from fold_write_appends [of fs "write_field f e"] Cons.prems(3) obtain w where
    w: "de_data d = en_buf (write_field f e) @ w" by auto
  from Cons.prems have r: "read_field f d = (f, d\<lparr>de_pos := length (en_buf (write_field f e))\<rparr>)"
    by (intro read_field_written [OF _ _ w]) simp_all
  from Cons.prems Cons.IH [of "d\<lparr>de_pos := length (en_buf (write_field f e))\<rparr>" "write_field f e"]
  show ?case by (simp add: r)
qed simp

text \<open>
  An agent reads back the state it wrote: for every sequence of fields, decoding the bytes the encoder
  finished with the mirrored sequence of decoder calls returns the fields, reports no error and
  consumes the input exactly.  Length-prefixed fields must be shorter than \<open>2 ^ 32\<close> bytes.
\<close>

theorem encoder_decoder_roundtrip:
  assumes "list_all field_fits fs"
  shows "read_fields fs (NewDecoder (write_fields fs)) =
    (fs, \<lparr>de_data = write_fields fs, de_pos = length (write_fields fs), de_err = None\<rparr>)"
  using read_fields_written [OF assms, of "NewDecoder (write_fields fs)" NewEncoder]
  by (simp add: write_fields_def NewDecoder_def NewEncoder_def Encoder_Finish_def)

theorem encoder_decoder_roundtrip_witness:
  "list_all field_fits [FUint64 7, FString ''key'', FBool True, FRaw [1, 2]] \<and>
   fst (read_fields [FUint64 7, FString ''key'', FBool True, FRaw [1, 2]]
     (NewDecoder (write_fields [FUint64 7, FString ''key'', FBool True, FRaw [1, 2]]))) =
   [FUint64 7, FString ''key'', FBool True, FRaw [1, 2]]"
  using encoder_decoder_roundtrip [of "[FUint64 7, FString ''key'', FBool True, FRaw [1, 2]]"] by simp


text \<open>On arbitrary bytes the decoder stays inside its input and never forgets an error.\<close>

lemma read_field_robust:
  "de_pos d \<le> length (de_data d) \<Longrightarrow>
   de_data (snd (read_field f d)) = de_data d \<and> de_pos d \<le> de_pos (snd (read_field f d)) \<and>
   de_pos (snd (read_field f d)) \<le> length (de_data d) \<and> (de_err d \<noteq> None \<longrightarrow> de_err (snd (read_field f d)) \<noteq> None)"
  by (cases f) (simp_all add: u64.dec_inside u32.dec_inside i64.dec_inside i32.dec_inside byt.dec_inside str.dec_inside
      boo.dec_inside raw.dec_inside u64.dec_sticky [simplified] u32.dec_sticky [simplified] i64.dec_sticky [simplified]
      i32.dec_sticky [simplified] byt.dec_sticky [simplified] str.dec_sticky [simplified] boo.dec_sticky [simplified]
      raw.dec_sticky [simplified])

section \<open>The wire format of the effect log\<close>

definition wire_intent :: "Intent \<Rightarrow> bytes" where
  "wire_intent x = it_State x # put_u32 (len_u32 (it_ID x)) @ it_ID x @ put_u32 (len_u32 (it_Data x)) @ it_Data x"

definition wf_intent :: "Intent \<Rightarrow> bool" where
  "wf_intent x \<longleftrightarrow> length (it_ID x) < 2 ^ 32 \<and> length (it_Data x) < 2 ^ 32"

definition wf_effects :: "EffectLog \<Rightarrow> bool" where
  "wf_effects e \<longleftrightarrow> list_all wf_intent (ef_intents e) \<and> length (ef_intents e) < 2 ^ 32"

text \<open>The resume rule: an intent that was in flight when the checkpoint was taken is unresolved.\<close>

definition resumed :: "Intent \<Rightarrow> Intent" where
  "resumed x = (if it_State x = InFlight then x\<lparr>it_State := Unresolved\<rparr> else x)"

lemma marshal_loop_appends: "en_buf (marshal_loop xs enc) = en_buf enc @ concat (map wire_intent xs)"
  by (induction xs arbitrary: enc) (simp_all add: Let_def byt.enc_appends wire_intent_def)

lemma effect_Marshal_wire: "effect_Marshal e = put_u32 (len_u32 (ef_intents e)) @ concat (map wire_intent (ef_intents e))"
  by (simp add: effect_Marshal_def marshal_loop_appends Encoder_Finish_def u32.enc_appends NewEncoder_def)

lemma unmarshal_loop_Cons:
  assumes "wf_intent x" "de_err d = None" "de_pos d \<le> length (de_data d)" "drop (de_pos d) (de_data d) = wire_intent x @ rest"
  shows "unmarshal_loop (Suc n) d = resumed x # unmarshal_loop n (d\<lparr>de_pos := de_pos d + length (wire_intent x)\<rparr>)"
proof -
  have less: "de_pos d < length (de_data d)" and at: "de_data d ! de_pos d = it_State x"
    using assms(4) drop_eq_le [OF assms(4,3)] by (auto simp: wire_intent_def hd_drop_conv_nth [symmetric])
  have d1: "drop (de_pos d + 1) (de_data d) = put_u32 (len_u32 (it_ID x)) @ it_ID x @ put_u32 (len_u32 (it_Data x)) @ it_Data x @ rest"
    using drop_at [of "de_pos d" "de_data d" "[it_State x]"] assms(4) by (simp add: wire_intent_def)
  have r1: "Decoder_Bytes (d\<lparr>de_pos := de_pos d + 1\<rparr>) = (it_ID x, d\<lparr>de_pos := de_pos d + 1 + 4 + length (it_ID x)\<rparr>)"
    using Decoder_Bytes_reads [of "it_ID x" "d\<lparr>de_pos := de_pos d + 1\<rparr>"] d1 less assms(1,2) by (simp add: wf_intent_def)
  have d2: "drop (de_pos d + 1 + 4 + length (it_ID x)) (de_data d) = put_u32 (len_u32 (it_Data x)) @ it_Data x @ rest"
    using drop_at [of "de_pos d + 1" "de_data d" "put_u32 (len_u32 (it_ID x)) @ it_ID x"] d1 by (simp add: add.assoc)
  have "de_pos d + 1 + 4 + length (it_ID x) \<le> length (de_data d)"
    using drop_eq_le [of "de_pos d + 1" "de_data d" "put_u32 (len_u32 (it_ID x)) @ it_ID x"] d1 less by simp
  then have r2: "Decoder_Bytes (d\<lparr>de_pos := de_pos d + 1 + 4 + length (it_ID x)\<rparr>) =
      (it_Data x, d\<lparr>de_pos := de_pos d + length (wire_intent x)\<rparr>)"
    using Decoder_Bytes_reads [of "it_Data x" "d\<lparr>de_pos := de_pos d + 1 + 4 + length (it_ID x)\<rparr>"] d2 assms(1,2)
    by (simp add: wf_intent_def wire_intent_def add.assoc)
  show ?thesis
    using less at assms(2) by (simp add: r1 [simplified] r2 [simplified] Decoder_Err_def resumed_def)
qed

lemma unmarshal_loop_wire:
  assumes "list_all wf_intent xs" "de_err d = None" "de_pos d \<le> length (de_data d)"
    "drop (de_pos d) (de_data d) = concat (map wire_intent xs)"
  shows "unmarshal_loop (length xs) d = map resumed xs"
  using assms
proof (induction xs arbitrary: d)
  case (Cons x xs)
  let ?d = "d\<lparr>de_pos := de_pos d + length (wire_intent x)\<rparr>"
  have w: "drop (de_pos d) (de_data d) = wire_intent x @ concat (map wire_intent xs)" using Cons.prems by simp
  have "unmarshal_loop (length xs) ?d = map resumed xs"
    using Cons.prems drop_at [OF w] drop_eq_le [OF w] by (intro Cons.IH) simp_all
  with Cons.prems unmarshal_loop_Cons [OF _ _ _ w, of "length xs"] show ?case by (simp del: unmarshal_loop.simps)
qed simp

lemma effect_resume: "wf_effects e \<Longrightarrow> effect_Unmarshal (effect_Marshal e) = \<lparr>ef_intents = map resumed (ef_intents e)\<rparr>"
proof -
  assume wf: "wf_effects e"
  have r: "Decoder_Uint32 (NewDecoder (effect_Marshal e)) = (len_u32 (ef_intents e), (NewDecoder (effect_Marshal e))\<lparr>de_pos := 4\<rparr>)"
    using Decoder_Uint32_reads [of "NewDecoder (effect_Marshal e)"] by (simp add: NewDecoder_def effect_Marshal_wire)
  have "unmarshal_loop (length (ef_intents e)) ((NewDecoder (effect_Marshal e))\<lparr>de_pos := 4\<rparr>) = map resumed (ef_intents e)"
    using wf by (intro unmarshal_loop_wire) (simp_all add: wf_effects_def NewDecoder_def effect_Marshal_wire)
  with wf show ?thesis
    by (simp add: effect_Unmarshal_def r Decoder_Err_def wf_effects_def) (simp add: NewDecoder_def effect_Marshal_wire)
qed


section \<open>An effect log through operations and crashes\<close>

text \<open>The calls an agent makes on its log; \<open>OpResume\<close> is a checkpoint followed by a resume.\<close>

datatype effect_op = OpRecord bytes bytes | OpBegin bytes | OpConfirm bytes | OpCompensate bytes | OpPrune | OpResume

definition succeeded :: "unit result \<times> EffectLog \<Rightarrow> bool \<times> EffectLog" where
  "succeeded r = (case r of (Inl _, e) \<Rightarrow> (False, e) | (Inr _, e) \<Rightarrow> (True, e))"

primrec effect_apply :: "effect_op \<Rightarrow> EffectLog \<Rightarrow> bool \<times> EffectLog" where
  "effect_apply (OpRecord ident data) e = succeeded (effect_Record ident data e)"
| "effect_apply (OpBegin ident) e = succeeded (effect_Begin ident e)"
| "effect_apply (OpConfirm ident) e = succeeded (effect_Confirm ident e)"
| "effect_apply (OpCompensate ident) e = succeeded (effect_Compensate ident e)"
| "effect_apply OpPrune e = (True, snd (effect_Prune e))"
| "effect_apply OpResume e = (True, effect_Unmarshal (effect_Marshal e))"

inductive effect_reach :: "(effect_op \<times> bool) list \<Rightarrow> EffectLog \<Rightarrow> bool" where
  start: "effect_reach [] \<lparr>ef_intents = []\<rparr>"
| step: "effect_reach tr e \<Longrightarrow> effect_apply c e = (ok, e') \<Longrightarrow> effect_reach (tr @ [(c, ok)]) e'"

primrec op_fits :: "effect_op \<Rightarrow> bool" where
  "op_fits (OpRecord ident data) = (length ident < 2 ^ 32 \<and> length data < 2 ^ 32)"
| "op_fits (OpBegin ident) = True"
| "op_fits (OpConfirm ident) = True"
| "op_fits (OpCompensate ident) = True"
| "op_fits OpPrune = True"
| "op_fits OpResume = True"

fun recorded_by :: "bytes \<Rightarrow> effect_op \<times> bool \<Rightarrow> bool" where
  "recorded_by ident (OpRecord i _, ok) = (ok \<and> i = ident)"
| "recorded_by ident _ = False"

fun begun_by :: "bytes \<Rightarrow> effect_op \<times> bool \<Rightarrow> bool" where
  "begun_by ident (OpBegin i, ok) = (ok \<and> i = ident)"
| "begun_by ident _ = False"

fun settled_by :: "bytes \<Rightarrow> effect_op \<times> bool \<Rightarrow> bool" where
  "settled_by ident (OpConfirm i, ok) = (ok \<and> i = ident)"
| "settled_by ident (OpCompensate i, ok) = (ok \<and> i = ident)"
| "settled_by ident _ = False"

definition times :: "('a \<Rightarrow> bool) \<Rightarrow> 'a list \<Rightarrow> nat" where
  "times P xs = length (filter P xs)"

definition in_states :: "IntentState set \<Rightarrow> bytes \<Rightarrow> Intent \<Rightarrow> bool" where
  "in_states S ident x \<longleftrightarrow> it_ID x = ident \<and> it_State x \<in> S"

lemma times_append [simp]: "times P (xs @ ys) = times P xs + times P ys"
  and times_Nil [simp]: "times P [] = 0"
  and times_Cons [simp]: "times P (x # xs) = (if P x then 1 else 0) + times P xs"
  by (simp_all add: times_def)

lemma times_update: "k < length xs \<Longrightarrow> times P (xs[k := y]) + (if P (xs ! k) then 1 else 0) = times P xs + (if P y then 1 else 0)"
proof (induction xs arbitrary: k)
  case (Cons x xs)
  then show ?case by (cases k) simp_all
qed simp

lemma times_filter: "(\<And>x. P x \<Longrightarrow> Q x) \<Longrightarrow> times P (filter Q xs) = times P xs"
  by (induction xs) auto

lemma times_map: "(\<And>x. P (f x) = P x) \<Longrightarrow> times P (map f xs) = times P xs"
  by (induction xs) auto

lemma find_index_Some: "find_index ident i xs = Some k \<Longrightarrow> i \<le> k \<and> k - i < length xs \<and> it_ID (xs ! (k - i)) = ident"
  by (induction ident i xs rule: find_index.induct) (force split: if_splits simp: nth_Cons')+

lemma find_index_None: "find_index ident i xs = None \<longleftrightarrow> ident \<notin> it_ID ` set xs"
  by (induction ident i xs rule: find_index.induct) auto

lemma effect_find_Some: "effect_find ident e = Some k \<Longrightarrow> k < length (ef_intents e) \<and> it_ID (ef_intents e ! k) = ident"
  using find_index_Some [of ident 0] by (simp add: effect_find_def)

lemma prune_loop_filter:
  "prune_loop n kept xs = (n + times (\<lambda>x. it_State x = Confirmed \<or> it_State x = Compensated) xs,
     kept @ filter (\<lambda>x. \<not> (it_State x = Confirmed \<or> it_State x = Compensated)) xs)"
  by (induction n kept xs rule: prune_loop.induct) auto

lemma effect_Prune_pending: "ef_intents (snd (effect_Prune e)) = effect_Pending e"
  by (simp add: effect_Prune_def prune_loop_filter effect_Pending_def)

text \<open>One operation on one intent of the list: every step of the log is described by \<open>times\<close>.\<close>

lemma set_state_times:
  assumes "effect_find ident e = Some k"
  shows "times (in_states S j) (ef_intents (set_state k s e)) +
      (if j = ident \<and> it_State (ef_intents e ! k) \<in> S then 1 else 0) =
    times (in_states S j) (ef_intents e) + (if j = ident \<and> s \<in> S then 1 else 0)"
  using times_update [of k "ef_intents e" "in_states S j" "(ef_intents e ! k)\<lparr>it_State := s\<rparr>"] effect_find_Some [OF assms]
  by (auto simp: set_state_def in_states_def)

abbreviation open_states :: "IntentState set" where "open_states \<equiv> {InFlight, Unresolved}"

lemma effect_apply_times:
  assumes "effect_apply c e = (ok, e')" "wf_effects e"
  shows "times (in_states {Recorded} j) (ef_intents e') + times (begun_by j) [(c, ok)] =
      times (in_states {Recorded} j) (ef_intents e) + times (recorded_by j) [(c, ok)] \<and>
    times (in_states open_states j) (ef_intents e') + times (settled_by j) [(c, ok)] =
      times (in_states open_states j) (ef_intents e) + times (begun_by j) [(c, ok)]"
proof (cases c)
  case (OpRecord ident data)
  with assms show ?thesis by (auto simp: succeeded_def effect_Record_def in_states_def split: if_splits)
next
  case (OpBegin ident)
  with assms set_state_times [of ident e _ "{Recorded}" j InFlight] set_state_times [of ident e _ open_states j InFlight]
  show ?thesis by (auto simp: succeeded_def effect_Begin_def split: if_splits option.splits)
next
  case (OpConfirm ident)
  with assms set_state_times [of ident e _ "{Recorded}" j Confirmed] set_state_times [of ident e _ open_states j Confirmed]
  show ?thesis by (auto simp: succeeded_def effect_Confirm_def split: if_splits option.splits)
next
  case (OpCompensate ident)
  with assms set_state_times [of ident e _ "{Recorded}" j Compensated] set_state_times [of ident e _ open_states j Compensated]
  show ?thesis by (auto simp: succeeded_def effect_Compensate_def split: if_splits option.splits)
next
  case OpPrune
  with assms show ?thesis
    by (auto simp: effect_Prune_pending effect_Pending_def in_states_def intro!: times_filter)
next
  case OpResume
  with assms show ?thesis
    by (auto simp: effect_resume intro!: times_map) (auto simp: in_states_def resumed_def split: if_splits)
qed


text \<open>The identifiers of a log stay distinct and its sizes stay within the wire format.\<close>

definition sound_effects :: "EffectLog \<Rightarrow> bool" where
  "sound_effects e \<longleftrightarrow> list_all wf_intent (ef_intents e) \<and> distinct (map it_ID (ef_intents e))"

lemma set_state_ids [simp]: "map it_ID (ef_intents (set_state k s e)) = map it_ID (ef_intents e)"
  by (cases "k < length (ef_intents e)") (simp_all add: set_state_def map_update list_update_same_conv list_update_beyond)

lemma set_state_wf: "list_all wf_intent (ef_intents e) \<Longrightarrow> k < length (ef_intents e) \<Longrightarrow> list_all wf_intent (ef_intents (set_state k s e))"
  by (auto simp: set_state_def list_all_iff wf_intent_def dest: subsetD [OF set_update_subset_insert])

lemma set_state_length [simp]: "length (ef_intents (set_state k s e)) = length (ef_intents e)"
  by (simp add: set_state_def)

lemma map_ID_resumed [simp]: "map it_ID (map resumed xs) = map it_ID xs"
  by (simp add: resumed_def)

lemma distinct_map_ID_filter: "distinct (map it_ID xs) \<Longrightarrow> distinct (map it_ID (filter P xs))"
  by (rule distinct_map_filter)

lemma effect_apply_sound:
  assumes "effect_apply c e = (ok, e')" "sound_effects e" "length (ef_intents e) < 2 ^ 32" "op_fits c"
  shows "sound_effects e' \<and> length (ef_intents e') \<le> Suc (length (ef_intents e))"
proof (cases c)
  case (OpRecord ident data)
  with assms show ?thesis
    by (auto simp: sound_effects_def succeeded_def effect_Record_def effect_find_def find_index_None wf_intent_def split: if_splits)
next
  case (OpBegin ident)
  with assms show ?thesis
    by (auto simp: sound_effects_def succeeded_def effect_Begin_def set_state_wf effect_find_Some split: if_splits option.splits)
next
  case (OpConfirm ident)
  with assms show ?thesis
    by (auto simp: sound_effects_def succeeded_def effect_Confirm_def set_state_wf effect_find_Some split: if_splits option.splits)
next
  case (OpCompensate ident)
  with assms show ?thesis
    by (auto simp: sound_effects_def succeeded_def effect_Compensate_def set_state_wf effect_find_Some split: if_splits option.splits)
next
  case OpPrune
  with assms show ?thesis
    by (auto simp: sound_effects_def effect_Prune_pending effect_Pending_def list_all_iff distinct_map_filter intro: le_SucI)
next
  case OpResume
  with assms have "e' = \<lparr>ef_intents = map resumed (ef_intents e)\<rparr>"
    by (simp add: effect_resume wf_effects_def sound_effects_def)
  moreover have "list_all wf_intent (map resumed (ef_intents e))"
    using assms(2) by (auto simp: sound_effects_def list_all_iff resumed_def wf_intent_def)
  ultimately show ?thesis using assms(2) by (simp only: sound_effects_def EffectLog.simps map_ID_resumed) simp
qed

lemma effect_reach_sound:
  assumes "effect_reach tr e" "list_all (op_fits \<circ> fst) tr" "length tr < 2 ^ 32"
  shows "sound_effects e \<and> length (ef_intents e) \<le> length tr \<and>
    times (recorded_by j) tr = times (begun_by j) tr + times (in_states {Recorded} j) (ef_intents e) \<and>
    times (begun_by j) tr = times (settled_by j) tr + times (in_states open_states j) (ef_intents e)"
  using assms
proof (induction rule: effect_reach.induct)
  case start
  then show ?case by (simp add: sound_effects_def)
next
  case (step tr e c ok e')
  then have IH: "sound_effects e" "length (ef_intents e) \<le> length tr"
    "times (recorded_by j) tr = times (begun_by j) tr + times (in_states {Recorded} j) (ef_intents e)"
    "times (begun_by j) tr = times (settled_by j) tr + times (in_states open_states j) (ef_intents e)" by auto
  moreover have "sound_effects e' \<and> length (ef_intents e') \<le> Suc (length (ef_intents e))"
    using step IH by (intro effect_apply_sound [OF step.hyps(2)]) auto
  moreover have "wf_effects e" using IH step.prems by (simp add: sound_effects_def wf_effects_def)
  note effect_apply_times [OF step.hyps(2) this, of j]
  ultimately show ?case by simp
qed


lemma reach_next: "effect_reach tr e \<Longrightarrow> effect_apply c e = (ok, e') \<Longrightarrow> tr' = tr @ [(c, ok)] \<Longrightarrow> effect_reach tr' e'"
  using step by blast

lemma example_reach:
  "effect_reach [(OpRecord [1] [], True), (OpBegin [1], True), (OpResume, True), (OpBegin [1], False)]
     \<lparr>ef_intents = [\<lparr>it_ID = [1], it_State = Unresolved, it_Data = []\<rparr>]\<rparr>"
proof -
  let ?e = "\<lambda>s. \<lparr>ef_intents = [\<lparr>it_ID = [1], it_State = s, it_Data = []\<rparr>]\<rparr>"
  have 1: "effect_reach [(OpRecord [1] [], True)] (?e Recorded)"
    by (rule reach_next [OF start]) (simp_all add: succeeded_def effect_Record_def effect_find_def)
  have 2: "effect_reach [(OpRecord [1] [], True), (OpBegin [1], True)] (?e InFlight)"
    by (rule reach_next [OF 1]) (simp_all add: succeeded_def effect_Begin_def effect_find_def set_state_def)
  have 3: "effect_reach [(OpRecord [1] [], True), (OpBegin [1], True), (OpResume, True)] (?e Unresolved)"
    by (rule reach_next [OF 2]) (simp_all add: effect_resume wf_effects_def wf_intent_def resumed_def)
  show ?thesis
    by (rule reach_next [OF 3, of "OpBegin [1]" False]) (simp_all add: succeeded_def effect_Begin_def effect_find_def)
qed


text \<open>
  C37 The resume rule: unmarshalling what \<open>Marshal\<close> wrote gives back every intent in order, with its identifier, state
  and data, except that each intent in flight has become unresolved; so after a resume exactly the
  intents that were in flight or unresolved are the ones \<open>Unresolved\<close> reports.
\<close>

theorem effect_resume_rule:
  assumes "list_all wf_intent (ef_intents e)" "length (ef_intents e) < 2 ^ 32"
  shows "effect_Unmarshal (effect_Marshal e) =
      \<lparr>ef_intents = map (\<lambda>x. if it_State x = InFlight then x\<lparr>it_State := Unresolved\<rparr> else x) (ef_intents e)\<rparr> \<and>
    map it_ID (effect_Unresolved (effect_Unmarshal (effect_Marshal e))) =
      map it_ID (filter (\<lambda>x. it_State x \<in> {InFlight, Unresolved}) (ef_intents e))"
proof -
  have e: "effect_Unmarshal (effect_Marshal e) = \<lparr>ef_intents = map resumed (ef_intents e)\<rparr>"
    using assms by (simp add: effect_resume wf_effects_def)
  have "map it_ID (filter (\<lambda>x. it_State x = Unresolved) (map resumed xs)) =
      map it_ID (filter (\<lambda>x. it_State x \<in> {InFlight, Unresolved}) xs)" for xs
    by (induction xs) (auto simp: resumed_def)
  then show ?thesis by (simp add: e effect_Unresolved_def resumed_def [abs_def])
qed

theorem effect_resume_rule_witness:
  "effect_Unmarshal (effect_Marshal \<lparr>ef_intents = [\<lparr>it_ID = [1], it_State = InFlight, it_Data = [9]\<rparr>]\<rparr>) =
     \<lparr>ef_intents = [\<lparr>it_ID = [1], it_State = Unresolved, it_Data = [9]\<rparr>]\<rparr>"
  using effect_resume_rule [of "\<lparr>ef_intents = [\<lparr>it_ID = [1], it_State = InFlight, it_Data = [9]\<rparr>]\<rparr>"] by (simp add: wf_intent_def)

text \<open>
  A truncated log is not detected: \<open>Unmarshal\<close> reports no error, and when the bytes end inside an intent it
  appends an intent with an empty identifier that was never recorded.
\<close>

theorem effect_Unmarshal_truncated:
  "effect_Unmarshal (put_u32 1 @ [InFlight, 3, 0, 0, 0, 7]) = \<lparr>ef_intents = [\<lparr>it_ID = [], it_State = Unresolved, it_Data = []\<rparr>]\<rparr>"
  by code_simp

section \<open>Logs between two ticks\<close>

text \<open>No intent is in flight: such a log survives a checkpoint unchanged.\<close>

definition no_inflight :: "EffectLog \<Rightarrow> bool" where
  "no_inflight e \<longleftrightarrow> (\<forall>x \<in> set (ef_intents e). it_State x \<noteq> InFlight)"

lemma effect_resume_id: "no_inflight e \<Longrightarrow> wf_effects e \<Longrightarrow> effect_Unmarshal (effect_Marshal e) = e"
proof -
  assume "no_inflight e" "wf_effects e"
  moreover have "map resumed xs = xs" if "\<forall>x \<in> set xs. it_State x \<noteq> InFlight" for xs
    using that by (simp add: map_idI resumed_def)
  ultimately show ?thesis by (simp add: effect_resume no_inflight_def)
qed

lemma no_inflight_empty [simp]: "no_inflight \<lparr>ef_intents = []\<rparr>"
  by (simp add: no_inflight_def)

lemma wf_effects_empty [simp]: "wf_effects \<lparr>ef_intents = []\<rparr>"
  by (simp add: wf_effects_def)

lemma set_state_no_inflight: "no_inflight e \<Longrightarrow> s \<noteq> InFlight \<Longrightarrow> no_inflight (set_state k s e)"
  by (cases "k < length (ef_intents e)")
    (auto simp: no_inflight_def set_state_def list_update_beyond dest: subsetD [OF set_update_subset_insert])

lemma set_state_again [simp]: "set_state k s (set_state k t e) = set_state k s e"
  by (cases "k < length (ef_intents e)") (simp_all add: set_state_def list_update_beyond)

lemma set_state_wf_effects: "wf_effects e \<Longrightarrow> wf_effects (set_state k s e)"
  by (cases "k < length (ef_intents e)")
    (simp_all add: wf_effects_def set_state_wf, simp add: set_state_def list_update_beyond)

lemma find_index_set_state: "find_index ident i (xs[k := (xs ! k)\<lparr>it_State := s\<rparr>]) = find_index ident i xs"
proof (induction xs arbitrary: i k)
  case (Cons x xs)
  then show ?case by (cases k) simp_all
qed simp

lemma effect_find_set_state [simp]: "effect_find ident (set_state k s e) = effect_find ident e"
  by (simp add: effect_find_def set_state_def find_index_set_state)

text \<open>A step that begins an intent and settles it in the same breath.\<close>

lemma Begin_then:
  assumes "effect_Begin ident e = (Inr u, e1)"
  obtains k where "effect_find ident e = Some k" "k < length (ef_intents e)" "it_State (ef_intents e ! k) = Recorded"
    "e1 = set_state k InFlight e" "effect_Confirm ident e1 = (Inr (), set_state k Confirmed e)"
    "effect_Compensate ident e1 = (Inr (), set_state k Compensated e)"
proof -
  from assms obtain k where k: "effect_find ident e = Some k" "it_State (ef_intents e ! k) = Recorded" "e1 = set_state k InFlight e"
    by (auto simp: effect_Begin_def split: option.splits if_splits)
  from effect_find_Some [OF k(1)] have l: "k < length (ef_intents e)" by simp
  then have "it_State (ef_intents e1 ! k) = InFlight" using k(3) by (simp add: set_state_def)
  with k l that show thesis by (simp add: effect_Confirm_def effect_Compensate_def)
qed

lemma Begin_cases:
  obtains (refused) err where "effect_Begin ident e = (Inl err, e)"
    | (begun) e1 where "effect_Begin ident e = (Inr (), e1)"
proof (cases "effect_Begin ident e")
  case (Pair r e1)
  then show thesis using that by (auto simp: effect_Begin_def split: option.splits if_splits)
qed

lemma Confirm_keeps:
  assumes "no_inflight e" "wf_effects e"
  shows "no_inflight (snd (effect_Confirm ident e)) \<and> wf_effects (snd (effect_Confirm ident e))"
  using assms by (auto simp: effect_Confirm_def set_state_no_inflight set_state_wf_effects split: option.split)

lemma Compensate_keeps:
  assumes "no_inflight e" "wf_effects e"
  shows "no_inflight (snd (effect_Compensate ident e)) \<and> wf_effects (snd (effect_Compensate ident e))"
  using assms by (auto simp: effect_Compensate_def set_state_no_inflight set_state_wf_effects split: option.split)

lemma Prune_keeps:
  assumes "no_inflight e" "wf_effects e"
  shows "no_inflight (snd (effect_Prune e)) \<and> wf_effects (snd (effect_Prune e))"
proof -
  have "length (ef_intents (snd (effect_Prune e))) \<le> length (ef_intents e)"
    unfolding effect_Prune_pending by (simp add: effect_Pending_def)
  then have "length (ef_intents (snd (effect_Prune e))) < 2 ^ 32"
    using assms by (simp add: wf_effects_def)
  then show ?thesis
    using assms by (auto simp: no_inflight_def wf_effects_def list_all_iff effect_Prune_pending effect_Pending_def)
qed

lemma Record_keeps:
  assumes "no_inflight e" "effect_Record ident data e = (r, e')"
  shows "no_inflight e'"
  using assms by (auto simp: no_inflight_def effect_Record_def split: if_splits)

lemma Record_wf:
  assumes "list_all wf_intent (ef_intents e)" "length ident < 2 ^ 32" "length data < 2 ^ 32" "effect_Record ident data e = (r, e')"
  shows "list_all wf_intent (ef_intents e') \<and> length (ef_intents e') \<le> Suc (length (ef_intents e))"
  using assms by (auto simp: effect_Record_def wf_intent_def split: if_splits)

text \<open>A log with one intent.\<close>

lemma single_intent:
  assumes "it_State x = Recorded"
  shows "effect_Begin (it_ID x) \<lparr>ef_intents = [x]\<rparr> = (Inr (), \<lparr>ef_intents = [x\<lparr>it_State := InFlight\<rparr>]\<rparr>)"
    "effect_Confirm (it_ID x) \<lparr>ef_intents = [x\<lparr>it_State := InFlight\<rparr>]\<rparr> = (Inr (), \<lparr>ef_intents = [x\<lparr>it_State := Confirmed\<rparr>]\<rparr>)"
    "effect_Compensate (it_ID x) \<lparr>ef_intents = [x\<lparr>it_State := InFlight\<rparr>]\<rparr> = (Inr (), \<lparr>ef_intents = [x\<lparr>it_State := Compensated\<rparr>]\<rparr>)"
    "snd (effect_Prune \<lparr>ef_intents = [x\<lparr>it_State := Confirmed\<rparr>]\<rparr>) = \<lparr>ef_intents = []\<rparr>"
    "snd (effect_Prune \<lparr>ef_intents = [x\<lparr>it_State := Compensated\<rparr>]\<rparr>) = \<lparr>ef_intents = []\<rparr>"
  using assms by (simp_all add: effect_Begin_def effect_Confirm_def effect_Compensate_def effect_Prune_def effect_find_def set_state_def)

lemma Record_empty: "effect_Record ident data \<lparr>ef_intents = []\<rparr> =
    (Inr (), \<lparr>ef_intents = [\<lparr>it_ID = ident, it_State = Recorded, it_Data = data\<rparr>]\<rparr>)"
  by (simp add: effect_Record_def effect_find_def)

lemma EffectLog_eq: "e = \<lparr>ef_intents = ef_intents e\<rparr>"
  by simp

text \<open>The logs of the agents between two ticks: at most one intent, recorded and of a known shape.\<close>

definition one_recorded :: "(Intent \<Rightarrow> bool) \<Rightarrow> EffectLog \<Rightarrow> bool" where
  "one_recorded P e \<longleftrightarrow> length (ef_intents e) \<le> 1 \<and> list_all P (ef_intents e)"

lemma one_recorded_cases:
  assumes "one_recorded P e"
  obtains (none) "e = \<lparr>ef_intents = []\<rparr>" | (one) x where "e = \<lparr>ef_intents = [x]\<rparr>" "P x"
proof -
  have "e = \<lparr>ef_intents = []\<rparr> \<or> (\<exists>x. e = \<lparr>ef_intents = [x]\<rparr> \<and> P x)"
    using assms EffectLog_eq [of e] by (cases "ef_intents e") (auto simp: one_recorded_def)
  with that show thesis by blast
qed

lemma one_recorded_log:
  assumes "one_recorded P e" "\<And>x. P x \<Longrightarrow> it_State x = Recorded \<and> wf_intent x \<and> length (wire_intent x) < 2 ^ 32 - 4"
  shows "effect_Unmarshal (effect_Marshal e) = e" "length (effect_Marshal e) < 2 ^ 32"
    "effect_Unresolved e = []" "effect_Pending e = ef_intents e"
    "List.find (\<lambda>x. it_State x = Recorded) (ef_intents e) = (case ef_intents e of [] \<Rightarrow> None | x # _ \<Rightarrow> Some x)"
proof -
  have rec: "it_State x = Recorded" "wf_intent x" "length (wire_intent x) < 2 ^ 32 - 4" if "x \<in> set (ef_intents e)" for x
    using that assms by (auto simp: one_recorded_def list_all_iff)
  have one: "length (ef_intents e) \<le> 1" using assms(1) by (simp add: one_recorded_def)
  have "no_inflight e" "wf_effects e"
    using rec one by (simp_all add: no_inflight_def wf_effects_def list_all_iff)
  then show "effect_Unmarshal (effect_Marshal e) = e" by (rule effect_resume_id)
  show "length (effect_Marshal e) < 2 ^ 32"
    using rec(3) one by (cases "ef_intents e") (simp_all add: effect_Marshal_wire)
  show "effect_Unresolved e = []" "effect_Pending e = ef_intents e"
    using rec(1) by (simp_all add: effect_Unresolved_def effect_Pending_def)
  show "List.find (\<lambda>x. it_State x = Recorded) (ef_intents e) = (case ef_intents e of [] \<Rightarrow> None | x # _ \<Rightarrow> Some x)"
    using rec(1) by (cases "ef_intents e") simp_all
qed

end
