(* ===== verification/Peers.thy ===== *)
theory Peers
  imports Authority "HOL-Library.Product_Lexorder" "HOL-Library.Multiset"
begin

text \<open>
  \<open>src/internal/registry/registry.go\<close>: the registry of known peers and the choice of migration
  candidates.  The peer map is a map from peer identifiers; Go iterates over it in an unspecified
  order, which is the argument \<open>order\<close> of the operations that range over it.  \<open>sort.Slice\<close> is the
  insertion sort it uses for short slices; the lemmas use only that it sorts.  Capabilities are an
  option because the code tells nil (unknown) from empty.  \<open>time.Now\<close> is an argument and the mutex
  is left out.
\<close>

record PeerInfo =
  pi_ID :: string
  pi_Addrs :: "string list"
  pi_PricePerSecond :: int64
  pi_Capabilities :: "string list option"
  pi_LastSeen :: instant
  pi_FailCount :: int

type_synonym peers = "string \<rightharpoonup> PeerInfo"

definition registry_New :: peers where
  "registry_New = Map.empty"

definition registry_merge :: "PeerInfo \<Rightarrow> PeerInfo \<Rightarrow> PeerInfo" where
  "registry_merge info existing =
     (let existing = (if length (pi_Addrs info) > 0 then existing\<lparr>pi_Addrs := pi_Addrs info\<rparr> else existing);
          existing = (if sint (pi_PricePerSecond info) > 0
                      then existing\<lparr>pi_PricePerSecond := pi_PricePerSecond info\<rparr> else existing);
          existing = (if pi_Capabilities info \<noteq> None
                      then existing\<lparr>pi_Capabilities := pi_Capabilities info\<rparr> else existing);
          existing = (if pi_LastSeen info \<noteq> time_zero then existing\<lparr>pi_LastSeen := pi_LastSeen info\<rparr> else existing)
      in existing)"

definition registry_Add :: "PeerInfo \<Rightarrow> peers \<Rightarrow> peers" where
  "registry_Add info r =
     (case r (pi_ID info) of
        None \<Rightarrow> r(pi_ID info \<mapsto> info)
      | Some existing \<Rightarrow> r(pi_ID info \<mapsto> registry_merge info existing))"

definition registry_Remove :: "string \<Rightarrow> peers \<Rightarrow> peers" where
  "registry_Remove ident r = r(ident := None)"

definition registry_Get :: "string \<Rightarrow> peers \<Rightarrow> PeerInfo option" where
  "registry_Get ident r = r ident"

definition RecordSuccess :: "instant \<Rightarrow> string \<Rightarrow> peers \<Rightarrow> peers" where
  "RecordSuccess now ident r =
     (case r ident of
        Some p \<Rightarrow> r(ident \<mapsto> p\<lparr>pi_FailCount := 0, pi_LastSeen := now\<rparr>)
      | None \<Rightarrow> r)"

definition RecordFailure :: "string \<Rightarrow> peers \<Rightarrow> peers" where
  "RecordFailure ident r =
     (case r ident of
        Some p \<Rightarrow> r(ident \<mapsto> p\<lparr>pi_FailCount := pi_FailCount p + 1\<rparr>)
      | None \<Rightarrow> r)"

definition hasCapabilities :: "string list option \<Rightarrow> string list \<Rightarrow> bool" where
  "hasCapabilities peerCaps requiredCaps =
     (if length requiredCaps = 0 then True
      else case peerCaps of None \<Rightarrow> True | Some caps \<Rightarrow> list_all (\<lambda>req. req \<in> set caps) requiredCaps)"

definition eligible :: "int64 \<Rightarrow> string list \<Rightarrow> string list \<Rightarrow> int \<Rightarrow> PeerInfo \<Rightarrow> bool" where
  "eligible maxPrice requiredCaps excludeIDs maxFailures p =
     (if pi_ID p \<in> set excludeIDs then False
      else if maxFailures \<ge> 0 \<and> pi_FailCount p > maxFailures then False
      else if sint maxPrice > 0 \<and> sint (pi_PricePerSecond p) > 0 \<and> sint (pi_PricePerSecond p) > sint maxPrice then False
      else if \<not> hasCapabilities (pi_Capabilities p) requiredCaps then False
      else True)"

definition peer_less :: "PeerInfo \<Rightarrow> PeerInfo \<Rightarrow> bool" where
  "peer_less a b =
     (if pi_PricePerSecond a \<noteq> pi_PricePerSecond b
      then (if pi_PricePerSecond a = 0 then False
            else if pi_PricePerSecond b = 0 then True
            else sint (pi_PricePerSecond a) < sint (pi_PricePerSecond b))
      else if pi_FailCount a \<noteq> pi_FailCount b then pi_FailCount a < pi_FailCount b
      else pi_LastSeen a > pi_LastSeen b)"

text \<open>One round of the insertion sort on the sorted prefix, which is held in reverse.\<close>

fun insert_back :: "('a \<Rightarrow> 'a \<Rightarrow> bool) \<Rightarrow> 'a \<Rightarrow> 'a list \<Rightarrow> 'a list" where
  "insert_back lt x [] = [x]"
| "insert_back lt x (y # ys) = (if lt x y then y # insert_back lt x ys else x # y # ys)"

definition sort_Slice :: "('a \<Rightarrow> 'a \<Rightarrow> bool) \<Rightarrow> 'a list \<Rightarrow> 'a list" where
  "sort_Slice lt xs = rev (fold (insert_back lt) xs [])"

definition registry_All :: "string list \<Rightarrow> peers \<Rightarrow> PeerInfo list" where
  "registry_All order r = List.map_filter r order"

definition registry_Len :: "string list \<Rightarrow> peers \<Rightarrow> nat" where
  "registry_Len order r = length (registry_All order r)"

definition SelectCandidates ::
    "string list \<Rightarrow> int64 \<Rightarrow> string list \<Rightarrow> string list \<Rightarrow> int \<Rightarrow> peers \<Rightarrow> PeerInfo list" where
  "SelectCandidates order maxPrice requiredCaps excludeIDs maxFailures r =
     (let candidates = filter (eligible maxPrice requiredCaps excludeIDs maxFailures) (List.map_filter r order)
      in sort_Slice peer_less candidates)"

section \<open>The sort\<close>

lemma mset_insert_back: "mset (insert_back lt x ys) = add_mset x (mset ys)"
  by (induction ys) auto

lemma mset_sort_Slice [simp]: "mset (sort_Slice lt xs) = mset xs"
proof -
  have "mset (fold (insert_back lt) xs acc) = mset xs + mset acc" for acc
    by (induction xs arbitrary: acc) (simp_all add: mset_insert_back)
  then show ?thesis by (simp add: sort_Slice_def)
qed

lemma set_sort_Slice [simp]: "set (sort_Slice lt xs) = set xs"
  by (metis mset_sort_Slice set_mset_mset)

text \<open>A less function that compares keys of a linear order makes \<open>sort.Slice\<close> a sort by that key.\<close>

locale keyed_less =
  fixes lt :: "'a \<Rightarrow> 'a \<Rightarrow> bool" and key :: "'a \<Rightarrow> 'k :: linorder"
  assumes less_key: "lt a b \<longleftrightarrow> key a < key b"
begin

lemma insert_back_sorted:
  "sorted_wrt (\<lambda>a b. key b \<le> key a) ys \<Longrightarrow> sorted_wrt (\<lambda>a b. key b \<le> key a) (insert_back lt x ys)"
proof (induction ys)
  case (Cons y ys)
  have "set (insert_back lt x ys) = insert x (set ys)"
    by (metis mset_insert_back set_mset_add_mset_insert set_mset_mset)
  then have "key z \<le> key y" if "lt x y" "z \<in> set (insert_back lt x ys)" for z
    using Cons.prems that by (auto simp: less_key)
  with Cons show ?case using less_key [of x y] by fastforce
qed simp

lemma sort_Slice_sorted: "sorted (map key (sort_Slice lt xs))"
proof -
  have "sorted_wrt (\<lambda>a b. key b \<le> key a) (fold (insert_back lt) xs acc)"
    if "sorted_wrt (\<lambda>a b. key b \<le> key a) acc" for acc
    using that by (induction xs arbitrary: acc) (simp_all add: insert_back_sorted)
  then show ?thesis by (simp add: sort_Slice_def sorted_map sorted_wrt_rev)
qed

lemma sort_Slice_first: "sort_Slice lt xs = y # ys \<Longrightarrow> x \<in> set xs \<Longrightarrow> key y \<le> key x"
  using sort_Slice_sorted [of xs] set_sort_Slice [of lt xs] by fastforce

end


section \<open>The preference order\<close>

text \<open>Known prices first and in ascending order, then fewest failures, then the latest sighting.\<close>

definition peer_key :: "PeerInfo \<Rightarrow> bool \<times> int \<times> int \<times> int" where
  "peer_key p = (pi_PricePerSecond p = 0, sint (pi_PricePerSecond p), pi_FailCount p, - pi_LastSeen p)"

interpretation candidates: keyed_less peer_less peer_key
proof
  fix a b :: PeerInfo
  have "pi_PricePerSecond a = 0 \<longleftrightarrow> sint (pi_PricePerSecond a) = 0" "pi_PricePerSecond b = 0 \<longleftrightarrow> sint (pi_PricePerSecond b) = 0"
    "pi_PricePerSecond a = pi_PricePerSecond b \<longleftrightarrow> sint (pi_PricePerSecond a) = sint (pi_PricePerSecond b)"
    by (auto simp: signed_eq_0_iff dest: signed_word_eqI)
  then show "peer_less a b \<longleftrightarrow> peer_key a < peer_key b"
    by (auto simp: peer_less_def peer_key_def)
qed

lemma set_map_filter: "set (List.map_filter f xs) = {y. \<exists>x \<in> set xs. f x = Some y}"
  by (force simp: List.map_filter_def image_iff)

lemma eligible_iff:
  "eligible maxPrice requiredCaps excludeIDs maxFailures p \<longleftrightarrow>
     pi_ID p \<notin> set excludeIDs \<and> (maxFailures \<ge> 0 \<longrightarrow> pi_FailCount p \<le> maxFailures) \<and>
     (sint maxPrice > 0 \<longrightarrow> sint (pi_PricePerSecond p) \<le> sint maxPrice) \<and>
     (\<forall>caps. pi_Capabilities p = Some caps \<longrightarrow> set requiredCaps \<subseteq> set caps)"
  by (auto simp: eligible_def hasCapabilities_def list_all_iff split: if_splits option.splits)

text \<open>
  Candidate selection: whatever order the peer map is iterated in, \<open>SelectCandidates\<close> returns exactly the peers that are
  not excluded, have not failed too often, are not known to be too expensive and are not known to
  lack a required capability, sorted by known price, failures and recency; the order of the keys
  does not depend on the iteration order.
\<close>

theorem SelectCandidates_correct:
  assumes "set order = dom r" "distinct order" "set order' = dom r" "distinct order'"
  shows "set (SelectCandidates order maxPrice requiredCaps excludeIDs maxFailures r) =
      {p \<in> ran r. pi_ID p \<notin> set excludeIDs \<and> (maxFailures \<ge> 0 \<longrightarrow> pi_FailCount p \<le> maxFailures) \<and>
         (sint maxPrice > 0 \<longrightarrow> sint (pi_PricePerSecond p) \<le> sint maxPrice) \<and>
         (\<forall>caps. pi_Capabilities p = Some caps \<longrightarrow> set requiredCaps \<subseteq> set caps)} \<and>
    sorted (map peer_key (SelectCandidates order maxPrice requiredCaps excludeIDs maxFailures r)) \<and>
    map peer_key (SelectCandidates order maxPrice requiredCaps excludeIDs maxFailures r) =
      map peer_key (SelectCandidates order' maxPrice requiredCaps excludeIDs maxFailures r)"
proof -
  let ?c = "\<lambda>o'. SelectCandidates o' maxPrice requiredCaps excludeIDs maxFailures r"
  have "set (?c order) = {p. eligible maxPrice requiredCaps excludeIDs maxFailures p \<and> p \<in> ran r}"
    using assms(1) by (auto simp: SelectCandidates_def set_map_filter ran_def dom_def)
  moreover have s: "sorted (map peer_key (?c o'))" for o'
    by (simp add: SelectCandidates_def candidates.sort_Slice_sorted)
  moreover have "mset order = mset order'"
    using set_eq_iff_mset_eq_distinct [of order order'] assms by simp
  then have "mset (map peer_key (?c order)) = mset (map peer_key (?c order'))"
    by (simp add: SelectCandidates_def List.map_filter_def mset_filter)
  then have "map peer_key (?c order) = map peer_key (?c order')"
    using s by (metis properties_for_sort)
  ultimately show ?thesis by (auto simp: eligible_iff)
qed

definition example_peer :: "string \<Rightarrow> int64 \<Rightarrow> PeerInfo" where
  "example_peer ident price =
     \<lparr>pi_ID = ident, pi_Addrs = [], pi_PricePerSecond = price, pi_Capabilities = None, pi_LastSeen = 0, pi_FailCount = 0\<rparr>"

theorem SelectCandidates_correct_witness:
  "map peer_key (SelectCandidates [''b'', ''a''] 9 [] [] 3 [''a'' \<mapsto> example_peer ''a'' 5, ''b'' \<mapsto> example_peer ''b'' 0]) =
     [peer_key (example_peer ''a'' 5), peer_key (example_peer ''b'' 0)]"
proof -
  let ?r = "[''a'' \<mapsto> example_peer ''a'' 5, ''b'' \<mapsto> example_peer ''b'' 0]"
  have "map peer_key (SelectCandidates [''b'', ''a''] 9 [] [] 3 ?r) = map peer_key (SelectCandidates [''a'', ''b''] 9 [] [] 3 ?r)"
    using SelectCandidates_correct [of "[''b'', ''a'']" ?r "[''a'', ''b'']"] by auto
  also have "SelectCandidates [''a'', ''b''] 9 [] [] 3 ?r = [example_peer ''a'' 5, example_peer ''b'' 0]"
    by (simp add: SelectCandidates_def List.map_filter_def eligible_def hasCapabilities_def example_peer_def sort_Slice_def peer_less_def)
  finally show ?thesis by (simp only: list.map)
qed

section \<open>The registry\<close>

datatype registry_op = OpAdd PeerInfo | OpRemove string | OpSuccess instant string | OpFailure string

primrec registry_step :: "registry_op \<Rightarrow> peers \<Rightarrow> peers" where
  "registry_step (OpAdd info) r = registry_Add info r"
| "registry_step (OpRemove ident) r = registry_Remove ident r"
| "registry_step (OpSuccess now ident) r = RecordSuccess now ident r"
| "registry_step (OpFailure ident) r = RecordFailure ident r"

lemmas registry_defs = registry_Add_def registry_Remove_def RecordSuccess_def RecordFailure_def

definition keyed_by_id :: "peers \<Rightarrow> bool" where
  "keyed_by_id r \<longleftrightarrow> (\<forall>ident p. r ident = Some p \<longrightarrow> pi_ID p = ident)"

lemma registry_merge_ID [simp]: "pi_ID (registry_merge info existing) = pi_ID existing"
  by (simp add: registry_merge_def)

lemma registry_merge_self [simp]: "registry_merge info info = info"
  by (simp add: registry_merge_def)

lemma registry_merge_twice [simp]: "registry_merge info (registry_merge info existing) = registry_merge info existing"
  by (cases existing) (simp add: registry_merge_def Let_def)

lemma registry_step_keyed: "keyed_by_id r \<Longrightarrow> keyed_by_id (registry_step c r)"
  by (cases c) (auto simp: keyed_by_id_def registry_defs Let_def split: if_splits option.splits)


lemma registry_step_finite: "finite (dom r) \<Longrightarrow> finite (dom (registry_step c r))"
  by (cases c) (auto simp: registry_defs Let_def split: option.splits)

text \<open>
  The registry is well-formed after every sequence of operations: a peer is filed under its own identifier, finitely many
  peers are known, and \<open>Add\<close> is idempotent.
\<close>

theorem registry_well_formed:
  "keyed_by_id (fold registry_step ops registry_New) \<and> finite (dom (fold registry_step ops registry_New)) \<and>
   registry_Add info (registry_Add info (fold registry_step ops registry_New)) = registry_Add info (fold registry_step ops registry_New)"
proof -
  have "keyed_by_id (fold registry_step ops r) \<and> finite (dom (fold registry_step ops r))" if "keyed_by_id r" "finite (dom r)" for r
    using that by (induction ops arbitrary: r) (simp_all add: registry_step_keyed registry_step_finite)
  moreover have "keyed_by_id registry_New" "finite (dom registry_New)"
    by (simp_all add: keyed_by_id_def registry_New_def)
  ultimately have "keyed_by_id (fold registry_step ops registry_New) \<and> finite (dom (fold registry_step ops registry_New))"
    by blast
  moreover have "registry_Add info (registry_Add info r) = registry_Add info r" for r
    by (cases "r (pi_ID info)") (auto simp: registry_Add_def Let_def)
  ultimately show ?thesis by simp
qed

text \<open>A negative price is no known price to the filter, yet it sorts before every other one.\<close>

lemma negative_price_preferred:
  assumes "sint (pi_PricePerSecond p) < 0" "0 \<le> sint (pi_PricePerSecond q)"
    "pi_ID p \<notin> set excludeIDs" "pi_FailCount p = 0" "pi_Capabilities p = None"
  shows "eligible maxPrice requiredCaps excludeIDs maxFailures p \<and> peer_less p q"
proof -
  have "pi_PricePerSecond p \<noteq> 0" "pi_PricePerSecond p \<noteq> pi_PricePerSecond q" using assms by auto
  with assms show ?thesis by (auto simp: eligible_iff peer_less_def)
qed

end
