(* ===== verification/Simulator.thy ===== *)
theory Simulator
  imports ReplaySound Budget
begin

unbundle bit_operations_syntax

text \<open>
  \<open>src/internal/simulator\<close>: the single-process runner with its deterministic host functions.  The host
  state is that of the live host with the simulator's own clock, generator and prices in the place of the
  wallet.  \<open>math/rand/v2\<close>'s PCG generator is written out.  Closing modules and runtimes and log lines are
  left out; the elapsed times of the ticks are an argument.
\<close>

section \<open>Deterministic host functions\<close>

record pcg =
  pg_hi :: uint64
  pg_lo :: uint64

definition NewPCG :: "uint64 \<Rightarrow> uint64 \<Rightarrow> pcg" where
  "NewPCG seed1 seed2 = \<lparr>pg_hi = seed1, pg_lo = seed2\<rparr>"

definition pcg_next :: "pcg \<Rightarrow> pcg" where
  "pcg_next p =
     (let state = push_bit 64 (ucast (pg_hi p) :: 128 word) OR ucast (pg_lo p);
          mul = push_bit 64 (2549297995355413924 :: 128 word) OR 4865540595714422341;
          inc = push_bit 64 (6364136223846793005 :: 128 word) OR 1442695040888963407;
          state = state * mul + inc
      in \<lparr>pg_hi = ucast (drop_bit 64 state), pg_lo = ucast state\<rparr>)"

definition pcg_Uint64 :: "pcg \<Rightarrow> uint64 \<times> pcg" where
  "pcg_Uint64 p =
     (let p = pcg_next p; hi = pg_hi p;
          hi = hi XOR drop_bit 32 hi;
          hi = hi * 0xda942042e4dd58b5;
          hi = hi XOR drop_bit 48 hi;
          hi = hi * (pg_lo p OR 1)
      in (hi, p))"

text \<open>\<open>rand.Rand.Uint32\<close> is the upper half of the source's next value.\<close>

definition rand_Uint32 :: "pcg \<Rightarrow> uint32 \<times> pcg" where
  "rand_Uint32 p = (case pcg_Uint64 p of (v, p) \<Rightarrow> (ucast (drop_bit 32 v), p))"

primrec rand_fill :: "nat \<Rightarrow> pcg \<Rightarrow> bytes \<times> pcg" where
  "rand_fill 0 p = ([], p)"
| "rand_fill (Suc n) p = (case rand_Uint32 p of (v, p) \<Rightarrow> apfst (Cons (ucast v)) (rand_fill n p))"

record deterministicHostcalls =
  dt_clockValue :: int64
  dt_clockDelta :: int64
  dt_randSrc :: pcg
  dt_budget :: int64
  dt_nodePrice :: int64

definition newDeterministicHostcalls :: "int64 \<Rightarrow> int64 \<Rightarrow> uint64 \<Rightarrow> int64 \<Rightarrow> deterministicHostcalls" where
  "newDeterministicHostcalls clockStart clockDelta randSeed nodePrice =
     \<lparr>dt_clockValue = clockStart, dt_clockDelta = clockDelta, dt_randSrc = NewPCG randSeed randSeed,
      dt_budget = 0, dt_nodePrice = nodePrice\<rparr>"

type_synonym det_state = "deterministicHostcalls hc_state"

definition det_clock_now :: "'m \<Rightarrow> det_state \<Rightarrow> uint64 list \<times> 'm \<times> det_state" where
  "det_clock_now m h =
     (let d = hc_wallet h; now = dt_clockValue d;
          h = h\<lparr>hc_wallet := d\<lparr>dt_clockValue := dt_clockValue d + dt_clockDelta d\<rparr>\<rparr>
      in (ret_i64 now, m, record_obs ClockNow (put_u64 now) h))"

definition det_rand_bytes :: "'m guest \<Rightarrow> uint32 \<Rightarrow> uint32 \<Rightarrow> 'm \<Rightarrow> det_state \<Rightarrow> uint64 list \<times> 'm \<times> det_state" where
  "det_rand_bytes G ptr len m h =
     (let (buf, src) = rand_fill (unat len) (dt_randSrc (hc_wallet h));
          h = h\<lparr>hc_wallet := (hc_wallet h)\<lparr>dt_randSrc := src\<rparr>\<rparr>;
          h = record_obs RandBytes buf h
      in case g_write G ptr buf m of
           None \<Rightarrow> (ret_i32 (-4), m, h)
         | Some m \<Rightarrow> (ret_i32 0, m, h))"

definition det_log_emit :: "'m guest \<Rightarrow> uint32 \<Rightarrow> uint32 \<Rightarrow> 'm \<Rightarrow> det_state \<Rightarrow> uint64 list \<times> 'm \<times> det_state" where
  "det_log_emit G ptr len m h =
     (case g_read G ptr len m of
        None \<Rightarrow> ([], m, h)
      | Some data \<Rightarrow> ([], m, record_obs LogEmit data h))"

definition det_wallet_balance :: "'m \<Rightarrow> det_state \<Rightarrow> uint64 list \<times> 'm \<times> det_state" where
  "det_wallet_balance m h =
     (let balance = dt_budget (hc_wallet h)
      in (ret_i64 balance, m, record_obs WalletBalance (put_u64 balance) h))"

definition det_wallet_receipt_count :: "'m \<Rightarrow> det_state \<Rightarrow> uint64 list \<times> 'm \<times> det_state" where
  "det_wallet_receipt_count m h = (ret_i32 0, m, record_obs WalletReceiptCount (put_u32 0) h)"

definition det_wallet_receipt :: "'m \<Rightarrow> det_state \<Rightarrow> uint64 list \<times> 'm \<times> det_state" where
  "det_wallet_receipt m h = (ret_i32 (-1), m, record_obs WalletReceipt [] h)"

definition det_node_price :: "'m \<Rightarrow> det_state \<Rightarrow> uint64 list \<times> 'm \<times> det_state" where
  "det_node_price m h =
     (let price = dt_nodePrice (hc_wallet h)
      in (ret_i64 price, m, record_obs NodePrice (put_u64 price) h))"

definition det_registerHostModule :: "unit result \<Rightarrow> CapabilityManifest option \<Rightarrow> host_module option result" where
  "det_registerHostModule instantiate m =
     (let md = \<lparr>hm_clock = Has m ''clock'', hm_rand = Has m ''rand'', hm_log = Has m ''log'',
                hm_wallet = Has m ''wallet'', hm_pricing = Has m ''pricing'', hm_http = None, hm_pay = None\<rparr>
      in if md = empty_module then Inr None
         else bindR instantiate (\<lambda>_. Inr (Some md)))"

definition det_host :: "'m guest \<Rightarrow> host_module option \<Rightarrow> ('m, det_state) host" where
  "det_host G md rq m h =
     (if \<not> exports md rq then None
      else case rq of
          ReqClockNow \<Rightarrow> Some (det_clock_now m h)
        | ReqRandBytes p n \<Rightarrow> Some (det_rand_bytes G p n m h)
        | ReqLogEmit p n \<Rightarrow> Some (det_log_emit G p n m h)
        | ReqWalletBalance \<Rightarrow> Some (det_wallet_balance m h)
        | ReqWalletReceiptCount \<Rightarrow> Some (det_wallet_receipt_count m h)
        | ReqWalletReceipt _ _ _ \<Rightarrow> Some (det_wallet_receipt m h)
        | ReqNodePrice \<Rightarrow> Some (det_node_price m h)
        | _ \<Rightarrow> None)"

section \<open>The simulator\<close>

text \<open>The amounts of \<open>Config\<close> as \<open>FromFloat\<close> converts them.\<close>

record sim_config =
  sc_WASMPath :: string
  sc_ManifestPath :: string
  sc_Budget :: int64
  sc_PricePerSecond :: int64
  sc_Ticks :: int
  sc_Verify :: bool
  sc_Deterministic :: bool
  sc_RandSeed :: uint64
  sc_ClockStart :: int64
  sc_ClockDelta :: int64

record sim_result =
  sr_TicksExecuted :: int
  sr_FinalBudget :: int64
  sr_BudgetConsumed :: int64
  sr_CheckpointSize :: nat
  sr_ReplayVerified :: int
  sr_ReplayFailed :: int
  sr_Errors :: "string list"

record 'm simEnv =
  se_mod :: 'm
  se_host :: "host_module option"
  se_state :: det_state
  se_wasmBytes :: bytes
  se_capManifest :: CapabilityManifest
  se_replay :: bool
  se_pricePerSecond :: int64

text \<open>What the simulator takes from outside: the guest, the engine of its own runtime, files, fuel for calls, the
  crypto, and whether WASI can be instantiated.  Its live registry has no wallet, so the operations are never called.\<close>

record 'm sim_system =
  ss_guest :: "'m guest"
  ss_engine :: "'m engine"
  ss_wasi :: "unit result"
  ss_crypto :: crypto
  ss_readFile :: "string \<Rightarrow> bytes result"
  ss_decodeCaps :: "bytes \<Rightarrow> CapabilityManifest result"
  ss_fuel :: nat
  ss_tickFuel :: nat
  ss_wallet :: "deterministicHostcalls wallet_ops"
  ss_env :: env

definition registerHostcalls :: "'m sim_system \<Rightarrow> sim_config \<Rightarrow> CapabilityManifest \<Rightarrow> (host_module option \<times> det_state) result" where
  "registerHostcalls X cfg capManifest =
     (let el = NewEventLog DefaultMaxTicks in
      if sc_Deterministic cfg
      then let clockStart = (if sc_ClockStart cfg = 0 then 1000000000 else sc_ClockStart cfg);
               clockDelta = (if sc_ClockDelta cfg = 0 then 1000000000 else sc_ClockDelta cfg);
               dhc = newDeterministicHostcalls clockStart clockDelta (sc_RandSeed cfg) (sc_PricePerSecond cfg)
           in bindR (wrap_result ''register deterministic hostcalls''
                      (det_registerHostModule (en_instantiateHost (ss_engine X)) (Some capManifest))) (\<lambda>md.
              Inr (md, \<lparr>hc_log = el, hc_wallet = dhc, hc_env = ss_env X\<rparr>))
      else bindR (wrap_result ''register hostcalls''
                   (RegisterHostModule (en_closeHost (ss_engine X)) (en_instantiateHost (ss_engine X)) NewRegistry (Some capManifest))) (\<lambda>md.
           Inr (md, \<lparr>hc_log = el, hc_wallet = newDeterministicHostcalls 0 0 0 0, hc_env = ss_env X\<rparr>)))"

definition sim_host :: "'m sim_system \<Rightarrow> sim_config \<Rightarrow> host_module option \<Rightarrow> ('m, det_state) host" where
  "sim_host X cfg md = (if sc_Deterministic cfg then det_host (ss_guest X) md else live_host (ss_guest X) (ss_wallet X) md)"

definition sim_setup :: "'m sim_system \<Rightarrow> sim_config \<Rightarrow> ('m simEnv \<times> int64) result" where
  "sim_setup X cfg =
     bindR (wrap_result ''read WASM'' (ss_readFile X (sc_WASMPath cfg))) (\<lambda>wasmBytes.
     bindR (wrap_result ''parse manifest''
       (ParseCapabilityManifest (ss_decodeCaps X) (LoadSidecarData (ss_readFile X) (sc_WASMPath cfg) (sc_ManifestPath cfg)))) (\<lambda>capManifest.
     let pricePerSecond = (if sc_PricePerSecond cfg = 0 then 1000 else sc_PricePerSecond cfg) in
     bindR (wrap_result ''instantiate WASI'' (ss_wasi X)) (\<lambda>_.
     bindR (registerHostcalls X cfg capManifest) (\<lambda>(md, h).
     bindR (wrap_result ''compile WASM'' (en_compile (ss_engine X) wasmBytes)) (\<lambda>_.
     bindR (wrap_result ''instantiate module'' (en_instantiate (ss_engine X) wasmBytes md ''simulator'')) (\<lambda>mo.
     case run_initialize (ss_fuel X) (ss_guest X) (sim_host X cfg md) mo h of
       (Inl e, _, _) \<Rightarrow> Inl (WrapError ''_initialize'' e)
     | (Inr _, mo, h) \<Rightarrow>
       (case find (\<lambda>name. \<not> g_exported (ss_guest X) mo name)
               [''agent_init'', ''agent_tick'', ''agent_checkpoint'', ''agent_checkpoint_ptr'', ''agent_resume''] of
          Some name \<Rightarrow> Inl (NewError (''missing required export: '' @ name))
        | None \<Rightarrow>
          (case call_fn (ss_fuel X) (ss_guest X) (sim_host X cfg md) ''agent_init'' [] mo h of
             (Inl e, _, _) \<Rightarrow> Inl (WrapError ''agent_init'' e)
           | (Inr _, mo, h) \<Rightarrow>
             Inr (\<lparr>se_mod = mo, se_host = md, se_state = h, se_wasmBytes = wasmBytes, se_capManifest = capManifest,
                   se_replay = sc_Verify cfg, se_pricePerSecond = pricePerSecond\<rparr>, sc_Budget cfg)))))))))"

definition add_sim_error :: "string \<Rightarrow> sim_result \<Rightarrow> sim_result" where
  "add_sim_error e r = r\<lparr>sr_Errors := sr_Errors r @ [e]\<rparr>"

definition verifyTick :: "'m sim_system \<Rightarrow> 'm simEnv \<Rightarrow> uint64 \<Rightarrow> bytes \<Rightarrow> bytes \<Rightarrow> TickLog \<Rightarrow> sim_result \<Rightarrow> sim_result" where
  "verifyTick X env tickNum preState postState sealed r =
     (let rr = ReplayTick (ss_fuel X) (ss_tickFuel X) (ss_guest X) (ss_wasi X) (ss_engine X) (se_wasmBytes env)
                 (Some (se_capManifest env)) preState sealed None
      in case rr_Error rr of
           Some e \<Rightarrow> add_sim_error (''tick '' @ dec_nat (unat tickNum) @ '' replay: '' @ error_string e)
                       (r\<lparr>sr_ReplayFailed := sr_ReplayFailed r + 1\<rparr>)
         | None \<Rightarrow>
           if Sum256 (ss_crypto X) (rr_ReplayedState rr) = Sum256 (ss_crypto X) postState
           then r\<lparr>sr_ReplayVerified := sr_ReplayVerified r + 1\<rparr>
           else add_sim_error (''tick '' @ dec_nat (unat tickNum) @ '' replay: state divergence'')
                  (r\<lparr>sr_ReplayFailed := sr_ReplayFailed r + 1\<rparr>))"

definition sim_capture :: "'m sim_system \<Rightarrow> sim_config \<Rightarrow> 'm simEnv \<Rightarrow> bytes result \<times> 'm simEnv" where
  "sim_capture X cfg env =
     (case CaptureState (ss_fuel X) (ss_guest X) (sim_host X cfg (se_host env)) (se_mod env) (se_state env) of
        (r, m, h) \<Rightarrow> (r, env\<lparr>se_mod := m, se_state := h\<rparr>))"

definition executeTick ::
    "'m sim_system \<Rightarrow> sim_config \<Rightarrow> int64 \<Rightarrow> uint64 \<Rightarrow> int64 \<Rightarrow> 'm simEnv \<Rightarrow> sim_result \<Rightarrow> (int64 \<times> bool) \<times> 'm simEnv \<times> sim_result" where
  "executeTick X cfg elapsed tickNum budgetMicrocents env r =
     (case sim_capture X cfg env of
        (Inl e, env) \<Rightarrow>
          ((budgetMicrocents, False), env, add_sim_error (''tick '' @ dec_nat (unat tickNum) @ '' pre-state: '' @ error_string e) r)
      | (Inr preState, env) \<Rightarrow>
        let h = se_state env; h = h\<lparr>hc_log := BeginTick tickNum (hc_log h)\<rparr>
        in case call_fn (ss_tickFuel X) (ss_guest X) (sim_host X cfg (se_host env)) ''agent_tick'' [] (se_mod env) h of
             (tickRes, m, h) \<Rightarrow>
               let (sealed, el) = SealTick (hc_log h);
                   env = env\<lparr>se_mod := m, se_state := h\<lparr>hc_log := el\<rparr>\<rparr>
               in case tickRes of
                    Inl e \<Rightarrow> ((budgetMicrocents, False), env, add_sim_error (''tick '' @ dec_nat (unat tickNum) @ '': '' @ error_string e) r)
                  | Inr _ \<Rightarrow>
                    (case sim_capture X cfg env of
                       (Inl e, env) \<Rightarrow>
                         ((budgetMicrocents, False), env,
                          add_sim_error (''tick '' @ dec_nat (unat tickNum) @ '' post-state: '' @ error_string e) r)
                     | (Inr postState, env) \<Rightarrow>
                       let costMicrocents = div_i64 (elapsed * se_pricePerSecond env) 1000000000;
                           r = r\<lparr>sr_TicksExecuted := sr_TicksExecuted r + 1\<rparr>;
                           r = (if se_replay env \<and> sealed \<noteq> None
                                then verifyTick X env tickNum preState postState (the sealed) r else r)
                       in ((budgetMicrocents - costMicrocents, True), env, r)))"

text \<open>The loop with \<open>n\<close> rounds left, at counter \<open>i\<close>; \<open>elapsed\<close> gives the duration of each tick.\<close>

primrec sim_loop ::
    "'m sim_system \<Rightarrow> sim_config \<Rightarrow> (nat \<Rightarrow> int64) \<Rightarrow> nat \<Rightarrow> nat \<Rightarrow> int64 \<Rightarrow> 'm simEnv \<Rightarrow> sim_result \<Rightarrow> int64 \<times> 'm simEnv \<times> sim_result" where
  "sim_loop X cfg elapsed 0 i b env r = (b, env, r)"
| "sim_loop X cfg elapsed (Suc n) i b env r =
     (if sint b \<le> 0 then (b, env, r)
      else case executeTick X cfg (elapsed i) (of_nat (i + 1)) b env r of
        ((left, ok), env, r) \<Rightarrow>
          if \<not> ok then (left, env, r) else sim_loop X cfg elapsed n (Suc i) left env r)"

definition sim_runTickLoop ::
    "'m sim_system \<Rightarrow> sim_config \<Rightarrow> (nat \<Rightarrow> int64) \<Rightarrow> int64 \<Rightarrow> 'm simEnv \<Rightarrow> sim_result \<Rightarrow> int64 \<times> 'm simEnv \<times> sim_result" where
  "sim_runTickLoop X cfg elapsed b env r =
     (let maxTicks = (if sc_Ticks cfg = 0 then 2147483647 else sc_Ticks cfg)
      in sim_loop X cfg elapsed (nat maxTicks) 0 b env r)"

definition verifyCheckpointRoundTrip :: "'m sim_system \<Rightarrow> sim_config \<Rightarrow> bytes \<Rightarrow> 'm simEnv \<Rightarrow> bytes result \<times> 'm simEnv" where
  "verifyCheckpointRoundTrip X cfg state env =
     (if length state = 0 then (Inr [], env)
      else case ResumeAgent (ss_fuel X) (ss_guest X) (sim_host X cfg (se_host env)) state (se_mod env) (se_state env) of
        (Inl e, m, h) \<Rightarrow> (Inl e, env\<lparr>se_mod := m, se_state := h\<rparr>)
      | (Inr _, m, h) \<Rightarrow> sim_capture X cfg (env\<lparr>se_mod := m, se_state := h\<rparr>))"

definition sim_finalize :: "'m sim_system \<Rightarrow> sim_config \<Rightarrow> 'm simEnv \<Rightarrow> sim_result \<Rightarrow> sim_result" where
  "sim_finalize X cfg env r =
     (case sim_capture X cfg env of
        (Inl e, _) \<Rightarrow> add_sim_error (''final checkpoint: '' @ error_string e) r
      | (Inr finalState, env) \<Rightarrow>
        let r = r\<lparr>sr_CheckpointSize := length finalState\<rparr>
        in case verifyCheckpointRoundTrip X cfg finalState env of
             (Inl e, _) \<Rightarrow> add_sim_error (''checkpoint round-trip: '' @ error_string e) r
           | (Inr resumedState, _) \<Rightarrow>
             if Sum256 (ss_crypto X) resumedState \<noteq> Sum256 (ss_crypto X) finalState
             then add_sim_error ''checkpoint round-trip: state mismatch after resume'' r else r)"

definition empty_result :: sim_result where
  "empty_result = \<lparr>sr_TicksExecuted = 0, sr_FinalBudget = 0, sr_BudgetConsumed = 0, sr_CheckpointSize = 0, sr_ReplayVerified = 0,
     sr_ReplayFailed = 0, sr_Errors = []\<rparr>"

definition sim_Run :: "'m sim_system \<Rightarrow> sim_config \<Rightarrow> (nat \<Rightarrow> int64) \<Rightarrow> sim_result result" where
  "sim_Run X cfg elapsed =
     bindR (sim_setup X cfg) (\<lambda>(env, initialBudget).
       case sim_runTickLoop X cfg elapsed initialBudget env empty_result of
         (b, env, r) \<Rightarrow>
           let r = sim_finalize X cfg env r
           in Inr (r\<lparr>sr_FinalBudget := b, sr_BudgetConsumed := initialBudget - b\<rparr>))"


section \<open>Replaying simulated ticks\<close>

lemma length_rand_fill [simp]: "length (fst (rand_fill n p)) = n"
  by (induction n arbitrary: p) (simp_all split: prod.split)

lemma det_host_log:
  assumes "det_host G md rq m h = Some (rs, m', h')"
  shows "hc_log h' = hc_log h \<or> (\<exists>p. hc_log h' = Record (hostcall_id rq) p (hc_log h))"
  using assms
  by (cases rq)
    (auto simp: det_host_def det_clock_now_def det_rand_bytes_def det_log_emit_def det_wallet_balance_def
      det_wallet_receipt_count_def det_wallet_receipt_def det_node_price_def Let_def split: if_splits option.splits prod.splits)

lemma det_prefix:
  assumes "det_host G md rq m h = Some (rs, m', h')" "wf_event_log (hc_log h)" "CurrentEntries (hc_log h) = Some cur"
  shows "wf_event_log (hc_log h') \<and> (\<exists>cur'. CurrentEntries (hc_log h') = Some cur' \<and> prefix cur cur')"
  using det_host_log [OF assms(1)] assms(2,3) by (auto simp: CurrentEntries_Record)

interpretation det: recording_host "det_host G md" for G md
  by unfold_locales (rule det_prefix)

definition sim_replay_at :: "host_module option \<Rightarrow> host_module option \<Rightarrow> Entry list \<Rightarrow> det_state \<Rightarrow> replay_state \<Rightarrow> bool" where
  "sim_replay_at md md2 es h st \<longleftrightarrow>
     covers md md2 \<and> wf_event_log (hc_log h) \<and>
     (\<exists>cur. CurrentEntries (hc_log h) = Some cur \<and> st = \<lparr>rp_iter = \<lparr>it_entries = es, it_pos = length cur\<rparr>, rp_err = None\<rparr>)"

lemma minus_one_high: "\<not> (ucast (- 1 :: int32) :: uint64) < 2147483648"
  by code_simp

lemma det_plain_replayed:
  assumes c: "det_host G md rq m h = Some (rs, m', h')" and ex: "exports md2 rq" and pl: "plain rq"
    and l: "wf_event_log (hc_log h)" "CurrentEntries (hc_log h) = Some cur" "CurrentEntries (hc_log h') = Some cur'"
      "prefix cur' es" "length cur' = Suc (length cur)"
  shows "m' = m \<and> replay_host G md2 rq n (replaying es cur) = Some (rs, n, replaying es cur')"
proof -
  have "exports md rq" using c by (simp add: det_host_def split: if_splits)
  then show ?thesis
    using assms entry_next_recorded [OF l(1,2) _ l(4)]
    by (cases rq)
      (auto simp: plain_def det_host_def replay_host_def Let_def det_clock_now_def replay_clock_now_def
        det_log_emit_def replay_log_emit_def det_wallet_balance_def replay_wallet_balance_def
        det_wallet_receipt_count_def replay_wallet_receipt_count_def det_node_price_def replay_node_price_def
        split: option.splits)
qed

lemma det_rand_replayed:
  assumes c: "det_host G md (ReqRandBytes ptr len) m h = Some (rs, m', h')" and ex: "exports md2 (ReqRandBytes ptr len)"
    and rp: "replayable (ReqRandBytes ptr len) rs h h'" and b: "alike G B m n"
    and l: "wf_event_log (hc_log h)" "CurrentEntries (hc_log h) = Some cur" "CurrentEntries (hc_log h') = Some cur'" "prefix cur' es"
  shows "\<exists>n'. replay_host G md2 (ReqRandBytes ptr len) n (replaying es cur) = Some (rs, n', replaying es cur') \<and> alike G B m' n'"
proof -
  have ex1: "exports md (ReqRandBytes ptr len)" using c by (simp add: det_host_def split: if_splits)
  obtain buf src where rf: "rand_fill (unat len) (dt_randSrc (hc_wallet h)) = (buf, src)" by fastforce
  have len: "length buf = unat len" using length_rand_fill [of "unat len" "dt_randSrc (hc_wallet h)"] rf by simp
  have rs: "rs = ret_i32 0" using rp by (simp add: replayable_def)
  with c ex1 rf have w: "hc_log h' = Record RandBytes buf (hc_log h)" "g_write G ptr buf m = Some m'"
    by (auto simp: det_host_def det_rand_bytes_def ret_i32_def Let_def split: option.splits)
  from write_alike [OF b w(2)] obtain n' where "g_write G ptr buf n = Some n'" "alike G B m' n'" by blast
  then show ?thesis
    using ex rs w(1) len entry_next_recorded [OF l(1,2) _ l(4)] l(3)
    by (simp add: replay_host_def replay_rand_bytes_def len_u32_def)
qed

lemma det_replayed:
  assumes c: "det_host G md rq m h = Some (rs, m', h')"
    and p: "recorded_in es rq rs h h'" and b: "alike G B m n" and r: "sim_replay_at md md2 es h st"
  shows "\<exists>n' st'. replay_host G md2 rq n st = Some (rs, n', st') \<and> alike G B m' n' \<and> sim_replay_at md md2 es h' st'"
proof -
  obtain cur where cur: "CurrentEntries (hc_log h) = Some cur" "st = replaying es cur"
    using r by (auto simp: sim_replay_at_def)
  obtain cur' where cur': "CurrentEntries (hc_log h') = Some cur'" "prefix cur' es" and rp: "replayable rq rs h h'"
    using p by (auto simp: recorded_in_def)
  note one = length_one_more [OF rp cur(1) cur'(1)]
  have R: "covers md md2" "wf_event_log (hc_log h)" using r by (simp_all add: sim_replay_at_def)
  have ex: "exports md rq" "exports md2 rq"
    using c R(1) one(2) by (auto simp: det_host_def covers_def split: if_splits)
  note l = R(2) cur(1) cur'
  have "\<exists>n'. replay_host G md2 rq n st = Some (rs, n', replaying es cur') \<and> alike G B m' n'"
  proof (cases rq)
    case (ReqRandBytes ptr len)
    with det_rand_replayed [OF c [unfolded ReqRandBytes] ex(2) [unfolded ReqRandBytes] rp [unfolded ReqRandBytes] b l] cur(2)
    show ?thesis by simp
  next
    case (ReqWalletReceipt index ptr len)
    with c rp ex minus_one_high show ?thesis by (auto simp: det_host_def det_wallet_receipt_def replayable_def ret_i32_def)
  qed (use det_plain_replayed [OF c ex(2) _ l one(1)] b cur(2) c ex(1) in \<open>auto simp: plain_def det_host_def\<close>)
  then show ?thesis using R cur' det_prefix [OF c l(1,2)] by (auto simp: sim_replay_at_def)
qed

interpretation simrep: host_simulation G "alike G B" "det_host G md" "replay_host G md2" "sim_replay_at md md2 es" "recorded_in es"
  for G B md md2 es
  by unfold_locales (rule bisimulation_alike, rule det_replayed)

lemma det_call_replayed:
  assumes "call_fn f G (det_host G md) name args m h = (Inr rs, m', h')"
    "wf_event_log (hc_log h)" "CurrentEntries (hc_log h) = Some []"
    "run_all replayable f G (det_host G md) (g_enter G name args m) h"
    "CurrentEntries (hc_log h') = Some es" "alike G B m n" "covers md md2"
  shows "\<exists>n'. call_fn f G (replay_host G md2) name args n \<lparr>rp_iter = \<lparr>it_entries = es, it_pos = 0\<rparr>, rp_err = None\<rparr> =
      (Inr rs, n', \<lparr>rp_iter = \<lparr>it_entries = es, it_pos = length es\<rparr>, rp_err = None\<rparr>) \<and> alike G B m' n'"
proof -
  have "run_all (recorded_in es) f G (det_host G md) (g_enter G name args m) h"
    using det.run_recorded_in [OF assms(1) [unfolded call_fn_def] assms(2-5)] .
  moreover have "sim_replay_at md md2 es h \<lparr>rp_iter = \<lparr>it_entries = es, it_pos = 0\<rparr>, rp_err = None\<rparr>"
    using assms by (simp add: sim_replay_at_def)
  ultimately show ?thesis
    using simrep.call_simulated [OF assms(1) _ assms(6), of es md2] assms(5) by (fastforce simp: sim_replay_at_def)
qed

lemma det_covers:
  assumes "det_registerHostModule a m = Inr md" "registerReplayHostModule b m = Inr md2"
  shows "covers md md2"
  unfolding covers_def
proof (intro allI impI)
  fix rq assume "exports md rq" "hostcall_id rq \<noteq> HTTPRequest"
  then show "exports md2 rq"
    using assms
    by (cases rq; cases md)
      (auto simp: det_registerHostModule_def registerReplayHostModule_def bindR_Inr_iff Let_def split: if_splits)
qed


text \<open>The steps of a simulated tick that lets the loop go on.\<close>

lemma executeTick_done:
  assumes "sc_Deterministic cfg" "sim_capture X cfg env = (Inr pre, env1)"
    and "executeTick X cfg elapsed k b env r = ((b', True), env', r')"
  obtains rs m2 h2 sealed el post env3 where
    "call_fn (ss_tickFuel X) (ss_guest X) (det_host (ss_guest X) (se_host env1)) ''agent_tick'' [] (se_mod env1)
       ((se_state env1)\<lparr>hc_log := BeginTick k (hc_log (se_state env1))\<rparr>) = (Inr rs, m2, h2)"
    "SealTick (hc_log h2) = (sealed, el)"
    "sim_capture X cfg (env1\<lparr>se_mod := m2, se_state := h2\<lparr>hc_log := el\<rparr>\<rparr>) = (Inr post, env3)"
    "r' = (if se_replay env3 \<and> sealed \<noteq> None
       then verifyTick X env3 k pre post (the sealed) (r\<lparr>sr_TicksExecuted := sr_TicksExecuted r + 1\<rparr>)
       else r\<lparr>sr_TicksExecuted := sr_TicksExecuted r + 1\<rparr>)"
  using assms by (auto simp: executeTick_def sim_host_def Let_def split: prod.splits sum.splits)



definition example_sim :: "example_agent sim_system" where
  "example_sim = \<lparr>ss_guest = example_guest, ss_engine = example_engine, ss_wasi = Inr (), ss_crypto = sample_crypto,
     ss_readFile = (\<lambda>_. Inr [0]), ss_decodeCaps = (\<lambda>_. Inr (the clock_manifest)), ss_fuel = 10, ss_tickFuel = 10,
     ss_wallet = \<lparr>w_GetBudget = dt_budget, w_GetReceiptCount = (\<lambda>_. 0), w_GetReceiptBytes = (\<lambda>_ _. Inr []),
       w_GetNodePrice = dt_nodePrice, w_DeductBudget = (\<lambda>_ d. (Inr (), d)), w_GetAgentPubKey = (\<lambda>_. []), w_SignPayment = (\<lambda>_ _. [])\<rparr>,
     ss_env = example_env\<rparr>"

definition example_sim_config :: sim_config where
  "example_sim_config = \<lparr>sc_WASMPath = ''a.wasm'', sc_ManifestPath = '''', sc_Budget = 100, sc_PricePerSecond = 1000, sc_Ticks = 2,
     sc_Verify = True, sc_Deterministic = True, sc_RandSeed = 7, sc_ClockStart = 0, sc_ClockDelta = 0\<rparr>"

definition example_sim_env :: "example_agent simEnv" where
  "example_sim_env = \<lparr>se_mod = example_module, se_host = Some clock_module,
     se_state = \<lparr>hc_log = NewEventLog 1024, hc_wallet = newDeterministicHostcalls 1000 1000 7 1000, hc_env = example_env\<rparr>,
     se_wasmBytes = [0], se_capManifest = the clock_manifest, se_replay = True, se_pricePerSecond = 1000\<rparr>"

lemma example_sim_fields [simp]:
  "ss_guest example_sim = example_guest" "ss_engine example_sim = example_engine" "ss_wasi example_sim = Inr ()"
  "ss_fuel example_sim = 10" "ss_tickFuel example_sim = 10" "sc_Deterministic example_sim_config"
  "se_mod example_sim_env = example_module" "se_host example_sim_env = Some clock_module" "se_wasmBytes example_sim_env = [0]"
  "se_capManifest example_sim_env = the clock_manifest" "se_replay example_sim_env"
  "hc_log (se_state example_sim_env) = NewEventLog 1024"
  by (simp_all add: example_sim_def example_sim_config_def example_sim_env_def)

lemma example_sim_capture:
  "length (xa_mem (se_mod env)) = 32 \<Longrightarrow> sim_capture example_sim example_sim_config env =
     (Inr (take 8 (xa_mem (se_mod env))), env\<lparr>se_mod := (se_mod env)\<lparr>xa_pc := PcIdle, xa_args := []\<rparr>, se_state := se_state env\<rparr>)"
  by (simp add: sim_capture_def CaptureState_def call_fn_def run_guest_numeral example_enter_def example_event_def
      example_mem_read_def result0_def go_slice_def Let_def)

lemma example_sim_tick:
  "snd (fst (executeTick example_sim example_sim_config 5000 1 100 example_sim_env empty_result))"
  by (simp add: executeTick_def example_sim_capture example_module_def call_fn_def run_guest_numeral example_enter_def example_event_def
      sim_host_def det_host_def det_clock_now_def ret_i64_def Let_def split: prod.splits)


text \<open>The simulator records a receipt request as an empty receipt and answers \<open>-1\<close>; its replay answers \<open>0\<close>.\<close>

lemma simulated_receipt_diverges:
  assumes "det_wallet_receipt m h = (rs, m', h')" "wf_event_log (hc_log h)" "CurrentEntries (hc_log h) = Some cur"
    "CurrentEntries (hc_log h') = Some es" "g_write G ptr [] m = Some m"
  shows "fst (replay_wallet_receipt G ptr len m \<lparr>rp_iter = \<lparr>it_entries = es, it_pos = length cur\<rparr>, rp_err = None\<rparr>) \<noteq> rs"
proof -
  have h': "hc_log h' = Record WalletReceipt [] (hc_log h)" "rs = ret_i32 (-1)" using assms(1) by (auto simp: det_wallet_receipt_def)
  note entry_next_recorded [OF assms(2,3) assms(4) [unfolded h'(1)], of es]
  then show ?thesis using assms(5) h'(2) minus_one_high
    by (auto simp: replay_wallet_receipt_def len_u32_def ret_i32_def)
qed

section \<open>The loop\<close>

lemma executeTick_counts:
  assumes "executeTick X cfg t k b env r = ((b', ok), env', r')"
  shows "sr_TicksExecuted r' = sr_TicksExecuted r + (if ok then 1 else 0)"
proof -
  have v: "sr_TicksExecuted (verifyTick X e k p q s r) = sr_TicksExecuted r" for e p q s and r
    by (auto simp: verifyTick_def add_sim_error_def Let_def split: option.splits)
  show ?thesis
    using assms by (auto simp: executeTick_def Let_def add_sim_error_def v split: sum.splits prod.splits)
qed

text \<open>A simulation executes at most the configured number of ticks, and its first report of a spent budget ends it.\<close>

lemma sim_loop_bounded:
  assumes "sim_loop X cfg elapsed n i b env r = (b', env', r')"
  shows "sr_TicksExecuted r \<le> sr_TicksExecuted r' \<and> sr_TicksExecuted r' \<le> sr_TicksExecuted r + int n"
  using assms
proof (induction n arbitrary: i b env r)
  case (Suc n)
  obtain b1 ok env1 r1 where e: "executeTick X cfg (elapsed i) (of_nat (i + 1)) b env r = ((b1, ok), env1, r1)"
    using prod_cases3 by (metis prod.exhaust)
  from Suc.prems e executeTick_counts [OF e] Suc.IH [of "Suc i" b1 env1 r1] show ?case by (auto split: if_splits)
qed simp

end
