(* ===== verification/Sdk.thy ===== *)
theory Sdk
  imports Effects
begin

text \<open>
  The agent side of the SDK (\<open>src/sdk/igor\<close>): what an agent's code is, and what it may do.  An agent
  reaches the world only through the SDK's calls, so a method of an agent is a tree: a value it
  returns, a panic, or a call together with what it does for every answer.  \<open>follow\<close> runs a tree
  against a list of answers and stops where the list ends, which is how a crash in the middle of a tick
  is expressed; \<open>io_wp\<close> is the weakest precondition of a tree over all answers any host can give.
  \<open>lifecycle.go\<close> and \<open>lifecycle_wasm.go\<close> are the functions a module exports around an agent, and the
  locale \<open>resumable_agent\<close> is the contract of \<open>Marshal\<close> and \<open>Unmarshal\<close> that the runtime
  relies on.
\<close>

section \<open>Calls and answers\<close>

datatype sdk_call =
    CallClockNow
  | CallRandBytes nat
  | CallLog string
  | CallWalletBalance
  | CallWalletReceiptCount
  | CallWalletReceipt int
  | CallNodePrice
  | CallHTTPRequest string string "(string \<times> string) list" bytes
  | CallWalletPay int64 string string

text \<open>The results of a call: a number (a time, an amount, a count, a status), bytes, an error.  A call
  that has fewer results leaves the others unused.\<close>

record sdk_answer =
  an_num :: int64
  an_bytes :: bytes
  an_err :: "go_error option"

text \<open>What every world gives: the module's memory is addressed with 32 bits and the SDK gives up on longer responses well
  before that (4 MB for HTTP, 64 KB for receipts), so no answer carries more bytes than this; and the clock, in
  nanoseconds since 1970, is not zero.\<close>

definition answer_ok :: "sdk_call \<Rightarrow> sdk_answer \<Rightarrow> bool" where
  "answer_ok c a \<longleftrightarrow> length (an_bytes a) < 2 ^ 30 \<and> (c = CallClockNow \<longrightarrow> an_num a \<noteq> 0)"

datatype 'a io = Done 'a | Panic string | Ask sdk_call "sdk_answer \<Rightarrow> 'a io"

primrec io_bind :: "'a io \<Rightarrow> ('a \<Rightarrow> 'b io) \<Rightarrow> 'b io" where
  "io_bind (Done x) f = f x"
| "io_bind (Panic msg) f = Panic msg"
| "io_bind (Ask c k) f = Ask c (\<lambda>a. io_bind (k a) f)"

section \<open>The functions of the SDK\<close>

definition sdk_ClockNow :: "(int64 \<Rightarrow> 'a io) \<Rightarrow> 'a io" where
  "sdk_ClockNow k = Ask CallClockNow (\<lambda>r. k (an_num r))"

text \<open>The call fills the buffer it is given; on an error the buffer is left as it was.\<close>

definition sdk_RandBytes :: "bytes \<Rightarrow> (bytes \<Rightarrow> go_error option \<Rightarrow> 'a io) \<Rightarrow> 'a io" where
  "sdk_RandBytes buf k =
     (if length buf = 0 then k buf None
      else Ask (CallRandBytes (length buf))
        (\<lambda>r. k (if an_err r = None then to_array (length buf) (an_bytes r) else buf) (an_err r)))"

definition sdk_Log :: "string \<Rightarrow> 'a io \<Rightarrow> 'a io" where
  "sdk_Log msg k = (if length msg = 0 then k else Ask (CallLog msg) (\<lambda>_. k))"

definition sdk_WalletBalance :: "(int64 \<Rightarrow> 'a io) \<Rightarrow> 'a io" where
  "sdk_WalletBalance k = Ask CallWalletBalance (\<lambda>r. k (an_num r))"

definition sdk_WalletReceiptCount :: "(int \<Rightarrow> 'a io) \<Rightarrow> 'a io" where
  "sdk_WalletReceiptCount k = Ask CallWalletReceiptCount (\<lambda>r. k (sint (an_num r)))"

definition answer_bytes :: "sdk_answer \<Rightarrow> bytes result" where
  "answer_bytes r = (case an_err r of Some e \<Rightarrow> Inl e | None \<Rightarrow> Inr (an_bytes r))"

definition sdk_WalletReceipt :: "int \<Rightarrow> (bytes result \<Rightarrow> 'a io) \<Rightarrow> 'a io" where
  "sdk_WalletReceipt index k = Ask (CallWalletReceipt index) (\<lambda>r. k (answer_bytes r))"

definition sdk_NodePrice :: "(int64 \<Rightarrow> 'a io) \<Rightarrow> 'a io" where
  "sdk_NodePrice k = Ask CallNodePrice (\<lambda>r. k (an_num r))"

definition sdk_HTTPRequest ::
    "string \<Rightarrow> string \<Rightarrow> (string \<times> string) list \<Rightarrow> bytes \<Rightarrow> ((int \<times> bytes) result \<Rightarrow> 'a io) \<Rightarrow> 'a io" where
  "sdk_HTTPRequest method url headers body k =
     Ask (CallHTTPRequest method url headers body)
       (\<lambda>r. k (case an_err r of Some e \<Rightarrow> Inl e | None \<Rightarrow> Inr (sint (an_num r), an_bytes r)))"

definition sdk_HTTPGet :: "string \<Rightarrow> ((int \<times> bytes) result \<Rightarrow> 'a io) \<Rightarrow> 'a io" where
  "sdk_HTTPGet url k = sdk_HTTPRequest ''GET'' url [] [] k"

definition sdk_HTTPPost :: "string \<Rightarrow> string \<Rightarrow> bytes \<Rightarrow> ((int \<times> bytes) result \<Rightarrow> 'a io) \<Rightarrow> 'a io" where
  "sdk_HTTPPost url contentType body k = sdk_HTTPRequest ''POST'' url [(''Content-Type'', contentType)] body k"

definition sdk_WalletPay :: "int64 \<Rightarrow> string \<Rightarrow> string \<Rightarrow> (bytes result \<Rightarrow> 'a io) \<Rightarrow> 'a io" where
  "sdk_WalletPay amount recipient memo k = Ask (CallWalletPay amount recipient memo) (\<lambda>r. k (answer_bytes r))"

section \<open>Runs\<close>

datatype 'a outcome = Returned 'a | Panicked string | Stopped

type_synonym sdk_trace = "(sdk_call \<times> sdk_answer) list"

text \<open>One answer per call; where the answers end, the process is gone.\<close>

primrec follow :: "'a io \<Rightarrow> sdk_answer list \<Rightarrow> sdk_trace \<times> 'a outcome" where
  "follow (Done x) as = ([], Returned x)"
| "follow (Panic msg) as = ([], Panicked msg)"
| "follow (Ask c k) as =
     (case as of [] \<Rightarrow> ([], Stopped) | a # as' \<Rightarrow> (case follow (k a) as' of (tr, r) \<Rightarrow> ((c, a) # tr, r)))"

text \<open>The same run against a host with a state of its own.\<close>

primrec run_io :: "(sdk_call \<Rightarrow> 'e \<Rightarrow> sdk_answer \<times> 'e) \<Rightarrow> 'a io \<Rightarrow> 'e \<Rightarrow> 'a outcome \<times> 'e" where
  "run_io H (Done x) w = (Returned x, w)"
| "run_io H (Panic msg) w = (Panicked msg, w)"
| "run_io H (Ask c k) w = (case H c w of (a, w') \<Rightarrow> run_io H (k a) w')"

text \<open>Every run against a host is a run against some answers, and ends.\<close>

lemma run_io_follow:
  assumes "run_io H t w = (r, w')"
  shows "(\<exists>as tr. follow t as = (tr, r)) \<and> r \<noteq> Stopped"
  using assms
proof (induction t arbitrary: w)
  case (Ask c k)
  obtain a w1 where a: "H c w = (a, w1)" by fastforce
  with Ask.prems have "run_io H (k a) w1 = (r, w')" by simp
  from Ask.IH [OF rangeI this] obtain as tr where "follow (k a) as = (tr, r)" "r \<noteq> Stopped" by blast
  then have "follow (Ask c k) (a # as) = ((c, a) # tr, r)" by simp
  with \<open>r \<noteq> Stopped\<close> show ?case by blast
qed (auto intro: exI)

section \<open>The 32-bit int of the target\<close>

text \<open>Signed addition as a WebAssembly module computes it.\<close>

definition add_i32 :: "int \<Rightarrow> int \<Rightarrow> int" where
  "add_i32 a b = sint (word_of_int (a + b) :: int32)"

lemma sint_len_u32: "length xs < 2 ^ 31 \<Longrightarrow> sint (len_u32 xs) = int (length xs)"
  by (simp add: len_u32_def signed_of_nat signed_take_bit_int_eq_self_iff)

lemma sint32_of_int: "- (2 ^ 31) \<le> i \<Longrightarrow> i < 2 ^ 31 \<Longrightarrow> sint (word_of_int i :: int32) = i"
  by (simp add: signed_take_bit_int_eq_self_iff sint_sbintrunc' flip: sint_uint)

lemma add_i32_small: "- (2 ^ 31) \<le> a + b \<Longrightarrow> a + b < 2 ^ 31 \<Longrightarrow> add_i32 a b = a + b"
  unfolding add_i32_def by (rule sint32_of_int)

section \<open>Weakest preconditions\<close>

text \<open>\<open>io_wp ob Q o t\<close>: whatever the answers, if \<open>t\<close> returns \<open>x\<close>, then \<open>Q o' x\<close> holds, where \<open>o'\<close> extends \<open>o\<close> by
  what the observer \<open>ob\<close> sees of the calls.\<close>

primrec io_wp :: "(sdk_call \<Rightarrow> sdk_answer \<Rightarrow> 'o list) \<Rightarrow> ('o list \<Rightarrow> 'a \<Rightarrow> bool) \<Rightarrow> 'o list \<Rightarrow> 'a io \<Rightarrow> bool" where
  "io_wp ob Q seen (Done x) = Q seen x"
| "io_wp ob Q seen (Panic msg) = True"
| "io_wp ob Q seen (Ask c k) = (\<forall>a. answer_ok c a \<longrightarrow> io_wp ob Q (seen @ ob c a) (k a))"

abbreviation trace_ok :: "sdk_trace \<Rightarrow> bool" where
  "trace_ok tr \<equiv> list_all (\<lambda>x. answer_ok (fst x) (snd x)) tr"

definition observed :: "(sdk_call \<Rightarrow> sdk_answer \<Rightarrow> 'o list) \<Rightarrow> sdk_trace \<Rightarrow> 'o list" where
  "observed ob tr = concat (map (\<lambda>(c, a). ob c a) tr)"

lemma observed_simps [simp]:
  "observed ob [] = []" "observed ob ((c, a) # tr) = ob c a @ observed ob tr"
  "observed ob (tr @ tr') = observed ob tr @ observed ob tr'"
  by (simp_all add: observed_def)

lemma io_wp_sound:
  assumes "io_wp ob Q seen t" "follow t as = (tr, Returned x)" "trace_ok tr"
  shows "Q (seen @ observed ob tr) x"
  using assms
proof (induction t arbitrary: as tr seen)
  case (Ask c k)
  then obtain a as' tr' where "follow (k a) as' = (tr', Returned x)" "tr = (c, a) # tr'" "answer_ok c a" "trace_ok tr'"
    by (auto split: list.splits prod.splits)
  moreover from this have "io_wp ob Q (seen @ ob c a) (k a)" using Ask.prems by simp
  ultimately show ?case using Ask.IH [OF rangeI] by fastforce
qed auto

lemma follow_trace_ok:
  assumes "follow t as = (tr, r)" "\<And>a c. a \<in> set as \<Longrightarrow> answer_ok c a"
  shows "trace_ok tr"
  using assms
proof (induction t arbitrary: as tr)
  case (Ask c k)
  show ?case
  proof (cases as)
    case (Cons a as')
    with Ask.prems(1) obtain tr' where "follow (k a) as' = (tr', r)" "tr = (c, a) # tr'" by (auto split: prod.splits)
    with Ask.IH [OF rangeI] Ask.prems(2) Cons show ?thesis by auto
  qed (use Ask.prems in auto)
qed auto

lemma io_wp_bind: "io_wp ob Q seen (io_bind t f) = io_wp ob (\<lambda>seen x. io_wp ob Q seen (f x)) seen t"
  by (induction t arbitrary: seen) auto

lemma io_wp_mono: "io_wp ob Q seen t \<Longrightarrow> (\<And>seen x. Q seen x \<Longrightarrow> Q' seen x) \<Longrightarrow> io_wp ob Q' seen t"
  by (induction t arbitrary: seen) auto

lemma io_wp_bindI:
  "io_wp ob P seen t \<Longrightarrow> (\<And>seen x. P seen x \<Longrightarrow> io_wp ob Q seen (f x)) \<Longrightarrow> io_wp ob Q seen (io_bind t f)"
  by (simp add: io_wp_bind io_wp_mono)

lemma io_wp_conj: "io_wp ob Q seen t \<Longrightarrow> io_wp ob Q' seen t \<Longrightarrow> io_wp ob (\<lambda>seen x. Q seen x \<and> Q' seen x) seen t"
  by (induction t arbitrary: seen) auto

text \<open>An observer that sees nothing: what holds of the result alone.\<close>

abbreviation io_all :: "('a \<Rightarrow> bool) \<Rightarrow> 'a io \<Rightarrow> bool" where
  "io_all P t \<equiv> io_wp (\<lambda>c a. [] :: unit list) (\<lambda>_ x. P x) [] t"

lemma io_all_follow: "io_all P t \<Longrightarrow> follow t as = (tr, Returned x) \<Longrightarrow> trace_ok tr \<Longrightarrow> P x"
  using io_wp_sound [of "\<lambda>c a. [] :: unit list" "\<lambda>_ x. P x"] by blast

lemma io_wp_blind: "(\<And>c a. ob c a = []) \<Longrightarrow> io_wp ob Q seen t = io_wp ob (\<lambda>_ x. Q seen x) [] t"
  by (induction t) auto

lemma io_all_bindI: "io_all P t \<Longrightarrow> (\<And>x. P x \<Longrightarrow> io_all Q (f x)) \<Longrightarrow> io_all Q (io_bind t f)"
  by (rule io_wp_bindI, assumption) (subst io_wp_blind, simp_all)

lemma io_all_of_wp: "io_wp ob Q seen t \<Longrightarrow> (\<And>seen x. Q seen x \<Longrightarrow> P x) \<Longrightarrow> io_all P t"
  by (induction t arbitrary: seen) auto

named_theorems io_rules \<open>weakest preconditions of the SDK's functions\<close>

lemma wp_ClockNow [io_rules]:
  "io_wp ob Q seen (sdk_ClockNow k) \<longleftrightarrow> (\<forall>a. answer_ok CallClockNow a \<longrightarrow> io_wp ob Q (seen @ ob CallClockNow a) (k (an_num a)))"
  by (simp add: sdk_ClockNow_def)

lemma wp_Log [io_rules]:
  "(\<And>m a. ob (CallLog m) a = []) \<Longrightarrow> io_wp ob Q seen (sdk_Log msg k) = io_wp ob Q seen k"
  by (auto simp: sdk_Log_def answer_ok_def intro: exI [of _ "\<lparr>an_num = 0, an_bytes = [], an_err = None\<rparr>"])

lemma wp_HTTPRequest [io_rules]:
  "io_wp ob Q seen (sdk_HTTPRequest method url headers body k) \<longleftrightarrow>
     (\<forall>a. answer_ok (CallHTTPRequest method url headers body) a \<longrightarrow> io_wp ob Q (seen @ ob (CallHTTPRequest method url headers body) a)
        (k (case an_err a of Some e \<Rightarrow> Inl e | None \<Rightarrow> Inr (sint (an_num a), an_bytes a))))"
  by (simp add: sdk_HTTPRequest_def)

lemma wp_WalletPay [io_rules]:
  "io_wp ob Q seen (sdk_WalletPay amount recipient memo k) \<longleftrightarrow>
     (\<forall>a. answer_ok (CallWalletPay amount recipient memo) a \<longrightarrow> io_wp ob Q (seen @ ob (CallWalletPay amount recipient memo) a) (k (answer_bytes a)))"
  by (simp add: sdk_WalletPay_def)

lemma wp_WalletBalance [io_rules]:
  "io_wp ob Q seen (sdk_WalletBalance k) \<longleftrightarrow> (\<forall>a. answer_ok CallWalletBalance a \<longrightarrow> io_wp ob Q (seen @ ob CallWalletBalance a) (k (an_num a)))"
  by (simp add: sdk_WalletBalance_def)

text \<open>What a buffer holds after \<open>RandBytes\<close>: as many bytes as before.\<close>

lemma wp_RandBytes [io_rules]:
  assumes "\<And>n a. ob (CallRandBytes n) a = []" "\<And>b e. length b = length buf \<Longrightarrow> io_wp ob Q seen (k b e)"
  shows "io_wp ob Q seen (sdk_RandBytes buf k)"
  using assms by (simp add: sdk_RandBytes_def)

text \<open>Total correctness: against every world that answers as \<open>C\<close> says, the tree returns, and what it returns satisfies \<open>Q\<close>.\<close>

primrec io_must :: "(sdk_call \<Rightarrow> sdk_answer \<Rightarrow> bool) \<Rightarrow> ('a \<Rightarrow> bool) \<Rightarrow> 'a io \<Rightarrow> bool" where
  "io_must C Q (Done x) = Q x"
| "io_must C Q (Panic msg) = False"
| "io_must C Q (Ask c k) = (\<forall>a. C c a \<longrightarrow> io_must C Q (k a))"

lemma io_must_runs:
  assumes "io_must C Q t" "\<And>c w. C c (fst (H c w))"
  shows "\<exists>x w'. run_io H t w = (Returned x, w') \<and> Q x"
  using assms(1)
proof (induction t arbitrary: w)
  case (Ask c k)
  obtain a w1 where "H c w = (a, w1)" by fastforce
  with assms(2) [of c w] Ask show ?case by simp
qed auto

lemma must_bind: "io_must C Q (io_bind t f) = io_must C (\<lambda>x. io_must C Q (f x)) t"
  by (induction t) auto

lemma must_mono: "io_must C Q t \<Longrightarrow> (\<And>x. Q x \<Longrightarrow> Q' x) \<Longrightarrow> io_must C Q' t"
  by (induction t) auto

text \<open>So there are answers, and a world may give them, with which it returns.\<close>

lemma must_follow:
  assumes "io_must C Q t" "\<And>c. \<exists>a. C c a \<and> answer_ok c a"
  shows "\<exists>as tr x. follow t as = (tr, Returned x) \<and> Q x \<and> trace_ok tr"
  using assms(1)
proof (induction t)
  case (Ask c k)
  obtain a where a: "C c a" "answer_ok c a" using assms(2) by blast
  with Ask.prems have "io_must C Q (k a)" by simp
  with Ask.IH [OF rangeI] obtain as tr x where "follow (k a) as = (tr, Returned x)" "Q x" "trace_ok tr" by blast
  with a have "follow (Ask c k) (a # as) = ((c, a) # tr, Returned x) \<and> Q x \<and> trace_ok ((c, a) # tr)" by simp
  then show ?case by blast
qed auto

lemma must_all: "io_must answer_ok Q t \<Longrightarrow> io_wp ob (\<lambda>_ x. Q x) seen t"
  by (induction t arbitrary: seen) auto

lemma must_returned:
  assumes "io_must (\<lambda>_ _. True) Q t" "follow t as = (tr, Returned x)"
  shows "Q x"
  using assms
proof (induction t arbitrary: as tr)
  case (Ask c k)
  then obtain a as' tr' where "follow (k a) as' = (tr', Returned x)" by (auto split: list.splits prod.splits)
  with Ask.IH [OF rangeI, of a] Ask.prems(1) show ?case by simp
qed auto

named_theorems must_rules \<open>total correctness of the SDK's functions\<close>

lemma must_ClockNow [must_rules]: "io_must C Q (sdk_ClockNow k) \<longleftrightarrow> (\<forall>a. C CallClockNow a \<longrightarrow> io_must C Q (k (an_num a)))"
  by (simp add: sdk_ClockNow_def)

lemma must_Log [must_rules]: "io_must C Q k \<Longrightarrow> io_must C Q (sdk_Log msg k)"
  by (simp add: sdk_Log_def)

lemma must_WalletBalance [must_rules]:
  "io_must C Q (sdk_WalletBalance k) \<longleftrightarrow> (\<forall>a. C CallWalletBalance a \<longrightarrow> io_must C Q (k (an_num a)))"
  by (simp add: sdk_WalletBalance_def)

lemma must_RandBytes [must_rules]:
  "(\<And>b e. length b = length buf \<Longrightarrow> io_must C Q (k b e)) \<Longrightarrow> io_must C Q (sdk_RandBytes buf k)"
  by (simp add: sdk_RandBytes_def)

lemma must_HTTPRequest [must_rules]:
  "io_must C Q (sdk_HTTPRequest method url headers body k) \<longleftrightarrow>
     (\<forall>a. C (CallHTTPRequest method url headers body) a \<longrightarrow>
        io_must C Q (k (case an_err a of Some e \<Rightarrow> Inl e | None \<Rightarrow> Inr (sint (an_num a), an_bytes a))))"
  by (simp add: sdk_HTTPRequest_def)

lemma must_WalletPay [must_rules]:
  "io_must C Q (sdk_WalletPay amount recipient memo k) \<longleftrightarrow>
     (\<forall>a. C (CallWalletPay amount recipient memo) a \<longrightarrow> io_must C Q (k (answer_bytes a)))"
  by (simp add: sdk_WalletPay_def)

text \<open>Runs of the same functions against a list of answers.\<close>

named_theorems follow_rules \<open>runs of the SDK's functions\<close>

lemma follow_ClockNow [follow_rules]: "follow (sdk_ClockNow k) as = follow (Ask CallClockNow (\<lambda>r. k (an_num r))) as"
  by (simp add: sdk_ClockNow_def)

lemma follow_Log [follow_rules]: "msg \<noteq> '''' \<Longrightarrow> follow (sdk_Log msg k) as = follow (Ask (CallLog msg) (\<lambda>_. k)) as"
  by (simp add: sdk_Log_def)

lemma follow_WalletPay [follow_rules]:
  "follow (sdk_WalletPay amount recipient memo k) as = follow (Ask (CallWalletPay amount recipient memo) (\<lambda>r. k (answer_bytes r))) as"
  by (simp add: sdk_WalletPay_def)

lemma follow_RandBytes [follow_rules]:
  "buf \<noteq> [] \<Longrightarrow> follow (sdk_RandBytes buf k) as = follow (Ask (CallRandBytes (length buf))
     (\<lambda>r. k (if an_err r = None then to_array (length buf) (an_bytes r) else buf) (an_err r))) as"
  by (simp add: sdk_RandBytes_def)

lemma follow_HTTPRequest [follow_rules]:
  "follow (sdk_HTTPRequest method url headers body k) as = follow (Ask (CallHTTPRequest method url headers body)
     (\<lambda>r. k (case an_err r of Some e \<Rightarrow> Inl e | None \<Rightarrow> Inr (sint (an_num r), an_bytes r)))) as"
  by (simp add: sdk_HTTPRequest_def)

text \<open>Total correctness against a world with a state: \<open>R\<close> says how a call may be answered in a state and what state it leaves.\<close>

primrec io_does :: "(sdk_call \<Rightarrow> 'e \<Rightarrow> sdk_answer \<Rightarrow> 'e \<Rightarrow> bool) \<Rightarrow> ('a \<Rightarrow> 'e \<Rightarrow> bool) \<Rightarrow> 'a io \<Rightarrow> 'e \<Rightarrow> bool" where
  "io_does R Q (Done x) w = Q x w"
| "io_does R Q (Panic msg) w = False"
| "io_does R Q (Ask c k) w = (\<forall>a w'. R c w a w' \<longrightarrow> io_does R Q (k a) w')"

text \<open>A host whose state is seen through \<open>f\<close> and that answers as \<open>R\<close> says.\<close>

lemma io_does_runs:
  assumes "io_does R Q t (f x)" "\<And>c x. R c (f x) (fst (H c x)) (f (snd (H c x)))"
  shows "\<exists>y x'. run_io H t x = (Returned y, x') \<and> Q y (f x')"
  using assms(1)
proof (induction t arbitrary: x)
  case (Ask c k)
  obtain a x1 where h: "H c x = (a, x1)" by fastforce
  with assms(2) [of c x] Ask.prems have "io_does R Q (k a) (f x1)" by simp
  with Ask.IH [OF rangeI] h show ?case by simp
qed auto

lemma does_Log:
  "(\<And>m w a w'. R (CallLog m) w a w' \<Longrightarrow> w' = w) \<Longrightarrow> io_does R Q k w \<Longrightarrow> io_does R Q (sdk_Log msg k) w"
  by (fastforce simp: sdk_Log_def)

lemma does_RandBytes:
  assumes "\<And>n w a w'. R (CallRandBytes n) w a w' \<Longrightarrow> w' = w" "\<And>b e. length b = length buf \<Longrightarrow> io_does R Q (k b e) w"
  shows "io_does R Q (sdk_RandBytes buf k) w"
  using assms by (fastforce simp: sdk_RandBytes_def)

text \<open>Every call a tree can ever make satisfies \<open>P\<close>; this also speaks of the runs that are cut off.\<close>

primrec io_calls :: "(sdk_call \<Rightarrow> bool) \<Rightarrow> 'a io \<Rightarrow> bool" where
  "io_calls P (Done x) = True"
| "io_calls P (Panic msg) = True"
| "io_calls P (Ask c k) = (P c \<and> (\<forall>a. io_calls P (k a)))"

lemma io_calls_follow:
  assumes "io_calls P t" "follow t as = (tr, r)"
  shows "\<forall>x\<in>set tr. P (fst x)"
  using assms
proof (induction t arbitrary: as tr)
  case (Ask c k)
  show ?case
  proof (cases as)
    case (Cons a as')
    with Ask.prems(2) obtain tr' where "follow (k a) as' = (tr', r)" "tr = (c, a) # tr'" by (auto split: prod.splits)
    with Ask.IH [OF rangeI, of a] Ask.prems(1) show ?thesis by simp
  qed (use Ask.prems in auto)
qed auto

lemma calls_ClockNow: "P CallClockNow \<Longrightarrow> (\<And>x. io_calls P (k x)) \<Longrightarrow> io_calls P (sdk_ClockNow k)"
  by (simp add: sdk_ClockNow_def)

lemma calls_Log: "(msg \<noteq> [] \<Longrightarrow> P (CallLog msg)) \<Longrightarrow> io_calls P k \<Longrightarrow> io_calls P (sdk_Log msg k)"
  by (simp add: sdk_Log_def)

lemma calls_RandBytes: "P (CallRandBytes (length buf)) \<Longrightarrow> (\<And>b e. length b = length buf \<Longrightarrow> io_calls P (k b e)) \<Longrightarrow> io_calls P (sdk_RandBytes buf k)"
  by (simp add: sdk_RandBytes_def)

lemmas calls_rules = calls_ClockNow calls_Log calls_RandBytes

text \<open>A tree that does not end before it has had \<open>n\<close> answers.\<close>

definition stalls :: "nat \<Rightarrow> 'a io \<Rightarrow> bool" where
  "stalls n t \<longleftrightarrow> (\<forall>as. length as < n \<longrightarrow> snd (follow t as) = Stopped)"

lemma stalls_0 [simp]: "stalls 0 t"
  by (simp add: stalls_def)

lemma stalls_Ask: "(\<And>a. stalls n (k a)) \<Longrightarrow> stalls (Suc n) (Ask c k)"
  by (auto simp: stalls_def case_prod_beta split: list.split)

lemma stalls_mono: "stalls m t \<Longrightarrow> n \<le> m \<Longrightarrow> stalls n t"
  by (simp add: stalls_def)

lemma stalls_Log: "stalls n k \<Longrightarrow> stalls n (sdk_Log msg k)"
  by (auto simp: sdk_Log_def stalls_mono [OF stalls_Ask])

lemma stalls_ClockNow: "(\<And>x. stalls n (k x)) \<Longrightarrow> stalls n (sdk_ClockNow k)"
  unfolding sdk_ClockNow_def by (rule stalls_mono [OF stalls_Ask [of n]]) simp_all

lemma follow_bind_stopped: "snd (follow t as) = Stopped \<Longrightarrow> snd (follow (io_bind t f) as) = Stopped"
proof (induction t arbitrary: as)
  case (Ask c k)
  then show ?case by (cases as) (auto simp: case_prod_beta)
qed auto

lemma stalls_bind: "stalls n t \<Longrightarrow> stalls n (io_bind t f)"
  by (simp add: stalls_def follow_bind_stopped)

section \<open>Rendering of log lines\<close>

text \<open>\<open>%d\<close> on unsigned and signed integers, \<open>%x\<close> on bytes, and \<open>$%d.%02d\<close> of an amount in cents.\<close>

definition fmt_u :: "'a::len word \<Rightarrow> string" where
  "fmt_u w = dec_nat (unat w)"

definition fmt_i :: "int64 \<Rightarrow> string" where
  "fmt_i w = dec_int (sint w)"

definition fmt_x :: "bytes \<Rightarrow> string" where
  "fmt_x data = concat (map (\<lambda>b. [''0123456789abcdef'' ! (unat b div 16), ''0123456789abcdef'' ! (unat b mod 16)]) data)"

definition dollars :: "uint64 \<Rightarrow> string" where
  "dollars cents = ''$'' @ fmt_u (cents div 100) @ ''.'' @ pad_int 2 (uint (cents mod 100))"

text \<open>\<open>key=%x...\<close> with \<open>id[:4]\<close>: slicing a shorter identifier is a run-time panic.\<close>

definition key_prefix :: "bytes \<Rightarrow> (string \<Rightarrow> 'a io) \<Rightarrow> 'a io" where
  "key_prefix ident k =
     (if length ident < 4 then Panic ''runtime error: slice bounds out of range'' else k (fmt_x (take 4 ident)))"

lemma wp_key_prefix [io_rules]:
  "io_wp ob Q seen (key_prefix ident k) \<longleftrightarrow> (4 \<le> length ident \<longrightarrow> io_wp ob Q seen (k (fmt_x (take 4 ident))))"
  by (simp add: key_prefix_def)

lemmas field_reads = u64.step_read i64.step_read u32.step_read i32.step_read byt.step_read str.step_read boo.step_read raw.step_read

abbreviation plain_answer :: sdk_answer where
  "plain_answer \<equiv> \<lparr>an_num = 5, an_bytes = [], an_err = None\<rparr>"

section \<open>The exported functions of an agent module\<close>

text \<open>The interface \<open>Agent\<close>; \<open>Unmarshal\<close> may panic.\<close>

record 's agent_code =
  ag_Init :: "'s \<Rightarrow> 's"
  ag_Tick :: "'s \<Rightarrow> (bool \<times> 's) io"
  ag_Marshal :: "'s \<Rightarrow> bytes"
  ag_Unmarshal :: "bytes \<Rightarrow> 's \<Rightarrow> string + 's"

record 's sdk_module =
  sm_registeredAgent :: "'s option"
  sm_ckptBuf :: bytes

definition sdk_Run :: "'s \<Rightarrow> 's sdk_module \<Rightarrow> 's sdk_module" where
  "sdk_Run a m = m\<lparr>sm_registeredAgent := Some a\<rparr>"

definition agent_init :: "'s agent_code \<Rightarrow> 's sdk_module \<Rightarrow> 's sdk_module" where
  "agent_init A m = (case sm_registeredAgent m of None \<Rightarrow> m | Some s \<Rightarrow> m\<lparr>sm_registeredAgent := Some (ag_Init A s)\<rparr>)"

definition agent_tick :: "'s agent_code \<Rightarrow> 's sdk_module \<Rightarrow> (uint32 \<times> 's sdk_module) io" where
  "agent_tick A m =
     (case sm_registeredAgent m of
        None \<Rightarrow> Done (0, m)
      | Some s \<Rightarrow> io_bind (ag_Tick A s) (\<lambda>(again, s). Done (if again then 1 else 0, m\<lparr>sm_registeredAgent := Some s\<rparr>)))"

definition agent_checkpoint :: "'s agent_code \<Rightarrow> 's sdk_module \<Rightarrow> uint32 \<times> 's sdk_module" where
  "agent_checkpoint A m =
     (case sm_registeredAgent m of
        None \<Rightarrow> (0, m)
      | Some s \<Rightarrow> let m = m\<lparr>sm_ckptBuf := ag_Marshal A s\<rparr> in (len_u32 (sm_ckptBuf m), m))"

text \<open>Where the Go runtime keeps the buffer is the argument \<open>addr\<close>; \<open>mem\<close> reads the module's memory.\<close>

definition agent_checkpoint_ptr :: "uint32 \<Rightarrow> 's sdk_module \<Rightarrow> uint32" where
  "agent_checkpoint_ptr addr m = (if length (sm_ckptBuf m) = 0 then 0 else addr)"

definition agent_resume ::
    "'s agent_code \<Rightarrow> (uint32 \<Rightarrow> uint32 \<Rightarrow> bytes) \<Rightarrow> uint32 \<Rightarrow> uint32 \<Rightarrow> 's sdk_module \<Rightarrow> string + 's sdk_module" where
  "agent_resume A mem ptr sz m =
     (case sm_registeredAgent m of
        None \<Rightarrow> Inr m
      | Some s \<Rightarrow>
        if sz = 0 then Inr m
        else (case ag_Unmarshal A (mem ptr sz) s of
                Inl msg \<Rightarrow> Inl msg
              | Inr s \<Rightarrow> Inr (m\<lparr>sm_registeredAgent := Some s\<rparr>)))"

section \<open>A life with checkpoints and crashes\<close>

text \<open>
  What happens to an agent's process: a tick runs to its end; the runtime saves a checkpoint of the
  state between two ticks; or the process dies, possibly in the middle of a tick of which only
  the calls answered so far took place, and a new process resumes from the last saved checkpoint.
\<close>

datatype life_event = LTick "sdk_answer list" | LSave | LCrash "sdk_answer list"

record 's life =
  lf_agent :: 's
  lf_ckpt :: "bytes option"
  lf_trace :: sdk_trace

definition restart :: "'s agent_code \<Rightarrow> 's \<Rightarrow> bytes option \<Rightarrow> 's option" where
  "restart A zero ckpt =
     (case ckpt of
        None \<Rightarrow> Some (ag_Init A zero)
      | Some data \<Rightarrow>
        if length data = 0 then Some zero
        else (case ag_Unmarshal A data zero of Inl _ \<Rightarrow> None | Inr s \<Rightarrow> Some s))"

fun life_step :: "'s agent_code \<Rightarrow> 's \<Rightarrow> life_event \<Rightarrow> 's life \<Rightarrow> 's life option" where
  "life_step A zero (LTick as) l =
     (case follow (ag_Tick A (lf_agent l)) as of
        (tr, Returned (again, s)) \<Rightarrow> Some (l\<lparr>lf_agent := s, lf_trace := lf_trace l @ tr\<rparr>)
      | (tr, _) \<Rightarrow> None)"
| "life_step A zero LSave l = Some (l\<lparr>lf_ckpt := Some (ag_Marshal A (lf_agent l))\<rparr>)"
| "life_step A zero (LCrash as) l =
     (case follow (ag_Tick A (lf_agent l)) as of
        (tr, _) \<Rightarrow> map_option (\<lambda>s. l\<lparr>lf_agent := s, lf_trace := lf_trace l @ tr\<rparr>) (restart A zero (lf_ckpt l)))"

primrec life_run :: "'s agent_code \<Rightarrow> 's \<Rightarrow> life_event list \<Rightarrow> 's life \<Rightarrow> 's life option" where
  "life_run A zero [] l = Some l"
| "life_run A zero (ev # evs) l = (case life_step A zero ev l of None \<Rightarrow> None | Some l' \<Rightarrow> life_run A zero evs l')"

lemma life_run_append:
  "life_run A zero (evs @ evs') l = (case life_run A zero evs l of None \<Rightarrow> None | Some l' \<Rightarrow> life_run A zero evs' l')"
  by (induction evs arbitrary: l) (simp_all split: option.split)

text \<open>What the world has seen stays seen.\<close>

lemma life_step_trace: "life_step A zero ev l = Some l' \<Longrightarrow> \<exists>tr. lf_trace l' = lf_trace l @ tr"
  by (cases ev) (auto split: prod.splits outcome.splits)

lemma life_run_trace: "life_run A zero evs l = Some l' \<Longrightarrow> \<exists>tr. lf_trace l' = lf_trace l @ tr"
proof (induction evs arbitrary: l)
  case (Cons ev evs)
  then obtain l1 where "life_step A zero ev l = Some l1" "life_run A zero evs l1 = Some l'" by (auto split: option.splits)
  with Cons.IH life_step_trace [of A zero ev l l1] show ?case by fastforce
qed simp

lemma life_run_Cons:
  assumes "life_run A zero (ev # evs) l = Some l'" "trace_ok (lf_trace l')"
  obtains l1 where "life_step A zero ev l = Some l1" "life_run A zero evs l1 = Some l'" "trace_ok (lf_trace l1)"
proof -
  from assms(1) obtain l1 where "life_step A zero ev l = Some l1" "life_run A zero evs l1 = Some l'" by (auto split: option.splits)
  moreover from life_run_trace [OF this(2)] assms(2) have "trace_ok (lf_trace l1)" by auto
  ultimately show thesis using that by blast
qed

primrec no_crash :: "life_event \<Rightarrow> bool" where
  "no_crash (LTick as) = True"
| "no_crash LSave = True"
| "no_crash (LCrash as) = False"

primrec is_tick :: "life_event \<Rightarrow> bool" where
  "is_tick (LTick as) = True"
| "is_tick LSave = False"
| "is_tick (LCrash as) = False"

lemma ticks_keep_ckpt: "list_all is_tick evs \<Longrightarrow> life_run A zero evs l = Some l' \<Longrightarrow> lf_ckpt l' = lf_ckpt l"
proof (induction evs arbitrary: l)
  case (Cons ev evs)
  then show ?case
    by (cases ev) (fastforce split: prod.splits outcome.splits option.splits)+
qed simp

text \<open>Ticks of one process against a host, until one does not return.\<close>

primrec run_ticks :: "nat \<Rightarrow> 's agent_code \<Rightarrow> (sdk_call \<Rightarrow> 'e \<Rightarrow> sdk_answer \<times> 'e) \<Rightarrow> 's \<Rightarrow> 'e \<Rightarrow> ('s \<times> 'e) option" where
  "run_ticks 0 A H s w = Some (s, w)"
| "run_ticks (Suc n) A H s w =
     (case run_io H (ag_Tick A s) w of
        (Returned (again, s'), w') \<Rightarrow> run_ticks n A H s' w'
      | _ \<Rightarrow> None)"

lemma run_ticks_step:
  assumes "io_must C (\<lambda>r. P (snd r)) (ag_Tick A s)" "\<And>c w. C c (fst (H c w))"
    "\<And>s' w'. P s' \<Longrightarrow> \<exists>s2 w2. run_ticks n A H s' w' = Some (s2, w2) \<and> Q s2"
  shows "\<exists>s2 w2. run_ticks (Suc n) A H s w = Some (s2, w2) \<and> Q s2"
proof -
  from io_must_runs [OF assms(1), of H w] assms(2) obtain r w' where "run_io H (ag_Tick A s) w = (Returned r, w')" "P (snd r)" by blast
  with assms(3) [of "snd r" w'] show ?thesis by (cases r) simp
qed

lemma run_ticks_does:
  assumes "io_does R (\<lambda>r w. P (snd r) w) (ag_Tick A s) (f x)" "\<And>c x. R c (f x) (fst (H c x)) (f (snd (H c x)))"
    "\<And>s' x'. P s' (f x') \<Longrightarrow> \<exists>s2 x2. run_ticks n A H s' x' = Some (s2, x2) \<and> Q s2 (f x2)"
  shows "\<exists>s2 x2. run_ticks (Suc n) A H s x = Some (s2, x2) \<and> Q s2 (f x2)"
proof -
  from io_does_runs [OF assms(1,2)] obtain r x' where "run_io H (ag_Tick A s) x = (Returned r, x')" "P (snd r) (f x')" by blast
  with assms(3) [of "snd r" x'] show ?thesis by (cases r) simp
qed

text \<open>A run of \<open>N\<close> ticks through the stages \<open>P 0\<close> to \<open>P N\<close>.\<close>

lemma run_ticks_stages:
  assumes "\<And>n s w. n < N \<Longrightarrow> P n s w \<Longrightarrow> io_does R (\<lambda>r w. P (Suc n) (snd r) w) (ag_Tick A s) w"
    and "\<And>c x. R c (f x) (fst (H c x)) (f (snd (H c x)))" "P m s (f x)" "m + k = N"
  shows "\<exists>s2 x2. run_ticks k A H s x = Some (s2, x2) \<and> P N s2 (f x2)"
  using assms(3,4)
proof (induction k arbitrary: m s x)
  case (Suc k)
  then have "io_does R (\<lambda>r w. P (Suc m) (snd r) w) (ag_Tick A s) (f x)" using assms(1) by simp
  then show ?case
    by (rule run_ticks_does [where R = R and f = f and P = "P (Suc m)" and Q = "P N"]) (use assms(2) Suc.IH [of "Suc m"] Suc.prems in simp_all)
qed simp

text \<open>The contract of the interface \<open>Agent\<close> as the runtime needs it, for the states that satisfy \<open>good\<close>.\<close>

locale resumable_agent =
  fixes A :: "'s agent_code" and zero :: 's and good :: "'s \<Rightarrow> bool"
  assumes good_start: "good zero" "good (ag_Init A zero)"
    and good_tick: "good s \<Longrightarrow> io_all (\<lambda>(again, s'). good s') (ag_Tick A s)"
    and saved_nonempty: "ag_Marshal A s \<noteq> []"
    and restored: "good s \<Longrightarrow> ag_Unmarshal A (ag_Marshal A s) zero = Inr s"
begin

lemma good_follow: "good s \<Longrightarrow> follow (ag_Tick A s) as = (tr, Returned (again, s')) \<Longrightarrow> trace_ok tr \<Longrightarrow> good s'"
  using io_all_follow [OF good_tick] by fastforce

definition good_life :: "'s life \<Rightarrow> bool" where
  "good_life l \<longleftrightarrow> good (lf_agent l) \<and> (\<forall>data. lf_ckpt l = Some data \<longrightarrow> (\<exists>s. good s \<and> data = ag_Marshal A s))"

lemma restart_saved: "good s \<Longrightarrow> restart A zero (Some (ag_Marshal A s)) = Some s"
  by (simp add: restart_def restored saved_nonempty)

lemma good_restart:
  assumes "good_life l"
  shows "\<exists>s. restart A zero (lf_ckpt l) = Some s \<and> good s"
proof (cases "lf_ckpt l")
  case None
  then show ?thesis by (simp add: restart_def good_start)
next
  case (Some data)
  with assms obtain s where "good s" "data = ag_Marshal A s" by (auto simp: good_life_def)
  with Some restart_saved show ?thesis by simp
qed

lemma life_step_good:
  assumes "good_life l" "life_step A zero ev l = Some l'" "trace_ok (lf_trace l')"
  shows "good_life l'"
proof (cases ev)
  case (LTick as)
  then obtain tr again s where f: "follow (ag_Tick A (lf_agent l)) as = (tr, Returned (again, s))"
    and l': "l' = l\<lparr>lf_agent := s, lf_trace := lf_trace l @ tr\<rparr>"
    using assms(2) by (auto split: prod.splits outcome.splits)
  have "good s" using good_follow [OF _ f] assms(1,3) l' by (simp add: good_life_def)
  with l' assms(1) show ?thesis by (simp add: good_life_def)
next
  case LSave
  with assms have "good (lf_agent l)" "l' = l\<lparr>lf_ckpt := Some (ag_Marshal A (lf_agent l))\<rparr>" by (simp_all add: good_life_def)
  then show ?thesis by (auto simp: good_life_def)
next
  case (LCrash as)
  obtain s where s: "restart A zero (lf_ckpt l) = Some s" "good s" using good_restart [OF assms(1)] by blast
  obtain tr r where "follow (ag_Tick A (lf_agent l)) as = (tr, r)" by fastforce
  with LCrash assms(2) s have "l' = l\<lparr>lf_agent := s, lf_trace := lf_trace l @ tr\<rparr>" by simp
  with s assms(1) show ?thesis by (simp add: good_life_def)
qed

lemma life_run_good: "good_life l \<Longrightarrow> life_run A zero evs l = Some l' \<Longrightarrow> trace_ok (lf_trace l') \<Longrightarrow> good_life l'"
proof (induction evs arbitrary: l)
  case (Cons ev evs)
  from Cons.prems(2,3) obtain l1 where "life_step A zero ev l = Some l1" "life_run A zero evs l1 = Some l'" "trace_ok (lf_trace l1)"
    by (rule life_run_Cons)
  with Cons life_step_good show ?case by blast
qed simp

text \<open>A crash is always survived: there is a state to resume from.\<close>

lemma crash_survived: "good_life l \<Longrightarrow> \<exists>l'. life_step A zero (LCrash as) l = Some l'"
  using good_restart [of l] by (auto split: prod.split)

text \<open>A restart right after a checkpoint is invisible to the agent.\<close>

lemma clean_restart:
  assumes "good (lf_agent l)"
  shows "life_run A zero [LSave, LCrash []] l =
    Some (l\<lparr>lf_ckpt := Some (ag_Marshal A (lf_agent l))\<rparr>)"
proof -
  obtain r where "follow (ag_Tick A (lf_agent l)) [] = ([], r)" by (cases "ag_Tick A (lf_agent l)") auto
  with restart_saved [OF assms] show ?thesis by simp
qed

text \<open>A later crash takes the agent back to the checkpoint, however many ticks and calls lie between.\<close>

lemma crash_rolls_back:
  assumes "good (lf_agent l)" "list_all is_tick evs" "life_run A zero (LSave # evs @ [LCrash as]) l = Some l'"
  shows "lf_agent l' = lf_agent l"
proof -
  let ?l = "l\<lparr>lf_ckpt := Some (ag_Marshal A (lf_agent l))\<rparr>"
  from assms(3) obtain l1 where l1: "life_run A zero evs ?l = Some l1" "life_step A zero (LCrash as) l1 = Some l'"
    by (auto simp: life_run_append split: option.splits)
  with ticks_keep_ckpt [OF assms(2) l1(1)] restart_saved [OF assms(1)] show ?thesis
    by (auto split: prod.splits)
qed

end

end
