(* ===== verification/Treasury.thy ===== *)
theory Treasury
  imports Sdk
begin

text \<open>
  The agent \<open>src/agents/sentinel\<close>: it watches a simulated treasury, spends from it, and refills it
  through a two-step transfer whose intent is recorded in the effect log before it is executed.  The books of the treasury
  balance in every state the agent can be in, crashes included.
\<close>

unbundle bit_operations_syntax

section \<open>The agent\<close>

abbreviation initialBalance :: uint64 where "initialBalance \<equiv> 1000000"
abbreviation refillThreshold :: uint64 where "refillThreshold \<equiv> 300000"
abbreviation refillAmount :: uint64 where "refillAmount \<equiv> 500000"
abbreviation spendMin :: uint64 where "spendMin \<equiv> 5000"
abbreviation spendRange :: uint64 where "spendRange \<equiv> 20000"

abbreviation phaseMonitoring :: byte where "phaseMonitoring \<equiv> 0"
abbreviation phaseReconciling :: byte where "phaseReconciling \<equiv> 1"

record Sentinel_agent =
  ts_TickCount :: uint64
  ts_BirthNano :: int64
  ts_LastNano :: int64
  ts_Balance :: uint64
  ts_RefillCount :: uint32
  ts_SpendTotal :: uint64
  ts_Effects :: EffectLog
  ts_Phase :: byte
  ts_rngState :: uint64

definition zero_sentinel :: Sentinel_agent where
  "zero_sentinel = \<lparr>ts_TickCount = 0, ts_BirthNano = 0, ts_LastNano = 0, ts_Balance = 0, ts_RefillCount = 0, ts_SpendTotal = 0,
     ts_Effects = \<lparr>ef_intents = []\<rparr>, ts_Phase = 0, ts_rngState = 0\<rparr>"

text \<open>The xorshift generator.\<close>

definition sentinel_rng :: "Sentinel_agent \<Rightarrow> uint64 \<times> Sentinel_agent" where
  "sentinel_rng s =
     (let x = ts_rngState s;
          x = x XOR push_bit 13 x;
          x = x XOR drop_bit 7 x;
          x = x XOR push_bit 17 x
      in (x, s\<lparr>ts_rngState := x\<rparr>))"

definition refill_intent :: "uint64 \<Rightarrow> int64 \<Rightarrow> bytes" where
  "refill_intent balance ageSec =
     Encoder_Finish (Encoder_Int64 ageSec (Encoder_Uint64 balance (Encoder_Uint64 refillAmount NewEncoder)))"

definition recordRefillIntent :: "int64 \<Rightarrow> Sentinel_agent \<Rightarrow> (bool \<times> Sentinel_agent) io" where
  "recordRefillIntent ageSec s =
     sdk_RandBytes (replicate 16 0) (\<lambda>key _.
       case effect_Record key (refill_intent (ts_Balance s) ageSec) (ts_Effects s) of
         (Inl err, e) \<Rightarrow>
           sdk_Log (''[sentinel] ERROR: failed to record intent: '' @ error_string err) (Done (False, s\<lparr>ts_Effects := e\<rparr>))
       | (Inr _, e) \<Rightarrow>
           key_prefix key (\<lambda>hex.
           sdk_Log (''[sentinel] Intent RECORDED: refill '' @ dollars refillAmount @ '' (key='' @ hex @ ''...)'')
           (sdk_Log ''[sentinel] Waiting for checkpoint before execution...''
             (Done (False, s\<lparr>ts_Effects := e\<rparr>)))))"

definition executeRefill :: "Intent \<Rightarrow> int64 \<Rightarrow> Sentinel_agent \<Rightarrow> (bool \<times> Sentinel_agent) io" where
  "executeRefill intent ageSec s =
     (case effect_Begin (it_ID intent) (ts_Effects s) of
        (Inl err, e) \<Rightarrow>
          sdk_Log (''[sentinel] ERROR: failed to begin intent: '' @ error_string err) (Done (False, s\<lparr>ts_Effects := e\<rparr>))
      | (Inr _, e) \<Rightarrow>
        (let s = s\<lparr>ts_Effects := e\<rparr> in
         key_prefix (it_ID intent) (\<lambda>hex.
         sdk_Log (''[sentinel] Refill IN-FLIGHT: executing bridge transfer (key='' @ hex @ ''...)'')
         (sdk_Log (''[sentinel] Bridge: source=chain-A dest=chain-B amount='' @ dollars refillAmount)
         (let s = s\<lparr>ts_Balance := ts_Balance s + refillAmount, ts_RefillCount := ts_RefillCount s + 1\<rparr> in
          case effect_Confirm (it_ID intent) (ts_Effects s) of
            (Inl err, e) \<Rightarrow>
              sdk_Log (''[sentinel] ERROR: failed to confirm intent: '' @ error_string err) (Done (False, s\<lparr>ts_Effects := e\<rparr>))
          | (Inr _, e) \<Rightarrow>
              key_prefix (it_ID intent) (\<lambda>hex.
              sdk_Log (''[sentinel] Refill CONFIRMED: balance now '' @ dollars (ts_Balance s) @ '' (key='' @ hex @ ''...)'')
                (Done (True, s\<lparr>ts_Effects := snd (effect_Prune e)\<rparr>))))))))"

definition sentinel_reconcile :: "Intent \<Rightarrow> int64 \<Rightarrow> Sentinel_agent \<Rightarrow> Sentinel_agent io" where
  "sentinel_reconcile intent ageSec s =
     key_prefix (it_ID intent) (\<lambda>hex.
     sdk_Log (''[sentinel] RECONCILING: found unresolved intent (key='' @ hex @ ''...)'')
     (sdk_Log ''[sentinel] Checking bridge status for in-flight transfer...''
     (let bridgeCompleted = (it_ID intent ! 0 mod 2 = 0) in
      if bridgeCompleted then
        let s = s\<lparr>ts_Balance := ts_Balance s + refillAmount, ts_RefillCount := ts_RefillCount s + 1\<rparr> in
        (case effect_Confirm (it_ID intent) (ts_Effects s) of
           (Inl err, e) \<Rightarrow>
             sdk_Log (''[sentinel] ERROR: reconcile confirm failed: '' @ error_string err) (Done (s\<lparr>ts_Effects := e\<rparr>))
         | (Inr _, e) \<Rightarrow>
             sdk_Log ''[sentinel] Reconciled: transfer COMPLETED before crash''
             (sdk_Log (''[sentinel] Balance credited: '' @ dollars (ts_Balance s) @ '' (no duplicate execution)'')
               (Done (s\<lparr>ts_Effects := e\<rparr>))))
      else
        (case effect_Compensate (it_ID intent) (ts_Effects s) of
           (Inl err, e) \<Rightarrow>
             sdk_Log (''[sentinel] ERROR: reconcile compensate failed: '' @ error_string err) (Done (s\<lparr>ts_Effects := e\<rparr>))
         | (Inr _, e) \<Rightarrow>
             sdk_Log ''[sentinel] Reconciled: transfer DID NOT complete before crash''
             (sdk_Log (''[sentinel] Compensated '' @ [CHR 0xE2, CHR 0x80, CHR 0x94] @ '' will retry in next cycle'')
               (Done (s\<lparr>ts_Effects := e\<rparr>)))))))"

primrec sentinel_reconcile_all :: "Intent list \<Rightarrow> int64 \<Rightarrow> Sentinel_agent \<Rightarrow> Sentinel_agent io" where
  "sentinel_reconcile_all [] ageSec s = Done s"
| "sentinel_reconcile_all (x # xs) ageSec s = io_bind (sentinel_reconcile x ageSec s) (sentinel_reconcile_all xs ageSec)"

text \<open>Normal operation: spend, and ask for a refill when the balance is low.\<close>

definition take_spend :: "Sentinel_agent \<Rightarrow> Sentinel_agent" where
  "take_spend s =
     (let (r, s) = sentinel_rng s;
          spend = spendMin + r mod spendRange;
          spend = (if spend > ts_Balance s then ts_Balance s else spend)
      in s\<lparr>ts_Balance := ts_Balance s - spend, ts_SpendTotal := ts_SpendTotal s + spend\<rparr>)"

definition check_refill :: "int64 \<Rightarrow> Sentinel_agent \<Rightarrow> (bool \<times> Sentinel_agent) io" where
  "check_refill ageSec s =
     (if ts_Balance s < refillThreshold
      then sdk_Log (''[sentinel] ALERT: balance '' @ dollars (ts_Balance s) @ '' below threshold '' @ dollars refillThreshold @ '' '' @
             [CHR 0xE2, CHR 0x80, CHR 0x94] @ '' initiating refill'')
             (recordRefillIntent ageSec s)
      else Done (False, s))"

definition sentinel_spend :: "int64 \<Rightarrow> Sentinel_agent \<Rightarrow> (bool \<times> Sentinel_agent) io" where
  "sentinel_spend ageSec s =
     (let s = take_spend s
      in if ts_TickCount s mod 5 = 0
         then sdk_Log (''[sentinel] tick='' @ fmt_u (ts_TickCount s) @ '' age='' @ fmt_i ageSec @ ''s balance='' @ dollars (ts_Balance s) @
                '' spent='' @ dollars (ts_SpendTotal s) @ '' refills='' @ fmt_u (ts_RefillCount s)) (check_refill ageSec s)
         else check_refill ageSec s)"

definition sentinel_act :: "int64 \<Rightarrow> Sentinel_agent \<Rightarrow> (bool \<times> Sentinel_agent) io" where
  "sentinel_act ageSec s =
     (let unresolved = effect_Unresolved (ts_Effects s) in
      if length unresolved > 0 then
        io_bind (sentinel_reconcile_all unresolved ageSec (s\<lparr>ts_Phase := phaseReconciling\<rparr>)) (\<lambda>s.
          Done (True, s\<lparr>ts_Effects := snd (effect_Prune (ts_Effects s)), ts_Phase := phaseMonitoring\<rparr>))
      else case List.find (\<lambda>x. it_State x = Recorded) (effect_Pending (ts_Effects s)) of
        Some intent \<Rightarrow> executeRefill intent ageSec s
      | None \<Rightarrow> sentinel_spend ageSec s)"

definition sentinel_Tick :: "Sentinel_agent \<Rightarrow> (bool \<times> Sentinel_agent) io" where
  "sentinel_Tick s =
     (let s = s\<lparr>ts_TickCount := ts_TickCount s + 1\<rparr> in
      sdk_ClockNow (\<lambda>now.
        if ts_BirthNano s = 0 then
          let s = s\<lparr>ts_BirthNano := now, ts_Balance := initialBalance\<rparr> in
          sdk_RandBytes (replicate 8 0) (\<lambda>seed _.
          let s = s\<lparr>ts_rngState := get_u64 seed\<rparr> in
          sdk_Log (''[sentinel] Treasury initialized: '' @ dollars (ts_Balance s))
          (sentinel_act (div_i64 (now - ts_BirthNano s) 1000000000) (s\<lparr>ts_LastNano := now\<rparr>)))
        else sentinel_act (div_i64 (now - ts_BirthNano s) 1000000000) (s\<lparr>ts_LastNano := now\<rparr>)))"

definition sentinel_Marshal :: "Sentinel_agent \<Rightarrow> bytes" where
  "sentinel_Marshal s =
     Encoder_Finish
       (Encoder_Uint64 (ts_rngState s)
       (Encoder_Bool (ts_Phase s \<noteq> 0)
       (Encoder_Bytes (effect_Marshal (ts_Effects s))
       (Encoder_Uint64 (ts_SpendTotal s)
       (Encoder_Uint32 (ts_RefillCount s)
       (Encoder_Uint64 (ts_Balance s)
       (Encoder_Int64 (ts_LastNano s)
       (Encoder_Int64 (ts_BirthNano s)
       (Encoder_Uint64 (ts_TickCount s) NewEncoder)))))))))"

definition sentinel_Unmarshal :: "bytes \<Rightarrow> Sentinel_agent \<Rightarrow> string + Sentinel_agent" where
  "sentinel_Unmarshal data s =
     (let d = NewDecoder data;
          (tickCount, d) = Decoder_Uint64 d;
          (birthNano, d) = Decoder_Int64 d;
          (lastNano, d) = Decoder_Int64 d;
          (balance, d) = Decoder_Uint64 d;
          (refillCount, d) = Decoder_Uint32 d;
          (spendTotal, d) = Decoder_Uint64 d;
          (effects, d) = Decoder_Bytes d;
          (reconciling, d) = Decoder_Bool d;
          (rngState, d) = Decoder_Uint64 d
      in case Decoder_Err d of
           Some err \<Rightarrow> Inl (''unmarshal checkpoint: '' @ error_string err)
         | None \<Rightarrow> Inr (s\<lparr>ts_TickCount := tickCount, ts_BirthNano := birthNano, ts_LastNano := lastNano, ts_Balance := balance,
              ts_RefillCount := refillCount, ts_SpendTotal := spendTotal, ts_Effects := effect_Unmarshal effects,
              ts_Phase := (if reconciling then phaseReconciling else ts_Phase s), ts_rngState := rngState\<rparr>))"

definition sentinel_code :: "Sentinel_agent agent_code" where
  "sentinel_code = \<lparr>ag_Init = (\<lambda>s. s), ag_Tick = sentinel_Tick, ag_Marshal = sentinel_Marshal, ag_Unmarshal = sentinel_Unmarshal\<rparr>"

section \<open>The invariant\<close>

definition recorded_refill :: "Intent \<Rightarrow> bool" where
  "recorded_refill x \<longleftrightarrow> it_State x = Recorded \<and> length (it_ID x) = 16 \<and> length (it_Data x) = 24"

definition books_balance :: "Sentinel_agent \<Rightarrow> bool" where
  "books_balance s \<longleftrightarrow> ts_Balance s \<le> initialBalance \<and> (ef_intents (ts_Effects s) \<noteq> [] \<longrightarrow> ts_Balance s < refillThreshold) \<and>
     (\<exists>n. ts_RefillCount s = of_nat n \<and> ts_Balance s + ts_SpendTotal s = initialBalance + refillAmount * of_nat n)"

definition sentinel_good :: "Sentinel_agent \<Rightarrow> bool" where
  "sentinel_good s \<longleftrightarrow> ts_Phase s = phaseMonitoring \<and> one_recorded recorded_refill (ts_Effects s) \<and>
     (if ts_BirthNano s = 0 then ef_intents (ts_Effects s) = [] \<and> ts_RefillCount s = 0 \<and> ts_SpendTotal s = 0 else books_balance s)"

lemma recorded_refill_shape: "recorded_refill x \<Longrightarrow> it_State x = Recorded \<and> wf_intent x \<and> length (wire_intent x) < 2 ^ 32 - 4"
  by (simp add: recorded_refill_def wf_intent_def wire_intent_def)

lemma sentinel_good_log: "sentinel_good s \<Longrightarrow> one_recorded recorded_refill (ts_Effects s)"
  by (simp add: sentinel_good_def)

lemmas sentinel_good_effects = one_recorded_log [OF sentinel_good_log recorded_refill_shape]

lemma sentinel_Marshal_wire:
  "sentinel_Marshal s = put_u64 (ts_TickCount s) @ put_u64 (ts_BirthNano s) @ put_u64 (ts_LastNano s) @ put_u64 (ts_Balance s) @
     put_u32 (ts_RefillCount s) @ put_u64 (ts_SpendTotal s) @
     (put_u32 (len_u32 (effect_Marshal (ts_Effects s))) @ effect_Marshal (ts_Effects s)) @
     [if ts_Phase s \<noteq> 0 then 1 else 0] @ put_u64 (ts_rngState s) @ []"
  by (simp add: sentinel_Marshal_def Encoder_Finish_def NewEncoder_def codec_appends)

lemma sentinel_restored:
  assumes "sentinel_good s"
  shows "sentinel_Unmarshal (sentinel_Marshal s) zero_sentinel = Inr s"
proof -
  note e = sentinel_good_effects [OF assms]
  have "decoder_at (put_u64 (ts_TickCount s) @ put_u64 (ts_BirthNano s) @ put_u64 (ts_LastNano s) @ put_u64 (ts_Balance s) @
     put_u32 (ts_RefillCount s) @ put_u64 (ts_SpendTotal s) @
     (put_u32 (len_u32 (effect_Marshal (ts_Effects s))) @ effect_Marshal (ts_Effects s)) @
     [if ts_Phase s \<noteq> 0 then 1 else 0] @ put_u64 (ts_rngState s) @ []) (NewDecoder (sentinel_Marshal s))"
    by (simp only: sentinel_Marshal_wire decoder_at_New)
  then show ?thesis
    unfolding sentinel_Unmarshal_def Let_def
    by (elim field_reads) (use assms e in \<open>simp_all add: decoder_at_Err zero_sentinel_def sentinel_good_def\<close>)
qed

text \<open>A refill and a spend keep the books.\<close>

lemma refill_balances:
  assumes "books_balance s" "ts_Effects s = \<lparr>ef_intents = [x]\<rparr>"
  shows "books_balance (s\<lparr>ts_Balance := ts_Balance s + refillAmount, ts_RefillCount := ts_RefillCount s + 1, ts_Effects := \<lparr>ef_intents = []\<rparr>\<rparr>)"
proof -
  from assms obtain n where n: "ts_RefillCount s = of_nat n" "ts_Balance s + ts_SpendTotal s = initialBalance + refillAmount * of_nat n"
    and low: "ts_Balance s < refillThreshold" by (auto simp: books_balance_def)
  have "ts_Balance s + refillAmount \<le> initialBalance" using low by unat_arith
  moreover have "ts_RefillCount s + 1 = of_nat (Suc n)" using n by simp
  moreover have "ts_Balance s + refillAmount + ts_SpendTotal s = initialBalance + refillAmount * of_nat (Suc n)"
    using n(2) by (simp add: algebra_simps)
  ultimately show ?thesis by (auto simp: books_balance_def intro: exI [of _ "Suc n"])
qed

lemma spend_balances:
  assumes "books_balance s" "ts_Effects s = \<lparr>ef_intents = []\<rparr>" "spend \<le> ts_Balance s"
  shows "books_balance (s\<lparr>ts_Balance := ts_Balance s - spend, ts_SpendTotal := ts_SpendTotal s + spend, ts_rngState := r\<rparr>)"
    "ts_Balance s - spend < refillThreshold \<Longrightarrow>
     books_balance (s\<lparr>ts_Balance := ts_Balance s - spend, ts_SpendTotal := ts_SpendTotal s + spend, ts_rngState := r, ts_Effects := e\<rparr>)"
proof -
  have "ts_Balance s - spend \<le> initialBalance" using assms by (auto simp: books_balance_def intro: order_trans [OF word_sub_le])
  with assms show "books_balance (s\<lparr>ts_Balance := ts_Balance s - spend, ts_SpendTotal := ts_SpendTotal s + spend, ts_rngState := r\<rparr>)"
    "ts_Balance s - spend < refillThreshold \<Longrightarrow>
     books_balance (s\<lparr>ts_Balance := ts_Balance s - spend, ts_SpendTotal := ts_SpendTotal s + spend, ts_rngState := r, ts_Effects := e\<rparr>)"
    by (auto simp: books_balance_def)
qed

section \<open>One tick\<close>

abbreviation keeps_good :: "(bool \<times> Sentinel_agent) io \<Rightarrow> bool" where
  "keeps_good t \<equiv> io_all (\<lambda>r. sentinel_good (snd r)) t"

lemma executeRefill_good:
  assumes "sentinel_good s" "ts_Effects s = \<lparr>ef_intents = [x]\<rparr>"
  shows "keeps_good (executeRefill x age s)"
proof -
  from assms have x: "it_State x = Recorded" "length (it_ID x) = 16"
    and b: "ts_BirthNano s \<noteq> 0" "books_balance s" "ts_Phase s = 0"
    by (auto simp: sentinel_good_def one_recorded_def recorded_refill_def split: if_splits)
  show ?thesis
    using x b refill_balances [OF b(2) assms(2)] assms(2)
    by (simp add: executeRefill_def single_intent io_rules Let_def sentinel_good_def one_recorded_def)
qed

lemma length_refill_intent: "length (refill_intent balance age) = 24"
  by (simp add: refill_intent_def Encoder_Finish_def NewEncoder_def codec_appends)

lemma recordRefill_good:
  assumes "ts_Phase s = 0" "ts_BirthNano s \<noteq> 0" "ts_Effects s = \<lparr>ef_intents = []\<rparr>" "\<And>e. books_balance (s\<lparr>ts_Effects := e\<rparr>)"
  shows "keeps_good (recordRefillIntent age s)"
  unfolding recordRefillIntent_def
  by (rule wp_RandBytes)
    (use assms in \<open>simp_all add: Record_empty io_rules sentinel_good_def one_recorded_def recorded_refill_def length_refill_intent\<close>)

lemma take_spend_cases:
  obtains spend r where "spend \<le> ts_Balance s"
    "take_spend s = s\<lparr>ts_Balance := ts_Balance s - spend, ts_SpendTotal := ts_SpendTotal s + spend, ts_rngState := r\<rparr>"
proof -
  obtain r where "sentinel_rng s = (r, s\<lparr>ts_rngState := r\<rparr>)" by (simp add: sentinel_rng_def Let_def)
  moreover define spend where "spend = (if spendMin + r mod spendRange > ts_Balance s then ts_Balance s else spendMin + r mod spendRange)"
  ultimately have "take_spend s = s\<lparr>ts_Balance := ts_Balance s - spend, ts_SpendTotal := ts_SpendTotal s + spend, ts_rngState := r\<rparr>"
    by (simp add: take_spend_def spend_def Let_def)
  moreover have "spend \<le> ts_Balance s" by (auto simp: spend_def not_less)
  ultimately show thesis using that by blast
qed

lemma spend_good:
  assumes "ts_Phase s = 0" "ts_BirthNano s \<noteq> 0" "ts_Effects s = \<lparr>ef_intents = []\<rparr>" "books_balance s"
  shows "keeps_good (sentinel_spend age s)"
proof -
  obtain spend r where le: "spend \<le> ts_Balance s"
    and s: "take_spend s = s\<lparr>ts_Balance := ts_Balance s - spend, ts_SpendTotal := ts_SpendTotal s + spend, ts_rngState := r\<rparr>"
    by (rule take_spend_cases)
  have ok: "sentinel_good (take_spend s)"
    using spend_balances(1) [OF assms(4,3) le] assms by (simp add: s sentinel_good_def one_recorded_def)
  have rec: "keeps_good (recordRefillIntent age (take_spend s))" if "ts_Balance (take_spend s) < refillThreshold"
    using spend_balances(2) [OF assms(4,3) le] that assms by (intro recordRefill_good) (simp_all add: s)
  show ?thesis using ok rec by (simp add: sentinel_spend_def check_refill_def io_rules Let_def)
qed

lemma act_good:
  assumes "sentinel_good s" "ts_BirthNano s \<noteq> 0"
  shows "keeps_good (sentinel_act age s)"
  using sentinel_good_log [OF assms(1)]
proof (cases rule: one_recorded_cases)
  case none
  then show ?thesis
    using spend_good [of s age] assms by (simp add: sentinel_act_def effect_Unresolved_def effect_Pending_def sentinel_good_def)
next
  case (one x)
  then have "it_State x = Recorded" by (simp add: recorded_refill_def)
  with one executeRefill_good [OF assms(1) one(1)] show ?thesis
    by (simp add: sentinel_act_def effect_Unresolved_def effect_Pending_def)
qed

lemma sentinel_tick_good:
  assumes "sentinel_good s"
  shows "keeps_good (sentinel_Tick s)"
proof -
  have born: "keeps_good (sentinel_act age (s\<lparr>ts_TickCount := t, ts_LastNano := l\<rparr>))" if "ts_BirthNano s \<noteq> 0" for age t l
    by (rule act_good) (use assms that in \<open>simp_all add: sentinel_good_def books_balance_def\<close>)
  have first: "keeps_good (sentinel_act age (s\<lparr>ts_TickCount := t, ts_BirthNano := n, ts_Balance := initialBalance, ts_rngState := r, ts_LastNano := l\<rparr>))"
    if "ts_BirthNano s = 0" "n \<noteq> 0" for age t n r l
    by (rule act_good) (use assms that in \<open>simp_all add: sentinel_good_def books_balance_def one_recorded_def exI [of _ 0]\<close>)
  have "keeps_good (sdk_RandBytes (replicate 8 0) (\<lambda>seed _. sdk_Log (''[sentinel] Treasury initialized: '' @ dollars initialBalance)
       (sentinel_act age (s\<lparr>ts_TickCount := t, ts_BirthNano := n, ts_Balance := initialBalance, ts_rngState := get_u64 seed, ts_LastNano := l\<rparr>))))"
    if "ts_BirthNano s = 0" "n \<noteq> 0" for age t n l
    by (rule wp_RandBytes) (use first [OF that] in \<open>simp_all add: io_rules\<close>)
  with born show ?thesis by (simp add: sentinel_Tick_def io_rules answer_ok_def Let_def)
qed

interpretation sentinel: resumable_agent sentinel_code zero_sentinel sentinel_good
proof unfold_locales
  fix s assume "sentinel_good s"
  then show "io_all (\<lambda>(again, s'). sentinel_good s') (ag_Tick sentinel_code s)"
    using io_wp_mono [OF sentinel_tick_good] by (fastforce simp: sentinel_code_def)
  from \<open>sentinel_good s\<close> show "ag_Unmarshal sentinel_code (ag_Marshal sentinel_code s) zero_sentinel = Inr s"
    by (simp add: sentinel_code_def sentinel_restored)
qed (simp_all add: sentinel_code_def zero_sentinel_def sentinel_good_def one_recorded_def sentinel_Marshal_wire)

text \<open>
  C30 The treasury's books balance: in every state a sentinel reaches, through any ticks, checkpoints, crashes in the middle of a tick
  and resumes, what is in the treasury plus what was spent is the initial balance plus one refill amount for
  every refill counted (modulo the width of the counters), the balance never exceeds the initial balance, no more
  than one refill is pending, and a refill is pending only while the balance is below the threshold.
\<close>

theorem sentinel_conserves:
  assumes "life_run sentinel_code zero_sentinel evs \<lparr>lf_agent = zero_sentinel, lf_ckpt = None, lf_trace = []\<rparr> = Some l"
    and "trace_ok (lf_trace l)" "s = lf_agent l" "ts_BirthNano s \<noteq> 0"
  shows "(\<exists>n. ts_RefillCount s = of_nat n \<and> ts_Balance s + ts_SpendTotal s = initialBalance + refillAmount * of_nat n) \<and>
    ts_Balance s \<le> initialBalance \<and> length (ef_intents (ts_Effects s)) \<le> 1 \<and>
    (ef_intents (ts_Effects s) \<noteq> [] \<longrightarrow> ts_Balance s < refillThreshold)"
proof -
  have "sentinel.good_life \<lparr>lf_agent = zero_sentinel, lf_ckpt = None, lf_trace = []\<rparr>"
    using sentinel.good_start(1) by (simp add: sentinel.good_life_def)
  from sentinel.life_run_good [OF this assms(1,2)] assms(3,4) show ?thesis
    by (auto simp: sentinel.good_life_def sentinel_good_def one_recorded_def books_balance_def)
qed

definition example_sentinel_life :: "life_event list" where
  "example_sentinel_life = [LTick [plain_answer, plain_answer, plain_answer], LSave, LTick [plain_answer], LCrash [plain_answer]]"

lemma le_nat_zeros: "le_nat (replicate n 0) = 0"
  by (induction n) simp_all

lemma example_sentinel_run:
  "\<exists>l. life_run sentinel_code zero_sentinel example_sentinel_life \<lparr>lf_agent = zero_sentinel, lf_ckpt = None, lf_trace = []\<rparr> = Some l \<and>
     ts_BirthNano (lf_agent l) = 5 \<and> ts_Balance (lf_agent l) = 995000 \<and> trace_ok (lf_trace l)"
proof -
  let ?s = "\<lambda>n. zero_sentinel\<lparr>ts_TickCount := n, ts_BirthNano := 5, ts_LastNano := 5, ts_Balance := 1000000 - n * 5000, ts_SpendTotal := n * 5000\<rparr>"
  note defs = sentinel_Tick_def sentinel_act_def sentinel_spend_def take_spend_def check_refill_def sentinel_rng_def zero_sentinel_def effect_Unresolved_def effect_Pending_def
    follow_rules to_array_def get_u64_def le_nat_zeros Let_def
  have 1: "\<exists>tr. follow (sentinel_Tick zero_sentinel) [plain_answer, plain_answer, plain_answer] = (tr, Returned (False, ?s 1))"
    by (simp add: defs)
  have 2: "\<exists>tr. follow (sentinel_Tick (?s 1)) [plain_answer] = (tr, Returned (False, ?s 2))"
    by (simp add: defs)
  obtain tr1 tr2 where f: "follow (sentinel_Tick zero_sentinel) [plain_answer, plain_answer, plain_answer] = (tr1, Returned (False, ?s 1))"
    "follow (sentinel_Tick (?s 1)) [plain_answer] = (tr2, Returned (False, ?s 2))" using 1 2 by blast
  obtain tr3 r where 3: "follow (sentinel_Tick (?s 2)) [plain_answer] = (tr3, r)" by fastforce
  have "answer_ok c plain_answer" for c by (simp add: answer_ok_def)
  then have "trace_ok tr1" "trace_ok tr2" "trace_ok tr3"
    using follow_trace_ok [OF f(1)] follow_trace_ok [OF f(2)] follow_trace_ok [OF 3] by auto
  moreover have "sentinel_good (?s 1)"
    by (simp add: sentinel_good_def zero_sentinel_def one_recorded_def books_balance_def exI [of _ 0])
  ultimately show ?thesis
    using f 3 sentinel.restart_saved [of "?s 1"] by (simp add: example_sentinel_life_def sentinel_code_def)
qed

theorem sentinel_conserves_witness:
  "\<exists>l. life_run sentinel_code zero_sentinel example_sentinel_life \<lparr>lf_agent = zero_sentinel, lf_ckpt = None, lf_trace = []\<rparr> = Some l \<and>
     (\<exists>n. ts_RefillCount (lf_agent l) = of_nat n \<and>
        ts_Balance (lf_agent l) + ts_SpendTotal (lf_agent l) = initialBalance + refillAmount * of_nat n)"
proof -
  obtain l where l: "life_run sentinel_code zero_sentinel example_sentinel_life \<lparr>lf_agent = zero_sentinel, lf_ckpt = None, lf_trace = []\<rparr> = Some l"
    "ts_BirthNano (lf_agent l) \<noteq> 0" "trace_ok (lf_trace l)" using example_sentinel_run by force
  from sentinel_conserves [OF l(1,3) refl l(2)] l(1) show ?thesis by blast
qed

end
