(* ===== verification/Liquidation.thy ===== *)
theory Liquidation
  imports Sdk
begin

text \<open>
  The agent \<open>src/agents/liquidation\<close>: it follows a price curve that is a function of time, one slot per
  second, and after a downtime catches up on the slots it missed.  The main results are that catching up leaves it
  exactly where uninterrupted ticking would have, and that it cannot miss the breach of its threshold.
\<close>

section \<open>The price curve\<close>

abbreviation liquidationThresholdCents :: uint64 where "liquidationThresholdCents \<equiv> 155000"

type_synonym controlPoint = "uint64 \<times> uint64"

definition curve :: "controlPoint list" where
  "curve = [(0, 200000), (5, 205000), (10, 192000), (15, 198000), (20, 185000), (25, 178000), (30, 182000), (35, 165000),
     (38, 154000), (40, 158000), (45, 162000), (50, 170000), (55, 175000)]"

text \<open>The loop over the control points, with the point before the current one.\<close>

primrec price_from :: "controlPoint \<Rightarrow> controlPoint list \<Rightarrow> uint64 \<Rightarrow> uint64" where
  "price_from prev [] slot = snd prev"
| "price_from prev (point # points) slot =
     (if slot \<le> fst point then
        let span = fst point - fst prev;
            offset = slot - fst prev
        in if snd point \<ge> snd prev then snd prev + (snd point - snd prev) * offset div span
           else snd prev - (snd prev - snd point) * offset div span
      else price_from point points slot)"

definition priceAtSlot :: "uint64 \<Rightarrow> uint64" where
  "priceAtSlot slot = (if slot \<le> fst (curve ! 0) then snd (curve ! 0) else price_from (curve ! 0) (drop 1 curve) slot)"

section \<open>The agent\<close>

record LiquidationWatcher =
  lw_TickCount :: uint64
  lw_BirthNano :: int64
  lw_LastNano :: int64
  lw_LastProcessedSlot :: uint64
  lw_PriceLatest :: uint64
  lw_PriceHigh :: uint64
  lw_PriceLow :: uint64
  lw_FirstWarningSlot :: uint64
  lw_WarningActive :: uint32
  lw_SlotsProcessed :: uint32

definition zero_watcher :: LiquidationWatcher where
  "zero_watcher = \<lparr>lw_TickCount = 0, lw_BirthNano = 0, lw_LastNano = 0, lw_LastProcessedSlot = 0, lw_PriceLatest = 0, lw_PriceHigh = 0,
     lw_PriceLow = 0, lw_FirstWarningSlot = 0, lw_WarningActive = 0, lw_SlotsProcessed = 0\<rparr>"

text \<open>What \<open>processSlot\<close> does to the agent, and the line it logs.\<close>

definition observe_slot :: "uint64 \<Rightarrow> LiquidationWatcher \<Rightarrow> LiquidationWatcher" where
  "observe_slot slot w =
     (let price = priceAtSlot slot;
          w = w\<lparr>lw_PriceLatest := price\<rparr>;
          w = (if lw_PriceHigh w = 0 \<or> price > lw_PriceHigh w then w\<lparr>lw_PriceHigh := price\<rparr> else w);
          w = (if lw_PriceLow w = 0 \<or> price < lw_PriceLow w then w\<lparr>lw_PriceLow := price\<rparr> else w);
          w = w\<lparr>lw_SlotsProcessed := lw_SlotsProcessed w + 1\<rparr>;
          belowThreshold = (price < liquidationThresholdCents);
          w = (if belowThreshold \<and> lw_FirstWarningSlot w = 0 then w\<lparr>lw_FirstWarningSlot := slot\<rparr> else w)
      in w\<lparr>lw_WarningActive := (if belowThreshold then 1 else 0)\<rparr>)"

definition slot_line :: "uint64 \<Rightarrow> string \<Rightarrow> LiquidationWatcher \<Rightarrow> string" where
  "slot_line slot mode w =
     (let price = priceAtSlot slot;
          (distSign, dist) = (if price \<ge> liquidationThresholdCents then (''+'', price - liquidationThresholdCents)
                              else (''-'', liquidationThresholdCents - price));
          sign = [CHR 0xE2, CHR 0x9A, CHR 0xA0]
      in ''['' @ mode @ ''] slot '' @ fmt_u slot @ '': ETH '' @ dollars price @ ''  threshold '' @ dollars liquidationThresholdCents @
         ''  distance '' @ distSign @ dollars dist @
         (if price < liquidationThresholdCents
          then (if slot = lw_FirstWarningSlot w then ''  '' @ sign @ '' LIQUIDATION WARNING (threshold breached)'' else ''  '' @ sign @ '' WARNING'')
          else ''''))"

definition processSlot :: "uint64 \<Rightarrow> string \<Rightarrow> LiquidationWatcher \<Rightarrow> LiquidationWatcher io" where
  "processSlot slot mode w = (let w = observe_slot slot w in sdk_Log (slot_line slot mode w) (Done w))"

lemma slot_measure: "slot < cur \<Longrightarrow> unat cur - unat (slot + 1) < unat cur - unat slot" for slot cur :: uint64
proof -
  assume "slot < cur"
  then have "unat (slot + 1) = unat slot + 1" by unat_arith
  with \<open>slot < cur\<close> show ?thesis by (simp add: word_less_nat_alt)
qed

text \<open>The loop \<open>for slot := ...; slot < currentSlot; slot++\<close>.\<close>

function catch_up :: "uint64 \<Rightarrow> uint64 \<Rightarrow> LiquidationWatcher \<Rightarrow> LiquidationWatcher io" where
  "catch_up slot currentSlot w =
     (if slot < currentSlot then io_bind (processSlot slot ''catch-up'' w) (\<lambda>w. catch_up (slot + 1) currentSlot w) else Done w)"
  by auto

termination
  by (relation "measure (\<lambda>(slot, cur, w). unat cur - unat slot)") (simp_all add: slot_measure)

declare catch_up.simps [simp del]

definition rule_line :: string where
  "rule_line = concat (replicate 52 [CHR 0xE2, CHR 0x94, CHR 0x80])"

definition gap_report :: "uint64 \<Rightarrow> LiquidationWatcher \<Rightarrow> LiquidationWatcher io" where
  "gap_report currentSlot w =
     (let gap = currentSlot - lw_LastProcessedSlot w - 1;
          warningBefore = lw_FirstWarningSlot w
      in sdk_Log ''''
        (sdk_Log rule_line
        (sdk_Log ''  GAP DETECTED''
        (sdk_Log (''  Last processed:  slot '' @ fmt_u (lw_LastProcessedSlot w))
        (sdk_Log (''  Current time:    slot '' @ fmt_u currentSlot)
        (sdk_Log (''  Missed:          '' @ fmt_u gap @ '' slots ('' @ fmt_u (lw_LastProcessedSlot w + 1) @ ''..'' @ fmt_u (currentSlot - 1) @ '')'')
        (sdk_Log ''  Replaying missed history...''
        (sdk_Log rule_line
        (io_bind (catch_up (lw_LastProcessedSlot w + 1) currentSlot w) (\<lambda>w.
          sdk_Log rule_line
          (let finish = sdk_Log rule_line (sdk_Log '''' (Done w)) in
           if lw_FirstWarningSlot w \<noteq> 0 \<and> warningBefore = 0 then
             sdk_Log (''  '' @ [CHR 0xE2, CHR 0x9A, CHR 0xA0] @ '' THRESHOLD BREACHED AT SLOT '' @ fmt_u (lw_FirstWarningSlot w) @ '' (DURING DOWNTIME)'')
             (sdk_Log ''  The agent was dead. The world kept moving.''
             (sdk_Log (''  Catch-up reconstructed '' @ fmt_u gap @ '' missed slots.'') finish))
           else sdk_Log (''  Catch-up complete: '' @ fmt_u gap @ '' missed slots replayed.'') finish)))))))))))"

text \<open>A tick that starts at time \<open>now\<close>.\<close>

definition watcher_act :: "int64 \<Rightarrow> LiquidationWatcher \<Rightarrow> (bool \<times> LiquidationWatcher) io" where
  "watcher_act now w =
     (let w = (if lw_BirthNano w = 0 then w\<lparr>lw_BirthNano := now\<rparr> else w);
          w = w\<lparr>lw_LastNano := now\<rparr>;
          currentSlot = div_i64 (now - lw_BirthNano w) 1000000000
      in if lw_TickCount w = 1 then
           io_bind (processSlot 0 ''live'' w) (\<lambda>w. Done (False, w\<lparr>lw_LastProcessedSlot := 0\<rparr>))
         else
           io_bind (if currentSlot > lw_LastProcessedSlot w + 1 then gap_report currentSlot w else Done w) (\<lambda>w.
           io_bind (processSlot currentSlot ''live'' w) (\<lambda>w.
             Done (False, w\<lparr>lw_LastProcessedSlot := currentSlot\<rparr>))))"

definition watcher_Tick :: "LiquidationWatcher \<Rightarrow> (bool \<times> LiquidationWatcher) io" where
  "watcher_Tick w = (let w = w\<lparr>lw_TickCount := lw_TickCount w + 1\<rparr> in sdk_ClockNow (\<lambda>now. watcher_act now w))"

definition watcher_Marshal :: "LiquidationWatcher \<Rightarrow> bytes" where
  "watcher_Marshal w =
     Encoder_Finish
       (Encoder_Uint32 (lw_SlotsProcessed w)
       (Encoder_Uint32 (lw_WarningActive w)
       (Encoder_Uint64 (lw_FirstWarningSlot w)
       (Encoder_Uint64 (lw_PriceLow w)
       (Encoder_Uint64 (lw_PriceHigh w)
       (Encoder_Uint64 (lw_PriceLatest w)
       (Encoder_Uint64 (lw_LastProcessedSlot w)
       (Encoder_Int64 (lw_LastNano w)
       (Encoder_Int64 (lw_BirthNano w)
       (Encoder_Uint64 (lw_TickCount w) NewEncoder))))))))))"

definition watcher_Unmarshal :: "bytes \<Rightarrow> LiquidationWatcher \<Rightarrow> string + LiquidationWatcher" where
  "watcher_Unmarshal data w =
     (let d = NewDecoder data;
          (tickCount, d) = Decoder_Uint64 d;
          (birthNano, d) = Decoder_Int64 d;
          (lastNano, d) = Decoder_Int64 d;
          (lastProcessedSlot, d) = Decoder_Uint64 d;
          (priceLatest, d) = Decoder_Uint64 d;
          (priceHigh, d) = Decoder_Uint64 d;
          (priceLow, d) = Decoder_Uint64 d;
          (firstWarningSlot, d) = Decoder_Uint64 d;
          (warningActive, d) = Decoder_Uint32 d;
          (slotsProcessed, d) = Decoder_Uint32 d
      in case Decoder_Err d of
           Some err \<Rightarrow> Inl (''unmarshal checkpoint: '' @ error_string err)
         | None \<Rightarrow> Inr (w\<lparr>lw_TickCount := tickCount, lw_BirthNano := birthNano, lw_LastNano := lastNano,
              lw_LastProcessedSlot := lastProcessedSlot, lw_PriceLatest := priceLatest, lw_PriceHigh := priceHigh,
              lw_PriceLow := priceLow, lw_FirstWarningSlot := firstWarningSlot, lw_WarningActive := warningActive,
              lw_SlotsProcessed := slotsProcessed\<rparr>))"

definition watcher_code :: "LiquidationWatcher agent_code" where
  "watcher_code = \<lparr>ag_Init = (\<lambda>w. w), ag_Tick = watcher_Tick, ag_Marshal = watcher_Marshal, ag_Unmarshal = watcher_Unmarshal\<rparr>"

section \<open>The curve\<close>

lemma price_table: "list_all (\<lambda>n. (priceAtSlot (of_nat n) < liquidationThresholdCents) = (n = 38)) [0..<56]"
  by code_simp

lemma price_beyond: "55 < slot \<Longrightarrow> priceAtSlot slot = 175000"
proof -
  assume "55 < slot"
  have below: "\<not> slot \<le> k" if "k \<le> 55" for k using that \<open>55 < slot\<close> by (auto simp: not_le intro: order.strict_trans1)
  have "\<not> slot \<le> 0" "\<not> slot \<le> 5" "\<not> slot \<le> 10" "\<not> slot \<le> 15" "\<not> slot \<le> 20" "\<not> slot \<le> 25" "\<not> slot \<le> 30"
    "\<not> slot \<le> 35" "\<not> slot \<le> 38" "\<not> slot \<le> 40" "\<not> slot \<le> 45" "\<not> slot \<le> 50" "\<not> slot \<le> 55"
    by (rule below, simp)+
  then show ?thesis by (simp add: priceAtSlot_def curve_def)
qed

lemma price_below_threshold: "priceAtSlot slot < liquidationThresholdCents \<longleftrightarrow> slot = 38"
proof (cases "55 < slot")
  case True
  then have "slot \<noteq> 38" by auto
  with price_beyond [OF True] show ?thesis by simp
next
  case False
  then have "unat slot < 56" by (simp add: not_less word_le_nat_alt)
  with price_table have "(priceAtSlot (of_nat (unat slot)) < liquidationThresholdCents) = (unat slot = 38)"
    by (simp only: list_all_iff set_upt) (drule bspec [of _ _ "unat slot"], simp_all)
  moreover have "unat slot = 38 \<longleftrightarrow> slot = 38" by unat_arith
  ultimately show ?thesis by simp
qed

section \<open>What a completed tick has done\<close>


lemma slots_upt_Cons: "slot < cur \<Longrightarrow> map of_nat [unat slot ..< unat cur] = slot # map of_nat [unat (slot + 1) ..< unat cur]"
  for slot cur :: uint64
proof -
  assume "slot < cur"
  then have "unat (slot + 1) = Suc (unat slot)" "unat slot < unat cur" by unat_arith+
  then show ?thesis by (simp add: upt_conv_Cons)
qed

lemma catch_up_result: "io_all (\<lambda>w'. w' = fold observe_slot (map of_nat [unat slot ..< unat cur]) w) (catch_up slot cur w)"
proof (induction slot cur w rule: catch_up.induct)
  case (1 slot cur w)
  show ?case
  proof (cases "slot < cur")
    case True
    with 1 [OF True, of "observe_slot slot w"] show ?thesis
      by (subst catch_up.simps) (simp add: processSlot_def io_wp_bind io_rules Let_def slots_upt_Cons del: upt_Suc)
  next
    case False
    then have "[unat slot ..< unat cur] = []" by (subst upt_rec) (simp add: word_less_nat_alt)
    with False show ?thesis by (subst catch_up.simps) (simp del: upt_eq_Nil_conv)
  qed
qed

lemma gap_report_result:
  "io_all (\<lambda>w'. w' = fold observe_slot (map of_nat [unat (lw_LastProcessedSlot w + 1) ..< unat cur]) w) (gap_report cur w)"
  unfolding gap_report_def Let_def
  by (simp add: io_rules io_wp_bind) (rule io_wp_mono [OF catch_up_result], simp add: io_rules)


text \<open>The slots after \<open>lo\<close> up to \<open>hi\<close>.\<close>

definition slots_after :: "uint64 \<Rightarrow> uint64 \<Rightarrow> uint64 list" where
  "slots_after lo hi = map of_nat [Suc (unat lo) ..< Suc (unat hi)]"

lemma slots_after_append:
  assumes "lo \<le> mid" "mid \<le> hi"
  shows "slots_after lo hi = slots_after lo mid @ slots_after mid hi"
proof -
  obtain k where "unat hi = unat mid + k" using assms(2) by (metis le_Suc_ex word_le_nat_alt)
  with assms(1) upt_add_eq_append [of "Suc (unat lo)" "Suc (unat mid)" k] show ?thesis
    by (simp add: slots_after_def word_le_nat_alt del: upt_Suc)
qed

lemma observe_slot_commutes [simp]:
  "observe_slot slot (w\<lparr>lw_TickCount := t\<rparr>) = (observe_slot slot w)\<lparr>lw_TickCount := t\<rparr>"
  "observe_slot slot (w\<lparr>lw_LastNano := n\<rparr>) = (observe_slot slot w)\<lparr>lw_LastNano := n\<rparr>"
  "observe_slot slot (w\<lparr>lw_LastProcessedSlot := l\<rparr>) = (observe_slot slot w)\<lparr>lw_LastProcessedSlot := l\<rparr>"
  by (simp_all add: observe_slot_def Let_def)

lemma observe_slot_fields [simp]:
  "lw_TickCount (observe_slot slot w) = lw_TickCount w" "lw_BirthNano (observe_slot slot w) = lw_BirthNano w"
  "lw_LastProcessedSlot (observe_slot slot w) = lw_LastProcessedSlot w"
  by (simp_all add: observe_slot_def Let_def)

lemma observe_slots_commute [simp]:
  "fold observe_slot slots (w\<lparr>lw_TickCount := t\<rparr>) = (fold observe_slot slots w)\<lparr>lw_TickCount := t\<rparr>"
  "fold observe_slot slots (w\<lparr>lw_LastNano := n\<rparr>) = (fold observe_slot slots w)\<lparr>lw_LastNano := n\<rparr>"
  "fold observe_slot slots (w\<lparr>lw_LastProcessedSlot := l\<rparr>) = (fold observe_slot slots w)\<lparr>lw_LastProcessedSlot := l\<rparr>"
  by (induction slots arbitrary: w) simp_all

lemma observe_slots_fields [simp]:
  "lw_TickCount (fold observe_slot slots w) = lw_TickCount w" "lw_BirthNano (fold observe_slot slots w) = lw_BirthNano w"
  "lw_LastProcessedSlot (fold observe_slot slots w) = lw_LastProcessedSlot w"
  by (induction slots arbitrary: w) simp_all

abbreviation slot_at :: "int64 \<Rightarrow> int64 \<Rightarrow> uint64" where
  "slot_at birth now \<equiv> div_i64 (now - birth) 1000000000"

definition advanced :: "int64 \<Rightarrow> uint64 \<Rightarrow> LiquidationWatcher \<Rightarrow> LiquidationWatcher" where
  "advanced now cur w = (fold observe_slot (slots_after (lw_LastProcessedSlot w) cur) w)\<lparr>lw_LastNano := now, lw_LastProcessedSlot := cur\<rparr>"

lemma gap_then_live:
  assumes "lw_LastProcessedSlot w < cur"
  shows "io_all (\<lambda>w'. observe_slot cur w' = fold observe_slot (slots_after (lw_LastProcessedSlot w) cur) w)
    (if cur > lw_LastProcessedSlot w + 1 then gap_report cur w else Done w)"
proof -
  let ?l = "lw_LastProcessedSlot w"
  have next_slot: "unat (?l + 1) = Suc (unat ?l)" "Suc (unat ?l) \<le> unat cur" using assms by unat_arith+
  then have slots: "slots_after ?l cur = map of_nat [unat (?l + 1) ..< unat cur] @ [cur]" by (simp add: slots_after_def)
  show ?thesis
  proof (cases "cur > ?l + 1")
    case True
    then show ?thesis by (simp add: slots) (rule io_wp_mono [OF gap_report_result], simp)
  next
    case False
    then have "unat cur = unat (?l + 1)" using next_slot by (simp add: not_less word_le_nat_alt)
    with False show ?thesis by (simp add: slots)
  qed
qed

lemma tick_result:
  assumes "lw_TickCount w \<noteq> 0" "lw_BirthNano w \<noteq> 0" "lw_LastProcessedSlot w < slot_at (lw_BirthNano w) now"
  shows "io_all (\<lambda>r. snd r = advanced now (slot_at (lw_BirthNano w) now) (w\<lparr>lw_TickCount := lw_TickCount w + 1\<rparr>))
    (watcher_act now (w\<lparr>lw_TickCount := lw_TickCount w + 1\<rparr>))"
proof -
  let ?w = "w\<lparr>lw_TickCount := lw_TickCount w + 1, lw_LastNano := now\<rparr>"
  have "io_all (\<lambda>w'. observe_slot (slot_at (lw_BirthNano w) now) w' =
      fold observe_slot (slots_after (lw_LastProcessedSlot ?w) (slot_at (lw_BirthNano w) now)) ?w)
    (if slot_at (lw_BirthNano w) now > lw_LastProcessedSlot ?w + 1 then gap_report (slot_at (lw_BirthNano w) now) ?w else Done ?w)"
    using assms by (intro gap_then_live) simp
  then show ?thesis
    using assms(1,2) unfolding watcher_act_def Let_def
    by (simp cong: if_cong split del: if_split) (erule io_all_bindI, simp add: processSlot_def io_wp_bind io_rules advanced_def Let_def)
qed


lemma follow_Tick:
  assumes "follow (watcher_Tick w) as = (tr, Returned r)" "trace_ok tr"
  obtains a as' tr' where "as = a # as'" "tr = (CallClockNow, a) # tr'" "an_num a \<noteq> 0"
    "follow (watcher_act (an_num a) (w\<lparr>lw_TickCount := lw_TickCount w + 1\<rparr>)) as' = (tr', Returned r)" "trace_ok tr'"
  using assms by (cases as) (auto simp: watcher_Tick_def sdk_ClockNow_def Let_def answer_ok_def split: prod.splits)

section \<open>Catching up and continuous ticking\<close>

text \<open>The times at which the ticks of a schedule start, and the slots they fall in.\<close>

definition tick_slots :: "int64 \<Rightarrow> sdk_answer list list \<Rightarrow> uint64 list" where
  "tick_slots birth schedule = map (\<lambda>as. slot_at birth (an_num (hd as))) schedule"

lemma life_LTick:
  assumes "life_step watcher_code zero (LTick as) l = Some l'" "trace_ok (lf_trace l')"
  obtains tr again where "follow (watcher_Tick (lf_agent l)) as = (tr, Returned (again, lf_agent l'))" "trace_ok tr"
    "lf_trace l' = lf_trace l @ tr"
  using assms by (auto simp: watcher_code_def split: prod.splits outcome.splits)

lemma advanced_count: "advanced now cur (w\<lparr>lw_TickCount := t\<rparr>) = (advanced now cur w)\<lparr>lw_TickCount := t\<rparr>"
  by (simp add: advanced_def)

lemma advanced_twice:
  assumes "lw_LastProcessedSlot w \<le> mid" "mid \<le> hi"
  shows "advanced n2 hi (advanced n1 mid w) = advanced n2 hi w"
  using slots_after_append [OF assms] by (simp add: advanced_def)

lemma one_step:
  assumes "life_step watcher_code zero (LTick as) l = Some l'" "trace_ok (lf_trace l')"
    and "lw_TickCount (lf_agent l) \<noteq> 0" "lw_BirthNano (lf_agent l) \<noteq> 0"
    "lw_LastProcessedSlot (lf_agent l) < slot_at (lw_BirthNano (lf_agent l)) (an_num (hd as))"
  shows "lf_agent l' = advanced (an_num (hd as)) (slot_at (lw_BirthNano (lf_agent l)) (an_num (hd as)))
    ((lf_agent l)\<lparr>lw_TickCount := lw_TickCount (lf_agent l) + 1\<rparr>)"
proof -
  obtain tr again where f: "follow (watcher_Tick (lf_agent l)) as = (tr, Returned (again, lf_agent l'))" "trace_ok tr"
    using assms(1,2) by (rule life_LTick)
  then obtain a as' tr' where "as = a # as'" "trace_ok tr'" and
    act: "follow (watcher_act (an_num a) ((lf_agent l)\<lparr>lw_TickCount := lw_TickCount (lf_agent l) + 1\<rparr>)) as' = (tr', Returned (again, lf_agent l'))"
    by (rule follow_Tick)
  with io_all_follow [OF tick_result act] assms(3-5) show ?thesis by simp
qed

lemma schedule_result:
  assumes "life_run watcher_code zero (map LTick schedule) l = Some l'" "trace_ok (lf_trace l')"
    and "w = lf_agent l" "0 < unat (lw_TickCount w)" "unat (lw_TickCount w) + length schedule < 2 ^ 64" "lw_BirthNano w \<noteq> 0"
    and "sorted_wrt (<) (lw_LastProcessedSlot w # tick_slots (lw_BirthNano w) schedule)" "schedule \<noteq> []"
  shows "lf_agent l' = advanced (an_num (hd (last schedule))) (last (tick_slots (lw_BirthNano w) schedule))
    (w\<lparr>lw_TickCount := lw_TickCount w + of_nat (length schedule)\<rparr>)"
  using assms
proof (induction schedule arbitrary: l w)
  case (Cons as schedule)
  from Cons.prems(1,2) obtain l1 where l1: "life_step watcher_code zero (LTick as) l = Some l1"
    "life_run watcher_code zero (map LTick schedule) l1 = Some l'" "trace_ok (lf_trace l1)"
    unfolding list.map by (rule life_run_Cons)
  let ?s = "slot_at (lw_BirthNano w) (an_num (hd as))"
  have nz: "lw_TickCount w \<noteq> 0" using Cons.prems(4) by auto
  have w1: "lf_agent l1 = advanced (an_num (hd as)) ?s (w\<lparr>lw_TickCount := lw_TickCount w + 1\<rparr>)"
    using one_step [OF l1(1,3)] Cons.prems nz by (simp add: tick_slots_def)
  show ?case
  proof (cases "schedule = []")
    case True
    with l1 w1 show ?thesis by (simp add: tick_slots_def)
  next
    case False
    have count: "unat (lw_TickCount w + 1) = unat (lw_TickCount w) + 1" using Cons.prems(5) by (simp add: unat_word_ariths)
    have "lf_agent l' = advanced (an_num (hd (last schedule))) (last (tick_slots (lw_BirthNano w) schedule))
      ((lf_agent l1)\<lparr>lw_TickCount := lw_TickCount w + 1 + of_nat (length schedule)\<rparr>)"
      using Cons.IH [OF l1(2) Cons.prems(2) refl] Cons.prems False w1 count by (simp add: advanced_def tick_slots_def)
    moreover have "lw_LastProcessedSlot w \<le> ?s" "?s \<le> last (tick_slots (lw_BirthNano w) schedule)"
      using Cons.prems(7) False by (simp_all add: tick_slots_def last_map less_imp_le)
    ultimately show ?thesis
      using advanced_twice [of w] False w1 by (simp add: tick_slots_def advanced_count algebra_simps)
  qed
qed simp


text \<open>
  C28 Catching up is the same as having been there: from the same state, any two schedules of ticks that end in the same slot, one that
  ticks every second and one that sleeps through any number of slots in between, leave the agent in the same state, up to the tick
  counter and the time of the last tick; in particular prices, extremes, warnings and the count of processed slots agree.
\<close>

theorem catch_up_is_continuous:
  assumes "life_run watcher_code zero (map LTick sparse) l = Some l1" "trace_ok (lf_trace l1)"
    and "life_run watcher_code zero (map LTick dense) l = Some l2" "trace_ok (lf_trace l2)"
    and "w = lf_agent l" "0 < unat (lw_TickCount w)" "lw_BirthNano w \<noteq> 0"
    "unat (lw_TickCount w) + length sparse < 2 ^ 64" "unat (lw_TickCount w) + length dense < 2 ^ 64"
    and "sorted_wrt (<) (lw_LastProcessedSlot w # tick_slots (lw_BirthNano w) sparse)" "sparse \<noteq> []"
    and "sorted_wrt (<) (lw_LastProcessedSlot w # tick_slots (lw_BirthNano w) dense)" "dense \<noteq> []"
    and "last (tick_slots (lw_BirthNano w) sparse) = last (tick_slots (lw_BirthNano w) dense)"
  shows "(lf_agent l1)\<lparr>lw_TickCount := 0, lw_LastNano := 0\<rparr> = (lf_agent l2)\<lparr>lw_TickCount := 0, lw_LastNano := 0\<rparr>"
  using schedule_result [OF assms(1,2,5,6,8,7,10,11)] schedule_result [OF assms(3,4,5,6,9,7,12,13)] assms(14)
  by (simp add: advanced_def)

section \<open>The breach is not missed\<close>

lemma price_range_table: "list_all (\<lambda>n. 154000 \<le> priceAtSlot (of_nat n) \<and> priceAtSlot (of_nat n) \<le> 205000) [0..<56]"
  by code_simp

lemma price_range: "154000 \<le> priceAtSlot slot \<and> priceAtSlot slot \<le> 205000"
proof (cases "55 < slot")
  case True
  from price_beyond [OF this] show ?thesis by simp
next
  case False
  then have "unat slot < 56" by (simp add: not_less word_le_nat_alt)
  with price_range_table show ?thesis
    by (simp only: list_all_iff set_upt) (drule bspec [of _ _ "unat slot"], simp_all)
qed

lemma price_at_breach: "priceAtSlot 38 = 154000"
  by code_simp

definition in_band :: "LiquidationWatcher \<Rightarrow> bool" where
  "in_band w \<longleftrightarrow> (lw_FirstWarningSlot w = 0 \<or> lw_FirstWarningSlot w = 38 \<and> lw_PriceLow w = 154000) \<and>
     (lw_PriceLow w = 0 \<or> 154000 \<le> lw_PriceLow w) \<and> lw_PriceHigh w \<le> 205000"

definition watcher_good :: "LiquidationWatcher \<Rightarrow> bool" where
  "watcher_good w \<longleftrightarrow> in_band w \<and> (38 \<le> lw_LastProcessedSlot w \<longrightarrow> lw_FirstWarningSlot w = 38)"

lemma observe_first: "lw_FirstWarningSlot (observe_slot slot w) = (if lw_FirstWarningSlot w = 0 \<and> slot = 38 then 38 else lw_FirstWarningSlot w)"
  by (simp add: observe_slot_def Let_def price_below_threshold)

lemma observe_extremes:
  "lw_PriceLow (observe_slot slot w) = (if lw_PriceLow w = 0 \<or> priceAtSlot slot < lw_PriceLow w then priceAtSlot slot else lw_PriceLow w)"
  "lw_PriceHigh (observe_slot slot w) = (if lw_PriceHigh w = 0 \<or> priceAtSlot slot > lw_PriceHigh w then priceAtSlot slot else lw_PriceHigh w)"
  by (simp_all add: observe_slot_def Let_def)

lemma observe_in_band:
  assumes "in_band w"
  shows "in_band (observe_slot slot w)"
proof -
  note p = price_range [of slot]
  from assms have low: "lw_PriceLow w = 0 \<or> 154000 \<le> lw_PriceLow w" and high: "lw_PriceHigh w \<le> 205000"
    and first: "lw_FirstWarningSlot w = 0 \<or> lw_FirstWarningSlot w = 38 \<and> lw_PriceLow w = 154000" by (simp_all add: in_band_def)
  have "lw_PriceHigh (observe_slot slot w) \<le> 205000" using high p by (simp add: observe_extremes)
  moreover have "154000 \<le> lw_PriceLow (observe_slot slot w)" using low p by (auto simp: observe_extremes)
  moreover have "lw_PriceLow (observe_slot slot w) = 154000" if "slot = 38"
    using low price_at_breach that by (auto simp: observe_extremes)
  moreover have "lw_PriceLow (observe_slot slot w) = 154000" if "lw_PriceLow w = 154000"
    using p that by (auto simp: observe_extremes)
  ultimately show ?thesis unfolding in_band_def observe_first using first by auto
qed

lemma observe_all_in_band: "in_band w \<Longrightarrow> in_band (fold observe_slot slots w)"
  by (induction slots arbitrary: w) (simp_all add: observe_in_band)

lemma observe_all_first:
  "lw_FirstWarningSlot (fold observe_slot slots w) = (if lw_FirstWarningSlot w = 0 \<and> 38 \<in> set slots then 38 else lw_FirstWarningSlot w)"
  by (induction slots arbitrary: w) (auto simp: observe_first)


lemma catch_up_good:
  assumes "watcher_good w" "cur > lw_LastProcessedSlot w + 1"
  shows "watcher_good ((observe_slot cur (fold observe_slot (map of_nat [unat (lw_LastProcessedSlot w + 1) ..< unat cur]) w))\<lparr>lw_LastProcessedSlot := cur\<rparr>)"
proof -
  let ?slots = "map of_nat [unat (lw_LastProcessedSlot w + 1) ..< unat cur] :: uint64 list"
  have *: "38 \<in> set ?slots" if "38 < cur" "lw_LastProcessedSlot w < 38"
  proof -
    have "unat (lw_LastProcessedSlot w + 1) \<le> 38" "38 < unat cur" using that by unat_arith+
    then have "38 \<in> {unat (lw_LastProcessedSlot w + 1) ..< unat cur}" by simp
    then have "of_nat 38 \<in> set ?slots" unfolding set_map set_upt by (rule imageI)
    then show ?thesis by simp
  qed
  have "lw_FirstWarningSlot (observe_slot cur (fold observe_slot ?slots w)) = 38" if "38 \<le> cur"
  proof (cases "38 \<le> lw_LastProcessedSlot w")
    case True
    with assms(1) show ?thesis unfolding observe_first observe_all_first by (simp add: watcher_good_def)
  next
    case False
    with that have "38 < cur \<or> cur = 38" by (auto simp: order.order_iff_strict)
    with False * assms(1) show ?thesis
      unfolding observe_first observe_all_first by (auto simp: watcher_good_def in_band_def not_le)
  qed
  moreover have "in_band (observe_slot cur (fold observe_slot ?slots w))"
    using assms(1) by (simp add: watcher_good_def observe_in_band observe_all_in_band)
  ultimately show ?thesis by (simp add: watcher_good_def in_band_def)
qed

lemma live_good:
  assumes "watcher_good w" "\<not> cur > lw_LastProcessedSlot w + 1"
  shows "watcher_good ((observe_slot cur w)\<lparr>lw_LastProcessedSlot := cur\<rparr>)"
proof -
  have "lw_FirstWarningSlot (observe_slot cur w) = 38" if "38 \<le> cur"
  proof -
    have "cur = 38 \<or> 38 \<le> lw_LastProcessedSlot w" using that assms(2) by unat_arith
    then show ?thesis using assms(1) unfolding observe_first by (auto simp: watcher_good_def in_band_def)
  qed
  with assms(1) observe_in_band [of w cur] show ?thesis by (simp add: watcher_good_def in_band_def)
qed

lemma slots_good:
  assumes "watcher_good w"
  shows "io_all (\<lambda>r. watcher_good (snd r))
    (if lw_TickCount w = 1 then io_bind (processSlot 0 ''live'' w) (\<lambda>w. Done (False, w\<lparr>lw_LastProcessedSlot := 0\<rparr>))
     else io_bind (if cur > lw_LastProcessedSlot w + 1 then gap_report cur w else Done w) (\<lambda>w.
       io_bind (processSlot cur ''live'' w) (\<lambda>w. Done (False, w\<lparr>lw_LastProcessedSlot := cur\<rparr>))))"
proof -
  have zero: "watcher_good ((observe_slot 0 w)\<lparr>lw_LastProcessedSlot := 0\<rparr>)"
    using observe_in_band [of w 0] assms by (simp add: watcher_good_def in_band_def)
  have "io_all (\<lambda>w'. watcher_good ((observe_slot cur w')\<lparr>lw_LastProcessedSlot := cur\<rparr>))
      (if cur > lw_LastProcessedSlot w + 1 then gap_report cur w else Done w)"
  proof (cases "cur > lw_LastProcessedSlot w + 1")
    case True
    from io_wp_mono [OF gap_report_result [of w cur]] catch_up_good [OF assms True] True show ?thesis by simp
  next
    case False
    with live_good [OF assms False] show ?thesis by simp
  qed
  then have "io_all (\<lambda>r. watcher_good (snd r)) (io_bind (if cur > lw_LastProcessedSlot w + 1 then gap_report cur w else Done w)
      (\<lambda>w. io_bind (processSlot cur ''live'' w) (\<lambda>w. Done (False, w\<lparr>lw_LastProcessedSlot := cur\<rparr>))))"
    by (rule io_all_bindI) (simp add: processSlot_def io_wp_bind io_rules Let_def)
  with zero show ?thesis by (simp add: processSlot_def io_wp_bind io_rules Let_def)
qed

lemma watcher_act_good:
  assumes "watcher_good w"
  shows "io_all (\<lambda>r. watcher_good (snd r)) (watcher_act now w)"
proof -
  have "watcher_good ((if lw_BirthNano w = 0 then w\<lparr>lw_BirthNano := now\<rparr> else w)\<lparr>lw_LastNano := now\<rparr>)"
    using assms by (simp add: watcher_good_def in_band_def)
  then show ?thesis unfolding watcher_act_def Let_def by (rule slots_good)
qed

lemma watcher_tick_good:
  assumes "watcher_good w"
  shows "io_all (\<lambda>r. watcher_good (snd r)) (watcher_Tick w)"
proof -
  have "watcher_good (w\<lparr>lw_TickCount := lw_TickCount w + 1\<rparr>)" using assms by (simp add: watcher_good_def in_band_def)
  then show ?thesis by (simp add: watcher_Tick_def io_rules Let_def watcher_act_good)
qed

lemma watcher_Marshal_wire:
  "watcher_Marshal w = put_u64 (lw_TickCount w) @ put_u64 (lw_BirthNano w) @ put_u64 (lw_LastNano w) @ put_u64 (lw_LastProcessedSlot w) @
     put_u64 (lw_PriceLatest w) @ put_u64 (lw_PriceHigh w) @ put_u64 (lw_PriceLow w) @ put_u64 (lw_FirstWarningSlot w) @
     put_u32 (lw_WarningActive w) @ put_u32 (lw_SlotsProcessed w) @ []"
  by (simp add: watcher_Marshal_def Encoder_Finish_def NewEncoder_def codec_appends)

lemma watcher_restored: "watcher_Unmarshal (watcher_Marshal w) zero_watcher = Inr w"
proof -
  have "decoder_at (put_u64 (lw_TickCount w) @ put_u64 (lw_BirthNano w) @ put_u64 (lw_LastNano w) @ put_u64 (lw_LastProcessedSlot w) @
     put_u64 (lw_PriceLatest w) @ put_u64 (lw_PriceHigh w) @ put_u64 (lw_PriceLow w) @ put_u64 (lw_FirstWarningSlot w) @
     put_u32 (lw_WarningActive w) @ put_u32 (lw_SlotsProcessed w) @ []) (NewDecoder (watcher_Marshal w))"
    by (simp only: watcher_Marshal_wire decoder_at_New)
  then show ?thesis
    unfolding watcher_Unmarshal_def Let_def
    by (elim field_reads) (simp_all add: decoder_at_Err zero_watcher_def)
qed

interpretation watcher: resumable_agent watcher_code zero_watcher watcher_good
proof unfold_locales
  fix w assume "watcher_good w"
  then show "io_all (\<lambda>(again, w'). watcher_good w') (ag_Tick watcher_code w)"
    using io_wp_mono [OF watcher_tick_good] by (fastforce simp: watcher_code_def)
qed (simp_all add: watcher_code_def watcher_restored, simp_all add: zero_watcher_def watcher_good_def in_band_def watcher_Marshal_wire)

text \<open>
  The breach of the threshold is not missed: in every state a watcher reaches, through any ticks however far apart, checkpoints,
  crashes in the middle of a catch-up and resumes, once it has processed slot 38 or a later one it has recorded slot 38 as the first
  breach and the price of that slot as the lowest; before, it has recorded no breach or that one.  This holds whatever the clock says.
\<close>

theorem breach_not_missed:
  assumes "life_run watcher_code zero_watcher evs \<lparr>lf_agent = zero_watcher, lf_ckpt = None, lf_trace = []\<rparr> = Some l"
    and "trace_ok (lf_trace l)" "w = lf_agent l"
  shows "(38 \<le> lw_LastProcessedSlot w \<longrightarrow> lw_FirstWarningSlot w = 38) \<and>
    (lw_FirstWarningSlot w = 0 \<or> lw_FirstWarningSlot w = 38 \<and> lw_PriceLow w = priceAtSlot 38)"
proof -
  have "watcher.good_life \<lparr>lf_agent = zero_watcher, lf_ckpt = None, lf_trace = []\<rparr>"
    using watcher.good_start(1) by (simp add: watcher.good_life_def)
  from watcher.life_run_good [OF this assms(1,2)] assms(3) price_at_breach show ?thesis
    by (simp add: watcher.good_life_def watcher_good_def in_band_def)
qed


section \<open>A clock that is set back\<close>

lemma slot_line_nonempty: "slot_line slot mode w \<noteq> ''''"
  by (simp add: slot_line_def Let_def split: prod.split)

lemma catch_up_stalls: "stalls (unat cur - unat slot) (catch_up slot cur w)"
proof (induction slot cur w rule: catch_up.induct)
  case (1 slot cur w)
  show ?case
  proof (cases "slot < cur")
    case True
    then have "unat cur - unat slot = Suc (unat cur - unat (slot + 1))" by unat_arith
    with 1 [OF True] True show ?thesis
      by (subst catch_up.simps) (simp add: processSlot_def sdk_Log_def slot_line_nonempty Let_def stalls_Ask)
  qed (simp add: word_less_nat_alt)
qed

lemma gap_report_stalls: "stalls (unat cur - unat (lw_LastProcessedSlot w + 1)) (gap_report cur w)"
  unfolding gap_report_def Let_def by (intro stalls_Log stalls_bind catch_up_stalls)

text \<open>The conversion of a negative age to an unsigned slot.\<close>

lemma slot_before_birth:
  assumes "0 \<le> sint now" "sint now + 1000000000 \<le> sint birth"
  shows "2 ^ 63 \<le> unat (slot_at birth now)"
proof -
  have "sint birth < 2 ^ 63" using sint_less [of birth] by simp
  then have age: "sint (now - birth) = sint now - sint birth" using assms by (simp add: sint_word_ariths signed_take_bit_int_eq_self)
  define q where "q = (sint birth - sint now) div 1000000000"
  have "(sint now - sint birth) sdiv 1000000000 = - q"
    using assms by (simp add: q_def signed_divide_int_def sgn_if)
  then have "slot_at birth now = word_of_int (- q)" by (simp add: div_i64_def age)
  moreover have "1 \<le> q" "q \<le> 2 ^ 63"
    using assms \<open>sint birth < 2 ^ 63\<close> by (simp_all add: q_def le_div_geq)
  moreover from this have "(- q) mod 2 ^ 64 = 2 ^ 64 - q"
    by (subst minus_mod_self1 [symmetric], intro mod_pos_pos_trivial) simp_all
  ultimately have "uint (slot_at birth now) = 2 ^ 64 - q" by (simp only: uint_word_of_int) simp
  with \<open>q \<le> 2 ^ 63\<close> show ?thesis by (simp add: unat_eq_nat_uint le_nat_iff)
qed

text \<open>
  A clock that stands more than a second before the agent's birth makes the next tick run away: the age is
  negative, its conversion to an unsigned slot number gives one near 2^64, and the tick replays all the slots up to there.  It asks
  for more than 2^62 log calls before it can return, so no tick that is given fewer answers completes, and no checkpoint is taken after it.
\<close>

theorem clock_before_birth_stalls:
  assumes "0 \<le> sint (an_num a)" "sint (an_num a) + 1000000000 \<le> sint (lw_BirthNano w)"
    and "lw_TickCount w \<noteq> 0" "unat (lw_LastProcessedSlot w) < 2 ^ 62" "length as < 2 ^ 62"
  shows "snd (follow (watcher_Tick w) (a # as)) = Stopped"
proof -
  let ?cur = "slot_at (lw_BirthNano w) (an_num a)" and ?w = "w\<lparr>lw_TickCount := lw_TickCount w + 1, lw_LastNano := an_num a\<rparr>"
  have born: "lw_BirthNano w \<noteq> 0" using assms(1,2) by auto
  have big: "2 ^ 63 \<le> unat ?cur" using slot_before_birth [OF assms(1,2)] .
  have next_slot: "unat (lw_LastProcessedSlot w + 1) \<le> 2 ^ 62" using assms(4) by (simp add: unat_word_ariths)
  have "stalls (2 ^ 62) (gap_report ?cur ?w)"
    by (rule stalls_mono [OF gap_report_stalls]) (use big next_slot in simp)
  moreover have "lw_LastProcessedSlot w + 1 < ?cur" using big next_slot by (simp add: word_less_nat_alt)
  ultimately have "stalls (2 ^ 62) (watcher_act (an_num a) (w\<lparr>lw_TickCount := lw_TickCount w + 1\<rparr>))"
    using assms(3) born by (simp add: watcher_act_def Let_def stalls_bind)
  with assms(5) show ?thesis
    by (simp add: watcher_Tick_def sdk_ClockNow_def Let_def stalls_def case_prod_beta)
qed


section \<open>Every tick can be completed\<close>

lemma catch_up_returns: "io_must C (\<lambda>_. True) (catch_up slot cur w)"
proof (induction slot cur w rule: catch_up.induct)
  case (1 slot cur w)
  show ?case
  proof (cases "slot < cur")
    case True
    with 1 [OF True] show ?thesis by (subst catch_up.simps) (simp add: processSlot_def must_bind must_rules Let_def)
  qed (subst catch_up.simps, simp)
qed

lemma gap_report_returns: "io_must C (\<lambda>_. True) (gap_report cur w)"
  unfolding gap_report_def Let_def
  by (intro must_rules) (simp add: must_bind must_rules must_mono [OF catch_up_returns])

lemma watcher_act_returns: "io_must C (\<lambda>_. True) (watcher_act now w)"
  unfolding watcher_act_def Let_def
  by (simp add: processSlot_def must_bind must_rules must_mono [OF gap_report_returns] Let_def)

lemma tick_possible:
  assumes "answer_ok CallClockNow a" "trace_ok (lf_trace l)"
  shows "\<exists>as l'. life_step watcher_code zero (LTick (a # as)) l = Some l' \<and> trace_ok (lf_trace l')"
proof -
  let ?w = "(lf_agent l)\<lparr>lw_TickCount := lw_TickCount (lf_agent l) + 1\<rparr>"
  have "\<exists>a. answer_ok c a" for c by (rule exI [of _ plain_answer]) (simp add: answer_ok_def)
  with must_follow [OF watcher_act_returns, of "\<lambda>_ _. True" "an_num a" ?w] obtain as tr again w
    where "follow (watcher_act (an_num a) ?w) as = (tr, Returned (again, w))" "trace_ok tr" by auto
  with assms show ?thesis
    by (intro exI [of _ as]) (simp add: watcher_code_def watcher_Tick_def sdk_ClockNow_def Let_def)
qed

definition clock_at :: "int64 \<Rightarrow> sdk_answer" where
  "clock_at n = \<lparr>an_num = n, an_bytes = [], an_err = None\<rparr>"

definition born_watcher :: LiquidationWatcher where
  "born_watcher = zero_watcher\<lparr>lw_TickCount := 1, lw_BirthNano := 5000000000\<rparr>"

lemma clock_at_ok: "n \<noteq> 0 \<Longrightarrow> answer_ok CallClockNow (clock_at n)"
  by (simp add: answer_ok_def clock_at_def)

lemma example_slots: "div_i64 1000000000 1000000000 = 1" "div_i64 2000000000 1000000000 = 2"
  by code_simp+

theorem catch_up_is_continuous_witness:
  "\<exists>as as1 as2 l l1 l2. lf_agent l = born_watcher \<and>
     life_run watcher_code zero_watcher (map LTick [clock_at 7000000000 # as]) l = Some l1 \<and>
     life_run watcher_code zero_watcher (map LTick [clock_at 6000000000 # as1, clock_at 7000000000 # as2]) l = Some l2 \<and>
     (lf_agent l1)\<lparr>lw_TickCount := 0, lw_LastNano := 0\<rparr> = (lf_agent l2)\<lparr>lw_TickCount := 0, lw_LastNano := 0\<rparr>"
proof -
  let ?l = "\<lparr>lf_agent = born_watcher, lf_ckpt = None, lf_trace = []\<rparr>"
  obtain as l1 where s1: "life_step watcher_code zero_watcher (LTick (clock_at 7000000000 # as)) ?l = Some l1" "trace_ok (lf_trace l1)"
    using tick_possible [OF clock_at_ok, of 7000000000 ?l] by auto
  obtain as1 m where s2: "life_step watcher_code zero_watcher (LTick (clock_at 6000000000 # as1)) ?l = Some m" "trace_ok (lf_trace m)"
    using tick_possible [OF clock_at_ok, of 6000000000 ?l] by auto
  obtain as2 l2 where s3: "life_step watcher_code zero_watcher (LTick (clock_at 7000000000 # as2)) m = Some l2" "trace_ok (lf_trace l2)"
    using tick_possible [OF clock_at_ok s2(2), of 7000000000] by auto
  have run1: "life_run watcher_code zero_watcher (map LTick [clock_at 7000000000 # as]) ?l = Some l1" using s1 by simp
  have run2: "life_run watcher_code zero_watcher (map LTick [clock_at 6000000000 # as1, clock_at 7000000000 # as2]) ?l = Some l2"
    using s2 s3 by simp
  have "(lf_agent l1)\<lparr>lw_TickCount := 0, lw_LastNano := 0\<rparr> = (lf_agent l2)\<lparr>lw_TickCount := 0, lw_LastNano := 0\<rparr>"
    using catch_up_is_continuous [OF run1 s1(2) run2 s3(2) refl]
    by (simp add: born_watcher_def zero_watcher_def tick_slots_def clock_at_def example_slots)
  moreover have "lf_agent ?l = born_watcher" by simp
  ultimately show ?thesis using run1 run2 by blast
qed

theorem breach_not_missed_witness:
  "\<exists>as l. life_run watcher_code zero_watcher [LTick (clock_at 5 # as), LSave, LCrash []]
       \<lparr>lf_agent = zero_watcher, lf_ckpt = None, lf_trace = []\<rparr> = Some l \<and>
     (38 \<le> lw_LastProcessedSlot (lf_agent l) \<longrightarrow> lw_FirstWarningSlot (lf_agent l) = 38)"
proof -
  let ?l = "\<lparr>lf_agent = zero_watcher, lf_ckpt = None, lf_trace = []\<rparr>"
  obtain as m where s: "life_step watcher_code zero_watcher (LTick (clock_at 5 # as)) ?l = Some m" "trace_ok (lf_trace m)"
    using tick_possible [OF clock_at_ok, of 5 ?l] by auto
  have "watcher.good_life ?l" using watcher.good_start(1) by (simp add: watcher.good_life_def)
  then have "watcher_good (lf_agent m)" using watcher.life_step_good [OF _ s] by (simp add: watcher.good_life_def)
  from watcher.clean_restart [OF this] s
  have run: "life_run watcher_code zero_watcher [LTick (clock_at 5 # as), LSave, LCrash []] ?l =
    Some (m\<lparr>lf_ckpt := Some (ag_Marshal watcher_code (lf_agent m))\<rparr>)" by (simp del: life_step.simps)
  from breach_not_missed [OF run _ refl] s(2) run show ?thesis by fastforce
qed

theorem clock_before_birth_stalls_witness:
  "snd (follow (watcher_Tick born_watcher) (replicate 1000 (clock_at 4000000000))) = Stopped"
proof -
  have "replicate 1000 (clock_at 4000000000) = clock_at 4000000000 # replicate 999 (clock_at 4000000000)"
    by (simp flip: replicate_Suc)
  with clock_before_birth_stalls [of "clock_at 4000000000" born_watcher "replicate 999 (clock_at 4000000000)"] show ?thesis
    by (simp add: clock_at_def born_watcher_def zero_watcher_def)
qed

end
