(* ===== verification/Watchers.thy ===== *)
theory Watchers
  imports Sdk Budget
begin

text \<open>
  The agents that only observe: \<open>src/agents/heartbeat\<close>, \<open>src/agents/research/example\<close> (the survivor) and
  \<open>src/agents/pricewatcher\<close>, with the price watcher's scanner of the exchange's response.  Each is shown to
  satisfy the contract of a resumable agent; the price watcher's extremes bracket its latest price in every
  life, and its scanner reads back every price the response can carry.
\<close>

unbundle bit_operations_syntax

section \<open>Heartbeat\<close>

record Heartbeat =
  hb_TickCount :: uint64
  hb_BirthNano :: int64
  hb_LastNano :: int64
  hb_MessageNum :: uint32

definition zero_heartbeat :: Heartbeat where
  "zero_heartbeat = \<lparr>hb_TickCount = 0, hb_BirthNano = 0, hb_LastNano = 0, hb_MessageNum = 0\<rparr>"

definition heartbeat_Tick :: "Heartbeat \<Rightarrow> (bool \<times> Heartbeat) io" where
  "heartbeat_Tick h =
     (let h = h\<lparr>hb_TickCount := hb_TickCount h + 1\<rparr> in
      sdk_ClockNow (\<lambda>now.
        let h = (if hb_BirthNano h = 0 then h\<lparr>hb_BirthNano := now\<rparr> else h);
            h = h\<lparr>hb_LastNano := now\<rparr>;
            ageSec = div_i64 (hb_LastNano h - hb_BirthNano h) 1000000000
        in sdk_Log (''[heartbeat] tick='' @ fmt_u (hb_TickCount h) @ '' age='' @ fmt_i ageSec @ ''s'')
          (if hb_TickCount h mod 10 = 0 then
             let h = h\<lparr>hb_MessageNum := hb_MessageNum h + 1\<rparr> in
             sdk_Log (''[heartbeat] MILESTONE #'' @ fmt_u (hb_MessageNum h) @ '': survived '' @ fmt_u (hb_TickCount h) @
                      '' ticks across '' @ fmt_i ageSec @ ''s'')
               (Done (False, h))
           else Done (False, h))))"

definition heartbeat_Marshal :: "Heartbeat \<Rightarrow> bytes" where
  "heartbeat_Marshal h =
     Encoder_Finish
       (Encoder_Uint32 (hb_MessageNum h)
       (Encoder_Int64 (hb_LastNano h)
       (Encoder_Int64 (hb_BirthNano h)
       (Encoder_Uint64 (hb_TickCount h) NewEncoder))))"

definition heartbeat_Unmarshal :: "bytes \<Rightarrow> Heartbeat \<Rightarrow> string + Heartbeat" where
  "heartbeat_Unmarshal data h =
     (let d = NewDecoder data;
          (tickCount, d) = Decoder_Uint64 d;
          (birthNano, d) = Decoder_Int64 d;
          (lastNano, d) = Decoder_Int64 d;
          (messageNum, d) = Decoder_Uint32 d
      in case Decoder_Err d of
           Some err \<Rightarrow> Inl (''unmarshal checkpoint: '' @ error_string err)
         | None \<Rightarrow> Inr (h\<lparr>hb_TickCount := tickCount, hb_BirthNano := birthNano, hb_LastNano := lastNano, hb_MessageNum := messageNum\<rparr>))"

definition heartbeat_code :: "Heartbeat agent_code" where
  "heartbeat_code = \<lparr>ag_Init = (\<lambda>h. h), ag_Tick = heartbeat_Tick, ag_Marshal = heartbeat_Marshal, ag_Unmarshal = heartbeat_Unmarshal\<rparr>"

section \<open>Survivor\<close>

record Survivor =
  sv_TickCount :: uint64
  sv_BirthNano :: int64
  sv_LastNano :: int64
  sv_Luck :: uint32

definition zero_survivor :: Survivor where
  "zero_survivor = \<lparr>sv_TickCount = 0, sv_BirthNano = 0, sv_LastNano = 0, sv_Luck = 0\<rparr>"

definition survivor_Tick :: "Survivor \<Rightarrow> (bool \<times> Survivor) io" where
  "survivor_Tick s =
     (let s = s\<lparr>sv_TickCount := sv_TickCount s + 1\<rparr> in
      sdk_ClockNow (\<lambda>now.
        let s = (if sv_BirthNano s = 0 then s\<lparr>sv_BirthNano := now\<rparr> else s);
            s = s\<lparr>sv_LastNano := now\<rparr>
        in sdk_RandBytes (replicate 4 0) (\<lambda>randBuf _.
           let s = s\<lparr>sv_Luck := sv_Luck s XOR get_u32 randBuf\<rparr>;
               ageSec = div_i64 (sv_LastNano s - sv_BirthNano s) 1000000000
           in sdk_Log (''[survivor] tick '' @ fmt_u (sv_TickCount s) @ '' | age '' @ fmt_i ageSec @ ''s | luck 0x'' @ fmt_x (rev (put_u32 (sv_Luck s))))
             (if sv_TickCount s mod 10 = 0
              then sdk_Log (''[survivor] milestone: survived '' @ fmt_u (sv_TickCount s) @ '' ticks'') (Done (False, s))
              else Done (False, s)))))"

definition survivor_Marshal :: "Survivor \<Rightarrow> bytes" where
  "survivor_Marshal s =
     Encoder_Finish
       (Encoder_Uint32 (sv_Luck s)
       (Encoder_Int64 (sv_LastNano s)
       (Encoder_Int64 (sv_BirthNano s)
       (Encoder_Uint64 (sv_TickCount s) NewEncoder))))"

definition survivor_Unmarshal :: "bytes \<Rightarrow> Survivor \<Rightarrow> string + Survivor" where
  "survivor_Unmarshal data s =
     (let d = NewDecoder data;
          (tickCount, d) = Decoder_Uint64 d;
          (birthNano, d) = Decoder_Int64 d;
          (lastNano, d) = Decoder_Int64 d;
          (luck, d) = Decoder_Uint32 d
      in case Decoder_Err d of
           Some err \<Rightarrow> Inl (''unmarshal checkpoint: '' @ error_string err)
         | None \<Rightarrow> Inr (s\<lparr>sv_TickCount := tickCount, sv_BirthNano := birthNano, sv_LastNano := lastNano, sv_Luck := luck\<rparr>))"

definition survivor_code :: "Survivor agent_code" where
  "survivor_code = \<lparr>ag_Init = (\<lambda>s. s), ag_Tick = survivor_Tick, ag_Marshal = survivor_Marshal, ag_Unmarshal = survivor_Unmarshal\<rparr>"

section \<open>The scanner of the price watcher\<close>

text \<open>The inner loop of \<open>indexOf\<close>, from \<open>j\<close> on.\<close>

function match_at :: "string \<Rightarrow> string \<Rightarrow> nat \<Rightarrow> nat \<Rightarrow> bool" where
  "match_at s needle i j =
     (if j < length needle then (if s ! (i + j) \<noteq> needle ! j then False else match_at s needle i (j + 1)) else True)"
  by auto
termination by (relation "measure (\<lambda>(s, needle, i, j). length needle - j)") auto

function index_from :: "string \<Rightarrow> string \<Rightarrow> nat \<Rightarrow> int" where
  "index_from s needle i =
     (if i + length needle \<le> length s then (if match_at s needle i 0 then int i else index_from s needle (i + 1)) else -1)"
  by auto
termination by (relation "measure (\<lambda>(s, needle, i). Suc (length s) - i)") auto

declare match_at.simps [simp del] index_from.simps [simp del]

definition indexOf :: "string \<Rightarrow> string \<Rightarrow> int" where
  "indexOf s needle = (if length needle > length s then -1 else index_from s needle 0)"

text \<open>The loop over the number, on what is left of the body.\<close>

fun scan_number :: "string \<Rightarrow> uint64 \<Rightarrow> uint64 \<Rightarrow> int \<Rightarrow> bool \<Rightarrow> uint64 \<times> uint64 \<times> int" where
  "scan_number [] whole fr fracDigits inFrac = (whole, fr, fracDigits)"
| "scan_number (c # rest) whole fr fracDigits inFrac =
     (if 48 \<le> (of_char c :: nat) \<and> (of_char c :: nat) \<le> 57 then
        (if inFrac then
           (if fracDigits < 2 then scan_number rest whole (fr * 10 + of_nat (of_char c - 48)) (fracDigits + 1) inFrac
            else scan_number rest whole fr fracDigits inFrac)
         else scan_number rest (whole * 10 + of_nat (of_char c - 48)) fr fracDigits inFrac)
      else if c = CHR ''.'' \<and> \<not> inFrac then scan_number rest whole fr fracDigits True
      else (whole, fr, fracDigits))"

function pad_frac :: "uint64 \<Rightarrow> int \<Rightarrow> uint64" where
  "pad_frac fr fracDigits = (if fracDigits < 2 then pad_frac (fr * 10) (fracDigits + 1) else fr)"
  by auto
termination by (relation "measure (\<lambda>(fr, fracDigits). nat (2 - fracDigits))") auto

declare pad_frac.simps [simp del]

definition extractPrice :: "string \<Rightarrow> string \<Rightarrow> uint64" where
  "extractPrice body coin =
     (let key = ''\"'' @ coin @ ''\":{\"usd\":'';
          idx = indexOf body key
      in if idx < 0 then 0
         else
           let start = nat idx + length key in
           if start \<ge> length body then 0
           else
             let (whole, fr, fracDigits) = scan_number (dropWhile (\<lambda>c. c = CHR '' '') (drop start body)) 0 0 0 False
             in whole * 100 + pad_frac fr fracDigits)"

section \<open>Price watcher\<close>

abbreviation apiURL :: string where
  "apiURL \<equiv> ''https://api.coingecko.com/api/v3/simple/price?ids=bitcoin,ethereum&vs_currencies=usd''"

record PriceWatcher =
  pw_TickCount :: uint64
  pw_BirthNano :: int64
  pw_LastNano :: int64
  pw_BTCLatest :: uint64
  pw_BTCHigh :: uint64
  pw_BTCLow :: uint64
  pw_ETHLatest :: uint64
  pw_ETHHigh :: uint64
  pw_ETHLow :: uint64
  pw_ObservationCount :: uint32
  pw_ErrorCount :: uint32

definition zero_pricewatcher :: PriceWatcher where
  "zero_pricewatcher = \<lparr>pw_TickCount = 0, pw_BirthNano = 0, pw_LastNano = 0, pw_BTCLatest = 0, pw_BTCHigh = 0, pw_BTCLow = 0,
     pw_ETHLatest = 0, pw_ETHHigh = 0, pw_ETHLow = 0, pw_ObservationCount = 0, pw_ErrorCount = 0\<rparr>"

definition observe_btc :: "uint64 \<Rightarrow> PriceWatcher \<Rightarrow> PriceWatcher" where
  "observe_btc btc p =
     (if btc > 0 then
        let p = p\<lparr>pw_BTCLatest := btc\<rparr>;
            p = (if pw_BTCHigh p = 0 \<or> btc > pw_BTCHigh p then p\<lparr>pw_BTCHigh := btc\<rparr> else p)
        in if pw_BTCLow p = 0 \<or> btc < pw_BTCLow p then p\<lparr>pw_BTCLow := btc\<rparr> else p
      else p)"

definition observe_eth :: "uint64 \<Rightarrow> PriceWatcher \<Rightarrow> PriceWatcher" where
  "observe_eth eth p =
     (if eth > 0 then
        let p = p\<lparr>pw_ETHLatest := eth\<rparr>;
            p = (if pw_ETHHigh p = 0 \<or> eth > pw_ETHHigh p then p\<lparr>pw_ETHHigh := eth\<rparr> else p)
        in if pw_ETHLow p = 0 \<or> eth < pw_ETHLow p then p\<lparr>pw_ETHLow := eth\<rparr> else p
      else p)"

definition fetch_line :: "int64 \<Rightarrow> PriceWatcher \<Rightarrow> string" where
  "fetch_line ageSec p =
     ''[pricewatcher] tick='' @ fmt_u (pw_TickCount p) @ '' age='' @ fmt_i ageSec @ ''s obs='' @ fmt_u (pw_ObservationCount p) @
     '' FETCH | BTC='' @ dollars (pw_BTCLatest p) @ '' (high='' @ dollars (pw_BTCHigh p) @ '' low='' @ dollars (pw_BTCLow p) @
     '') | ETH='' @ dollars (pw_ETHLatest p) @ '' (high='' @ dollars (pw_ETHHigh p) @ '' low='' @ dollars (pw_ETHLow p) @ '')''"

definition price_failure :: "PriceWatcher \<Rightarrow> string \<Rightarrow> (bool \<times> PriceWatcher) io" where
  "price_failure p what =
     (let p = p\<lparr>pw_ErrorCount := pw_ErrorCount p + 1\<rparr> in
      sdk_Log (''[pricewatcher] tick='' @ fmt_u (pw_TickCount p) @ '' ERROR: '' @ what @ '' (errors='' @ fmt_u (pw_ErrorCount p) @ '')'')
        (Done (False, p)))"

definition price_milestone :: "int64 \<Rightarrow> PriceWatcher \<Rightarrow> (bool \<times> PriceWatcher) io" where
  "price_milestone ageSec p =
     (if pw_TickCount p mod 10 = 0
      then sdk_Log (''[pricewatcher] MILESTONE: '' @ fmt_u (pw_ObservationCount p) @ '' observations across '' @ fmt_i ageSec @ ''s '' @
             [CHR 0xE2, CHR 0x80, CHR 0x94] @ '' this agent remembers everything'') (Done (False, p))
      else Done (False, p))"

text \<open>The part of a tick that fetches, and the rest.\<close>

definition price_fetch :: "int64 \<Rightarrow> PriceWatcher \<Rightarrow> (bool \<times> PriceWatcher) io" where
  "price_fetch ageSec p =
     sdk_HTTPGet apiURL (\<lambda>r.
       case r of
         Inl err \<Rightarrow> price_failure p (''http failed: '' @ error_string err)
       | Inr (status, body) \<Rightarrow>
         if status < 200 \<or> status \<ge> 300 then price_failure p (''http status '' @ dec_int status)
         else
           let btc = extractPrice (string_of_bytes body) ''bitcoin'';
               eth = extractPrice (string_of_bytes body) ''ethereum''
           in if btc = 0 \<and> eth = 0 then price_failure p ''could not parse prices''
              else
                let p = p\<lparr>pw_ObservationCount := pw_ObservationCount p + 1\<rparr>;
                    p = observe_eth eth (observe_btc btc p)
                in sdk_Log (fetch_line ageSec p) (price_milestone ageSec p))"

definition pricewatcher_Tick :: "PriceWatcher \<Rightarrow> (bool \<times> PriceWatcher) io" where
  "pricewatcher_Tick p =
     (let p = p\<lparr>pw_TickCount := pw_TickCount p + 1\<rparr> in
      sdk_ClockNow (\<lambda>now.
        let p = (if pw_BirthNano p = 0 then p\<lparr>pw_BirthNano := now\<rparr> else p);
            p = p\<lparr>pw_LastNano := now\<rparr>;
            ageSec = div_i64 (pw_LastNano p - pw_BirthNano p) 1000000000
        in if pw_TickCount p = 1 \<or> pw_TickCount p mod 10 = 0 then price_fetch ageSec p
           else if pw_TickCount p mod 5 = 0 then
             sdk_Log (''[pricewatcher] tick='' @ fmt_u (pw_TickCount p) @ '' age='' @ fmt_i ageSec @ ''s obs='' @ fmt_u (pw_ObservationCount p) @
                      '' | BTC='' @ dollars (pw_BTCLatest p) @ '' | ETH='' @ dollars (pw_ETHLatest p))
               (price_milestone ageSec p)
           else price_milestone ageSec p))"

definition pricewatcher_Marshal :: "PriceWatcher \<Rightarrow> bytes" where
  "pricewatcher_Marshal p =
     Encoder_Finish
       (Encoder_Uint32 (pw_ErrorCount p)
       (Encoder_Uint32 (pw_ObservationCount p)
       (Encoder_Uint64 (pw_ETHLow p)
       (Encoder_Uint64 (pw_ETHHigh p)
       (Encoder_Uint64 (pw_ETHLatest p)
       (Encoder_Uint64 (pw_BTCLow p)
       (Encoder_Uint64 (pw_BTCHigh p)
       (Encoder_Uint64 (pw_BTCLatest p)
       (Encoder_Int64 (pw_LastNano p)
       (Encoder_Int64 (pw_BirthNano p)
       (Encoder_Uint64 (pw_TickCount p) NewEncoder)))))))))))"

definition pricewatcher_Unmarshal :: "bytes \<Rightarrow> PriceWatcher \<Rightarrow> string + PriceWatcher" where
  "pricewatcher_Unmarshal data p =
     (let d = NewDecoder data;
          (tickCount, d) = Decoder_Uint64 d;
          (birthNano, d) = Decoder_Int64 d;
          (lastNano, d) = Decoder_Int64 d;
          (btcLatest, d) = Decoder_Uint64 d;
          (btcHigh, d) = Decoder_Uint64 d;
          (btcLow, d) = Decoder_Uint64 d;
          (ethLatest, d) = Decoder_Uint64 d;
          (ethHigh, d) = Decoder_Uint64 d;
          (ethLow, d) = Decoder_Uint64 d;
          (observationCount, d) = Decoder_Uint32 d;
          (errorCount, d) = Decoder_Uint32 d
      in case Decoder_Err d of
           Some err \<Rightarrow> Inl (''unmarshal checkpoint: '' @ error_string err)
         | None \<Rightarrow> Inr (p\<lparr>pw_TickCount := tickCount, pw_BirthNano := birthNano, pw_LastNano := lastNano, pw_BTCLatest := btcLatest,
              pw_BTCHigh := btcHigh, pw_BTCLow := btcLow, pw_ETHLatest := ethLatest, pw_ETHHigh := ethHigh, pw_ETHLow := ethLow,
              pw_ObservationCount := observationCount, pw_ErrorCount := errorCount\<rparr>))"

definition pricewatcher_code :: "PriceWatcher agent_code" where
  "pricewatcher_code = \<lparr>ag_Init = (\<lambda>p. p), ag_Tick = pricewatcher_Tick, ag_Marshal = pricewatcher_Marshal, ag_Unmarshal = pricewatcher_Unmarshal\<rparr>"

section \<open>The agents resume where they were\<close>

lemma heartbeat_Marshal_wire:
  "heartbeat_Marshal h = put_u64 (hb_TickCount h) @ put_u64 (hb_BirthNano h) @ put_u64 (hb_LastNano h) @ put_u32 (hb_MessageNum h) @ []"
  by (simp add: heartbeat_Marshal_def Encoder_Finish_def NewEncoder_def codec_appends)

lemma heartbeat_restored: "heartbeat_Unmarshal (heartbeat_Marshal h) zero_heartbeat = Inr h"
proof -
  have "decoder_at (put_u64 (hb_TickCount h) @ put_u64 (hb_BirthNano h) @ put_u64 (hb_LastNano h) @ put_u32 (hb_MessageNum h) @ [])
    (NewDecoder (heartbeat_Marshal h))" by (simp only: heartbeat_Marshal_wire decoder_at_New)
  then show ?thesis
    unfolding heartbeat_Unmarshal_def Let_def by (elim field_reads) (simp_all add: decoder_at_Err zero_heartbeat_def)
qed

lemma io_all_True: "(\<And>x. P x) \<Longrightarrow> io_all P t"
  by (induction t) auto

interpretation heartbeat: resumable_agent heartbeat_code zero_heartbeat "\<lambda>_. True"
  by unfold_locales (simp_all add: heartbeat_code_def heartbeat_restored io_all_True, simp add: heartbeat_Marshal_wire)

lemma survivor_Marshal_wire:
  "survivor_Marshal s = put_u64 (sv_TickCount s) @ put_u64 (sv_BirthNano s) @ put_u64 (sv_LastNano s) @ put_u32 (sv_Luck s) @ []"
  by (simp add: survivor_Marshal_def Encoder_Finish_def NewEncoder_def codec_appends)

lemma survivor_restored: "survivor_Unmarshal (survivor_Marshal s) zero_survivor = Inr s"
proof -
  have "decoder_at (put_u64 (sv_TickCount s) @ put_u64 (sv_BirthNano s) @ put_u64 (sv_LastNano s) @ put_u32 (sv_Luck s) @ [])
    (NewDecoder (survivor_Marshal s))" by (simp only: survivor_Marshal_wire decoder_at_New)
  then show ?thesis
    unfolding survivor_Unmarshal_def Let_def by (elim field_reads) (simp_all add: decoder_at_Err zero_survivor_def)
qed

interpretation survivor: resumable_agent survivor_code zero_survivor "\<lambda>_. True"
  by unfold_locales (simp_all add: survivor_code_def survivor_restored io_all_True, simp add: survivor_Marshal_wire)


section \<open>The extremes bracket the latest price\<close>

definition bracketed :: "uint64 \<Rightarrow> uint64 \<Rightarrow> uint64 \<Rightarrow> bool" where
  "bracketed low latest high \<longleftrightarrow> low = 0 \<and> latest = 0 \<and> high = 0 \<or> 0 < low \<and> low \<le> latest \<and> latest \<le> high"

definition prices_good :: "PriceWatcher \<Rightarrow> bool" where
  "prices_good p \<longleftrightarrow> bracketed (pw_BTCLow p) (pw_BTCLatest p) (pw_BTCHigh p) \<and> bracketed (pw_ETHLow p) (pw_ETHLatest p) (pw_ETHHigh p)"

lemma bracketed_step:
  assumes "bracketed low latest high" "0 < x"
  shows "bracketed (if low = 0 \<or> x < low then x else low) x (if high = 0 \<or> x > high then x else high)"
  using assms by (auto simp: bracketed_def not_less)

lemma observe_btc_good: "prices_good p \<Longrightarrow> prices_good (observe_btc x p)"
  using bracketed_step [of "pw_BTCLow p" "pw_BTCLatest p" "pw_BTCHigh p" x] by (auto simp: prices_good_def observe_btc_def Let_def)

lemma observe_eth_good: "prices_good p \<Longrightarrow> prices_good (observe_eth x p)"
  using bracketed_step [of "pw_ETHLow p" "pw_ETHLatest p" "pw_ETHHigh p" x] by (auto simp: prices_good_def observe_eth_def Let_def)

lemma milestone_result: "io_all (\<lambda>r. prices_good (snd r)) (price_milestone age p) = prices_good p"
  by (simp add: price_milestone_def io_rules)

lemma failure_result: "io_all (\<lambda>r. prices_good (snd r)) (price_failure p what) = prices_good p"
  by (simp add: price_failure_def io_rules Let_def prices_good_def)

lemma fetch_good:
  assumes "prices_good p"
  shows "io_all (\<lambda>r. prices_good (snd r)) (price_fetch age p)"
proof -
  have "prices_good (p\<lparr>pw_ObservationCount := n\<rparr>)" for n using assms by (simp add: prices_good_def)
  then have "prices_good (observe_eth eth (observe_btc btc (p\<lparr>pw_ObservationCount := n\<rparr>)))" for eth btc n
    by (intro observe_eth_good observe_btc_good)
  with assms show ?thesis
    by (simp add: price_fetch_def sdk_HTTPGet_def io_rules milestone_result failure_result Let_def split: option.split)
qed

lemma pricewatcher_tick_good:
  assumes "prices_good p"
  shows "io_all (\<lambda>r. prices_good (snd r)) (pricewatcher_Tick p)"
proof -
  have "prices_good (p\<lparr>pw_TickCount := t, pw_BirthNano := b, pw_LastNano := n\<rparr>)" "prices_good (p\<lparr>pw_TickCount := t, pw_LastNano := n\<rparr>)"
    for t b n using assms by (simp_all add: prices_good_def)
  then show ?thesis by (simp add: pricewatcher_Tick_def io_rules fetch_good milestone_result Let_def)
qed

lemma pricewatcher_Marshal_wire:
  "pricewatcher_Marshal p = put_u64 (pw_TickCount p) @ put_u64 (pw_BirthNano p) @ put_u64 (pw_LastNano p) @ put_u64 (pw_BTCLatest p) @
     put_u64 (pw_BTCHigh p) @ put_u64 (pw_BTCLow p) @ put_u64 (pw_ETHLatest p) @ put_u64 (pw_ETHHigh p) @ put_u64 (pw_ETHLow p) @
     put_u32 (pw_ObservationCount p) @ put_u32 (pw_ErrorCount p) @ []"
  by (simp add: pricewatcher_Marshal_def Encoder_Finish_def NewEncoder_def codec_appends)

lemma pricewatcher_restored: "pricewatcher_Unmarshal (pricewatcher_Marshal p) zero_pricewatcher = Inr p"
proof -
  have "decoder_at (put_u64 (pw_TickCount p) @ put_u64 (pw_BirthNano p) @ put_u64 (pw_LastNano p) @ put_u64 (pw_BTCLatest p) @
     put_u64 (pw_BTCHigh p) @ put_u64 (pw_BTCLow p) @ put_u64 (pw_ETHLatest p) @ put_u64 (pw_ETHHigh p) @ put_u64 (pw_ETHLow p) @
     put_u32 (pw_ObservationCount p) @ put_u32 (pw_ErrorCount p) @ []) (NewDecoder (pricewatcher_Marshal p))"
    by (simp only: pricewatcher_Marshal_wire decoder_at_New)
  then show ?thesis
    unfolding pricewatcher_Unmarshal_def Let_def by (elim field_reads) (simp_all add: decoder_at_Err zero_pricewatcher_def)
qed

interpretation pricewatcher: resumable_agent pricewatcher_code zero_pricewatcher prices_good
proof unfold_locales
  fix p assume "prices_good p"
  then show "io_all (\<lambda>(again, p'). prices_good p') (ag_Tick pricewatcher_code p)"
    using io_wp_mono [OF pricewatcher_tick_good] by (fastforce simp: pricewatcher_code_def)
qed (simp_all add: pricewatcher_code_def pricewatcher_restored,
     simp_all add: zero_pricewatcher_def prices_good_def bracketed_def pricewatcher_Marshal_wire)

text \<open>
  In every state a price watcher reaches, through any ticks, any responses of the exchange (well-formed or not), checkpoints, crashes and
  resumes, each coin's lowest, latest and highest price are in this order, and either all are unset or none is.
\<close>

theorem price_extremes_bracket:
  assumes "life_run pricewatcher_code zero_pricewatcher evs \<lparr>lf_agent = zero_pricewatcher, lf_ckpt = None, lf_trace = []\<rparr> = Some l"
    and "trace_ok (lf_trace l)" "p = lf_agent l"
  shows "bracketed (pw_BTCLow p) (pw_BTCLatest p) (pw_BTCHigh p) \<and> bracketed (pw_ETHLow p) (pw_ETHLatest p) (pw_ETHHigh p)"
proof -
  have "pricewatcher.good_life \<lparr>lf_agent = zero_pricewatcher, lf_ckpt = None, lf_trace = []\<rparr>"
    using pricewatcher.good_start(1) by (simp add: pricewatcher.good_life_def)
  from pricewatcher.life_run_good [OF this assms(1,2)] assms(3) show ?thesis
    by (simp add: pricewatcher.good_life_def prices_good_def)
qed

section \<open>The scanner reads prices\<close>

lemma match_at_iff:
  "i + length needle \<le> length s \<Longrightarrow> match_at s needle i j \<longleftrightarrow> drop j needle = take (length needle - j) (drop (i + j) s)"
proof (induction s needle i j rule: match_at.induct)
  case (1 s needle i j)
  show ?case
  proof (cases "j < length needle")
    case True
    with 1 show ?thesis
      by (subst match_at.simps) (auto simp: Cons_nth_drop_Suc [symmetric] Suc_diff_Suc take_Cons')
  next
    case False
    then show ?thesis by (subst match_at.simps) simp
  qed
qed

lemma index_from_first:
  assumes "take (length needle) (drop k s) = needle" "k + length needle \<le> length s"
    and "\<And>m. i \<le> m \<Longrightarrow> m < k \<Longrightarrow> take (length needle) (drop m s) \<noteq> needle" "i \<le> k"
  shows "index_from s needle i = int k"
  using assms(3,4)
proof (induction "k - i" arbitrary: i)
  case 0
  with assms(1,2) show ?case by (subst index_from.simps) (simp add: match_at_iff)
next
  case (Suc n)
  with assms(2) Suc.prems(1) [of i] have "\<not> match_at s needle i 0" by (simp add: match_at_iff eq_commute)
  with Suc assms(2) show ?case by (subst index_from.simps) simp
qed

definition is_digit :: "char \<Rightarrow> bool" where
  "is_digit c \<longleftrightarrow> 48 \<le> (of_char c :: nat) \<and> (of_char c :: nat) \<le> 57"

lemma scan_whole:
  "list_all is_digit ds \<Longrightarrow>
     scan_number (ds @ rest) (of_nat n) fr fd False = scan_number rest (of_nat (foldl (\<lambda>n c. 10 * n + digit_val c) n ds)) fr fd False"
proof (induction ds arbitrary: n)
  case (Cons c ds)
  have "(of_nat n * 10 + of_nat (of_char c - 48) :: uint64) = of_nat (10 * n + digit_val c)" by (simp add: digit_val_def)
  with Cons show ?case by (simp add: is_digit_def del: of_nat_add of_nat_mult)
qed simp

definition number_ends :: "string \<Rightarrow> bool" where
  "number_ends post \<longleftrightarrow> (case post of [] \<Rightarrow> True | c # _ \<Rightarrow> \<not> is_digit c \<and> c \<noteq> CHR ''.'')"

lemma scan_end: "number_ends post \<Longrightarrow> scan_number post whole fr fd inFrac = (whole, fr, fd)"
  by (cases post) (auto simp: number_ends_def is_digit_def)

lemma scan_extra: "list_all is_digit fs \<Longrightarrow> number_ends post \<Longrightarrow> scan_number (fs @ post) whole fr 2 True = (whole, fr, 2)"
  by (induction fs) (simp_all add: is_digit_def scan_end)

text \<open>The fraction of a number: its first two digits, with zeros where they are missing.\<close>

lemma scan_fraction:
  assumes "list_all is_digit fs" "number_ends post" "scan_number (fs @ post) whole 0 0 True = (w, fr, fd)"
  shows "w = whole \<and> pad_frac fr fd = of_nat (read_dec (take 2 (fs @ ''00'')))"
proof -
  consider "fs = []" | a where "fs = [a]" | a b rest where "fs = a # b # rest" by (metis neq_Nil_conv)
  then show ?thesis
  proof cases
    case 1
    with assms show ?thesis by (simp add: scan_end pad_frac.simps read_dec_def digit_val_def)
  next
    case 2
    with assms show ?thesis by (simp add: is_digit_def scan_end pad_frac.simps read_dec_def digit_val_def algebra_simps)
  next
    case 3
    with assms show ?thesis by (simp add: is_digit_def scan_extra pad_frac.simps read_dec_def digit_val_def algebra_simps)
  qed
qed


abbreviation price_key :: "string \<Rightarrow> string" where
  "price_key coin \<equiv> ''\"'' @ coin @ ''\":{\"usd\":''"

abbreviation decimal :: "string \<Rightarrow> string \<Rightarrow> string" where
  "decimal ds fs \<equiv> ds @ (if fs = [] then [] else CHR ''.'' # fs)"

lemma scan_decimal:
  assumes "list_all is_digit ds" "list_all is_digit fs" "number_ends post"
    and "scan_number (decimal ds fs @ post) 0 0 0 False = (whole, fr, fd)"
  shows "whole * 100 + pad_frac fr fd = of_nat (100 * read_dec ds + read_dec (take 2 (fs @ ''00'')))"
proof -
  let ?w = "of_nat (read_dec ds) :: uint64"
  have "scan_number (ds @ rest) 0 0 0 False = scan_number rest ?w 0 0 False" for rest
    using scan_whole [OF assms(1), of rest 0] by (simp add: read_dec_def)
  with assms(4) have "scan_number ((if fs = [] then [] else CHR ''.'' # fs) @ post) ?w 0 0 False = (whole, fr, fd)" by simp
  moreover have "scan_number ((if fs = [] then [] else CHR ''.'' # fs) @ post) ?w 0 0 False = scan_number (fs @ post) ?w 0 0 True"
    using scan_end [OF assms(3)] by simp
  ultimately show ?thesis using scan_fraction [OF assms(2,3), of ?w whole fr fd] by (simp add: algebra_simps)
qed

text \<open>
  The scanner reads what the exchange writes: where the key of the coin first occurs in the body, and is followed, after any spaces, by a
  decimal number with any number of fraction digits, the result is the price in cents, the fraction cut to two digits and padded, modulo
  2^64 (a number of more than 17 digits wraps silently).
\<close>

theorem extractPrice_correct:
  assumes "body = pre @ price_key coin @ replicate spaces (CHR '' '') @ decimal ds fs @ post"
    and "\<forall>m < length pre. take (length (price_key coin)) (drop m body) \<noteq> price_key coin"
    and "list_all is_digit ds" "ds \<noteq> []" "list_all is_digit fs" "number_ends post"
  shows "extractPrice body coin = of_nat (100 * read_dec ds + read_dec (take 2 (fs @ ''00'')))"
proof -
  let ?rest = "replicate spaces (CHR '' '') @ decimal ds fs @ post"
  define key where "key = price_key coin"
  have body: "body = pre @ key @ ?rest" using assms(1) by (simp add: key_def)
  have "index_from body key 0 = int (length pre)"
    by (rule index_from_first) (use body assms(2) in \<open>auto simp: key_def\<close>)
  then have idx: "indexOf body key = int (length pre)" using body by (simp add: indexOf_def)
  have drop: "drop (length pre + length key) body = ?rest" using body by simp
  have "hd ds \<noteq> CHR '' ''" using assms(3,4) by (cases ds) (auto simp: is_digit_def)
  then have skip: "dropWhile (\<lambda>c. c = CHR '' '') ?rest = decimal ds fs @ post"
    using assms(4) by (cases ds) (simp_all add: dropWhile_append)
  have "length pre + length key < length body" using body assms(4) by simp
  with idx drop skip show ?thesis
    using scan_decimal [OF assms(3,5,6)] unfolding extractPrice_def Let_def key_def [symmetric] by (simp split: prod.split)
qed

theorem extractPrice_correct_witness:
  "extractPrice ''{\"bitcoin\":{\"usd\":83456.78},\"ethereum\":{\"usd\":1923.4}}'' ''ethereum'' = 192340"
proof -
  have "extractPrice (''{\"bitcoin\":{\"usd\":83456.78},'' @ price_key ''ethereum'' @ replicate 0 (CHR '' '') @ decimal ''1923'' ''4'' @ ''}}'') ''ethereum'' =
    of_nat (100 * read_dec ''1923'' + read_dec (take 2 (''4'' @ ''00'')))"
    by (rule extractPrice_correct [where pre = "''{\"bitcoin\":{\"usd\":83456.78},''"]) (rule refl, code_simp+)
  then show ?thesis by (simp add: read_dec_def digit_val_def)
qed

definition example_price_life :: "life_event list" where
  "example_price_life = [LTick (replicate 3 plain_answer), LSave, LCrash []]"

lemma example_price_tick:
  "\<exists>tr p. follow (pricewatcher_Tick zero_pricewatcher) (replicate 3 plain_answer) = (tr, Returned (False, p)) \<and> pw_ErrorCount p = 1 \<and> trace_ok tr"
  by (simp add: pricewatcher_Tick_def price_fetch_def price_failure_def zero_pricewatcher_def sdk_HTTPGet_def follow_rules numeral_3_eq_3
      answer_ok_def Let_def)

theorem price_extremes_bracket_witness:
  "\<exists>l. life_run pricewatcher_code zero_pricewatcher example_price_life \<lparr>lf_agent = zero_pricewatcher, lf_ckpt = None, lf_trace = []\<rparr> = Some l \<and>
     pw_ErrorCount (lf_agent l) = 1 \<and> bracketed (pw_BTCLow (lf_agent l)) (pw_BTCLatest (lf_agent l)) (pw_BTCHigh (lf_agent l))"
proof -
  let ?l = "\<lparr>lf_agent = zero_pricewatcher, lf_ckpt = None, lf_trace = []\<rparr>"
  obtain tr p where f: "follow (pricewatcher_Tick zero_pricewatcher) (replicate 3 plain_answer) = (tr, Returned (False, p))"
    "pw_ErrorCount p = 1" "trace_ok tr" using example_price_tick by blast
  then have "prices_good p"
    using io_all_follow [OF pricewatcher_tick_good f(1)] pricewatcher.good_start(1) by simp
  let ?m = "\<lparr>lf_agent = p, lf_ckpt = None, lf_trace = tr\<rparr>"
  have "life_step pricewatcher_code zero_pricewatcher (LTick (replicate 3 plain_answer)) ?l = Some ?m"
    using f(1) by (simp add: pricewatcher_code_def)
  with pricewatcher.clean_restart [of ?m] \<open>prices_good p\<close> obtain l where
    run: "life_run pricewatcher_code zero_pricewatcher example_price_life ?l = Some l" and l: "lf_agent l = p" "lf_trace l = tr"
    by (simp add: example_price_life_def del: life_step.simps)
  from price_extremes_bracket [OF run] f l run show ?thesis by simp
qed

end
