(* ===== verification/Reconciler.thy ===== *)
theory Reconciler
  imports Sdk
begin

text \<open>
  The agent \<open>src/agents/research/reconciliation\<close>, a state machine that detects a transfer, waits for its confirmations, records
  the intent to finalize it, finalizes it and completes the case.  The main results: against any host it completes
  within eleven ticks; once the intent to finalize is in a checkpoint, every finalization in every later life carries the same
  key, and once the finalization is in a checkpoint none follows; a crash before the intent is saved can finalize
  the same case under two different keys.
\<close>

section \<open>The agent\<close>

abbreviation StateDetectedPendingTransfer :: uint32 where "StateDetectedPendingTransfer \<equiv> 0"
abbreviation StateWaitingConfirmations :: uint32 where "StateWaitingConfirmations \<equiv> 1"
abbreviation StateReadyToFinalize :: uint32 where "StateReadyToFinalize \<equiv> 2"
abbreviation StateFinalized :: uint32 where "StateFinalized \<equiv> 3"
abbreviation StateCompleted :: uint32 where "StateCompleted \<equiv> 4"

abbreviation requiredConfirmations :: uint32 where "requiredConfirmations \<equiv> 6"

record Reconciler_agent =
  rc_State :: uint32
  rc_TickCount :: uint64
  rc_CaseID :: bytes
  rc_Confirmations :: uint32
  rc_RequiredConfs :: uint32
  rc_IdempotencyKey :: bytes
  rc_IntentRecorded :: bool
  rc_FinalizeExecuted :: bool
  rc_AckReceived :: bool
  rc_DupChecked :: bool
  rc_DetectNano :: int64
  rc_FinalizeNano :: int64
  rc_CompleteNano :: int64

definition zero_reconciler :: Reconciler_agent where
  "zero_reconciler = \<lparr>rc_State = 0, rc_TickCount = 0, rc_CaseID = replicate 16 0, rc_Confirmations = 0, rc_RequiredConfs = 0,
     rc_IdempotencyKey = replicate 16 0, rc_IntentRecorded = False, rc_FinalizeExecuted = False, rc_AckReceived = False,
     rc_DupChecked = False, rc_DetectNano = 0, rc_FinalizeNano = 0, rc_CompleteNano = 0\<rparr>"

definition shortHex :: "bytes \<Rightarrow> string" where
  "shortHex b = (if length b < 4 then fmt_x b else fmt_x (take 4 b))"

definition tickDetected :: "int64 \<Rightarrow> Reconciler_agent \<Rightarrow> (bool \<times> Reconciler_agent) io" where
  "tickDetected now r =
     (let r = r\<lparr>rc_DetectNano := now\<rparr> in
      sdk_RandBytes (rc_CaseID r) (\<lambda>buf _.
        let r = r\<lparr>rc_CaseID := buf, rc_RequiredConfs := requiredConfirmations\<rparr>;
            caseHex = shortHex (rc_CaseID r)
        in sdk_Log (''[reconciler] Case '' @ caseHex @ '' detected (source: chain-A, dest: chain-B)'')
          (sdk_Log ''[reconciler] State: DetectedPendingTransfer''
          (Done (True, r\<lparr>rc_State := StateWaitingConfirmations\<rparr>)))))"

definition tickWaitingConfirmations :: "int64 \<Rightarrow> Reconciler_agent \<Rightarrow> (bool \<times> Reconciler_agent) io" where
  "tickWaitingConfirmations now r =
     (let r = r\<lparr>rc_Confirmations := rc_Confirmations r + 1\<rparr>;
          caseHex = shortHex (rc_CaseID r)
      in sdk_Log (''[reconciler] Confirmation '' @ fmt_u (rc_Confirmations r) @ ''/'' @ fmt_u (rc_RequiredConfs r) @ '' for case '' @ caseHex)
        (if rc_Confirmations r \<ge> rc_RequiredConfs r then
           sdk_RandBytes (rc_IdempotencyKey r) (\<lambda>buf _.
             let r = r\<lparr>rc_IdempotencyKey := buf\<rparr>;
                 keyHex = shortHex (rc_IdempotencyKey r)
             in sdk_Log (''[reconciler] Confirmation threshold met ('' @ fmt_u (rc_RequiredConfs r) @ ''/'' @ fmt_u (rc_RequiredConfs r) @ '' blocks)'')
               (sdk_Log ''[reconciler] State: WaitingConfirmations -> ReadyToFinalize''
               (sdk_Log (''[reconciler] Idempotency key generated: '' @ keyHex)
               (Done (True, r\<lparr>rc_State := StateReadyToFinalize\<rparr>)))))
         else Done (True, r)))"

definition finalize_line :: "Reconciler_agent \<Rightarrow> string" where
  "finalize_line r = ''[reconciler] Finalize EXECUTED for case '' @ shortHex (rc_CaseID r) @ '' (key: '' @ shortHex (rc_IdempotencyKey r) @ '')''"

definition tickReadyToFinalize :: "int64 \<Rightarrow> Reconciler_agent \<Rightarrow> (bool \<times> Reconciler_agent) io" where
  "tickReadyToFinalize now r =
     (let keyHex = shortHex (rc_IdempotencyKey r) in
      if \<not> rc_IntentRecorded r then
        let r = r\<lparr>rc_IntentRecorded := True\<rparr> in
        sdk_Log ''[reconciler] Finalize intent recorded''
        (sdk_Log (''[reconciler] Idempotency key: '' @ keyHex)
        (Done (True, r)))
      else if \<not> rc_FinalizeExecuted r then
        let r = r\<lparr>rc_FinalizeExecuted := True, rc_FinalizeNano := now\<rparr> in
        sdk_Log (finalize_line r)
        (sdk_Log ''[reconciler] State: ReadyToFinalize -> Finalized''
        (Done (True, r\<lparr>rc_State := StateFinalized\<rparr>)))
      else Done (True, r))"

definition tickFinalized :: "int64 \<Rightarrow> Reconciler_agent \<Rightarrow> (bool \<times> Reconciler_agent) io" where
  "tickFinalized now r =
     (let keyHex = shortHex (rc_IdempotencyKey r) in
      if \<not> rc_DupChecked r then
        let r = r\<lparr>rc_DupChecked := True\<rparr> in
        if rc_FinalizeExecuted r then
          sdk_Log ''[reconciler] Finalize action SKIPPED''
          (sdk_Log (''[reconciler] Reason: intent '' @ keyHex @ '' already committed'')
          (sdk_Log ''[reconciler] No duplicate execution''
          (Done (True, r))))
        else Done (True, r)
      else if \<not> rc_AckReceived r then
        let r = r\<lparr>rc_AckReceived := True\<rparr> in
        sdk_Log ''[reconciler] Acknowledgment received from chain-B''
        (sdk_Log ''[reconciler] State: Finalized -> Completed''
        (Done (True, r\<lparr>rc_State := StateCompleted\<rparr>)))
      else Done (True, r))"

definition tickCompleted :: "int64 \<Rightarrow> Reconciler_agent \<Rightarrow> (bool \<times> Reconciler_agent) io" where
  "tickCompleted now r =
     (let r = r\<lparr>rc_CompleteNano := now\<rparr>;
          caseHex = shortHex (rc_CaseID r);
          totalDowntime = (if sint (rc_FinalizeNano r) > 0 \<and> sint (rc_CompleteNano r) > sint (rc_FinalizeNano r)
                           then div_i64 (rc_CompleteNano r - rc_FinalizeNano r) 1000000000 else 0)
      in sdk_Log (''[reconciler] Case '' @ caseHex @ '' completed'')
        (sdk_Log ''[reconciler] Side effects executed: 1 (exactly once)''
        (sdk_Log (''[reconciler] Total processing time: '' @ fmt_i totalDowntime @ ''s'')
        (sdk_Log ''[reconciler] State: Completed''
        (Done (False, r))))))"

definition reconciler_Tick :: "Reconciler_agent \<Rightarrow> (bool \<times> Reconciler_agent) io" where
  "reconciler_Tick r =
     (let r = r\<lparr>rc_TickCount := rc_TickCount r + 1\<rparr> in
      sdk_ClockNow (\<lambda>now.
        if rc_State r = StateDetectedPendingTransfer then tickDetected now r
        else if rc_State r = StateWaitingConfirmations then tickWaitingConfirmations now r
        else if rc_State r = StateReadyToFinalize then tickReadyToFinalize now r
        else if rc_State r = StateFinalized then tickFinalized now r
        else if rc_State r = StateCompleted then tickCompleted now r
        else Done (False, r)))"

definition reconciler_Marshal :: "Reconciler_agent \<Rightarrow> bytes" where
  "reconciler_Marshal r =
     Encoder_Finish
       (Encoder_Int64 (rc_CompleteNano r)
       (Encoder_Int64 (rc_FinalizeNano r)
       (Encoder_Int64 (rc_DetectNano r)
       (Encoder_Bool (rc_DupChecked r)
       (Encoder_Bool (rc_AckReceived r)
       (Encoder_Bool (rc_FinalizeExecuted r)
       (Encoder_Bool (rc_IntentRecorded r)
       (Encoder_Bytes (rc_IdempotencyKey r)
       (Encoder_Uint32 (rc_RequiredConfs r)
       (Encoder_Uint32 (rc_Confirmations r)
       (Encoder_Bytes (rc_CaseID r)
       (Encoder_Uint64 (rc_TickCount r)
       (Encoder_Uint32 (rc_State r) NewEncoder)))))))))))))"

text \<open>\<open>copy\<close> into an array.\<close>

definition copy_into :: "bytes \<Rightarrow> bytes \<Rightarrow> bytes" where
  "copy_into dst src = take (length dst) src @ drop (length src) dst"

definition reconciler_Unmarshal :: "bytes \<Rightarrow> Reconciler_agent \<Rightarrow> string + Reconciler_agent" where
  "reconciler_Unmarshal data r =
     (let d = NewDecoder data;
          (state, d) = Decoder_Uint32 d;
          (tickCount, d) = Decoder_Uint64 d;
          (caseID, d) = Decoder_Bytes d;
          (confirmations, d) = Decoder_Uint32 d;
          (requiredConfs, d) = Decoder_Uint32 d;
          (idempotencyKey, d) = Decoder_Bytes d;
          (intentRecorded, d) = Decoder_Bool d;
          (finalizeExecuted, d) = Decoder_Bool d;
          (ackReceived, d) = Decoder_Bool d;
          (dupChecked, d) = Decoder_Bool d;
          (detectNano, d) = Decoder_Int64 d;
          (finalizeNano, d) = Decoder_Int64 d;
          (completeNano, d) = Decoder_Int64 d
      in case Decoder_Err d of
           Some err \<Rightarrow> Inl (''unmarshal checkpoint: '' @ error_string err)
         | None \<Rightarrow> Inr (r\<lparr>rc_State := state, rc_TickCount := tickCount, rc_CaseID := copy_into (rc_CaseID r) caseID,
              rc_Confirmations := confirmations, rc_RequiredConfs := requiredConfs,
              rc_IdempotencyKey := copy_into (rc_IdempotencyKey r) idempotencyKey, rc_IntentRecorded := intentRecorded,
              rc_FinalizeExecuted := finalizeExecuted, rc_AckReceived := ackReceived, rc_DupChecked := dupChecked,
              rc_DetectNano := detectNano, rc_FinalizeNano := finalizeNano, rc_CompleteNano := completeNano\<rparr>))"

definition reconciler_code :: "Reconciler_agent agent_code" where
  "reconciler_code = \<lparr>ag_Init = (\<lambda>r. r), ag_Tick = reconciler_Tick, ag_Marshal = reconciler_Marshal, ag_Unmarshal = reconciler_Unmarshal\<rparr>"

section \<open>The state machine\<close>

text \<open>The abstract machine: the state after \<open>k\<close> ticks of an uninterrupted run, from the twelfth on as after the eleventh.\<close>

definition stage :: "nat \<Rightarrow> Reconciler_agent \<Rightarrow> bool" where
  "stage k r \<longleftrightarrow> length (rc_CaseID r) = 16 \<and> length (rc_IdempotencyKey r) = 16 \<and>
     rc_State r = (if k = 0 then StateDetectedPendingTransfer else if k < 7 then StateWaitingConfirmations
                   else if k < 9 then StateReadyToFinalize else if k < 11 then StateFinalized else StateCompleted) \<and>
     (rc_IntentRecorded r \<longleftrightarrow> 8 \<le> k) \<and> (rc_FinalizeExecuted r \<longleftrightarrow> 9 \<le> k) \<and> (rc_DupChecked r \<longleftrightarrow> 10 \<le> k) \<and> (rc_AckReceived r \<longleftrightarrow> 11 \<le> k) \<and>
     (0 < k \<longrightarrow> rc_RequiredConfs r = requiredConfirmations) \<and> rc_Confirmations r = of_nat (min 6 (k - 1)) \<and> k \<le> 11"

lemma stage_cases:
  assumes "stage k r"
  obtains "k = 0" | "k \<in> {1, 2, 3, 4, 5, 6}" | "k = 7" | "k = 8" | "k = 9" | "k = 10" | "k = 11"
proof -
  have "k \<le> 11" using assms by (simp add: stage_def)
  then have "k = 0 \<or> k \<in> {1, 2, 3, 4, 5, 6} \<or> k = 7 \<or> k = 8 \<or> k = 9 \<or> k = 10 \<or> k = 11" by (simp; arith)
  then show thesis using that by blast
qed

text \<open>One tick advances the machine, keeps the case, keeps the key once it is drawn, and has more to do until the case is completed.\<close>

definition advances :: "nat \<Rightarrow> Reconciler_agent \<Rightarrow> bool \<times> Reconciler_agent \<Rightarrow> bool" where
  "advances k r res \<longleftrightarrow> stage (min 11 (Suc k)) (snd res) \<and> fst res = (k < 11) \<and> (0 < k \<longrightarrow> rc_CaseID (snd res) = rc_CaseID r) \<and>
     (7 \<le> k \<longrightarrow> rc_IdempotencyKey (snd res) = rc_IdempotencyKey r)"

lemma waiting_step:
  assumes "stage k r" "1 \<le> k" "k \<le> 6"
  shows "io_must C (advances k r) (reconciler_Tick r)"
proof -
  have conf: "rc_Confirmations r + 1 = of_nat k" using assms by (simp add: stage_def of_nat_diff)
  have "unat (of_nat k :: uint32) = k" using assms(3) by (simp add: unat_of_nat)
  then have met: "6 \<le> (of_nat k :: uint32) \<longleftrightarrow> k = 6" using assms(3) by (simp add: word_le_nat_alt)
  let ?r = "r\<lparr>rc_TickCount := rc_TickCount r + 1, rc_Confirmations := of_nat k\<rparr>"
  have go: "advances k r (True, ?r)" if "k \<noteq> 6"
    using assms that by (simp add: advances_def stage_def min_def)
  have ready: "advances k r (True, ?r\<lparr>rc_IdempotencyKey := b, rc_State := StateReadyToFinalize\<rparr>)" if "k = 6" "length b = 16" for b
    using assms that by (simp add: advances_def stage_def)
  have "rc_State r = 1" "rc_RequiredConfs r = 6" "length (rc_IdempotencyKey r) = 16" using assms by (simp_all add: stage_def)
  then show ?thesis
    using conf met go ready
    by (cases "k = 6") (auto simp: reconciler_Tick_def tickWaitingConfirmations_def must_rules Let_def intro!: must_RandBytes must_Log)
qed

lemma detected_step: "stage 0 r \<Longrightarrow> io_must C (advances 0 r) (reconciler_Tick r)"
  by (auto simp: reconciler_Tick_def tickDetected_def stage_def advances_def must_rules Let_def intro!: must_RandBytes must_Log)

lemma stage_step:
  assumes "stage k r"
  shows "io_must C (advances k r) (reconciler_Tick r)"
  using assms
proof (cases rule: stage_cases)
  case 1
  with assms detected_step show ?thesis by simp
next
  case 2
  then have "1 \<le> k" "k \<le> 6" by auto
  with waiting_step assms show ?thesis by blast
qed (use assms in \<open>simp_all add: reconciler_Tick_def tickReadyToFinalize_def tickFinalized_def tickCompleted_def stage_def advances_def must_rules Let_def\<close>)


definition reconciler_good :: "Reconciler_agent \<Rightarrow> bool" where
  "reconciler_good r \<longleftrightarrow> (\<exists>k. stage k r)"

lemma stage_zero: "stage 0 zero_reconciler"
  by (simp add: stage_def zero_reconciler_def)

lemma reconciler_Marshal_wire:
  "reconciler_Marshal r = put_u32 (rc_State r) @ put_u64 (rc_TickCount r) @ (put_u32 (len_u32 (rc_CaseID r)) @ rc_CaseID r) @
     put_u32 (rc_Confirmations r) @ put_u32 (rc_RequiredConfs r) @ (put_u32 (len_u32 (rc_IdempotencyKey r)) @ rc_IdempotencyKey r) @
     [if rc_IntentRecorded r then 1 else 0] @ [if rc_FinalizeExecuted r then 1 else 0] @ [if rc_AckReceived r then 1 else 0] @
     [if rc_DupChecked r then 1 else 0] @ put_u64 (rc_DetectNano r) @ put_u64 (rc_FinalizeNano r) @ put_u64 (rc_CompleteNano r) @ []"
  by (simp add: reconciler_Marshal_def Encoder_Finish_def NewEncoder_def codec_appends)

lemma reconciler_restored:
  assumes "length (rc_CaseID r) = 16" "length (rc_IdempotencyKey r) = 16"
  shows "reconciler_Unmarshal (reconciler_Marshal r) zero_reconciler = Inr r"
proof -
  have "decoder_at (put_u32 (rc_State r) @ put_u64 (rc_TickCount r) @ (put_u32 (len_u32 (rc_CaseID r)) @ rc_CaseID r) @
     put_u32 (rc_Confirmations r) @ put_u32 (rc_RequiredConfs r) @ (put_u32 (len_u32 (rc_IdempotencyKey r)) @ rc_IdempotencyKey r) @
     [if rc_IntentRecorded r then 1 else 0] @ [if rc_FinalizeExecuted r then 1 else 0] @ [if rc_AckReceived r then 1 else 0] @
     [if rc_DupChecked r then 1 else 0] @ put_u64 (rc_DetectNano r) @ put_u64 (rc_FinalizeNano r) @ put_u64 (rc_CompleteNano r) @ [])
    (NewDecoder (reconciler_Marshal r))" by (simp only: reconciler_Marshal_wire decoder_at_New)
  then show ?thesis
    unfolding reconciler_Unmarshal_def Let_def
    by (elim field_reads) (use assms in \<open>simp_all add: decoder_at_Err zero_reconciler_def copy_into_def\<close>)
qed

lemma stage_tick: "stage k r \<Longrightarrow> follow (reconciler_Tick r) as = (tr, Returned res) \<Longrightarrow> advances k r res"
  using must_returned [OF stage_step] by blast

interpretation reconciler: resumable_agent reconciler_code zero_reconciler reconciler_good
proof unfold_locales
  fix r assume "reconciler_good r"
  then obtain k where k: "stage k r" by (auto simp: reconciler_good_def)
  show "io_all (\<lambda>(again, r'). reconciler_good r') (ag_Tick reconciler_code r)"
    unfolding reconciler_code_def agent_code.simps
    by (rule io_wp_mono [OF must_all [OF stage_step [OF k]]]) (auto simp: reconciler_good_def advances_def)
  show "ag_Unmarshal reconciler_code (ag_Marshal reconciler_code r) zero_reconciler = Inr r"
    using k by (simp add: reconciler_code_def reconciler_restored stage_def)
qed (use stage_zero in \<open>auto simp: reconciler_code_def reconciler_good_def reconciler_Marshal_wire\<close>)

section \<open>The case is completed\<close>

lemma run_stage: "stage k r \<Longrightarrow> \<exists>r' w'. run_ticks n reconciler_code H r w = Some (r', w') \<and> stage (min 11 (k + n)) r'"
proof (induction n arbitrary: k r w)
  case (Suc n)
  have "io_must (\<lambda>_ _. True) (\<lambda>res. stage (min 11 (Suc k)) (snd res)) (ag_Tick reconciler_code r)"
    using must_mono [OF stage_step [OF Suc.prems]] by (simp add: reconciler_code_def advances_def)
  moreover have "\<exists>r2 w2. run_ticks n reconciler_code H r' w' = Some (r2, w2) \<and> stage (min 11 (k + Suc n)) r2"
    if "stage (min 11 (Suc k)) r'" for r' w'
  proof -
    have "min 11 (min 11 (Suc k) + n) = min 11 (k + Suc n)" by simp
    with Suc.IH [OF that, of w'] show ?thesis by simp
  qed
  ultimately show ?case by (rule run_ticks_step [OF _ TrueI])
qed (simp add: stage_def)

text \<open>
  The case is completed: against any host, whatever the clock and the random source answer and whether they fail, a reconciler
  that ticks eleven times without interruption returns from each tick and is then in the state Completed with the finalization
  executed and acknowledged, and the next tick reports that there is nothing left to do.
\<close>

theorem reconciler_completes:
  "\<exists>r w'. run_ticks 11 reconciler_code H zero_reconciler w = Some (r, w') \<and> rc_State r = StateCompleted \<and> rc_FinalizeExecuted r \<and>
     rc_AckReceived r \<and> (\<exists>r' w''. run_io H (reconciler_Tick r) w' = (Returned (False, r'), w'') \<and> rc_State r' = StateCompleted)"
proof -
  obtain r w' where r: "run_ticks 11 reconciler_code H zero_reconciler w = Some (r, w')" "stage 11 r"
    using run_stage [OF stage_zero, of 11 H w] by auto
  obtain res w'' where "run_io H (reconciler_Tick r) w' = (Returned res, w'')" "advances 11 r res"
    using io_must_runs [OF stage_step [OF r(2), of "\<lambda>_ _. True"], of H w'] by auto
  with r show ?thesis by (cases res) (auto simp: advances_def stage_def)
qed


section \<open>Finalizations\<close>

text \<open>The calls that finalize: their log line is the side effect.\<close>

fun finalizes :: "sdk_call \<Rightarrow> bool" where
  "finalizes (CallLog msg) = (take 31 msg = ''[reconciler] Finalize EXECUTED '')"
| "finalizes _ = False"

lemma finalize_line_finalizes: "finalizes (CallLog (finalize_line r))"
  by (simp add: finalize_line_def)

text \<open>Only the tick of stage 8 finalizes, and with the key the agent holds.\<close>

lemma tick_calls:
  assumes "stage k r"
  shows "io_calls (\<lambda>c. finalizes c \<longrightarrow> k = 8 \<and> c = CallLog (finalize_line r)) (reconciler_Tick r)"
  using assms
proof (cases rule: stage_cases)
  case 1
  with assms show ?thesis
    by (auto simp: reconciler_Tick_def tickDetected_def stage_def Let_def intro!: calls_rules)
next
  case 2
  then have "rc_State r = StateWaitingConfirmations" "k \<noteq> 8" using assms by (auto simp: stage_def)
  then show ?thesis
    by (auto simp: reconciler_Tick_def tickWaitingConfirmations_def Let_def intro!: calls_rules)
qed (use assms in \<open>auto simp: reconciler_Tick_def tickReadyToFinalize_def tickFinalized_def tickCompleted_def stage_def finalize_line_def Let_def intro!: calls_rules\<close>)


text \<open>The lives that start with a checkpoint of stage \<open>k\<close>, and what they may have finalized.\<close>

definition committed :: "nat \<Rightarrow> string \<Rightarrow> Reconciler_agent \<Rightarrow> bool" where
  "committed k line r \<longleftrightarrow> (\<exists>m\<ge>k. stage m r) \<and> finalize_line r = line"

definition finalized_as :: "nat \<Rightarrow> string \<Rightarrow> sdk_trace \<Rightarrow> bool" where
  "finalized_as k line tr \<longleftrightarrow> (\<forall>x\<in>set tr. finalizes (fst x) \<longrightarrow> k = 8 \<and> fst x = CallLog line)"

definition committed_life :: "nat \<Rightarrow> string \<Rightarrow> Reconciler_agent life \<Rightarrow> bool" where
  "committed_life k line l \<longleftrightarrow> committed k line (lf_agent l) \<and>
     (\<exists>s. lf_ckpt l = Some (reconciler_Marshal s) \<and> committed k line s) \<and> finalized_as k line (lf_trace l)"

lemma committed_tick:
  assumes "8 \<le> k" "committed k line r" "follow (reconciler_Tick r) as = (tr, res)"
  shows "finalized_as k line tr" "res = Returned (again, r') \<Longrightarrow> committed k line r'"
proof -
  from assms(2) obtain m where m: "k \<le> m" "stage m r" "finalize_line r = line" by (auto simp: committed_def)
  from io_calls_follow [OF tick_calls [OF m(2)] assms(3)] m assms(1) show "finalized_as k line tr" by (auto simp: finalized_as_def)
  assume "res = Returned (again, r')"
  with stage_tick [OF m(2)] assms(3) have "advances m r (again, r')" by blast
  moreover from this m assms(1) have "k \<le> min 11 (Suc m)" by (auto simp: stage_def)
  ultimately show "committed k line r'"
    using m assms(1) by (auto simp: committed_def advances_def finalize_line_def)
qed

lemma committed_restart: "committed k line s \<Longrightarrow> restart reconciler_code zero_reconciler (Some (reconciler_Marshal s)) = Some s"
  using reconciler.restart_saved [of s] by (auto simp: committed_def reconciler_good_def reconciler_code_def)

lemma committed_step:
  assumes "8 \<le> k" "committed_life k line l" "life_step reconciler_code zero_reconciler ev l = Some l'"
  shows "committed_life k line l'"
proof -
  from assms(2) obtain s where c: "committed k line (lf_agent l)" "finalized_as k line (lf_trace l)"
    "lf_ckpt l = Some (reconciler_Marshal s)" "committed k line s" by (auto simp: committed_life_def)
  have more: "finalized_as k line (lf_trace l @ tr)" if "follow (reconciler_Tick (lf_agent l)) as = (tr, res)" for as tr res
    using committed_tick(1) [OF assms(1) c(1) that] c(2) by (auto simp: finalized_as_def)
  show ?thesis
  proof (cases ev)
    case (LTick as)
    with assms(3) obtain tr again r where f: "follow (reconciler_Tick (lf_agent l)) as = (tr, Returned (again, r))"
      and l': "l' = l\<lparr>lf_agent := r, lf_trace := lf_trace l @ tr\<rparr>" by (auto simp: reconciler_code_def split: prod.splits outcome.splits)
    with committed_tick(2) [OF assms(1) c(1) f] more [OF f] c show ?thesis by (auto simp: committed_life_def)
  next
    case LSave
    with assms(3) c show ?thesis by (auto simp: committed_life_def reconciler_code_def)
  next
    case (LCrash as)
    obtain tr res where f: "follow (reconciler_Tick (lf_agent l)) as = (tr, res)" by fastforce
    with LCrash assms(3) c committed_restart [OF c(4)] have "l' = l\<lparr>lf_agent := s, lf_trace := lf_trace l @ tr\<rparr>"
      by (auto simp: reconciler_code_def)
    with c more [OF f] show ?thesis by (auto simp: committed_life_def)
  qed
qed

lemma committed_run:
  assumes "8 \<le> k" "committed_life k line l" "life_run reconciler_code zero_reconciler evs l = Some l'"
  shows "committed_life k line l'"
  using assms(2,3)
proof (induction evs arbitrary: l)
  case (Cons ev evs)
  then obtain l1 where "life_step reconciler_code zero_reconciler ev l = Some l1" "life_run reconciler_code zero_reconciler evs l1 = Some l'"
    by (auto split: option.splits)
  with Cons committed_step [OF assms(1)] show ?case by blast
qed simp

text \<open>
  C29 Finalization is idempotent once its intent is durable: from a state with the intent recorded that has been saved in a checkpoint, whatever
  ticks, checkpoints, crashes in the middle of a tick and resumes follow, every finalization ever executed is the one for this case
  with this key; and when the saved state had already executed it, none is executed again.
\<close>

theorem finalize_idempotent:
  assumes "stage k r" "8 \<le> k"
    and "life_run reconciler_code zero_reconciler evs \<lparr>lf_agent = r, lf_ckpt = Some (reconciler_Marshal r), lf_trace = []\<rparr> = Some l"
    and "(c, a) \<in> set (lf_trace l)" "finalizes c"
  shows "k = 8 \<and> c = CallLog (finalize_line r)"
proof -
  have "committed_life k (finalize_line r) \<lparr>lf_agent = r, lf_ckpt = Some (reconciler_Marshal r), lf_trace = []\<rparr>"
    using assms(1) by (auto simp: committed_life_def committed_def finalized_as_def)
  from committed_run [OF assms(2) this assms(3)] assms(4,5) show ?thesis
    by (auto simp: committed_life_def finalized_as_def)
qed


definition rand_answer :: "bytes \<Rightarrow> sdk_answer" where
  "rand_answer K = \<lparr>an_num = 0, an_bytes = K, an_err = None\<rparr>"

text \<open>The three ticks that draw the key \<open>K\<close>, record the intent and finalize.\<close>

definition finalize_ticks :: "bytes \<Rightarrow> life_event list" where
  "finalize_ticks K = [LTick [plain_answer, plain_answer, rand_answer K, plain_answer, plain_answer, plain_answer],
     LTick [plain_answer, plain_answer, plain_answer], LTick [plain_answer, plain_answer, plain_answer]]"

abbreviation finalizations :: "sdk_trace \<Rightarrow> sdk_call list" where
  "finalizations tr \<equiv> filter finalizes (map fst tr)"

lemma to_array_self: "length K = n \<Longrightarrow> to_array n K = K"
  by (simp add: to_array_def)

lemma finalize_ticks_run:
  assumes "stage 6 (lf_agent l)" "length K = 16"
  shows "\<exists>l'. life_run reconciler_code zero (finalize_ticks K) l = Some l' \<and> lf_ckpt l' = lf_ckpt l \<and>
    finalizations (lf_trace l') = finalizations (lf_trace l) @ [CallLog (finalize_line ((lf_agent l)\<lparr>rc_IdempotencyKey := K\<rparr>))]"
proof -
  define r where "r = lf_agent l"
  have r: "rc_State r = 1" "rc_Confirmations r = 5" "rc_RequiredConfs r = 6" "length (rc_IdempotencyKey r) = 16"
    "\<not> rc_IntentRecorded r" "\<not> rc_FinalizeExecuted r"
    using assms(1) by (simp_all add: stage_def r_def)
  then have ne: "rc_IdempotencyKey r \<noteq> []" by auto
  define r1 where "r1 = r\<lparr>rc_TickCount := rc_TickCount r + 1, rc_Confirmations := 6, rc_IdempotencyKey := K, rc_State := StateReadyToFinalize\<rparr>"
  define r2 where "r2 = r1\<lparr>rc_TickCount := rc_TickCount r1 + 1, rc_IntentRecorded := True\<rparr>"
  have "\<exists>tr. follow (reconciler_Tick r) [plain_answer, plain_answer, rand_answer K, plain_answer, plain_answer, plain_answer] =
      (tr, Returned (True, r1)) \<and> finalizations tr = []"
    using r ne assms(2) by (simp add: reconciler_Tick_def tickWaitingConfirmations_def r1_def follow_rules rand_answer_def to_array_self Let_def)
  then obtain tr1 where 1: "follow (reconciler_Tick r) [plain_answer, plain_answer, rand_answer K, plain_answer, plain_answer, plain_answer] =
      (tr1, Returned (True, r1))" "finalizations tr1 = []" by blast
  have "\<exists>tr. follow (reconciler_Tick r1) [plain_answer, plain_answer, plain_answer] = (tr, Returned (True, r2)) \<and> finalizations tr = []"
    using r by (simp add: reconciler_Tick_def tickReadyToFinalize_def r1_def r2_def follow_rules Let_def)
  then obtain tr2 where 2: "follow (reconciler_Tick r1) [plain_answer, plain_answer, plain_answer] = (tr2, Returned (True, r2))"
    "finalizations tr2 = []" by blast
  have "\<exists>tr r3. follow (reconciler_Tick r2) [plain_answer, plain_answer, plain_answer] = (tr, Returned (True, r3)) \<and>
      finalizations tr = [CallLog (finalize_line (r\<lparr>rc_IdempotencyKey := K\<rparr>))]"
    using r by (simp add: reconciler_Tick_def tickReadyToFinalize_def r1_def r2_def finalize_line_def follow_rules Let_def)
  then obtain tr3 r3 where 3: "follow (reconciler_Tick r2) [plain_answer, plain_answer, plain_answer] = (tr3, Returned (True, r3))"
      "finalizations tr3 = [CallLog (finalize_line (r\<lparr>rc_IdempotencyKey := K\<rparr>))]" by blast
  from 1 2 3 show ?thesis unfolding r_def [symmetric] by (simp add: finalize_ticks_def reconciler_code_def r_def [symmetric])
qed

text \<open>
  Before its intent is durable, a finalization can happen twice: when the last checkpoint was taken while the agent was waiting for
  the last confirmation and the process dies after finalizing, the resumed agent draws a new key and finalizes the same case again
  under it, so the receiver cannot recognise the second as a repetition.
\<close>

theorem finalize_twice_under_new_key:
  assumes "stage 6 r" "length K1 = 16" "length K2 = 16"
  shows "\<exists>l. life_run reconciler_code zero_reconciler (LSave # finalize_ticks K1 @ LCrash [] # finalize_ticks K2)
      \<lparr>lf_agent = r, lf_ckpt = None, lf_trace = []\<rparr> = Some l \<and>
    finalizations (lf_trace l) = [CallLog (finalize_line (r\<lparr>rc_IdempotencyKey := K1\<rparr>)), CallLog (finalize_line (r\<lparr>rc_IdempotencyKey := K2\<rparr>))]"
proof -
  let ?l = "\<lparr>lf_agent = r, lf_ckpt = Some (reconciler_Marshal r), lf_trace = []\<rparr>"
  obtain l1 where l1: "life_run reconciler_code zero_reconciler (finalize_ticks K1) ?l = Some l1" "lf_ckpt l1 = lf_ckpt ?l"
    "finalizations (lf_trace l1) = [CallLog (finalize_line (r\<lparr>rc_IdempotencyKey := K1\<rparr>))]"
    using finalize_ticks_run [of ?l K1 zero_reconciler] assms by auto
  obtain res where "follow (reconciler_Tick (lf_agent l1)) [] = ([], res)" by (cases "reconciler_Tick (lf_agent l1)") auto
  moreover have "restart reconciler_code zero_reconciler (lf_ckpt l1) = Some r"
    using assms(1) l1(2) committed_restart [of 6 _ r] by (auto simp: committed_def)
  ultimately have crash: "life_step reconciler_code zero_reconciler (LCrash []) l1 = Some (l1\<lparr>lf_agent := r\<rparr>)"
    by (simp add: reconciler_code_def)
  obtain l2 where "life_run reconciler_code zero_reconciler (finalize_ticks K2) (l1\<lparr>lf_agent := r\<rparr>) = Some l2"
    "finalizations (lf_trace l2) = finalizations (lf_trace l1) @ [CallLog (finalize_line (r\<lparr>rc_IdempotencyKey := K2\<rparr>))]"
    using finalize_ticks_run [of "l1\<lparr>lf_agent := r\<rparr>" K2 zero_reconciler] assms by auto
  with l1 crash show ?thesis by (simp add: life_run_append reconciler_code_def del: life_step.simps(3))
qed


definition waiting_example :: Reconciler_agent where
  "waiting_example = zero_reconciler\<lparr>rc_State := StateWaitingConfirmations, rc_Confirmations := 5, rc_RequiredConfs := 6\<rparr>"

definition intent_example :: Reconciler_agent where
  "intent_example = zero_reconciler\<lparr>rc_State := StateReadyToFinalize, rc_Confirmations := 6, rc_RequiredConfs := 6, rc_IntentRecorded := True\<rparr>"

theorem finalize_idempotent_witness:
  "\<exists>l c a. life_run reconciler_code zero_reconciler [LCrash [plain_answer, plain_answer]]
       \<lparr>lf_agent = intent_example, lf_ckpt = Some (reconciler_Marshal intent_example), lf_trace = []\<rparr> = Some l \<and>
     (c, a) \<in> set (lf_trace l) \<and> finalizes c \<and> c = CallLog (finalize_line intent_example)"
proof -
  let ?l = "\<lparr>lf_agent = intent_example, lf_ckpt = Some (reconciler_Marshal intent_example), lf_trace = []\<rparr>"
  have stage: "stage 8 intent_example" by (simp add: stage_def intent_example_def zero_reconciler_def)
  have "\<exists>res tr. follow (reconciler_Tick intent_example) [plain_answer, plain_answer] = (tr, res) \<and> finalizations tr \<noteq> []"
    by (simp add: reconciler_Tick_def tickReadyToFinalize_def intent_example_def zero_reconciler_def finalize_line_def follow_rules Let_def)
  then obtain res tr c a where f: "follow (reconciler_Tick intent_example) [plain_answer, plain_answer] = (tr, res)" "(c, a) \<in> set tr" "finalizes c"
    by (fastforce simp: filter_empty_conv)
  have "restart reconciler_code zero_reconciler (Some (reconciler_Marshal intent_example)) = Some intent_example"
    using committed_restart [of 8 _ intent_example] stage by (auto simp: committed_def)
  with f have run: "life_run reconciler_code zero_reconciler [LCrash [plain_answer, plain_answer]] ?l = Some (?l\<lparr>lf_trace := tr\<rparr>)"
    by (simp add: reconciler_code_def)
  from finalize_idempotent [OF stage _ run, of c a] f have "c = CallLog (finalize_line intent_example)" by simp
  with run f show ?thesis by (intro exI [of _ "?l\<lparr>lf_trace := tr\<rparr>"] exI [of _ c] exI [of _ a]) simp
qed

theorem finalize_twice_under_new_key_witness:
  "\<exists>l. life_run reconciler_code zero_reconciler (LSave # finalize_ticks (replicate 16 1) @ LCrash [] # finalize_ticks (replicate 16 2))
      \<lparr>lf_agent = waiting_example, lf_ckpt = None, lf_trace = []\<rparr> = Some l \<and>
    finalizations (lf_trace l) = [CallLog ''[reconciler] Finalize EXECUTED for case 00000000 (key: 01010101)'',
      CallLog ''[reconciler] Finalize EXECUTED for case 00000000 (key: 02020202)'']"
proof -
  have stage: "stage 6 waiting_example" by (simp add: stage_def waiting_example_def zero_reconciler_def)
  have "shortHex (replicate 16 0) = ''00000000''" "shortHex (replicate 16 1) = ''01010101''" "shortHex (replicate 16 2) = ''02020202''"
    by code_simp+
  with finalize_twice_under_new_key [OF stage, of "replicate 16 1" "replicate 16 2"] show ?thesis
    by (simp add: finalize_line_def waiting_example_def zero_reconciler_def)
qed

end
