(* ===== verification/Buyer.thy ===== *)
theory Buyer
  imports Sdk
begin

text \<open>
  The agent \<open>src/agents/x402buyer\<close>, which pays for data behind a paywall, and the paywall of
  \<open>src/cmd/paywall\<close>.  The agent is modelled whole, with its log lines, because they are calls of
  the SDK like any other.  It is compiled for a 32-bit target, where Go's \<open>int\<close> has 32 bits; the parser
  of the payment terms is modelled at that width.
\<close>

unbundle bit_operations_syntax

section \<open>Payment terms\<close>

definition encodeBytesHex :: "bytes \<Rightarrow> string" where
  "encodeBytesHex data =
     concat (map (\<lambda>b. [''0123456789abcdef'' ! unat (drop_bit 4 b), ''0123456789abcdef'' ! unat (b AND 15)]) data)"

text \<open>The terms in the body of a 402 response: \<open>Inl\<close> is the panic of a slice expression whose end
  lies before its start.\<close>

definition parsePaymentTerms :: "bytes \<Rightarrow> string + (int64 \<times> string \<times> string)" where
  "parsePaymentTerms body =
     (if length body < 12 then Inr (0, '''', '''')
      else
        let amount = get_u64 (go_slice 0 8 body);
            recipientLen = sint (get_u32 (drop 8 body));
            endR = add_i32 12 recipientLen
        in if endR > int (length body) then Inr (0, '''', '''')
           else if endR < 12 then Inl ''runtime error: slice bounds out of range''
           else
             let recipient = string_of_bytes (go_slice 12 (nat endR) body);
                 off = nat endR
             in if off + 4 > length body then Inr (amount, recipient, '''')
                else
                  let memoLen = sint (get_u32 (drop off body));
                      off = off + 4;
                      endM = add_i32 (int off) memoLen
                  in if endM > int (length body) then Inr (amount, recipient, '''')
                     else if endM < int off then Inl ''runtime error: slice bounds out of range''
                     else Inr (amount, recipient, string_of_bytes (go_slice off (nat endM) body)))"

section \<open>The paywall\<close>

abbreviation paymentAmount :: int64 where "paymentAmount \<equiv> 100000"
abbreviation paymentRecipient :: string where "paymentRecipient \<equiv> ''paywall-provider''"
abbreviation paymentMemo :: string where "paymentMemo \<equiv> ''premium-data-access''"

definition encodePaymentTerms :: "int64 \<Rightarrow> string \<Rightarrow> string \<Rightarrow> bytes" where
  "encodePaymentTerms amount recipient memo =
     put_u64 amount @ put_u32 (len_u32 recipient) @ bytes_of_string recipient @
     put_u32 (len_u32 memo) @ bytes_of_string memo"

text \<open>The handler of \<open>/api/premium-data\<close>.  The chosen insight and the clock are arguments; \<open>fmt.Fprintf\<close> writes the
  insight without escaping it.\<close>

definition insights :: "string list" where
  "insights =
     [''BTC dominance rising to 58.3%, altcoin rotation expected'',
      ''ETH gas fees averaging 12 gwei, L2 adoption accelerating'',
      ''DeFi TVL crossed $95B, new ATH since 2022'',
      ''Stablecoin supply expanding, USDC market cap up 15% MoM'',
      ''On-chain whale activity: 3 wallets accumulated 12,000 BTC this week'']"

definition handlePremiumData :: "string \<Rightarrow> nat \<Rightarrow> int64 \<Rightarrow> int \<times> bytes" where
  "handlePremiumData payment pick now =
     (if payment = '''' then (402, encodePaymentTerms paymentAmount paymentRecipient paymentMemo)
      else (200, bytes_of_string (''{\"insight\":\"'' @ insights ! pick @ ''\",\"timestamp\":'' @ fmt_i now @ '',\"tier\":\"premium\"}'')))"

section \<open>The agent\<close>

abbreviation paywallURL :: string where "paywallURL \<equiv> ''http://localhost:8402/api/premium-data''"

abbreviation phasePolling :: byte where "phasePolling \<equiv> 0"
abbreviation phaseReconciling :: byte where "phaseReconciling \<equiv> 1"

record X402Buyer =
  bu_TickCount :: uint64
  bu_BirthNano :: int64
  bu_LastNano :: int64
  bu_Phase :: byte
  bu_PaidCount :: uint32
  bu_DataCount :: uint32
  bu_TotalPaid :: int64
  bu_LastReceipt :: bytes
  bu_Effects :: EffectLog

definition zero_buyer :: X402Buyer where
  "zero_buyer = \<lparr>bu_TickCount = 0, bu_BirthNano = 0, bu_LastNano = 0, bu_Phase = 0, bu_PaidCount = 0, bu_DataCount = 0,
     bu_TotalPaid = 0, bu_LastReceipt = [], bu_Effects = \<lparr>ef_intents = []\<rparr>\<rparr>"

definition payment_intent :: "int64 \<Rightarrow> string \<Rightarrow> string \<Rightarrow> bytes" where
  "payment_intent amount recipient memo =
     Encoder_Finish (Encoder_Bytes (bytes_of_string memo) (Encoder_Bytes (bytes_of_string recipient)
       (Encoder_Int64 amount NewEncoder)))"

definition buyer_recordPaymentIntent :: "int64 \<Rightarrow> string \<Rightarrow> string \<Rightarrow> X402Buyer \<Rightarrow> (bool \<times> X402Buyer) io" where
  "buyer_recordPaymentIntent amount recipient memo b =
     sdk_RandBytes (replicate 16 0) (\<lambda>key _.
       case effect_Record key (payment_intent amount recipient memo) (bu_Effects b) of
         (Inl err, e) \<Rightarrow>
           sdk_Log (''[x402buyer] ERROR: failed to record intent: '' @ error_string err)
             (Done (False, b\<lparr>bu_Effects := e\<rparr>))
       | (Inr _, e) \<Rightarrow>
           key_prefix key (\<lambda>hex.
             sdk_Log (''[x402buyer] Payment intent RECORDED (key='' @ hex @ ''...). Waiting for checkpoint...'')
               (Done (False, b\<lparr>bu_Effects := e\<rparr>))))"

text \<open>The fields of a payment intent, read in order.\<close>

definition decode_payment :: "bytes \<Rightarrow> int64 \<times> string \<times> string \<times> go_error option" where
  "decode_payment data =
     (let d = NewDecoder data;
          (amount, d) = Decoder_Int64 d;
          (recipient, d) = Decoder_Bytes d;
          (memo, d) = Decoder_Bytes d
      in (amount, string_of_bytes recipient, string_of_bytes memo, Decoder_Err d))"

definition buyer_executePayment :: "Intent \<Rightarrow> X402Buyer \<Rightarrow> (bool \<times> X402Buyer) io" where
  "buyer_executePayment intent b =
     (let (amount, recipient, memo, derr) = decode_payment (it_Data intent) in
      case derr of
        Some err \<Rightarrow>
          sdk_Log (''[x402buyer] ERROR: corrupt intent data: '' @ error_string err)
            (Done (False, b\<lparr>bu_Effects := snd (effect_Compensate (it_ID intent) (bu_Effects b))\<rparr>))
      | None \<Rightarrow>
        (case effect_Begin (it_ID intent) (bu_Effects b) of
           (Inl err, e) \<Rightarrow>
             sdk_Log (''[x402buyer] ERROR: failed to begin intent: '' @ error_string err) (Done (False, b\<lparr>bu_Effects := e\<rparr>))
         | (Inr _, e) \<Rightarrow>
           (let b = b\<lparr>bu_Effects := e\<rparr> in
            key_prefix (it_ID intent) (\<lambda>hex.
            sdk_Log (''[x402buyer] Payment IN-FLIGHT: '' @ fmt_i amount @ '' microcents to '' @ recipient @ '' (key='' @ hex @ ''...)'')
            (sdk_WalletPay amount recipient memo (\<lambda>r.
              case r of
                Inl err \<Rightarrow>
                  sdk_Log (''[x402buyer] Payment FAILED: '' @ error_string err)
                    (let e = snd (effect_Compensate (it_ID intent) (bu_Effects b));
                         e = snd (effect_Prune e)
                     in Done (False, b\<lparr>bu_Effects := e\<rparr>))
              | Inr receipt \<Rightarrow>
                let b = b\<lparr>bu_PaidCount := bu_PaidCount b + 1, bu_TotalPaid := bu_TotalPaid b + amount, bu_LastReceipt := receipt\<rparr> in
                (case effect_Confirm (it_ID intent) (bu_Effects b) of
                   (Inl err, e) \<Rightarrow>
                     sdk_Log (''[x402buyer] ERROR: failed to confirm intent: '' @ error_string err) (Done (False, b\<lparr>bu_Effects := e\<rparr>))
                 | (Inr _, e) \<Rightarrow>
                     key_prefix (it_ID intent) (\<lambda>hex.
                     sdk_Log (''[x402buyer] Payment CONFIRMED: '' @ fmt_i amount @ '' microcents (key='' @ hex @
                         ''..., receipt='' @ dec_nat (length receipt) @ '' bytes)'')
                       (Done (True, b\<lparr>bu_Effects := snd (effect_Prune e)\<rparr>))))))))))"

definition buyer_reconcile :: "Intent \<Rightarrow> X402Buyer \<Rightarrow> X402Buyer io" where
  "buyer_reconcile intent b =
     key_prefix (it_ID intent) (\<lambda>hex.
     sdk_Log (''[x402buyer] RECONCILING: unresolved payment (key='' @ hex @ ''...)'')
     (let (amount, recipient, _, _) = decode_payment (it_Data intent);
          paymentCompleted = (it_ID intent ! 0 mod 2 = 0)
      in if paymentCompleted then
           let b = b\<lparr>bu_PaidCount := bu_PaidCount b + 1, bu_TotalPaid := bu_TotalPaid b + amount\<rparr> in
           (case effect_Confirm (it_ID intent) (bu_Effects b) of
              (Inl err, e) \<Rightarrow>
                sdk_Log (''[x402buyer] ERROR: reconcile confirm failed: '' @ error_string err) (Done (b\<lparr>bu_Effects := e\<rparr>))
            | (Inr _, e) \<Rightarrow>
                sdk_Log (''[x402buyer] Reconciled: payment of '' @ fmt_i amount @ '' to '' @ recipient @ '' COMPLETED before crash'')
                  (Done (b\<lparr>bu_Effects := e\<rparr>)))
         else
           (case effect_Compensate (it_ID intent) (bu_Effects b) of
              (Inl err, e) \<Rightarrow>
                sdk_Log (''[x402buyer] ERROR: reconcile compensate failed: '' @ error_string err) (Done (b\<lparr>bu_Effects := e\<rparr>))
            | (Inr _, e) \<Rightarrow>
                sdk_Log (''[x402buyer] Reconciled: payment of '' @ fmt_i amount @ '' to '' @ recipient @ '' DID NOT complete '' @
                    [CHR 0xE2, CHR 0x80, CHR 0x94] @ '' will retry'')
                  (Done (b\<lparr>bu_Effects := e\<rparr>)))))"

primrec buyer_reconcile_all :: "Intent list \<Rightarrow> X402Buyer \<Rightarrow> X402Buyer io" where
  "buyer_reconcile_all [] b = Done b"
| "buyer_reconcile_all (x # xs) b = io_bind (buyer_reconcile x b) (buyer_reconcile_all xs)"

text \<open>The part of a tick that asks the paywall.\<close>

definition buyer_fetch :: "X402Buyer \<Rightarrow> (bool \<times> X402Buyer) io" where
  "buyer_fetch b =
     (let headers = (if length (bu_LastReceipt b) > 0 then [(''X-Payment'', encodeBytesHex (bu_LastReceipt b))] else []) in
      sdk_HTTPRequest ''GET'' paywallURL headers [] (\<lambda>r.
        case r of
          Inl err \<Rightarrow> sdk_Log (''[x402buyer] HTTP error: '' @ error_string err) (Done (False, b))
        | Inr (status, body) \<Rightarrow>
          if status = 200 then
            let b = b\<lparr>bu_DataCount := bu_DataCount b + 1, bu_LastReceipt := []\<rparr> in
            sdk_Log (''[x402buyer] PREMIUM DATA RECEIVED: '' @ string_of_bytes body) (Done (False, b))
          else if status = 402 then
            (case parsePaymentTerms body of
               Inl msg \<Rightarrow> Panic msg
             | Inr (amount, recipient, memo) \<Rightarrow>
               if sint amount \<le> 0 then sdk_Log ''[x402buyer] Invalid payment terms in 402 response'' (Done (False, b))
               else sdk_Log (''[x402buyer] 402 PAYMENT REQUIRED: '' @ fmt_i amount @ '' microcents to '' @ recipient @ '' ('' @ memo @ '')'')
                 (buyer_recordPaymentIntent amount recipient memo b))
          else sdk_Log (''[x402buyer] Unexpected status '' @ dec_int status @ '': '' @ string_of_bytes body) (Done (False, b))))"

text \<open>The body of a tick after the clock has been read.\<close>

definition buyer_act :: "int64 \<Rightarrow> X402Buyer \<Rightarrow> (bool \<times> X402Buyer) io" where
  "buyer_act ageSec b =
     (let unresolved = effect_Unresolved (bu_Effects b) in
      if length unresolved > 0 then
        io_bind (buyer_reconcile_all unresolved (b\<lparr>bu_Phase := phaseReconciling\<rparr>)) (\<lambda>b.
          Done (True, b\<lparr>bu_Effects := snd (effect_Prune (bu_Effects b)), bu_Phase := phasePolling\<rparr>))
      else case List.find (\<lambda>x. it_State x = Recorded) (effect_Pending (bu_Effects b)) of
        Some intent \<Rightarrow> buyer_executePayment intent b
      | None \<Rightarrow>
        if bu_TickCount b mod 3 \<noteq> 1 then
          (if bu_TickCount b mod 5 = 0
           then sdk_Log (''[x402buyer] tick='' @ fmt_u (bu_TickCount b) @ '' age='' @ fmt_i ageSec @ ''s payments='' @
                  fmt_u (bu_PaidCount b) @ '' data='' @ fmt_u (bu_DataCount b) @ '' total_paid='' @ fmt_i (bu_TotalPaid b))
                  (Done (False, b))
           else Done (False, b))
        else sdk_Log (''[x402buyer] Fetching premium data (tick='' @ fmt_u (bu_TickCount b) @ '')...'') (buyer_fetch b))"

definition buyer_Tick :: "X402Buyer \<Rightarrow> (bool \<times> X402Buyer) io" where
  "buyer_Tick b =
     (let b = b\<lparr>bu_TickCount := bu_TickCount b + 1\<rparr> in
      sdk_ClockNow (\<lambda>now.
        if bu_BirthNano b = 0
        then sdk_Log ''[x402buyer] Agent initialized. Fetching premium data from paywall.''
          (buyer_act (div_i64 (now - now) 1000000000) (b\<lparr>bu_BirthNano := now, bu_LastNano := now\<rparr>))
        else buyer_act (div_i64 (now - bu_BirthNano b) 1000000000) (b\<lparr>bu_LastNano := now\<rparr>)))"

definition buyer_Marshal :: "X402Buyer \<Rightarrow> bytes" where
  "buyer_Marshal b =
     Encoder_Finish
       (Encoder_Bytes (effect_Marshal (bu_Effects b))
       (Encoder_Bytes (bu_LastReceipt b)
       (Encoder_Int64 (bu_TotalPaid b)
       (Encoder_Uint32 (bu_DataCount b)
       (Encoder_Uint32 (bu_PaidCount b)
       (Encoder_Bool (bu_Phase b \<noteq> 0)
       (Encoder_Int64 (bu_LastNano b)
       (Encoder_Int64 (bu_BirthNano b)
       (Encoder_Uint64 (bu_TickCount b) NewEncoder)))))))))"

definition buyer_Unmarshal :: "bytes \<Rightarrow> X402Buyer \<Rightarrow> string + X402Buyer" where
  "buyer_Unmarshal data b =
     (let d = NewDecoder data;
          (tickCount, d) = Decoder_Uint64 d;
          (birthNano, d) = Decoder_Int64 d;
          (lastNano, d) = Decoder_Int64 d;
          (reconciling, d) = Decoder_Bool d;
          (paidCount, d) = Decoder_Uint32 d;
          (dataCount, d) = Decoder_Uint32 d;
          (totalPaid, d) = Decoder_Int64 d;
          (lastReceipt, d) = Decoder_Bytes d;
          (effects, d) = Decoder_Bytes d
      in case Decoder_Err d of
           Some err \<Rightarrow> Inl (''unmarshal checkpoint: '' @ error_string err)
         | None \<Rightarrow> Inr (b\<lparr>bu_TickCount := tickCount, bu_BirthNano := birthNano, bu_LastNano := lastNano,
              bu_Phase := (if reconciling then phaseReconciling else bu_Phase b), bu_PaidCount := paidCount,
              bu_DataCount := dataCount, bu_TotalPaid := totalPaid, bu_LastReceipt := lastReceipt,
              bu_Effects := effect_Unmarshal effects\<rparr>))"

definition buyer_code :: "X402Buyer agent_code" where
  "buyer_code = \<lparr>ag_Init = (\<lambda>b. b), ag_Tick = buyer_Tick, ag_Marshal = buyer_Marshal, ag_Unmarshal = buyer_Unmarshal\<rparr>"

section \<open>Encoded terms, intents and states\<close>

lemma parse_encoded_terms:
  assumes "length recipient + length memo + 16 < 2 ^ 31"
  shows "parsePaymentTerms (encodePaymentTerms amount recipient memo) = Inr (amount, recipient, memo)"
proof -
  let ?b = "encodePaymentTerms amount recipient memo" and ?r = "length recipient" and ?m = "length memo"
  have len: "length ?b = 16 + ?r + ?m" by (simp add: encodePaymentTerms_def)
  have amt: "get_u64 (go_slice 0 8 ?b) = amount" by (simp add: encodePaymentTerms_def go_slice_def)
  have rl: "sint (get_u32 (drop 8 ?b)) = int ?r" using assms by (simp add: encodePaymentTerms_def sint_len_u32)
  have r: "go_slice 12 (12 + ?r) ?b = bytes_of_string recipient" by (simp add: encodePaymentTerms_def go_slice_def)
  have "drop (12 + ?r) ?b = put_u32 (len_u32 memo) @ bytes_of_string memo"
    by (simp add: encodePaymentTerms_def)
  then have ml: "sint (get_u32 (drop (12 + ?r) ?b)) = int ?m" and
    m: "go_slice (16 + ?r) (16 + ?r + ?m) ?b = bytes_of_string memo"
    using assms by (simp_all add: sint_len_u32 go_slice_def encodePaymentTerms_def)
  have nats: "nat (12 + int ?r) = 12 + ?r" "nat (int (12 + ?r + 4) + int ?m) = 16 + ?r + ?m" by simp_all
  show ?thesis
    unfolding parsePaymentTerms_def Let_def len amt rl
    using assms ml m r by (simp add: add_i32_small nat_add_distrib add.commute add.left_commute)
qed

lemma payment_intent_wire:
  "payment_intent amount recipient memo = put_u64 amount @ (put_u32 (len_u32 recipient) @ bytes_of_string recipient) @
     (put_u32 (len_u32 memo) @ bytes_of_string memo) @ []"
  by (simp add: payment_intent_def Encoder_Finish_def NewEncoder_def codec_appends len_u32_def)

lemma decode_payment_intent:
  assumes "length recipient < 2 ^ 32" "length memo < 2 ^ 32"
  shows "decode_payment (payment_intent amount recipient memo) = (amount, recipient, memo, None)"
proof -
  have "decoder_at (put_u64 amount @ (put_u32 (len_u32 (bytes_of_string recipient)) @ bytes_of_string recipient) @
      (put_u32 (len_u32 (bytes_of_string memo)) @ bytes_of_string memo) @ []) (NewDecoder (payment_intent amount recipient memo))"
    by (simp add: payment_intent_wire len_u32_def)
  then show ?thesis
    unfolding decode_payment_def Let_def
    by (elim field_reads) (use assms in \<open>simp_all add: decoder_at_Err\<close>)
qed

text \<open>The states of an agent between two ticks.\<close>

definition recorded_payment :: "Intent \<Rightarrow> bool" where
  "recorded_payment x \<longleftrightarrow> it_State x = Recorded \<and> length (it_ID x) = 16 \<and>
     (\<exists>amount recipient memo. it_Data x = payment_intent amount recipient memo \<and> length recipient + length memo < 2 ^ 31 \<and> 0 < sint amount)"

definition buyer_good :: "X402Buyer \<Rightarrow> bool" where
  "buyer_good b \<longleftrightarrow> bu_Phase b = phasePolling \<and> length (bu_LastReceipt b) < 2 ^ 30 \<and> one_recorded recorded_payment (bu_Effects b)"

lemma recorded_payment_wf: "recorded_payment x \<Longrightarrow> wf_intent x \<and> length (wire_intent x) < 2 ^ 31 + 100"
  by (auto simp: recorded_payment_def wf_intent_def wire_intent_def payment_intent_wire)

lemma recorded_payment_shape: "recorded_payment x \<Longrightarrow> it_State x = Recorded \<and> wf_intent x \<and> length (wire_intent x) < 2 ^ 32 - 4"
  using recorded_payment_wf [of x] by (auto simp: recorded_payment_def)

lemma buyer_good_log: "buyer_good b \<Longrightarrow> one_recorded recorded_payment (bu_Effects b)"
  by (simp add: buyer_good_def)

lemmas buyer_good_effects = one_recorded_log [OF buyer_good_log recorded_payment_shape]

lemma buyer_Marshal_wire:
  "buyer_Marshal b = put_u64 (bu_TickCount b) @ put_u64 (bu_BirthNano b) @ put_u64 (bu_LastNano b) @
     [if bu_Phase b \<noteq> 0 then 1 else 0] @ put_u32 (bu_PaidCount b) @ put_u32 (bu_DataCount b) @ put_u64 (bu_TotalPaid b) @
     (put_u32 (len_u32 (bu_LastReceipt b)) @ bu_LastReceipt b) @
     (put_u32 (len_u32 (effect_Marshal (bu_Effects b))) @ effect_Marshal (bu_Effects b)) @ []"
  by (simp add: buyer_Marshal_def Encoder_Finish_def NewEncoder_def codec_appends)

lemma buyer_restored:
  assumes "buyer_good b"
  shows "buyer_Unmarshal (buyer_Marshal b) zero_buyer = Inr b"
proof -
  note e = buyer_good_effects [OF assms]
  have "decoder_at (put_u64 (bu_TickCount b) @ put_u64 (bu_BirthNano b) @ put_u64 (bu_LastNano b) @
     [if bu_Phase b \<noteq> 0 then 1 else 0] @ put_u32 (bu_PaidCount b) @ put_u32 (bu_DataCount b) @ put_u64 (bu_TotalPaid b) @
     (put_u32 (len_u32 (bu_LastReceipt b)) @ bu_LastReceipt b) @
     (put_u32 (len_u32 (effect_Marshal (bu_Effects b))) @ effect_Marshal (bu_Effects b)) @ []) (NewDecoder (buyer_Marshal b))"
    by (simp only: buyer_Marshal_wire decoder_at_New)
  then show ?thesis
    unfolding buyer_Unmarshal_def Let_def
    by (elim field_reads) (use assms e in \<open>simp_all add: decoder_at_Err zero_buyer_def buyer_good_def one_recorded_def\<close>)
qed

section \<open>One tick\<close>

text \<open>The payments a run made: the calls of \<open>WalletPay\<close> that returned no error.\<close>

definition pay_ob :: "sdk_call \<Rightarrow> sdk_answer \<Rightarrow> (int64 \<times> string \<times> string) list" where
  "pay_ob c a = (case c of CallWalletPay amount recipient memo \<Rightarrow> (if an_err a = None then [(amount, recipient, memo)] else []) | _ \<Rightarrow> [])"

lemma pay_ob_simps [simp]:
  "pay_ob CallClockNow a = []" "pay_ob (CallRandBytes n) a = []" "pay_ob (CallLog m) a = []" "pay_ob CallWalletBalance a = []"
  "pay_ob (CallHTTPRequest x u hs b) a = []"
  "pay_ob (CallWalletPay amount recipient memo) a = (if an_err a = None then [(amount, recipient, memo)] else [])"
  by (simp_all add: pay_ob_def)

text \<open>What one tick may do with the books, given the intents before it.\<close>

definition buyer_post :: "X402Buyer \<Rightarrow> (int64 \<times> string \<times> string) list \<Rightarrow> X402Buyer \<Rightarrow> bool" where
  "buyer_post b seen b' \<longleftrightarrow>
     buyer_good b' \<and> bu_PaidCount b' = bu_PaidCount b + of_nat (length seen) \<and>
     bu_TotalPaid b' = bu_TotalPaid b + sum_list (map fst seen) \<and>
     (case ef_intents (bu_Effects b) of
        [] \<Rightarrow> seen = []
      | x # _ \<Rightarrow> ef_intents (bu_Effects b') = [] \<and>
          (seen = [] \<or> (\<exists>amount recipient memo. it_Data x = payment_intent amount recipient memo \<and> seen = [(amount, recipient, memo)])))"

lemma answer_bytes_iff: "answer_bytes a = Inr r \<longleftrightarrow> an_err a = None \<and> r = an_bytes a" "answer_bytes a = Inl e \<longleftrightarrow> an_err a = Some e"
  by (auto simp: answer_bytes_def split: option.splits)

lemma execute_wp:
  assumes "buyer_good b" "ef_intents (bu_Effects b) = [x]"
  shows "io_wp pay_ob (\<lambda>seen r. buyer_post b seen (snd r)) [] (buyer_executePayment x b)"
proof -
  from assms obtain amount recipient memo where x: "it_State x = Recorded" "length (it_ID x) = 16"
    "it_Data x = payment_intent amount recipient memo" "length recipient + length memo < 2 ^ 31" "0 < sint amount"
    by (auto simp: buyer_good_def one_recorded_def recorded_payment_def)
  have e: "bu_Effects b = \<lparr>ef_intents = [x]\<rparr>" using assms(2) by (metis EffectLog_eq)
  show ?thesis
    using x assms
    by (auto simp: buyer_executePayment_def decode_payment_intent e single_intent io_rules answer_bytes_def answer_ok_def
        buyer_post_def buyer_good_def one_recorded_def Let_def split: sum.split option.split)
qed

lemma parse_bounds: "parsePaymentTerms body = Inr (amount, recipient, memo) \<Longrightarrow> length recipient + length memo \<le> length body"
  by (auto simp: parsePaymentTerms_def Let_def go_slice_def split: if_splits)

lemma record_wp:
  assumes "buyer_good b" "ef_intents (bu_Effects b) = []" "length recipient + length memo < 2 ^ 31" "0 < sint amount"
  shows "io_wp pay_ob (\<lambda>seen r. buyer_post b seen (snd r)) [] (buyer_recordPaymentIntent amount recipient memo b)"
proof -
  have e: "bu_Effects b = \<lparr>ef_intents = []\<rparr>" using assms(2) by (metis EffectLog_eq)
  show ?thesis
    unfolding buyer_recordPaymentIntent_def
    by (rule wp_RandBytes) (use assms in \<open>auto simp: e Record_empty io_rules buyer_post_def buyer_good_def one_recorded_def recorded_payment_def\<close>)
qed

lemma fetch_wp:
  assumes "buyer_good b" "ef_intents (bu_Effects b) = []"
  shows "io_wp pay_ob (\<lambda>seen r. buyer_post b seen (snd r)) [] (buyer_fetch b)"
proof -
  have "io_wp pay_ob (\<lambda>seen r. buyer_post b seen (snd r)) [] (buyer_recordPaymentIntent amount recipient memo b)"
    if "parsePaymentTerms (an_bytes a) = Inr (amount, recipient, memo)" "answer_ok (CallHTTPRequest ''GET'' paywallURL hs []) a" "0 < sint amount"
    for a amount recipient memo hs
    using record_wp [OF assms] parse_bounds [OF that(1)] that(2,3) by (simp add: answer_ok_def)
  with assms show ?thesis
    by (auto simp: buyer_fetch_def io_rules buyer_post_def buyer_good_def one_recorded_def Let_def not_le split: sum.split option.split)
qed

lemma buyer_post_cong:
  assumes "ef_intents (bu_Effects b1) = ef_intents (bu_Effects b)" "bu_PaidCount b1 = bu_PaidCount b" "bu_TotalPaid b1 = bu_TotalPaid b"
  shows "buyer_post b1 seen b' = buyer_post b seen b'"
  using assms by (simp add: buyer_post_def)

lemma act_wp:
  assumes "buyer_good b"
  shows "io_wp pay_ob (\<lambda>seen r. buyer_post b seen (snd r)) [] (buyer_act age b)"
proof -
  note f = buyer_good_effects(3-5) [OF assms]
  show ?thesis
  proof (cases "ef_intents (bu_Effects b)")
    case Nil
    then show ?thesis
      using fetch_wp [OF assms Nil] assms by (simp add: buyer_act_def f io_rules) (simp add: buyer_post_def)
  next
    case (Cons x xs)
    then have "ef_intents (bu_Effects b) = [x]" "it_State x = Recorded"
      using assms by (simp_all add: buyer_good_def one_recorded_def recorded_payment_def)
    then show ?thesis using execute_wp [OF assms] by (simp add: buyer_act_def f)
  qed
qed

lemma buyer_tick_wp:
  assumes "buyer_good b"
  shows "io_wp pay_ob (\<lambda>seen r. buyer_post b seen (snd r)) [] (buyer_Tick b)"
proof -
  have "io_wp pay_ob (\<lambda>seen r. buyer_post b seen (snd r)) [] (buyer_act age b1)"
    if "bu_Effects b1 = bu_Effects b" "bu_PaidCount b1 = bu_PaidCount b" "bu_TotalPaid b1 = bu_TotalPaid b"
      "bu_Phase b1 = bu_Phase b" "bu_LastReceipt b1 = bu_LastReceipt b" for b1 age
  proof -
    have "buyer_good b1" using assms by (simp add: that buyer_good_def one_recorded_def)
    moreover have "buyer_post b = buyer_post b1" by (intro ext buyer_post_cong [symmetric]) (simp_all add: that)
    ultimately show ?thesis using act_wp by simp
  qed
  then show ?thesis by (simp add: buyer_Tick_def io_rules Let_def)
qed

lemma buyer_zero_good: "buyer_good zero_buyer"
  by (simp add: zero_buyer_def buyer_good_def one_recorded_def)

interpretation buyer: resumable_agent buyer_code zero_buyer buyer_good
proof unfold_locales
  fix b assume "buyer_good b"
  then show "io_all (\<lambda>(again, b'). buyer_good b') (ag_Tick buyer_code b)"
    using io_all_of_wp [OF buyer_tick_wp] by (fastforce simp: buyer_code_def buyer_post_def)
  from \<open>buyer_good b\<close> show "ag_Unmarshal buyer_code (ag_Marshal buyer_code b) zero_buyer = Inr b"
    by (simp add: buyer_code_def buyer_restored)
qed (simp_all add: buyer_code_def buyer_zero_good buyer_Marshal_wire)

section \<open>The payments of a whole life\<close>

definition buyer_books :: "X402Buyer life \<Rightarrow> bool" where
  "buyer_books l \<longleftrightarrow> buyer_good (lf_agent l) \<and>
     bu_PaidCount (lf_agent l) = of_nat (length (observed pay_ob (lf_trace l))) \<and>
     bu_TotalPaid (lf_agent l) = sum_list (map fst (observed pay_ob (lf_trace l)))"

lemma buyer_books_step:
  assumes "buyer_books l" "life_step buyer_code zero_buyer ev l = Some l'" "trace_ok (lf_trace l')" "no_crash ev"
  shows "buyer_books l'"
proof (cases ev)
  case (LTick as)
  then obtain tr r where f: "follow (buyer_Tick (lf_agent l)) as = (tr, Returned r)"
    and l': "l' = l\<lparr>lf_agent := snd r, lf_trace := lf_trace l @ tr\<rparr>"
    using assms(2) by (auto simp: buyer_code_def split: prod.splits outcome.splits)
  have "buyer_post (lf_agent l) (observed pay_ob tr) (snd r)"
    using io_wp_sound [OF buyer_tick_wp f] assms(1,3) l' by (simp add: buyer_books_def)
  with assms(1) l' show ?thesis by (simp add: buyer_books_def buyer_post_def)
next
  case LSave
  with assms show ?thesis by (auto simp: buyer_books_def)
qed (use assms in simp)

lemma buyer_books_run:
  "buyer_books l \<Longrightarrow> life_run buyer_code zero_buyer evs l = Some l' \<Longrightarrow> trace_ok (lf_trace l') \<Longrightarrow> list_all no_crash evs \<Longrightarrow>
   buyer_books l'"
proof (induction evs arbitrary: l)
  case (Cons ev evs)
  from Cons.prems(2,3) obtain l1 where "life_step buyer_code zero_buyer ev l = Some l1"
    "life_run buyer_code zero_buyer evs l1 = Some l'" "trace_ok (lf_trace l1)"
    by (rule life_run_Cons)
  with Cons.prems(1,4) buyer_books_step [of l ev l1] Cons.IH [of l1] Cons.prems(3) show ?case by simp
qed simp

text \<open>
  The buyer's books are right: in a life without crashes, however the world answers its calls, \<open>PaidCount\<close> is the number of
  payments the wallet confirmed (modulo \<open>2 ^ 32\<close>) and \<open>TotalPaid\<close> their sum; between two ticks
  at most one intent exists, it is recorded, and none is in flight.
\<close>

theorem buyer_accounts_payments:
  assumes "life_run buyer_code zero_buyer evs \<lparr>lf_agent = zero_buyer, lf_ckpt = None, lf_trace = []\<rparr> = Some l"
    and "trace_ok (lf_trace l)" "list_all no_crash evs"
  shows "bu_PaidCount (lf_agent l) = of_nat (length (observed pay_ob (lf_trace l))) \<and>
    bu_TotalPaid (lf_agent l) = sum_list (map fst (observed pay_ob (lf_trace l))) \<and>
    length (ef_intents (bu_Effects (lf_agent l))) \<le> 1 \<and>
    (\<forall>x \<in> set (ef_intents (bu_Effects (lf_agent l))). it_State x = Recorded)"
proof -
  have "buyer_books \<lparr>lf_agent = zero_buyer, lf_ckpt = None, lf_trace = []\<rparr>"
    using buyer_zero_good by (simp add: buyer_books_def zero_buyer_def)
  from buyer_books_run [OF this assms] show ?thesis
    by (auto simp: buyer_books_def buyer_good_def one_recorded_def list_all_iff recorded_payment_def)
qed

text \<open>A tick that executes a recorded intent, run to the end or only up to the payment.\<close>

lemma execute_trace:
  assumes "buyer_good b" "bu_Effects b = \<lparr>ef_intents = [x]\<rparr>" "it_Data x = payment_intent amount recipient memo"
    "length recipient < 2 ^ 32" "length memo < 2 ^ 32" "bu_BirthNano b \<noteq> 0" "an_err paid = None"
  shows "\<exists>tr. follow (buyer_Tick b) [now, logged, paid] = (tr, Stopped) \<and> observed pay_ob tr = [(amount, recipient, memo)]"
    "\<exists>tr b'. follow (buyer_Tick b) [now, logged, paid, logged'] = (tr, Returned (True, b')) \<and>
       observed pay_ob tr = [(amount, recipient, memo)] \<and> bu_PaidCount b' = bu_PaidCount b + 1"
proof -
  from assms(1,2) have x: "it_State x = Recorded" "length (it_ID x) = 16" by (simp_all add: buyer_good_def one_recorded_def recorded_payment_def)
  note f = buyer_good_effects(3-5) [OF assms(1), unfolded assms(2)]
  show "\<exists>tr. follow (buyer_Tick b) [now, logged, paid] = (tr, Stopped) \<and> observed pay_ob tr = [(amount, recipient, memo)]"
    using x assms(2-)
    by (simp add: buyer_Tick_def buyer_act_def f buyer_executePayment_def decode_payment_intent follow_rules key_prefix_def
        single_intent answer_bytes_def Let_def)
  show "\<exists>tr b'. follow (buyer_Tick b) [now, logged, paid, logged'] = (tr, Returned (True, b')) \<and>
       observed pay_ob tr = [(amount, recipient, memo)] \<and> bu_PaidCount b' = bu_PaidCount b + 1"
    using x assms(2-)
    by (simp add: buyer_Tick_def buyer_act_def f buyer_executePayment_def decode_payment_intent follow_rules key_prefix_def
        single_intent answer_bytes_def Let_def)
qed

text \<open>
  C27 A crash repeats a payment.  Take any state between two ticks in which a payment is recorded and checkpointed.  If the process dies
  in the next tick after \<open>WalletPay\<close> returned, the resumed agent, which finds the intent recorded and not
  unresolved, pays again: the world has seen the same payment twice and the agent has counted one.
\<close>

theorem buyer_crash_pays_twice:
  assumes "buyer_good b" "bu_Effects b = \<lparr>ef_intents = [x]\<rparr>" "it_Data x = payment_intent amount recipient memo"
    and "length recipient < 2 ^ 32" "length memo < 2 ^ 32" "bu_BirthNano b \<noteq> 0" "an_err paid = None" "an_err paid' = None"
  shows "\<exists>l. life_run buyer_code zero_buyer [LSave, LCrash [now, logged, paid], LTick [now', logged', paid', logged'']]
      \<lparr>lf_agent = b, lf_ckpt = None, lf_trace = []\<rparr> = Some l \<and>
    observed pay_ob (lf_trace l) = [(amount, recipient, memo), (amount, recipient, memo)] \<and>
    bu_PaidCount (lf_agent l) = bu_PaidCount b + 1"
proof -
  obtain tr1 where 1: "follow (buyer_Tick b) [now, logged, paid] = (tr1, Stopped)" "observed pay_ob tr1 = [(amount, recipient, memo)]"
    using execute_trace(1) [OF assms(1-7)] by blast
  obtain tr2 b2 where 2: "follow (buyer_Tick b) [now', logged', paid', logged''] = (tr2, Returned (True, b2))"
    "observed pay_ob tr2 = [(amount, recipient, memo)]" "bu_PaidCount b2 = bu_PaidCount b + 1"
    using execute_trace(2) [OF assms(1-6,8)] by blast
  from buyer.restart_saved [OF assms(1)] have "restart buyer_code zero_buyer (Some (buyer_Marshal b)) = Some b"
    by (simp add: buyer_code_def)
  with 1 2 show ?thesis by (simp add: buyer_code_def)
qed

definition example_buyer :: X402Buyer where
  "example_buyer = zero_buyer\<lparr>bu_BirthNano := 5, bu_Effects :=
     \<lparr>ef_intents = [\<lparr>it_ID = replicate 16 7, it_State = Recorded, it_Data = payment_intent 100000 ''shop'' ''data''\<rparr>]\<rparr>\<rparr>"

lemma example_buyer_good: "buyer_good example_buyer"
proof -
  have "recorded_payment \<lparr>it_ID = replicate 16 7, it_State = Recorded, it_Data = payment_intent 100000 ''shop'' ''data''\<rparr>"
    unfolding recorded_payment_def by simp (intro exI conjI, rule refl, simp_all)
  then show ?thesis by (simp add: example_buyer_def zero_buyer_def buyer_good_def one_recorded_def)
qed

theorem buyer_crash_pays_twice_witness:
  "\<exists>l. life_run buyer_code zero_buyer
      [LSave, LCrash [plain_answer, plain_answer, plain_answer], LTick [plain_answer, plain_answer, plain_answer, plain_answer]]
      \<lparr>lf_agent = example_buyer, lf_ckpt = None, lf_trace = []\<rparr> = Some l \<and>
    observed pay_ob (lf_trace l) = [(100000, ''shop'', ''data''), (100000, ''shop'', ''data'')] \<and> bu_PaidCount (lf_agent l) = 1"
proof -
  have "bu_Effects example_buyer =
      \<lparr>ef_intents = [\<lparr>it_ID = replicate 16 7, it_State = Recorded, it_Data = payment_intent 100000 ''shop'' ''data''\<rparr>]\<rparr>"
    "bu_BirthNano example_buyer \<noteq> 0" "bu_PaidCount example_buyer = 0"
    by (simp_all add: example_buyer_def zero_buyer_def)
  with buyer_crash_pays_twice [OF example_buyer_good, of _ 100000 "''shop''" "''data''" plain_answer plain_answer]
  show ?thesis by simp
qed

text \<open>The first tick against the paywall, for every clock, every random key.\<close>

definition paywall_terms :: bytes where
  "paywall_terms = encodePaymentTerms paymentAmount paymentRecipient paymentMemo"

lemma parse_paywall_terms: "parsePaymentTerms paywall_terms = Inr (paymentAmount, paymentRecipient, paymentMemo)"
  by (simp add: paywall_terms_def parse_encoded_terms)

definition example_ticks :: "life_event list" where
  "example_ticks =
     [LTick [plain_answer, plain_answer, plain_answer, \<lparr>an_num = 402, an_bytes = paywall_terms, an_err = None\<rparr>, plain_answer,
        plain_answer, plain_answer], LSave, LTick [plain_answer, plain_answer, plain_answer, plain_answer]]"

definition example_paid :: X402Buyer where
  "example_paid = zero_buyer\<lparr>bu_TickCount := 1, bu_BirthNano := 5, bu_LastNano := 5, bu_Effects :=
     \<lparr>ef_intents = [\<lparr>it_ID = replicate 16 0, it_State = Recorded, it_Data = payment_intent paymentAmount paymentRecipient paymentMemo\<rparr>]\<rparr>\<rparr>"

lemma example_paid_good: "buyer_good example_paid"
proof -
  have "recorded_payment \<lparr>it_ID = replicate 16 0, it_State = Recorded, it_Data = payment_intent paymentAmount paymentRecipient paymentMemo\<rparr>"
    unfolding recorded_payment_def by simp (intro exI conjI, rule refl, simp_all)
  then show ?thesis by (simp add: example_paid_def zero_buyer_def buyer_good_def one_recorded_def)
qed

lemma example_first_tick:
  "\<exists>tr. follow (buyer_Tick zero_buyer) [plain_answer, plain_answer, plain_answer, \<lparr>an_num = 402, an_bytes = paywall_terms, an_err = None\<rparr>,
      plain_answer, plain_answer, plain_answer] = (tr, Returned (False, example_paid)) \<and> observed pay_ob tr = []"
  by (simp add: buyer_Tick_def buyer_act_def buyer_fetch_def buyer_recordPaymentIntent_def zero_buyer_def effect_Unresolved_def
      effect_Pending_def follow_rules parse_paywall_terms Record_empty key_prefix_def example_paid_def to_array_def Let_def)

lemma example_life:
  "\<exists>l. life_run buyer_code zero_buyer example_ticks \<lparr>lf_agent = zero_buyer, lf_ckpt = None, lf_trace = []\<rparr> = Some l \<and>
     observed pay_ob (lf_trace l) = [(100000, paymentRecipient, paymentMemo)] \<and> trace_ok (lf_trace l)"
proof -
  have ok: "answer_ok c plain_answer" "answer_ok c \<lparr>an_num = 402, an_bytes = paywall_terms, an_err = None\<rparr>" for c
    by (simp_all add: answer_ok_def paywall_terms_def encodePaymentTerms_def)
  obtain tr1 where 1: "follow (buyer_Tick zero_buyer) [plain_answer, plain_answer, plain_answer,
      \<lparr>an_num = 402, an_bytes = paywall_terms, an_err = None\<rparr>, plain_answer, plain_answer, plain_answer] = (tr1, Returned (False, example_paid))"
    "observed pay_ob tr1 = []" using example_first_tick by blast
  have x: "bu_Effects example_paid =
      \<lparr>ef_intents = [\<lparr>it_ID = replicate 16 0, it_State = Recorded, it_Data = payment_intent paymentAmount paymentRecipient paymentMemo\<rparr>]\<rparr>"
    "bu_BirthNano example_paid \<noteq> 0" by (simp_all add: example_paid_def)
  obtain tr2 b2 where 2: "follow (buyer_Tick example_paid) [plain_answer, plain_answer, plain_answer, plain_answer] = (tr2, Returned (True, b2))"
    "observed pay_ob tr2 = [(paymentAmount, paymentRecipient, paymentMemo)]"
    using execute_trace(2) [OF example_paid_good x(1), of paymentAmount paymentRecipient paymentMemo plain_answer plain_answer plain_answer plain_answer]
      x(2) by auto
  have "trace_ok tr1" "trace_ok tr2" using follow_trace_ok [OF 1(1)] follow_trace_ok [OF 2(1)] ok by auto
  with 1 2 show ?thesis by (simp add: example_ticks_def buyer_code_def)
qed

theorem buyer_accounts_payments_witness:
  "\<exists>l. life_run buyer_code zero_buyer example_ticks \<lparr>lf_agent = zero_buyer, lf_ckpt = None, lf_trace = []\<rparr> = Some l \<and>
     bu_PaidCount (lf_agent l) = 1 \<and> bu_TotalPaid (lf_agent l) = 100000"
proof -
  obtain l where l: "life_run buyer_code zero_buyer example_ticks \<lparr>lf_agent = zero_buyer, lf_ckpt = None, lf_trace = []\<rparr> = Some l"
    "observed pay_ob (lf_trace l) = [(100000, paymentRecipient, paymentMemo)]" "trace_ok (lf_trace l)" using example_life by blast
  have "list_all no_crash example_ticks" by (simp add: example_ticks_def)
  from buyer_accounts_payments [OF l(1,3) this] l(1,2) show ?thesis by simp
qed

section \<open>The buyer against the paywall\<close>

text \<open>A world in which the paywall answers the requests and the wallet accepts the payments; clock and
  random bytes are arbitrary.\<close>

definition header_get :: "string \<Rightarrow> (string \<times> string) list \<Rightarrow> string" where
  "header_get name headers = (case map_of headers name of None \<Rightarrow> '''' | Some v \<Rightarrow> v)"

definition paywall_world :: "sdk_call \<Rightarrow> sdk_answer \<Rightarrow> bool" where
  "paywall_world c a =
     (case c of
        CallHTTPRequest method url headers body \<Rightarrow>
          an_err a = None \<and> (\<exists>pick now. pick < 5 \<and>
            (sint (an_num a), an_bytes a) = handlePremiumData (header_get ''X-Payment'' headers) pick now)
      | CallWalletPay amount recipient memo \<Rightarrow> an_err a = None \<and> an_bytes a \<noteq> []
      | _ \<Rightarrow> True)"

lemma paywall_world_simps [simp]:
  "paywall_world (CallHTTPRequest method url headers body) a \<longleftrightarrow> an_err a = None \<and> (\<exists>pick now. pick < 5 \<and>
     (sint (an_num a), an_bytes a) = handlePremiumData (header_get ''X-Payment'' headers) pick now)"
  "paywall_world (CallWalletPay amount recipient memo) a \<longleftrightarrow> an_err a = None \<and> an_bytes a \<noteq> []"
  "paywall_world CallClockNow a" "paywall_world (CallRandBytes n) a" "paywall_world (CallLog m) a"
  by (simp_all add: paywall_world_def)

lemma encodeBytesHex_empty [simp]: "encodeBytesHex data = [] \<longleftrightarrow> data = []"
  by (cases data) (simp_all add: encodeBytesHex_def)

text \<open>The four ticks of a purchase.\<close>

definition fresh_at :: "uint64 \<Rightarrow> X402Buyer \<Rightarrow> bool" where
  "fresh_at n b \<longleftrightarrow> bu_TickCount b = n \<and> bu_Phase b = 0 \<and> bu_DataCount b = 0"

definition bought :: "uint64 \<Rightarrow> X402Buyer \<Rightarrow> bool" where
  "bought n b \<longleftrightarrow> fresh_at n b \<and> bu_Effects b = \<lparr>ef_intents = []\<rparr> \<and> bu_PaidCount b = 1 \<and> bu_TotalPaid b = paymentAmount \<and> bu_LastReceipt b \<noteq> []"

lemma purchase_tick1:
  "io_must paywall_world (\<lambda>r. fresh_at 1 (snd r) \<and> bu_PaidCount (snd r) = 0 \<and> bu_TotalPaid (snd r) = 0 \<and>
     (\<exists>key. length key = 16 \<and> bu_Effects (snd r) = \<lparr>ef_intents =
       [\<lparr>it_ID = key, it_State = Recorded, it_Data = payment_intent paymentAmount paymentRecipient paymentMemo\<rparr>]\<rparr>)) (buyer_Tick zero_buyer)"
  by (auto simp: buyer_Tick_def buyer_act_def buyer_fetch_def buyer_recordPaymentIntent_def zero_buyer_def effect_Unresolved_def
      effect_Pending_def handlePremiumData_def header_get_def paywall_terms_def [symmetric] parse_paywall_terms Record_empty
      key_prefix_def fresh_at_def Let_def must_rules intro!: must_Log must_RandBytes)

lemma purchase_tick2:
  assumes "fresh_at 1 b" "bu_PaidCount b = 0" "bu_TotalPaid b = 0" "length key = 16"
    "bu_Effects b = \<lparr>ef_intents = [\<lparr>it_ID = key, it_State = Recorded, it_Data = payment_intent paymentAmount paymentRecipient paymentMemo\<rparr>]\<rparr>"
  shows "io_must paywall_world (\<lambda>r. bought 2 (snd r)) (buyer_Tick b)"
proof -
  let ?x = "\<lparr>it_ID = key, it_State = Recorded, it_Data = payment_intent paymentAmount paymentRecipient paymentMemo\<rparr>"
  note e = single_intent [of ?x, simplified]
  show ?thesis
    using assms
    by (auto simp: buyer_Tick_def buyer_act_def buyer_executePayment_def decode_payment_intent effect_Unresolved_def effect_Pending_def
        e key_prefix_def bought_def fresh_at_def answer_bytes_def Let_def must_rules intro!: must_Log)
qed

lemma purchase_tick3: "bought 2 b \<Longrightarrow> io_must paywall_world (\<lambda>r. bought 3 (snd r)) (buyer_Tick b)"
  by (auto simp: buyer_Tick_def buyer_act_def effect_Unresolved_def effect_Pending_def bought_def fresh_at_def Let_def must_rules
      intro!: must_Log)

lemma purchase_tick4:
  "bought 3 b \<Longrightarrow> io_must paywall_world (\<lambda>r. bu_DataCount (snd r) = 1 \<and> bu_PaidCount (snd r) = 1 \<and> bu_TotalPaid (snd r) = paymentAmount \<and>
     bu_LastReceipt (snd r) = []) (buyer_Tick b)"
  by (auto simp: buyer_Tick_def buyer_act_def buyer_fetch_def effect_Unresolved_def effect_Pending_def bought_def fresh_at_def
      handlePremiumData_def header_get_def Let_def must_rules intro!: must_Log)

text \<open>
  C26 A purchase completes.  Against a paywall that answers as \<open>handlePremiumData\<close> does and a wallet that accepts payments,
  a fresh buyer has the data after four ticks, having paid the asked price exactly once; the clock, the
  random key, the receipt and the insight may be anything.
\<close>

theorem buyer_obtains_data:
  assumes "\<And>c w. paywall_world c (fst (H c w))"
  shows "\<exists>b w'. run_ticks 4 buyer_code H zero_buyer w = Some (b, w') \<and>
    bu_DataCount b = 1 \<and> bu_PaidCount b = 1 \<and> bu_TotalPaid b = paymentAmount \<and> bu_LastReceipt b = []"
proof -
  let ?done = "\<lambda>b. bu_DataCount b = 1 \<and> bu_PaidCount b = 1 \<and> bu_TotalPaid b = paymentAmount \<and> bu_LastReceipt b = []"
  note step = run_ticks_step [where C = paywall_world and A = buyer_code and H = H, OF _ assms]
  have 4: "\<exists>s w'. run_ticks (Suc 0) buyer_code H b w = Some (s, w') \<and> ?done s" if "bought 3 b" for b w
    by (rule step [where P = ?done]) (use purchase_tick4 [OF that] in \<open>simp_all add: buyer_code_def\<close>)
  have 3: "\<exists>s w'. run_ticks (Suc (Suc 0)) buyer_code H b w = Some (s, w') \<and> ?done s" if "bought 2 b" for b w
    by (rule step [where P = "bought 3"]) (use purchase_tick3 [OF that] 4 in \<open>simp_all add: buyer_code_def\<close>)
  let ?P = "\<lambda>b. fresh_at 1 b \<and> bu_PaidCount b = 0 \<and> bu_TotalPaid b = 0 \<and> (\<exists>key. length key = 16 \<and> bu_Effects b = \<lparr>ef_intents =
       [\<lparr>it_ID = key, it_State = Recorded, it_Data = payment_intent paymentAmount paymentRecipient paymentMemo\<rparr>]\<rparr>)"
  have 2: "\<exists>s w'. run_ticks (Suc (Suc (Suc 0))) buyer_code H b w = Some (s, w') \<and> ?done s" if "?P b" for b w
    by (rule step [where P = "bought 2"]) (use purchase_tick2 that 3 in \<open>auto simp: buyer_code_def\<close>)
  have "\<exists>s w'. run_ticks (Suc (Suc (Suc (Suc 0)))) buyer_code H zero_buyer w = Some (s, w') \<and> ?done s"
    by (rule step [where P = ?P]) (use purchase_tick1 2 in \<open>simp_all add: buyer_code_def\<close>)
  then show ?thesis by (simp add: eval_nat_numeral)
qed

definition example_paywall :: "sdk_call \<Rightarrow> nat \<Rightarrow> sdk_answer \<times> nat" where
  "example_paywall c n =
     (case c of
        CallHTTPRequest method url headers body \<Rightarrow>
          (case handlePremiumData (header_get ''X-Payment'' headers) 0 7 of
             (status, data) \<Rightarrow> (\<lparr>an_num = word_of_int status, an_bytes = data, an_err = None\<rparr>, Suc n))
      | _ \<Rightarrow> (\<lparr>an_num = of_nat n, an_bytes = [1], an_err = None\<rparr>, Suc n))"

lemma example_paywall_world: "paywall_world c (fst (example_paywall c n))"
proof (cases c)
  case (CallHTTPRequest verb url headers body)
  obtain status data where h: "handlePremiumData (header_get ''X-Payment'' headers) 0 7 = (status, data)" by fastforce
  then have "sint (word_of_int status :: int64) = status"
    by (auto simp: handlePremiumData_def split: if_splits)
  with CallHTTPRequest h show ?thesis
    by (auto simp: example_paywall_def intro!: exI [of _ "0 :: nat"] exI [of _ "7 :: int64"])
qed (simp_all add: example_paywall_def paywall_world_def)

theorem buyer_obtains_data_witness:
  "\<exists>b n. run_ticks 4 buyer_code example_paywall zero_buyer 1 = Some (b, n) \<and> bu_DataCount b = 1 \<and> bu_PaidCount b = 1"
  using buyer_obtains_data [of example_paywall 1, OF example_paywall_world] by blast

text \<open>
  Payment terms survive the wire: what the paywall and the compute provider encode into a 402 response, the agents' parser reads back
  as the same amount, recipient and memo, for every amount and every text that fits a 32-bit length.
\<close>

theorem payment_terms_roundtrip:
  assumes "length recipient + length memo + 16 < 2 ^ 31"
  shows "parsePaymentTerms (encodePaymentTerms amount recipient memo) = Inr (amount, recipient, memo)"
  by (rule parse_encoded_terms [OF assms])

theorem payment_terms_roundtrip_witness:
  "parsePaymentTerms (encodePaymentTerms 100000 ''paywall-provider'' ''premium-data-access'') =
     Inr (100000, ''paywall-provider'', ''premium-data-access'')"
  using payment_terms_roundtrip [of "''paywall-provider''" "''premium-data-access''" 100000] by simp

lemma hostile_length: "2 ^ 31 \<le> unat (n :: uint32) + 12 \<Longrightarrow> add_i32 12 (sint n) < 12"
proof -
  assume n: "2 ^ 31 \<le> unat n + 12"
  have u: "int (unat n) < 2 ^ 32" using unsigned_less [of n, where ?'a = int] by simp
  have "(word_of_int (2 ^ 32) :: int32) = 0" by simp
  then have "(word_of_int (int (unat n) + 12 - 2 ^ 32) :: int32) = word_of_int (int (unat n) + 12)"
    by (metis wi_hom_sub diff_zero)
  also have "\<dots> = word_of_int (12 + sint n)" by (simp add: add.commute)
  finally have "add_i32 12 (sint n) = sint (word_of_int (int (unat n) + 12 - 2 ^ 32) :: int32)"
    by (simp only: add_i32_def)
  also have "\<dots> = int (unat n) + 12 - 2 ^ 32"
  proof (rule sint32_of_int)
    have "int (2 ^ 31) \<le> int (unat n + 12)" using n by (simp only: of_nat_le_iff)
    then show "- (2 ^ 31) \<le> int (unat n) + 12 - 2 ^ 32" by simp
    show "int (unat n) + 12 - 2 ^ 32 < 2 ^ 31" using u by simp
  qed
  finally show ?thesis using u by simp
qed

text \<open>
  A paywall can kill the agent: terms whose recipient length is \<open>2 ^ 31 - 12\<close> or more make the length check wrap around in the
  32-bit \<open>int\<close> of the compiled agent, and the slice expression behind it panics, whatever the rest of the
  response holds; the tick that fetched the terms ends in a trap.
\<close>

theorem hostile_terms_panic:
  assumes "2 ^ 31 \<le> unat n + 12"
  shows "\<exists>msg. parsePaymentTerms (put_u64 amount @ put_u32 n @ rest) = Inl msg \<and>
    snd (follow (buyer_fetch b) [\<lparr>an_num = 402, an_bytes = put_u64 amount @ put_u32 n @ rest, an_err = None\<rparr>]) = Panicked msg"
proof -
  have "parsePaymentTerms (put_u64 amount @ put_u32 n @ rest) = Inl ''runtime error: slice bounds out of range''"
    using hostile_length [OF assms] by (simp add: parsePaymentTerms_def Let_def)
  then show ?thesis by (simp add: buyer_fetch_def follow_rules Let_def)
qed

theorem hostile_terms_panic_witness:
  "\<exists>msg. parsePaymentTerms (put_u64 1 @ put_u32 2147483648 @ []) = Inl msg"
  using hostile_terms_panic [of 2147483648 1 "[]" zero_buyer] by auto

end
