(* ===== verification/Deployer.thy ===== *)
theory Deployer
  imports Buyer
begin

text \<open>
  The agent \<open>src/agents/deployer\<close>, which pays a compute provider, deploys itself there and watches the deployment, and the provider of
  \<open>src/cmd/mockcloud\<close>.  The agent's copies of the parser of payment terms and of the hex encoder, and the provider's encoder
  of payment terms, are the same text as those of the buyer and the paywall and are the definitions of \<open>Buyer\<close>.  Go iterates over
  the two headers of the deployment request in no fixed order; the list here is one of the two orders, and the provider looks headers up by name.
\<close>

section \<open>Scanning a response\<close>

function deployer_indexOfFrom :: "string \<Rightarrow> string \<Rightarrow> nat \<Rightarrow> int" where
  "deployer_indexOfFrom s sub i =
     (if i + length sub \<le> length s then (if go_slice i (i + length sub) s = sub then int i else deployer_indexOfFrom s sub (i + 1)) else -1)"
  by auto
termination by (relation "measure (\<lambda>(s, sub, i). Suc (length s) - i)") auto

declare deployer_indexOfFrom.simps [simp del]

definition deployer_indexOf :: "string \<Rightarrow> string \<Rightarrow> int" where
  "deployer_indexOf s sub = deployer_indexOfFrom s sub 0"

definition extractJSONString :: "bytes \<Rightarrow> string \<Rightarrow> string" where
  "extractJSONString data key =
     (let s = string_of_bytes data;
          needle = ''\"'' @ key @ ''\":\"'';
          idx = deployer_indexOf s needle
      in if idx < 0 then ''''
         else
           let start = nat idx + length needle;
               fin = deployer_indexOfFrom s ''\"'' start
           in if fin < 0 then '''' else go_slice start (nat fin) s)"

section \<open>The agent\<close>

abbreviation deployURL :: string where "deployURL \<equiv> ''http://localhost:8500/v1/deploy''"
abbreviation deployCost :: int64 where "deployCost \<equiv> 500000"

abbreviation intentPayment :: byte where "intentPayment \<equiv> 1"
abbreviation intentDeployment :: byte where "intentDeployment \<equiv> 2"

abbreviation phaseCheckBudget :: byte where "phaseCheckBudget \<equiv> 0"
abbreviation phasePayProvider :: byte where "phasePayProvider \<equiv> 1"
abbreviation phaseDeploy :: byte where "phaseDeploy \<equiv> 2"
abbreviation phaseMonitor :: byte where "phaseMonitor \<equiv> 3"
abbreviation phaseResolving :: byte where "phaseResolving \<equiv> 4"

record Deployer_agent =
  dp_TickCount :: uint64
  dp_BirthNano :: int64
  dp_LastNano :: int64
  dp_Phase :: byte
  dp_DeploymentID :: bytes
  dp_DeployIDLen :: uint32
  dp_DeployStatus :: byte
  dp_PaidCount :: uint32
  dp_TotalPaid :: int64
  dp_LastReceipt :: bytes
  dp_Effects :: EffectLog

definition zero_deployer :: Deployer_agent where
  "zero_deployer = \<lparr>dp_TickCount = 0, dp_BirthNano = 0, dp_LastNano = 0, dp_Phase = 0, dp_DeploymentID = replicate 64 0, dp_DeployIDLen = 0,
     dp_DeployStatus = 0, dp_PaidCount = 0, dp_TotalPaid = 0, dp_LastReceipt = [], dp_Effects = \<lparr>ef_intents = []\<rparr>\<rparr>"

definition setDeploymentID :: "string \<Rightarrow> Deployer_agent \<Rightarrow> Deployer_agent" where
  "setDeploymentID ident d =
     (let n = (if length ident > 64 then 64 else length ident);
          src = bytes_of_string (take n ident)
      in d\<lparr>dp_DeploymentID := src @ drop n (dp_DeploymentID d), dp_DeployIDLen := of_nat n\<rparr>)"

text \<open>Slicing beyond the array is a run-time panic.\<close>

definition getDeploymentID :: "Deployer_agent \<Rightarrow> (string \<Rightarrow> 'a io) \<Rightarrow> 'a io" where
  "getDeploymentID d k =
     (if unat (dp_DeployIDLen d) > length (dp_DeploymentID d) then Panic ''runtime error: slice bounds out of range''
      else k (string_of_bytes (take (unat (dp_DeployIDLen d)) (dp_DeploymentID d))))"

definition statusName :: "byte \<Rightarrow> string" where
  "statusName s =
     (if s = 0 then ''none'' else if s = 1 then ''pending'' else if s = 2 then ''provisioning'' else if s = 3 then ''running''
      else if s = 4 then ''terminated'' else ''unknown'')"

definition tickCheckBudget :: "int64 \<Rightarrow> Deployer_agent \<Rightarrow> (bool \<times> Deployer_agent) io" where
  "tickCheckBudget ageSec d =
     (if dp_DeployIDLen d > 0 then
        sdk_Log (''[deployer] tick='' @ fmt_u (dp_TickCount d) @ '' age='' @ fmt_i ageSec @ ''s Have deployment, resuming monitoring.'')
          (Done (True, d\<lparr>dp_Phase := phaseMonitor\<rparr>))
      else
        sdk_WalletBalance (\<lambda>balance.
        sdk_Log (''[deployer] tick='' @ fmt_u (dp_TickCount d) @ '' age='' @ fmt_i ageSec @ ''s budget='' @ fmt_i balance @
                 '' deploy_cost='' @ fmt_i deployCost)
          (if sint balance \<ge> sint deployCost then
             sdk_Log ''[deployer] Budget sufficient. Proceeding to pay compute provider.'' (Done (True, d\<lparr>dp_Phase := phasePayProvider\<rparr>))
           else sdk_Log ''[deployer] Insufficient budget. Waiting...'' (Done (False, d)))))"

definition deploy_payment_intent :: "int64 \<Rightarrow> string \<Rightarrow> string \<Rightarrow> bytes" where
  "deploy_payment_intent amount recipient memo =
     Encoder_Finish (Encoder_Bytes (bytes_of_string memo) (Encoder_Bytes (bytes_of_string recipient)
       (Encoder_Int64 amount (Encoder_Raw [intentPayment] NewEncoder))))"

definition deployer_recordPaymentIntent :: "int64 \<Rightarrow> string \<Rightarrow> string \<Rightarrow> Deployer_agent \<Rightarrow> (bool \<times> Deployer_agent) io" where
  "deployer_recordPaymentIntent amount recipient memo d =
     sdk_RandBytes (replicate 16 0) (\<lambda>key _.
       case effect_Record key (deploy_payment_intent amount recipient memo) (dp_Effects d) of
         (Inl err, e) \<Rightarrow>
           sdk_Log (''[deployer] ERROR: failed to record payment intent: '' @ error_string err) (Done (False, d\<lparr>dp_Effects := e\<rparr>))
       | (Inr _, e) \<Rightarrow>
           key_prefix key (\<lambda>hex.
             sdk_Log (''[deployer] Payment intent RECORDED (key='' @ hex @ ''...). Waiting for checkpoint...'')
               (Done (False, d\<lparr>dp_Effects := e\<rparr>))))"

definition tickPayProvider :: "Deployer_agent \<Rightarrow> (bool \<times> Deployer_agent) io" where
  "tickPayProvider d =
     sdk_HTTPPost deployURL '''' [] (\<lambda>r.
       case r of
         Inl err \<Rightarrow> sdk_Log (''[deployer] HTTP error probing provider: '' @ error_string err) (Done (False, d))
       | Inr (status, body) \<Rightarrow>
         if status \<noteq> 402 then sdk_Log (''[deployer] Expected 402, got '' @ dec_int status) (Done (False, d))
         else
           (case parsePaymentTerms body of
              Inl msg \<Rightarrow> Panic msg
            | Inr (amount, recipient, memo) \<Rightarrow>
              if sint amount \<le> 0 then sdk_Log ''[deployer] Invalid payment terms in 402 response'' (Done (False, d))
              else sdk_Log (''[deployer] 402 PAYMENT REQUIRED: '' @ fmt_i amount @ '' microcents to '' @ recipient @ '' ('' @ memo @ '')'')
                (deployer_recordPaymentIntent amount recipient memo d)))"

definition deployer_executePayment :: "Intent \<Rightarrow> Deployer_agent \<Rightarrow> (bool \<times> Deployer_agent) io" where
  "deployer_executePayment intent d =
     (let (amount, recipient, memo, derr) = decode_payment (drop 1 (it_Data intent)) in
      case derr of
        Some err \<Rightarrow>
          sdk_Log (''[deployer] ERROR: corrupt payment intent: '' @ error_string err)
            (Done (False, d\<lparr>dp_Effects := snd (effect_Compensate (it_ID intent) (dp_Effects d))\<rparr>))
      | None \<Rightarrow>
        (case effect_Begin (it_ID intent) (dp_Effects d) of
           (Inl err, e) \<Rightarrow> sdk_Log (''[deployer] ERROR: failed to begin payment: '' @ error_string err) (Done (False, d\<lparr>dp_Effects := e\<rparr>))
         | (Inr _, e) \<Rightarrow>
           (let d = d\<lparr>dp_Effects := e\<rparr> in
            key_prefix (it_ID intent) (\<lambda>hex.
            sdk_Log (''[deployer] Payment IN-FLIGHT: '' @ fmt_i amount @ '' microcents to '' @ recipient @ '' (key='' @ hex @ ''...)'')
            (sdk_WalletPay amount recipient memo (\<lambda>r.
              case r of
                Inl err \<Rightarrow>
                  sdk_Log (''[deployer] Payment FAILED: '' @ error_string err)
                    (Done (False, d\<lparr>dp_Effects := snd (effect_Prune (snd (effect_Compensate (it_ID intent) (dp_Effects d))))\<rparr>))
              | Inr receipt \<Rightarrow>
                let d = d\<lparr>dp_PaidCount := dp_PaidCount d + 1, dp_TotalPaid := dp_TotalPaid d + amount, dp_LastReceipt := receipt\<rparr> in
                (case effect_Confirm (it_ID intent) (dp_Effects d) of
                   (Inl err, e) \<Rightarrow> sdk_Log (''[deployer] ERROR: failed to confirm payment: '' @ error_string err) (Done (False, d\<lparr>dp_Effects := e\<rparr>))
                 | (Inr _, e) \<Rightarrow>
                     sdk_Log (''[deployer] Payment CONFIRMED: '' @ fmt_i amount @ '' microcents (receipt='' @ dec_nat (length receipt) @
                         '' bytes). Proceeding to deploy.'')
                       (Done (True, d\<lparr>dp_Effects := snd (effect_Prune e), dp_Phase := phaseDeploy\<rparr>)))))))))"

definition deploy_intent :: "bytes \<Rightarrow> bytes" where
  "deploy_intent receipt = Encoder_Finish (Encoder_Bytes receipt (Encoder_Raw [intentDeployment] NewEncoder))"

definition recordDeployIntent :: "Deployer_agent \<Rightarrow> (bool \<times> Deployer_agent) io" where
  "recordDeployIntent d =
     sdk_RandBytes (replicate 16 0) (\<lambda>key _.
       case effect_Record key (deploy_intent (dp_LastReceipt d)) (dp_Effects d) of
         (Inl err, e) \<Rightarrow>
           sdk_Log (''[deployer] ERROR: failed to record deploy intent: '' @ error_string err) (Done (False, d\<lparr>dp_Effects := e\<rparr>))
       | (Inr _, e) \<Rightarrow>
           key_prefix key (\<lambda>hex.
             sdk_Log (''[deployer] Deploy intent RECORDED (key='' @ hex @ ''...). Waiting for checkpoint...'')
               (Done (False, d\<lparr>dp_Effects := e\<rparr>))))"

definition tickDeploy :: "Deployer_agent \<Rightarrow> (bool \<times> Deployer_agent) io" where
  "tickDeploy d =
     (if length (dp_LastReceipt d) = 0
      then sdk_Log ''[deployer] No receipt available. Restarting payment.'' (Done (True, d\<lparr>dp_Phase := phasePayProvider\<rparr>))
      else recordDeployIntent d)"

definition deploy_body :: bytes where
  "deploy_body = bytes_of_string
     (''{\"wasm_hash\":\"'' @ replicate 64 (CHR ''0'') @ ''\",\"budget_offer\":500000}'')"

text \<open>Every failure of a deployment compensates the intent.\<close>

definition abandon_deploy :: "Intent \<Rightarrow> string \<Rightarrow> Deployer_agent \<Rightarrow> (bool \<times> Deployer_agent) io" where
  "abandon_deploy intent msg d =
     sdk_Log msg (Done (False, d\<lparr>dp_Effects := snd (effect_Prune (snd (effect_Compensate (it_ID intent) (dp_Effects d))))\<rparr>))"

definition executeDeploy :: "Intent \<Rightarrow> Deployer_agent \<Rightarrow> (bool \<times> Deployer_agent) io" where
  "executeDeploy intent d =
     (let dd = NewDecoder (drop 1 (it_Data intent));
          (receipt, dd) = Decoder_Bytes dd
      in case Decoder_Err dd of
        Some err \<Rightarrow>
          sdk_Log (''[deployer] ERROR: corrupt deploy intent: '' @ error_string err)
            (Done (False, d\<lparr>dp_Effects := snd (effect_Compensate (it_ID intent) (dp_Effects d))\<rparr>))
      | None \<Rightarrow>
        (case effect_Begin (it_ID intent) (dp_Effects d) of
           (Inl err, e) \<Rightarrow> sdk_Log (''[deployer] ERROR: failed to begin deploy: '' @ error_string err) (Done (False, d\<lparr>dp_Effects := e\<rparr>))
         | (Inr _, e) \<Rightarrow>
           (let d = d\<lparr>dp_Effects := e\<rparr> in
            key_prefix (it_ID intent) (\<lambda>hex.
            sdk_Log (''[deployer] Deployment IN-FLIGHT (key='' @ hex @ ''...)'')
            (sdk_HTTPRequest ''POST'' deployURL [(''X-Payment'', encodeBytesHex receipt), (''Content-Type'', ''application/json'')] deploy_body (\<lambda>r.
              case r of
                Inl err \<Rightarrow> abandon_deploy intent (''[deployer] Deploy HTTP error: '' @ error_string err) d
              | Inr (status, resp) \<Rightarrow>
                if status \<noteq> 201
                then abandon_deploy intent (''[deployer] Deploy failed: status='' @ dec_int status @ '' body='' @ string_of_bytes resp) d
                else
                  let depID = extractJSONString resp ''deployment_id'' in
                  if depID = '''' then abandon_deploy intent ''[deployer] Deploy response missing deployment_id'' d
                  else
                    let d = (setDeploymentID depID d)\<lparr>dp_DeployStatus := 1, dp_LastReceipt := []\<rparr> in
                    (case effect_Confirm (it_ID intent) (dp_Effects d) of
                       (Inl err, e) \<Rightarrow> sdk_Log (''[deployer] ERROR: failed to confirm deploy: '' @ error_string err) (Done (False, d\<lparr>dp_Effects := e\<rparr>))
                     | (Inr _, e) \<Rightarrow>
                         sdk_Log (''[deployer] DEPLOYED: id='' @ depID @ '' status=pending. Now monitoring.'')
                           (Done (True, d\<lparr>dp_Effects := snd (effect_Prune e), dp_Phase := phaseMonitor\<rparr>)))))))))"

text \<open>What a polled status does to the agent.\<close>

definition poll_status :: "string \<Rightarrow> string \<Rightarrow> Deployer_agent \<Rightarrow> (Deployer_agent \<Rightarrow> (bool \<times> Deployer_agent) io) \<Rightarrow> (bool \<times> Deployer_agent) io" where
  "poll_status depID depStatus d k =
     (if depStatus = ''pending'' then k (d\<lparr>dp_DeployStatus := 1\<rparr>)
      else if depStatus = ''provisioning'' then k (d\<lparr>dp_DeployStatus := 2\<rparr>)
      else if depStatus = ''running'' then
        (if dp_DeployStatus d \<noteq> 3
         then sdk_Log (''[deployer] DEPLOYMENT RUNNING! id='' @ depID @ '' '' @ [CHR 0xE2, CHR 0x80, CHR 0x94] @ '' self-provisioning complete.'')
           (k (d\<lparr>dp_DeployStatus := 3\<rparr>))
         else k (d\<lparr>dp_DeployStatus := 3\<rparr>))
      else if depStatus = ''terminated'' then k (d\<lparr>dp_DeployStatus := 4\<rparr>)
      else k d)"

definition tickMonitor :: "int64 \<Rightarrow> Deployer_agent \<Rightarrow> (bool \<times> Deployer_agent) io" where
  "tickMonitor ageSec d =
     (if dp_DeployIDLen d = 0
      then sdk_Log ''[deployer] No deployment to monitor. Restarting.'' (Done (True, d\<lparr>dp_Phase := phaseCheckBudget\<rparr>))
      else getDeploymentID d (\<lambda>depID.
        if dp_TickCount d mod 3 \<noteq> 0 then
          (if dp_TickCount d mod 5 = 0
           then sdk_Log (''[deployer] tick='' @ fmt_u (dp_TickCount d) @ '' age='' @ fmt_i ageSec @ ''s monitoring deployment='' @ depID @
                  '' status='' @ statusName (dp_DeployStatus d) @ '' payments='' @ fmt_u (dp_PaidCount d) @ '' total_paid='' @ fmt_i (dp_TotalPaid d))
                (Done (False, d))
           else Done (False, d))
        else
          sdk_HTTPGet (deployURL @ ''/'' @ depID) (\<lambda>r.
            case r of
              Inl err \<Rightarrow> sdk_Log (''[deployer] Status check error: '' @ error_string err) (Done (False, d))
            | Inr (status, resp) \<Rightarrow>
              if status \<noteq> 200 then sdk_Log (''[deployer] Status check failed: '' @ dec_int status) (Done (False, d))
              else
                let depStatus = extractJSONString resp ''status'' in
                poll_status depID depStatus d (\<lambda>d.
                  sdk_Log (''[deployer] tick='' @ fmt_u (dp_TickCount d) @ '' deployment='' @ depID @ '' status='' @ depStatus)
                    (Done (False, d))))))"

definition reconcilePayment :: "Intent \<Rightarrow> Deployer_agent \<Rightarrow> Deployer_agent io" where
  "reconcilePayment intent d =
     key_prefix (it_ID intent) (\<lambda>hex.
     sdk_Log (''[deployer] RECONCILING: unresolved payment (key='' @ hex @ ''...)'')
     (let (amount, recipient, _, _) = decode_payment (drop 1 (it_Data intent));
          paymentCompleted = (it_ID intent ! 0 mod 2 = 0)
      in if paymentCompleted then
           let d = d\<lparr>dp_PaidCount := dp_PaidCount d + 1, dp_TotalPaid := dp_TotalPaid d + amount\<rparr> in
           (case effect_Confirm (it_ID intent) (dp_Effects d) of
              (Inl err, e) \<Rightarrow> sdk_Log (''[deployer] ERROR: reconcile confirm failed: '' @ error_string err) (Done (d\<lparr>dp_Effects := e\<rparr>))
            | (Inr _, e) \<Rightarrow>
                sdk_Log (''[deployer] Reconciled: payment of '' @ fmt_i amount @ '' to '' @ recipient @ '' COMPLETED before crash'')
                  (Done (d\<lparr>dp_Effects := e\<rparr>)))
         else
           (case effect_Compensate (it_ID intent) (dp_Effects d) of
              (Inl err, e) \<Rightarrow> sdk_Log (''[deployer] ERROR: reconcile compensate failed: '' @ error_string err) (Done (d\<lparr>dp_Effects := e\<rparr>))
            | (Inr _, e) \<Rightarrow>
                sdk_Log (''[deployer] Reconciled: payment of '' @ fmt_i amount @ '' to '' @ recipient @ '' DID NOT complete '' @
                    [CHR 0xE2, CHR 0x80, CHR 0x94] @ '' will retry'')
                  (Done (d\<lparr>dp_Effects := e\<rparr>)))))"

definition compensate_deploy :: "Intent \<Rightarrow> Deployer_agent \<Rightarrow> Deployer_agent io" where
  "compensate_deploy intent d =
     (case effect_Compensate (it_ID intent) (dp_Effects d) of
        (Inl err, e) \<Rightarrow> sdk_Log (''[deployer] ERROR: reconcile compensate failed: '' @ error_string err) (Done (d\<lparr>dp_Effects := e\<rparr>))
      | (Inr _, e) \<Rightarrow>
          sdk_Log (''[deployer] Reconciled: deployment DID NOT complete '' @ [CHR 0xE2, CHR 0x80, CHR 0x94] @ '' will retry'')
            (Done (d\<lparr>dp_Effects := e\<rparr>)))"

definition reconcileDeploy :: "Intent \<Rightarrow> Deployer_agent \<Rightarrow> Deployer_agent io" where
  "reconcileDeploy intent d =
     key_prefix (it_ID intent) (\<lambda>hex.
     sdk_Log (''[deployer] RECONCILING: unresolved deployment (key='' @ hex @ ''...)'')
     (if dp_DeployIDLen d > 0 then
        getDeploymentID d (\<lambda>depID.
        sdk_HTTPGet (deployURL @ ''/'' @ depID) (\<lambda>r.
          if (case r of Inr (status, _) \<Rightarrow> status = 200 | Inl _ \<Rightarrow> False) then
            (case effect_Confirm (it_ID intent) (dp_Effects d) of
               (Inl err, e) \<Rightarrow> sdk_Log (''[deployer] ERROR: reconcile confirm failed: '' @ error_string err) (Done (d\<lparr>dp_Effects := e\<rparr>))
             | (Inr _, e) \<Rightarrow>
                 sdk_Log (''[deployer] Reconciled: deployment '' @ depID @ '' EXISTS '' @ [CHR 0xE2, CHR 0x80, CHR 0x94] @ '' confirming'')
                   (Done (d\<lparr>dp_Effects := e\<rparr>)))
          else compensate_deploy intent d))
      else compensate_deploy intent d))"

definition deployer_reconcile :: "Intent \<Rightarrow> Deployer_agent \<Rightarrow> Deployer_agent io" where
  "deployer_reconcile intent d =
     (if length (it_Data intent) = 0 then Done (d\<lparr>dp_Effects := snd (effect_Compensate (it_ID intent) (dp_Effects d))\<rparr>)
      else if it_Data intent ! 0 = intentPayment then reconcilePayment intent d
      else if it_Data intent ! 0 = intentDeployment then reconcileDeploy intent d
      else sdk_Log (''[deployer] RECONCILING: unknown intent type '' @ fmt_u (it_Data intent ! 0) @ '', compensating'')
             (Done (d\<lparr>dp_Effects := snd (effect_Compensate (it_ID intent) (dp_Effects d))\<rparr>)))"

primrec deployer_reconcile_all :: "Intent list \<Rightarrow> Deployer_agent \<Rightarrow> Deployer_agent io" where
  "deployer_reconcile_all [] d = Done d"
| "deployer_reconcile_all (x # xs) d = io_bind (deployer_reconcile x d) (deployer_reconcile_all xs)"

text \<open>The pending intent a tick executes: the first recorded one of a known type.\<close>

definition executable_intent :: "Intent \<Rightarrow> bool" where
  "executable_intent x \<longleftrightarrow> it_State x = Recorded \<and> length (it_Data x) > 0 \<and> (it_Data x ! 0 = intentPayment \<or> it_Data x ! 0 = intentDeployment)"

text \<open>The body of a tick after the clock has been read.\<close>

definition deployer_act :: "int64 \<Rightarrow> Deployer_agent \<Rightarrow> (bool \<times> Deployer_agent) io" where
  "deployer_act ageSec d =
     (let unresolved = effect_Unresolved (dp_Effects d) in
      if length unresolved > 0 then
        io_bind (deployer_reconcile_all unresolved (d\<lparr>dp_Phase := phaseResolving\<rparr>)) (\<lambda>d.
          let d = d\<lparr>dp_Effects := snd (effect_Prune (dp_Effects d))\<rparr> in
          Done (True, d\<lparr>dp_Phase := (if dp_DeployIDLen d > 0 then phaseMonitor else phaseCheckBudget)\<rparr>))
      else case List.find executable_intent (effect_Pending (dp_Effects d)) of
        Some intent \<Rightarrow> (if it_Data intent ! 0 = intentPayment then deployer_executePayment intent d else executeDeploy intent d)
      | None \<Rightarrow>
        if dp_Phase d = phaseCheckBudget then tickCheckBudget ageSec d
        else if dp_Phase d = phasePayProvider then tickPayProvider d
        else if dp_Phase d = phaseDeploy then tickDeploy d
        else if dp_Phase d = phaseMonitor then tickMonitor ageSec d
        else Done (False, d))"

definition deployer_Tick :: "Deployer_agent \<Rightarrow> (bool \<times> Deployer_agent) io" where
  "deployer_Tick d =
     (let d = d\<lparr>dp_TickCount := dp_TickCount d + 1\<rparr> in
      sdk_ClockNow (\<lambda>now.
        if dp_BirthNano d = 0
        then sdk_Log ''[deployer] Agent initialized. Self-provisioning compute.''
          (deployer_act (div_i64 (now - now) 1000000000) (d\<lparr>dp_BirthNano := now, dp_LastNano := now\<rparr>))
        else deployer_act (div_i64 (now - dp_BirthNano d) 1000000000) (d\<lparr>dp_LastNano := now\<rparr>)))"

definition deployer_Marshal :: "Deployer_agent \<Rightarrow> bytes" where
  "deployer_Marshal d =
     Encoder_Finish
       (Encoder_Bytes (effect_Marshal (dp_Effects d))
       (Encoder_Bytes (dp_LastReceipt d)
       (Encoder_Int64 (dp_TotalPaid d)
       (Encoder_Uint32 (dp_PaidCount d)
       (Encoder_Raw [dp_DeployStatus d]
       (Encoder_Uint32 (dp_DeployIDLen d)
       (Encoder_Raw (dp_DeploymentID d)
       (Encoder_Raw [dp_Phase d]
       (Encoder_Int64 (dp_LastNano d)
       (Encoder_Int64 (dp_BirthNano d)
       (Encoder_Uint64 (dp_TickCount d) NewEncoder)))))))))))"

definition deployer_Unmarshal :: "bytes \<Rightarrow> Deployer_agent \<Rightarrow> string + Deployer_agent" where
  "deployer_Unmarshal data d =
     (let dd = NewDecoder data;
          (tickCount, dd) = Decoder_Uint64 dd;
          (birthNano, dd) = Decoder_Int64 dd;
          (lastNano, dd) = Decoder_Int64 dd;
          (phaseBuf, dd) = Decoder_FixedBytes 1 dd;
          (deploymentID, dd) = Decoder_ReadInto (dp_DeploymentID d) dd;
          (deployIDLen, dd) = Decoder_Uint32 dd;
          (statusBuf, dd) = Decoder_FixedBytes 1 dd;
          (paidCount, dd) = Decoder_Uint32 dd;
          (totalPaid, dd) = Decoder_Int64 dd;
          (lastReceipt, dd) = Decoder_Bytes dd;
          (effects, dd) = Decoder_Bytes dd
      in case Decoder_Err dd of
           Some err \<Rightarrow> Inl (''unmarshal checkpoint: '' @ error_string err)
         | None \<Rightarrow> Inr (d\<lparr>dp_TickCount := tickCount, dp_BirthNano := birthNano, dp_LastNano := lastNano,
              dp_Phase := (if length phaseBuf > 0 then phaseBuf ! 0 else dp_Phase d), dp_DeploymentID := deploymentID,
              dp_DeployIDLen := deployIDLen, dp_DeployStatus := (if length statusBuf > 0 then statusBuf ! 0 else dp_DeployStatus d),
              dp_PaidCount := paidCount, dp_TotalPaid := totalPaid, dp_LastReceipt := lastReceipt, dp_Effects := effect_Unmarshal effects\<rparr>))"

definition deployer_code :: "Deployer_agent agent_code" where
  "deployer_code = \<lparr>ag_Init = (\<lambda>d. d), ag_Tick = deployer_Tick, ag_Marshal = deployer_Marshal, ag_Unmarshal = deployer_Unmarshal\<rparr>"


section \<open>Intents and states\<close>

lemma deploy_payment_intent_wire: "deploy_payment_intent amount recipient memo = intentPayment # payment_intent amount recipient memo"
  by (simp add: deploy_payment_intent_def payment_intent_def Encoder_Finish_def NewEncoder_def codec_appends)

lemma deploy_intent_wire: "deploy_intent receipt = intentDeployment # put_u32 (len_u32 receipt) @ receipt"
  by (simp add: deploy_intent_def Encoder_Finish_def NewEncoder_def codec_appends)

text \<open>The intents an agent holds between two ticks, with the phase that records them.\<close>

definition payment_step :: "Intent \<Rightarrow> bool" where
  "payment_step x \<longleftrightarrow> (\<exists>amount recipient memo. it_Data x = deploy_payment_intent amount recipient memo \<and>
     length recipient + length memo < 2 ^ 31 \<and> 0 < sint amount)"

definition deploy_step :: "Intent \<Rightarrow> bool" where
  "deploy_step x \<longleftrightarrow> (\<exists>receipt. it_Data x = deploy_intent receipt \<and> receipt \<noteq> [] \<and> length receipt < 2 ^ 30)"

definition recorded_step :: "byte \<Rightarrow> Intent \<Rightarrow> bool" where
  "recorded_step phase x \<longleftrightarrow> it_State x = Recorded \<and> length (it_ID x) = 16 \<and>
     (phase = phasePayProvider \<and> payment_step x \<or> phase = phaseDeploy \<and> deploy_step x)"

definition deployer_good :: "Deployer_agent \<Rightarrow> bool" where
  "deployer_good d \<longleftrightarrow> dp_Phase d \<in> {phaseCheckBudget, phasePayProvider, phaseDeploy, phaseMonitor} \<and>
     (dp_Phase d = phaseMonitor \<longleftrightarrow> dp_DeployIDLen d \<noteq> 0) \<and> length (dp_DeploymentID d) = 64 \<and> unat (dp_DeployIDLen d) \<le> 64 \<and>
     length (dp_LastReceipt d) < 2 ^ 30 \<and> one_recorded (recorded_step (dp_Phase d)) (dp_Effects d)"

lemma recorded_step_shape: "recorded_step phase x \<Longrightarrow> it_State x = Recorded \<and> wf_intent x \<and> length (wire_intent x) < 2 ^ 32 - 4"
  by (auto simp: recorded_step_def payment_step_def deploy_step_def wf_intent_def wire_intent_def deploy_payment_intent_wire deploy_intent_wire
      payment_intent_wire)

lemma deployer_good_log: "deployer_good d \<Longrightarrow> one_recorded (recorded_step (dp_Phase d)) (dp_Effects d)"
  by (simp add: deployer_good_def)

lemmas deployer_good_effects = one_recorded_log [OF deployer_good_log recorded_step_shape]

lemma read_into_step:
  assumes "decoder_at (x @ rest) d" "length x = length dst" "\<And>d'. decoder_at rest d' \<Longrightarrow> f x d' = R"
  shows "(case Decoder_ReadInto dst d of (v, d') \<Rightarrow> f v d') = R"
proof -
  have "Decoder_ReadInto dst d = Decoder_FixedBytes (length x) d"
    using assms(1,2) drop_eq_le [of "de_pos d" "de_data d" x rest] by (auto simp: Decoder_ReadInto_def Decoder_FixedBytes_def decoder_at_def Let_def)
  then show ?thesis using raw.step_read [OF assms(1), of "length x" f R] assms(3) by simp
qed


lemma deployer_Marshal_wire:
  "deployer_Marshal d = put_u64 (dp_TickCount d) @ put_u64 (dp_BirthNano d) @ put_u64 (dp_LastNano d) @ [dp_Phase d] @ dp_DeploymentID d @
     put_u32 (dp_DeployIDLen d) @ [dp_DeployStatus d] @ put_u32 (dp_PaidCount d) @ put_u64 (dp_TotalPaid d) @
     (put_u32 (len_u32 (dp_LastReceipt d)) @ dp_LastReceipt d) @
     (put_u32 (len_u32 (effect_Marshal (dp_Effects d))) @ effect_Marshal (dp_Effects d)) @ []"
  by (simp add: deployer_Marshal_def Encoder_Finish_def NewEncoder_def codec_appends)

lemma deployer_restored:
  assumes "deployer_good d"
  shows "deployer_Unmarshal (deployer_Marshal d) zero_deployer = Inr d"
proof -
  note e = deployer_good_effects [OF assms]
  have "decoder_at (put_u64 (dp_TickCount d) @ put_u64 (dp_BirthNano d) @ put_u64 (dp_LastNano d) @ [dp_Phase d] @ dp_DeploymentID d @
     put_u32 (dp_DeployIDLen d) @ [dp_DeployStatus d] @ put_u32 (dp_PaidCount d) @ put_u64 (dp_TotalPaid d) @
     (put_u32 (len_u32 (dp_LastReceipt d)) @ dp_LastReceipt d) @
     (put_u32 (len_u32 (effect_Marshal (dp_Effects d))) @ effect_Marshal (dp_Effects d)) @ []) (NewDecoder (deployer_Marshal d))"
    by (simp only: deployer_Marshal_wire decoder_at_New)
  then show ?thesis
    unfolding deployer_Unmarshal_def Let_def
    by (elim field_reads read_into_step) (use assms e in \<open>simp_all add: decoder_at_Err zero_deployer_def deployer_good_def\<close>)
qed

section \<open>What a tick does\<close>

text \<open>The events of a run that matter to the world: payments the wallet confirmed, and deployments the provider granted.\<close>

datatype deploy_event = Paid int64 | Deployed

fun deploy_ob :: "sdk_call \<Rightarrow> sdk_answer \<Rightarrow> deploy_event list" where
  "deploy_ob (CallWalletPay amount recipient memo) a = (if an_err a = None then [Paid amount] else [])"
| "deploy_ob (CallHTTPRequest method url headers body) a =
     (if method = ''POST'' \<and> url = deployURL \<and> header_get ''X-Payment'' headers \<noteq> '''' \<and> an_err a = None \<and> sint (an_num a) = 201 \<and>
         extractJSONString (an_bytes a) ''deployment_id'' \<noteq> '''' then [Deployed] else [])"
| "deploy_ob _ a = []"

definition paid_amounts :: "deploy_event list \<Rightarrow> int64 list" where
  "paid_amounts es = concat (map (\<lambda>e. case e of Paid n \<Rightarrow> [n] | Deployed \<Rightarrow> []) es)"

definition deployer_post :: "Deployer_agent \<Rightarrow> deploy_event list \<Rightarrow> Deployer_agent \<Rightarrow> bool" where
  "deployer_post d seen d' \<longleftrightarrow> deployer_good d' \<and>
     dp_PaidCount d' = dp_PaidCount d + of_nat (length (paid_amounts seen)) \<and> dp_TotalPaid d' = dp_TotalPaid d + sum_list (paid_amounts seen) \<and>
     (seen = [] \<and> dp_DeployIDLen d' = dp_DeployIDLen d \<and> (dp_Phase d' \<in> {phaseDeploy, phaseMonitor} \<longrightarrow> dp_Phase d \<in> {phaseDeploy, phaseMonitor}) \<or>
      (\<exists>n. seen = [Paid n]) \<and> dp_DeployIDLen d = 0 \<and> dp_DeployIDLen d' = 0 \<or>
      seen = [Deployed] \<and> dp_Phase d = phaseDeploy \<and> dp_DeployIDLen d' \<noteq> 0)"

abbreviation deployer_ok :: "Deployer_agent \<Rightarrow> (bool \<times> Deployer_agent) io \<Rightarrow> bool" where
  "deployer_ok d t \<equiv> io_wp deploy_ob (\<lambda>seen r. deployer_post d seen (snd r)) [] t"

lemma deploy_ob_blind [simp]:
  "deploy_ob (CallHTTPRequest ''GET'' url headers body) a = []"
  "deploy_ob (CallHTTPRequest method url [(''Content-Type'', t)] body) a = []"
  by (simp_all add: header_get_def)

lemma post_same:
  assumes "deployer_good d'" "dp_PaidCount d' = dp_PaidCount d" "dp_TotalPaid d' = dp_TotalPaid d" "dp_DeployIDLen d' = dp_DeployIDLen d"
    "dp_Phase d' \<in> {phaseDeploy, phaseMonitor} \<longrightarrow> dp_Phase d \<in> {phaseDeploy, phaseMonitor}"
  shows "deployer_post d [] d'"
  using assms by (simp add: deployer_post_def paid_amounts_def)

lemma good_pay_tick:
  assumes "deployer_good d" "dp_Phase d = phasePayProvider" "dp_Effects d = \<lparr>ef_intents = [x]\<rparr>"
  shows "deployer_ok d (deployer_executePayment x d)"
proof -
  from assms obtain amount recipient memo where x: "it_State x = Recorded" "length (it_ID x) = 16"
    "it_Data x = deploy_payment_intent amount recipient memo" "length recipient + length memo < 2 ^ 31" "0 < sint amount"
    by (auto simp: deployer_good_def one_recorded_def recorded_step_def payment_step_def)
  show ?thesis
    using x assms
    by (auto simp: deployer_executePayment_def deploy_payment_intent_wire decode_payment_intent single_intent io_rules answer_bytes_def answer_ok_def
        deployer_post_def deployer_good_def one_recorded_def paid_amounts_def Let_def split: sum.split option.split)
qed


lemma setDeploymentID_good:
  assumes "length (dp_DeploymentID d) = 64" "ident \<noteq> ''''"
  shows "length (dp_DeploymentID (setDeploymentID ident d)) = 64" "unat (dp_DeployIDLen (setDeploymentID ident d)) \<le> 64"
    "dp_DeployIDLen (setDeploymentID ident d) \<noteq> 0"
proof -
  define n where "n = (if length ident > 64 then 64 else length ident)"
  have n: "0 < n" "n \<le> 64" "n \<le> length ident" using assms(2) by (auto simp: n_def)
  have s: "setDeploymentID ident d = d\<lparr>dp_DeploymentID := bytes_of_string (take n ident) @ drop n (dp_DeploymentID d), dp_DeployIDLen := of_nat n\<rparr>"
    by (simp add: setDeploymentID_def n_def Let_def)
  have u: "unat (of_nat n :: uint32) = n" using n(2) by (simp add: unat_of_nat)
  show "length (dp_DeploymentID (setDeploymentID ident d)) = 64" using n assms(1) by (simp add: s)
  show "unat (dp_DeployIDLen (setDeploymentID ident d)) \<le> 64" using n u by (simp add: s)
  have "(of_nat n :: uint32) \<noteq> 0" using n(1) u by (metis unat_0 less_irrefl)
  then show "dp_DeployIDLen (setDeploymentID ident d) \<noteq> 0" by (simp add: s)
qed

lemma setDeploymentID_fields [simp]:
  "dp_Effects (setDeploymentID ident d) = dp_Effects d" "dp_PaidCount (setDeploymentID ident d) = dp_PaidCount d"
  "dp_TotalPaid (setDeploymentID ident d) = dp_TotalPaid d"
  by (simp_all add: setDeploymentID_def Let_def)

lemma decode_deploy_intent:
  assumes "length receipt < 2 ^ 30"
  shows "\<exists>dd. Decoder_Bytes (NewDecoder (drop 1 (deploy_intent receipt))) = (receipt, dd) \<and> Decoder_Err dd = None"
proof -
  have at: "decoder_at ((put_u32 (len_u32 receipt) @ receipt) @ []) (NewDecoder (drop 1 (deploy_intent receipt)))" by (simp add: deploy_intent_wire)
  have "Decoder_Bytes (NewDecoder (drop 1 (deploy_intent receipt))) =
      (receipt, (NewDecoder (drop 1 (deploy_intent receipt)))\<lparr>de_pos := de_pos (NewDecoder (drop 1 (deploy_intent receipt))) + length (put_u32 (len_u32 receipt) @ receipt)\<rparr>)"
    using at byt.dec_reads [of receipt] assms by (simp add: decoder_at_def)
  with decoder_at_advance [OF at] decoder_at_Err show ?thesis by blast
qed

lemma good_deploy_tick:
  assumes "deployer_good d" "dp_Phase d = phaseDeploy" "dp_Effects d = \<lparr>ef_intents = [x]\<rparr>"
  shows "deployer_ok d (executeDeploy x d)"
proof -
  from assms obtain receipt where x: "it_State x = Recorded" "length (it_ID x) = 16" "it_Data x = deploy_intent receipt" "length receipt < 2 ^ 30"
    "receipt \<noteq> []" by (auto simp: deployer_good_def one_recorded_def recorded_step_def deploy_step_def)
  obtain dd where dd: "Decoder_Bytes (NewDecoder (drop 1 (deploy_intent receipt))) = (receipt, dd)" "Decoder_Err dd = None"
    using decode_deploy_intent [OF x(4)] by blast
  have d: "length (dp_DeploymentID d) = 64" "dp_DeployIDLen d = 0" "length (dp_LastReceipt d) < 2 ^ 30" using assms(1,2) by (auto simp: deployer_good_def)
  have gave_up: "deployer_post d [] (d\<lparr>dp_Effects := \<lparr>ef_intents = []\<rparr>\<rparr>)"
    by (rule post_same) (use assms(1,2) d in \<open>simp_all add: deployer_good_def one_recorded_def\<close>)
  have granted: "deployer_post d [Deployed] ((setDeploymentID ident (d\<lparr>dp_Effects := e\<rparr>))
      \<lparr>dp_DeployStatus := 1, dp_LastReceipt := [], dp_Effects := \<lparr>ef_intents = []\<rparr>, dp_Phase := phaseMonitor\<rparr>)" if "ident \<noteq> ''''" for ident e
    using setDeploymentID_good [of "d\<lparr>dp_Effects := e\<rparr>" ident] that d assms(2)
    by (simp add: deployer_post_def deployer_good_def one_recorded_def paid_amounts_def)
  show ?thesis
    using x dd assms(3) gave_up granted
    by (auto simp: executeDeploy_def single_intent io_rules abandon_deploy_def header_get_def Let_def split: sum.split option.split)
qed


lemma post_refl: "deployer_good d \<Longrightarrow> deployer_post d [] d"
  by (rule post_same) simp_all

lemma good_budget_tick:
  assumes "deployer_good d" "dp_Phase d = phaseCheckBudget" "dp_Effects d = \<lparr>ef_intents = []\<rparr>"
  shows "deployer_ok d (tickCheckBudget age d)"
proof -
  have "dp_DeployIDLen d = 0" using assms(1,2) by (simp add: deployer_good_def)
  moreover have "deployer_post d [] (d\<lparr>dp_Phase := phasePayProvider\<rparr>)"
    by (rule post_same) (use assms in \<open>simp_all add: deployer_good_def one_recorded_def\<close>)
  ultimately show ?thesis using post_refl [OF assms(1)] by (simp add: tickCheckBudget_def io_rules)
qed

lemma good_recorded:
  assumes "deployer_good d" "recorded_step (dp_Phase d) x"
  shows "deployer_post d [] (d\<lparr>dp_Effects := \<lparr>ef_intents = [x]\<rparr>\<rparr>)"
  by (rule post_same) (use assms in \<open>auto simp: deployer_good_def one_recorded_def\<close>)

lemma good_terms_tick:
  assumes "deployer_good d" "dp_Phase d = phasePayProvider" "dp_Effects d = \<lparr>ef_intents = []\<rparr>"
  shows "deployer_ok d (tickPayProvider d)"
proof -
  have "deployer_ok d (deployer_recordPaymentIntent amount recipient memo d)"
    if "parsePaymentTerms (an_bytes a) = Inr (amount, recipient, memo)" "length (an_bytes a) < 2 ^ 30" "0 < sint amount" for a amount recipient memo
  proof -
    have "payment_step x" if "it_Data x = deploy_payment_intent amount recipient memo" for x
      using that parse_bounds [OF \<open>parsePaymentTerms (an_bytes a) = _\<close>] \<open>length (an_bytes a) < 2 ^ 30\<close> \<open>0 < sint amount\<close>
      unfolding payment_step_def by (intro exI [of _ amount] exI [of _ recipient] exI [of _ memo]) simp
    then have rec: "deployer_post d [] (d\<lparr>dp_Effects := \<lparr>ef_intents = [\<lparr>it_ID = b, it_State = Recorded, it_Data = deploy_payment_intent amount recipient memo\<rparr>]\<rparr>\<rparr>)"
      if "length b = 16" for b using that assms(1,2) by (intro good_recorded) (simp_all add: recorded_step_def)
    show ?thesis
      unfolding deployer_recordPaymentIntent_def
      by (rule wp_RandBytes) (use rec assms(3) in \<open>simp_all add: Record_empty io_rules\<close>)
  qed
  then show ?thesis
    using post_refl [OF assms(1)]
    by (auto simp: tickPayProvider_def sdk_HTTPPost_def io_rules answer_ok_def header_get_def not_le split: sum.split option.split)
qed

lemma good_receipt_tick:
  assumes "deployer_good d" "dp_Phase d = phaseDeploy" "dp_Effects d = \<lparr>ef_intents = []\<rparr>"
  shows "deployer_ok d (tickDeploy d)"
proof (cases "dp_LastReceipt d = []")
  case True
  have "deployer_post d [] (d\<lparr>dp_Phase := phasePayProvider\<rparr>)"
    by (rule post_same) (use assms in \<open>simp_all add: deployer_good_def one_recorded_def\<close>)
  with True show ?thesis by (simp add: tickDeploy_def io_rules)
next
  case False
  have "deploy_step x" if "it_Data x = deploy_intent (dp_LastReceipt d)" for x
    using that False assms(1) unfolding deploy_step_def by (intro exI [of _ "dp_LastReceipt d"]) (simp add: deployer_good_def)
  then have rec: "deployer_post d [] (d\<lparr>dp_Effects := \<lparr>ef_intents = [\<lparr>it_ID = b, it_State = Recorded, it_Data = deploy_intent (dp_LastReceipt d)\<rparr>]\<rparr>\<rparr>)"
    if "length b = 16" for b using that assms(1,2) by (intro good_recorded) (simp_all add: recorded_step_def)
  have "deployer_ok d (recordDeployIntent d)"
    unfolding recordDeployIntent_def
    by (rule wp_RandBytes) (use rec assms(3) in \<open>simp_all add: Record_empty io_rules\<close>)
  with False show ?thesis by (simp add: tickDeploy_def)
qed

lemma poll_status_wp:
  assumes "\<And>s. io_wp deploy_ob Q seen (k (d\<lparr>dp_DeployStatus := s\<rparr>))"
  shows "io_wp deploy_ob Q seen (poll_status depID st d k)"
  using assms [of "dp_DeployStatus d"] by (simp add: poll_status_def io_rules assms)

lemma good_monitor_tick:
  assumes "deployer_good d" "dp_Phase d = phaseMonitor"
  shows "deployer_ok d (tickMonitor age d)"
proof -
  have "deployer_post d [] (d\<lparr>dp_DeployStatus := s\<rparr>)" for s
    by (rule post_same) (use assms in \<open>auto simp: deployer_good_def one_recorded_def\<close>)
  moreover have "dp_DeployIDLen d \<noteq> 0" using assms by (auto simp: deployer_good_def)
  ultimately show ?thesis
    using post_refl [OF assms(1)]
    by (auto simp: tickMonitor_def getDeploymentID_def sdk_HTTPGet_def io_rules Let_def split: sum.split option.split intro!: poll_status_wp)
qed

lemma executable_recorded: "recorded_step phase x \<Longrightarrow> executable_intent x \<and> (it_Data x ! 0 = intentPayment \<longleftrightarrow> phase = phasePayProvider)"
  by (auto simp: recorded_step_def executable_intent_def payment_step_def deploy_step_def deploy_payment_intent_wire deploy_intent_wire)

lemma good_act:
  assumes "deployer_good d"
  shows "deployer_ok d (deployer_act age d)"
  using deployer_good_log [OF assms]
proof (cases rule: one_recorded_cases)
  case none
  have phases: "dp_Phase d \<in> {phaseCheckBudget, phasePayProvider, phaseDeploy, phaseMonitor}" using assms unfolding deployer_good_def by blast
  show ?thesis
    using phases none good_budget_tick [OF assms] good_terms_tick [OF assms] good_receipt_tick [OF assms] good_monitor_tick [OF assms]
    by (auto simp: deployer_act_def effect_Unresolved_def effect_Pending_def)
next
  case (one x)
  then have x: "it_State x = Recorded" "dp_Phase d = phasePayProvider \<or> dp_Phase d = phaseDeploy" by (auto simp: recorded_step_def)
  with one executable_recorded [OF one(2)] good_pay_tick [OF assms _ one(1)] good_deploy_tick [OF assms _ one(1)] show ?thesis
    by (auto simp: deployer_act_def effect_Unresolved_def effect_Pending_def)
qed

lemma deployer_tick_ok:
  assumes "deployer_good d"
  shows "deployer_ok d (deployer_Tick d)"
proof -
  have "deployer_ok d (deployer_act age d1)"
    if "d1 = d\<lparr>dp_TickCount := t, dp_BirthNano := b, dp_LastNano := n\<rparr>" for d1 age t b n
  proof -
    have "deployer_good d1" using assms by (auto simp: that deployer_good_def one_recorded_def)
    moreover have "deployer_post d1 = deployer_post d" by (intro ext) (simp add: that deployer_post_def)
    ultimately show ?thesis using good_act by metis
  qed
  from this [OF refl, where b = "dp_BirthNano d"] this [OF refl] show ?thesis by (simp add: deployer_Tick_def io_rules Let_def)
qed

interpretation deployer: resumable_agent deployer_code zero_deployer deployer_good
proof unfold_locales
  fix d assume "deployer_good d"
  then show "io_all (\<lambda>(again, d'). deployer_good d') (ag_Tick deployer_code d)"
    using io_all_of_wp [OF deployer_tick_ok] by (fastforce simp: deployer_code_def deployer_post_def)
  from \<open>deployer_good d\<close> show "ag_Unmarshal deployer_code (ag_Marshal deployer_code d) zero_deployer = Inr d"
    by (simp add: deployer_code_def deployer_restored)
qed (simp_all add: deployer_code_def deployer_Marshal_wire, simp_all add: zero_deployer_def deployer_good_def one_recorded_def)


section \<open>The books of a whole life\<close>

definition deployer_books :: "Deployer_agent life \<Rightarrow> bool" where
  "deployer_books l \<longleftrightarrow> (let d = lf_agent l; es = observed deploy_ob (lf_trace l) in
     deployer_good d \<and> dp_PaidCount d = of_nat (length (paid_amounts es)) \<and> dp_TotalPaid d = sum_list (paid_amounts es) \<and>
     (es = [] \<or> (\<exists>n. hd es = Paid n)) \<and> (dp_Phase d \<in> {phaseDeploy, phaseMonitor} \<longrightarrow> es \<noteq> []) \<and>
     filter (\<lambda>e. e = Deployed) es = (if dp_DeployIDLen d = 0 then [] else [Deployed]))"

lemma paid_amounts_append [simp]: "paid_amounts (es @ es') = paid_amounts es @ paid_amounts es'"
  by (simp add: paid_amounts_def)

lemma deployer_books_post:
  assumes "deployer_books l" "deployer_post (lf_agent l) (observed deploy_ob tr) d"
  shows "deployer_books (l\<lparr>lf_agent := d, lf_trace := lf_trace l @ tr\<rparr>)"
proof -
  have good: "dp_Phase (lf_agent l) = phaseMonitor \<longleftrightarrow> dp_DeployIDLen (lf_agent l) \<noteq> 0"
    using assms(1) by (auto simp: deployer_books_def deployer_good_def Let_def)
  from assms(2) consider
      (idle) "observed deploy_ob tr = []" "dp_DeployIDLen d = dp_DeployIDLen (lf_agent l)"
        "dp_Phase d \<in> {phaseDeploy, phaseMonitor} \<longrightarrow> dp_Phase (lf_agent l) \<in> {phaseDeploy, phaseMonitor}"
    | (paid) n where "observed deploy_ob tr = [Paid n]" "dp_DeployIDLen (lf_agent l) = 0" "dp_DeployIDLen d = 0"
    | (deployed) "observed deploy_ob tr = [Deployed]" "dp_Phase (lf_agent l) = phaseDeploy" "dp_DeployIDLen d \<noteq> 0"
    unfolding deployer_post_def by blast
  then show ?thesis
  proof cases
    case idle
    with assms show ?thesis by (auto simp: deployer_books_def deployer_post_def paid_amounts_def [of "[]"] Let_def)
  next
    case paid
    with assms show ?thesis by (auto simp: deployer_books_def deployer_post_def hd_append Let_def)
  next
    case deployed
    with assms good show ?thesis by (auto simp: deployer_books_def deployer_post_def Let_def)
  qed
qed

lemma deployer_books_step:
  assumes "deployer_books l" "life_step deployer_code zero_deployer ev l = Some l'" "trace_ok (lf_trace l')" "no_crash ev"
  shows "deployer_books l'"
proof (cases ev)
  case (LTick as)
  then obtain tr r where f: "follow (deployer_Tick (lf_agent l)) as = (tr, Returned r)"
    and l': "l' = l\<lparr>lf_agent := snd r, lf_trace := lf_trace l @ tr\<rparr>"
    using assms(2) by (auto simp: deployer_code_def split: prod.splits outcome.splits)
  have "deployer_post (lf_agent l) (observed deploy_ob tr) (snd r)"
    using io_wp_sound [OF deployer_tick_ok f] assms(1,3) l' by (simp add: deployer_books_def Let_def)
  with deployer_books_post [OF assms(1)] l' show ?thesis by simp
next
  case LSave
  with assms show ?thesis by (auto simp: deployer_books_def Let_def)
qed (use assms in simp)

lemma deployer_books_run:
  "deployer_books l \<Longrightarrow> life_run deployer_code zero_deployer evs l = Some l' \<Longrightarrow> trace_ok (lf_trace l') \<Longrightarrow> list_all no_crash evs \<Longrightarrow>
   deployer_books l'"
proof (induction evs arbitrary: l)
  case (Cons ev evs)
  from Cons.prems(2,3) obtain l1 where "life_step deployer_code zero_deployer ev l = Some l1"
    "life_run deployer_code zero_deployer evs l1 = Some l'" "trace_ok (lf_trace l1)"
    by (rule life_run_Cons)
  with Cons.prems(1,4) deployer_books_step [of l ev l1] Cons.IH [of l1] Cons.prems(3) show ?case by simp
qed simp


text \<open>
  C38 The agent cannot be tripped by its own identifier: in every state a deployer reaches, through any ticks, checkpoints, crashes in the middle of a
  tick and resumes, and whatever identifier the provider sent, the identifier's array keeps its 64 bytes and the stored length lies within it (so that reading it back does
  not panic), at most one intent is pending, and it watches a deployment exactly when it has one.
\<close>

theorem deployer_state_bounded:
  assumes "life_run deployer_code zero_deployer evs \<lparr>lf_agent = zero_deployer, lf_ckpt = None, lf_trace = []\<rparr> = Some l"
    and "trace_ok (lf_trace l)" "d = lf_agent l"
  shows "length (dp_DeploymentID d) = 64 \<and> unat (dp_DeployIDLen d) \<le> 64 \<and> length (ef_intents (dp_Effects d)) \<le> 1 \<and>
    (dp_Phase d = phaseMonitor \<longleftrightarrow> dp_DeployIDLen d \<noteq> 0)"
proof -
  have "deployer.good_life \<lparr>lf_agent = zero_deployer, lf_ckpt = None, lf_trace = []\<rparr>"
    using deployer.good_start(1) by (simp add: deployer.good_life_def)
  from deployer.life_run_good [OF this assms(1,2)] have "deployer_good d" using assms(3) by (simp add: deployer.good_life_def)
  then show ?thesis unfolding deployer_good_def one_recorded_def by auto
qed


section \<open>The compute provider\<close>

text \<open>
  The provider keeps its deployments under their identifiers.  \<open>encoding/json\<close> is the pair of arguments \<open>decode\<close>, which reads the two
  fields of a request, and \<open>encode\<close>, which writes a deployment; the handlers run under the server's lock, so that each is one step.
\<close>

record deployment =
  de_ID :: string
  de_WASMHash :: string
  de_Status :: string
  de_queryCount :: int

record server =
  sv_deployments :: "string \<rightharpoonup> deployment"
  sv_counter :: int

definition newServer :: server where
  "newServer = \<lparr>sv_deployments = Map.empty, sv_counter = 0\<rparr>"

abbreviation deploymentCost :: int64 where "deploymentCost \<equiv> 500000"
abbreviation cloudRecipient :: string where "cloudRecipient \<equiv> ''mockcloud-provider''"
abbreviation cloudMemo :: string where "cloudMemo \<equiv> ''compute-deployment''"

definition http_error :: "string \<Rightarrow> int \<Rightarrow> int \<times> bytes" where
  "http_error msg code = (code, bytes_of_string (msg @ [CHR 0x0A]))"

definition handleDeploy ::
    "(bytes \<Rightarrow> (string \<times> int64) result) \<Rightarrow> (deployment \<Rightarrow> bytes) \<Rightarrow> string \<Rightarrow> (string \<times> string) list \<Rightarrow> bytes \<Rightarrow> server \<Rightarrow> (int \<times> bytes) \<times> server" where
  "handleDeploy decode encode method headers body s =
     (if method \<noteq> ''POST'' then (http_error ''method not allowed'' 405, s)
      else if header_get ''X-Payment'' headers = '''' then ((402, encodePaymentTerms deploymentCost cloudRecipient cloudMemo), s)
      else case decode body of
        Inl _ \<Rightarrow> (http_error ''invalid request body'' 400, s)
      | Inr (hash, _) \<Rightarrow>
        let s = s\<lparr>sv_counter := sv_counter s + 1\<rparr>;
            ident = ''dep-'' @ pad_int 4 (sv_counter s);
            dep = \<lparr>de_ID = ident, de_WASMHash = hash, de_Status = ''pending'', de_queryCount = 0\<rparr>
        in ((201, encode dep), s\<lparr>sv_deployments := (sv_deployments s)(ident \<mapsto> dep)\<rparr>))"

text \<open>\<open>strings.SplitN(path, "/", 2)\<close>.\<close>

definition split_slash :: "string \<Rightarrow> string \<times> string option" where
  "split_slash path =
     (let first = takeWhile (\<lambda>c. c \<noteq> CHR ''/'') path in
      (first, if length first = length path then None else Some (drop (length first + 1) path)))"

definition next_status :: "deployment \<Rightarrow> deployment" where
  "next_status dep =
     (let dep = dep\<lparr>de_queryCount := de_queryCount dep + 1\<rparr> in
      dep\<lparr>de_Status := (if de_queryCount dep \<le> 1 then ''pending'' else if de_queryCount dep \<le> 2 then ''provisioning'' else ''running'')\<rparr>)"

text \<open>The argument \<open>path\<close> is what follows the prefix \<open>/v1/deploy/\<close>.\<close>

definition handleDeployByID :: "(deployment \<Rightarrow> bytes) \<Rightarrow> string \<Rightarrow> string \<Rightarrow> server \<Rightarrow> (int \<times> bytes) \<times> server" where
  "handleDeployByID encode method path s =
     (case split_slash path of (ident, action) \<Rightarrow>
        if ident = '''' then (http_error ''missing deployment id'' 400, s)
        else case sv_deployments s ident of
          None \<Rightarrow> (http_error ''deployment not found'' 404, s)
        | Some dep \<Rightarrow>
          if action = Some ''terminate'' \<and> method = ''POST'' then
            let dep = dep\<lparr>de_Status := ''terminated''\<rparr> in
            ((200, encode dep), s\<lparr>sv_deployments := (sv_deployments s)(ident \<mapsto> dep)\<rparr>)
          else if method \<noteq> ''GET'' then (http_error ''method not allowed'' 405, s)
          else
            let dep = next_status dep in
            ((200, encode dep), s\<lparr>sv_deployments := (sv_deployments s)(ident \<mapsto> dep)\<rparr>))"

text \<open>The routes of \<open>main\<close>.\<close>

definition mockcloud_serve ::
    "(bytes \<Rightarrow> (string \<times> int64) result) \<Rightarrow> (deployment \<Rightarrow> bytes) \<Rightarrow> string \<Rightarrow> string \<Rightarrow> (string \<times> string) list \<Rightarrow> bytes \<Rightarrow> server \<Rightarrow> (int \<times> bytes) \<times> server" where
  "mockcloud_serve decode encode method path headers body s =
     (if path = ''/health'' then ((200, bytes_of_string ''ok''), s)
      else if path = ''/v1/deploy'' then handleDeploy decode encode method headers body s
      else if take 11 path = ''/v1/deploy/'' then handleDeployByID encode method (drop 11 path) s
      else (http_error ''404 page not found'' 404, s))"

text \<open>What the provider relies on of \<open>encoding/json\<close>: the request body of the agent is read, and strings of letters,
  digits and hyphens are written between quotes as they are, in the order of the struct.\<close>

definition plain_text :: "string \<Rightarrow> bool" where
  "plain_text s \<longleftrightarrow> list_all (\<lambda>c. c \<in> set ''0123456789abcdefghijklmnopqrstuvwxyz-'') s"

definition json_decodes :: "(bytes \<Rightarrow> (string \<times> int64) result) \<Rightarrow> bool" where
  "json_decodes decode \<longleftrightarrow> decode deploy_body = Inr (replicate 64 (CHR ''0''), 500000)"

definition json_text :: "deployment \<Rightarrow> string" where
  "json_text dep = ''{\"deployment_id\":\"'' @ de_ID dep @ ''\",\"wasm_hash\":\"'' @ de_WASMHash dep @ ''\",\"status\":\"'' @ de_Status dep @ ''\"}'' @ [CHR 0x0A]"

definition json_encodes :: "(deployment \<Rightarrow> bytes) \<Rightarrow> bool" where
  "json_encodes encode \<longleftrightarrow> (\<forall>dep. plain_text (de_ID dep) \<and> plain_text (de_WASMHash dep) \<and> plain_text (de_Status dep) \<longrightarrow>
     encode dep = bytes_of_string (json_text dep))"


section \<open>The deployer against the provider\<close>

text \<open>A world in which the provider answers the requests sent to it, the wallet holds the price and accepts payments with a receipt, and the clock
  runs; random bytes and the outcomes of logging are arbitrary.\<close>

abbreviation providerURL :: string where "providerURL \<equiv> ''http://localhost:8500''"

fun cloud_world ::
    "(bytes \<Rightarrow> (string \<times> int64) result) \<Rightarrow> (deployment \<Rightarrow> bytes) \<Rightarrow> sdk_call \<Rightarrow> server \<Rightarrow> sdk_answer \<Rightarrow> server \<Rightarrow> bool" where
  "cloud_world decode encode (CallHTTPRequest method url headers body) s a s' =
     (if take 21 url = providerURL
      then an_err a = None \<and> ((sint (an_num a), an_bytes a), s') = mockcloud_serve decode encode method (drop 21 url) headers body s
      else s' = s)"
| "cloud_world decode encode (CallWalletPay amount recipient memo) s a s' \<longleftrightarrow> an_err a = None \<and> an_bytes a \<noteq> [] \<and> length (an_bytes a) < 2 ^ 30 \<and> s' = s"
| "cloud_world decode encode CallWalletBalance s a s' \<longleftrightarrow> 500000 \<le> sint (an_num a) \<and> s' = s"
| "cloud_world decode encode CallClockNow s a s' \<longleftrightarrow> an_num a \<noteq> 0 \<and> s' = s"
| "cloud_world decode encode _ s a s' \<longleftrightarrow> s' = s"

definition cloud_dep :: "int \<Rightarrow> string \<Rightarrow> deployment" where
  "cloud_dep n st = \<lparr>de_ID = ''dep-0001'', de_WASMHash = replicate 64 (CHR ''0''), de_Status = st, de_queryCount = n\<rparr>"

abbreviation cloud_server :: "int \<Rightarrow> string \<Rightarrow> server" where
  "cloud_server n st \<equiv> \<lparr>sv_deployments = [''dep-0001'' \<mapsto> cloud_dep n st], sv_counter = 1\<rparr>"

lemma first_identifier: "''dep-'' @ pad_int 4 1 = ''dep-0001''"
  by code_simp

lemma plain_dep: "plain_text (de_ID (cloud_dep n st))" "plain_text (de_WASMHash (cloud_dep n st))"
  by (simp_all add: cloud_dep_def, code_simp+)

lemma plain_status: "plain_text ''pending''" "plain_text ''provisioning''" "plain_text ''running''"
  by code_simp+

lemma encode_dep: "json_encodes encode \<Longrightarrow> plain_text st \<Longrightarrow> encode (cloud_dep n st) = bytes_of_string (json_text (cloud_dep n st))"
  using plain_dep by (simp add: json_encodes_def cloud_dep_def)

lemma dep_text: "json_text (cloud_dep n st) =
    ''{\"deployment_id\":\"dep-0001\",\"wasm_hash\":\"0000000000000000000000000000000000000000000000000000000000000000\",\"status\":\"'' @ st @ ''\"}'' @ [CHR 0x0A]"
  unfolding json_text_def cloud_dep_def by (simp add: numeral_eq_Suc)

lemma read_dep:
  "extractJSONString (bytes_of_string (json_text (cloud_dep n ''pending''))) ''deployment_id'' = ''dep-0001''"
  "extractJSONString (bytes_of_string (json_text (cloud_dep n ''pending''))) ''status'' = ''pending''"
  "extractJSONString (bytes_of_string (json_text (cloud_dep n ''provisioning''))) ''status'' = ''provisioning''"
  "extractJSONString (bytes_of_string (json_text (cloud_dep n ''running''))) ''status'' = ''running''"
  unfolding extractJSONString_def string_of_bytes_of_string dep_text by code_simp+


lemma cloud_quiet:
  "cloud_world decode encode (CallLog m) s a s' \<Longrightarrow> s' = s" "cloud_world decode encode (CallRandBytes n) s a s' \<Longrightarrow> s' = s"
  by simp_all

lemmas cloud_calls = does_Log [where R = "cloud_world decode encode" for decode encode, OF cloud_quiet(1)]
  does_RandBytes [where R = "cloud_world decode encode" for decode encode, OF cloud_quiet(2)]

text \<open>The states after the first five ticks.\<close>

definition young :: "uint64 \<Rightarrow> byte \<Rightarrow> uint32 \<Rightarrow> int64 \<Rightarrow> Deployer_agent \<Rightarrow> bool" where
  "young n phase paid amt d \<longleftrightarrow> dp_TickCount d = n \<and> dp_Phase d = phase \<and> dp_DeployIDLen d = 0 \<and> length (dp_DeploymentID d) = 64 \<and>
     dp_PaidCount d = paid \<and> dp_TotalPaid d = amt"

definition pays :: "Deployer_agent \<Rightarrow> bool" where
  "pays d \<longleftrightarrow> (\<exists>key. length key = 16 \<and> dp_Effects d = \<lparr>ef_intents =
     [\<lparr>it_ID = key, it_State = Recorded, it_Data = deploy_payment_intent deploymentCost cloudRecipient cloudMemo\<rparr>]\<rparr>)"

definition deploys :: "Deployer_agent \<Rightarrow> bool" where
  "deploys d \<longleftrightarrow> (\<exists>key receipt. length key = 16 \<and> receipt \<noteq> [] \<and> length receipt < 2 ^ 30 \<and> dp_Effects d = \<lparr>ef_intents =
     [\<lparr>it_ID = key, it_State = Recorded, it_Data = deploy_intent receipt\<rparr>]\<rparr>)"

definition watches :: "uint64 \<Rightarrow> byte \<Rightarrow> Deployer_agent \<Rightarrow> bool" where
  "watches n st d \<longleftrightarrow> dp_TickCount d = n \<and> dp_Phase d = phaseMonitor \<and> dp_DeployIDLen d = 8 \<and> length (dp_DeploymentID d) = 64 \<and>
     take 8 (dp_DeploymentID d) = bytes_of_string ''dep-0001'' \<and> dp_DeployStatus d = st \<and> dp_PaidCount d = 1 \<and> dp_TotalPaid d = deploymentCost \<and>
     dp_Effects d = \<lparr>ef_intents = []\<rparr>"

abbreviation empty_log :: EffectLog where "empty_log \<equiv> \<lparr>ef_intents = []\<rparr>"

lemma parse_cloud_terms:
  "parsePaymentTerms (encodePaymentTerms deploymentCost cloudRecipient cloudMemo) = Inr (deploymentCost, cloudRecipient, cloudMemo)"
  by (rule parse_encoded_terms) simp

lemma cloud_tick1:
  "io_does (cloud_world decode encode) (\<lambda>r s. young 1 phasePayProvider 0 0 (snd r) \<and> dp_Effects (snd r) = empty_log \<and> s = newServer)
     (deployer_Tick zero_deployer) newServer"
  by (auto simp: deployer_Tick_def deployer_act_def tickCheckBudget_def zero_deployer_def effect_Unresolved_def effect_Pending_def young_def
      sdk_ClockNow_def sdk_WalletBalance_def Let_def intro!: cloud_calls)

lemma cloud_tick2:
  assumes "young 1 phasePayProvider 0 0 d" "dp_Effects d = empty_log"
  shows "io_does (cloud_world decode encode) (\<lambda>r s. young 2 phasePayProvider 0 0 (snd r) \<and> pays (snd r) \<and> s = newServer) (deployer_Tick d) newServer"
  using assms
  by (auto simp: deployer_Tick_def deployer_act_def tickPayProvider_def deployer_recordPaymentIntent_def effect_Unresolved_def effect_Pending_def
      young_def pays_def sdk_ClockNow_def sdk_HTTPPost_def sdk_HTTPRequest_def mockcloud_serve_def handleDeploy_def header_get_def
      parse_cloud_terms Record_empty key_prefix_def Let_def intro!: cloud_calls)

lemma cloud_tick3:
  assumes "young 2 phasePayProvider 0 0 d" "pays d"
  shows "io_does (cloud_world decode encode) (\<lambda>r s. young 3 phaseDeploy 1 deploymentCost (snd r) \<and> dp_Effects (snd r) = empty_log \<and>
      dp_LastReceipt (snd r) \<noteq> [] \<and> length (dp_LastReceipt (snd r)) < 2 ^ 30 \<and> s = newServer) (deployer_Tick d) newServer"
proof -
  from assms(2) obtain key where k: "length key = 16" and e: "dp_Effects d = \<lparr>ef_intents =
     [\<lparr>it_ID = key, it_State = Recorded, it_Data = deploy_payment_intent deploymentCost cloudRecipient cloudMemo\<rparr>]\<rparr>" by (auto simp: pays_def)
  note s = single_intent [of "\<lparr>it_ID = key, it_State = Recorded, it_Data = deploy_payment_intent deploymentCost cloudRecipient cloudMemo\<rparr>",
      unfolded deploy_payment_intent_wire, simplified]
  show ?thesis
    using assms(1) k
    by (auto simp: deployer_Tick_def deployer_act_def deployer_executePayment_def effect_Unresolved_def effect_Pending_def executable_intent_def
        young_def e s sdk_ClockNow_def sdk_WalletPay_def answer_bytes_def key_prefix_def deploy_payment_intent_wire decode_payment_intent
        Let_def intro!: cloud_calls)
qed


lemma deploysI:
  "length key = 16 \<Longrightarrow> receipt \<noteq> [] \<Longrightarrow> length receipt < 2 ^ 30 \<Longrightarrow>
   deploys (d\<lparr>dp_Effects := \<lparr>ef_intents = [\<lparr>it_ID = key, it_State = Recorded, it_Data = deploy_intent receipt\<rparr>]\<rparr>\<rparr>)"
  unfolding deploys_def by (intro exI [of _ key] exI [of _ receipt]) simp

lemma cloud_tick4:
  assumes "young 3 phaseDeploy 1 deploymentCost d" "dp_Effects d = empty_log" "dp_LastReceipt d \<noteq> []" "length (dp_LastReceipt d) < 2 ^ 30"
  shows "io_does (cloud_world decode encode) (\<lambda>r s. young 4 phaseDeploy 1 deploymentCost (snd r) \<and> deploys (snd r) \<and> s = newServer) (deployer_Tick d) newServer"
  using assms
  by (auto simp: deployer_Tick_def deployer_act_def tickDeploy_def recordDeployIntent_def effect_Unresolved_def effect_Pending_def
      young_def sdk_ClockNow_def Record_empty key_prefix_def Let_def intro!: cloud_calls deploysI)

lemma granted_deployment:
  assumes "json_decodes decode" "json_encodes encode" "hex \<noteq> ''''"
  shows "mockcloud_serve decode encode ''POST'' ''/v1/deploy'' [(''X-Payment'', hex), (''Content-Type'', ''application/json'')] deploy_body newServer =
    ((201, bytes_of_string (json_text (cloud_dep 0 ''pending''))), cloud_server 0 ''pending'')"
  using assms encode_dep [OF assms(2) plain_status(1), of 0] first_identifier
  by (simp add: mockcloud_serve_def handleDeploy_def header_get_def json_decodes_def newServer_def cloud_dep_def Let_def)

lemma cloud_tick5:
  assumes "young 4 phaseDeploy 1 deploymentCost d" "deploys d" "json_decodes decode" "json_encodes encode"
  shows "io_does (cloud_world decode encode) (\<lambda>r s. watches 5 1 (snd r) \<and> s = cloud_server 0 ''pending'') (deployer_Tick d) newServer"
proof -
  from assms(2) obtain key receipt where k: "length key = 16" "receipt \<noteq> []" "length receipt < 2 ^ 30" and e: "dp_Effects d = \<lparr>ef_intents =
     [\<lparr>it_ID = key, it_State = Recorded, it_Data = deploy_intent receipt\<rparr>]\<rparr>" by (auto simp: deploys_def)
  obtain dd where dd: "Decoder_Bytes (NewDecoder (drop 1 (deploy_intent receipt))) = (receipt, dd)" "Decoder_Err dd = None"
    using decode_deploy_intent [OF k(3)] by blast
  note s = single_intent [of "\<lparr>it_ID = key, it_State = Recorded, it_Data = deploy_intent receipt\<rparr>", simplified]
  have first: "deploy_intent receipt \<noteq> []" "deploy_intent receipt ! 0 = intentDeployment" by (simp_all add: deploy_intent_wire)
  have hex: "encodeBytesHex receipt \<noteq> ''''" using k(2) by simp
  show ?thesis
    using assms(1) k dd first granted_deployment [OF assms(3,4) hex]
    by (auto simp: deployer_Tick_def deployer_act_def executeDeploy_def effect_Unresolved_def effect_Pending_def executable_intent_def
        young_def watches_def e s sdk_ClockNow_def sdk_HTTPRequest_def read_dep setDeploymentID_def key_prefix_def Let_def intro!: cloud_calls)
qed

lemma watched_identifier: "watches n st d \<Longrightarrow> getDeploymentID d k = k ''dep-0001''"
  by (simp add: watches_def getDeploymentID_def)

text \<open>A tick in the monitoring phase, after the clock has been read: two of three do nothing, the third polls.\<close>

lemma monitor_idle:
  assumes "watches n st d" "n mod 3 \<noteq> 0"
  shows "io_does (cloud_world decode encode) (\<lambda>r s. watches n st (snd r) \<and> s = w) (deployer_act age d) w"
proof -
  have d: "dp_TickCount d = n" "dp_Phase d = phaseMonitor" "dp_DeployIDLen d = 8" "dp_Effects d = empty_log" using assms(1) by (simp_all add: watches_def)
  have "io_does (cloud_world decode encode) (\<lambda>r s. watches n st (snd r) \<and> s = w) (tickMonitor age d) w"
    unfolding tickMonitor_def watched_identifier [OF assms(1)] using assms d by (auto intro!: cloud_calls)
  with d show ?thesis by (simp add: deployer_act_def effect_Unresolved_def effect_Pending_def)
qed

definition status_code :: "string \<Rightarrow> byte" where
  "status_code st = (if st = ''pending'' then 1 else if st = ''provisioning'' then 2 else 3)"

lemma poll_status_does:
  assumes "st' \<in> {''pending'', ''provisioning'', ''running''}"
    "io_does (cloud_world decode encode) Q (k (d\<lparr>dp_DeployStatus := status_code st'\<rparr>)) w"
  shows "io_does (cloud_world decode encode) Q (poll_status depID st' d k) w"
proof -
  consider "st' = ''pending''" | "st' = ''provisioning''" | "st' = ''running''" using assms(1) by blast
  then show ?thesis
  proof cases
    case 3
    with assms(2) show ?thesis by (auto simp: poll_status_def status_code_def intro!: cloud_calls)
  qed (use assms(2) in \<open>simp_all add: poll_status_def status_code_def\<close>)
qed

lemma polled_deployment:
  assumes "json_encodes encode" "next_status (cloud_dep q st) = cloud_dep (q + 1) st'" "plain_text st'"
  shows "mockcloud_serve decode encode ''GET'' ''/v1/deploy/dep-0001'' [] [] (cloud_server q st) =
    ((200, bytes_of_string (json_text (cloud_dep (q + 1) st'))), cloud_server (q + 1) st')"
  using assms encode_dep [OF assms(1,3)] by (simp add: mockcloud_serve_def handleDeployByID_def split_slash_def Let_def)

lemma monitor_poll:
  assumes "watches n old d" "n mod 3 = 0" "json_encodes encode" "next_status (cloud_dep q st) = cloud_dep (q + 1) st'"
    "st' \<in> {''pending'', ''provisioning'', ''running''}"
  shows "io_does (cloud_world decode encode) (\<lambda>r s. watches n (status_code st') (snd r) \<and> s = cloud_server (q + 1) st') (deployer_act age d) (cloud_server q st)"
proof -
  have plain: "plain_text st'" using assms(5) plain_status by auto
  have read: "extractJSONString (bytes_of_string (json_text (cloud_dep (q + 1) st'))) ''status'' = st'" using assms(5) read_dep by auto
  have d: "dp_TickCount d = n" "dp_Phase d = phaseMonitor" "dp_DeployIDLen d = 8" "dp_Effects d = empty_log" using assms(1) by (simp_all add: watches_def)
  have new: "watches n (status_code st') (d\<lparr>dp_DeployStatus := status_code st'\<rparr>)" using assms(1) by (simp add: watches_def)
  have "io_does (cloud_world decode encode) (\<lambda>r s. watches n (status_code st') (snd r) \<and> s = cloud_server (q + 1) st')
      (poll_status ''dep-0001'' st' d (\<lambda>d. sdk_Log (line d) (Done (False, d)))) (cloud_server (q + 1) st')" for line
    by (rule poll_status_does) (use assms(5) new in \<open>auto intro!: cloud_calls\<close>)
  then have "io_does (cloud_world decode encode) (\<lambda>r s. watches n (status_code st') (snd r) \<and> s = cloud_server (q + 1) st') (tickMonitor age d) (cloud_server q st)"
    unfolding tickMonitor_def watched_identifier [OF assms(1)]
    using assms(2) d polled_deployment [OF assms(3,4) plain] read by (auto simp: sdk_HTTPGet_def sdk_HTTPRequest_def)
  with d show ?thesis by (simp add: deployer_act_def effect_Unresolved_def effect_Pending_def)
qed

lemma monitor_tick:
  assumes "watches n st d" "\<And>d' age. watches (n + 1) st d' \<Longrightarrow> io_does (cloud_world decode encode) Q (deployer_act age d') w"
  shows "io_does (cloud_world decode encode) Q (deployer_Tick d) w"
proof -
  have "watches (n + 1) st (d\<lparr>dp_TickCount := dp_TickCount d + 1, dp_BirthNano := b, dp_LastNano := t\<rparr>)"
    "watches (n + 1) st (d\<lparr>dp_TickCount := dp_TickCount d + 1, dp_LastNano := t\<rparr>)" for b t
    using assms(1) by (simp_all add: watches_def)
  with assms(2) show ?thesis by (auto simp: deployer_Tick_def sdk_ClockNow_def Let_def intro!: cloud_calls)
qed


lemma next_statuses:
  "next_status (cloud_dep 0 ''pending'') = cloud_dep (0 + 1) ''pending''" "next_status (cloud_dep 1 ''pending'') = cloud_dep (1 + 1) ''provisioning''"
  "next_status (cloud_dep 2 ''provisioning'') = cloud_dep (2 + 1) ''running''"
  by (simp_all add: next_status_def cloud_dep_def Let_def)

definition watching :: "uint64 \<Rightarrow> byte \<Rightarrow> int \<Rightarrow> string \<Rightarrow> Deployer_agent \<Rightarrow> server \<Rightarrow> bool" where
  "watching n code q st d w \<longleftrightarrow> watches n code d \<and> w = cloud_server q st"

lemma watching_idle:
  "watching n code q st d w \<Longrightarrow> (n + 1) mod 3 \<noteq> 0 \<Longrightarrow>
   io_does (cloud_world decode encode) (\<lambda>r w. watching (n + 1) code q st (snd r) w) (deployer_Tick d) w"
  unfolding watching_def by (rule monitor_tick) (use monitor_idle in auto)

lemma watching_poll:
  assumes "watching n code q st d w" "(n + 1) mod 3 = 0" "json_encodes encode" "next_status (cloud_dep q st) = cloud_dep (q + 1) st'"
    "st' \<in> {''pending'', ''provisioning'', ''running''}"
  shows "io_does (cloud_world decode encode) (\<lambda>r w. watching (n + 1) (status_code st') (q + 1) st' (snd r) w) (deployer_Tick d) w"
proof -
  have w: "watches n code d" "w = cloud_server q st" using assms(1) by (simp_all add: watching_def)
  show ?thesis unfolding watching_def w(2) by (rule monitor_tick [OF w(1)]) (rule monitor_poll [OF _ assms(2-5)])
qed

text \<open>The twelve ticks.\<close>

definition cloud_stage :: "nat \<Rightarrow> Deployer_agent \<Rightarrow> server \<Rightarrow> bool" where
  "cloud_stage n d w \<longleftrightarrow>
     (if n = 0 then d = zero_deployer \<and> w = newServer
      else if n = 1 then young 1 phasePayProvider 0 0 d \<and> dp_Effects d = empty_log \<and> w = newServer
      else if n = 2 then young 2 phasePayProvider 0 0 d \<and> pays d \<and> w = newServer
      else if n = 3 then young 3 phaseDeploy 1 deploymentCost d \<and> dp_Effects d = empty_log \<and> dp_LastReceipt d \<noteq> [] \<and>
        length (dp_LastReceipt d) < 2 ^ 30 \<and> w = newServer
      else if n = 4 then young 4 phaseDeploy 1 deploymentCost d \<and> deploys d \<and> w = newServer
      else if n < 6 then watching (of_nat n) 1 0 ''pending'' d w
      else if n < 9 then watching (of_nat n) 1 1 ''pending'' d w
      else if n < 12 then watching (of_nat n) 2 2 ''provisioning'' d w
      else watching (of_nat n) 3 3 ''running'' d w)"

lemma cloud_stage_young:
  assumes "cloud_stage n d w" "n < 5" "json_decodes decode" "json_encodes encode"
  shows "io_does (cloud_world decode encode) (\<lambda>r w. cloud_stage (Suc n) (snd r) w) (deployer_Tick d) w"
proof -
  consider "n = 0" | "n = 1" | "n = 2" | "n = 3" | "n = 4" using assms(2) by linarith
  then show ?thesis
  proof cases
    case 1
    with assms(1) cloud_tick1 show ?thesis by (simp add: cloud_stage_def)
  next
    case 2
    with assms(1) cloud_tick2 [of d] show ?thesis by (simp add: cloud_stage_def)
  next
    case 3
    with assms(1) cloud_tick3 [of d] show ?thesis by (simp add: cloud_stage_def)
  next
    case 4
    with assms(1) cloud_tick4 [of d] show ?thesis by (simp add: cloud_stage_def)
  next
    case 5
    with assms cloud_tick5 [of d decode encode] show ?thesis by (simp add: cloud_stage_def watching_def)
  qed
qed

lemma cloud_stage_watching:
  assumes "cloud_stage n d w" "5 \<le> n" "n < 12" "json_encodes encode"
  shows "io_does (cloud_world decode encode) (\<lambda>r w. cloud_stage (Suc n) (snd r) w) (deployer_Tick d) w"
proof -
  consider (poll) "n = 5 \<or> n = 8 \<or> n = 11" | (idle) "n = 6 \<or> n = 7 \<or> n = 9 \<or> n = 10" using assms(2,3) by linarith
  then show ?thesis
  proof cases
    case poll
    then show ?thesis
      using assms(1) watching_poll [OF _ _ assms(4) next_statuses(1), where n = 5 and w = w] watching_poll [OF _ _ assms(4) next_statuses(2), where n = 8 and w = w]
        watching_poll [OF _ _ assms(4) next_statuses(3), where n = 11 and w = w]
      by (elim disjE) (simp_all add: cloud_stage_def status_code_def)
  next
    case idle
    then show ?thesis
      using assms(1) watching_idle [where n = 6 and w = w and d = d] watching_idle [where n = 7 and w = w and d = d]
        watching_idle [where n = 9 and w = w and d = d] watching_idle [where n = 10 and w = w and d = d]
      by (elim disjE) (simp_all add: cloud_stage_def)
  qed
qed

text \<open>
  C25 The agent provisions itself.  Against the provider as written, a wallet that holds the price and accepts payments, and a running clock, a fresh
  deployer returns from each of its first twelve ticks and then knows its deployment to be running, having paid the provider's
  price exactly once and caused exactly one deployment; random keys, receipts, times and the outcomes of logging may be anything.
\<close>

theorem deployer_provisions_itself:
  assumes "json_decodes decode" "json_encodes encode"
    and "\<And>c x. cloud_world decode encode c (seen x) (fst (H c x)) (seen (snd (H c x)))" "seen x = newServer"
  shows "\<exists>d x'. run_ticks 12 deployer_code H zero_deployer x = Some (d, x') \<and> dp_Phase d = phaseMonitor \<and> dp_DeployStatus d = 3 \<and>
    dp_PaidCount d = 1 \<and> dp_TotalPaid d = deploymentCost \<and> sv_counter (seen x') = 1 \<and> dom (sv_deployments (seen x')) = {''dep-0001''}"
proof -
  have stage: "io_does (cloud_world decode encode) (\<lambda>r w. cloud_stage (Suc n) (snd r) w) (ag_Tick deployer_code d) w"
    if "n < 12" "cloud_stage n d w" for n d w
    using that cloud_stage_young [OF that(2) _ assms(1,2)] cloud_stage_watching [OF that(2) _ that(1) assms(2)]
    by (cases "n < 5") (simp_all add: deployer_code_def)
  have "cloud_stage 0 zero_deployer (seen x)" using assms(4) by (simp add: cloud_stage_def)
  from run_ticks_stages [where f = seen and P = cloud_stage and k = 12, OF stage assms(3) this] obtain d x' where
    "run_ticks 12 deployer_code H zero_deployer x = Some (d, x')" "cloud_stage 12 d (seen x')" by auto
  then show ?thesis by (auto simp: cloud_stage_def watching_def watches_def)
qed


section \<open>Instances\<close>

definition example_decode :: "bytes \<Rightarrow> (string \<times> int64) result" where
  "example_decode body = (if body = deploy_body then Inr (replicate 64 (CHR ''0''), 500000) else Inl (NewError ''EOF''))"

definition example_encode :: "deployment \<Rightarrow> bytes" where
  "example_encode dep = bytes_of_string (json_text dep)"

definition example_cloud :: "sdk_call \<Rightarrow> server \<times> nat \<Rightarrow> sdk_answer \<times> (server \<times> nat)" where
  "example_cloud c x =
     (case c of
        CallHTTPRequest method url headers body \<Rightarrow>
          (if take 21 url = providerURL
           then case mockcloud_serve example_decode example_encode method (drop 21 url) headers body (fst x) of
             ((status, data), s) \<Rightarrow> (\<lparr>an_num = word_of_int status, an_bytes = data, an_err = None\<rparr>, (s, Suc (snd x)))
           else (\<lparr>an_num = 0, an_bytes = [], an_err = Some (NewError ''no such host'')\<rparr>, x))
      | _ \<Rightarrow> (\<lparr>an_num = 1000000, an_bytes = [7], an_err = None\<rparr>, (fst x, Suc (snd x))))"

lemma serve_status:
  "fst (fst (mockcloud_serve decode encode method path headers body s)) \<in> {200, 201, 400, 402, 404, 405}"
  by (simp add: mockcloud_serve_def handleDeploy_def handleDeployByID_def http_error_def Let_def split: sum.split prod.split option.split)

lemma status_word: "n \<in> {200, 201, 400, 402, 404, 405} \<Longrightarrow> sint (word_of_int n :: int64) = n"
  by auto

lemma example_cloud_world: "cloud_world example_decode example_encode c (fst x) (fst (example_cloud c x)) (fst (snd (example_cloud c x)))"
proof (cases c)
  case (CallHTTPRequest verb url headers body)
  obtain status data s where h: "mockcloud_serve example_decode example_encode verb (drop 21 url) headers body (fst x) = ((status, data), s)"
    by (metis prod.collapse)
  then have "sint (word_of_int status :: int64) = status"
    using serve_status [of example_decode example_encode verb "drop 21 url" headers body "fst x"] by (intro status_word) simp
  with CallHTTPRequest h show ?thesis by (simp add: example_cloud_def)
qed (simp_all add: example_cloud_def)

theorem deployer_provisions_itself_witness:
  "\<exists>d x. run_ticks 12 deployer_code example_cloud zero_deployer (newServer, 0) = Some (d, x) \<and> dp_DeployStatus d = 3 \<and> dp_PaidCount d = 1"
proof -
  have "json_decodes example_decode" "json_encodes example_encode"
    by (simp_all add: json_decodes_def json_encodes_def example_decode_def example_encode_def)
  from deployer_provisions_itself [where seen = fst, OF this example_cloud_world, of "(newServer, 0)"] show ?thesis by auto
qed

definition first_answers :: "sdk_answer list" where
  "first_answers = [plain_answer, plain_answer, plain_answer\<lparr>an_num := 600000\<rparr>, plain_answer, plain_answer]"

lemma example_deployer_tick:
  "\<exists>tr d. follow (deployer_Tick zero_deployer) first_answers = (tr, Returned (True, d)) \<and> dp_Phase d = phasePayProvider \<and> trace_ok tr"
  by (simp add: deployer_Tick_def deployer_act_def tickCheckBudget_def zero_deployer_def effect_Unresolved_def effect_Pending_def first_answers_def
      sdk_ClockNow_def sdk_WalletBalance_def follow_rules answer_ok_def Let_def)


theorem deployer_state_bounded_witness:
  "\<exists>l. life_run deployer_code zero_deployer [LTick first_answers, LCrash first_answers] \<lparr>lf_agent = zero_deployer, lf_ckpt = None, lf_trace = []\<rparr> = Some l \<and>
     length (dp_DeploymentID (lf_agent l)) = 64 \<and> unat (dp_DeployIDLen (lf_agent l)) \<le> 64"
proof -
  obtain tr d where f: "follow (deployer_Tick zero_deployer) first_answers = (tr, Returned (True, d))" "trace_ok tr"
    using example_deployer_tick by blast
  obtain tr2 r where f2: "follow (deployer_Tick d) first_answers = (tr2, r)" by fastforce
  have "answer_ok c a" if "a \<in> set first_answers" for c a using that by (auto simp: first_answers_def answer_ok_def)
  then have "trace_ok tr2" using follow_trace_ok [OF f2] by blast
  let ?l = "\<lparr>lf_agent = zero_deployer, lf_ckpt = None, lf_trace = tr @ tr2\<rparr>"
  have run: "life_run deployer_code zero_deployer [LTick first_answers, LCrash first_answers] \<lparr>lf_agent = zero_deployer, lf_ckpt = None, lf_trace = []\<rparr> = Some ?l"
    using f(1) f2 by (simp add: deployer_code_def restart_def)
  from deployer_state_bounded [OF run _ refl] f \<open>trace_ok tr2\<close> run show ?thesis by auto
qed

end
