(* ===== verification/Bindings.thy ===== *)
theory Bindings
  imports Sdk Agent
begin

text \<open>
  The SDK inside a compiled agent (\<open>src/sdk/igor/hostcalls_*_wasm.go\<close>): each function places its arguments in
  the module's memory, calls a function of the host module \<open>igor\<close> with their addresses, and reads
  the answer back.  The memory is the module's, and Go's allocator, which places the buffers, is
  not part of the repository: it is the record \<open>go_heap\<close>, and what is relied on of it and of the engine's
  access to memory is the hypothesis \<open>heap_ok\<close>.  The theorems compose these functions with the host
  functions of \<open>Hostcall\<close>, and show that an agent run over them is a run of its tree, so that what
  is proved of trees holds of compiled agents.
\<close>

section \<open>Buffers in the module's memory\<close>

text \<open>\<open>gh_new\<close> allocates a buffer with the given contents (\<open>None\<close>: out of memory), \<open>gh_load\<close> is the agent's own
  access to a buffer.\<close>

record 'm go_heap =
  gh_new :: "bytes \<Rightarrow> 'm \<Rightarrow> (uint32 \<times> 'm) option"
  gh_load :: "uint32 \<Rightarrow> nat \<Rightarrow> 'm \<Rightarrow> bytes"

datatype 'a wasm_ret = WDone 'a | WTrap string

type_synonym ('a, 'm, 'h) wasm = "'m \<Rightarrow> 'h \<Rightarrow> 'a wasm_ret \<times> 'm \<times> 'h"

definition wasm_return :: "'a \<Rightarrow> ('a, 'm, 'h) wasm" where
  "wasm_return x m h = (WDone x, m, h)"

definition wasm_panic :: "string \<Rightarrow> ('a, 'm, 'h) wasm" where
  "wasm_panic msg m h = (WTrap msg, m, h)"

definition wasm_bind :: "('a, 'm, 'h) wasm \<Rightarrow> ('a \<Rightarrow> ('b, 'm, 'h) wasm) \<Rightarrow> ('b, 'm, 'h) wasm" where
  "wasm_bind f k m h = (case f m h of (WDone x, m, h) \<Rightarrow> k x m h | (WTrap msg, m, h) \<Rightarrow> (WTrap msg, m, h))"

text \<open>A slice is the address of its first element and its length; a slice of length zero needs no memory.\<close>

definition wasm_new :: "'m go_heap \<Rightarrow> bytes \<Rightarrow> (uint32, 'm, 'h) wasm" where
  "wasm_new A bs m h =
     (if bs = [] then (WDone 0, m, h)
      else case gh_new A bs m of None \<Rightarrow> (WTrap ''runtime error: out of memory'', m, h) | Some (p, m') \<Rightarrow> (WDone p, m', h))"

text \<open>\<open>&buf[0]\<close>.\<close>

definition wasm_first :: "uint32 \<Rightarrow> nat \<Rightarrow> (uint32, 'm, 'h) wasm" where
  "wasm_first p n m h = (if n = 0 then (WTrap ''runtime error: index out of range'', m, h) else (WDone p, m, h))"

definition wasm_load :: "'m go_heap \<Rightarrow> uint32 \<Rightarrow> nat \<Rightarrow> (bytes, 'm, 'h) wasm" where
  "wasm_load A p n m h = (WDone (gh_load A p n m), m, h)"

text \<open>A call of an imported function.\<close>

definition wasm_import :: "('m, 'h) host \<Rightarrow> hostreq \<Rightarrow> (uint64 list, 'm, 'h) wasm" where
  "wasm_import H rq m h =
     (case H rq m h of None \<Rightarrow> (WTrap (error_string ErrNoImport), m, h) | Some (rs, m', h') \<Rightarrow> (WDone rs, m', h'))"

definition as_i64 :: "uint64 list \<Rightarrow> int64" where "as_i64 rs = (case rs of [] \<Rightarrow> 0 | r # _ \<Rightarrow> r)"
definition as_i32 :: "uint64 list \<Rightarrow> int32" where "as_i32 rs = (case rs of [] \<Rightarrow> 0 | r # _ \<Rightarrow> ucast r)"

text \<open>\<open>buf[lo:hi]\<close> with a bound computed at 32 bits.\<close>

definition wasm_slice :: "nat \<Rightarrow> nat \<Rightarrow> bytes \<Rightarrow> (bytes, 'm, 'h) wasm" where
  "wasm_slice lo hi bs =
     (if lo \<le> hi \<and> hi \<le> length bs then wasm_return (go_slice lo hi bs) else wasm_panic ''runtime error: slice bounds out of range'')"

section \<open>Clock, randomness, log, wallet, price\<close>

definition wasm_ClockNow :: "('m, 'h) host \<Rightarrow> (int64, 'm, 'h) wasm" where
  "wasm_ClockNow H = wasm_bind (wasm_import H ReqClockNow) (\<lambda>rs. wasm_return (as_i64 rs))"

text \<open>The buffer is the caller's: its address and its length.\<close>

definition wasm_RandBytes :: "('m, 'h) host \<Rightarrow> uint32 \<Rightarrow> nat \<Rightarrow> (go_error option, 'm, 'h) wasm" where
  "wasm_RandBytes H p n =
     (if n = 0 then wasm_return None
      else wasm_bind (wasm_first p n) (\<lambda>p.
        wasm_bind (wasm_import H (ReqRandBytes p (of_nat n))) (\<lambda>rs.
          let rc = as_i32 rs in
          wasm_return (if rc \<noteq> 0 then Some (NewError (''rand_bytes failed: code '' @ dec_int (sint rc))) else None))))"

definition wasm_Log :: "'m go_heap \<Rightarrow> ('m, 'h) host \<Rightarrow> string \<Rightarrow> (unit, 'm, 'h) wasm" where
  "wasm_Log A H msg =
     (if length msg = 0 then wasm_return ()
      else let buf = bytes_of_string msg in
        wasm_bind (wasm_new A buf) (\<lambda>b.
        wasm_bind (wasm_first b (length buf)) (\<lambda>p.
        wasm_bind (wasm_import H (ReqLogEmit p (len_u32 buf))) (\<lambda>_. wasm_return ()))))"

definition wasm_WalletBalance :: "('m, 'h) host \<Rightarrow> (int64, 'm, 'h) wasm" where
  "wasm_WalletBalance H = wasm_bind (wasm_import H ReqWalletBalance) (\<lambda>rs. wasm_return (as_i64 rs))"

definition wasm_WalletReceiptCount :: "('m, 'h) host \<Rightarrow> (int, 'm, 'h) wasm" where
  "wasm_WalletReceiptCount H = wasm_bind (wasm_import H ReqWalletReceiptCount) (\<lambda>rs. wasm_return (sint (as_i32 rs)))"

definition wasm_WalletReceipt :: "'m go_heap \<Rightarrow> ('m, 'h) host \<Rightarrow> int \<Rightarrow> (bytes result, 'm, 'h) wasm" where
  "wasm_WalletReceipt A H index =
     wasm_bind (wasm_new A (replicate 1024 0)) (\<lambda>b.
     wasm_bind (wasm_first b 1024) (\<lambda>p.
     wasm_bind (wasm_import H (ReqWalletReceipt (word_of_int index) p 1024)) (\<lambda>rs.
       let rc = as_i32 rs in
       if sint rc < 0 then wasm_return (Inl (NewError (''wallet_receipt failed: code '' @ dec_int (sint rc))))
       else wasm_bind (wasm_load A b 1024) (\<lambda>buf.
         wasm_bind (wasm_slice 0 (nat (sint rc)) buf) (\<lambda>data. wasm_return (Inr data))))))"

definition wasm_NodePrice :: "('m, 'h) host \<Rightarrow> (int64, 'm, 'h) wasm" where
  "wasm_NodePrice H = wasm_bind (wasm_import H ReqNodePrice) (\<lambda>rs. wasm_return (as_i64 rs))"

section \<open>Payments\<close>

definition pay_error :: "int32 \<Rightarrow> go_error" where
  "pay_error rc =
     NewError (if rc = -1 then ''wallet_pay: insufficient budget''
       else if rc = -2 then ''wallet_pay: input too long''
       else if rc = -3 then ''wallet_pay: recipient not allowed''
       else if rc = -4 then ''wallet_pay: amount exceeds cap''
       else ''wallet_pay failed: code '' @ dec_int (sint rc))"

text \<open>What both calls leave: a code, and a buffer that starts with the length of what follows.\<close>

definition length_prefixed :: "go_error \<Rightarrow> bytes \<Rightarrow> (bytes result, 'm, 'h) wasm" where
  "length_prefixed truncated buf =
     (let n = get_u32 (take 4 buf) in
      if add_i32 (sint n) 4 > int (length buf) then wasm_return (Inl truncated)
      else wasm_bind (wasm_slice 4 (unat (4 + n)) buf) (\<lambda>data. wasm_return (Inr data)))"

definition pay_result :: "'m go_heap \<Rightarrow> uint32 \<Rightarrow> nat \<Rightarrow> int32 \<Rightarrow> (bytes result, 'm, 'h) wasm" where
  "pay_result A receiptPtr n rc =
     (if sint rc < 0 then wasm_return (Inl (pay_error rc))
      else if n < 4 then wasm_return (Inr [])
      else wasm_bind (wasm_load A receiptPtr n) (length_prefixed (NewError ''wallet_pay: receipt truncated'')))"

definition wasm_WalletPay :: "'m go_heap \<Rightarrow> ('m, 'h) host \<Rightarrow> int64 \<Rightarrow> string \<Rightarrow> string \<Rightarrow> (bytes result, 'm, 'h) wasm" where
  "wasm_WalletPay A H amount recipient memo =
     (let recipientBuf = bytes_of_string recipient; memoBuf = bytes_of_string memo in
      wasm_bind (wasm_new A recipientBuf) (\<lambda>r.
      wasm_bind (wasm_new A memoBuf) (\<lambda>q.
      wasm_bind (wasm_new A (replicate 1024 0)) (\<lambda>b.
      wasm_bind (wasm_first r (length recipientBuf)) (\<lambda>recipientPtr.
        let memoS = (if length memoBuf > 0 then (q, len_u32 memoBuf) else (0, 0));
            pay = (\<lambda>receiptPtr n. wasm_import H (ReqWalletPay amount (recipientPtr, len_u32 recipientBuf) memoS (receiptPtr, of_nat n)))
        in wasm_bind (pay b 1024) (\<lambda>rs.
        let rc = as_i32 rs in
        if rc = -5 then
          wasm_bind (wasm_load A b 1024) (\<lambda>receiptBuf.
          let needed = get_u32 (take 4 receiptBuf) in
          if 0 < needed \<and> needed \<le> 65536 then
            let n = unat (needed + 4) in
            wasm_bind (wasm_new A (replicate n 0)) (\<lambda>b.
            wasm_bind (pay b n) (\<lambda>rs. pay_result A b n (as_i32 rs)))
          else pay_result A b 1024 rc)
        else pay_result A b 1024 rc))))))"

section \<open>HTTP\<close>

text \<open>The headers of a map, in the order an iteration over it gives.\<close>

definition encode_headers :: "(string \<times> string) list \<Rightarrow> bytes" where
  "encode_headers headers = concat (map (\<lambda>(k, v). bytes_of_string k @ bytes_of_string '': '' @ bytes_of_string v @ [10]) headers)"

definition doHTTPRequest :: "('m, 'h) host \<Rightarrow> (uint32 \<times> nat) \<Rightarrow> (uint32 \<times> nat) \<Rightarrow> (uint32 \<times> nat) \<Rightarrow> (uint32 \<times> nat) \<Rightarrow> (uint32 \<times> nat) \<Rightarrow>
    (int32, 'm, 'h) wasm" where
  "doHTTPRequest H verb url headers body resp =
     wasm_bind (wasm_first (fst verb) (snd verb)) (\<lambda>methodPtr.
     wasm_bind (wasm_first (fst url) (snd url)) (\<lambda>urlPtr.
     let headersS = (if snd headers > 0 then (fst headers, of_nat (snd headers)) else (0, 0));
         bodyS = (if snd body > 0 then (fst body, of_nat (snd body)) else (0, 0))
     in wasm_bind (wasm_first (fst resp) (snd resp)) (\<lambda>respPtr.
        wasm_bind (wasm_import H (ReqHTTP (methodPtr, of_nat (snd verb)) (urlPtr, of_nat (snd url)) headersS bodyS (respPtr, of_nat (snd resp))))
          (\<lambda>rs. wasm_return (as_i32 rs)))))"

definition http_result :: "'m go_heap \<Rightarrow> uint32 \<Rightarrow> nat \<Rightarrow> int32 \<Rightarrow> ((int \<times> bytes) result, 'm, 'h) wasm" where
  "http_result A respPtr n rc =
     (if sint rc < 0 then wasm_return (Inl (NewError (''http_request failed: code '' @ dec_int (sint rc))))
      else if n < 4 then wasm_return (Inr (sint rc, []))
      else wasm_bind (wasm_load A respPtr n) (\<lambda>buf.
        wasm_bind (length_prefixed (NewError ''http_request: response body truncated'') buf) (\<lambda>r.
          wasm_return (map_sum (\<lambda>e. e) (\<lambda>data. (sint rc, data)) r))))"

text \<open>A response that did not fit is asked for again, with a buffer of the size the host named.\<close>

definition http_retry :: "'m go_heap \<Rightarrow> (uint32 \<Rightarrow> nat \<Rightarrow> (int32, 'm, 'h) wasm) \<Rightarrow> uint32 \<Rightarrow> int32 \<Rightarrow> ((int \<times> bytes) result, 'm, 'h) wasm" where
  "http_retry A request b rc =
     (if rc = -5 then
        wasm_bind (wasm_load A b 8192) (\<lambda>respBuf.
        let needed = get_u32 (take 4 respBuf) in
        if 0 < needed \<and> needed \<le> 4194304 then
          let n = unat (needed + 4) in
          wasm_bind (wasm_new A (replicate n 0)) (\<lambda>b.
          wasm_bind (request b n) (\<lambda>rc. http_result A b n rc))
        else http_result A b 8192 rc)
      else http_result A b 8192 rc)"

text \<open>The body is the caller's slice.\<close>

definition wasm_HTTPRequest :: "'m go_heap \<Rightarrow> ('m, 'h) host \<Rightarrow> string \<Rightarrow> string \<Rightarrow> (string \<times> string) list \<Rightarrow> (uint32 \<times> nat) \<Rightarrow>
    ((int \<times> bytes) result, 'm, 'h) wasm" where
  "wasm_HTTPRequest A H verb url headers body =
     (let methodBuf = bytes_of_string verb; urlBuf = bytes_of_string url; headersBuf = encode_headers headers in
      wasm_bind (wasm_new A methodBuf) (\<lambda>v.
      wasm_bind (wasm_new A urlBuf) (\<lambda>u.
      wasm_bind (wasm_new A headersBuf) (\<lambda>hd.
      wasm_bind (wasm_new A (replicate 8192 0)) (\<lambda>b.
        let request = (\<lambda>b n. doHTTPRequest H (v, length methodBuf) (u, length urlBuf) (hd, length headersBuf) body (b, n)) in
        wasm_bind (request b 8192) (http_retry A request b))))))"

definition wasm_HTTPGet :: "'m go_heap \<Rightarrow> ('m, 'h) host \<Rightarrow> string \<Rightarrow> ((int \<times> bytes) result, 'm, 'h) wasm" where
  "wasm_HTTPGet A H url = wasm_HTTPRequest A H ''GET'' url [] (0, 0)"

definition wasm_HTTPPost :: "'m go_heap \<Rightarrow> ('m, 'h) host \<Rightarrow> string \<Rightarrow> string \<Rightarrow> (uint32 \<times> nat) \<Rightarrow> ((int \<times> bytes) result, 'm, 'h) wasm" where
  "wasm_HTTPPost A H url contentType body = wasm_HTTPRequest A H ''POST'' url [(''Content-Type'', contentType)] body"

section \<open>An agent over its bindings\<close>

definition bytes_answer :: "bytes result \<Rightarrow> sdk_answer" where
  "bytes_answer r = (case r of Inl e \<Rightarrow> \<lparr>an_num = 0, an_bytes = [], an_err = Some e\<rparr> | Inr b \<Rightarrow> \<lparr>an_num = 0, an_bytes = b, an_err = None\<rparr>)"

definition num_answer :: "int64 \<Rightarrow> sdk_answer" where
  "num_answer v = \<lparr>an_num = v, an_bytes = [], an_err = None\<rparr>"

definition http_answer :: "(int \<times> bytes) result \<Rightarrow> sdk_answer" where
  "http_answer r =
     (case r of Inl e \<Rightarrow> \<lparr>an_num = 0, an_bytes = [], an_err = Some e\<rparr>
      | Inr (status, b) \<Rightarrow> \<lparr>an_num = word_of_int status, an_bytes = b, an_err = None\<rparr>)"

primrec wasm_call :: "'m go_heap \<Rightarrow> ('m, 'h) host \<Rightarrow> sdk_call \<Rightarrow> (sdk_answer, 'm, 'h) wasm" where
  "wasm_call A H CallClockNow = wasm_bind (wasm_ClockNow H) (\<lambda>t. wasm_return (num_answer t))"
| "wasm_call A H (CallRandBytes n) =
     wasm_bind (wasm_new A (replicate n 0)) (\<lambda>p.
     wasm_bind (wasm_RandBytes H p n) (\<lambda>e.
     wasm_bind (wasm_load A p n) (\<lambda>buf.
       wasm_return (bytes_answer (case e of None \<Rightarrow> Inr buf | Some err \<Rightarrow> Inl err)))))"
| "wasm_call A H (CallLog msg) = wasm_bind (wasm_Log A H msg) (\<lambda>_. wasm_return (num_answer 0))"
| "wasm_call A H CallWalletBalance = wasm_bind (wasm_WalletBalance H) (\<lambda>v. wasm_return (num_answer v))"
| "wasm_call A H CallWalletReceiptCount = wasm_bind (wasm_WalletReceiptCount H) (\<lambda>n. wasm_return (num_answer (word_of_int n)))"
| "wasm_call A H (CallWalletReceipt index) = wasm_bind (wasm_WalletReceipt A H index) (\<lambda>r. wasm_return (bytes_answer r))"
| "wasm_call A H CallNodePrice = wasm_bind (wasm_NodePrice H) (\<lambda>v. wasm_return (num_answer v))"
| "wasm_call A H (CallHTTPRequest verb url headers body) =
     wasm_bind (wasm_new A body) (\<lambda>p.
     wasm_bind (wasm_HTTPRequest A H verb url headers (p, length body)) (\<lambda>r. wasm_return (http_answer r)))"
| "wasm_call A H (CallWalletPay amount recipient memo) =
     wasm_bind (wasm_WalletPay A H amount recipient memo) (\<lambda>r. wasm_return (bytes_answer r))"

primrec run_wasm :: "'m go_heap \<Rightarrow> ('m, 'h) host \<Rightarrow> 'a io \<Rightarrow> ('a, 'm, 'h) wasm" where
  "run_wasm A H (Done x) = wasm_return x"
| "run_wasm A H (Panic msg) = wasm_panic msg"
| "run_wasm A H (Ask c k) = wasm_bind (wasm_call A H c) (\<lambda>a. run_wasm A H (k a))"

text \<open>Go's allocator and the engine's memory, seen through the contents of the buffers that are in use: a new buffer
  has an address of its own and leaves the others alone; the agent and the host read what is in a
  buffer; a host write that fits changes the front of that buffer and nothing else.\<close>

definition heap_ok :: "'m guest \<Rightarrow> 'm go_heap \<Rightarrow> ('m \<Rightarrow> uint32 \<Rightarrow> bytes option) \<Rightarrow> bool" where
  "heap_ok G A buf \<longleftrightarrow>
     (\<forall>bs m p m'. gh_new A bs m = Some (p, m') \<longrightarrow> length bs < 2 ^ 32 \<and> buf m p = None \<and> buf m' = (buf m)(p \<mapsto> bs)) \<and>
     (\<forall>m p n. length (gh_load A p n m) = n) \<and>
     (\<forall>m p bs. buf m p = Some bs \<longrightarrow> gh_load A p (length bs) m = bs \<and> g_read G p (len_u32 bs) m = Some bs) \<and>
     (\<forall>m p bs out. buf m p = Some bs \<longrightarrow> length out \<le> length bs \<longrightarrow>
        (\<exists>m'. g_write G p out m = Some m' \<and> buf m' = (buf m)(p \<mapsto> out @ drop (length out) bs)))"

lemma heap_okD:
  assumes "heap_ok G A buf"
  shows "gh_new A bs m = Some (p, m') \<Longrightarrow> length bs < 2 ^ 32" "gh_new A bs m = Some (p, m') \<Longrightarrow> buf m p = None"
    "gh_new A bs m = Some (p, m') \<Longrightarrow> buf m' = (buf m)(p \<mapsto> bs)"
    "length (gh_load A p n m) = n"
    "buf m p = Some bs \<Longrightarrow> gh_load A p (length bs) m = bs" "buf m p = Some bs \<Longrightarrow> g_read G p (len_u32 bs) m = Some bs"
    "buf m p = Some bs \<Longrightarrow> length out \<le> length bs \<Longrightarrow> \<exists>m'. g_write G p out m = Some m' \<and> buf m' = (buf m)(p \<mapsto> out @ drop (length out) bs)"
  using assms unfolding heap_ok_def by blast+

named_theorems wasm_defs \<open>the definitions of the bindings' primitives\<close>

declare wasm_return_def [wasm_defs] wasm_panic_def [wasm_defs] wasm_bind_def [wasm_defs] wasm_new_def [wasm_defs]
  wasm_first_def [wasm_defs] wasm_load_def [wasm_defs] wasm_import_def [wasm_defs] wasm_slice_def [wasm_defs]

text \<open>Total correctness is not the point here: what follows is about the value a function returns if it does.
  \<open>wasm_gives\<close> says that of every run, whatever the host does.\<close>

definition wasm_gives :: "('a, 'm, 'h) wasm \<Rightarrow> ('a \<Rightarrow> bool) \<Rightarrow> bool" where
  "wasm_gives f P \<longleftrightarrow> (\<forall>m h x m' h'. f m h = (WDone x, m', h') \<longrightarrow> P x)"

lemma wasm_givesD: "wasm_gives f P \<Longrightarrow> f m h = (WDone x, m', h') \<Longrightarrow> P x"
  unfolding wasm_gives_def by blast

lemma gives_bind: "wasm_gives f P \<Longrightarrow> (\<And>x. P x \<Longrightarrow> wasm_gives (k x) Q) \<Longrightarrow> wasm_gives (wasm_bind f k) Q"
  unfolding wasm_gives_def wasm_bind_def by (fastforce split: prod.splits wasm_ret.splits)

lemma gives_any: "wasm_gives f (\<lambda>_. True)"
  by (simp add: wasm_gives_def)

lemma gives_return: "P x \<Longrightarrow> wasm_gives (wasm_return x) P"
  by (simp add: wasm_gives_def wasm_return_def)

lemma gives_slice: "length bs \<le> n \<Longrightarrow> wasm_gives (wasm_slice lo hi bs) (\<lambda>data. length data \<le> n)"
  by (auto simp: wasm_gives_def wasm_slice_def wasm_return_def wasm_panic_def split: if_splits)

lemma gives_prefixed:
  assumes "length buf \<le> n"
  shows "wasm_gives (length_prefixed err buf) (\<lambda>r. \<forall>data. r = Inr data \<longrightarrow> length data \<le> n)"
proof -
  have "wasm_gives (wasm_bind (wasm_slice 4 j buf) (\<lambda>data. wasm_return (Inr data))) (\<lambda>r. \<forall>data. r = Inr data \<longrightarrow> length data \<le> n)" for j
    by (rule gives_bind [OF gives_slice [OF assms]]) (auto intro: gives_return)
  then show ?thesis by (auto simp: length_prefixed_def Let_def intro: gives_return)
qed

definition fits :: "nat \<Rightarrow> bytes result \<Rightarrow> bool" where
  "fits n r \<longleftrightarrow> (\<forall>data. r = Inr data \<longrightarrow> length data \<le> n)"

lemma gives_load: "heap_ok G A buf \<Longrightarrow> wasm_gives (wasm_load A p n) (\<lambda>bs. length bs = n)"
  by (auto simp: wasm_gives_def wasm_load_def heap_okD)

lemma gives_pay_result: "heap_ok G A buf \<Longrightarrow> n \<le> 65540 \<Longrightarrow> wasm_gives (pay_result A p n rc) (fits 65540)"
  unfolding pay_result_def fits_def
  by (auto intro!: gives_return gives_bind [OF gives_load] gives_prefixed)

lemma gives_WalletPay:
  assumes "heap_ok G A buf"
  shows "wasm_gives (wasm_WalletPay A H amount recipient memo) (fits 65540)"
proof -
  have n: "unat (needed + 4) \<le> 65540" if "needed \<le> 65536" for needed :: uint32
    using that by unat_arith
  show ?thesis
    unfolding wasm_WalletPay_def Let_def
    by (auto intro!: gives_bind [OF gives_any] gives_pay_result [OF assms] n)
qed

lemma gives_WalletReceipt:
  assumes "heap_ok G A buf"
  shows "wasm_gives (wasm_WalletReceipt A H index) (fits 65540)"
proof -
  have *: "wasm_gives (wasm_bind (wasm_load A p 1024) (\<lambda>buf. wasm_bind (wasm_slice 0 j buf) (\<lambda>data. wasm_return (Inr data)))) (fits 65540)" for p j
    by (rule gives_bind [OF gives_load [OF assms]], rule gives_bind [OF gives_slice [where n = 1024]])
      (auto intro: gives_return simp: fits_def)
  show ?thesis
    unfolding wasm_WalletReceipt_def Let_def
    by (rule gives_bind [OF gives_any])+
      (auto intro: * gives_return simp: fits_def)
qed

definition http_fits :: "(int \<times> bytes) result \<Rightarrow> bool" where
  "http_fits r \<longleftrightarrow> (\<forall>st data. r = Inr (st, data) \<longrightarrow> length data \<le> 4194308)"

lemma gives_http_result: "heap_ok G A buf \<Longrightarrow> n \<le> 4194308 \<Longrightarrow> wasm_gives (http_result A p n rc) http_fits"
  unfolding http_result_def http_fits_def
  by (auto intro!: gives_return gives_bind [OF gives_load] gives_bind [OF gives_prefixed [where n = n]] split: sum.splits simp: map_sum_def)

lemma gives_HTTPRequest:
  assumes "heap_ok G A buf"
  shows "wasm_gives (wasm_HTTPRequest A H verb url headers body) http_fits"
proof -
  have n: "unat (needed + 4) \<le> 4194308" if "needed \<le> 4194304" for needed :: uint32
    using that by unat_arith
  show ?thesis
    unfolding wasm_HTTPRequest_def http_retry_def Let_def
    by (auto intro!: gives_bind [OF gives_any] gives_http_result [OF assms] n)
qed

text \<open>The live host keeps its clock.\<close>

lemma pay_settle_clock: "pay_settle G W amount recipient memo pubKey needed p m h = (rs, m', h') \<Longrightarrow> ev_clock (hc_env h') = ev_clock (hc_env h)"
  by (auto simp: pay_settle_def next_env_def Let_def split: prod.splits sum.splits option.splits)

lemma wallet_pay_clock: "wallet_pay G W cfg amount recip memoS rcpt m h = (rs, m', h') \<Longrightarrow> ev_clock (hc_env h') = ev_clock (hc_env h)"
  by (auto simp: wallet_pay_def Let_def dest: pay_settle_clock split: option.splits if_splits)

lemma http_request_clock: "http_request G cfg v u hs body resp m h = (rs, m', h') \<Longrightarrow> ev_clock (hc_env h') = ev_clock (hc_env h)"
  by (auto simp: http_request_def next_env_def Let_def split: sum.splits http_outcome.splits if_splits option.splits)

lemma live_host_clock:
  assumes "live_host G W md rq m h = Some (rs, m', h')"
  shows "ev_clock (hc_env h') = ev_clock (hc_env h)" "rq = ReqClockNow \<Longrightarrow> as_i64 rs = ev_clock (hc_env h) (ev_calls (hc_env h))"
  using assms
  by (auto simp: live_host_def hostcall_defs next_env_def as_i64_def ret_i64_def Let_def split: if_splits hostreq.splits option.splits sum.splits
      dest: wallet_pay_clock http_request_clock)

text \<open>\<open>wasm_keeps\<close>: whatever the function does, the host's states before and after are related.\<close>

definition wasm_keeps :: "('h \<Rightarrow> 'h \<Rightarrow> bool) \<Rightarrow> ('a, 'm, 'h) wasm \<Rightarrow> bool" where
  "wasm_keeps R f \<longleftrightarrow> (\<forall>m h. R h (snd (snd (f m h))))"

lemma keeps_bind:
  assumes "transp R" "wasm_keeps R f" "\<And>x. wasm_keeps R (k x)"
  shows "wasm_keeps R (wasm_bind f k)"
  unfolding wasm_keeps_def
proof (intro allI)
  fix m h
  obtain r m1 h1 where f: "f m h = (r, m1, h1)" by (cases "f m h") auto
  with assms(2) have "R h h1" unfolding wasm_keeps_def by (metis snd_conv)
  moreover have "R h1 (snd (snd (k x m1 h1)))" for x using assms(3) unfolding wasm_keeps_def by blast
  ultimately show "R h (snd (snd (wasm_bind f k m h)))"
    using assms(1) f by (auto simp: wasm_bind_def split: wasm_ret.splits dest: transpD)
qed

lemma keeps_simple:
  assumes "reflp R"
  shows "wasm_keeps R (wasm_return x)" "wasm_keeps R (wasm_panic msg)" "wasm_keeps R (wasm_new A bs)" "wasm_keeps R (wasm_first p n)"
    "wasm_keeps R (wasm_load A p n)" "wasm_keeps R (wasm_slice lo hi bs)"
  using reflpD [OF assms] by (auto simp: wasm_keeps_def wasm_defs split: option.splits)

definition host_relates :: "('h \<Rightarrow> 'h \<Rightarrow> bool) \<Rightarrow> ('m, 'h) host \<Rightarrow> bool" where
  "host_relates R H \<longleftrightarrow> reflp R \<and> transp R \<and> (\<forall>rq m h rs m' h'. H rq m h = Some (rs, m', h') \<longrightarrow> R h h')"

lemma keeps_import: "host_relates R H \<Longrightarrow> wasm_keeps R (wasm_import H rq)"
  unfolding wasm_keeps_def wasm_import_def host_relates_def by (auto split: option.splits dest: reflpD)

lemma keeps_call:
  assumes "host_relates R H"
  shows "wasm_keeps R (wasm_call A H c)"
proof -
  have r: "reflp R" and t: "transp R" using assms by (simp_all add: host_relates_def)
  note rules = keeps_simple [OF r] keeps_import [OF assms] keeps_bind [OF t]
  have p: "wasm_keeps R (pay_result A p n rc)" "wasm_keeps R (http_result A p n rc)" for p n rc
    by (auto simp: pay_result_def http_result_def length_prefixed_def Let_def intro!: rules)
  have d: "wasm_keeps R (doHTTPRequest H a b cc d e)" for a b cc d e
    by (auto simp: doHTTPRequest_def Let_def intro!: rules)
  show ?thesis
    by (cases c)
      (auto simp: wasm_ClockNow_def wasm_RandBytes_def wasm_Log_def wasm_WalletBalance_def wasm_WalletReceiptCount_def wasm_WalletReceipt_def
        wasm_NodePrice_def wasm_HTTPRequest_def http_retry_def wasm_WalletPay_def Let_def intro!: rules p d)
qed

text \<open>The clock of the answers is the host's.\<close>

lemma call_clock:
  assumes "wasm_call A (live_host G W md) CallClockNow m h = (WDone a, m', h')"
  shows "an_num a = ev_clock (hc_env h) (ev_calls (hc_env h))"
proof -
  from assms obtain rs where "live_host G W md ReqClockNow m h = Some (rs, m', h')" "an_num a = as_i64 rs"
    by (auto simp: wasm_ClockNow_def wasm_defs num_answer_def split: prod.splits option.splits)
  with live_host_clock(2) [OF this(1) refl] show ?thesis by simp
qed

lemma rand_import:
  assumes "live_host G W md (ReqRandBytes p n) m h = Some (rs, m', h')" "as_i32 rs = 0"
  shows "n \<le> maxRandBytes"
proof (rule ccontr)
  assume "\<not> n \<le> maxRandBytes"
  then have "rs = ret_i32 (-2)" using assms(1) by (auto simp: live_host_def rand_bytes_def split: if_splits)
  with assms(2) show False by (simp add: as_i32_def ret_i32_def)
qed

lemma rand_answer_fits:
  assumes "heap_ok G A buf" "wasm_call A (live_host G W md) (CallRandBytes n) m h = (WDone a, m', h')"
  shows "length (an_bytes a) \<le> 67108864"
proof -
  have e: "gh_load A p 0 m = []" for p m using heap_okD(4) [OF assms(1), of p 0 m] by simp
  show ?thesis
proof (cases "an_err a = None \<and> n \<noteq> 0")
  case True
  from assms(2) True obtain p m1 rs m2 h2 where
    n: "gh_new A (replicate n 0) m = Some (p, m1)" and i: "live_host G W md (ReqRandBytes p (of_nat n)) m1 h = Some (rs, m2, h2)" "as_i32 rs = 0"
    by (auto simp: wasm_RandBytes_def wasm_defs bytes_answer_def Let_def split: prod.splits option.splits if_splits sum.splits)
  have "n < 2 ^ 32" using heap_okD(1) [OF assms(1) n] by simp
  then have "unat (of_nat n :: uint32) = n" by (simp add: unsigned_of_nat take_bit_nat_eq_self)
  moreover have "unat (of_nat n :: uint32) \<le> unat (maxRandBytes)" using rand_import [OF i] by (simp add: word_le_nat_alt)
  ultimately have "n \<le> 67108864" by simp
  moreover have "length (an_bytes a) \<le> n" using assms(2) heap_okD(4) [OF assms(1)]
    by (auto simp: e wasm_RandBytes_def wasm_defs bytes_answer_def Let_def split: prod.splits option.splits if_splits sum.splits)
  ultimately show ?thesis by simp
next
  case False
  then show ?thesis using assms(2)
    by (auto simp: e wasm_RandBytes_def wasm_defs bytes_answer_def Let_def split: prod.splits option.splits if_splits sum.splits)
qed
qed

lemma call_answer_ok:
  assumes "heap_ok G A buf" "\<And>n. ev_clock (hc_env h) n \<noteq> 0" "wasm_call A (live_host G W md) c m h = (WDone a, m', h')"
  shows "answer_ok c a"
proof -
  have "length (an_bytes a) < 2 ^ 30"
  proof (cases c)
    case (CallRandBytes n)
    with rand_answer_fits [OF assms(1)] assms(3) show ?thesis by fastforce
  next
    case (CallWalletPay amount recipient memo)
    have "wasm_gives (wasm_call A (live_host G W md) c) (\<lambda>a. length (an_bytes a) \<le> 65540)"
      unfolding CallWalletPay wasm_call.simps
      by (rule gives_bind [OF gives_WalletPay [OF assms(1)]], rule gives_return) (auto simp: fits_def bytes_answer_def split: sum.splits)
    from wasm_givesD [OF this assms(3)] show ?thesis by simp
  next
    case (CallWalletReceipt index)
    have "wasm_gives (wasm_call A (live_host G W md) c) (\<lambda>a. length (an_bytes a) \<le> 65540)"
      unfolding CallWalletReceipt wasm_call.simps
      by (rule gives_bind [OF gives_WalletReceipt [OF assms(1)]], rule gives_return) (auto simp: fits_def bytes_answer_def split: sum.splits)
    from wasm_givesD [OF this assms(3)] show ?thesis by simp
  next
    case (CallHTTPRequest verb url headers body)
    have "wasm_gives (wasm_call A (live_host G W md) c) (\<lambda>a. length (an_bytes a) \<le> 4194308)"
      unfolding CallHTTPRequest wasm_call.simps
      by (rule gives_bind [OF gives_any], rule gives_bind [OF gives_HTTPRequest [OF assms(1)]], rule gives_return)
        (auto simp: http_fits_def http_answer_def split: sum.splits)
    from wasm_givesD [OF this assms(3)] show ?thesis by simp
  qed (use assms(3) in \<open>auto simp: wasm_defs num_answer_def split: prod.splits wasm_ret.splits\<close>)
  moreover have "an_num a \<noteq> 0" if "c = CallClockNow" using call_clock assms(2,3) that by metis
  ultimately show ?thesis by (simp add: answer_ok_def)
qed

text \<open>What a run over the bindings is as a run of the tree: a return is a return with the same value, and a trap is
  either a panic of the agent or a call that did not come back.\<close>

definition same_outcome :: "'a wasm_ret \<Rightarrow> 'a outcome \<Rightarrow> bool" where
  "same_outcome r out = (case r of WDone x \<Rightarrow> out = Returned x | WTrap msg \<Rightarrow> out = Panicked msg \<or> out = Stopped)"

lemma same_clock_relates: "host_relates (\<lambda>h h'. ev_clock (hc_env h') = ev_clock (hc_env h)) (live_host G W md)"
  unfolding host_relates_def by (auto intro: reflpI transpI dest: live_host_clock(1))

lemma run_wasm_follow:
  assumes "heap_ok G A buf" "\<And>n. ev_clock (hc_env h) n \<noteq> 0" "run_wasm A (live_host G W md) t m h = (r, m', h')"
  shows "\<exists>as tr out. follow t as = (tr, out) \<and> trace_ok tr \<and> same_outcome r out"
  using assms(2,3)
proof (induction t arbitrary: m h)
  case (Ask c k)
  show ?case
  proof (cases "wasm_call A (live_host G W md) c m h")
    case (fields r1 m1 h1)
    show ?thesis
    proof (cases r1)
      case (WTrap msg)
      then have "r = WTrap msg" using Ask.prems(2) fields by (simp add: wasm_bind_def)
      then show ?thesis by (intro exI [of _ "[]"]) (simp add: same_outcome_def)
    next
      case (WDone a)
      have "ev_clock (hc_env h1) = ev_clock (hc_env h)"
        using keeps_call [OF same_clock_relates, of A G W md c] fields unfolding wasm_keeps_def by (metis snd_conv)
      then have c: "ev_clock (hc_env h1) n \<noteq> 0" for n using Ask.prems(1) by simp
      have "run_wasm A (live_host G W md) (k a) m1 h1 = (r, m', h')" using Ask.prems(2) fields WDone by (simp add: wasm_bind_def)
      from Ask.IH [OF rangeI c this] obtain as tr out where
        f: "follow (k a) as = (tr, out)" "trace_ok tr" "same_outcome r out" by blast
      have "answer_ok c a" using call_answer_ok [OF assms(1) Ask.prems(1)] fields WDone by blast
      with f show ?thesis by (intro exI [of _ "a # as"]) auto
    qed
  qed
qed (auto simp: wasm_return_def wasm_panic_def same_outcome_def)

section \<open>A payment, end to end\<close>

text \<open>The instance after a payment: the budget is reduced by the amount, which it covered, and the log has the receipt, which
  names amount, recipient and memo and is signed with the agent's key.\<close>

definition pay_done :: "crypto \<Rightarrow> int64 \<Rightarrow> bytes \<Rightarrow> bytes \<Rightarrow> 'm Instance hc_state \<Rightarrow> 'm Instance hc_state \<Rightarrow> bytes \<Rightarrow> bool" where
  "pay_done C amount recipient memo h h' receipt \<longleftrightarrow>
     0 < sint amount \<and> sint amount \<le> sint (in_Budget (hc_wallet h)) \<and> in_Budget (hc_wallet h') = in_Budget (hc_wallet h) - amount \<and>
     (\<exists>ts d. d = payment_data amount ts recipient memo (GetAgentPubKey (hc_wallet h)) \<and> receipt = d @ SignPayment C d (hc_wallet h')) \<and>
     hc_log h' = Record WalletPay (put_u64 amount @ receipt) (hc_log h)"

lemma as_i32_ret [simp]: "as_i32 (ret_i32 v) = v"
  unfolding as_i32_def ret_i32_def by (rule bit_eqI) (auto simp: bit_simps)

text \<open>A host call that asks for a payment into a live buffer.\<close>

lemma pay_import:
  fixes h :: "'m Instance hc_state"
  assumes heap: "heap_ok G A buf" and exact: "reads_exact G" and keys: "wf_keys C (hc_wallet h)"
    and call: "wallet_pay G (instance_wallet C) cfg amount (r, len_u32 rb) memoS (b, of_nat n) m h = (rs, m', h')"
    and r: "buf m r = Some rb" and memo: "read_memo G memoS m = Some mb"
    and b: "buf m b = Some bs" "length bs = n" "n < 2 ^ 31"
  shows "(h' = h \<and> sint (as_i32 rs) < 0) \<or>
    (\<exists>receipt. pay_done C amount rb mb h h' receipt \<and> 0 \<le> sint (as_i32 rs) \<and> length receipt < 1024 \<and>
       length receipt + 4 \<le> n \<and> buf m' b = Some (put_u32 (len_u32 receipt) @ receipt @ drop (4 + length receipt) bs))"
proof (cases "\<exists>recipient memo. pay_checks G (instance_wallet C) cfg amount (r, len_u32 rb) memoS (b, of_nat n) m h recipient memo")
  case False
  then show ?thesis
    using wallet_pay_unchecked [of G "instance_wallet C" cfg amount "(r, len_u32 rb)" memoS "(b, of_nat n)" m h] call by auto
next
  case True
  then have c: "pay_checks G (instance_wallet C) cfg amount (r, len_u32 rb) memoS (b, of_nat n) m h rb mb"
    using memo heap_okD(6) [OF heap r] by (auto simp: pay_checks_def)
  let ?W = "instance_wallet C :: 'm Instance wallet_ops" and ?pub = "GetAgentPubKey (hc_wallet h)"
  from c have amt: "0 < sint amount" "sint amount \<le> sint (in_Budget (hc_wallet h))" by (simp_all add: pay_checks_def)
  from pay.deduct_covered [of amount C "hc_wallet h"] amt obtain w where
    d: "w_DeductBudget ?W amount (hc_wallet h) = (Inr (), w)" "in_Budget w = in_Budget (hc_wallet h) - amount" "wf_keys C w"
    using keys by auto
  define ts where "ts = ev_clock (hc_env h) (ev_calls (hc_env h))"
  define dat where "dat = payment_data amount ts rb mb ?pub"
  define full where "full = dat @ SignPayment C dat w"
  have s: "unat (pay_needed rb mb ?pub) = 4 + length full" "length full < 1024"
    using pay.pay_sizes [OF c exact keys d(3), of dat ts full] by (simp_all add: dat_def full_def)
  have le: "4 + length full \<le> n"
  proof -
    have "unat (pay_needed rb mb ?pub) \<le> unat (of_nat n :: uint32)" using c by (simp add: pay_checks_def word_le_nat_alt)
    with s(1) b(3) show ?thesis by (simp add: unsigned_of_nat take_bit_nat_eq_self)
  qed
  define out where "out = put_u32 (len_u32 full) @ full"
  have out: "to_array (unat (pay_needed rb mb ?pub)) (put_u32 (len_u32 full) @ full) = out" "length out = 4 + length full"
    using s(1) by (simp_all add: out_def)
  from heap_okD(7) [OF heap b(1), of out] le b(2) out(2) obtain mw where
    w: "g_write G b out m = Some mw" "buf mw = (buf m)(b \<mapsto> out @ drop (length out) bs)" by auto
  have "(rs, m', h') = pay_settle G ?W amount rb mb ?pub (pay_needed rb mb ?pub) b m h"
    using call wallet_pay_checked [OF c] by (simp add: Let_def)
  also have "\<dots> = (ret_i32 (pay_needed rb mb ?pub), mw,
      record_obs WalletPay (put_u64 amount @ full) (snd (next_env (h\<lparr>hc_wallet := w\<rparr>))))"
    unfolding pay_settle_def d(1) using w(1) out
    by (simp add: Let_def next_env_def full_def dat_def ts_def)
  finally have e: "rs = ret_i32 (pay_needed rb mb ?pub)" "m' = mw" "hc_wallet h' = w"
    "hc_log h' = Record WalletPay (put_u64 amount @ full) (hc_log h)" by simp_all
  have "sint (pay_needed rb mb ?pub) = int (4 + length full)"
  proof -
    have "pay_needed rb mb ?pub = of_nat (4 + length full)" using s(1) by (metis of_nat_unat ucast_id)
    with s(2) show ?thesis by (simp add: signed_of_nat signed_take_bit_int_eq_self_iff del: of_nat_add)
  qed
  then have "0 \<le> sint (as_i32 rs)" by (simp add: e(1))
  moreover have "pay_done C amount rb mb h h' full"
    unfolding pay_done_def using amt d(2) e(3,4) by (auto simp: full_def dat_def)
  ultimately show ?thesis using s(2) le w(2) e(2) out by (auto simp: out_def)
qed

text \<open>The first buffer is always large enough, so the retry of \<open>WalletPay\<close> is never taken.\<close>

lemma pay_no_retry:
  fixes h :: "'m Instance hc_state"
  assumes "reads_exact G" "wf_keys C (hc_wallet h)"
    and "wallet_pay G (instance_wallet C) cfg amount recip memoS (b, 1024) m h = (rs, m', h')"
  shows "as_i32 rs \<noteq> -5"
proof (cases "\<exists>recipient memo. snd recip \<le> 256 \<and> snd memoS \<le> 512 \<and> g_read G (fst recip) (snd recip) m = Some recipient \<and> read_memo G memoS m = Some memo")
  case False
  then show ?thesis using assms(3) by (auto simp: wallet_pay_def not_less not_le split: option.splits if_splits)
next
  case True
  then obtain recipient memo where rd: "snd recip \<le> 256" "snd memoS \<le> 512" "g_read G (fst recip) (snd recip) m = Some recipient" "read_memo G memoS m = Some memo"
    by blast
  let ?pub = "GetAgentPubKey (hc_wallet h)"
  have "length recipient \<le> 256" "length memo \<le> 512"
    using rd assms(1) by (auto simp: reads_exact_def read_memo_def word_le_nat_alt split: if_splits)
  then have f: "full_receipt_len recipient memo ?pub \<le> 888"
    using pay.pubkey_size [OF assms(2)] by (simp add: full_receipt_len_def)
  then have n: "unat (pay_needed recipient memo ?pub) \<le> 892"
    by (simp add: pay_needed_def unsigned_of_nat take_bit_nat_eq_self del: of_nat_add)
  then have "\<not> pay_needed recipient memo ?pub > 1024" "pay_needed recipient memo ?pub \<noteq> -5"
    by (auto simp: word_less_nat_alt)
  then show ?thesis
    using assms(3) rd by (auto simp: wallet_pay_def Let_def not_less elim!: pay_settle_cases split: if_splits)
qed

lemma prefixed_ok:
  assumes "bs = put_u32 (len_u32 data) @ data @ rest" "length bs < 2 ^ 31"
  shows "length_prefixed err bs m h = (WDone (Inr data), m, h)"
proof -
  have l: "length data + 4 < 2 ^ 31" "4 + length data \<le> length bs" using assms by simp_all
  have g: "get_u32 (take 4 bs) = len_u32 data" by (simp add: assms(1))
  have u: "unat (4 + len_u32 data) = 4 + length data" using l(1)
    by (simp add: len_u32_def unat_arith_simps unsigned_of_nat take_bit_nat_eq_self)
  have "add_i32 (sint (len_u32 data)) 4 = int (length data) + 4"
    using l(1) by (simp add: sint_len_u32 add_i32_small)
  moreover have "go_slice 4 (4 + length data) bs = data" by (simp add: assms(1) go_slice_def)
  ultimately show ?thesis using l(2) by (simp add: length_prefixed_def wasm_defs g u Let_def)
qed

lemma pay_result_ok:
  assumes "heap_ok G A buf" "buf m b = Some bs" "bs = put_u32 (len_u32 receipt) @ receipt @ rest" "length bs = n" "0 \<le> sint rc" "n < 2 ^ 31"
  shows "pay_result A b n rc m h = (WDone (Inr receipt), m, h)"
proof -
  have "gh_load A b n m = bs" using heap_okD(5) [OF assms(1,2)] assms(4) by simp
  moreover have "\<not> n < 4" using assms(3,4) by simp
  ultimately show ?thesis
    using prefixed_ok [OF assms(3)] assms(4-6) by (simp add: pay_result_def wasm_bind_def wasm_load_def)
qed

lemma bytes_of_string_Nil [simp]: "bytes_of_string s = [] \<longleftrightarrow> s = []"
  by (metis length_0_conv length_bytes_of_string)

text \<open>A buffer allocated for a string, when its address is used.\<close>

lemma wasm_new_buf:
  assumes "heap_ok G A buf" "wasm_new A bs m h = (WDone p, m', h')"
  shows "h' = h" "bs \<noteq> [] \<Longrightarrow> buf m' p = Some bs" "buf m q = Some ys \<Longrightarrow> buf m' q = Some ys"
  using assms(2) heap_okD(2,3) [OF assms(1)]
  by (auto simp: wasm_new_def split: if_splits option.splits)

lemma pay_call:
  fixes h :: "'m Instance hc_state"
  assumes heap: "heap_ok G A buf" and exact: "reads_exact G" and keys: "wf_keys C (hc_wallet h)" and ne: "rb \<noteq> []"
    and n: "wasm_new A rb m h = (WDone p, m1, h1)" "wasm_new A mb m1 h1 = (WDone q, m2, h2)" "wasm_new A (replicate 1024 0) m2 h2 = (WDone b, m3, h3)"
    and call: "live_host G (instance_wallet C) md (ReqWalletPay amount (p, len_u32 rb) (if length mb > 0 then (q, len_u32 mb) else (0, 0)) (b, 1024)) m3 h3 =
      Some (rs, m4, h4)"
  shows "as_i32 rs \<noteq> -5 \<and> ((h4 = h \<and> sint (as_i32 rs) < 0) \<or>
    (\<exists>receipt. pay_done C amount rb mb h h4 receipt \<and> pay_result A b 1024 (as_i32 rs) m4 h4 = (WDone (Inr receipt), m4, h4)))"
proof -
  let ?memoS = "if length mb > 0 then (q, len_u32 mb) else (0, 0)"
  have e: "h1 = h" "h2 = h" "h3 = h" using wasm_new_buf(1) [OF heap] n by metis+
  have r: "buf m3 p = Some rb" using wasm_new_buf(2,3) [OF heap] n ne by metis
  have memo: "read_memo G ?memoS m3 = Some mb"
  proof (cases "mb = []")
    case False
    then have "buf m3 q = Some mb" using wasm_new_buf(2,3) [OF heap] n by metis
    from heap_okD(1) [OF heap] False n(2) have "length mb < 2 ^ 32" by (fastforce simp: wasm_new_def split: option.splits)
    with False have "0 < len_u32 mb" by (simp add: len_u32_def word_less_nat_alt unsigned_of_nat take_bit_nat_eq_self)
    with heap_okD(6) [OF heap \<open>buf m3 q = Some mb\<close>] False show ?thesis by (simp add: read_memo_def)
  qed (simp add: read_memo_def)
  have b: "buf m3 b = Some (replicate 1024 0)" using wasm_new_buf(2) [OF heap n(3)] by simp
  from call e obtain cfg where c: "wallet_pay G (instance_wallet C) cfg amount (p, len_u32 rb) ?memoS (b, 1024) m3 h = (rs, m4, h4)"
    unfolding live_host_def by (auto split: if_split_asm)
  then have "wallet_pay G (instance_wallet C) cfg amount (p, len_u32 rb) ?memoS (b, of_nat 1024) m3 h = (rs, m4, h4)" by simp
  from pay_import [OF heap exact keys this r memo b] have
    "(h4 = h \<and> sint (as_i32 rs) < 0) \<or> (\<exists>receipt. pay_done C amount rb mb h h4 receipt \<and> 0 \<le> sint (as_i32 rs) \<and> length receipt < 1024 \<and>
       length receipt + 4 \<le> 1024 \<and> buf m4 b = Some (put_u32 (len_u32 receipt) @ receipt @ drop (4 + length receipt) (replicate 1024 0)))"
    by simp
  moreover have "as_i32 rs \<noteq> -5" by (rule pay_no_retry [OF exact keys c])
  ultimately show ?thesis using pay_result_ok [OF heap _ refl, of m4 b _ _ 1024 "as_i32 rs" h4] by (auto simp: algebra_simps)
qed

text \<open>
  C21 A payment of the SDK is all or nothing.  An agent whose manifest allows payments calls \<open>WalletPay\<close>, whose module sits in any memory
  that behaves like Go's heap, against the live \<open>wallet_pay\<close> of the instance.  Either the call panics or returns an error, and
  budget and log are untouched; or it returns a receipt, the budget has been reduced by exactly the amount, which it covered,
  the receipt names the amount, the recipient and the memo the agent passed and is signed with the agent's key, and this receipt is
  the one in the log.
\<close>

theorem WalletPay_all_or_nothing:
  fixes h :: "'m Instance hc_state"
  assumes "heap_ok G A buf" "reads_exact G" "wf_keys C (hc_wallet h)"
    and "wasm_WalletPay A (live_host G (instance_wallet C) md) amount recipient memo m h = (r, m', h')"
  shows "(h' = h \<and> (\<forall>receipt. r \<noteq> WDone (Inr receipt))) \<or>
    (\<exists>receipt. r = WDone (Inr receipt) \<and> pay_done C amount (bytes_of_string recipient) (bytes_of_string memo) h h' receipt)"
proof (cases "bytes_of_string recipient = []")
  case True
  then show ?thesis using assms(4)
    by (auto simp: wasm_WalletPay_def wasm_defs Let_def split: if_splits option.splits prod.splits)
next
  case False
  let ?rb = "bytes_of_string recipient" and ?mb = "bytes_of_string memo" and ?H = "live_host G (instance_wallet C) md"
  obtain r1 m1 h1 where n1: "wasm_new A ?rb m h = (r1, m1, h1)" by (cases "wasm_new A ?rb m h") auto
  obtain r2 m2 h2 where n2: "wasm_new A ?mb m1 h1 = (r2, m2, h2)" by (cases "wasm_new A ?mb m1 h1") auto
  obtain r3 m3 h3 where n3: "wasm_new A (replicate 1024 0) m2 h2 = (r3, m3, h3)" by (cases "wasm_new A (replicate 1024 0) m2 h2") auto
  have e: "h1 = h" "h2 = h" "h3 = h" using n1 n2 n3 by (auto simp: wasm_new_def split: if_splits option.splits)
  show ?thesis
  proof (cases "\<exists>p q b. r1 = WDone p \<and> r2 = WDone q \<and> r3 = WDone b")
    case False
    then show ?thesis using assms(4) n1 n2 n3 e
      by (cases r1; cases r2; cases r3) (auto simp: wasm_WalletPay_def wasm_bind_def Let_def)
  next
    case True
    then obtain p q b where d: "r1 = WDone p" "r2 = WDone q" "r3 = WDone b" by blast
    define rq where "rq = ReqWalletPay amount (p, len_u32 ?rb) (if length ?mb > 0 then (q, len_u32 ?mb) else (0, 0)) (b, 1024)"
    show ?thesis
    proof (cases "?H rq m3 h3")
      case None
      then show ?thesis using assms(4) n1 n2 n3 d e False
        by (auto simp: wasm_WalletPay_def wasm_bind_def wasm_first_def wasm_import_def Let_def rq_def)
    next
      case (Some x)
      then obtain rs m4 h4 where x: "?H rq m3 h3 = Some (rs, m4, h4)" by (cases x) auto
      note c = pay_call [OF assms(1-3) False n1 [unfolded d] n2 [unfolded d] n3 [unfolded d] x [unfolded rq_def]]
      have "wasm_WalletPay A ?H amount recipient memo m h = pay_result A b 1024 (as_i32 rs) m4 h4"
        using n1 n2 n3 d False x c
        by (simp add: wasm_WalletPay_def wasm_bind_def wasm_first_def wasm_import_def Let_def rq_def)
      then show ?thesis using c assms(4) by (auto simp: pay_result_def wasm_return_def)
    qed
  qed
qed

section \<open>A request, end to end\<close>

text \<open>Headers that survive the line format: neither side begins or ends with a space or holds a line break, and the key is
  not empty and has no colon.\<close>

definition trimmed :: "string \<Rightarrow> bool" where
  "trimmed s \<longleftrightarrow> s = [] \<or> (\<not> is_space (hd s) \<and> \<not> is_space (last s))"

definition header_ok :: "string \<times> string \<Rightarrow> bool" where
  "header_ok kv \<longleftrightarrow> fst kv \<noteq> [] \<and> trimmed (fst kv) \<and> trimmed (snd kv) \<and> CHR '':'' \<notin> set (fst kv) \<and>
     CHR 0x0A \<notin> set (fst kv) \<and> CHR 0x0A \<notin> set (snd kv)"

lemma dropWhile_hd: "s \<noteq> [] \<Longrightarrow> \<not> P (hd s) \<Longrightarrow> dropWhile P s = s"
  by (cases s) simp_all

lemma trim_trimmed: "trimmed s \<Longrightarrow> trim_space s = s"
  by (cases "s = []") (auto simp: trimmed_def trim_space_def dropWhile_hd hd_rev)

lemma trim_leading: "is_space c \<Longrightarrow> trim_space (c # s) = trim_space s"
  by (simp add: trim_space_def)

lemma trim_line:
  assumes "header_ok (k, v)"
  shows "trim_space (k @ '': '' @ v) = (if v = [] then k @ '':'' else k @ '': '' @ v)"
proof (cases "v = []")
  case True
  have "is_space CHR '' ''" "\<not> is_space CHR '':''" by (simp_all add: is_space_def)
  with True assms show ?thesis by (cases k) (auto simp: trim_space_def header_ok_def trimmed_def)
next
  case False
  then have "trimmed (k @ '': '' @ v)" using assms by (auto simp: trimmed_def header_ok_def)
  with False show ?thesis by (simp add: trim_trimmed)
qed

lemma split_header: "CHR '':'' \<notin> set k \<Longrightarrow> split_n2 CHR '':'' (k @ CHR '':'' # s) = Some (k, s)"
proof -
  assume "CHR '':'' \<notin> set k"
  then have "takeWhile (\<lambda>c. c \<noteq> CHR '':'') (k @ CHR '':'' # s) = k" "dropWhile (\<lambda>c. c \<noteq> CHR '':'') (k @ CHR '':'' # s) = CHR '':'' # s"
    by (induction k) auto
  then show ?thesis by (simp add: split_n2_def)
qed

definition header_line :: "string \<times> string \<Rightarrow> string" where
  "header_line kv = fst kv @ '': '' @ snd kv"

lemma parse_header_line:
  assumes "header_ok (k, v)"
  shows "parse_header_lines (header_line (k, v) # ls) headers = parse_header_lines ls (AList.update k v headers)"
proof -
  have k: "trim_space k = k" "trim_space v = v" "CHR '':'' \<notin> set k" using assms by (auto simp: header_ok_def trim_trimmed)
  define line where "line = trim_space (header_line (k, v))"
  have "is_space CHR '' ''" by (simp add: is_space_def)
  then have "\<exists>s. line = k @ CHR '':'' # s \<and> trim_space s = v"
    unfolding line_def header_line_def fst_conv snd_conv trim_line [OF assms] using k(2)
    by (cases "v = []") (simp_all add: trim_leading)
  then obtain s where "line = k @ CHR '':'' # s" "trim_space s = v" by blast
  then have "line \<noteq> []" "split_n2 CHR '':'' line = Some (k, s)" using split_header [OF k(3)] by simp_all
  then show ?thesis using k(1) \<open>trim_space s = v\<close> by (simp add: line_def [symmetric] Let_def)
qed

lemma header_lines:
  assumes "list_all header_ok hs"
  shows "split_on CHR 0x0A (concat (map (\<lambda>kv. header_line kv @ [CHR 0x0A]) hs)) = map header_line hs @ [[]]"
  using assms
proof (induction hs)
  case (Cons x hs)
  have "CHR 0x0A \<notin> set (header_line x)" using Cons.prems by (simp add: header_line_def header_ok_def)
  then have "split_on CHR 0x0A (header_line x) = [header_line x]" by (rule split_on_plain)
  with Cons show ?case by (simp add: split_on_append)
qed simp

lemma parse_header_lines_all:
  assumes "list_all header_ok hs" "distinct (map fst (hs0 @ hs))"
  shows "parse_header_lines (map header_line hs @ [[]]) hs0 = hs0 @ hs"
  using assms
proof (induction hs arbitrary: hs0)
  case (Cons x hs)
  obtain k v where x: "x = (k, v)" by (cases x)
  have "k \<notin> fst ` set hs0" using Cons.prems(2) by (auto simp: x)
  then have "AList.update k v hs0 = hs0 @ [(k, v)]" by (induction hs0) (auto split: if_splits)
  then have "parse_header_lines (map header_line (x # hs) @ [[]]) hs0 = parse_header_lines (map header_line hs @ [[]]) (hs0 @ [(k, v)])"
    using parse_header_line [of k v] Cons.prems(1) by (simp add: x del: parse_header_lines.simps)
  with Cons.IH [of "hs0 @ [(k, v)]"] Cons.prems show ?case by (simp add: x)
qed (simp add: trim_space_def)

lemma string_of_bytes_append: "string_of_bytes (a @ b) = string_of_bytes a @ string_of_bytes b"
  by (simp add: string_of_bytes_def)

lemma parse_encoded_headers:
  assumes "list_all header_ok hs" "distinct (map fst hs)"
  shows "parseHeaders (string_of_bytes (encode_headers hs)) = hs"
proof -
  have "string_of_bytes (encode_headers hs) = concat (map (\<lambda>kv. header_line kv @ [CHR 0x0A]) hs)"
  proof (induction hs)
    case (Cons x hs)
    have "char_of (unat (10 :: byte)) = CHR 0x0A" by code_simp
    then have "string_of_bytes (10 # bs) = CHR 0x0A # string_of_bytes bs" for bs by (simp only: string_of_bytes_def list.map)
    with Cons show ?case by (cases x) (simp add: encode_headers_def string_of_bytes_append header_line_def)
  qed (simp add: encode_headers_def string_of_bytes_def)
  then show ?thesis
    using parse_header_lines_all [of hs "[]"] assms by (simp add: parseHeaders_def header_lines)
qed

text \<open>The buffers of a request and what the host makes of them.\<close>

definition request_params :: "string \<Rightarrow> string \<Rightarrow> (string \<times> string) list \<Rightarrow> bytes \<Rightarrow> httpParams" where
  "request_params verb url headers body =
     \<lparr>hp_method = verb, hp_url = url, hp_headers = headers, hp_body = (if body = [] then None else Some body)\<rparr>"

definition request_ok :: "string \<Rightarrow> string \<Rightarrow> (string \<times> string) list \<Rightarrow> bytes \<Rightarrow> bool" where
  "request_ok verb url headers body \<longleftrightarrow> verb \<noteq> [] \<and> length verb \<le> 16 \<and> url \<noteq> [] \<and> length url \<le> 8192 \<and>
     list_all header_ok headers \<and> distinct (map fst headers) \<and> length (encode_headers headers) \<le> 32768 \<and> length body \<le> 1048576"

definition in_memory :: "('m \<Rightarrow> uint32 \<Rightarrow> bytes option) \<Rightarrow> 'm \<Rightarrow> uint32 \<times> nat \<Rightarrow> bytes \<Rightarrow> bool" where
  "in_memory buf m s bs \<longleftrightarrow> snd s = length bs \<and> (bs \<noteq> [] \<longrightarrow> buf m (fst s) = Some bs)"

definition optional_span :: "uint32 \<times> nat \<Rightarrow> span" where
  "optional_span s = (if snd s > 0 then (fst s, of_nat (snd s)) else (0, 0))"

lemma len_small: "length bs < 2 ^ 32 \<Longrightarrow> unat (len_u32 bs) = length bs"
  by (simp add: len_u32_def unsigned_of_nat take_bit_nat_eq_self)

lemma host_reads:
  assumes "heap_ok G A buf" "in_memory buf m s bs" "bs \<noteq> []"
  shows "g_read G (fst s) (of_nat (snd s)) m = Some bs"
  using heap_okD(6) [OF assms(1), of m "fst s" bs] assms(2,3) by (simp add: in_memory_def len_u32_def)

lemma request_read:
  assumes heap: "heap_ok G A buf" and ok: "request_ok verb url headers body"
    and v: "in_memory buf m v (bytes_of_string verb)" and u: "in_memory buf m u (bytes_of_string url)"
    and y: "in_memory buf m y (encode_headers headers)" and b: "in_memory buf m b body"
  shows "readHTTPParams G m (fst v, of_nat (snd v)) (fst u, of_nat (snd u)) (optional_span y) (optional_span b) =
    Inr (request_params verb url headers body)"
proof -
  have sizes: "unat (of_nat (snd v) :: uint32) = length verb" "unat (of_nat (snd u) :: uint32) = length url"
    "unat (of_nat (snd y) :: uint32) = length (encode_headers headers)" "unat (of_nat (snd b) :: uint32) = length body"
    using ok v u y b by (auto simp: request_ok_def in_memory_def unsigned_of_nat take_bit_nat_eq_self)
  have small: "\<not> of_nat (snd v) > (16 :: uint32)" "\<not> of_nat (snd u) > (8192 :: uint32)" "\<not> of_nat (snd y) > (32768 :: uint32)"
    "\<not> of_nat (snd b) > (1048576 :: uint32)"
    using ok sizes by (auto simp: request_ok_def word_less_nat_alt)
  have pos: "(of_nat (snd y) :: uint32) > 0 \<longleftrightarrow> encode_headers headers \<noteq> []" "(of_nat (snd b) :: uint32) > 0 \<longleftrightarrow> body \<noteq> []"
    by (simp_all add: word_less_nat_alt sizes)
  have len: "snd y = length (encode_headers headers)" "snd b = length body" using y b by (simp_all add: in_memory_def)
  have none: "headers = []" if "encode_headers headers = []" using that by (cases headers) (auto simp: encode_headers_def)
  have hs: "parseHeaders (string_of_bytes (encode_headers headers)) = headers"
    using ok by (simp add: request_ok_def parse_encoded_headers)
  have rv: "g_read G (fst v) (of_nat (snd v)) m = Some (bytes_of_string verb)" "g_read G (fst u) (of_nat (snd u)) m = Some (bytes_of_string url)"
    using host_reads [OF heap v] host_reads [OF heap u] ok by (simp_all add: request_ok_def)
  note rh = host_reads [OF heap y] host_reads [OF heap b]
  show ?thesis
    unfolding readHTTPParams_def optional_span_def using small pos len none rh rv hs
    by (cases "encode_headers headers = []"; cases "body = []") (auto simp: request_params_def)
qed

text \<open>One call of the host function for a request whose host is allowed and whose response stays below the configured maximum.\<close>

definition answered :: "http_cfg \<Rightarrow> httpParams \<Rightarrow> 'w hc_state \<Rightarrow> int64 \<Rightarrow> bytes \<Rightarrow> bool" where
  "answered cfg params h status body \<longleftrightarrow>
     checkAllowedHost (ev_hostname (hc_env h)) (hp_url params) (ht_allowedHosts cfg) = Inr () \<and>
     ev_http (hc_env h) (ev_calls (hc_env h)) params (ht_timeoutMs cfg) = Response status body False \<and>
     int (length body) \<le> sint (ht_maxRespBytes cfg) \<and> sint (ht_maxRespBytes cfg) < 2 ^ 30"

lemma http_call:
  assumes heap: "heap_ok G A buf" and rd: "readHTTPParams G m vs us hs bs = Inr params" and a: "answered cfg params h status body"
    and p: "buf m p = Some out" "length out = n" "4 \<le> n" "n < 2 ^ 31"
  shows "length body + 4 \<le> n \<Longrightarrow> \<exists>m'. http_request G cfg vs us hs bs (p, of_nat n) m h =
      (ret_i32 (ucast status), m', record_obs HTTPRequest (put_u32 (ucast status) @ body) (snd (next_env h))) \<and>
      buf m' = (buf m)(p \<mapsto> put_u32 (len_u32 body) @ body @ drop (4 + length body) out)"
    and "n < length body + 4 \<Longrightarrow> \<exists>m'. http_request G cfg vs us hs bs (p, of_nat n) m h = (ret_i32 (-5), m', snd (next_env h)) \<and>
      buf m' = (buf m)(p \<mapsto> put_u32 (len_u32 body) @ drop 4 out)"
proof -
  let ?x = "ht_maxRespBytes cfg"
  have b: "int (length body) \<le> sint ?x" "sint ?x < 2 ^ 30" using a by (simp_all add: answered_def)
  have lim: "sint (?x + 1) = sint ?x + 1" using b by (subst sint64_add) simp_all
  then have tk: "length body \<le> nat (sint (?x + 1))" "int (length body) < sint (?x + 1)" using b(1) by simp_all
  define h1 where "h1 = snd (next_env h)"
  have h1: "next_env h = (ev_calls (hc_env h), h1)" "ev_http (hc_env h1) = ev_http (hc_env h)" by (simp_all add: h1_def next_env_def)
  have l: "length body < 2 ^ 30" using b by simp
  then have need: "unat (of_nat (4 + length body) :: uint32) = 4 + length body" "unat (of_nat n :: uint32) = n"
    using p(4) by (simp_all add: unsigned_of_nat take_bit_nat_eq_self del: of_nat_add)
  have go: "http_request G cfg vs us hs bs (p, of_nat n) m h =
      (if of_nat (4 + length body) > (of_nat n :: uint32)
       then (ret_i32 (-5), writeSizeHint G p (of_nat n) (length body) m, snd (next_env h))
       else case g_write G p (put_u32 (len_u32 body) @ body) m of
           None \<Rightarrow> (ret_i32 httpErrNetwork, m, snd (next_env h))
         | Some m \<Rightarrow> (ret_i32 (ucast status), m, record_obs HTTPRequest (put_u32 (ucast status) @ body) (snd (next_env h))))"
    using a b(1) tk h1(2) unfolding http_request_def rd answered_def h1(1)
    by (auto simp: Let_def not_less simp del: of_nat_add split: option.split)
  show "\<exists>m'. http_request G cfg vs us hs bs (p, of_nat n) m h =
      (ret_i32 (ucast status), m', record_obs HTTPRequest (put_u32 (ucast status) @ body) (snd (next_env h))) \<and>
      buf m' = (buf m)(p \<mapsto> put_u32 (len_u32 body) @ body @ drop (4 + length body) out)" if "length body + 4 \<le> n"
  proof -
    have "\<not> of_nat (4 + length body) > (of_nat n :: uint32)" using that need by (simp add: word_less_nat_alt del: of_nat_add)
    with heap_okD(7) [OF heap p(1), of "put_u32 (len_u32 body) @ body"] that p(2) show ?thesis by (auto simp: go simp del: of_nat_add)
  qed
  show "\<exists>m'. http_request G cfg vs us hs bs (p, of_nat n) m h = (ret_i32 (-5), m', snd (next_env h)) \<and>
      buf m' = (buf m)(p \<mapsto> put_u32 (len_u32 body) @ drop 4 out)" if "n < length body + 4"
  proof -
    have "of_nat (4 + length body) > (of_nat n :: uint32)" using that need by (simp add: word_less_nat_alt del: of_nat_add)
    moreover have "of_nat n \<ge> (4 :: uint32)" using p(3) need(2) by (simp add: word_le_nat_alt)
    ultimately show ?thesis using heap_okD(7) [OF heap p(1), of "put_u32 (len_u32 body)"] p(2,3)
      by (auto simp: go writeSizeHint_def len_u32_def simp del: of_nat_add)
  qed
qed

lemma http_result_ok:
  assumes "heap_ok G A buf" "buf m b = Some bs" "bs = put_u32 (len_u32 body) @ body @ rest" "length bs = n" "0 \<le> sint rc" "n < 2 ^ 31"
  shows "http_result A b n rc m h = (WDone (Inr (sint rc, body)), m, h)"
proof -
  have "gh_load A b n m = bs" using heap_okD(5) [OF assms(1,2)] assms(4) by simp
  moreover have "\<not> n < 4" using assms(3,4) by simp
  ultimately show ?thesis
    using assms(4-6) by (simp add: http_result_def wasm_bind_def wasm_load_def wasm_return_def prefixed_ok [OF assms(3)])
qed

lemma in_memory_new:
  assumes "heap_ok G A buf" "wasm_new A bs m h = (WDone p, m', h')"
  shows "in_memory buf m' (p, length bs) bs" "in_memory buf m s ys \<Longrightarrow> in_memory buf m' s ys"
  using wasm_new_buf [OF assms] by (auto simp: in_memory_def)

lemma in_memory_upd:
  assumes "buf m b = None" "buf m' = (buf m)(b \<mapsto> x)" "in_memory buf m s ys"
  shows "in_memory buf m' s ys"
  using assms by (auto simp: in_memory_def)

lemma doHTTPRequest_run:
  assumes "hm_http md = Some cfg" "snd v \<noteq> 0" "snd u \<noteq> 0" "n \<noteq> 0"
    and "http_request G cfg (fst v, of_nat (snd v)) (fst u, of_nat (snd u)) (optional_span y) (optional_span s) (b, of_nat n) m h = (rs, m', h')"
  shows "doHTTPRequest (live_host G W (Some md)) v u y s (b, n) m h = (WDone (as_i32 rs), m', h')"
  using assms by (simp add: doHTTPRequest_def wasm_defs live_host_def optional_span_def Let_def)

text \<open>The buffers of a request are in place before anything is sent.\<close>

lemma request_start:
  fixes H :: "('m, 'h) host"
  assumes "heap_ok G A buf" "in_memory buf m s body" "wasm_HTTPRequest A H verb url headers s m h = (r, m', h')"
  obtains (no_memory) msg where "r = WTrap msg" "h' = h"
    | (sent) v u y b m3 m4 where "in_memory buf m3 (v, length verb) (bytes_of_string verb)" "in_memory buf m3 (u, length url) (bytes_of_string url)"
        "in_memory buf m3 (y, length (encode_headers headers)) (encode_headers headers)" "in_memory buf m3 s body"
        "buf m3 b = None" "buf m4 = (buf m3)(b \<mapsto> replicate 8192 0)"
        "wasm_bind (doHTTPRequest H (v, length verb) (u, length url) (y, length (encode_headers headers)) s (b, 8192))
          (http_retry A (\<lambda>b n. doHTTPRequest H (v, length verb) (u, length url) (y, length (encode_headers headers)) s (b, n)) b) m4 h = (r, m', h')"
proof -
  let ?vb = "bytes_of_string verb" and ?ub = "bytes_of_string url" and ?yb = "encode_headers headers" and ?bb = "replicate 8192 0 :: bytes"
  obtain r1 m1 h1 where n1: "wasm_new A ?vb m h = (r1, m1, h1)" by (cases "wasm_new A ?vb m h") auto
  obtain r2 m2 h2 where n2: "wasm_new A ?ub m1 h1 = (r2, m2, h2)" by (cases "wasm_new A ?ub m1 h1") auto
  obtain r3 m3 h3 where n3: "wasm_new A ?yb m2 h2 = (r3, m3, h3)" by (cases "wasm_new A ?yb m2 h2") auto
  obtain r4 m4 h4 where n4: "wasm_new A ?bb m3 h3 = (r4, m4, h4)" by (cases "wasm_new A ?bb m3 h3") auto
  have e: "h1 = h" "h2 = h" "h3 = h" "h4 = h" using n1 n2 n3 n4 by (auto simp: wasm_new_def split: if_splits option.splits)
  show thesis
  proof (cases "\<exists>v u y b. r1 = WDone v \<and> r2 = WDone u \<and> r3 = WDone y \<and> r4 = WDone b")
    case False
    have "\<exists>msg. r = WTrap msg \<and> h' = h"
      using False assms(3) n1 n2 n3 n4 e
      by (cases r1; cases r2; cases r3; cases r4) (auto simp: wasm_HTTPRequest_def wasm_bind_def Let_def)
    then show thesis using no_memory by blast
  next
    case True
    then obtain v u y b where d: "r1 = WDone v" "r2 = WDone u" "r3 = WDone y" "r4 = WDone b" by blast
    note new = in_memory_new [OF assms(1)]
    have i: "in_memory buf m3 (v, length ?vb) ?vb" "in_memory buf m3 (u, length ?ub) ?ub" "in_memory buf m3 (y, length ?yb) ?yb" "in_memory buf m3 s body"
      using new n1 n2 n3 assms(2) unfolding d by metis+
    from n4 have a: "gh_new A ?bb m3 = Some (b, m4)" by (auto simp: wasm_new_def d split: option.splits)
    from sent [OF i [simplified] heap_okD(2,3) [OF assms(1) a]] show thesis
      using assms(3) n1 n2 n3 n4 d e by (simp add: wasm_HTTPRequest_def wasm_bind_def Let_def)
  qed
qed

text \<open>A call whose response fits its buffer.\<close>

lemma fitting_call:
  fixes h :: "'w hc_state"
  assumes "heap_ok G A buf" "hm_http md = Some cfg" "request_ok verb url headers body"
    and "in_memory buf m (v, length verb) (bytes_of_string verb)" "in_memory buf m (u, length url) (bytes_of_string url)"
      "in_memory buf m (y, length (encode_headers headers)) (encode_headers headers)" "in_memory buf m s body" "buf m b = Some (replicate n 0)"
    and "answered cfg (request_params verb url headers body) h status resp" "length resp + 4 \<le> n" "n < 2 ^ 31" "0 \<le> sint (ucast status :: int32)"
  shows "\<exists>m' h'. doHTTPRequest (live_host G W (Some md)) (v, length verb) (u, length url) (y, length (encode_headers headers)) s (b, n) m h =
      (WDone (ucast status), m', h') \<and> ucast status \<noteq> (-5 :: int32) \<and>
    http_result A b n (ucast status) m' h' = (WDone (Inr (sint (ucast status :: int32), resp)), m', h') \<and>
    ev_calls (hc_env h') = Suc (ev_calls (hc_env h)) \<and> hc_log h' = Record HTTPRequest (put_u32 (ucast status) @ resp) (hc_log h)"
proof -
  let ?v = "(v, length verb)" and ?u = "(u, length url)" and ?y = "(y, length (encode_headers headers))"
  have ne: "snd ?v \<noteq> 0" "snd ?u \<noteq> 0" "n \<noteq> 0" using assms(3,10) by (auto simp: request_ok_def)
  from http_call(1) [OF assms(1) request_read [OF assms(1,3-7)] assms(9,8), of n] assms(10,11) obtain m' h' where
    c: "http_request G cfg (fst ?v, of_nat (snd ?v)) (fst ?u, of_nat (snd ?u)) (optional_span ?y) (optional_span s) (b, of_nat n) m h =
      (ret_i32 (ucast status), m', h')"
    and h': "h' = record_obs HTTPRequest (put_u32 (ucast status) @ resp) (snd (next_env h))"
    and m': "buf m' b = Some (put_u32 (len_u32 resp) @ resp @ drop (4 + length resp) (replicate n 0))" by auto
  have "http_result A b n (ucast status) m' h' = (WDone (Inr (sint (ucast status :: int32), resp)), m', h')"
    by (rule http_result_ok [OF assms(1) m' refl]) (use assms(10-12) in simp_all)
  moreover have "doHTTPRequest (live_host G W (Some md)) ?v ?u ?y s (b, n) m h = (WDone (ucast status), m', h')"
    using doHTTPRequest_run [OF assms(2) ne c, of W] by simp
  moreover have "ucast status \<noteq> (-5 :: int32)" using assms(12) by auto
  ultimately show ?thesis using h' by (auto simp: next_env_def)
qed

text \<open>
  C22 A request reaches the server as the agent wrote it, and the response reaches the agent as the server sent it.  Let an agent whose manifest
  grants HTTP make a request of admissible size, with distinct headers without line breaks or surrounding spaces, to an allowed host,
  and let the server answer that very request (same method, URL, headers and body) with a body of at most 8188 bytes.  Then either
  the module runs out of memory before anything is sent, or the agent gets the server's status and body, exactly one request
  has been made, and the response is in the event log.
\<close>

theorem HTTPRequest_delivers:
  assumes "heap_ok G A buf" "hm_http md = Some cfg" "request_ok verb url headers body" "in_memory buf m s body"
    and "answered cfg (request_params verb url headers body) h status resp" "length resp \<le> 8188" "0 \<le> sint (ucast status :: int32)"
    and "wasm_HTTPRequest A (live_host G W (Some md)) verb url headers s m h = (r, m', h')"
  shows "(\<exists>msg. r = WTrap msg \<and> h' = h) \<or>
    (r = WDone (Inr (sint (ucast status :: int32), resp)) \<and> ev_calls (hc_env h') = Suc (ev_calls (hc_env h)) \<and>
     hc_log h' = Record HTTPRequest (put_u32 (ucast status) @ resp) (hc_log h))"
  using assms(1,4,8)
proof (cases rule: request_start)
  case (sent v u y b m3 m4)
  note kept = in_memory_upd [of buf m3 b m4, OF sent(5,6)]
  have "buf m4 b = Some (replicate 8192 0)" using sent(6) by simp
  from fitting_call [OF assms(1-3) kept [OF sent(1)] kept [OF sent(2)] kept [OF sent(3)] kept [OF sent(4)] this assms(5) _ _ assms(7), of W] assms(6) sent(7)
  show ?thesis by (auto simp: wasm_bind_def http_retry_def)
qed blast

text \<open>
  C23 A large response is paid for twice: when the server's body does not fit the first buffer (more than 8188 bytes, at most 4 MB), the SDK
  sends the identical request again, whatever its method, and hands the agent the second response.  The server has seen
  two requests, the agent one call, and only the second response is in the event log.  (The module may also run out of memory, with at most
  one request sent.)
\<close>

theorem HTTPRequest_repeats:
  assumes "heap_ok G A buf" "hm_http md = Some cfg" "request_ok verb url headers body" "in_memory buf m s body"
    and "answered cfg (request_params verb url headers body) h status1 resp1" "8188 < length resp1" "length resp1 \<le> 4194304"
    and "answered cfg (request_params verb url headers body) (snd (next_env h)) status2 resp2" "length resp2 \<le> length resp1"
      "0 \<le> sint (ucast status2 :: int32)"
    and "wasm_HTTPRequest A (live_host G W (Some md)) verb url headers s m h = (r, m', h')"
  shows "(\<exists>msg. r = WTrap msg \<and> ev_calls (hc_env h') \<le> Suc (ev_calls (hc_env h))) \<or>
    (r = WDone (Inr (sint (ucast status2 :: int32), resp2)) \<and> ev_calls (hc_env h') = ev_calls (hc_env h) + 2 \<and>
     hc_log h' = Record HTTPRequest (put_u32 (ucast status2) @ resp2) (hc_log h))"
  using assms(1,4,11)
proof (cases rule: request_start)
  case (sent v u y b m3 m4)
  note kept = in_memory_upd [of buf m3 b m4, OF sent(5,6)]
  have b: "buf m4 b = Some (replicate 8192 0)" using sent(6) by simp
  let ?v = "(v, length verb)" and ?u = "(u, length url)" and ?y = "(y, length (encode_headers headers))"
  let ?call = "\<lambda>b n. doHTTPRequest (live_host G W (Some md)) ?v ?u ?y s (b, n)" and ?n = "length resp1 + 4" and ?h1 = "snd (next_env h)"
  have ne: "snd ?v \<noteq> 0" "snd ?u \<noteq> 0" using assms(3) by (simp_all add: request_ok_def)
  from http_call(2) [OF assms(1) request_read [OF assms(1,3) kept [OF sent(1)] kept [OF sent(2)] kept [OF sent(3)] kept [OF sent(4)]] assms(5) b, of 8192]
    assms(6) obtain m5 where
    c: "http_request G cfg (fst ?v, of_nat (snd ?v)) (fst ?u, of_nat (snd ?u)) (optional_span ?y) (optional_span s) (b, of_nat 8192) m4 h =
      (ret_i32 (-5), m5, ?h1)"
    and m5: "buf m5 = (buf m4)(b \<mapsto> put_u32 (len_u32 resp1) @ drop 4 (replicate 8192 0))" by auto
  have ld: "gh_load A b 8192 m5 = put_u32 (len_u32 resp1) @ drop 4 (replicate 8192 0)"
    using heap_okD(5) [OF assms(1), of m5 b] m5 by simp
  have need: "get_u32 (take 4 (gh_load A b 8192 m5)) = len_u32 resp1" "0 < len_u32 resp1" "len_u32 resp1 \<le> 4194304" "unat (len_u32 resp1 + 4) = ?n"
    using assms(6,7) len_small [of resp1] by (auto simp: ld word_less_nat_alt word_le_nat_alt unat_word_ariths)
  have "wasm_bind (wasm_new A (replicate ?n 0)) (\<lambda>b. wasm_bind (?call b ?n) (http_result A b ?n)) m5 ?h1 = (r, m', h')"
    using sent(7) doHTTPRequest_run [OF assms(2) ne _ c, of W] need by (simp add: wasm_bind_def http_retry_def wasm_load_def Let_def)
  then consider "\<exists>msg. r = WTrap msg" "h' = ?h1" | b2 m6 where "wasm_new A (replicate ?n 0) m5 ?h1 = (WDone b2, m6, ?h1)"
      "wasm_bind (?call b2 ?n) (http_result A b2 ?n) m6 ?h1 = (r, m', h')"
    by (auto simp: wasm_bind_def wasm_new_def split: option.splits if_splits)
  then show ?thesis
  proof cases
    case (2 b2 m6)
    have "buf m5 = (buf m3)(b \<mapsto> put_u32 (len_u32 resp1) @ drop 4 (replicate 8192 0))" using m5 sent(6) by simp
    note kept5 = in_memory_new(2) [OF assms(1) 2(1) in_memory_upd [of buf m3 b m5, OF sent(5) this]]
    have "buf m6 b2 = Some (replicate ?n 0)" using wasm_new_buf(2) [OF assms(1) 2(1)] by simp
    from fitting_call [OF assms(1-3) kept5 [OF sent(1)] kept5 [OF sent(2)] kept5 [OF sent(3)] kept5 [OF sent(4)] this assms(8) _ _ assms(10), of W]
      assms(7,9) 2(2) show ?thesis by (auto simp: wasm_bind_def next_env_def)
  qed (auto simp: next_env_def)
qed auto


section \<open>A concrete memory\<close>

text \<open>Buffers in a table, with addresses counted upwards.\<close>

record table_memory =
  tm_bufs :: "(uint32 \<times> bytes) list"
  tm_next :: uint32

definition table_buf :: "table_memory \<Rightarrow> uint32 \<Rightarrow> bytes option" where
  "table_buf m p = (case map_of (tm_bufs m) p of Some bs \<Rightarrow> if length bs < 2 ^ 32 then Some bs else None | None \<Rightarrow> None)"

definition table_heap :: "table_memory go_heap" where
  "table_heap = \<lparr>
     gh_new = (\<lambda>bs m.
       if length bs < 2 ^ 32 \<and> map_of (tm_bufs m) (tm_next m) = None
       then Some (tm_next m, m\<lparr>tm_bufs := (tm_next m, bs) # tm_bufs m, tm_next := tm_next m + 1\<rparr>) else None),
     gh_load = (\<lambda>p n m. to_array n (case map_of (tm_bufs m) p of Some bs \<Rightarrow> bs | None \<Rightarrow> []))\<rparr>"

definition table_guest :: "table_memory guest" where
  "table_guest = \<lparr>g_exported = (\<lambda>_ _. True), g_enter = (\<lambda>_ _ m. m), g_event = (\<lambda>m. GReturn [] m), g_answer = (\<lambda>_ m. m),
     g_read = (\<lambda>p n m. case map_of (tm_bufs m) p of
        Some bs \<Rightarrow> if unat n \<le> length bs then Some (take (unat n) bs) else None | None \<Rightarrow> None),
     g_write = (\<lambda>p out m. case map_of (tm_bufs m) p of
        Some bs \<Rightarrow> if length out \<le> length bs
          then Some (m\<lparr>tm_bufs := (p, out @ drop (length out) bs) # tm_bufs m\<rparr>) else None | None \<Rightarrow> None)\<rparr>"

lemma heap_ok_table: "heap_ok table_guest table_heap table_buf"
  unfolding heap_ok_def
  by (auto simp: table_heap_def table_guest_def table_buf_def fun_eq_iff len_small split: option.splits if_splits)

lemma reads_exact_table: "reads_exact table_guest"
  by (auto simp: reads_exact_def table_guest_def split: option.splits if_splits)

definition paying_module :: "host_module option" where
  "paying_module = Some (empty_module\<lparr>hm_clock := True, hm_log := True, hm_pay := Some \<lparr>py_allowedRecipients = [], py_maxPayment = 50\<rparr>\<rparr>)"

definition paying_state :: "example_agent Instance hc_state" where
  "paying_state = \<lparr>hc_log = NewEventLog 4, hc_wallet = example_instance, hc_env = example_env\<rparr>"

definition example_pay :: "bytes result wasm_ret \<times> table_memory \<times> example_agent Instance hc_state" where
  "example_pay = wasm_WalletPay table_heap (live_host table_guest (instance_wallet sample_crypto) paying_module) 5 ''shop'' '''' \<lparr>tm_bufs = [], tm_next = 1\<rparr> paying_state"

lemma pay_result_host: "snd (snd (pay_result A b n rc m h)) = h"
  by (auto simp: pay_result_def length_prefixed_def wasm_defs Let_def)

lemma example_pay_charges: "in_Budget (hc_wallet (snd (snd example_pay))) = 95"
  unfolding example_pay_def wasm_WalletPay_def wasm_bind_def wasm_new_def wasm_first_def wasm_import_def table_heap_def Let_def
  by (simp add: live_host_def paying_module_def wallet_pay_def table_guest_def bytes_of_string_def len_u32_def read_memo_def paying_state_def
      pay_needed_def full_receipt_len_def GetAgentPubKey_def example_instance_def pay_settle_def DeductBudget_def next_env_def
      pay_result_host Let_def)

theorem WalletPay_all_or_nothing_witness:
  "\<exists>receipt h'. fst example_pay = WDone (Inr receipt) \<and> snd (snd example_pay) = h' \<and>
     pay_done sample_crypto 5 (bytes_of_string ''shop'') (bytes_of_string '''') paying_state h' receipt"
proof -
  obtain r m' h' where e: "example_pay = (r, m', h')" by (cases example_pay)
  have k: "wf_keys sample_crypto (hc_wallet paying_state)"
    by (simp add: wf_keys_def paying_state_def example_instance_def crypto_ok_sample)
  have "h' \<noteq> paying_state" using example_pay_charges by (auto simp: e paying_state_def example_instance_def)
  with WalletPay_all_or_nothing [OF heap_ok_table reads_exact_table k e [unfolded example_pay_def]] show ?thesis by (auto simp: e)
qed

definition serving_env :: "nat \<Rightarrow> env" where
  "serving_env n = \<lparr>ev_clock = (\<lambda>_. 7), ev_rand = (\<lambda>_. None), ev_hostname = (\<lambda>_. Inr ''h''),
     ev_http = (\<lambda>_ params _. Response 200 (replicate n 65) False), ev_calls = 0\<rparr>"

definition serving_state :: "nat \<Rightarrow> unit hc_state" where
  "serving_state n = \<lparr>hc_log = NewEventLog 4, hc_wallet = (), hc_env = serving_env n\<rparr>"

abbreviation web_cfg :: http_cfg where
  "web_cfg \<equiv> \<lparr>ht_allowedHosts = [''h''], ht_timeoutMs = 1000, ht_maxRespBytes = 100000\<rparr>"

definition web_module :: host_module where
  "web_module = empty_module\<lparr>hm_clock := True, hm_log := True, hm_http := Some web_cfg\<rparr>"

definition no_wallet :: "unit wallet_ops" where
  "no_wallet = \<lparr>w_GetBudget = (\<lambda>_. 0), w_GetReceiptCount = (\<lambda>_. 0), w_GetReceiptBytes = (\<lambda>_ _. Inr []), w_GetNodePrice = (\<lambda>_. 0),
     w_DeductBudget = (\<lambda>_ w. (Inr (), w)), w_GetAgentPubKey = (\<lambda>_. []), w_SignPayment = (\<lambda>_ _. [])\<rparr>"

definition example_post :: "nat \<Rightarrow> (int \<times> bytes) result wasm_ret \<times> table_memory \<times> unit hc_state" where
  "example_post n = wasm_HTTPRequest table_heap (live_host table_guest no_wallet (Some web_module)) ''POST'' ''http://h/x'' [(''X-A'', ''1'')] (0, 0)
     \<lparr>tm_bufs = [], tm_next = 1\<rparr> (serving_state n)"

lemma http_result_host: "snd (snd (http_result A b n rc m h)) = h"
  by (auto simp: http_result_def length_prefixed_def wasm_defs Let_def)

lemma answered_example: "n \<le> 100000 \<Longrightarrow> hc_env h = (serving_env n)\<lparr>ev_calls := k\<rparr> \<Longrightarrow> answered web_cfg (request_params v u y b) h 200 (replicate n 65)"
  by (simp add: answered_def serving_env_def checkAllowedHost_def request_params_def to_lower_def wrap_result_def bindR_def)

lemma request_ok_example: "request_ok ''POST'' ''http://h/x'' [(''X-A'', ''1'')] []"
  by (simp add: request_ok_def header_ok_def trimmed_def is_space_def encode_headers_def)

lemmas post_unfold = example_post_def wasm_HTTPRequest_def doHTTPRequest_def wasm_bind_def wasm_new_def wasm_first_def wasm_import_def table_heap_def Let_def

lemmas post_eval = live_host_def web_module_def http_request_def readHTTPParams_def checkAllowedHost_def table_guest_def bytes_of_string_def len_u32_def
  serving_state_def serving_env_def encode_headers_def to_lower_def wrap_result_def bindR_def next_env_def wasm_return_def http_retry_def http_result_host
  writeSizeHint_def wasm_bind_def wasm_load_def wasm_new_def Let_def

lemma example_post_calls: "ev_calls (hc_env (snd (snd (example_post 3)))) = 1"
  unfolding post_unfold by (simp add: post_eval)

lemma example_post_calls_twice: "ev_calls (hc_env (snd (snd (example_post 9000)))) = 2"
proof -
  have t: "take 4 (to_array 8192 (put_u32 x @ ys)) = put_u32 x" for x ys by (simp add: to_array_def)
  have g: "get_u32 (put_u32 x) = x" for x using get_put_u32 [of x "[]"] by simp
  show ?thesis unfolding post_unfold by (simp add: post_eval t g)
qed

theorem HTTPRequest_delivers_witness: "fst (example_post 3) = WDone (Inr (200, [65, 65, 65]))"
proof -
  obtain r m' h' where e: "example_post 3 = (r, m', h')" by (cases "example_post 3")
  have m: "hm_http web_module = Some web_cfg" by (simp add: web_module_def)
  have a: "answered web_cfg (request_params ''POST'' ''http://h/x'' [(''X-A'', ''1'')] []) (serving_state 3) 200 (replicate 3 65)"
    by (rule answered_example [where k = 0]) (simp_all add: serving_state_def serving_env_def)
  have "h' \<noteq> serving_state 3" using example_post_calls by (auto simp: e serving_state_def serving_env_def)
  with HTTPRequest_delivers [OF heap_ok_table m request_ok_example _ a _ _ e [unfolded example_post_def]]
  have "r = WDone (Inr (200, replicate 3 65))" by (auto simp: in_memory_def)
  then show ?thesis using e by (simp add: eval_nat_numeral)
qed

theorem HTTPRequest_repeats_witness:
  "fst (example_post 9000) = WDone (Inr (200, replicate 9000 65)) \<and> ev_calls (hc_env (snd (snd (example_post 9000)))) = 2"
proof -
  obtain r m' h' where e: "example_post 9000 = (r, m', h')" by (cases "example_post 9000")
  have m: "hm_http web_module = Some web_cfg" by (simp add: web_module_def)
  let ?params = "request_params ''POST'' ''http://h/x'' [(''X-A'', ''1'')] []"
  have a: "answered web_cfg ?params (serving_state 9000) 200 (replicate 9000 65)" "answered web_cfg ?params (snd (next_env (serving_state 9000))) 200 (replicate 9000 65)"
    by (rule answered_example [where k = 0], simp_all add: serving_state_def serving_env_def)
      (rule answered_example [where k = 1], simp_all add: serving_state_def serving_env_def next_env_def)
  have "ev_calls (hc_env h') = 2" "ev_calls (hc_env (serving_state 9000)) = 0" using example_post_calls_twice by (simp_all add: e serving_state_def serving_env_def)
  with HTTPRequest_repeats [OF heap_ok_table m request_ok_example _ a(1) _ _ a(2) _ _ e [unfolded example_post_def]] show ?thesis
    by (auto simp: e in_memory_def)
qed

definition clock_code :: "int64 agent_code" where
  "clock_code = \<lparr>ag_Init = (\<lambda>s. s), ag_Tick = (\<lambda>s. sdk_ClockNow (\<lambda>now. sdk_Log ''tick'' (Done (True, now)))),
     ag_Marshal = put_u64, ag_Unmarshal = (\<lambda>data s. Inr (get_u64 data))\<rparr>"


end
