(* ===== verification/Network.thy ===== *)
theory Network
  imports Prelude "HOL-Library.Multiset"
begin

text \<open>
  What nodes ask each other outside migrations: the liveness check of \<open>src/internal/p2p/node.go\<close> and the price queries of
  \<open>src/internal/pricing/service.go\<close>.  libp2p is the record \<open>p2p_net\<close>: parsing of addresses, connecting and opening
  streams with their errors (an expired context is one of them), and what a peer writes on a stream of a
  protocol after it has read what was sent.  \<open>encoding/json\<close> is the record \<open>price_json\<close>.  A price scan runs one
  goroutine per peer: its schedules are the runs of the step relation \<open>scan_step\<close>.
\<close>

section \<open>The network\<close>

record p2p_net =
  nt_NewMultiaddr :: "string \<Rightarrow> string result"
  nt_AddrInfo :: "string \<Rightarrow> string result"
  nt_Connect :: "string \<Rightarrow> unit result"
  nt_NewStream :: "string \<Rightarrow> string \<Rightarrow> unit result"
  nt_Write :: "string \<Rightarrow> bytes \<Rightarrow> unit result"
  nt_remote :: "string \<Rightarrow> string \<Rightarrow> bytes \<Rightarrow> bytes"

text \<open>Both clients reach a peer the same way; \<open>what\<close> names the stream in the error text.\<close>

definition open_stream :: "p2p_net \<Rightarrow> string \<Rightarrow> string \<Rightarrow> string \<Rightarrow> string result" where
  "open_stream net what protocol peerAddr =
     bindR (wrap_result ''invalid peer address'' (nt_NewMultiaddr net peerAddr)) (\<lambda>maddr.
     bindR (wrap_result ''failed to extract peer info'' (nt_AddrInfo net maddr)) (\<lambda>peer.
     bindR (wrap_result ''failed to connect to peer'' (nt_Connect net peer)) (\<lambda>_.
     bindR (wrap_result (''failed to open '' @ what) (nt_NewStream net peer protocol)) (\<lambda>_. Inr peer))))"

section \<open>Ping\<close>

abbreviation PingProtocol :: string where "PingProtocol \<equiv> ''/igor/ping/1.0.0''"

text \<open>\<open>io.ReadFull\<close> into a buffer of four bytes.\<close>

definition read_full :: "nat \<Rightarrow> bytes \<Rightarrow> bytes result" where
  "read_full n input = (if length input < n then Inl (NewError ''unexpected EOF'') else Inr (take n input))"

text \<open>What the handler writes, given whether its read deadline could be set and what it received.\<close>

definition handlePing :: "bool \<Rightarrow> bytes \<Rightarrow> bytes" where
  "handlePing deadline_set input =
     (if \<not> deadline_set then []
      else case read_full 4 input of
        Inl _ \<Rightarrow> []
      | Inr buf \<Rightarrow> if string_of_bytes buf \<noteq> ''ping'' then [] else bytes_of_string ''pong'')"

definition PingPeer :: "p2p_net \<Rightarrow> string \<Rightarrow> unit result" where
  "PingPeer net peerAddr =
     bindR (open_stream net ''stream'' PingProtocol peerAddr) (\<lambda>peer.
     bindR (wrap_result ''failed to send ping'' (nt_Write net peer (bytes_of_string ''ping''))) (\<lambda>_.
     bindR (wrap_result ''failed to read pong'' (read_full 4 (nt_remote net peer PingProtocol (bytes_of_string ''ping'')))) (\<lambda>buf.
       if string_of_bytes buf \<noteq> ''pong'' then Inl (NewError (''unexpected response: '' @ string_of_bytes buf)) else Inr ())))"

text \<open>One result per peer, in order; a failure does not end the loop.\<close>

primrec bootstrapPeers :: "p2p_net \<Rightarrow> string list \<Rightarrow> unit result list" where
  "bootstrapPeers net [] = []"
| "bootstrapPeers net (peerAddr # peers) = PingPeer net peerAddr # bootstrapPeers net peers"

text \<open>A node: the protocols it serves and the outcome of its bootstrap.  \<open>libp2p.New\<close> is an argument.\<close>

record Node =
  nd_handlers :: "string list"
  nd_bootstrap :: "unit result list"

definition registerHandlers :: "Node \<Rightarrow> Node" where
  "registerHandlers n = n\<lparr>nd_handlers := PingProtocol # nd_handlers n\<rparr>"

definition NewNode :: "p2p_net \<Rightarrow> (string \<Rightarrow> unit result) \<Rightarrow> string \<Rightarrow> string list \<Rightarrow> Node result" where
  "NewNode net libp2p_New listenAddress bootstrap =
     bindR (wrap_result ''invalid listen address'' (nt_NewMultiaddr net listenAddress)) (\<lambda>listenAddr.
     bindR (wrap_result ''failed to create libp2p host'' (libp2p_New listenAddr)) (\<lambda>_.
       let node = registerHandlers \<lparr>nd_handlers = [], nd_bootstrap = []\<rparr> in
       Inr (if length bootstrap > 0 then node\<lparr>nd_bootstrap := bootstrapPeers net bootstrap\<rparr> else node)))"

section \<open>Prices\<close>

abbreviation PriceProtocol :: string where "PriceProtocol \<equiv> ''/igor/price/1.0.0''"

record PriceRequest =
  pq_AgentID :: string

record PriceResponse =
  pr_PricePerSecond :: int64
  pr_NodeID :: string

record price_json =
  pj_enc_req :: "PriceRequest \<Rightarrow> bytes"
  pj_dec_req :: "bytes \<Rightarrow> PriceRequest result"
  pj_enc_resp :: "PriceResponse \<Rightarrow> bytes"
  pj_dec_resp :: "bytes \<Rightarrow> PriceResponse result"

record price_service =
  ps_NodeID :: string
  ps_pricePerSecond :: int64

text \<open>\<open>NewService\<close> returns the service and the protocol whose handler it registers.\<close>

definition NewService :: "string \<Rightarrow> int64 \<Rightarrow> price_service \<times> string" where
  "NewService hostID pricePerSecond = (\<lparr>ps_NodeID = hostID, ps_pricePerSecond = pricePerSecond\<rparr>, PriceProtocol)"

definition handlePriceQuery :: "price_json \<Rightarrow> price_service \<Rightarrow> bool \<Rightarrow> bytes \<Rightarrow> bytes" where
  "handlePriceQuery J svc deadline_set input =
     (if \<not> deadline_set then []
      else case pj_dec_req J input of
        Inl _ \<Rightarrow> []
      | Inr _ \<Rightarrow> pj_enc_resp J \<lparr>pr_PricePerSecond = ps_pricePerSecond svc, pr_NodeID = ps_NodeID svc\<rparr>)"

definition QueryPeerPrice :: "price_json \<Rightarrow> p2p_net \<Rightarrow> string \<Rightarrow> PriceResponse result" where
  "QueryPeerPrice J net peerAddr =
     bindR (open_stream net ''price stream'' PriceProtocol peerAddr) (\<lambda>peer.
     let req = pj_enc_req J \<lparr>pq_AgentID = ''''\<rparr> in
     bindR (wrap_result ''failed to send price request'' (nt_Write net peer req)) (\<lambda>_.
     bindR (wrap_result ''failed to read price response'' (pj_dec_resp J (nt_remote net peer PriceProtocol req))) (\<lambda>resp. Inr resp)))"

text \<open>The loop that receives one result per peer from the channel; the argument is what arrives, in order.\<close>

fun receive_results :: "PriceResponse result list \<Rightarrow> PriceResponse list \<Rightarrow> PriceResponse list" where
  "receive_results [] responses = responses"
| "receive_results (Inl _ # rs) responses = receive_results rs responses"
| "receive_results (Inr resp # rs) responses = receive_results rs (responses @ [resp])"

text \<open>A scan whose goroutines finish in the order \<open>arrival\<close> of the peers' addresses.\<close>

definition ScanPeerPrices :: "price_json \<Rightarrow> p2p_net \<Rightarrow> string list \<Rightarrow> PriceResponse list" where
  "ScanPeerPrices J net arrival = receive_results (map (QueryPeerPrice J net) arrival) []"

text \<open>The scan as it runs: goroutines that have not finished, the channel (as large as the number of peers, so that a
  goroutine never waits), how many results are still to be received, and the responses so far.\<close>

record scan =
  sc_running :: "string list"
  sc_results :: "PriceResponse result list"
  sc_wait :: nat
  sc_responses :: "PriceResponse list"

definition scan_start :: "string list \<Rightarrow> scan" where
  "scan_start addrs = \<lparr>sc_running = addrs, sc_results = [], sc_wait = length addrs, sc_responses = []\<rparr>"

inductive scan_step :: "(string \<Rightarrow> PriceResponse result) \<Rightarrow> scan \<Rightarrow> scan \<Rightarrow> bool" for query where
  finish: "sc_running s = xs @ addr # ys \<Longrightarrow>
    scan_step query s (s\<lparr>sc_running := xs @ ys, sc_results := sc_results s @ [query addr]\<rparr>)"
| receive: "sc_wait s = Suc n \<Longrightarrow> sc_results s = r # rs \<Longrightarrow>
    scan_step query s (s\<lparr>sc_wait := n, sc_results := rs, sc_responses := receive_results [r] (sc_responses s)\<rparr>)"

inductive_cases scan_stepE: "scan_step query s s'"

section \<open>Every schedule of a scan\<close>

definition successes :: "('e + 'a) list \<Rightarrow> 'a list" where
  "successes rs = concat (map (\<lambda>r. case r of Inl _ \<Rightarrow> [] | Inr x \<Rightarrow> [x]) rs)"

lemma successes_simps [simp]:
  "successes [] = []" "successes (Inl e # rs) = successes rs" "successes (Inr x # rs) = x # successes rs"
  "successes (rs @ rs') = successes rs @ successes rs'"
  by (simp_all add: successes_def)

lemma receive_results_successes: "receive_results rs responses = responses @ successes rs"
  by (induction rs responses rule: receive_results.induct) simp_all

text \<open>Nothing is lost or received twice: what has been received or lies in the channel is what the finished goroutines found.\<close>

definition scan_inv :: "(string \<Rightarrow> PriceResponse result) \<Rightarrow> string list \<Rightarrow> scan \<Rightarrow> bool" where
  "scan_inv query addrs s \<longleftrightarrow> sc_wait s = length (sc_running s) + length (sc_results s) \<and>
     (\<exists>arrived. mset arrived + mset (sc_running s) = mset addrs \<and>
        sc_responses s @ successes (sc_results s) = successes (map query arrived))"

lemma scan_inv_start: "scan_inv query addrs (scan_start addrs)"
  by (auto simp: scan_inv_def scan_start_def intro: exI [of _ "[]"])

lemma scan_inv_step:
  assumes "scan_step query s s'" "scan_inv query addrs s"
  shows "scan_inv query addrs s'"
proof -
  from assms(2) obtain arrived where
    i: "sc_wait s = length (sc_running s) + length (sc_results s)" "mset arrived + mset (sc_running s) = mset addrs"
      "sc_responses s @ successes (sc_results s) = successes (map query arrived)" by (auto simp: scan_inv_def)
  from assms(1) show ?thesis
  proof cases
    case (finish xs addr ys)
    with i show ?thesis by (auto simp: scan_inv_def intro!: exI [of _ "arrived @ [addr]"])
  next
    case (receive n r rs)
    have "receive_results [r] (sc_responses s) @ successes rs = sc_responses s @ successes (sc_results s)"
      by (cases r) (simp_all add: receive)
    with i receive show ?thesis by (auto simp: scan_inv_def intro: exI [of _ arrived])
  qed
qed

definition scan_work :: "scan \<Rightarrow> nat" where
  "scan_work s = 2 * length (sc_running s) + length (sc_results s)"

lemma scan_work_step: "scan_step query s s' \<Longrightarrow> scan_work s = Suc (scan_work s')"
  by (auto simp: scan_work_def elim!: scan_stepE)

lemma scan_run:
  assumes "(scan_step query ^^ k) s s'" "scan_inv query addrs s"
  shows "scan_inv query addrs s' \<and> scan_work s = k + scan_work s'"
  using assms
proof (induction k arbitrary: s')
  case (Suc k)
  then obtain s1 where s: "(scan_step query ^^ k) s s1" "scan_step query s1 s'" by auto
  from Suc.IH [OF s(1) Suc.prems(2)] scan_inv_step [OF s(2)] scan_work_step [OF s(2)] show ?case by simp
qed simp

lemma scan_progress:
  assumes "scan_inv query addrs s" "scan_work s \<noteq> 0"
  shows "\<exists>s'. scan_step query s s'"
proof (cases "sc_running s")
  case (Cons addr ys)
  then show ?thesis using scan_step.finish [of s "[]" addr ys query] by auto
next
  case Nil
  with assms(2) obtain r rs where r: "sc_results s = r # rs" by (cases "sc_results s") (auto simp: scan_work_def)
  with assms(1) Nil have "sc_wait s = Suc (length rs)" by (simp add: scan_inv_def)
  from scan_step.receive [OF this r] show ?thesis by blast
qed

text \<open>A run that cannot go on has received every result; the order of the responses is the order in which the peers answered.\<close>

lemma scan_ended:
  assumes "(scan_step query ^^ k) (scan_start addrs) s" "\<nexists>s'. scan_step query s s'"
  shows "k = 2 * length addrs" "sc_wait s = 0"
    "\<exists>arrival. mset arrival = mset addrs \<and> sc_responses s = receive_results (map query arrival) []"
proof -
  note r = scan_run [OF assms(1) scan_inv_start]
  then have "scan_work s = 0" using scan_progress assms(2) by blast
  then have z: "sc_running s = []" "sc_results s = []" by (auto simp: scan_work_def)
  have "scan_work (scan_start addrs) = 2 * length addrs" by (simp add: scan_work_def scan_start_def)
  with r \<open>scan_work s = 0\<close> show "k = 2 * length addrs" by simp
  from r have "scan_inv query addrs s" by blast
  with z show "sc_wait s = 0" "\<exists>arrival. mset arrival = mset addrs \<and> sc_responses s = receive_results (map query arrival) []"
    by (auto simp: scan_inv_def receive_results_successes)
qed

section \<open>What a scan finds\<close>

definition json_ok :: "price_json \<Rightarrow> bool" where
  "json_ok J \<longleftrightarrow> (\<forall>q. pj_dec_req J (pj_enc_req J q) = Inr q) \<and> (\<forall>r. pj_dec_resp J (pj_enc_resp J r) = Inr r)"

text \<open>A peer that is up and runs the price service.\<close>

definition serves :: "price_json \<Rightarrow> p2p_net \<Rightarrow> string \<Rightarrow> price_service \<Rightarrow> bool" where
  "serves J net addr svc \<longleftrightarrow> (\<exists>peer. open_stream net ''price stream'' PriceProtocol addr = Inr peer \<and> (\<forall>data. nt_Write net peer data = Inr ()) \<and>
     nt_remote net peer PriceProtocol = handlePriceQuery J svc True)"

definition unreachable :: "p2p_net \<Rightarrow> string \<Rightarrow> bool" where
  "unreachable net addr \<longleftrightarrow> (\<exists>e. open_stream net ''price stream'' PriceProtocol addr = Inl e)"

definition advertised :: "price_service \<Rightarrow> PriceResponse" where
  "advertised svc = \<lparr>pr_PricePerSecond = ps_pricePerSecond svc, pr_NodeID = ps_NodeID svc\<rparr>"

lemma query_served: "json_ok J \<Longrightarrow> serves J net addr svc \<Longrightarrow> QueryPeerPrice J net addr = Inr (advertised svc)"
  by (auto simp: serves_def json_ok_def QueryPeerPrice_def handlePriceQuery_def advertised_def bindR_def Let_def)

lemma query_unreachable: "unreachable net addr \<Longrightarrow> \<exists>e. QueryPeerPrice J net addr = Inl e"
  by (auto simp: unreachable_def QueryPeerPrice_def bindR_def)

lemma successes_queries:
  assumes "json_ok J" "\<forall>addr\<in>set addrs. if up addr then serves J net addr (svc addr) else unreachable net addr"
  shows "successes (map (QueryPeerPrice J net) addrs) = map (\<lambda>a. advertised (svc a)) (filter up addrs)"
  using assms(2)
proof (induction addrs)
  case (Cons a addrs)
  then have "successes (map (QueryPeerPrice J net) addrs) = map (\<lambda>a. advertised (svc a)) (filter up addrs)" by simp
  with Cons.prems query_served [OF assms(1), of net a "svc a"] query_unreachable [of net a J] show ?case by (cases "up a") auto
qed simp

text \<open>
  C16 A price scan finds the price of every peer that is up, once, whatever order its goroutines run in.  Let some of the
  peers be unreachable and the others run \<open>handlePriceQuery\<close>.  Every run of the scan has at most two steps per peer; a run that cannot go
  on has taken exactly that many, waits for nothing more, and its responses are the prices and identifiers the reachable peers
  advertise, each as often as its address was listed.
\<close>

theorem scan_finds_every_price:
  assumes "json_ok J" "\<forall>addr\<in>set addrs. if up addr then serves J net addr (svc addr) else unreachable net addr"
    and "(scan_step (QueryPeerPrice J net) ^^ k) (scan_start addrs) s"
  shows "k \<le> 2 * length addrs \<and>
    ((\<nexists>s'. scan_step (QueryPeerPrice J net) s s') \<longrightarrow>
      k = 2 * length addrs \<and> sc_wait s = 0 \<and> mset (sc_responses s) = mset (map (\<lambda>a. advertised (svc a)) (filter up addrs)))"
proof -
  have "scan_work (scan_start addrs) = 2 * length addrs" by (simp add: scan_work_def scan_start_def)
  with scan_run [OF assms(3) scan_inv_start] have "k \<le> 2 * length addrs" by simp
  moreover have "mset (sc_responses s) = mset (map (\<lambda>a. advertised (svc a)) (filter up addrs))" if "\<nexists>s'. scan_step (QueryPeerPrice J net) s s'"
  proof -
    from scan_ended(3) [OF assms(3) that] obtain arrival where
      a: "mset arrival = mset addrs" "sc_responses s = successes (map (QueryPeerPrice J net) arrival)" by (auto simp: receive_results_successes)
    then have "set arrival = set addrs" by (metis set_mset_mset)
    with successes_queries [OF assms(1), of arrival up net svc] assms(2) a show ?thesis by (simp add: mset_filter)
  qed
  ultimately show ?thesis using scan_ended(1,2) [OF assms(3)] by blast
qed

text \<open>The ping of a live node succeeds, and a bootstrap tries every peer.\<close>

lemma ping_live:
  assumes "open_stream net ''stream'' PingProtocol addr = Inr peer" "nt_Write net peer (bytes_of_string ''ping'') = Inr ()"
    "nt_remote net peer PingProtocol = handlePing True"
  shows "PingPeer net addr = Inr ()"
  using assms by (simp add: PingPeer_def handlePing_def read_full_def bindR_def)

lemma bootstrap_tries_all: "bootstrapPeers net peers = map (PingPeer net) peers"
  by (induction peers) simp_all

section \<open>An example network\<close>

definition example_json :: price_json where
  "example_json = \<lparr>pj_enc_req = (\<lambda>q. bytes_of_string (pq_AgentID q)), pj_dec_req = (\<lambda>b. Inr \<lparr>pq_AgentID = string_of_bytes b\<rparr>),
     pj_enc_resp = (\<lambda>r. put_u64 (pr_PricePerSecond r) @ bytes_of_string (pr_NodeID r)),
     pj_dec_resp = (\<lambda>b. Inr \<lparr>pr_PricePerSecond = get_u64 b, pr_NodeID = string_of_bytes (drop 8 b)\<rparr>)\<rparr>"

text \<open>Two peers, of which \<open>b\<close> does not answer.\<close>

definition example_net :: p2p_net where
  "example_net = \<lparr>nt_NewMultiaddr = Inr, nt_AddrInfo = Inr, nt_Connect = (\<lambda>p. if p = ''b'' then Inl (NewError ''timeout'') else Inr ()),
     nt_NewStream = (\<lambda>_ _. Inr ()), nt_Write = (\<lambda>_ _. Inr ()),
     nt_remote = (\<lambda>_ protocol. if protocol = PriceProtocol then handlePriceQuery example_json \<lparr>ps_NodeID = ''a'', ps_pricePerSecond = 7\<rparr> True else handlePing True)\<rparr>"

lemma example_json_ok: "json_ok example_json"
  by (simp add: json_ok_def example_json_def)

lemma example_serves: "serves example_json example_net ''a'' \<lparr>ps_NodeID = ''a'', ps_pricePerSecond = 7\<rparr>"
  by (simp add: serves_def open_stream_def example_net_def bindR_def)

lemma example_unreachable: "unreachable example_net ''b''"
  by (simp add: unreachable_def open_stream_def example_net_def bindR_def)

lemma example_scan_runs:
  "\<exists>s. (scan_step (QueryPeerPrice example_json example_net) ^^ 4) (scan_start [''a'', ''b'']) s"
proof -
  let ?q = "QueryPeerPrice example_json example_net"
  have "\<exists>s'. (scan_step ?q ^^ k) (scan_start [''a'', ''b'']) s'" if "k \<le> 4" for k
    using that
  proof (induction k)
    case (Suc k)
    then obtain s where s: "(scan_step ?q ^^ k) (scan_start [''a'', ''b'']) s" by auto
    from scan_run [OF s scan_inv_start] Suc.prems have "scan_inv ?q [''a'', ''b''] s" "scan_work s \<noteq> 0"
      by (auto simp: scan_work_def scan_start_def)
    from scan_progress [OF this] s show ?case by (auto intro: relcompp.relcompI)
  qed (auto intro: exI)
  then show ?thesis by simp
qed

theorem scan_finds_every_price_witness:
  "\<exists>s. (scan_step (QueryPeerPrice example_json example_net) ^^ 4) (scan_start [''a'', ''b'']) s \<and>
     mset (sc_responses s) = {#\<lparr>pr_PricePerSecond = 7, pr_NodeID = ''a''\<rparr>#}"
proof -
  let ?q = "QueryPeerPrice example_json example_net" and ?svc = "\<lambda>_. \<lparr>ps_NodeID = ''a'', ps_pricePerSecond = 7\<rparr>"
  have peers: "\<forall>addr\<in>set [''a'', ''b'']. if addr = ''a'' then serves example_json example_net addr (?svc addr) else unreachable example_net addr"
    using example_serves example_unreachable by simp
  obtain s where s: "(scan_step ?q ^^ 4) (scan_start [''a'', ''b'']) s" using example_scan_runs by blast
  have "\<nexists>s'. scan_step ?q s s'"
  proof
    assume "\<exists>s'. scan_step ?q s s'"
    then obtain s' where "(scan_step ?q ^^ 5) (scan_start [''a'', ''b'']) s'" using s relpowp_Suc_I [of 4 "scan_step ?q"] by auto
    from scan_finds_every_price [OF example_json_ok peers this] show False by simp
  qed
  with scan_finds_every_price [OF example_json_ok peers s] s show ?thesis by (auto simp: advertised_def)
qed

end
