(* ===== verification/Mock.thy ===== *)
theory Mock
  imports Sdk Simulator
begin

text \<open>
  Agents outside WebAssembly: in a native build the functions of the SDK (\<open>src/sdk/igor/hostcalls_*_stub.go\<close>) dispatch to the backend that is
  installed in the package variable \<open>activeMock\<close>, or panic when there is none; \<open>src/sdk/igor/mock/mock.go\<close> is the backend tests
  install.  Runtimes are pointers, so that the state is a heap of runtimes with the installed one.  Functions a test passes to the runtime are
  closures over the test's own variables, which are the parameter \<open>mw_test\<close> of the state.  The main result is
  that a tick run under a mock is a run of the agent's tree, and that what the test reads back afterwards is what the
  tree did.
\<close>

section \<open>The runtime\<close>

text \<open>A clock is the closure of \<open>SetFixedClock\<close> and \<open>NewDeterministic\<close> with its start, its step and its captured call count, or any other function.\<close>

datatype 'x mock_clock = FixedClock int64 int64 int64 | ClockFn "'x \<Rightarrow> int64 \<times> 'x"

type_synonym 'x HTTPHandler = "string \<Rightarrow> string \<Rightarrow> (string \<times> string) list \<Rightarrow> bytes \<Rightarrow> 'x \<Rightarrow> (int \<times> bytes) result \<times> 'x"
type_synonym 'x PaymentHandler = "int64 \<Rightarrow> string \<Rightarrow> string \<Rightarrow> 'x \<Rightarrow> bytes result \<times> 'x"

record 'x Runtime =
  mk_clock :: "'x mock_clock"
  mk_randSrc :: pcg
  mk_logs :: "string list"
  mk_budget :: int64
  mk_receipts :: "bytes list"
  mk_nodePrice :: int64
  mk_httpHandler :: "'x HTTPHandler option"
  mk_paymentHandler :: "'x PaymentHandler option"

record 'x mock_world =
  mw_runtimes :: "'x Runtime list"
  mw_active :: "nat option"
  mw_test :: 'x

definition runtime_at :: "nat \<Rightarrow> 'x mock_world \<Rightarrow> 'x Runtime" where
  "runtime_at r w = mw_runtimes w ! r"

definition set_runtime :: "nat \<Rightarrow> 'x Runtime \<Rightarrow> 'x mock_world \<Rightarrow> 'x mock_world" where
  "set_runtime r x w = w\<lparr>mw_runtimes := (mw_runtimes w)[r := x]\<rparr>"

definition zero_runtime :: "'x mock_clock \<Rightarrow> pcg \<Rightarrow> 'x Runtime" where
  "zero_runtime clock src = \<lparr>mk_clock = clock, mk_randSrc = src, mk_logs = [], mk_budget = 0, mk_receipts = [], mk_nodePrice = 0,
     mk_httpHandler = None, mk_paymentHandler = None\<rparr>"

definition alloc_runtime :: "'x Runtime \<Rightarrow> 'x mock_world \<Rightarrow> nat \<times> 'x mock_world" where
  "alloc_runtime x w = (length (mw_runtimes w), w\<lparr>mw_runtimes := mw_runtimes w @ [x]\<rparr>)"

text \<open>The system clock and the two random seeds are arguments.\<close>

definition mock_New :: "('x \<Rightarrow> int64 \<times> 'x) \<Rightarrow> uint64 \<Rightarrow> uint64 \<Rightarrow> 'x mock_world \<Rightarrow> nat \<times> 'x mock_world" where
  "mock_New now seed1 seed2 w = alloc_runtime (zero_runtime (ClockFn now) (NewPCG seed1 seed2)) w"

definition NewDeterministic :: "int64 \<Rightarrow> uint64 \<Rightarrow> 'x mock_world \<Rightarrow> nat \<times> 'x mock_world" where
  "NewDeterministic clockStartNano randSeed w =
     alloc_runtime (zero_runtime (FixedClock clockStartNano 1000000000 0) (NewPCG randSeed randSeed)) w"

definition SetMockBackend :: "nat option \<Rightarrow> 'x mock_world \<Rightarrow> 'x mock_world" where
  "SetMockBackend m w = w\<lparr>mw_active := m\<rparr>"

definition mock_Disable :: "nat \<Rightarrow> 'x mock_world \<Rightarrow> 'x mock_world" where
  "mock_Disable r w = SetMockBackend None w"

text \<open>\<open>Enable\<close> also returns the clean-up function.\<close>

definition mock_Enable :: "nat \<Rightarrow> 'x mock_world \<Rightarrow> ('x mock_world \<Rightarrow> 'x mock_world) \<times> 'x mock_world" where
  "mock_Enable r w = (mock_Disable r, SetMockBackend (Some r) w)"

definition SetClock :: "nat \<Rightarrow> 'x mock_clock \<Rightarrow> 'x mock_world \<Rightarrow> 'x mock_world" where
  "SetClock r clock w = set_runtime r (runtime_at r w\<lparr>mk_clock := clock\<rparr>) w"

definition SetFixedClock :: "nat \<Rightarrow> int64 \<Rightarrow> int64 \<Rightarrow> 'x mock_world \<Rightarrow> 'x mock_world" where
  "SetFixedClock r startNano deltaNano w = SetClock r (FixedClock startNano deltaNano 0) w"

definition mock_Logs :: "nat \<Rightarrow> 'x mock_world \<Rightarrow> string list" where
  "mock_Logs r w = mk_logs (runtime_at r w)"

definition ClearLogs :: "nat \<Rightarrow> 'x mock_world \<Rightarrow> 'x mock_world" where
  "ClearLogs r w = set_runtime r (runtime_at r w\<lparr>mk_logs := []\<rparr>) w"

definition SetBudget :: "nat \<Rightarrow> int64 \<Rightarrow> 'x mock_world \<Rightarrow> 'x mock_world" where
  "SetBudget r b w = set_runtime r (runtime_at r w\<lparr>mk_budget := b\<rparr>) w"

definition AddReceipt :: "nat \<Rightarrow> bytes \<Rightarrow> 'x mock_world \<Rightarrow> 'x mock_world" where
  "AddReceipt r data w = set_runtime r (runtime_at r w\<lparr>mk_receipts := mk_receipts (runtime_at r w) @ [data]\<rparr>) w"

definition SetNodePrice :: "nat \<Rightarrow> int64 \<Rightarrow> 'x mock_world \<Rightarrow> 'x mock_world" where
  "SetNodePrice r p w = set_runtime r (runtime_at r w\<lparr>mk_nodePrice := p\<rparr>) w"

definition SetHTTPHandler :: "nat \<Rightarrow> 'x HTTPHandler option \<Rightarrow> 'x mock_world \<Rightarrow> 'x mock_world" where
  "SetHTTPHandler r h w = set_runtime r (runtime_at r w\<lparr>mk_httpHandler := h\<rparr>) w"

definition SetPaymentHandler :: "nat \<Rightarrow> 'x PaymentHandler option \<Rightarrow> 'x mock_world \<Rightarrow> 'x mock_world" where
  "SetPaymentHandler r h w = set_runtime r (runtime_at r w\<lparr>mk_paymentHandler := h\<rparr>) w"

section \<open>The backend\<close>

definition mock_ClockNow :: "nat \<Rightarrow> 'x mock_world \<Rightarrow> int64 \<times> 'x mock_world" where
  "mock_ClockNow r w =
     (case mk_clock (runtime_at r w) of
        FixedClock start delta callCount \<Rightarrow>
          (start + callCount * delta, set_runtime r (runtime_at r w\<lparr>mk_clock := FixedClock start delta (callCount + 1)\<rparr>) w)
      | ClockFn f \<Rightarrow> (case f (mw_test w) of (v, x) \<Rightarrow> (v, w\<lparr>mw_test := x\<rparr>)))"

definition mock_RandBytes :: "nat \<Rightarrow> nat \<Rightarrow> 'x mock_world \<Rightarrow> bytes \<times> 'x mock_world" where
  "mock_RandBytes r n w =
     (case rand_fill n (mk_randSrc (runtime_at r w)) of
        (buf, src) \<Rightarrow> (buf, set_runtime r (runtime_at r w\<lparr>mk_randSrc := src\<rparr>) w))"

definition mock_LogEmit :: "nat \<Rightarrow> string \<Rightarrow> 'x mock_world \<Rightarrow> 'x mock_world" where
  "mock_LogEmit r msg w = set_runtime r (runtime_at r w\<lparr>mk_logs := mk_logs (runtime_at r w) @ [msg]\<rparr>) w"

definition mock_WalletReceipt :: "nat \<Rightarrow> int \<Rightarrow> 'x mock_world \<Rightarrow> bytes result" where
  "mock_WalletReceipt r index w =
     (if index < 0 \<or> index \<ge> int (length (mk_receipts (runtime_at r w)))
      then Inl (NewError (''receipt index '' @ dec_int index @ '' out of range''))
      else Inr (mk_receipts (runtime_at r w) ! nat index))"

definition mock_HTTPRequest ::
    "nat \<Rightarrow> string \<Rightarrow> string \<Rightarrow> (string \<times> string) list \<Rightarrow> bytes \<Rightarrow> 'x mock_world \<Rightarrow> (int \<times> bytes) result \<times> 'x mock_world" where
  "mock_HTTPRequest r verb url headers body w =
     (case mk_httpHandler (runtime_at r w) of
        Some handler \<Rightarrow> (case handler verb url headers body (mw_test w) of (res, x) \<Rightarrow> (res, w\<lparr>mw_test := x\<rparr>))
      | None \<Rightarrow> (Inl (NewError ''no HTTP handler configured (use SetHTTPHandler)''), w))"

definition mock_WalletPay :: "nat \<Rightarrow> int64 \<Rightarrow> string \<Rightarrow> string \<Rightarrow> 'x mock_world \<Rightarrow> bytes result \<times> 'x mock_world" where
  "mock_WalletPay r amount recipient memo w =
     (case mk_paymentHandler (runtime_at r w) of
        Some handler \<Rightarrow> (case handler amount recipient memo (mw_test w) of (res, x) \<Rightarrow> (res, w\<lparr>mw_test := x\<rparr>))
      | None \<Rightarrow>
          let budget = mk_budget (runtime_at r w) in
          if sint budget < sint amount
          then (Inl (NewError (''insufficient budget: have '' @ dec_int (sint budget) @ '', need '' @ dec_int (sint amount))), w)
          else (Inr (bytes_of_string ''mock-payment-receipt''), set_runtime r (runtime_at r w\<lparr>mk_budget := budget - amount\<rparr>) w))"

section \<open>The functions of the SDK in a native build\<close>

text \<open>The raw imports exist only in WebAssembly.\<close>

definition native_clockNow :: "int64 outcome" where
  "native_clockNow = Panicked ''igor: ClockNow requires WASM runtime (build with tinygo)''"

definition native_randBytes :: "uint32 \<Rightarrow> uint32 \<Rightarrow> int32 outcome" where
  "native_randBytes ptr len = Panicked ''igor: RandBytes requires WASM runtime (build with tinygo)''"

definition native_logEmit :: "uint32 \<Rightarrow> uint32 \<Rightarrow> unit outcome" where
  "native_logEmit ptr len = Panicked ''igor: Log requires WASM runtime (build with tinygo)''"

definition no_mock :: "string \<Rightarrow> 'a outcome" where
  "no_mock name = Panicked (''igor: '' @ name @ '' requires WASM runtime or mock (see sdk/igor/mock)'')"

definition stub_ClockNow :: "'x mock_world \<Rightarrow> int64 outcome \<times> 'x mock_world" where
  "stub_ClockNow w = (case mw_active w of Some r \<Rightarrow> apfst Returned (mock_ClockNow r w) | None \<Rightarrow> (no_mock ''ClockNow'', w))"

text \<open>The new contents of the buffer of the given length.\<close>

definition stub_RandBytes :: "nat \<Rightarrow> 'x mock_world \<Rightarrow> bytes outcome \<times> 'x mock_world" where
  "stub_RandBytes n w =
     (if n = 0 then (Returned [], w)
      else case mw_active w of Some r \<Rightarrow> apfst Returned (mock_RandBytes r n w) | None \<Rightarrow> (no_mock ''RandBytes'', w))"

definition stub_Log :: "string \<Rightarrow> 'x mock_world \<Rightarrow> unit outcome \<times> 'x mock_world" where
  "stub_Log msg w =
     (if length msg = 0 then (Returned (), w)
      else case mw_active w of Some r \<Rightarrow> (Returned (), mock_LogEmit r msg w) | None \<Rightarrow> (no_mock ''Log'', w))"

definition stub_WalletBalance :: "'x mock_world \<Rightarrow> int64 outcome" where
  "stub_WalletBalance w = (case mw_active w of Some r \<Rightarrow> Returned (mk_budget (runtime_at r w)) | None \<Rightarrow> no_mock ''WalletBalance'')"

definition stub_WalletReceiptCount :: "'x mock_world \<Rightarrow> int outcome" where
  "stub_WalletReceiptCount w =
     (case mw_active w of Some r \<Rightarrow> Returned (int (length (mk_receipts (runtime_at r w)))) | None \<Rightarrow> no_mock ''WalletReceiptCount'')"

definition stub_WalletReceipt :: "int \<Rightarrow> 'x mock_world \<Rightarrow> bytes result outcome" where
  "stub_WalletReceipt index w =
     (case mw_active w of Some r \<Rightarrow> Returned (mock_WalletReceipt r index w) | None \<Rightarrow> no_mock ''WalletReceipt'')"

definition stub_NodePrice :: "'x mock_world \<Rightarrow> int64 outcome" where
  "stub_NodePrice w = (case mw_active w of Some r \<Rightarrow> Returned (mk_nodePrice (runtime_at r w)) | None \<Rightarrow> no_mock ''NodePrice'')"

definition stub_HTTPRequest ::
    "string \<Rightarrow> string \<Rightarrow> (string \<times> string) list \<Rightarrow> bytes \<Rightarrow> 'x mock_world \<Rightarrow> (int \<times> bytes) result outcome \<times> 'x mock_world" where
  "stub_HTTPRequest verb url headers body w =
     (case mw_active w of Some r \<Rightarrow> apfst Returned (mock_HTTPRequest r verb url headers body w) | None \<Rightarrow> (no_mock ''HTTPRequest'', w))"

definition stub_HTTPGet :: "string \<Rightarrow> 'x mock_world \<Rightarrow> (int \<times> bytes) result outcome \<times> 'x mock_world" where
  "stub_HTTPGet url w = stub_HTTPRequest ''GET'' url [] [] w"

definition stub_HTTPPost :: "string \<Rightarrow> string \<Rightarrow> bytes \<Rightarrow> 'x mock_world \<Rightarrow> (int \<times> bytes) result outcome \<times> 'x mock_world" where
  "stub_HTTPPost url contentType body w = stub_HTTPRequest ''POST'' url [(''Content-Type'', contentType)] body w"

definition stub_WalletPay :: "int64 \<Rightarrow> string \<Rightarrow> string \<Rightarrow> 'x mock_world \<Rightarrow> bytes result outcome \<times> 'x mock_world" where
  "stub_WalletPay amount recipient memo w =
     (case mw_active w of Some r \<Rightarrow> apfst Returned (mock_WalletPay r amount recipient memo w) | None \<Rightarrow> (no_mock ''WalletPay'', w))"

section \<open>Agents in a native build\<close>

definition num_answer :: "int64 \<Rightarrow> sdk_answer" where
  "num_answer v = \<lparr>an_num = v, an_bytes = [], an_err = None\<rparr>"

definition bytes_answer :: "bytes result \<Rightarrow> sdk_answer" where
  "bytes_answer res = (case res of Inl e \<Rightarrow> \<lparr>an_num = 0, an_bytes = [], an_err = Some e\<rparr> | Inr b \<Rightarrow> \<lparr>an_num = 0, an_bytes = b, an_err = None\<rparr>)"

definition http_answer :: "(int \<times> bytes) result \<Rightarrow> sdk_answer" where
  "http_answer res = (case res of Inl e \<Rightarrow> \<lparr>an_num = 0, an_bytes = [], an_err = Some e\<rparr>
     | Inr (status, b) \<Rightarrow> \<lparr>an_num = word_of_int status, an_bytes = b, an_err = None\<rparr>)"

text \<open>A call of an agent's tree is a call of one of the functions above.\<close>

fun native_call :: "sdk_call \<Rightarrow> 'x mock_world \<Rightarrow> sdk_answer outcome \<times> 'x mock_world" where
  "native_call CallClockNow w = apfst (map_outcome num_answer) (stub_ClockNow w)"
| "native_call (CallRandBytes n) w = apfst (map_outcome (\<lambda>b. bytes_answer (Inr b))) (stub_RandBytes n w)"
| "native_call (CallLog msg) w = apfst (map_outcome (\<lambda>_. num_answer 0)) (stub_Log msg w)"
| "native_call CallWalletBalance w = (map_outcome num_answer (stub_WalletBalance w), w)"
| "native_call CallWalletReceiptCount w = (map_outcome (\<lambda>n. num_answer (word_of_int n)) (stub_WalletReceiptCount w), w)"
| "native_call (CallWalletReceipt index) w = (map_outcome bytes_answer (stub_WalletReceipt index w), w)"
| "native_call CallNodePrice w = (map_outcome num_answer (stub_NodePrice w), w)"
| "native_call (CallHTTPRequest verb url headers body) w = apfst (map_outcome http_answer) (stub_HTTPRequest verb url headers body w)"
| "native_call (CallWalletPay amount recipient memo) w = apfst (map_outcome bytes_answer) (stub_WalletPay amount recipient memo w)"

primrec native_run :: "'a io \<Rightarrow> 'x mock_world \<Rightarrow> 'a outcome \<times> 'x mock_world" where
  "native_run (Done x) w = (Returned x, w)"
| "native_run (Panic msg) w = (Panicked msg, w)"
| "native_run (Ask c k) w =
     (case native_call c w of
        (Returned a, w') \<Rightarrow> native_run (k a) w'
      | (Panicked msg, w') \<Rightarrow> (Panicked msg, w')
      | (Stopped, w') \<Rightarrow> (Stopped, w'))"

section \<open>What a test sees\<close>

text \<open>The observations of a trace: the messages logged, the readings of the clock, the amounts of the payments that were made.\<close>

definition logged :: "sdk_trace \<Rightarrow> string list" where
  "logged tr = concat (map (\<lambda>(c, a). case c of CallLog msg \<Rightarrow> if msg = [] then [] else [msg] | _ \<Rightarrow> []) tr)"

definition readings :: "sdk_trace \<Rightarrow> int64 list" where
  "readings tr = concat (map (\<lambda>(c, a). case c of CallClockNow \<Rightarrow> [an_num a] | _ \<Rightarrow> []) tr)"

definition payments :: "sdk_trace \<Rightarrow> int64 list" where
  "payments tr = concat (map (\<lambda>(c, a). case c of CallWalletPay amount _ _ \<Rightarrow> if an_err a = None then [amount] else [] | _ \<Rightarrow> []) tr)"

lemma observations_simps [simp]:
  "logged [] = []" "logged ((c, a) # tr) = (case c of CallLog msg \<Rightarrow> if msg = [] then [] else [msg] | _ \<Rightarrow> []) @ logged tr"
  "readings [] = []" "readings ((c, a) # tr) = (case c of CallClockNow \<Rightarrow> [an_num a] | _ \<Rightarrow> []) @ readings tr"
  "payments [] = []"
  "payments ((c, a) # tr) = (case c of CallWalletPay amount _ _ \<Rightarrow> if an_err a = None then [amount] else [] | _ \<Rightarrow> []) @ payments tr"
  by (simp_all add: logged_def readings_def payments_def)

lemma observations_append [simp]:
  "logged (tr @ tr') = logged tr @ logged tr'" "readings (tr @ tr') = readings tr @ readings tr'" "payments (tr @ tr') = payments tr @ payments tr'"
  by (simp_all add: logged_def readings_def payments_def)

text \<open>What the runtime \<open>r\<close> has recorded between two states, for the calls and answers \<open>tr\<close>: the messages; the readings of a fixed clock, which
  advances by its step; without a payment handler, the payments, each deducted from the budget.  Other runtimes are not touched.\<close>

definition clock_observed :: "sdk_trace \<Rightarrow> 'x mock_clock \<Rightarrow> 'x mock_clock \<Rightarrow> bool" where
  "clock_observed tr ck ck' \<longleftrightarrow> (\<forall>start delta n. ck = FixedClock start delta n \<longrightarrow>
     readings tr = map (\<lambda>i. start + (n + of_nat i) * delta) [0..<length (readings tr)] \<and> ck' = FixedClock start delta (n + of_nat (length (readings tr))))"

definition budget_observed :: "sdk_trace \<Rightarrow> int64 \<Rightarrow> int64 \<Rightarrow> bool" where
  "budget_observed tr b b' \<longleftrightarrow> b' = b - sum_list (payments tr) \<and>
     (0 \<le> sint b \<and> (\<forall>p\<in>set (payments tr). 0 \<le> sint p) \<longrightarrow> sint b' = sint b - (\<Sum>p\<leftarrow>payments tr. sint p) \<and> 0 \<le> sint b')"

definition runtime_observed :: "sdk_trace \<Rightarrow> 'x Runtime \<Rightarrow> 'x Runtime \<Rightarrow> bool" where
  "runtime_observed tr x x' \<longleftrightarrow> mk_logs x' = mk_logs x @ logged tr \<and> clock_observed tr (mk_clock x) (mk_clock x') \<and>
     (mk_paymentHandler x = None \<longrightarrow> mk_paymentHandler x' = None \<and> budget_observed tr (mk_budget x) (mk_budget x'))"

definition observed_by :: "nat \<Rightarrow> sdk_trace \<Rightarrow> 'x mock_world \<Rightarrow> 'x mock_world \<Rightarrow> bool" where
  "observed_by r tr w w' \<longleftrightarrow> mw_active w' = mw_active w \<and> length (mw_runtimes w') = length (mw_runtimes w) \<and>
     (\<forall>q. q \<noteq> r \<longrightarrow> runtime_at q w' = runtime_at q w) \<and> runtime_observed tr (runtime_at r w) (runtime_at r w')"

lemma map_upt_shift: "map f [0..<m] @ map (\<lambda>i. f (m + i)) [0..<n] = map f [0..<m + n]"
  by (induction n) simp_all

lemma clock_observed_trans:
  assumes "clock_observed tr ck ck1" "clock_observed tr' ck1 ck2"
  shows "clock_observed (tr @ tr') ck ck2"
  unfolding clock_observed_def
proof (intro allI impI)
  fix start delta n assume "ck = FixedClock start delta n"
  with assms(1) have 1: "readings tr = map (\<lambda>i. start + (n + of_nat i) * delta) [0..<length (readings tr)]"
    "ck1 = FixedClock start delta (n + of_nat (length (readings tr)))" by (simp_all add: clock_observed_def)
  with assms(2) have 2: "readings tr' = map (\<lambda>i. start + (n + of_nat (length (readings tr) + i)) * delta) [0..<length (readings tr')]"
    "ck2 = FixedClock start delta (n + of_nat (length (readings tr) + length (readings tr')))"
    by (simp_all add: clock_observed_def add.assoc)
  have "readings (tr @ tr') = map (\<lambda>i. start + (n + of_nat i) * delta) [0..<length (readings tr) + length (readings tr')]"
    unfolding observations_append map_upt_shift [symmetric] by (subst 1(1), subst 2(1)) (rule refl)
  with 2(2) show "readings (tr @ tr') = map (\<lambda>i. start + (n + of_nat i) * delta) [0..<length (readings (tr @ tr'))] \<and>
      ck2 = FixedClock start delta (n + of_nat (length (readings (tr @ tr'))))" by simp
qed

lemma budget_observed_trans: "budget_observed tr b b1 \<Longrightarrow> budget_observed tr' b1 b2 \<Longrightarrow> budget_observed (tr @ tr') b b2"
  by (auto simp: budget_observed_def)

lemma observed_by_trans: "observed_by r tr w w1 \<Longrightarrow> observed_by r tr' w1 w2 \<Longrightarrow> observed_by r (tr @ tr') w w2"
  by (auto simp: observed_by_def runtime_observed_def intro: clock_observed_trans budget_observed_trans)

lemma observed_by_refl [simp]: "observed_by r [] w w"
  by (simp add: observed_by_def runtime_observed_def clock_observed_def budget_observed_def)

lemma runtime_at_set [simp]:
  "r < length (mw_runtimes w) \<Longrightarrow> runtime_at q (set_runtime r x w) = (if q = r then x else runtime_at q w)"
  "mw_active (set_runtime r x w) = mw_active w" "length (mw_runtimes (set_runtime r x w)) = length (mw_runtimes w)"
  "runtime_at q (w\<lparr>mw_test := y\<rparr>) = runtime_at q w"
  by (simp_all add: runtime_at_def set_runtime_def)

lemma deduct_observed:
  assumes "sint amount \<le> sint b" "0 \<le> sint b" "0 \<le> sint (amount :: int64)"
  shows "sint (b - amount) = sint b - sint amount"
proof (rule sint64_sub)
  show "sint b - sint amount \<le> MaxInt64" using assms sint_lt [of b] by simp
qed (use assms in simp)

lemma native_call_observed:
  assumes "mw_active w = Some r" "r < length (mw_runtimes w)"
  obtains a w' where "native_call c w = (Returned a, w')" "observed_by r [(c, a)] w w'"
proof -
  have "\<exists>a w'. native_call c w = (Returned a, w') \<and> observed_by r [(c, a)] w w'"
  proof (cases c)
    case CallClockNow
    with assms show ?thesis
      by (auto simp: stub_ClockNow_def mock_ClockNow_def num_answer_def observed_by_def runtime_observed_def clock_observed_def budget_observed_def
          split: mock_clock.split prod.split)
  next
    case (CallWalletPay amount recipient memo)
    with assms show ?thesis
      by (cases "mk_paymentHandler (runtime_at r w)")
        (simp_all add: stub_WalletPay_def mock_WalletPay_def bytes_answer_def observed_by_def runtime_observed_def clock_observed_def
          budget_observed_def deduct_observed Let_def split: sum.split prod.split)
  qed (use assms in \<open>auto simp: stub_RandBytes_def stub_Log_def stub_WalletBalance_def stub_WalletReceiptCount_def stub_WalletReceipt_def
      stub_NodePrice_def stub_HTTPRequest_def mock_RandBytes_def mock_LogEmit_def mock_HTTPRequest_def
      observed_by_def runtime_observed_def clock_observed_def budget_observed_def split: option.split prod.split\<close>)
  then show thesis using that by blast
qed

lemma native_run_follow:
  assumes "mw_active w = Some r" "r < length (mw_runtimes w)" "native_run t w = (out, w')"
  shows "\<exists>as tr. follow t as = (tr, out) \<and> out \<noteq> Stopped \<and> observed_by r tr w w'"
  using assms
proof (induction t arbitrary: w)
  case (Ask c k)
  from native_call_observed [OF Ask.prems(1,2)] obtain a w1 where a: "native_call c w = (Returned a, w1)" "observed_by r [(c, a)] w w1" by blast
  then have "mw_active w1 = Some r" "r < length (mw_runtimes w1)" "native_run (k a) w1 = (out, w')"
    using Ask.prems by (simp_all add: observed_by_def)
  from Ask.IH [OF rangeI this] obtain as tr where f: "follow (k a) as = (tr, out)" "out \<noteq> Stopped" "observed_by r tr w1 w'" by blast
  then have "follow (Ask c k) (a # as) = ((c, a) # tr, out)" by simp
  moreover have "observed_by r ((c, a) # tr) w w'" using observed_by_trans [OF a(2) f(3)] by simp
  ultimately show ?case using f(2) by blast
qed (auto intro: exI)

text \<open>
  C19 A native test observes a run of the agent.  Set up a test the way the package documents it: a deterministic runtime with a budget, enabled.  Whatever
  an agent then does, it is a run of its tree against some answers that does not stop half-way, and the runtime reports it exactly: the log is the
  non-empty messages of the run in order, the clock has shown the start time and then one second more per reading, the budget is what was set less
  the payments that succeeded and, when no amount was negative, is not negative itself; and no other runtime is touched.
\<close>

theorem mock_test_observes_run:
  assumes "NewDeterministic clockStartNano randSeed w0 = (r, w1)"
    and "mock_Enable r (SetBudget r budget w1) = (cleanup, w)" "native_run t w = (out, w')" "0 \<le> sint budget"
  shows "\<exists>as tr. follow t as = (tr, out) \<and> out \<noteq> Stopped \<and> mock_Logs r w' = logged tr \<and>
    readings tr = map (\<lambda>i. clockStartNano + of_nat i * 1000000000) [0..<length (readings tr)] \<and>
    mk_budget (runtime_at r w') = budget - sum_list (payments tr) \<and>
    ((\<forall>p\<in>set (payments tr). 0 \<le> sint p) \<longrightarrow> 0 \<le> sint (mk_budget (runtime_at r w'))) \<and>
    (\<forall>q. q \<noteq> r \<longrightarrow> runtime_at q w' = runtime_at q w)"
proof -
  define x :: "'a Runtime" where "x = zero_runtime (FixedClock clockStartNano 1000000000 0) (NewPCG randSeed randSeed)"
  from assms(1) have r: "r = length (mw_runtimes w0)" "w1 = w0\<lparr>mw_runtimes := mw_runtimes w0 @ [x]\<rparr>"
    by (auto simp: NewDeterministic_def alloc_runtime_def x_def)
  then have w1: "r < length (mw_runtimes w1)" "runtime_at r w1 = x" by (simp_all add: runtime_at_def)
  with assms(2) have w: "mw_active w = Some r" "r < length (mw_runtimes w)" "runtime_at r w = x\<lparr>mk_budget := budget\<rparr>"
    by (auto simp: mock_Enable_def SetMockBackend_def SetBudget_def set_runtime_def runtime_at_def)
  from native_run_follow [OF w(1,2) assms(3)] obtain as tr where f: "follow t as = (tr, out)" "out \<noteq> Stopped" "observed_by r tr w w'" by blast
  then have o: "runtime_observed tr (x\<lparr>mk_budget := budget\<rparr>) (runtime_at r w')" "\<forall>q. q \<noteq> r \<longrightarrow> runtime_at q w' = runtime_at q w"
    using w(3) by (simp_all add: observed_by_def)
  then have b: "mock_Logs r w' = logged tr" "clock_observed tr (FixedClock clockStartNano 1000000000 0) (mk_clock (runtime_at r w'))"
    "budget_observed tr budget (mk_budget (runtime_at r w'))"
    by (simp_all add: runtime_observed_def mock_Logs_def x_def zero_runtime_def)
  from b(2) have "readings tr = map (\<lambda>i. clockStartNano + of_nat i * 1000000000) [0..<length (readings tr)]" by (simp add: clock_observed_def)
  with f(1,2) o(2) b(1,3) assms(4) show ?thesis unfolding budget_observed_def by blast
qed

text \<open>Without a backend the first call panics.\<close>

lemma no_mock_panics:
  assumes "mw_active w = None" "c \<noteq> CallLog []" "c \<noteq> CallRandBytes 0"
  shows "\<exists>msg. native_run (Ask c k) w = (Panicked msg, w)"
  using assms
  by (cases c) (auto simp: stub_ClockNow_def stub_RandBytes_def stub_Log_def stub_WalletBalance_def stub_WalletReceiptCount_def stub_WalletReceipt_def
      stub_NodePrice_def stub_HTTPRequest_def stub_WalletPay_def no_mock_def)

text \<open>Disabling one runtime also uninstalls another that has been enabled since.\<close>

theorem Disable_uninstalls_any:
  "mw_active (fst (mock_Enable r w) (snd (mock_Enable q (snd (mock_Enable r w))))) = None"
  by (simp add: mock_Enable_def mock_Disable_def SetMockBackend_def)

text \<open>The host refuses a payment that is not positive; the mock takes a negative one and credits it.\<close>

theorem mock_credits_negative_payment:
  assumes "mw_active w = Some r" "r < length (mw_runtimes w)" "mk_paymentHandler (runtime_at r w) = None"
    and "sint amount < 0" "0 \<le> sint (mk_budget (runtime_at r w))" "sint (mk_budget (runtime_at r w)) - sint amount \<le> MaxInt64"
  shows "\<exists>w'. stub_WalletPay amount recipient memo w = (Returned (Inr (bytes_of_string ''mock-payment-receipt'')), w') \<and>
    sint (mk_budget (runtime_at r w')) = sint (mk_budget (runtime_at r w)) - sint amount \<and>
    sint (mk_budget (runtime_at r w)) < sint (mk_budget (runtime_at r w'))"
proof -
  have "sint (mk_budget (runtime_at r w) - amount) = sint (mk_budget (runtime_at r w)) - sint amount"
    using assms(4-6) by (intro sint64_sub) simp_all
  with assms show ?thesis by (simp add: stub_WalletPay_def mock_WalletPay_def Let_def)
qed

section \<open>An example test\<close>

text \<open>An agent that reads the clock twice, pays and logs.\<close>

definition example_tree :: "int64 io" where
  "example_tree = sdk_ClockNow (\<lambda>t0. sdk_ClockNow (\<lambda>t1. sdk_WalletPay 30 ''shop'' ''tea'' (\<lambda>_. sdk_Log ''paid'' (Done (t1 - t0)))))"

definition empty_mocks :: "unit mock_world" where
  "empty_mocks = \<lparr>mw_runtimes = [], mw_active = None, mw_test = ()\<rparr>"

definition example_test :: "unit mock_world" where
  "example_test = snd (mock_Enable 0 (SetBudget 0 100 (snd (NewDeterministic 5 42 empty_mocks))))"

theorem mock_test_observes_run_witness:
  "fst (native_run example_tree example_test) = Returned 1000000000 \<and>
   (\<exists>tr. mock_Logs 0 (snd (native_run example_tree example_test)) = logged tr \<and> logged tr = [''paid''] \<and>
     mk_budget (runtime_at 0 (snd (native_run example_tree example_test))) = 100 - sum_list (payments tr))"
proof -
  obtain w1 where w1: "NewDeterministic 5 42 empty_mocks = (0, w1)" "w1 = snd (NewDeterministic 5 42 empty_mocks)"
    by (simp add: NewDeterministic_def alloc_runtime_def empty_mocks_def)
  have e: "mock_Enable 0 (SetBudget 0 100 w1) = (fst (mock_Enable 0 (SetBudget 0 100 w1)), example_test)"
    by (simp add: example_test_def w1(2))
  obtain out w' where r: "native_run example_tree example_test = (out, w')" by fastforce
  have v: "out = Returned 1000000000" "mock_Logs 0 w' = [''paid'']"
    using r by (auto simp: example_tree_def example_test_def mock_Enable_def SetMockBackend_def SetBudget_def NewDeterministic_def alloc_runtime_def
        empty_mocks_def zero_runtime_def runtime_at_def set_runtime_def sdk_ClockNow_def sdk_WalletPay_def sdk_Log_def stub_ClockNow_def mock_ClockNow_def
        stub_WalletPay_def mock_WalletPay_def stub_Log_def mock_LogEmit_def num_answer_def mock_Logs_def Let_def)
  from mock_test_observes_run [OF w1(1) e r] v show ?thesis by (auto simp: r)
qed

theorem mock_credits_negative_payment_witness:
  "\<exists>w'. stub_WalletPay (- 7) ''shop'' '''' example_test = (Returned (Inr (bytes_of_string ''mock-payment-receipt'')), w') \<and>
    sint (mk_budget (runtime_at 0 w')) = 107"
proof -
  have "mw_active example_test = Some 0" "0 < length (mw_runtimes example_test)" "mk_paymentHandler (runtime_at 0 example_test) = None"
    "mk_budget (runtime_at 0 example_test) = 100"
    by (simp_all add: example_test_def mock_Enable_def SetMockBackend_def SetBudget_def NewDeterministic_def alloc_runtime_def
        empty_mocks_def zero_runtime_def runtime_at_def set_runtime_def)
  with mock_credits_negative_payment [of example_test 0 "- 7" "''shop''" "''''"] show ?thesis by auto
qed

end
