(* ===== verification/Demo.thy ===== *)
theory Demo
  imports Runner MigrationSafe Reconciler
begin

text \<open>
  The incident reports of \<open>src/internal/timeline\<close> and the reconciliation demo \<open>src/agents/research/reconciliation/cmd/demo\<close> that writes one: it
  ticks the reconciler on one node, saves it, migrates it to a second node, ticks it to its end there, replays what the second node
  recorded, and turns the log lines of both event logs into a timeline.  Text is bytes, so that the marks and dashes of the report are
  written as their UTF-8 encodings.  What the demo prints while it runs is left out; the report is the result.
\<close>

section \<open>Timelines\<close>

datatype EventKind = KindStateChange | KindCheckpoint | KindCrash | KindMigration | KindReplay | KindSideEffect
  | KindSkippedAction | KindCompletion | KindInfo

record Event =
  te_Timestamp :: instant
  te_Node :: string
  te_TickNumber :: uint64
  te_Kind :: EventKind
  te_Summary :: string
  te_Details :: "string list"

record SafetyCheck =
  ck_Label :: string
  ck_Passed :: bool

record Timeline =
  tm_CaseID :: string
  tm_AgentID :: string
  tm_Events :: "Event list"

definition timeline_New :: "string \<Rightarrow> string \<Rightarrow> Timeline" where
  "timeline_New caseID agentID = \<lparr>tm_CaseID = caseID, tm_AgentID = agentID, tm_Events = []\<rparr>"

definition timeline_Add :: "Event \<Rightarrow> Timeline \<Rightarrow> Timeline" where
  "timeline_Add ev t = t\<lparr>tm_Events := tm_Events t @ [ev]\<rparr>"

definition separator :: string where
  "separator = ''===============================================================''"

definition cross_mark :: string where "cross_mark = [CHR 0xE2, CHR 0x9C, CHR 0x97]"
definition check_mark :: string where "check_mark = [CHR 0xE2, CHR 0x9C, CHR 0x93]"
definition em_dash :: string where "em_dash = [CHR 0xE2, CHR 0x80, CHR 0x94]"

text \<open>\<open>Format("15:04:05")\<close> of an instant, in a time zone that is \<open>zone\<close> seconds ahead of UTC.\<close>

definition clock_time :: "int \<Rightarrow> instant \<Rightarrow> string" where
  "clock_time zone t =
     (let s = (t div 1000000000 + zone) mod 86400
      in pad_int 2 (s div 3600) @ '':'' @ pad_int 2 (s div 60 mod 60) @ '':'' @ pad_int 2 (s mod 60))"

text \<open>The writers return the lines they write.\<close>

definition event_lines :: "int \<Rightarrow> Event \<Rightarrow> string list" where
  "event_lines zone ev =
     (let ts = clock_time zone (te_Timestamp ev);
          prefix = (if te_Kind ev = KindCrash then '' '' @ cross_mark else '' '')
      in (prefix @ '' '' @ ts @ ''  '' @ te_Summary ev) # map (\<lambda>detail. ''            '' @ detail) (te_Details ev) @ [''''])"

definition Render :: "int \<Rightarrow> Timeline \<Rightarrow> string list" where
  "Render zone t =
     ['''', separator, '' INCIDENT TIMELINE '' @ em_dash @ '' Case '' @ tm_CaseID t, '' Agent: '' @ tm_AgentID t,
      '' Generated by Igor replay engine'', separator, ''''] @ concat (map (event_lines zone) (tm_Events t))"

definition RenderSafetySummary :: "SafetyCheck list \<Rightarrow> string list" where
  "RenderSafetySummary checks =
     [separator, '' SAFETY SUMMARY''] @
     map (\<lambda>check. '' '' @ (if \<not> ck_Passed check then cross_mark else check_mark) @ '' '' @ ck_Label check) checks @
     [separator, '''']"

definition RenderComparison :: "string list" where
  "RenderComparison =
     (let rule = concat (replicate 63 em_dash) in
      ['''', rule, '' COMPARISON: Naive Worker vs Igor'', rule, '''',
       '' Naive Worker (typical automation):'', '''',
       ''   Finalize called'', ''   Process crashed'', ''   Process restarted'',
       ''   State unclear '' @ em_dash @ '' did finalize go through?'', ''   Options:'',
       ''     a) Retry finalize  -> risk: double execution'',
       ''     b) Skip finalize   -> risk: stuck transaction'',
       ''     c) Wake up human   -> cost: hours of investigation'', '''',
       '' Igor Worker:'', '''',
       ''   Finalize intent recorded with idempotency key'', ''   Node failed'',
       ''   Agent migrated, resumed from checkpoint'',
       ''   Replay verified '' @ em_dash @ '' intent already committed, skip duplicate'',
       ''   Ack received, case completed'',
       ''   Timeline generated '' @ em_dash @ '' full incident proof'', '''', rule, ''''])"

section \<open>Log lines into events\<close>

text \<open>The positions the loop tries are those where the text is long enough.\<close>

definition demo_indexOf :: "string \<Rightarrow> string \<Rightarrow> int" where
  "demo_indexOf s substr =
     (case find (\<lambda>i. take (length substr) (drop i s) = substr) [0..<Suc (length s) - length substr] of None \<Rightarrow> -1 | Some i \<Rightarrow> int i)"

definition contains :: "string \<Rightarrow> string \<Rightarrow> bool" where
  "contains s substr \<longleftrightarrow> demo_indexOf s substr \<ge> 0"

definition extractField :: "string \<Rightarrow> string \<Rightarrow> string \<Rightarrow> string" where
  "extractField msg prefix suffix =
     (let idx = demo_indexOf msg prefix in
      if idx < 0 then ''''
      else let start = nat idx + length prefix in
        if suffix = '''' then drop start msg
        else let e = demo_indexOf (drop start msg) suffix in
          if e < 0 then drop start msg else take (nat e) (drop start msg))"

definition stripPrefix :: "string \<Rightarrow> string" where
  "stripPrefix msg =
     (let prefix = ''[reconciler] ''; idx = demo_indexOf msg prefix
      in if idx \<ge> 0 then drop (nat idx + length prefix) msg else msg)"

text \<open>The first complete reading of the clock; \<open>now\<close> is read when there is none.\<close>

definition extractTimestamp :: "instant \<Rightarrow> TickLog \<Rightarrow> instant" where
  "extractTimestamp now tml =
     (case find (\<lambda>(hid, payload). hid = ClockNow \<and> length payload \<ge> 8) (Entries tml) of
        Some (_, payload) \<Rightarrow> sint (get_u64 (take 8 payload) :: int64)
      | None \<Rightarrow> now)"

definition logToEvent :: "string \<Rightarrow> instant \<Rightarrow> string \<Rightarrow> uint64 \<Rightarrow> Event option" where
  "logToEvent msg ts node tick =
     (let ev = (\<lambda>kind summary details. Some \<lparr>te_Timestamp = ts, te_Node = node, te_TickNumber = tick, te_Kind = kind,
                   te_Summary = summary, te_Details = details\<rparr>)
      in if contains msg ''Case'' \<and> contains msg ''detected'' then ev KindStateChange (stripPrefix msg) [''State: DetectedPendingTransfer'']
      else if contains msg ''Confirmation threshold met'' then ev KindStateChange (stripPrefix msg) []
      else if contains msg ''State:'' \<and> contains msg ''->'' then ev KindStateChange (stripPrefix msg) []
      else if contains msg ''Finalize intent recorded'' then ev KindSideEffect ''Finalize intent recorded'' []
      else if contains msg ''Idempotency key'' then ev KindInfo (stripPrefix msg) []
      else if contains msg ''Finalize EXECUTED'' then ev KindSideEffect (stripPrefix msg) []
      else if contains msg ''Finalize action SKIPPED'' then ev KindSkippedAction ''Finalize action SKIPPED'' []
      else if contains msg ''Reason:'' \<and> contains msg ''already committed''
        then ev KindSkippedAction (stripPrefix msg) [''No duplicate execution'']
      else if contains msg ''Acknowledgment received'' then ev KindStateChange (stripPrefix msg) []
      else if contains msg ''Case'' \<and> contains msg ''completed'' then ev KindCompletion (stripPrefix msg) []
      else if contains msg ''Side effects executed'' then ev KindCompletion (stripPrefix msg) []
      else if contains msg ''Total processing time'' then ev KindInfo (stripPrefix msg) []
      else None)"

primrec add_entries :: "instant \<Rightarrow> string \<Rightarrow> uint64 \<Rightarrow> Entry list \<Rightarrow> Timeline \<Rightarrow> Timeline" where
  "add_entries ts node tick [] tml = tml"
| "add_entries ts node tick (e # es) tml =
     (if fst e \<noteq> LogEmit then add_entries ts node tick es tml
      else case logToEvent (string_of_bytes (snd e)) ts node tick of
        None \<Rightarrow> add_entries ts node tick es tml
      | Some ev \<Rightarrow> add_entries ts node tick es (timeline_Add ev tml))"

text \<open>\<open>now\<close> gives, per tick log, the time read when the log has none.\<close>

primrec addEventsFromHistory :: "(nat \<Rightarrow> instant) \<Rightarrow> TickLog list \<Rightarrow> string \<Rightarrow> Timeline \<Rightarrow> Timeline" where
  "addEventsFromHistory now [] node tml = tml"
| "addEventsFromHistory now (tickLog # history) node tml =
     addEventsFromHistory (\<lambda>n. now (Suc n)) history node
       (add_entries (extractTimestamp (now 0) tickLog) node (tl_TickNumber tickLog) (Entries tickLog) tml)"

text \<open>The last log line that names a case.\<close>

definition find_caseID :: "TickLog list \<Rightarrow> string" where
  "find_caseID history =
     fold (\<lambda>(hid, payload) caseID.
         if hid = LogEmit
         then let f = extractField (string_of_bytes payload) ''Case '' '' detected'' in if f \<noteq> '''' then f else caseID
         else caseID)
       (concat (map Entries history)) ''unknown''"

abbreviation demo_agentID :: string where "demo_agentID \<equiv> ''bridge-reconciler''"
abbreviation crashAfterTick :: nat where "crashAfterTick \<equiv> 9"
abbreviation totalPreCrashTicks :: nat where "totalPreCrashTicks \<equiv> 9"

definition plain_event :: "instant \<Rightarrow> string \<Rightarrow> EventKind \<Rightarrow> string \<Rightarrow> string list \<Rightarrow> Event" where
  "plain_event ts node kind summary details =
     \<lparr>te_Timestamp = ts, te_Node = node, te_TickNumber = 0, te_Kind = kind, te_Summary = summary, te_Details = details\<rparr>"

record report_clock =
  rk_pre :: "nat \<Rightarrow> instant"
  rk_crash :: instant
  rk_post :: "nat \<Rightarrow> instant"

definition buildTimeline ::
    "report_clock \<Rightarrow> TickLog list \<Rightarrow> TickLog list \<Rightarrow> string \<Rightarrow> bool \<Rightarrow> nat \<Rightarrow> Timeline" where
  "buildTimeline now preCrashHistory postResumeHistory leaseEpoch replayPassed replayedTicks =
     (let tml = timeline_New (find_caseID preCrashHistory) demo_agentID;
          tml = addEventsFromHistory (rk_pre now) preCrashHistory ''node-a'' tml;
          crashTime = (if length preCrashHistory > 0 then time_Add (extractTimestamp (rk_crash now) (last preCrashHistory)) Second else rk_crash now);
          tml = timeline_Add (plain_event crashTime ''node-a'' KindCheckpoint (''Checkpoint #'' @ dec_nat crashAfterTick @ '' written'') []) tml;
          crashTime = time_Add crashTime Second;
          tml = timeline_Add (plain_event crashTime ''node-a'' KindCrash ''HOST NODE FAILURE''
                 [''Node node-a became unreachable'', ''Last confirmed checkpoint: #'' @ dec_nat crashAfterTick]) tml;
          migTime = time_Add crashTime (3 * Second);
          tml = timeline_Add (plain_event migTime ''node-b'' KindMigration ''Agent migrated to node-b''
                 [''Lease epoch: '' @ leaseEpoch, ''Checkpoint #'' @ dec_nat crashAfterTick @ '' loaded and verified'']) tml;
          replayTime = time_Add migTime Second;
          replayStatus = (if \<not> replayPassed then ''FAILED'' else ''PASSED'');
          tml = timeline_Add (plain_event replayTime ''node-b'' KindReplay (''Replay verification '' @ replayStatus)
                 [dec_nat replayedTicks @ '' ticks replayed deterministically'', ''State hash match confirmed'']) tml
      in addEventsFromHistory (rk_post now) postResumeHistory ''node-b'' tml)"

section \<open>The demo\<close>

text \<open>\<open>verifyReplay\<close> goes through the window once: whether all replays agreed, and how many did not fail.\<close>

fun replay_window ::
    "('m, 's, 'a) system \<Rightarrow> unit result \<Rightarrow> 'm engine \<Rightarrow> 'm Instance \<Rightarrow> bool \<Rightarrow> nat \<Rightarrow> TickSnapshot list \<Rightarrow> bool \<times> nat" where
  "replay_window S wasi E i passed verified [] = (passed, verified)"
| "replay_window S wasi E i passed verified (snap # snaps) =
     (case sn_TickLog snap of
        None \<Rightarrow> replay_window S wasi E i passed verified snaps
      | Some tk \<Rightarrow>
        let result = ReplayTick (sy_fuel S) (sy_tickFuel S) (sy_guest S) wasi E (in_WASMBytes i) (Some (in_Manifest i)) (sn_PreState snap) tk None
        in if rr_Error result \<noteq> None then replay_window S wasi E i False verified snaps
           else if Sum256 (sy_crypto S) (rr_ReplayedState result) \<noteq> sn_PostStateHash snap
           then replay_window S wasi E i False (Suc verified) snaps
           else replay_window S wasi E i passed (Suc verified) snaps)"

definition verifyReplay :: "('m, 's, 'a) system \<Rightarrow> unit result \<Rightarrow> 'm engine \<Rightarrow> 'm Instance \<Rightarrow> bool \<times> nat" where
  "verifyReplay S wasi E instB = replay_window S wasi E instB True 0 (in_ReplayWindow instB)"

text \<open>The loop ends when a tick has no more work, which need not happen: the elapsed times are those of the ticks that were observed, and
  \<open>None\<close> says that the loop is still running after them.\<close>

fun resumeAndTick ::
    "('m, 's, 'a) system \<Rightarrow> int64 \<Rightarrow> int64 list \<Rightarrow> 'm Instance \<Rightarrow> ('s, 'a) world \<Rightarrow>
     (TickLog list result \<times> 'm Instance \<times> ('s, 'a) world) option" where
  "resumeAndTick S now [] i w = None"
| "resumeAndTick S now (elapsed # es) i w =
     (case Tick S elapsed i w of
        (Inl e, i, w) \<Rightarrow> Some (Inl (WrapError ''tick on node-b'' e), i, w)
      | (Inr hasMore, i, w) \<Rightarrow>
          if hasMore then resumeAndTick S now es i w
          else case SaveCheckpointToStorage S now i w of
            (Inl e, i, w) \<Rightarrow> Some (Inl (WrapError ''save final checkpoint'' e), i, w)
          | (Inr _, i, w) \<Rightarrow> Some (Inr (History (in_EventLog i)), i, w))"

primrec demo_ticks ::
    "('m, 's, 'a) system \<Rightarrow> (nat \<Rightarrow> int64) \<Rightarrow> nat \<Rightarrow> nat \<Rightarrow> 'm Instance \<Rightarrow> ('s, 'a) world \<Rightarrow> unit result \<times> 'm Instance \<times> ('s, 'a) world" where
  "demo_ticks S elapsed 0 n i w = (Inr (), i, w)"
| "demo_ticks S elapsed (Suc k) n i w =
     (case Tick S (elapsed n) i w of
        (Inl e, i, w) \<Rightarrow> (Inl (WrapError (''tick '' @ dec_nat (n + 1)) e), i, w)
      | (Inr _, i, w) \<Rightarrow> demo_ticks S elapsed k (Suc n) i w)"

text \<open>The migration services of the demo's nodes verify every replay and use the default leases.\<close>

definition demo_service :: "('m, 's, 'a) Service \<Rightarrow> ('m, 's, 'a) Service" where
  "demo_service sv = sv\<lparr>ms_replayMode := ''full'', ms_pricePerSecond := 1000, ms_leaseConfig := DefaultLeaseConfig\<rparr>"

definition quoted :: "string \<Rightarrow> string" where
  "quoted s = [CHR 0x22] @ s @ [CHR 0x22]"

definition demo_manifest :: bytes where
  "demo_manifest = bytes_of_string
     (''{'' @ quoted ''capabilities'' @ '':{'' @ quoted ''clock'' @ '':{'' @ quoted ''version'' @ '':1},'' @ quoted ''rand'' @ '':{'' @ quoted ''version'' @
      '':1},'' @ quoted ''log'' @ '':{'' @ quoted ''version'' @ '':1}},'' @ quoted ''migration_policy'' @ '':{'' @ quoted ''enabled'' @ '':true}}'')"

text \<open>What happens around a demo: the times that are read, and what becomes of the transfer between the nodes; when it is confirmed,
  the confirmation is what the second node answers.\<close>

record demo_inputs =
  dm_leased :: instant
  dm_elapsedA :: "nat \<Rightarrow> int64"
  dm_savedA :: int64
  dm_transfer :: transfer_outcome
  dm_targetAddr :: string
  dm_arrived :: instant
  dm_elapsedB :: "int64 list"
  dm_savedB :: int64
  dm_clock :: report_clock

record ('m, 's, 'a) demo_report =
  dr_timeline :: Timeline
  dr_checks :: "SafetyCheck list"
  dr_nodeA :: "('m, 's, 'a) node"
  dr_nodeB :: "('m, 's, 'a) node"
  dr_instB :: "'m Instance"

definition safety_checks :: "bool \<Rightarrow> SafetyCheck list" where
  "safety_checks replayPassed =
     [\<lparr>ck_Label = ''No duplicate finalize execution'', ck_Passed = True\<rparr>,
      \<lparr>ck_Label = ''Checkpoint integrity verified'', ck_Passed = True\<rparr>,
      \<lparr>ck_Label = ''Replay determinism confirmed'', ck_Passed = replayPassed\<rparr>,
      \<lparr>ck_Label = ''Single-instance invariant maintained throughout'', ck_Passed = True\<rparr>]"

text \<open>Loading, starting and ticking on the first node, up to the checkpoint; the amounts are 100 and 0.001 units in microcents.\<close>

definition demo_start ::
    "('m, 's, 'a) Service \<Rightarrow> demo_inputs \<Rightarrow> string \<Rightarrow> ('m, 's, 'a) node \<Rightarrow> ('m Instance \<times> ('s, 'a) world) result" where
  "demo_start sv inp wasmPath nd =
     (let S = ms_system sv;
          args = \<lparr>la_agentID = demo_agentID, la_budget = 100000000, la_price = 1000, la_manifest = demo_manifest,
                  la_signingKey = None, la_nodeID = '''', la_identity = None\<rparr>
      in case LoadAgent S (ms_engine sv) (ms_decode sv) (ms_readFile sv) wasmPath args (wo_env (nd_world nd)) of
           (Inl e, _) \<Rightarrow> Inl (WrapError ''load agent'' e)
         | (Inr i, ev) \<Rightarrow>
           (case agent_Init S i ((nd_world nd)\<lparr>wo_env := ev\<rparr>) of
              (Inl e, _) \<Rightarrow> Inl (WrapError ''init agent'' e)
            | (Inr _, i, w) \<Rightarrow>
              (case demo_ticks S (dm_elapsedA inp) totalPreCrashTicks 0 (i\<lparr>in_Lease := Some (NewLease DefaultLeaseConfig (dm_leased inp))\<rparr>) w of
                 (Inl e, _) \<Rightarrow> Inl e
               | (Inr _, i, w) \<Rightarrow>
                 (case SaveCheckpointToStorage S (dm_savedA inp) i w of
                    (Inl e, _) \<Rightarrow> Inl (WrapError ''save checkpoint'' e)
                  | (Inr _, i, w) \<Rightarrow> Inr (i, w)))))"

text \<open>The package a migration from this node sends.\<close>

definition sent_package :: "('m, 's, 'a) Service \<Rightarrow> string \<Rightarrow> string \<Rightarrow> ('m, 's, 'a) node \<Rightarrow> AgentPackage option" where
  "sent_package sv agentID wasmPath nd =
     (case fst (buildMigrationPackage sv agentID wasmPath (snd (initiate_handoff agentID nd))) of Inl _ \<Rightarrow> None | Inr (pkg, _) \<Rightarrow> Some pkg)"

text \<open>The migration between the two nodes of one process: what the second node does with the package is what the first one is told.\<close>

definition demo_migrate ::
    "('m, 's, 'a) Service \<Rightarrow> ('m, 's, 'a) Service \<Rightarrow> demo_inputs \<Rightarrow> string \<Rightarrow> ('m, 's, 'a) node \<Rightarrow> ('m, 's, 'a) node \<Rightarrow>
     (('m, 's, 'a) node \<times> ('m, 's, 'a) node \<times> nat) result" where
  "demo_migrate svA svB inp wasmPath ndA ndB =
     (let arrive = (\<lambda>pkg. handleIncomingMigration svB (dm_arrived inp) (Inr \<lparr>tr_Package = pkg, tr_SourceNodeID = ms_nodeID svA\<rparr>) ndB);
          net = (\<lambda>_ _ pkg. case dm_transfer inp of transfer_outcome.Confirmed _ \<Rightarrow> transfer_outcome.Confirmed (fst (arrive pkg)) | f \<Rightarrow> f)
      in case MigrateAgent svA net demo_agentID wasmPath (dm_targetAddr inp) ndA of
           (Inl e, _) \<Rightarrow> Inl (WrapError ''migrate'' e)
         | (Inr _, ndA') \<Rightarrow>
           let ndB = (case sent_package svA demo_agentID wasmPath ndA of None \<Rightarrow> ndB | Some pkg \<Rightarrow> snd (arrive pkg))
           in case GetActiveInstance demo_agentID ndB of
                None \<Rightarrow> Inl (NewError ''agent not found on node-b after migration'')
              | Some q \<Rightarrow> Inr (ndA', ndB, q))"

definition runDemo ::
    "('m, 's, 'a) Service \<Rightarrow> ('m, 's, 'a) Service \<Rightarrow> demo_inputs \<Rightarrow> string \<Rightarrow> ('m, 's, 'a) node \<Rightarrow> ('m, 's, 'a) node \<Rightarrow>
     ('m, 's, 'a) demo_report result option" where
  "runDemo svA svB inp wasmPath ndA ndB =
     (let svA = demo_service svA; svB = demo_service svB in
      case demo_start svA inp wasmPath ndA of
        Inl e \<Rightarrow> Some (Inl e)
      | Inr (i, w) \<Rightarrow>
        let preCrashHistory = History (in_EventLog i);
            ndA = RegisterAgent demo_agentID (length (nd_heap ndA)) (ndA\<lparr>nd_heap := nd_heap ndA @ [i], nd_world := w\<rparr>)
        in case demo_migrate svA svB inp wasmPath ndA ndB of
             Inl e \<Rightarrow> Some (Inl e)
           | Inr (ndA, ndB, q) \<Rightarrow>
             let instB = nd_heap ndB ! q;
                 leaseEpoch = (case in_Lease instB of None \<Rightarrow> ''(1,0)'' | Some lease \<Rightarrow> Epoch_String (ls_Epoch lease))
             in case resumeAndTick (ms_system svB) (dm_savedB inp) (dm_elapsedB inp) instB (nd_world ndB) of
                  None \<Rightarrow> None
                | Some (Inl e, _) \<Rightarrow> Some (Inl e)
                | Some (Inr postResumeHistory, instB, w) \<Rightarrow>
                  let (replayPassed, replayedTicks) = verifyReplay (ms_system svB) (ms_wasi svB) (ms_engine svB) instB
                  in Some (Inr \<lparr>dr_timeline = buildTimeline (dm_clock inp) preCrashHistory postResumeHistory leaseEpoch replayPassed replayedTicks,
                       dr_checks = safety_checks replayPassed, dr_nodeA = ndA,
                       dr_nodeB = ndB\<lparr>nd_heap := (nd_heap ndB)[q := instB], nd_world := w\<rparr>, dr_instB = instB\<rparr>))"

text \<open>What is printed at the end.\<close>

definition report_lines :: "int \<Rightarrow> ('m, 's, 'a) demo_report \<Rightarrow> string list" where
  "report_lines zone rep = Render zone (dr_timeline rep) @ RenderSafetySummary (dr_checks rep) @ RenderComparison"

section \<open>What the demo's replay check says\<close>

text \<open>A snapshot with a tick log replays to the state it recorded.\<close>

definition snapshot_replays :: "('m, 's, 'a) system \<Rightarrow> unit result \<Rightarrow> 'm engine \<Rightarrow> bytes \<Rightarrow> CapabilityManifest \<Rightarrow> TickSnapshot \<Rightarrow> bool" where
  "snapshot_replays S wasi E wasmBytes man snap \<longleftrightarrow> (\<forall>tk. sn_TickLog snap = Some tk \<longrightarrow>
     (let result = ReplayTick (sy_fuel S) (sy_tickFuel S) (sy_guest S) wasi E wasmBytes (Some man) (sn_PreState snap) tk None
      in rr_Error result = None \<and> Sum256 (sy_crypto S) (rr_ReplayedState result) = sn_PostStateHash snap))"

lemma replay_window_passed:
  "fst (replay_window S wasi E i passed verified snaps) \<longleftrightarrow>
     passed \<and> (\<forall>snap\<in>set snaps. snapshot_replays S wasi E (in_WASMBytes i) (in_Manifest i) snap)"
proof (induction S wasi E i passed verified snaps rule: replay_window.induct)
  case (2 S wasi E i passed verified snap snaps)
  show ?case
  proof (cases "sn_TickLog snap")
    case None
    with 2 show ?thesis by (simp add: snapshot_replays_def)
  next
    case (Some tk)
    with 2 show ?thesis by (simp add: snapshot_replays_def Let_def)
  qed
qed simp

lemma replay_window_verified:
  assumes "\<forall>snap\<in>set snaps. snapshot_replays S wasi E (in_WASMBytes i) (in_Manifest i) snap"
  shows "snd (replay_window S wasi E i passed verified snaps) = verified + length (filter (\<lambda>snap. sn_TickLog snap \<noteq> None) snaps)"
  using assms
proof (induction snaps arbitrary: passed verified)
  case (Cons snap snaps)
  then show ?case by (cases "sn_TickLog snap") (simp_all add: snapshot_replays_def Let_def)
qed simp

section \<open>Instances through ticks and saves\<close>

lemma Tick_keeps:
  assumes "Tick S elapsed i w = (Inr again, i', w')" "wf_event_log (in_EventLog i)"
  shows "wf_event_log (in_EventLog i')" "in_Lease i' = in_Lease i" "in_Host i' = in_Host i" "in_WASMBytes i' = in_WASMBytes i"
    "in_Manifest i' = in_Manifest i" "in_AgentIdentity i' = in_AgentIdentity i"
  using assms(1)
proof -
  from assms(1) have "wf_event_log (in_EventLog i') \<and> in_Lease i' = in_Lease i \<and> in_Host i' = in_Host i \<and> in_WASMBytes i' = in_WASMBytes i \<and>
    in_Manifest i' = in_Manifest i \<and> in_AgentIdentity i' = in_AgentIdentity i"
  proof (cases rule: Tick_cases)
    case (done_ok pre i1 w1 rs i2 w2 sealed el post i3)
    note k1 = captureState_spent [OF done_ok(3) assms(2)]
    note k2 = agent_call_spent [OF done_ok(5) begin_tick_wf]
    have el: "wf_event_log el" using k1 k2 SealTick_wf [OF done_ok(6)] by blast
    with captureState_spent [OF done_ok(7)] have k3: "spent (i2\<lparr>in_EventLog := el\<rparr>) i3" "wf_event_log (in_EventLog i3)" by simp_all
    show ?thesis
      using k1 k2 k3 done_ok(8) spent_fields [of i i1] spent_fields [of "begin_tick i1" i2] spent_fields [of "i2\<lparr>in_EventLog := el\<rparr>" i3]
      by (simp add: begin_tick_def finish_tick_def Let_def)
  qed auto
  then show "wf_event_log (in_EventLog i')" "in_Lease i' = in_Lease i" "in_Host i' = in_Host i" "in_WASMBytes i' = in_WASMBytes i"
    "in_Manifest i' = in_Manifest i" "in_AgentIdentity i' = in_AgentIdentity i" by simp_all
qed

lemma demo_ticks_keep:
  "demo_ticks S elapsed k n i w = (Inr u, i', w') \<Longrightarrow> wf_event_log (in_EventLog i) \<Longrightarrow> wf_event_log (in_EventLog i') \<and> in_Lease i' = in_Lease i"
proof (induction k arbitrary: n i w)
  case (Suc k)
  from Suc.prems(1) obtain again i1 w1 where t: "Tick S (elapsed n) i w = (Inr again, i1, w1)" "demo_ticks S elapsed k (Suc n) i1 w1 = (Inr u, i', w')"
    by (auto split: prod.splits sum.splits)
  with Suc.IH [OF t(2)] Tick_keeps [OF t(1) Suc.prems(2)] show ?case by simp
qed simp

lemma Save_keeps:
  assumes "SaveCheckpointToStorage S now i w = (Inr u, i', w')" "wf_event_log (in_EventLog i)"
  shows "in_Lease i' = in_Lease i" "in_ReplayWindow i' = in_ReplayWindow i" "in_WASMBytes i' = in_WASMBytes i" "in_Manifest i' = in_Manifest i"
proof -
  obtain state i1 w1 c i2 s where s: "Checkpoint S i w = (Inr state, i1, w1)" "buildCheckpoint (sy_crypto S) state i1 = (Inr c, i2)"
    "save_receipts S now i2 (w1\<lparr>wo_store := s\<rparr>) = (i', w')" using assms(1) by (rule Save_cases)
  obtain r i3 where c: "CreateReceipt (sy_crypto S) now i2 = (r, i3)" by fastforce
  have "i' = i3" using s(3) by (auto simp: save_receipts_def c Let_def split: if_splits)
  moreover have "\<exists>rs lt ec. i3 = i2\<lparr>in_Receipts := rs, in_lastReceiptTick := lt, in_epochCost := ec\<rparr>" using CreateReceipt_frame [OF c] .
  moreover have "i2 = i1 \<or> (\<exists>h. i2 = i1\<lparr>in_PrevCheckpointHash := h\<rparr>)"
    using s(2) by (auto simp: buildCheckpoint_def split: option.splits sum.splits)
  moreover have "spent i i1" using Checkpoint_spent [OF s(1) assms(2)] by blast
  ultimately show "in_Lease i' = in_Lease i" "in_ReplayWindow i' = in_ReplayWindow i" "in_WASMBytes i' = in_WASMBytes i" "in_Manifest i' = in_Manifest i"
    using spent_fields [of i i1] by auto
qed

lemma init_host_keeps: "host_keeps (init_host G md) (\<lambda>h. wf_event_log (hc_log h))"
  unfolding host_keeps_def
proof (intro allI impI)
  fix rq m h rs m' h'
  assume "init_host G md rq m h = Some (rs, m', h')" "wf_event_log (hc_log h)"
  then show "wf_event_log (hc_log h')" using live_host_log [of G nil_wallet md rq m h rs m' h'] by (auto simp: init_host_def split: if_splits)
qed

lemma LoadAgent_log:
  assumes "LoadAgent S E decode read_file wasmPath a ev = (Inr i, ev')"
  shows "wf_event_log (in_EventLog i)"
proof -
  from assms obtain wasmBytes where "loadAgent S E decode wasmBytes a ev = (Inr i, ev')" by (auto simp: LoadAgent_def split: sum.splits)
  then obtain m md mo r mo' h where r: "(if g_exported (sy_guest S) mo ''_initialize''
      then call_fn (sy_fuel S) (sy_guest S) (init_host (sy_guest S) md) ''_initialize'' [] mo \<lparr>hc_log = NewEventLog DefaultMaxTicks, hc_wallet = (), hc_env = ev\<rparr>
      else (Inr [], mo, \<lparr>hc_log = NewEventLog DefaultMaxTicks, hc_wallet = (), hc_env = ev\<rparr>)) = (r, mo', h)"
    and i: "in_EventLog i = hc_log h"
    by (auto simp: loadAgent_def Let_def new_instance_def bindR_Inr_iff split: sum.splits prod.splits)
  have "wf_event_log (hc_log h)"
    using r call_fn_invariant [OF init_host_keeps, of "sy_fuel S" "sy_guest S" "sy_guest S" md "''_initialize''" "[]" mo] by (auto split: if_splits)
  with i show ?thesis by simp
qed

section \<open>The handover\<close>

lemma MigrateAgent_hands_over:
  assumes "MigrateAgent sv net a wasmPath target nd = (Inr u, nd')" "owned a p l nd" "ls_State l = StateActiveOwner"
  shows "GetActiveInstance a nd' = None" "getLease p nd' = Some (l\<lparr>ls_State := StateRetired\<rparr>)"
    "\<exists>pkg. sent_package sv a wasmPath nd = Some pkg \<and> pk_AgentID pkg = a \<and> migrateToTarget (net target 0 pkg) = Inr ()"
proof -
  obtain nd1 where h: "initiate_handoff a nd = (Inr (), nd1)" "owned a p (l\<lparr>ls_State := StateHandoffInitiated\<rparr>) nd1"
    using handoff_owned [OF assms(2,3)] by blast
  obtain r nd2 where b: "buildMigrationPackage sv a wasmPath nd1 = (r, nd2)" by fastforce
  with assms(1) h(1) obtain pkg li where r: "r = Inr (pkg, li)" "migrateToTarget (net target 0 pkg) = Inr ()" "nd' = finalizeMigration sv a li nd2"
    by (auto simp: MigrateAgent_def split: sum.splits prod.splits)
  have "li = Some p" "owned a p (l\<lparr>ls_State := StateHandoffInitiated\<rparr>) nd2"
    using buildMigrationPackage_frame [OF b] h(2) r(1) owned_frame [of nd2 nd1] by (auto simp: owned_def)
  with finalize_owned [of a p l nd2 sv] r(3) show "GetActiveInstance a nd' = None" "getLease p nd' = Some (l\<lparr>ls_State := StateRetired\<rparr>)" by simp_all
  have "pk_AgentID pkg = a"
    using b r(1) by (auto simp: buildMigrationPackage_def Let_def case_prod_unfold split: sum.splits prod.splits option.splits)
  with b h(1) r show "\<exists>pkg. sent_package sv a wasmPath nd = Some pkg \<and> pk_AgentID pkg = a \<and> migrateToTarget (net target 0 pkg) = Inr ()"
    by (simp add: sent_package_def)
qed

lemma handleIncoming_success:
  assumes "as_Success (fst (handleIncomingMigration sv now (Inr transfer) nd))"
  shows "arrived sv now (tr_Package transfer) nd (snd (handleIncomingMigration sv now (Inr transfer) nd))"
proof -
  obtain st nd' where a: "accept_package sv now (tr_Package transfer) nd = (st, nd')" by fastforce
  have "handleIncomingMigration sv now (Inr transfer) nd = (st, nd') \<or> \<not> as_Success (fst (handleIncomingMigration sv now (Inr transfer) nd))"
    by (auto simp: handleIncomingMigration_def Let_def sendStartConfirmation_def a split: sum.splits option.splits)
  with assms accept_package_outcome [OF a] show ?thesis by auto
qed

lemma demo_migrate_outcome:
  assumes "demo_migrate svA svB inp wasmPath nd ndB = Inr (ndA', ndB', q)" "owned demo_agentID p l nd" "ls_State l = StateActiveOwner"
  shows "GetActiveInstance demo_agentID ndA' = None" "getLease p ndA' = Some (l\<lparr>ls_State := StateRetired\<rparr>)"
    "q = length (nd_heap ndB)" "q < length (nd_heap ndB')" "GetActiveInstance demo_agentID ndB' = Some q"
proof -
  define arrive where "arrive = (\<lambda>pkg. handleIncomingMigration svB (dm_arrived inp) (Inr \<lparr>tr_Package = pkg, tr_SourceNodeID = ms_nodeID svA\<rparr>) ndB)"
  define net :: transfers where
    "net = (\<lambda>_ _ pkg. case dm_transfer inp of transfer_outcome.Confirmed _ \<Rightarrow> transfer_outcome.Confirmed (fst (arrive pkg)) | f \<Rightarrow> f)"
  from assms(1) obtain u where g: "MigrateAgent svA net demo_agentID wasmPath (dm_targetAddr inp) nd = (Inr u, ndA')"
    and b: "ndB' = (case sent_package svA demo_agentID wasmPath nd of None \<Rightarrow> ndB | Some pkg \<Rightarrow> snd (arrive pkg))"
      "GetActiveInstance demo_agentID ndB' = Some q"
    by (auto simp: demo_migrate_def Let_def net_def [symmetric] arrive_def [symmetric] split: sum.splits prod.splits option.splits)
  note h = MigrateAgent_hands_over [OF g assms(2,3)]
  from h(3) obtain pkg where pkg: "sent_package svA demo_agentID wasmPath nd = Some pkg" "pk_AgentID pkg = demo_agentID"
    "migrateToTarget (net (dm_targetAddr inp) 0 pkg) = Inr ()" by blast
  then have "as_Success (fst (arrive pkg))" by (auto simp: net_def split: transfer_outcome.splits if_splits)
  from handleIncoming_success [OF this [unfolded arrive_def]] b pkg(1,2) show "q = length (nd_heap ndB)" "q < length (nd_heap ndB')"
    by (auto simp: arrive_def arrived_def GetActiveInstance_def update_conv')
  show "GetActiveInstance demo_agentID ndA' = None" "getLease p ndA' = Some (l\<lparr>ls_State := StateRetired\<rparr>)" using h by blast+
  show "GetActiveInstance demo_agentID ndB' = Some q" using b(2) .
qed

lemma demo_start_owner:
  assumes "demo_start sv inp wasmPath nd = Inr (i, w)"
  shows "in_Lease i = Some (NewLease DefaultLeaseConfig (dm_leased inp))"
proof -
  let ?S = "ms_system sv" and ?l = "NewLease DefaultLeaseConfig (dm_leased inp)"
  from assms obtain a i0 ev i1 w1 u i2 w2 u' where
    l: "LoadAgent ?S (ms_engine sv) (ms_decode sv) (ms_readFile sv) wasmPath a (wo_env (nd_world nd)) = (Inr i0, ev)"
    and n: "agent_Init ?S i0 ((nd_world nd)\<lparr>wo_env := ev\<rparr>) = (Inr (), i1, w1)"
    and t: "demo_ticks ?S (dm_elapsedA inp) totalPreCrashTicks 0 (i1\<lparr>in_Lease := Some ?l\<rparr>) w1 = (Inr u, i2, w2)"
    and s: "SaveCheckpointToStorage ?S (dm_savedA inp) i2 w2 = (Inr u', i, w)"
    by (auto simp: demo_start_def Let_def split: sum.splits prod.splits)
  obtain r j v where c: "agent_call ?S (sy_fuel ?S) ''agent_init'' [] i0 ((nd_world nd)\<lparr>wo_env := ev\<rparr>) = (r, j, v)" using prod_cases3 by blast
  have "wf_event_log (in_EventLog i1)"
    using n agent_call_spent [OF c LoadAgent_log [OF l]] by (auto simp: agent_Init_def c split: if_splits sum.splits)
  with demo_ticks_keep [OF t] have "wf_event_log (in_EventLog i2)" "in_Lease i2 = Some ?l" by simp_all
  with Save_keeps(1) [OF s] show ?thesis by simp
qed

text \<open>
  C18 The report of the demo is true where it is computed.  When the demo ends with a report, the agent has left the first node: it is not active there
  and the lease of its instance is retired; it is active on the second node, where its instance is the one that was ticked to the end; and the
  check that replay is deterministic is reported as passed exactly when every tick the second node still holds replays to the state it had recorded.
\<close>

theorem demo_report_sound:
  assumes "runDemo svA svB inp wasmPath ndA ndB = Some (Inr rep)"
  shows "GetActiveInstance demo_agentID (dr_nodeA rep) = None \<and>
    (\<exists>l. getLease (length (nd_heap ndA)) (dr_nodeA rep) = Some l \<and> ls_State l = StateRetired) \<and>
    GetActiveInstance demo_agentID (dr_nodeB rep) = Some (length (nd_heap ndB)) \<and>
    nd_heap (dr_nodeB rep) ! length (nd_heap ndB) = dr_instB rep \<and>
    (\<lparr>ck_Label = ''Replay determinism confirmed'', ck_Passed = True\<rparr> \<in> set (dr_checks rep) \<longleftrightarrow>
      (\<forall>snap\<in>set (in_ReplayWindow (dr_instB rep)).
         snapshot_replays (ms_system svB) (ms_wasi svB) (ms_engine svB) (in_WASMBytes (dr_instB rep)) (in_Manifest (dr_instB rep)) snap))"
proof -
  let ?a = "demo_service svA" and ?b = "demo_service svB" and ?p = "length (nd_heap ndA)"
  have [simp]: "ms_system ?b = ms_system svB" "ms_wasi ?b = ms_wasi svB" "ms_engine ?b = ms_engine svB" by (simp_all add: demo_service_def)
  from assms obtain i w where i: "demo_start ?a inp wasmPath ndA = Inr (i, w)" by (auto simp: runDemo_def Let_def split: sum.splits)
  define nd where "nd = RegisterAgent demo_agentID ?p (ndA\<lparr>nd_heap := nd_heap ndA @ [i], nd_world := w\<rparr>)"
  from assms i obtain ndA' ndB' q where m: "demo_migrate ?a ?b inp wasmPath nd ndB = Inr (ndA', ndB', q)"
    by (auto simp: runDemo_def Let_def nd_def split: sum.splits)
  from assms i m obtain hist instB w' passed verified where
    v: "verifyReplay (ms_system svB) (ms_wasi svB) (ms_engine svB) instB = (passed, verified)"
    and rep: "dr_nodeA rep = ndA'" "dr_nodeB rep = ndB'\<lparr>nd_heap := (nd_heap ndB')[q := instB], nd_world := w'\<rparr>" "dr_instB rep = instB"
      "dr_checks rep = safety_checks passed"
    by (auto simp: runDemo_def Let_def nd_def split: sum.splits option.splits prod.splits)
  have own: "owned demo_agentID ?p (NewLease DefaultLeaseConfig (dm_leased inp)) nd"
    using demo_start_owner [OF i] by (simp add: owned_def nd_def RegisterAgent_def GetActiveInstance_def getLease_def update_conv')
  note h = demo_migrate_outcome [OF m own]
  have "GetActiveInstance demo_agentID (dr_nodeB rep) = Some (length (nd_heap ndB)) \<and> nd_heap (dr_nodeB rep) ! length (nd_heap ndB) = dr_instB rep"
    using h(3-5) rep by (simp add: GetActiveInstance_def NewLease_def)
  moreover have "passed \<longleftrightarrow> (\<forall>snap\<in>set (in_ReplayWindow instB). snapshot_replays (ms_system svB) (ms_wasi svB) (ms_engine svB) (in_WASMBytes instB) (in_Manifest instB) snap)"
    using replay_window_passed [of "ms_system svB" "ms_wasi svB" "ms_engine svB" instB True 0 "in_ReplayWindow instB"] v by (simp add: verifyReplay_def)
  ultimately show ?thesis using h(1,2) rep by (simp add: NewLease_def safety_checks_def)
qed

section \<open>An example demo\<close>

text \<open>A module that does nothing and has no state, and a store with one cell.\<close>

definition idle_guest :: "unit guest" where
  "idle_guest = \<lparr>g_exported = (\<lambda>_ name. name \<noteq> ''_initialize''), g_enter = (\<lambda>_ _ m. m), g_event = (\<lambda>m. GReturn [0] m), g_answer = (\<lambda>_ m. m),
     g_read = (\<lambda>_ _ _. Some []), g_write = (\<lambda>_ _ m. Some m)\<rparr>"

definition cell_provider :: "bytes option provider" where
  "cell_provider = \<lparr>pv_SaveCheckpoint = (\<lambda>_ d _. (Inr (), Some d)),
     pv_LoadCheckpoint = (\<lambda>_ s. (case s of None \<Rightarrow> Inl ErrCheckpointNotFound | Some d \<Rightarrow> Inr d, s)), pv_DeleteCheckpoint = (\<lambda>_ _. (Inr (), None)),
     pv_SaveReceipts = (\<lambda>_ _ s. (Inr (), s)), pv_LoadReceipts = (\<lambda>_ s. (Inl ErrCheckpointNotFound, s)), pv_DeleteReceipts = (\<lambda>_ s. (Inr (), s)),
     pv_SaveIdentity = (\<lambda>_ _ s. (Inr (), s)), pv_LoadIdentity = (\<lambda>_ s. (Inl ErrCheckpointNotFound, s)), pv_DeleteIdentity = (\<lambda>_ s. (Inr (), s))\<rparr>"

definition idle_system :: "(unit, bytes option, unit) system" where
  "idle_system = \<lparr>sy_guest = idle_guest, sy_crypto = sample_crypto, sy_storage = cell_provider, sy_adapter = None, sy_fuel = 3, sy_tickFuel = 3\<rparr>"

definition idle_service :: "(unit, bytes option, unit) Service" where
  "idle_service =
     \<lparr>ms_system = idle_system,
      ms_engine = \<lparr>en_closeHost = Inr (), en_instantiateHost = Inr (), en_compile = (\<lambda>_. Inr ()), en_instantiate = (\<lambda>_ _ _. Inr ())\<rparr>,
      ms_wasi = Inr (), ms_decode = (\<lambda>_. Inr \<lparr>mj_Capabilities = None, mj_ResourceLimits = None, mj_MigrationPolicy = None\<rparr>),
      ms_decodeCaps = (\<lambda>_. Inr \<lparr>cm_Capabilities = Some []\<rparr>), ms_readFile = (\<lambda>_. Inr [0]), ms_replayMode = ''off'',
      ms_pricePerSecond = 60, ms_leaseConfig = DefaultLeaseConfig, ms_hostKey = None, ms_nodeID = ''n''\<rparr>"

definition idle_node :: "(unit, bytes option, unit) node" where
  "idle_node = \<lparr>nd_heap = [], nd_active = [], nd_nodeCapabilities = None, nd_world = \<lparr>wo_env = example_env, wo_store = None, wo_settled = ()\<rparr>\<rparr>"

definition idle_inputs :: demo_inputs where
  "idle_inputs = \<lparr>dm_leased = 0, dm_elapsedA = (\<lambda>_. 0), dm_savedA = 0,
     dm_transfer = transfer_outcome.Confirmed \<lparr>as_AgentID = [], as_NodeID = [], as_Success = True, as_Error = []\<rparr>, dm_targetAddr = ''b'', dm_arrived = 5,
     dm_elapsedB = [0], dm_savedB = 9, dm_clock = \<lparr>rk_pre = (\<lambda>_. 0), rk_crash = 0, rk_post = (\<lambda>_. 0)\<rparr>\<rparr>"

lemma idle_system_simps [simp]:
  "sy_guest idle_system = idle_guest" "sy_crypto idle_system = sample_crypto" "sy_storage idle_system = cell_provider" "sy_adapter idle_system = None"
  "sy_fuel idle_system = 3" "sy_tickFuel idle_system = 3" "exported idle_system i name \<longleftrightarrow> name \<noteq> ''_initialize''"
  by (simp_all add: idle_system_def exported_def idle_guest_def)

lemma idle_call: "call_fn 3 idle_guest H name args m h = (Inr [0], m, h)"
  by (simp add: call_fn_def run_guest_numeral idle_guest_def)

lemma idle_calls [simp]:
  "agent_call idle_system 3 name args i w = (Inr [0], i, w)" "CaptureState 3 idle_guest H m h = (Inr [], m, h)"
  "captureState idle_system i w = (Inr [], i, w)" "Checkpoint idle_system i w = (Inr [], i, w)"
  "agent_Init idle_system i w = (Inr (), i, w)" "Resume idle_system [] i w = (Inr (), i, w)"
proof -
  show c: "CaptureState 3 idle_guest H m h = (Inr [], m, h)" for H :: "(unit, 'h) host" and m h
    by (simp add: CaptureState_def idle_call result0_def) (simp add: idle_guest_def)
  show a: "agent_call idle_system 3 name args i w = (Inr [0], i, w)" for name args i and w :: "(bytes option, unit) world"
    by (cases i) (simp add: agent_call_def idle_call leave_hc_def enter_hc_def)
  show "captureState idle_system i w = (Inr [], i, w)" by (cases i) (simp add: captureState_def c leave_hc_def enter_hc_def)
  show "Checkpoint idle_system i w = (Inr [], i, w)" by (simp add: Checkpoint_def a result0_def)
  show "agent_Init idle_system i w = (Inr (), i, w)" by (simp add: agent_Init_def a)
  show "Resume idle_system [] i w = (Inr (), i, w)" by (simp add: Resume_def a)
qed

text \<open>A tick of the idle module only adds a snapshot with an empty log.\<close>

definition idle_window :: "TickSnapshot list \<Rightarrow> bool" where
  "idle_window win \<longleftrightarrow> (\<forall>s\<in>set win. sn_PreState s = [] \<and> (\<forall>tk. sn_TickLog s = Some tk \<longrightarrow> Entries tk = []))"

definition idle_after :: "unit Instance \<Rightarrow> unit Instance \<Rightarrow> bool" where
  "idle_after i i' \<longleftrightarrow> (\<exists>n el win. i' = i\<lparr>in_TickNumber := n, in_EventLog := el, in_ReplayWindow := win\<rparr>) \<and> idle_window (in_ReplayWindow i')"

lemma idle_seal: "fst (SealTick (BeginTick n el)) = Some tk \<Longrightarrow> Entries tk = []"
  by (auto simp: SealTick_def BeginTick_def Entries_def Let_def new_tick_log_def split: if_splits)

lemma idle_Tick:
  assumes "in_Budget i = 100000000" "in_PricePerSecond i = 1000" "idle_window (in_ReplayWindow i)"
  shows "\<exists>i'. Tick idle_system 0 i w = (Inr False, i', w) \<and> idle_after i i'"
proof -
  define el where "el = BeginTick (in_TickNumber i + 1) (in_EventLog i)"
  define snap where "snap = \<lparr>sn_TickNumber = in_TickNumber i + 1, sn_PreState = [], sn_PostStateHash = Sum256 sample_crypto [], sn_TickLog = fst (SealTick el)\<rparr>"
  have "tick_cost 0 1000 100000000 = 0" by (simp add: tick_cost_def div_i64_def)
  then have t: "Tick idle_system 0 i w = (Inr False, i\<lparr>in_TickNumber := in_TickNumber i + 1, in_EventLog := snd (SealTick el),
      in_ReplayWindow := add_snapshot (in_replayWindowMax i) snap (in_ReplayWindow i)\<rparr>, w)"
    using assms(1,2) by (cases i) (simp add: Tick_def Let_def case_prod_unfold el_def snap_def)
  have "idle_window (add_snapshot (in_replayWindowMax i) snap (in_ReplayWindow i))"
    using add_snapshot_set [of "in_replayWindowMax i" snap "in_ReplayWindow i"] assms(3) idle_seal [of "in_TickNumber i + 1" "in_EventLog i"]
    by (auto simp: idle_window_def snap_def el_def)
  with t show ?thesis by (fastforce simp: idle_after_def)
qed

lemma idle_after_trans: "idle_after i i' \<Longrightarrow> idle_after i' i'' \<Longrightarrow> idle_after i i''"
  unfolding idle_after_def by (elim conjE exE, simp) blast

lemma idle_after_refl: "idle_window (in_ReplayWindow i) \<Longrightarrow> idle_after i i"
  unfolding idle_after_def
  by (intro conjI exI [of _ "in_TickNumber i"] exI [of _ "in_EventLog i"] exI [of _ "in_ReplayWindow i"]) (cases i, simp_all)

lemma idle_demo_ticks:
  assumes "in_Budget i = 100000000" "in_PricePerSecond i = 1000" "idle_window (in_ReplayWindow i)"
  shows "\<exists>i'. demo_ticks idle_system (\<lambda>_. 0) k n i w = (Inr (), i', w) \<and> idle_after i i'"
  using assms
proof (induction k arbitrary: n i)
  case 0
  then show ?case by (simp add: idle_after_refl)
next
  case (Suc k)
  from idle_Tick [OF Suc.prems, of w] obtain i' where t: "Tick idle_system 0 i w = (Inr False, i', w)" "idle_after i i'" by blast
  then have "in_Budget i' = 100000000" "in_PricePerSecond i' = 1000" "idle_window (in_ReplayWindow i')"
    using Suc.prems by (auto simp: idle_after_def)
  from Suc.IH [OF this, of "Suc n"] t idle_after_trans [OF t(2)] show ?case by auto
qed

lemma idle_save:
  assumes "in_signingKey i = None" "in_Receipts i = []" "in_AgentIdentity i = None"
  shows "SaveCheckpointToStorage idle_system now i w = (Inr (), i, w\<lparr>wo_store := Some (build_v3 (instance_fields i) [])\<rparr>)"
  using assms by (simp add: SaveCheckpointToStorage_def buildCheckpoint_def save_receipts_def CreateReceipt_def cell_provider_def Let_def)

lemma idle_replay:
  assumes "Entries tk = []" "ms_engine sv = ms_engine idle_service"
  shows "ReplayTick 3 3 idle_guest (Inr ()) (ms_engine sv) wasm (Some m) [] tk (Some []) =
    \<lparr>rr_Verified = True, rr_TickNumber = tl_TickNumber tk, rr_ReplayedState = [], rr_ExpectedState = Some [], rr_FirstDiffByte = -1, rr_Error = None\<rparr>"
proof -
  have e: "g_exported idle_guest mo name \<longleftrightarrow> name \<noteq> ''_initialize''" for mo name by (simp add: idle_guest_def)
  have "\<exists>md. registerReplayHostModule (Inr ()) (Some m) = Inr md" by (simp add: registerReplayHostModule_def Let_def)
  then obtain md where md: "registerReplayHostModule (Inr ()) (Some m) = Inr md" by blast
  show ?thesis
    using assms by (simp add: ReplayTick_def Let_def idle_service_def md e run_initialize_def ResumeAgent_def idle_call remaining_def)
qed

abbreviation idle_manifest :: Manifest where
  "idle_manifest \<equiv> \<lparr>mf_AgentID = [], mf_OwnerPublicKey = [], mf_Capabilities = \<lparr>cm_Capabilities = Some []\<rparr>, mf_MigrationPolicy = None,
     mf_ResourceLimits = no_limits\<rparr>"

lemma idle_load:
  assumes "la_manifest a \<noteq> []"
  shows "loadAgent idle_system (ms_engine idle_service) (ms_decode idle_service) [0] a ev =
    (Inr (new_instance sample_crypto a [0] idle_manifest None (NewEventLog DefaultMaxTicks) ()), ev)"
  using assms
  by (simp add: loadAgent_def Let_def idle_service_def ParseManifest_def entries_of_def check_memory_def ValidateAgainstNode_def
    RegisterHostModule_def Has_def CompileWASMBytes_def InstantiateModule_def verifyExports_def idle_guest_def)

lemma idle_start: "\<exists>i. demo_start (demo_service idle_service) idle_inputs ''w'' idle_node = Inr (i, (nd_world idle_node)\<lparr>wo_store := Some (build_v3 (instance_fields i) [])\<rparr>) \<and>
   in_Budget i = 100000000 \<and> in_PricePerSecond i = 1000 \<and> in_WASMHash i = Sum256 sample_crypto [0] \<and> idle_window (in_ReplayWindow i) \<and>
   in_Lease i = Some (NewLease DefaultLeaseConfig 0) \<and> in_AgentIdentity i = None"
proof -
  let ?a = "\<lparr>la_agentID = demo_agentID, la_budget = 100000000, la_price = 1000, la_manifest = demo_manifest,
                  la_signingKey = None, la_nodeID = '''', la_identity = None\<rparr>"
  let ?i = "(new_instance sample_crypto ?a [0] idle_manifest None (NewEventLog DefaultMaxTicks) ())\<lparr>in_Lease := Some (NewLease DefaultLeaseConfig 0)\<rparr>"
  have m: "demo_manifest \<noteq> []" by (simp add: demo_manifest_def bytes_of_string_def)
  have "in_Budget ?i = 100000000" "in_PricePerSecond ?i = 1000" "idle_window (in_ReplayWindow ?i)"
    by (simp_all add: new_instance_def idle_window_def)
  from idle_demo_ticks [OF this, of totalPreCrashTicks 0 "nd_world idle_node"] obtain i where
    t: "demo_ticks idle_system (\<lambda>_. 0) totalPreCrashTicks 0 ?i (nd_world idle_node) = (Inr (), i, nd_world idle_node)" "idle_after ?i i" by blast
  have f: "in_Budget i = 100000000" "in_PricePerSecond i = 1000" "in_WASMHash i = Sum256 sample_crypto [0]" "idle_window (in_ReplayWindow i)"
    "in_Lease i = Some (NewLease DefaultLeaseConfig 0)" "in_AgentIdentity i = None" "in_signingKey i = None" "in_Receipts i = []"
    using t(2) by (auto simp: idle_after_def new_instance_def)
  have "ms_system (demo_service idle_service) = idle_system" "ms_engine (demo_service idle_service) = ms_engine idle_service"
    "ms_decode (demo_service idle_service) = ms_decode idle_service" "ms_readFile (demo_service idle_service) ''w'' = Inr [0]"
    by (simp_all add: demo_service_def idle_service_def)
  with t idle_load [of ?a] m idle_save [OF f(7,8,6)] f
  show ?thesis by (simp add: demo_start_def LoadAgent_def Let_def idle_inputs_def)
qed


lemma idle_arrival:
  assumes "pk_AgentID pkg = demo_agentID" "pk_WASMBinary pkg = [0]" "pk_WASMHash pkg = Sum256 sample_crypto [0]" "pk_ManifestData pkg = [0]"
    "pk_Receipts pkg = []" "pk_AgentIdentity pkg = []" "pk_Checkpoint pkg = build_v3 f []" "wf_fields f" "cf_WASMHash f = Sum256 sample_crypto [0]"
    "cf_Budget f = 100000000" "cf_PricePerSecond f = 1000"
    "\<And>rd. pk_ReplayData pkg = Some rd \<Longrightarrow> rd_PreTickState rd = [] \<and> rd_Entries rd = []"
  shows "\<exists>j w. handleIncomingMigration (demo_service idle_service) 5 (Inr \<lparr>tr_Package = pkg, tr_SourceNodeID = n\<rparr>) idle_node =
      (\<lparr>as_AgentID = demo_agentID, as_NodeID = ''n'', as_Success = True, as_Error = ''''\<rparr>,
       \<lparr>nd_heap = [j], nd_active = [(demo_agentID, 0)], nd_nodeCapabilities = None, nd_world = w\<rparr>) \<and>
     in_Budget j = 100000000 \<and> in_PricePerSecond j = 1000 \<and> in_ReplayWindow j = [] \<and> in_AgentIdentity j = None \<and> in_signingKey j = None \<and> in_Receipts j = []"
proof -
  let ?sv = "demo_service idle_service"
  have sv [simp]: "ms_system ?sv = idle_system" "ms_engine ?sv = ms_engine idle_service" "ms_decode ?sv = ms_decode idle_service"
    "ms_wasi ?sv = Inr ()" "ms_nodeID ?sv = ''n''" "ms_hostKey ?sv = None" "ms_leaseConfig ?sv = DefaultLeaseConfig" "ms_replayMode ?sv = ''full''"
    by (simp_all add: demo_service_def idle_service_def)
  have x: "ExtractAgentState (pk_Checkpoint pkg) = Inr []" using assms(7) parse_build_v3 [OF assms(8), of "[]"] by (simp add: ExtractAgentState_def)
  have caps: "ParseCapabilityManifest (ms_decodeCaps ?sv) [0] = Inr \<lparr>cm_Capabilities = Some []\<rparr>"
    by (simp add: ParseCapabilityManifest_def demo_service_def idle_service_def entries_of_def)
  have v: "verifyMigrationReplay ?sv pkg rd = None" if "pk_ReplayData pkg = Some rd" for rd
    using assms(12) [OF that] x caps idle_replay [of "toTickLog rd" ?sv] assms(4)
    by (simp add: verifyMigrationReplay_def Let_def toTickLog_def Entries_def)
  have m: "ParseManifest (ms_decode idle_service) [0] = Inr idle_manifest" by (simp add: ParseManifest_def idle_service_def entries_of_def)
  have c: "validateIncomingManifest ?sv idle_manifest idle_node = None"
    by (simp add: validateIncomingManifest_def Let_def ValidateAgainstNode_def entries_of_def idle_node_def)
  have h: "length (Sum256 sample_crypto [0]) = 32" using crypto_ok_sample by (simp add: crypto_ok_def)
  let ?a = "\<lparr>la_agentID = demo_agentID, la_budget = pk_Budget pkg, la_price = pk_PricePerSecond pkg, la_manifest = [0], la_signingKey = None,
    la_nodeID = ''n'', la_identity = None\<rparr>"
  let ?j = "new_instance sample_crypto ?a [0] idle_manifest None (NewEventLog DefaultMaxTicks) ()"
  define w where "w = (nd_world idle_node)\<lparr>wo_store := Some (build_v3 f [])\<rparr>"
  have l: "LoadCheckpointFromStorage idle_system ?j w = (Inr (), ?j\<lparr>in_Budget := 100000000, in_PricePerSecond := 1000, in_TickNumber := cf_TickNumber f\<rparr>, w)"
    using parse_build_v3 [OF assms(8), of "[]"] assms(9-11)
    by (simp add: LoadCheckpointFromStorage_def cell_provider_def w_def new_instance_def header_of_fields_def restore_receipts_def)
  have k: "signingKey ?sv = None" by (simp add: signingKey_def)
  define nd where "nd = idle_node\<lparr>nd_world := w\<rparr>"
  have "loadMigratedAgent ?sv pkg nd = (Inr (?j\<lparr>in_Budget := 100000000, in_PricePerSecond := 1000, in_TickNumber := cf_TickNumber f\<rparr>), nd)"
    using assms(1,2,4,6) idle_load [of ?a "wo_env w"] l k
    by (simp add: loadMigratedAgent_def restoreAgentIdentity_def LoadAgentFromBytes_def Let_def nd_def)
  moreover have "with_store (pv_SaveCheckpoint (ms_storage ?sv) demo_agentID (build_v3 f [])) idle_node = (Inr (), nd)"
    by (simp add: with_store_def cell_provider_def nd_def w_def)
  ultimately have "\<exists>j w. accept_package ?sv 5 pkg idle_node = (\<lparr>as_AgentID = demo_agentID, as_NodeID = ''n'', as_Success = True, as_Error = ''''\<rparr>,
       \<lparr>nd_heap = [j], nd_active = [(demo_agentID, 0)], nd_nodeCapabilities = None, nd_world = w\<rparr>) \<and>
     in_Budget j = 100000000 \<and> in_PricePerSecond j = 1000 \<and> in_ReplayWindow j = [] \<and> in_AgentIdentity j = None \<and> in_signingKey j = None \<and> in_Receipts j = []"
    using assms(1,5,7)
    by (simp add: accept_package_def Let_def sendStartConfirmation_def RegisterAgent_def nd_def idle_node_def new_instance_def)
  then show ?thesis
    using assms(1-4) h by (simp add: handleIncomingMigration_def Let_def v m c split: option.split)
qed


lemma idle_migrate:
  assumes "in_Budget i = 100000000" "in_PricePerSecond i = 1000" "in_WASMHash i = Sum256 sample_crypto [0]" "idle_window (in_ReplayWindow i)"
    "in_Lease i = Some (NewLease DefaultLeaseConfig 0)" "in_AgentIdentity i = None"
  shows "\<exists>ndA j w. demo_migrate (demo_service idle_service) (demo_service idle_service) idle_inputs ''w''
      (RegisterAgent demo_agentID 0 (idle_node\<lparr>nd_heap := [i], nd_world := (nd_world idle_node)\<lparr>wo_store := Some (build_v3 (instance_fields i) [])\<rparr>\<rparr>)) idle_node =
      Inr (ndA, \<lparr>nd_heap = [j], nd_active = [(demo_agentID, 0)], nd_nodeCapabilities = None, nd_world = w\<rparr>, 0) \<and>
    in_Budget j = 100000000 \<and> in_PricePerSecond j = 1000 \<and> in_ReplayWindow j = [] \<and> in_AgentIdentity j = None \<and> in_signingKey j = None \<and> in_Receipts j = []"
proof -
  let ?sv = "demo_service idle_service" and ?c = "build_v3 (instance_fields i) []"
  let ?nd = "RegisterAgent demo_agentID 0 (idle_node\<lparr>nd_heap := [i], nd_world := (nd_world idle_node)\<lparr>wo_store := Some ?c\<rparr>\<rparr>)"
  obtain l where l: "TransitionToHandoff (NewLease DefaultLeaseConfig 0) = (None, l)" by (simp add: TransitionToHandoff_def NewLease_def)
  define nd where "nd = setLease 0 l ?nd"
  have a: "GetActiveInstance demo_agentID ?nd = Some 0" "getLease 0 ?nd = Some (NewLease DefaultLeaseConfig 0)"
    "GetActiveInstance demo_agentID nd = Some 0" "nd_heap nd = [i\<lparr>in_Lease := Some l\<rparr>]" "wo_store (nd_world nd) = Some ?c"
    using assms(5) by (simp_all add: GetActiveInstance_def getLease_def RegisterAgent_def nd_def setLease_def idle_node_def)
  have h: "initiate_handoff demo_agentID ?nd = (Inr (), nd)" using a(1,2) l by (simp add: initiate_handoff_def nd_def)
  have wf: "wf_fields (instance_fields i)" using assms(1-3) by (intro wf_instance_fields) simp_all
  have sv [simp]: "ms_system ?sv = idle_system" "ms_readFile ?sv p = Inr [0]" for p by (simp_all add: demo_service_def idle_service_def)
  define pkg where "pkg = \<lparr>pk_AgentID = demo_agentID, pk_WASMBinary = [0], pk_WASMHash = Sum256 sample_crypto [0],
    pk_Checkpoint = ?c, pk_ManifestData = [0], pk_Budget = 100000000, pk_PricePerSecond = 1000,
    pk_ReplayData = replayDataFromInstance sample_crypto (i\<lparr>in_Lease := Some l\<rparr>) ?c, pk_Receipts = [],
    pk_MajorVersion = cf_majorVersion (instance_fields i), pk_LeaseGeneration = cf_leaseGeneration (instance_fields i), pk_AgentIdentity = []\<rparr>"
  have s: "with_store (pv_LoadCheckpoint (ms_storage ?sv) demo_agentID) nd = (Inr ?c, nd)"
    "with_store (pv_LoadReceipts (ms_storage ?sv) demo_agentID) nd = (Inl ErrCheckpointNotFound, nd)"
    using a(5) by (simp_all add: with_store_def cell_provider_def)
  have b: "buildMigrationPackage ?sv demo_agentID ''w'' nd = (Inr (pkg, Some 0), nd)"
    using s a(3,4) parse_build_v3 [OF wf, of "[]"] assms(1,2,6)
    by (simp add: buildMigrationPackage_def Let_def LoadSidecarData_def pkg_def header_of_fields_def instance_fields_def)
  have lst: "in_ReplayWindow i \<noteq> [] \<Longrightarrow> sn_PreState (last (in_ReplayWindow i)) = [] \<and> (\<forall>tk. sn_TickLog (last (in_ReplayWindow i)) = Some tk \<longrightarrow> Entries tk = [])"
    using bspec [OF assms(4) [unfolded idle_window_def] last_in_set] .
  have rd: "pk_ReplayData pkg = Some rd \<Longrightarrow> rd_PreTickState rd = [] \<and> rd_Entries rd = []" for rd
    using lst
    by (auto simp: pkg_def replayDataFromInstance_def LatestSnapshot_def idle_window_def split: option.splits sum.splits if_splits)
  from idle_arrival [of pkg "instance_fields i", OF _ _ _ _ _ _ _ wf _ _ _ rd] assms(1-3) obtain j w where
    j: "handleIncomingMigration ?sv 5 (Inr \<lparr>tr_Package = pkg, tr_SourceNodeID = ms_nodeID ?sv\<rparr>) idle_node =
      (\<lparr>as_AgentID = demo_agentID, as_NodeID = ''n'', as_Success = True, as_Error = ''''\<rparr>,
       \<lparr>nd_heap = [j], nd_active = [(demo_agentID, 0)], nd_nodeCapabilities = None, nd_world = w\<rparr>)"
    "in_Budget j = 100000000 \<and> in_PricePerSecond j = 1000 \<and> in_ReplayWindow j = [] \<and> in_AgentIdentity j = None \<and> in_signingKey j = None \<and> in_Receipts j = []"
    by (fastforce simp: pkg_def instance_fields_def)
  have "sent_package ?sv demo_agentID ''w'' ?nd = Some pkg" using h b by (simp add: sent_package_def)
  with h b j show ?thesis
    by (simp add: demo_migrate_def Let_def MigrateAgent_def idle_inputs_def GetActiveInstance_def)
qed

theorem demo_report_sound_witness:
  "\<exists>rep. runDemo idle_service idle_service idle_inputs ''w'' idle_node idle_node = Some (Inr rep) \<and>
    GetActiveInstance demo_agentID (dr_nodeA rep) = None \<and> GetActiveInstance demo_agentID (dr_nodeB rep) = Some 0"
proof -
  from idle_start obtain i where i: "demo_start (demo_service idle_service) idle_inputs ''w'' idle_node =
      Inr (i, (nd_world idle_node)\<lparr>wo_store := Some (build_v3 (instance_fields i) [])\<rparr>)"
    "in_Budget i = 100000000" "in_PricePerSecond i = 1000" "in_WASMHash i = Sum256 sample_crypto [0]" "idle_window (in_ReplayWindow i)"
    "in_Lease i = Some (NewLease DefaultLeaseConfig 0)" "in_AgentIdentity i = None" by blast
  from idle_migrate [OF i(2-7)] obtain ndA j w where
    m: "demo_migrate (demo_service idle_service) (demo_service idle_service) idle_inputs ''w''
      (RegisterAgent demo_agentID 0 (idle_node\<lparr>nd_heap := [i], nd_world := (nd_world idle_node)\<lparr>wo_store := Some (build_v3 (instance_fields i) [])\<rparr>\<rparr>)) idle_node =
      Inr (ndA, \<lparr>nd_heap = [j], nd_active = [(demo_agentID, 0)], nd_nodeCapabilities = None, nd_world = w\<rparr>, 0)"
    and j: "in_Budget j = 100000000" "in_PricePerSecond j = 1000" "in_ReplayWindow j = []" "in_AgentIdentity j = None" "in_signingKey j = None" "in_Receipts j = []"
    by blast
  from idle_Tick [OF j(1,2), of w] j(3) obtain k where k: "Tick idle_system 0 j w = (Inr False, k, w)" "idle_after j k" by (auto simp: idle_window_def)
  have "in_signingKey k = None" "in_Receipts k = []" "in_AgentIdentity k = None" using k(2) j by (auto simp: idle_after_def)
  note s = idle_save [OF this, of 9 w]
  have e: "nd_heap idle_node = []" "ms_system (demo_service idle_service) = idle_system" by (simp_all add: idle_node_def demo_service_def idle_service_def)
  have r: "\<exists>rep. runDemo idle_service idle_service idle_inputs ''w'' idle_node idle_node = Some (Inr rep)"
    using i(1) m k(1) s by (simp add: runDemo_def Let_def e idle_inputs_def split: prod.split)
  then obtain rep where rep: "runDemo idle_service idle_service idle_inputs ''w'' idle_node idle_node = Some (Inr rep)" by blast
  from demo_report_sound [OF this] rep e(1) show ?thesis by auto
qed

end
