(* ===== verification/Report.thy ===== *)
theory Report
  imports Demo Mock
begin

text \<open>
  What the timeline of the reconciliation demo (\<open>Demo\<close>) says about the agent whose event logs it was built from: the log lines of the
  reconciler, character by character, against the substring tests of \<open>logToEvent\<close>.  The result is that the executed finalization of a case appears
  in the report exactly once, before and after a lost node together.
\<close>

section \<open>Finalizations in the timeline\<close>

lemma contains_iff: "contains s p \<longleftrightarrow> (\<exists>u v. s = u @ p @ v)"
proof
  assume "contains s p"
  then obtain i where "take (length p) (drop i s) = p" by (auto simp: contains_def demo_indexOf_def find_None_iff find_Some_iff split: option.splits)
  then show "\<exists>u v. s = u @ p @ v" by (metis append_take_drop_id)
next
  assume "\<exists>u v. s = u @ p @ v"
  then obtain u v where "s = u @ p @ v" by blast
  then have "length u \<in> set [0..<Suc (length s) - length p]" "take (length p) (drop (length u) s) = p" by auto
  then show "contains s p" by (auto simp: contains_def demo_indexOf_def find_None_iff split: option.split)
qed

lemma demo_indexOf_prefix: "demo_indexOf (p @ s) p = 0"
proof -
  have "[0..<Suc (length (p @ s)) - length p] = 0 # [1..<Suc (length s)]" by (simp add: upt_conv_Cons del: upt_Suc)
  then show ?thesis unfolding demo_indexOf_def by simp
qed

lemma not_contains: "x \<in> set p \<Longrightarrow> x \<notin> set s \<Longrightarrow> \<not> contains s p"
  by (auto simp: contains_iff)

text \<open>The messages of a history, and what a message contributes to the finalizations a timeline shows.\<close>

definition log_messages :: "TickLog list \<Rightarrow> string list" where
  "log_messages history = concat (map (\<lambda>tk. map (\<lambda>e. string_of_bytes (snd e)) (filter (\<lambda>e. fst e = LogEmit) (Entries tk))) history)"

definition finalize_event :: "Event \<Rightarrow> bool" where
  "finalize_event ev \<longleftrightarrow> te_Kind ev = KindSideEffect \<and> te_Summary ev \<noteq> ''Finalize intent recorded''"

definition shown_finalizations :: "Timeline \<Rightarrow> string list" where
  "shown_finalizations tml = map te_Summary (filter finalize_event (tm_Events tml))"

definition msg_finalization :: "string \<Rightarrow> string list" where
  "msg_finalization msg = (case logToEvent msg 0 [] 0 of None \<Rightarrow> [] | Some ev \<Rightarrow> if finalize_event ev then [te_Summary ev] else [])"

lemma logToEvent_finalization:
  "(case logToEvent msg ts node tick of None \<Rightarrow> [] | Some ev \<Rightarrow> if finalize_event ev then [te_Summary ev] else []) = msg_finalization msg"
  by (simp add: logToEvent_def msg_finalization_def finalize_event_def Let_def)

lemma add_entries_finalizations:
  "shown_finalizations (add_entries ts node tick es tml) =
     shown_finalizations tml @ concat (map msg_finalization (map (\<lambda>e. string_of_bytes (snd e)) (filter (\<lambda>e. fst e = LogEmit) es)))"
proof (induction es arbitrary: tml)
  case (Cons e es)
  show ?case
  proof (cases "fst e = LogEmit")
    case True
    with Cons logToEvent_finalization [of "string_of_bytes (snd e)" ts node tick] show ?thesis
      by (cases "logToEvent (string_of_bytes (snd e)) ts node tick") (simp_all add: shown_finalizations_def timeline_Add_def split: if_splits)
  qed (simp add: Cons)
qed simp

lemma history_finalizations:
  "shown_finalizations (addEventsFromHistory now history node tml) = shown_finalizations tml @ concat (map msg_finalization (log_messages history))"
  by (induction history arbitrary: now tml) (simp_all add: add_entries_finalizations log_messages_def)

lemma plain_finalizations [simp]:
  "shown_finalizations (timeline_New c a) = []"
  "kind \<noteq> KindSideEffect \<Longrightarrow> shown_finalizations (timeline_Add (plain_event ts node kind s ds) tml) = shown_finalizations tml"
  by (simp_all add: shown_finalizations_def timeline_New_def timeline_Add_def plain_event_def finalize_event_def)

lemma timeline_finalizations:
  "shown_finalizations (buildTimeline now pre post epoch passed n) = concat (map msg_finalization (log_messages pre @ log_messages post))"
  by (simp add: buildTimeline_def history_finalizations Let_def log_messages_def)

lemma msg_finalization_other: "\<not> contains msg ''Finalize EXECUTED'' \<Longrightarrow> msg_finalization msg = []"
  by (simp add: msg_finalization_def logToEvent_def finalize_event_def Let_def)

section \<open>The lines of the reconciler\<close>

lemma no_X_dec: "CHR ''X'' \<notin> set (dec_nat n)"
  using dec_nat_digits [of "CHR ''X''" n] by auto

lemma no_X_fmt: "CHR ''X'' \<notin> set (fmt_u w)" "CHR ''X'' \<notin> set (fmt_i v)"
  using no_X_dec by (auto simp: fmt_u_def fmt_i_def dec_int_def)

lemma hex_digit: "n < 16 \<Longrightarrow> ''0123456789abcdef'' ! n \<in> set ''0123456789abcdef''"
  by (rule nth_mem) simp

lemma fmt_x_chars: "set (fmt_x d) \<subseteq> set ''0123456789abcdef''"
proof -
  define hex where "hex = ''0123456789abcdef''"
  have "hex ! n \<in> set hex" if "n < 16" for n using hex_digit [OF that] by (simp only: hex_def)
  moreover have "unat (x :: 8 word) div 16 < 16" "unat x mod 16 < 16" for x
    using unsigned_less [of x, where 'a = nat] by (simp_all add: less_mult_imp_div_less)
  ultimately show ?thesis unfolding fmt_x_def hex_def [symmetric] by auto
qed

lemma shortHex_chars: "set (shortHex b) \<subseteq> set ''0123456789abcdef''"
  unfolding shortHex_def by (cases "length b < 4") (simp_all only: if_True if_False fmt_x_chars)

lemma no_X_hex: "CHR ''X'' \<notin> set (shortHex b)" and no_t_hex: "CHR ''t'' \<notin> set (shortHex b)"
  using subsetD [OF shortHex_chars [of b]] by auto

text \<open>The line that finalizes is shown, with the prefix cut off; every other line has no X.\<close>

lemma finalize_line_shown: "msg_finalization (finalize_line r) = [drop 13 (finalize_line r)]"
proof -
  define rest where "rest = '' for case '' @ shortHex (rc_CaseID r) @ '' (key: '' @ shortHex (rc_IdempotencyKey r) @ '')''"
  have l: "finalize_line r = ''[reconciler] '' @ ''Finalize EXECUTED'' @ rest" by (simp add: finalize_line_def rest_def)
  then have "contains (finalize_line r) ''Finalize EXECUTED''" unfolding contains_iff by blast
  moreover have "CHR ''t'' \<notin> set (finalize_line r)" using no_t_hex by (simp add: finalize_line_def)
  then have "\<not> contains (finalize_line r) p" if "CHR ''t'' \<in> set p" for p using that not_contains by blast
  moreover have "stripPrefix (finalize_line r) = drop 13 (finalize_line r)"
    using demo_indexOf_prefix [of "''[reconciler] ''"] by (simp add: stripPrefix_def l Let_def)
  moreover have "drop 13 (finalize_line r) \<noteq> ''Finalize intent recorded''" by (simp add: l)
  ultimately show ?thesis by (simp add: msg_finalization_def logToEvent_def finalize_event_def)
qed

lemma tick_lines:
  assumes "stage k r"
  shows "io_calls (\<lambda>c. \<forall>msg. c = CallLog msg \<longrightarrow> k = 8 \<and> msg = finalize_line r \<or> CHR ''X'' \<notin> set msg) (reconciler_Tick r)"
  using assms
proof (cases rule: stage_cases)
  case 1
  with assms show ?thesis
    by (auto simp: reconciler_Tick_def tickDetected_def stage_def no_X_hex Let_def intro!: calls_rules)
next
  case 2
  then have "rc_State r = StateWaitingConfirmations" "k \<noteq> 8" using assms by (auto simp: stage_def)
  then show ?thesis
    by (auto simp: reconciler_Tick_def tickWaitingConfirmations_def no_X_hex no_X_fmt Let_def intro!: calls_rules)
qed (use assms in \<open>auto simp: reconciler_Tick_def tickReadyToFinalize_def tickFinalized_def tickCompleted_def stage_def finalize_line_def
    no_X_hex no_X_fmt Let_def intro!: calls_rules\<close>)

lemma logged_calls: "msg \<in> set (logged tr) \<Longrightarrow> \<exists>a. (CallLog msg, a) \<in> set tr"
  by (fastforce simp: logged_def split: sdk_call.splits if_splits)

lemma tick_shown:
  assumes "stage k r" "follow (reconciler_Tick r) as = (tr, Returned res)"
  shows "concat (map msg_finalization (logged tr)) = (if k = 8 then [drop 13 (finalize_line r)] else [])"
proof (cases "k = 8")
  case True
  have f: "finalize_line (r\<lparr>rc_TickCount := n, rc_FinalizeExecuted := True, rc_FinalizeNano := t\<rparr>) = finalize_line r" "finalize_line r \<noteq> []" for n t
    by (simp_all add: finalize_line_def)
  have s: "msg_finalization ''[reconciler] State: ReadyToFinalize -> Finalized'' = []"
    by (intro msg_finalization_other not_contains [of "CHR ''X''"]) simp_all
  have "rc_State r = 2" "rc_IntentRecorded r" "\<not> rc_FinalizeExecuted r" using assms(1) True by (simp_all add: stage_def)
  with assms(2) have "logged tr = [finalize_line r, ''[reconciler] State: ReadyToFinalize -> Finalized'']"
    by (auto simp: reconciler_Tick_def tickReadyToFinalize_def follow_rules f Let_def split: list.splits prod.splits)
  with True finalize_line_shown s show ?thesis by simp
next
  case False
  have "msg_finalization msg = []" if "msg \<in> set (logged tr)" for msg
  proof -
    from logged_calls [OF that] obtain a where "(CallLog msg, a) \<in> set tr" by blast
    with io_calls_follow [OF tick_lines [OF assms(1)] assms(2)] False have "CHR ''X'' \<notin> set msg" by fastforce
    then show ?thesis by (intro msg_finalization_other not_contains [of "CHR ''X''"]) simp_all
  qed
  with False show ?thesis by simp
qed

definition shown_inv :: "nat \<Rightarrow> Reconciler_agent life \<Rightarrow> bool" where
  "shown_inv k l \<longleftrightarrow> stage k (lf_agent l) \<and>
     concat (map msg_finalization (logged (lf_trace l))) = (if 9 \<le> k then [drop 13 (finalize_line (lf_agent l))] else [])"

lemma shown_ticks:
  assumes "life_run reconciler_code zero evs l = Some l'" "list_all Sdk.is_tick evs" "shown_inv k l"
  shows "shown_inv (min 11 (k + length evs)) l'"
  using assms
proof (induction evs arbitrary: k l)
  case Nil
  then show ?case by (auto simp: shown_inv_def stage_def min_def)
next
  case (Cons ev evs)
  from Cons.prems(2) obtain as where ev: "ev = LTick as" by (cases ev) auto
  from Cons.prems(1) ev obtain tr again r where f: "follow (reconciler_Tick (lf_agent l)) as = (tr, Returned (again, r))"
    and run: "life_run reconciler_code zero evs (l\<lparr>lf_agent := r, lf_trace := lf_trace l @ tr\<rparr>) = Some l'"
    by (auto simp: reconciler_code_def split: prod.splits outcome.splits option.splits)
  from Cons.prems(3) have k: "stage k (lf_agent l)"
    "concat (map msg_finalization (logged (lf_trace l))) = (if 9 \<le> k then [drop 13 (finalize_line (lf_agent l))] else [])" by (simp_all add: shown_inv_def)
  from stage_tick [OF k(1) f] have a: "stage (min 11 (Suc k)) r" "8 \<le> k \<Longrightarrow> finalize_line r = finalize_line (lf_agent l)"
    by (simp_all add: advances_def finalize_line_def)
  from k(1) have "k \<le> 11" by (simp add: stage_def)
  with a k(2) tick_shown [OF k(1) f] have "shown_inv (min 11 (Suc k)) (l\<lparr>lf_agent := r, lf_trace := lf_trace l @ tr\<rparr>)"
    by (cases "k = 8") (auto simp: shown_inv_def)
  from Cons.IH [OF run _ this] Cons.prems(2) show ?case by (simp add: min_def split: if_splits)
qed

lemma shown_handover:
  assumes "shown_inv k l"
  shows "\<exists>l'. life_run reconciler_code zero_reconciler [LSave, LCrash []] l = Some l' \<and> shown_inv k l'"
proof -
  have "reconciler_good (lf_agent l)" using assms by (auto simp: shown_inv_def reconciler_good_def)
  from reconciler.restart_saved [OF this] have r: "restart reconciler_code zero_reconciler (Some (reconciler_Marshal (lf_agent l))) = Some (lf_agent l)"
    by (simp add: reconciler_code_def)
  obtain res where "follow (reconciler_Tick (lf_agent l)) [] = ([], res)" by (cases "reconciler_Tick (lf_agent l)") auto
  with r have "life_run reconciler_code zero_reconciler [LSave, LCrash []] l = Some (l\<lparr>lf_ckpt := Some (reconciler_Marshal (lf_agent l))\<rparr>)"
    by (simp add: reconciler_code_def)
  with assms show ?thesis by (simp add: shown_inv_def)
qed

text \<open>
  C17 An incident report shows the finalization once.  Let the reconciler run on one node, be saved, lose its node and go on from the checkpoint on another, with
  at least nine ticks in all, and let the two event logs hold the messages it logged.  Then, whatever else the timeline of the two logs contains, exactly one
  of its side effects is an executed finalization, and it is the one with the agent's case and key.
\<close>

theorem timeline_shows_one_finalization:
  assumes "life_run reconciler_code zero_reconciler (evsA @ [LSave, LCrash []] @ evsB) \<lparr>lf_agent = zero_reconciler, lf_ckpt = None, lf_trace = []\<rparr> = Some l"
    and "list_all Sdk.is_tick evsA" "list_all Sdk.is_tick evsB" "9 \<le> length evsA + length evsB"
    and "log_messages pre @ log_messages post = logged (lf_trace l)"
  shows "shown_finalizations (buildTimeline now pre post leaseEpoch replayPassed replayedTicks) = [drop 13 (finalize_line (lf_agent l))]"
proof -
  let ?l = "\<lparr>lf_agent = zero_reconciler, lf_ckpt = None, lf_trace = []\<rparr>"
  have "shown_inv 0 ?l" using stage_zero by (simp add: shown_inv_def)
  from assms(1) obtain l1 where l1: "life_run reconciler_code zero_reconciler evsA ?l = Some l1"
    "life_run reconciler_code zero_reconciler ([LSave, LCrash []] @ evsB) l1 = Some l" by (auto simp: life_run_append split: option.splits)
  from shown_ticks [OF l1(1) assms(2) \<open>shown_inv 0 ?l\<close>] have i1: "shown_inv (min 11 (length evsA)) l1" by simp
  from shown_handover [OF this] l1(2) obtain l2 where l2: "shown_inv (min 11 (length evsA)) l2" "life_run reconciler_code zero_reconciler evsB l2 = Some l"
    unfolding life_run_append by auto
  from shown_ticks [OF l2(2) assms(3) l2(1)] have "shown_inv (min 11 (min 11 (length evsA) + length evsB)) l" .
  with assms(4) show ?thesis unfolding timeline_finalizations assms(5) by (auto simp: shown_inv_def)
qed

text \<open>Answers for any number of ticks exist, and a tick log that holds given messages.\<close>

lemma reconciler_ticks:
  "stage k (lf_agent l) \<Longrightarrow> \<exists>evs l'. length evs = n \<and> list_all Sdk.is_tick evs \<and> life_run reconciler_code zero evs l = Some l' \<and> (\<exists>j. stage j (lf_agent l'))"
proof (induction n arbitrary: k l)
  case (Suc n)
  from io_must_runs [OF stage_step [OF Suc.prems, of "\<lambda>_ _. True"], of "\<lambda>_ _. (plain_answer, ())" "()"] obtain res u where
    r: "run_io (\<lambda>_ _. (plain_answer, ())) (reconciler_Tick (lf_agent l)) () = (Returned res, u)" "advances k (lf_agent l) res" by auto
  from run_io_follow [OF r(1)] obtain as tr where f: "follow (reconciler_Tick (lf_agent l)) as = (tr, Returned res)" by blast
  define l1 where "l1 = l\<lparr>lf_agent := snd res, lf_trace := lf_trace l @ tr\<rparr>"
  have "stage (min 11 (Suc k)) (lf_agent l1)" using r(2) by (simp add: l1_def advances_def)
  from Suc.IH [OF this] obtain evs l' where "length evs = n" "list_all Sdk.is_tick evs" "life_run reconciler_code zero evs l1 = Some l'" "\<exists>j. stage j (lf_agent l')"
    by blast
  with f show ?case by (intro exI [of _ "LTick as # evs"] exI [of _ l']) (cases res; simp add: reconciler_code_def l1_def)
qed auto

definition messages_log :: "string list \<Rightarrow> TickLog" where
  "messages_log msgs = \<lparr>tl_TickNumber = 1, tl_refs = map (\<lambda>m. (LogEmit, HeapRef (bytes_of_string m))) msgs, tl_arena = [], tl_offset = 0\<rparr>"

lemma log_messages_of: "log_messages [messages_log msgs] = msgs"
  by (simp add: log_messages_def messages_log_def Entries_def comp_def filter_map)

theorem timeline_shows_one_finalization_witness:
  "\<exists>evs l history. length evs = 9 \<and> life_run reconciler_code zero_reconciler (evs @ [LSave, LCrash []]) \<lparr>lf_agent = zero_reconciler, lf_ckpt = None, lf_trace = []\<rparr> = Some l \<and>
     shown_finalizations (buildTimeline \<lparr>rk_pre = (\<lambda>_. 0), rk_crash = 0, rk_post = (\<lambda>_. 0)\<rparr> history [] ''(1,0)'' True 3) = [drop 13 (finalize_line (lf_agent l))]"
proof -
  let ?l = "\<lparr>lf_agent = zero_reconciler, lf_ckpt = None, lf_trace = []\<rparr>"
  obtain evs l1 where e: "length evs = 9" "list_all Sdk.is_tick evs" "life_run reconciler_code zero_reconciler evs ?l = Some l1"
    using reconciler_ticks [of 0 ?l 9 zero_reconciler] stage_zero by auto
  from shown_ticks [OF e(3,2), of 0] stage_zero have "shown_inv 9 l1" using e(1) by (simp add: shown_inv_def)
  from shown_handover [OF this] obtain l where l: "life_run reconciler_code zero_reconciler (evs @ [LSave, LCrash []] @ []) ?l = Some l"
    using e(3) by (auto simp: life_run_append)
  from timeline_shows_one_finalization [OF l e(2), of "[messages_log (logged (lf_trace l))]" "[]"] e(1) l log_messages_of
  show ?thesis by (intro exI [of _ evs] exI [of _ l] exI [of _ "[messages_log (logged (lf_trace l))]"]) (simp add: log_messages_def [of "[]"])
qed

end
