(* ===== verification/Cli.thy ===== *)
theory Cli
  imports Inspector Demo Simulator Network
begin

text \<open>
  The command lines of both nodes (\<open>src/cmd/igord/main.go\<close>, \<open>src/cmd/igord-lab/main.go\<close>) and what they print about checkpoints
  (\<open>src/internal/inspector\<close>).  A command is a function from its arguments to what the process does: its exit status, its standard output,
  and the agent it runs.  Arguments are read by Go's package \<open>flag\<close>, which is modelled as it parses: up to the first argument
  that is no flag.  The conversions of \<open>strconv\<close> and \<open>time.ParseDuration\<close> are the record \<open>conversions\<close>.  Texts on standard error are left out.
\<close>

section \<open>Flags\<close>

text \<open>A flag has a name, may be boolean, and has the method \<open>Set\<close>, here on the record of a command's variables.\<close>

record 'f flag_def =
  fg_name :: string
  fg_bool :: bool
  fg_set :: "string \<Rightarrow> 'f \<Rightarrow> 'f result"

datatype 'f parsed = Parsed 'f "string list" | HelpShown | BadUsage string

text \<open>\<open>name=value\<close>; the equals sign cannot be first.\<close>

definition split_value :: "string \<Rightarrow> string \<times> string option" where
  "split_value s =
     (let k = takeWhile (\<lambda>c. c \<noteq> CHR ''='') (tl s); r = dropWhile (\<lambda>c. c \<noteq> CHR ''='') (tl s)
      in (take 1 s @ k, if r = [] then None else Some (tl r)))"

definition set_value :: "'f flag_def \<Rightarrow> string \<Rightarrow> 'f \<Rightarrow> string + 'f" where
  "set_value d v f =
     (case fg_set d v f of
        Inl e \<Rightarrow> Inl (''invalid value '' @ quote_q v @ '' for flag -'' @ fg_name d @ '': '' @ error_string e)
      | Inr f \<Rightarrow> Inr f)"

definition set_bool :: "'f flag_def \<Rightarrow> string option \<Rightarrow> 'f \<Rightarrow> string + 'f" where
  "set_bool d v f =
     (case v of
        None \<Rightarrow> (case fg_set d ''true'' f of
            Inl e \<Rightarrow> Inl (''invalid boolean flag '' @ fg_name d @ '': '' @ error_string e) | Inr f \<Rightarrow> Inr f)
      | Some v \<Rightarrow> (case fg_set d v f of
            Inl e \<Rightarrow> Inl (''invalid boolean value '' @ quote_q v @ '' for -'' @ fg_name d @ '': '' @ error_string e) | Inr f \<Rightarrow> Inr f))"

text \<open>An argument that is no flag ends the parsing: everything from there on is positional.\<close>

definition is_flag :: "string \<Rightarrow> bool" where
  "is_flag s \<longleftrightarrow> 2 \<le> length s \<and> hd s = CHR ''-''"

fun flag_Parse :: "'f flag_def list \<Rightarrow> string list \<Rightarrow> 'f \<Rightarrow> 'f parsed" where
  "flag_Parse fs [] f = Parsed f []"
| "flag_Parse fs (s # args) f =
     (if \<not> is_flag s then Parsed f (s # args)
      else if s = ''--'' then Parsed f args
      else let name = drop (if s ! 1 = CHR ''-'' then 2 else 1) s
      in if name = [] \<or> hd name = CHR ''-'' \<or> hd name = CHR ''='' then BadUsage (''bad flag syntax: '' @ s)
      else case split_value name of (name, val) \<Rightarrow>
        (case find (\<lambda>d. fg_name d = name) fs of
           None \<Rightarrow>
             if name = ''help'' \<or> name = ''h'' then HelpShown else BadUsage (''flag provided but not defined: -'' @ name)
         | Some d \<Rightarrow>
           if fg_bool d
           then (case set_bool d val f of Inl msg \<Rightarrow> BadUsage msg | Inr f \<Rightarrow> flag_Parse fs args f)
           else (case val of
                   Some v \<Rightarrow> (case set_value d v f of Inl msg \<Rightarrow> BadUsage msg | Inr f \<Rightarrow> flag_Parse fs args f)
                 | None \<Rightarrow>
                   (case args of
                      [] \<Rightarrow> BadUsage (''flag needs an argument: -'' @ name)
                    | v # args \<Rightarrow> (case set_value d v f of Inl msg \<Rightarrow> BadUsage msg | Inr f \<Rightarrow> flag_Parse fs args f)))))"

declare flag_Parse.simps(2) [simp del]

text \<open>\<open>flag.ExitOnError\<close>: the exit status, or the variables and the positional arguments.\<close>

definition exit_on_error :: "'f parsed \<Rightarrow> nat + 'f \<times> string list" where
  "exit_on_error p = (case p of Parsed f args \<Rightarrow> Inr (f, args) | HelpShown \<Rightarrow> Inl 0 | BadUsage _ \<Rightarrow> Inl 2)"

record conversions =
  cv_ParseFloat :: "string \<Rightarrow> rat result"
  cv_ParseInt :: "string \<Rightarrow> int result"
  cv_ParseUint :: "string \<Rightarrow> uint64 result"
  cv_ParseDuration :: "string \<Rightarrow> int64 result"

definition ParseBool :: "string \<Rightarrow> bool result" where
  "ParseBool s =
     (if s \<in> set [''1'', ''t'', ''T'', ''TRUE'', ''true'', ''True''] then Inr True
      else if s \<in> set [''0'', ''f'', ''F'', ''FALSE'', ''false'', ''False''] then Inr False
      else Inl (NewError ''parse error''))"

definition flag_var :: "string \<Rightarrow> (string \<Rightarrow> 'v result) \<Rightarrow> ('v \<Rightarrow> 'f \<Rightarrow> 'f) \<Rightarrow> 'f flag_def" where
  "flag_var name conv upd = \<lparr>fg_name = name, fg_bool = False, fg_set = (\<lambda>s f. bindR (conv s) (\<lambda>v. Inr (upd v f)))\<rparr>"

definition bool_var :: "string \<Rightarrow> (bool \<Rightarrow> 'f \<Rightarrow> 'f) \<Rightarrow> 'f flag_def" where
  "bool_var name upd = \<lparr>fg_name = name, fg_bool = True, fg_set = (\<lambda>s f. bindR (ParseBool s) (\<lambda>v. Inr (upd v f)))\<rparr>"

section \<open>Reports\<close>

text \<open>\<open>time.Unix(0, ns).UTC().Format(time.RFC3339)\<close> for instants after 1970: years and months are counted off the days.\<close>

definition leap_year :: "nat \<Rightarrow> bool" where
  "leap_year y \<longleftrightarrow> 4 dvd y \<and> (\<not> 100 dvd y \<or> 400 dvd y)"

definition year_days :: "nat \<Rightarrow> nat" where
  "year_days y = (if leap_year y then 366 else 365)"

definition month_days :: "nat \<Rightarrow> nat list" where
  "month_days y = [31, if leap_year y then 29 else 28, 31, 30, 31, 30, 31, 31, 30, 31, 30, 31]"

function civil_year :: "nat \<Rightarrow> nat \<Rightarrow> nat \<times> nat" where
  "civil_year y d = (if d < year_days y then (y, d) else civil_year (Suc y) (d - year_days y))"
  by auto
termination
  by (relation "measure snd") (auto simp: year_days_def split: if_splits)

declare civil_year.simps [simp del]

fun civil_month :: "nat list \<Rightarrow> nat \<Rightarrow> nat \<Rightarrow> nat \<times> nat" where
  "civil_month [] m d = (m, d)"
| "civil_month (n # ns) m d = (if d < n then (m, d) else civil_month ns (Suc m) (d - n))"

definition format_RFC3339 :: "int64 \<Rightarrow> string" where
  "format_RFC3339 ns =
     (let secs = nat (sint ns) div 10 ^ 9;
          (y, d) = civil_year 1970 (secs div 86400);
          (m, d) = civil_month (month_days y) 1 d;
          t = secs mod 86400;
          two = (\<lambda>n. pad_int 2 (int n))
      in pad_int 4 (int y) @ ''-'' @ two m @ ''-'' @ two (Suc d) @ ''T'' @
         two (t div 3600) @ '':'' @ two (t mod 3600 div 60) @ '':'' @ two (t mod 60) @ ''Z'')"

definition newline :: string where "newline = [CHR 0x0A]"

text \<open>One row of \<open>printHexDump\<close>: the byte offset, the bytes with a gap in the middle, padding, the printable characters.\<close>

definition hex_nat8 :: "nat \<Rightarrow> string" where
  "hex_nat8 n = concat (map (\<lambda>i. hex_byte (word_of_nat (n div 256 ^ i))) [3, 2, 1, 0])"

definition printable :: "byte \<Rightarrow> char" where
  "printable b = (if 0x20 \<le> b \<and> b \<le> 0x7e then char_of (unat b) else CHR ''.'')"

definition hex_row :: "nat \<Rightarrow> bytes \<Rightarrow> string" where
  "hex_row i row =
     ''  '' @ hex_nat8 i @ ''  '' @
     concat (map (\<lambda>(j, b). hex_byte b @ '' '' @ (if j = 7 then '' '' else '''')) (enumerate 0 row)) @
     concat (map (\<lambda>j. ''   '' @ (if j = 7 then '' '' else '''')) [length row..<16]) @
     '' |'' @ map printable row @ ''|'' @ newline"

function dump_rows :: "nat \<Rightarrow> bytes \<Rightarrow> string" where
  "dump_rows i data = (if data = [] then [] else hex_row i (take 16 data) @ dump_rows (i + 16) (drop 16 data))"
  by auto
termination
  by (relation "measure (length \<circ> snd)") auto

declare dump_rows.simps [simp del]

definition printHexDump :: "bytes \<Rightarrow> string" where
  "printHexDump data = dump_rows 0 data"

definition line :: "string \<Rightarrow> string" where
  "line s = s @ newline"

definition size_text :: "nat \<Rightarrow> string" where
  "size_text n = dec_nat n @ '' bytes''"

definition EpochData_String :: "EpochData \<Rightarrow> string" where
  "EpochData_String e = ''('' @ dec_nat (unat (ep_MajorVersion e)) @ '','' @ dec_nat (unat (ep_LeaseGeneration e)) @ '')''"

definition Print :: "Inspector.Result \<Rightarrow> string" where
  "Print r =
     line ''Checkpoint Inspector'' @ line ''===================='' @ newline @
     line (''Version:          '' @ dec_nat (unat (ir_Version r)) @ '' (0x'' @ hex_byte (ir_Version r) @ '')'') @
     line (''Budget:           '' @ ir_BudgetFormatted r @ '' ('' @ dec_int (sint (ir_Budget r)) @ '' microcents)'') @
     line (''Price/Second:     '' @ ir_PriceFormatted r @ '' ('' @ dec_int (sint (ir_PricePerSecond r)) @ '' microcents)'') @
     line (''Tick Number:      '' @ dec_nat (unat (ir_TickNumber r))) @
     line (''WASM Hash:        '' @ ir_WASMHashHex r) @
     (if ir_Version r \<ge> 3
      then line (''Epoch:            '' @ EpochData_String (ir_Epoch r)) @
           line (''Lease Expiry:     '' @ (if sint (ir_LeaseExpiry r) > 0 then format_RFC3339 (ir_LeaseExpiry r) else ''(none)''))
      else []) @
     (if ir_HasLineage r
      then line (''Agent Identity:   '' @ ir_AgentPubKeyHex r) @
           line (''Previous Hash:    '' @ ir_PrevHashHex r) @
           (case ir_SignatureValid r of
              None \<Rightarrow> []
            | Some v \<Rightarrow> line (''Signature:        '' @ (if v then ''VALID'' else ''INVALID''))) @
           line ''Header Size:      209 bytes''
      else if ir_Version r \<ge> 3 then line ''Header Size:      81 bytes''
      else line ''Header Size:      57 bytes'') @
     line (''Total Size:       '' @ size_text (ir_TotalSize r)) @
     line (''State Size:       '' @ size_text (ir_StateSize r)) @
     (case ir_WASMVerified r of
        None \<Rightarrow> []
      | Some v \<Rightarrow>
        line (''WASM Verified:    '' @ (if v then ''YES (matches '' else ''NO (mismatch with '') @ ir_WASMPath r @ '')'')) @
     (if ir_StateSize r > 0
      then newline @ line ''State Hex Dump:'' @ printHexDump (take (min (ir_StateSize r) 256) (ir_State r)) @
           (if ir_StateSize r > 256 then line (''  ... ('' @ dec_nat (ir_StateSize r - 256) @ '' more bytes)'') else [])
      else [])"

text \<open>The arrow as UTF-8.\<close>

definition arrow :: string where "arrow = [CHR 0xE2, CHR 0x86, CHR 0x92]"

definition segment_line :: "nat \<times> ChainSegment \<Rightarrow> string" where
  "segment_line s =
     line (''  ['' @ dec_nat (fst s + 1) @ ''] WASM '' @ take 16 (sg_WASMHashHex (snd s)) @ ''...  ticks '' @
       dec_nat (unat (sg_StartTick (snd s))) @ arrow @ dec_nat (unat (sg_EndTick (snd s))) @ '' ('' @ dec_nat (sg_Count (snd s)) @ '' checkpoints)'')"

definition PrintChain :: "Inspector.ChainResult \<Rightarrow> string" where
  "PrintChain r =
     line ''Checkpoint Lineage Verifier'' @ line ''==========================='' @ newline @
     (if ic_AgentDID r \<noteq> '''' then line (''Agent:          '' @ ic_AgentDID r) else []) @
     (if ic_AgentPubKeyHex r \<noteq> '''' then line (''Public Key:     '' @ ic_AgentPubKeyHex r) else []) @
     line (''Checkpoints:    '' @ dec_nat (ic_Checkpoints r)) @
     line (''Tick Range:     '' @ dec_nat (unat (ic_FirstTick r)) @ '' '' @ arrow @ '' '' @ dec_nat (unat (ic_LastTick r))) @
     (if length (ic_Segments r) > 0
      then newline @ line ''Execution Segments:'' @ concat (map segment_line (enumerate 0 (ic_Segments r))) else []) @
     newline @
     (if ic_ChainValid r
      then line (''Lineage:        VALID (all '' @ dec_nat (ic_Checkpoints r) @ '' signatures verified, chain unbroken)'')
      else line (''Lineage:        INVALID ('' @ dec_nat (length (ic_Errors r)) @ '' errors)'') @
           concat (map (\<lambda>e. line (''  - '' @ e)) (ic_Errors r)))"

section \<open>The product node\<close>

text \<open>\<open>filepath.Ext\<close> and \<open>filepath.Dir\<close>.\<close>

definition filepath_Ext :: "string \<Rightarrow> string" where
  "filepath_Ext p =
     (let e = takeWhile (\<lambda>c. c \<noteq> slash) (rev p)
      in if CHR ''.'' \<in> set e then ''.'' @ rev (takeWhile (\<lambda>c. c \<noteq> CHR ''.'') e) else [])"

definition filepath_Dir :: "string \<Rightarrow> string" where
  "filepath_Dir p = filepath_Clean (rev (dropWhile (\<lambda>c. c \<noteq> slash) (rev p)))"

definition agentIDFromPath :: "string \<Rightarrow> string" where
  "agentIDFromPath wasmPath =
     (let base = filepath_Base wasmPath;
          ext = filepath_Ext base;
          name = take (length base - length ext) base;
          name = (if name = '''' \<or> name = ''agent'' then filepath_Base (filepath_Dir wasmPath) else name)
      in if name = '''' \<or> name = ''.'' then ''agent'' else name)"

text \<open>What a process of \<open>igord\<close> takes from outside, and what becomes of it: \<open>pc_exit\<close> is \<open>None\<close> while the tick loop runs,
  \<open>pc_agent\<close> the agent and its world after the events of the loop.  A budget that does not fit an \<open>int64\<close> is converted to \<open>ge_outOfRange\<close>,
  which Go leaves to the implementation.\<close>

record ('m, 'a) igord_env =
  ge_system :: "('m, os_state, 'a) system"
  ge_wasi :: "unit result"
  ge_engine :: "'m engine"
  ge_decode :: "bytes \<Rightarrow> manifestJSON result"
  ge_readFile :: "string \<Rightarrow> bytes result"
  ge_readDir :: "string \<Rightarrow> (string \<times> bool) list result"
  ge_keygen :: "(bytes \<times> bytes) result"
  ge_conv :: conversions
  ge_outOfRange :: int64
  ge_events :: "('m, os_state, 'a) loop_event list"
  ge_world :: "(os_state, 'a) world"

record ('m, 'a) process =
  pc_exit :: "nat option"
  pc_stdout :: string
  pc_agent :: "('m Instance \<times> (os_state, 'a) world) option"

definition os_Exit :: "nat \<Rightarrow> string \<Rightarrow> ('m, 'a) process" where
  "os_Exit n out = \<lparr>pc_exit = Some n, pc_stdout = out, pc_agent = None\<rparr>"

definition to_microcents :: "int64 \<Rightarrow> rat \<Rightarrow> int64" where
  "to_microcents outOfRange f = (case FromFloat f of Some v \<Rightarrow> v | None \<Rightarrow> outOfRange)"

text \<open>The tick loop after an agent has been started.\<close>

definition run_loop :: "('m, 'a) igord_env \<Rightarrow> string \<Rightarrow> ('m Instance \<times> (os_state, 'a) world) option \<Rightarrow> ('m, 'a) process" where
  "run_loop G checkpointDir started =
     (case started of
        None \<Rightarrow> os_Exit 1 ''''
      | Some (i, w) \<Rightarrow>
        (case igord_loop (at_dir checkpointDir (ge_system G)) (ge_events G) i w of
           (ended, i, w) \<Rightarrow> \<lparr>pc_exit = (case ended of Running \<Rightarrow> None | Exited _ \<Rightarrow> Some 0), pc_stdout = '''', pc_agent = Some (i, w)\<rparr>))"

record run_vars =
  rv_budget :: rat
  rv_manifest :: string
  rv_checkpointDir :: string
  rv_agentID :: string

definition run_flags :: "conversions \<Rightarrow> run_vars flag_def list" where
  "run_flags cv =
     [flag_var ''budget'' (cv_ParseFloat cv) (\<lambda>v f. f\<lparr>rv_budget := v\<rparr>),
      flag_var ''manifest'' Inr (\<lambda>v f. f\<lparr>rv_manifest := v\<rparr>),
      flag_var ''checkpoint-dir'' Inr (\<lambda>v f. f\<lparr>rv_checkpointDir := v\<rparr>),
      flag_var ''agent-id'' Inr (\<lambda>v f. f\<lparr>rv_agentID := v\<rparr>)]"

definition run_defaults :: run_vars where
  "run_defaults = \<lparr>rv_budget = 1, rv_manifest = '''', rv_checkpointDir = ''checkpoints'', rv_agentID = ''''\<rparr>"

text \<open>What \<open>subcmdRun\<close> does once its flags are read.\<close>

definition run_with :: "('m, 'a) igord_env \<Rightarrow> run_vars \<Rightarrow> string \<Rightarrow> ('m, 'a) process" where
  "run_with G f wasmPath =
     (let aid = (if rv_agentID f = '''' then agentIDFromPath wasmPath else rv_agentID f)
      in run_loop G (rv_checkpointDir f)
           (runStandalone (ge_system G) (ge_wasi G) (ge_engine G) (ge_decode G) (ge_readFile G) (ge_keygen G) wasmPath aid
              (to_microcents (ge_outOfRange G) (rv_budget f)) (rv_manifest f) (rv_checkpointDir f) (ge_world G)))"

definition subcmdRun :: "('m, 'a) igord_env \<Rightarrow> string list \<Rightarrow> ('m, 'a) process" where
  "subcmdRun G args =
     (case exit_on_error (flag_Parse (run_flags (ge_conv G)) args run_defaults) of
        Inl n \<Rightarrow> os_Exit n ''''
      | Inr (f, []) \<Rightarrow> os_Exit 1 ''''
      | Inr (f, wasmPath # _) \<Rightarrow> run_with G f wasmPath)"

record resume_vars = run_vars +
  rv_checkpoint :: string
  rv_wasm :: string

definition resume_flags :: "conversions \<Rightarrow> resume_vars flag_def list" where
  "resume_flags cv =
     [flag_var ''checkpoint'' Inr (\<lambda>v f. f\<lparr>rv_checkpoint := v\<rparr>),
      flag_var ''wasm'' Inr (\<lambda>v f. f\<lparr>rv_wasm := v\<rparr>),
      flag_var ''budget'' (cv_ParseFloat cv) (\<lambda>v f. f\<lparr>rv_budget := v\<rparr>),
      flag_var ''manifest'' Inr (\<lambda>v f. f\<lparr>rv_manifest := v\<rparr>),
      flag_var ''checkpoint-dir'' Inr (\<lambda>v f. f\<lparr>rv_checkpointDir := v\<rparr>),
      flag_var ''agent-id'' Inr (\<lambda>v f. f\<lparr>rv_agentID := v\<rparr>)]"

definition resume_defaults :: resume_vars where
  "resume_defaults =
     \<lparr>rv_budget = 0, rv_manifest = '''', rv_checkpointDir = ''checkpoints'', rv_agentID = '''', rv_checkpoint = '''', rv_wasm = ''''\<rparr>"

definition subcmdResume :: "('m, 'a) igord_env \<Rightarrow> string list \<Rightarrow> ('m, 'a) process" where
  "subcmdResume G args =
     (case exit_on_error (flag_Parse (resume_flags (ge_conv G)) args resume_defaults) of
        Inl n \<Rightarrow> os_Exit n ''''
      | Inr (f, _) \<Rightarrow>
        if rv_checkpoint f = '''' \<or> rv_wasm f = '''' then os_Exit 1 ''''
        else let aid = (if rv_agentID f = '''' then agentIDFromPath (rv_wasm f) else rv_agentID f)
        in run_loop G (rv_checkpointDir f)
             (resumeFromCheckpoint (ge_system G) (ge_wasi G) (ge_engine G) (ge_decode G) (ge_readFile G) (ge_keygen G) (rv_checkpoint f) (rv_wasm f) aid
                (to_microcents (ge_outOfRange G) (rv_budget f)) (rv_manifest f) (rv_checkpointDir f) (ge_world G)))"

definition subcmdVerify :: "('m, 'a) igord_env \<Rightarrow> string list \<Rightarrow> ('m, 'a) process" where
  "subcmdVerify G args =
     (case exit_on_error (flag_Parse [] args ()) of
        Inl n \<Rightarrow> os_Exit n ''''
      | Inr (_, []) \<Rightarrow> os_Exit 1 ''''
      | Inr (_, historyDir # _) \<Rightarrow>
        (case VerifyChain (sy_crypto (ge_system G)) (ge_readDir G historyDir) (ge_readFile G) historyDir of
           Inl _ \<Rightarrow> os_Exit 1 ''''
         | Inr result \<Rightarrow> os_Exit (if \<not> ic_ChainValid result then 1 else 0) (PrintChain result)))"

text \<open>The report both nodes print of one checkpoint; a binary that does not match is only a warning.\<close>

definition inspect_report :: "crypto \<Rightarrow> (string \<Rightarrow> bytes result) \<Rightarrow> string \<Rightarrow> string \<Rightarrow> Inspector.Result result" where
  "inspect_report C read_file path wasmPath =
     bindR (InspectFile C read_file path) (\<lambda>r.
       Inr (if wasmPath \<noteq> '''' then snd (VerifyWASM C read_file wasmPath r) else r))"

definition subcmdInspect :: "('m, 'a) igord_env \<Rightarrow> string list \<Rightarrow> ('m, 'a) process" where
  "subcmdInspect G args =
     (case exit_on_error (flag_Parse [flag_var ''wasm'' Inr (\<lambda>v _. v)] args '''') of
        Inl n \<Rightarrow> os_Exit n ''''
      | Inr (_, []) \<Rightarrow> os_Exit 1 ''''
      | Inr (wasmPath, path # _) \<Rightarrow>
        (case inspect_report (sy_crypto (ge_system G)) (ge_readFile G) path wasmPath of
           Inl _ \<Rightarrow> os_Exit 1 ''''
         | Inr r \<Rightarrow> os_Exit 0 (Print r @
             (if ir_HasLineage r \<and> length (ir_AgentPubKey r) = 32
              then line (''Agent DID:        '' @ DID \<lparr>id_PublicKey = ir_AgentPubKey r, id_PrivateKey = []\<rparr>) else []))))"

definition igord_main :: "('m, 'a) igord_env \<Rightarrow> string list \<Rightarrow> ('m, 'a) process" where
  "igord_main G args =
     (case args of
        [] \<Rightarrow> os_Exit 1 ''''
      | cmd # args \<Rightarrow>
        if cmd = ''run'' then subcmdRun G args
        else if cmd = ''resume'' then subcmdResume G args
        else if cmd = ''verify'' then subcmdVerify G args
        else if cmd = ''inspect'' then subcmdInspect G args
        else os_Exit 1 '''')"

section \<open>The lab node\<close>

record lab_vars = lab_flags +
  lv_runAgent :: string
  lv_budget :: rat
  lv_manifest :: string
  lv_migrateAgent :: string
  lv_to :: string
  lv_wasm :: string
  lv_inspectCheckpoint :: string
  lv_inspectWASM :: string
  lv_simulate :: bool
  lv_ticks :: int
  lv_verify :: bool
  lv_deterministic :: bool
  lv_seed :: uint64

definition lab_flag_set :: "conversions \<Rightarrow> lab_vars flag_def list" where
  "lab_flag_set cv =
     [flag_var ''run-agent'' Inr (\<lambda>v f. f\<lparr>lv_runAgent := v\<rparr>),
      flag_var ''budget'' (cv_ParseFloat cv) (\<lambda>v f. f\<lparr>lv_budget := v\<rparr>),
      flag_var ''manifest'' Inr (\<lambda>v f. f\<lparr>lv_manifest := v\<rparr>),
      flag_var ''migrate-agent'' Inr (\<lambda>v f. f\<lparr>lv_migrateAgent := v\<rparr>),
      flag_var ''to'' Inr (\<lambda>v f. f\<lparr>lv_to := v\<rparr>),
      flag_var ''wasm'' Inr (\<lambda>v f. f\<lparr>lv_wasm := v\<rparr>),
      flag_var ''replay-window'' (cv_ParseInt cv) (\<lambda>v f. f\<lparr>fl_replayWindow := v\<rparr>),
      flag_var ''verify-interval'' (cv_ParseInt cv) (\<lambda>v f. f\<lparr>fl_verifyInterval := v\<rparr>),
      flag_var ''replay-mode'' Inr (\<lambda>v f. f\<lparr>fl_replayMode := v\<rparr>),
      bool_var ''replay-cost-log'' (\<lambda>v f. f\<lparr>fl_replayCostLog := v\<rparr>),
      flag_var ''replay-on-divergence'' Inr (\<lambda>v f. f\<lparr>fl_replayOnDivergence := v\<rparr>),
      flag_var ''inspect-checkpoint'' Inr (\<lambda>v f. f\<lparr>lv_inspectCheckpoint := v\<rparr>),
      flag_var ''inspect-wasm'' Inr (\<lambda>v f. f\<lparr>lv_inspectWASM := v\<rparr>),
      bool_var ''simulate'' (\<lambda>v f. f\<lparr>lv_simulate := v\<rparr>),
      flag_var ''ticks'' (cv_ParseInt cv) (\<lambda>v f. f\<lparr>lv_ticks := v\<rparr>),
      bool_var ''verify'' (\<lambda>v f. f\<lparr>lv_verify := v\<rparr>),
      bool_var ''deterministic'' (\<lambda>v f. f\<lparr>lv_deterministic := v\<rparr>),
      flag_var ''seed'' (cv_ParseUint cv) (\<lambda>v f. f\<lparr>lv_seed := v\<rparr>),
      flag_var ''lease-duration'' (cv_ParseDuration cv) (\<lambda>v f. f\<lparr>fl_leaseDuration := v\<rparr>),
      flag_var ''lease-grace'' (cv_ParseDuration cv) (\<lambda>v f. f\<lparr>fl_leaseGrace := v\<rparr>),
      flag_var ''migration-retries'' (cv_ParseInt cv) (\<lambda>v f. f\<lparr>fl_migrationRetries := v\<rparr>),
      flag_var ''migration-retry-delay'' (cv_ParseDuration cv) (\<lambda>v f. f\<lparr>fl_migrationRetryDelay := v\<rparr>)]"

definition lab_defaults :: lab_vars where
  "lab_defaults =
     \<lparr>fl_replayWindow = 0, fl_verifyInterval = 0, fl_replayMode = '''', fl_replayCostLog = False, fl_replayOnDivergence = '''',
      fl_leaseDuration = 60 * Second, fl_leaseGrace = 10 * Second, fl_migrationRetries = 0, fl_migrationRetryDelay = 0,
      lv_runAgent = '''', lv_budget = 1, lv_manifest = '''', lv_migrateAgent = '''', lv_to = '''', lv_wasm = '''',
      lv_inspectCheckpoint = '''', lv_inspectWASM = '''', lv_simulate = False, lv_ticks = 0, lv_verify = False,
      lv_deterministic = False, lv_seed = 0\<rparr>"

text \<open>What a process of the lab node takes from outside.  \<open>le_host\<close> holds the parts of the migration service that come from
  libp2p, the engine and the file system; the process adds its storage and its configuration.\<close>

record ('m, 'a) lab_env =
  le_host :: "('m, os_state, 'a) Service"
  le_net :: p2p_net
  le_libp2p :: "string \<Rightarrow> unit result"
  le_transfers :: transfers
  le_sim :: "'m sim_system"
  le_elapsed :: "nat \<Rightarrow> int64"
  le_keygen :: "(bytes \<times> bytes) result"
  le_nodeID :: string
  le_conv :: conversions
  le_outOfRange :: int64
  le_showDuration :: "int64 \<Rightarrow> string"
  le_showFloat :: "rat \<Rightarrow> string"
  le_now :: instant
  le_events :: "('m, os_state, 'a) loop_event list"
  le_world :: "(os_state, 'a) world"

text \<open>How a process ends: with a status and standard output and nothing else, after a migration, after the tick loop of an agent
  (\<open>None\<close> in place of the status: it is still running), or serving until it is interrupted.\<close>

datatype ('m, 'a) lab_end =
    LabStopped nat string
  | LabMigrated nat "('m, os_state, 'a) node"
  | LabRan "nat option" "('m, os_state, 'a) lab_state option"
  | LabServing "('m, os_state, 'a) node"

definition runInspector :: "crypto \<Rightarrow> (string \<Rightarrow> bytes result) \<Rightarrow> string \<Rightarrow> string \<Rightarrow> ('m, 'a) lab_end" where
  "runInspector C read_file path wasmPath =
     (case inspect_report C read_file path wasmPath of Inl _ \<Rightarrow> LabStopped 1 '''' | Inr r \<Rightarrow> LabStopped 0 (Print r))"

definition runSimulator ::
    "('m, 'a) lab_env \<Rightarrow> string \<Rightarrow> string \<Rightarrow> rat \<Rightarrow> int \<Rightarrow> bool \<Rightarrow> bool \<Rightarrow> uint64 \<Rightarrow> ('m, 'a) lab_end" where
  "runSimulator L wasmPath manifestPath budgetVal ticks verify deterministic seed =
     (let cfg = \<lparr>sc_WASMPath = wasmPath, sc_ManifestPath = manifestPath, sc_Budget = to_microcents (le_outOfRange L) budgetVal,
                 sc_PricePerSecond = 0, sc_Ticks = ticks, sc_Verify = verify, sc_Deterministic = deterministic, sc_RandSeed = seed,
                 sc_ClockStart = 0, sc_ClockDelta = 0\<rparr>
      in case sim_Run (le_sim L) cfg (le_elapsed L) of
           Inl _ \<Rightarrow> LabStopped 1 ''''
         | Inr result \<Rightarrow> LabStopped (if length (sr_Errors result) > 0 then 1 else 0) '''')"

text \<open>\<open>migration.NewService\<close> with the node's configuration, and the node it serves.\<close>

definition migration_NewService :: "('m, os_state, 'a) Service \<Rightarrow> Config \<Rightarrow> ('m, os_state, 'a) Service" where
  "migration_NewService H cfg =
     H\<lparr>ms_system := at_dir (cfg_CheckpointDir cfg) (ms_system H), ms_replayMode := cfg_ReplayMode cfg,
       ms_pricePerSecond := cfg_PricePerSecond cfg, ms_leaseConfig := lease_config cfg\<rparr>"

definition fresh_node :: "('s, 'a) world \<Rightarrow> ('m, 's, 'a) node" where
  "fresh_node w = \<lparr>nd_heap = [], nd_active = [], nd_nodeCapabilities = None, nd_world = w\<rparr>"

text \<open>The branches of \<open>main\<close> after the services have been created.\<close>

definition lab_serve :: "('m, 'a) lab_env \<Rightarrow> lab_vars \<Rightarrow> Config \<Rightarrow> (os_state, 'a) world \<Rightarrow> ('m, 'a) lab_end" where
  "lab_serve L f cfg w =
     (let sv = migration_NewService (le_host L) cfg;
          nd = fresh_node w
      in if lv_migrateAgent f \<noteq> '''' then
           (if lv_to f = '''' then LabStopped 1 ''''
            else if lv_wasm f = '''' then LabStopped 1 ''''
            else case MigrateAgent sv (le_transfers L) (lv_migrateAgent f) (lv_wasm f) (lv_to f) nd of
                   (Inl _, nd) \<Rightarrow> LabMigrated 1 nd
                 | (Inr _, nd) \<Rightarrow> LabMigrated 0 nd)
         else if lv_runAgent f \<noteq> '''' then
           (case runLocalAgent (ms_system sv) (ms_wasi sv) (ms_engine sv) (ms_decode sv) (ms_readFile sv) (le_keygen L) (ms_hostKey sv) (ms_nodeID sv) cfg
                   (lv_runAgent f) (to_microcents (le_outOfRange L) (lv_budget f)) (lv_manifest f) (le_now L) (le_events L) w of
              (ended, st) \<Rightarrow>
                LabRan (case ended of Running \<Rightarrow> None | Exited None \<Rightarrow> Some 0 | Exited (Some _) \<Rightarrow> Some 1) st)
         else LabServing nd)"

definition lab_main :: "('m, 'a) lab_env \<Rightarrow> string list \<Rightarrow> ('m, 'a) lab_end" where
  "lab_main L args =
     (case exit_on_error (flag_Parse (lab_flag_set (le_conv L)) args lab_defaults) of
        Inl n \<Rightarrow> LabStopped n ''''
      | Inr (f, _) \<Rightarrow>
        if lv_inspectCheckpoint f \<noteq> ''''
        then runInspector (sy_crypto (ms_system (le_host L))) (ms_readFile (le_host L)) (lv_inspectCheckpoint f) (lv_inspectWASM f)
        else if lv_simulate f \<and> lv_runAgent f \<noteq> ''''
        then runSimulator L (lv_runAgent f) (lv_manifest f) (lv_budget f) (lv_ticks f) (lv_verify f) (lv_deterministic f) (lv_seed f)
        else (case config_Load (le_showDuration L) (le_showFloat L) (le_nodeID L) of
          Inl _ \<Rightarrow> LabStopped 1 ''''
        | Inr cfg \<Rightarrow>
          let cfg = applyCLIOverrides (lab_flags.truncate f) cfg
          in (case NewNode (le_net L) (le_libp2p L) (cfg_ListenAddress cfg) (cfg_BootstrapPeers cfg) of
               Inl _ \<Rightarrow> LabStopped 1 ''''
             | Inr _ \<Rightarrow>
               (case NewFSProvider (cfg_CheckpointDir cfg) (wo_store (le_world L)) of
                  (Inl _, _) \<Rightarrow> LabStopped 1 ''''
                | (Inr _, s) \<Rightarrow>
                  (case NewEngine (ms_wasi (le_host L)) (ms_engine (le_host L)) of
                     Inl _ \<Rightarrow> LabStopped 1 ''''
                   | Inr _ \<Rightarrow> lab_serve L f cfg ((le_world L)\<lparr>wo_store := s\<rparr>))))))"

section \<open>Flags come first\<close>

text \<open>Flags with their values as separate arguments, and what setting them one after the other gives.\<close>

definition flag_args :: "(string \<times> string) list \<Rightarrow> string list" where
  "flag_args as = concat (map (\<lambda>(n, v). [''--'' @ n, v]) as)"

fun assign_flags :: "'f flag_def list \<Rightarrow> (string \<times> string) list \<Rightarrow> 'f \<Rightarrow> 'f option" where
  "assign_flags fs [] f = Some f"
| "assign_flags fs ((n, v) # as) f =
     (case find (\<lambda>d. fg_name d = n) fs of
        None \<Rightarrow> None
      | Some d \<Rightarrow> (case fg_set d v f of Inl _ \<Rightarrow> None | Inr f \<Rightarrow> assign_flags fs as f))"

definition plain_name :: "string \<Rightarrow> bool" where
  "plain_name n \<longleftrightarrow> n \<noteq> [] \<and> hd n \<noteq> CHR ''-'' \<and> CHR ''='' \<notin> set n"

definition value_flags :: "'f flag_def list \<Rightarrow> bool" where
  "value_flags fs \<longleftrightarrow> (\<forall>d\<in>set fs. plain_name (fg_name d) \<and> \<not> fg_bool d)"

lemma split_plain: "plain_name n \<Longrightarrow> split_value n = (n, None)"
  by (cases n) (auto simp: plain_name_def split_value_def Let_def)

lemma flag_Parse_stops: "\<not> is_flag p \<Longrightarrow> flag_Parse fs (p # rest) f = Parsed f (p # rest)"
  by (simp add: flag_Parse.simps)

lemma flag_Parse_assigns:
  assumes "value_flags fs" "assign_flags fs as f = Some f'"
  shows "flag_Parse fs (flag_args as @ rest) f = flag_Parse fs rest f'"
  using assms(2)
proof (induction as arbitrary: f)
  case (Cons a as)
  obtain n v where a: "a = (n, v)" by fastforce
  from Cons.prems obtain d g where d: "find (\<lambda>d. fg_name d = n) fs = Some d" "fg_set d v f = Inr g" "assign_flags fs as g = Some f'"
    by (auto simp: a split: option.splits sum.splits)
  then have "d \<in> set fs" "fg_name d = n" by (auto simp: find_Some_iff)
  with assms(1) have n: "plain_name n" "\<not> fg_bool d" by (auto simp: value_flags_def)
  then obtain c cs where c: "n = c # cs" "c \<noteq> CHR ''-''" "c \<noteq> CHR ''=''" by (cases n) (auto simp: plain_name_def)
  have "flag_Parse fs ((''--'' @ n) # v # flag_args as @ rest) f = flag_Parse fs (flag_args as @ rest) g"
    using d(1,2) n split_plain [OF n(1)] c by (simp add: flag_Parse.simps is_flag_def set_value_def Let_def)
  with Cons.IH [OF d(3)] show ?case by (simp add: a flag_args_def)
qed (simp add: flag_args_def)

lemma value_run_flags: "value_flags (run_flags cv)"
  by (simp add: value_flags_def run_flags_def flag_var_def plain_name_def)

text \<open>An environment whose history directory holds one checkpoint of version 3.\<close>

definition example_igord :: "(example_agent, Receipt list) igord_env" where
  "example_igord =
     \<lparr>ge_system = example_system, ge_wasi = Inr (), ge_engine = example_engine, ge_decode = (\<lambda>_. Inl (NewError ''json'')), ge_readFile = (\<lambda>_. Inr (build_v3 sample_fields [9])),
      ge_readDir = (\<lambda>_. Inr [(''0000000001.ckpt'', False)]), ge_keygen = Inl ErrNotExist,
      ge_conv = \<lparr>cv_ParseFloat = (\<lambda>s. Inr (if s = ''5'' then 5 else 7)), cv_ParseInt = (\<lambda>_. Inr 1), cv_ParseUint = (\<lambda>_. Inr 1), cv_ParseDuration = (\<lambda>_. Inr 1)\<rparr>,
      ge_outOfRange = 0, ge_events = [], ge_world = example_world\<rparr>"



section \<open>Exit status of the verifier\<close>

text \<open>
  The exit status of \<open>igord verify\<close> is the verdict: it is 0 exactly when the directory has checkpoint files, all of them can be read, and they are
  a valid history; in every other case the command fails.
\<close>

theorem igord_verify_exit:
  assumes "\<not> is_flag historyDir"
  shows "pc_exit (igord_main G (''verify'' # historyDir # rest)) = Some 0 \<longleftrightarrow>
    (\<exists>files ds. listCheckpointFiles (ge_readDir G historyDir) historyDir = Inr files \<and> map (ge_readFile G) files = map Inr ds \<and>
       history_ok (sy_crypto (ge_system G)) ds)"
proof (cases "listCheckpointFiles (ge_readDir G historyDir) historyDir")
  case (Inl e)
  with assms show ?thesis by (simp add: igord_main_def subcmdVerify_def exit_on_error_def flag_Parse_stops VerifyChain_def os_Exit_def)
next
  case (Inr files)
  from VerifyChain_accepts [OF this, of "sy_crypto (ge_system G)" "ge_readFile G"] Inr assms show ?thesis
    by (auto simp: igord_main_def subcmdVerify_def exit_on_error_def flag_Parse_stops os_Exit_def split: sum.split)
qed

theorem igord_verify_exit_witness: "pc_exit (igord_main example_igord [''verify'', ''h'']) = Some 0"
proof -
  have "\<not> is_flag ''h''" by (simp add: is_flag_def)
  have l: "listCheckpointFiles (ge_readDir example_igord ''h'') ''h'' = Inr [''h/0000000001.ckpt'']" by (simp add: example_igord_def) code_simp
  have "history_ok (sy_crypto (ge_system example_igord)) [build_v3 sample_fields [9]]"
    using parse_build_v3 [OF wf_sample_fields, of "[9]"] by (simp add: history_ok_def header_of_fields_def)
  with igord_verify_exit [OF \<open>\<not> is_flag ''h''\<close>, of example_igord "[]"] l show ?thesis
    by (simp, intro exI [of _ "[build_v3 sample_fields [9]]"]) (simp add: example_igord_def)
qed

lemma PrintChain_valid:
  assumes "ic_ChainValid r"
  shows "\<exists>out. PrintChain r = out @ line (''Lineage:        VALID (all '' @ dec_nat (ic_Checkpoints r) @ '' signatures verified, chain unbroken)'')"
  unfolding PrintChain_def if_P [OF assms] append_assoc [symmetric] by (rule exI) (rule refl)

text \<open>
  What a valid verdict says is not always true: a history that consists of one checkpoint of version 3, which has no signature at all, is reported
  as valid with all of its signatures verified.
\<close>

theorem igord_verify_unsigned:
  assumes "wf_fields f" "ge_readDir G dir = Inr [(name, False)]" "has_suffix name ''.ckpt''" "\<And>p. ge_readFile G p = Inr (build_v3 f state)"
    and "\<not> is_flag dir"
  shows "\<exists>out. igord_main G [''verify'', dir] = os_Exit 0 (out @ line ''Lineage:        VALID (all 1 signatures verified, chain unbroken)'')"
proof -
  have p: "ParseCheckpointHeader (build_v3 f state) = Inr (header_of_fields f, state)" using parse_build_v3 [OF assms(1)] .
  have l: "listCheckpointFiles (ge_readDir G dir) dir = Inr [filepath_Join [dir, name]]" using assms(2,3) by (simp add: listCheckpointFiles_def Let_def)
  obtain r where r: "VerifyChain (sy_crypto (ge_system G)) (ge_readDir G dir) (ge_readFile G) dir = Inr r" "ic_ChainValid r" "ic_Checkpoints r = 1"
    using l assms(4) p
    by (simp add: VerifyChain_def verifyCheckpoint_def verifyLineage_def updateSegments_def header_of_fields_def new_chain_result_def new_chain_state_def Let_def)
  then have "igord_main G [''verify'', dir] = os_Exit 0 (PrintChain r)"
    using assms(5) by (simp add: igord_main_def subcmdVerify_def exit_on_error_def flag_Parse_stops)
  moreover have "dec_nat 1 = ''1''" by code_simp
  ultimately show ?thesis using PrintChain_valid [OF r(2)] r(3) by auto
qed

theorem igord_verify_unsigned_witness:
  "\<exists>out. igord_main example_igord [''verify'', ''h''] = os_Exit 0 (out @ line ''Lineage:        VALID (all 1 signatures verified, chain unbroken)'')"
proof (rule igord_verify_unsigned [OF wf_sample_fields])
  show "ge_readDir example_igord ''h'' = Inr [(''0000000001.ckpt'', False)]" "has_suffix ''0000000001.ckpt'' ''.ckpt''" "\<not> is_flag ''h''"
    by (simp_all add: example_igord_def has_suffix_def is_flag_def)
  show "ge_readFile example_igord p = Inr (build_v3 sample_fields [9])" for p by (simp add: example_igord_def)
qed

section \<open>Migrating from the command line\<close>

lemma delete_blob_clears:
  assumes "no_faults s" "delete_blob path what s = (r, s')"
  shows "no_faults s' \<and> stored_at path s' = None \<and> (valid_path path \<longrightarrow> r = Inr ())"
proof (cases path)
  case (Inr p)
  obtain q s1 where q: "os_Remove p s = (q, s1)" by fastforce
  have "q = Inr () \<or> q = Inl ErrNotExist"
    using q next_fault_no_faults [OF assms(1)] by (auto simp: os_Remove_def split: prod.splits option.splits if_splits)
  then have r: "r = Inr ()" "s' = s1" using assms(2) q by (auto simp: delete_blob_def Inr)
  with delete_blob_stored [OF assms(2)] no_faults_os_call(7) [OF assms(1) q] show ?thesis by simp
qed (use assms in \<open>auto simp: delete_blob_def stored_at_def valid_path_def\<close>)

text \<open>A service without an instance of the agent migrates its stored checkpoint alone: no identity is in the package, and none is left in the store.\<close>

lemma MigrateAgent_inactive:
  assumes "MigrateAgent sv net agentID wasmPath target nd = (Inr u, nd')" "nd_active nd = []"
    and "ms_storage sv = fs_provider dir" "no_faults (wo_store (nd_world nd))"
  shows "stored_at (identityPath dir agentID) (wo_store (nd_world nd')) = None"
    "\<exists>pkg. sent_package sv agentID wasmPath nd = Some pkg \<and> migrateToTarget (net target 0 pkg) = Inr () \<and> pk_AgentIdentity pkg = []"
proof -
  have a: "GetActiveInstance agentID n = None" if "nd_active n = []" for n :: "('a, os_state, 'b) node" using that by (simp add: GetActiveInstance_def)
  have h: "initiate_handoff agentID nd = (Inr (), nd)" using a [OF assms(2)] by (simp add: initiate_handoff_def)
  obtain r1 s1 where l: "LoadCheckpoint dir agentID (wo_store (nd_world nd)) = (r1, s1)" by fastforce
  obtain r2 s2 where rc: "LoadReceipts dir agentID s1 = (r2, s2)" by fastforce
  obtain r3 nd3 where b: "buildMigrationPackage sv agentID wasmPath nd = (r3, nd3)" by fastforce
  from assms(1) h b obtain pkg li where r3: "r3 = Inr (pkg, li)" "migrateToTarget (net target 0 pkg) = Inr ()" "nd' = finalizeMigration sv agentID li nd3"
    by (auto simp: MigrateAgent_def split: sum.splits prod.splits)
  have p: "li = None" "pk_AgentIdentity pkg = []" "nd_active nd3 = []" "wo_store (nd_world nd3) = s2" "\<exists>c. r1 = Inr c"
    using b r3(1) l rc assms(2,3)
    by (auto simp: buildMigrationPackage_def with_store_def fs_provider_def GetActiveInstance_def Let_def split: sum.splits prod.splits)
  have nf: "no_faults s2" using load_blob_no_faults [OF assms(4)] load_blob_no_faults l rc unfolding LoadCheckpoint_def LoadReceipts_def by metis
  have v: "valid_path (checkpointPath dir agentID)"
    using p(5) l load_blob_ok stored_valid unfolding LoadCheckpoint_def by (metis option.distinct(1))
  obtain q1 t1 where d1: "DeleteCheckpoint dir agentID s2 = (q1, t1)" by fastforce
  obtain q2 t2 where d2: "DeleteReceipts dir agentID t1 = (q2, t2)" by fastforce
  obtain q3 t3 where d3: "DeleteIdentity dir agentID t2 = (q3, t3)" by fastforce
  have k1: "no_faults t1 \<and> q1 = Inr ()" using delete_blob_clears [OF nf d1 [unfolded DeleteCheckpoint_def]] v by simp
  have k2: "no_faults t2" using delete_blob_clears [OF _ d2 [unfolded DeleteReceipts_def]] k1 by blast
  have k3: "stored_at (identityPath dir agentID) t3 = None" using delete_blob_clears [OF k2 d3 [unfolded DeleteIdentity_def]] by blast
  have "wo_store (nd_world nd') = t3"
    using r3(3) p(1,4) d1 d2 d3 k1 assms(3) by (simp add: finalizeMigration_def cleanupLocalAgent_def with_store_def fs_provider_def Let_def)
  with k3 show "stored_at (identityPath dir agentID) (wo_store (nd_world nd')) = None" by simp
  show "\<exists>pkg. sent_package sv agentID wasmPath nd = Some pkg \<and> migrateToTarget (net target 0 pkg) = Inr () \<and> pk_AgentIdentity pkg = []"
    using h b r3 p(2) by (simp add: sent_package_def)
qed

lemma loadAgent_log: "loadAgent S E decode wasmBytes a ev = (Inr i, ev') \<Longrightarrow> wf_event_log (in_EventLog i)"
  using LoadAgent_log [of S E decode "\<lambda>_. Inr wasmBytes" "''''" a ev i ev'] by (simp add: LoadAgent_def)

lemma loadAgent_identity: "loadAgent S E decode wasmBytes a ev = (Inr i, ev') \<Longrightarrow> in_AgentIdentity i = la_identity a"
  by (auto simp: loadAgent_def Let_def new_instance_def bindR_Inr_iff split: sum.splits prod.splits)

lemma agent_Init_spent:
  assumes "agent_Init S i w = (Inr u, i', w')" "wf_event_log (in_EventLog i)"
  shows "spent i i' \<and> wf_event_log (in_EventLog i')"
  using assms agent_call_spent [of S "sy_fuel S" "''agent_init''" "[]" i w] by (auto simp: agent_Init_def split: if_splits sum.splits prod.splits)

lemma Resume_identity:
  assumes "Resume S state i w = (r, i', w')" "wf_event_log (in_EventLog i)"
  shows "in_AgentIdentity i' = in_AgentIdentity i"
proof -
  have k: "in_AgentIdentity j' = in_AgentIdentity j \<and> wf_event_log (in_EventLog j')"
    if "agent_call S fuel name args j v = (q, j', v')" "wf_event_log (in_EventLog j)" for fuel name args j v q j' v'
    using agent_call_spent [OF that] spent_fields(7) by blast
  obtain q j v where c: "agent_call S (sy_fuel S) ''malloc'' [of_nat (length state)] i w = (q, j, v)" using prod_cases3 by blast
  note kc = k [OF c assms(2)]
  have a: "in_AgentIdentity i' = in_AgentIdentity i" if "agent_call S (sy_fuel S) ''agent_resume'' [0, 0] i w = (q, i', v)" for q v
    using k [OF that assms(2)] by blast
  have b: "in_AgentIdentity j' = in_AgentIdentity i" if "agent_call S (sy_fuel S) name args (j\<lparr>in_Module := m\<rparr>) v = (q, j', v')" for name args m q j' v'
    using k [OF that] kc by simp
  from assms(1) kc show ?thesis
    by (auto simp: Resume_def c Let_def dest: a b split: if_splits sum.splits prod.splits option.splits)
qed

lemma LoadCheckpoint_identity:
  assumes "LoadCheckpointFromStorage S i w = (r, i', w')" "wf_event_log (in_EventLog i)"
  shows "in_AgentIdentity i' = in_AgentIdentity i"
proof -
  have r: "in_AgentIdentity (restore_receipts d j) = in_AgentIdentity j" "in_EventLog (restore_receipts d j) = in_EventLog j" for d and j :: "'a Instance"
    by (simp_all add: restore_receipts_def Let_def split: sum.split)
  have "in_AgentIdentity i' = in_AgentIdentity (restore_receipts d j)"
    if "Resume S state (restore_receipts d j) v = (q, i', w')" "in_EventLog j = in_EventLog i" for state d j v q
    using Resume_identity [OF that(1)] that(2) assms(2) r(2) by simp
  note k = this [unfolded r]
  from assms(1) show ?thesis
    by (auto simp: LoadCheckpointFromStorage_def Let_def dest!: k split: if_splits sum.splits prod.splits)
qed

text \<open>An agent that arrives without an identity runs without one.\<close>

lemma arrives_without_identity:
  assumes "handleIncomingMigration sv now (Inr transfer) nd = (st, nd')" "as_Success st" "pk_AgentIdentity (tr_Package transfer) = []"
  shows "\<exists>i. nd_heap nd' = nd_heap nd @ [i] \<and> in_AgentIdentity i = None"
proof -
  let ?pkg = "tr_Package transfer"
  have a: "accept_package sv now ?pkg nd = (st, nd')"
    using assms(1,2) by (auto simp: handleIncomingMigration_def Let_def sendStartConfirmation_def split: if_splits sum.splits option.splits)
  obtain q1 nd1 where s: "with_store (pv_SaveCheckpoint (ms_storage sv) (pk_AgentID ?pkg) (pk_Checkpoint ?pkg)) nd = (q1, nd1)" by fastforce
  define nd2 where "nd2 = (if length (pk_Receipts ?pkg) > 0
    then snd (with_store (pv_SaveReceipts (ms_storage sv) (pk_AgentID ?pkg) (pk_Receipts ?pkg)) nd1) else nd1)"
  obtain q3 nd3 where l: "loadMigratedAgent sv ?pkg nd2 = (q3, nd3)" by fastforce
  have h: "nd_heap nd3 = nd_heap nd" using with_store_frame [OF s] loadMigratedAgent_frame [OF l] by (simp add: nd2_def)
  from a assms(2) s l obtain i where i: "q3 = Inr i" by (auto simp: accept_package_def sendStartConfirmation_def nd2_def Let_def split: sum.splits)
  from l i assms(3) obtain a i0 ev i1 w1 w2 where
    ld: "loadAgent (ms_system sv) (ms_engine sv) (ms_decode sv) (pk_WASMBinary ?pkg) a (wo_env (nd_world nd2)) = (Inr i0, ev)" "la_identity a = None"
    and ini: "agent_Init (ms_system sv) i0 ((nd_world nd2)\<lparr>wo_env := ev\<rparr>) = (Inr (), i1, w1)"
    and rs: "LoadCheckpointFromStorage (ms_system sv) i1 w1 = (Inr (), i, w2)"
    by (auto simp: loadMigratedAgent_def restoreAgentIdentity_def LoadAgentFromBytes_def Let_def split: sum.splits prod.splits)
  have "in_AgentIdentity i = None"
    using LoadCheckpoint_identity [OF rs] agent_Init_spent [OF ini loadAgent_log [OF ld(1)]] spent_fields(7) [of i0 i1] loadAgent_identity [OF ld(1)] ld(2)
    by simp
  with a s l i h assms(2) show ?thesis
    by (auto simp: accept_package_def sendStartConfirmation_def nd2_def RegisterAgent_def Let_def split: sum.splits)
qed

text \<open>
  C35 Migrating with \<open>igord-lab --migrate-agent\<close> loses the identity of the agent.  The command starts a migration service that has no instance of the agent,
  so the package it sends carries no identity; after a successful transfer it deletes the stored one.  So, when nothing fails, the identity can no longer be loaded at
  the source, and whichever node accepts the package runs the agent without an identity: its checkpoints are unsigned from then on.
\<close>

theorem lab_migration_loses_identity:
  assumes "lab_main L [''--migrate-agent'', agentID, ''--to'', target, ''--wasm'', wasmPath] = LabMigrated 0 nd"
    and "no_faults (wo_store (le_world L))"
  shows "(\<forall>d. fst (LoadIdentity ''./checkpoints'' agentID (wo_store (nd_world nd))) \<noteq> Inr d) \<and>
    (\<exists>cfg w pkg. sent_package (migration_NewService (le_host L) cfg) agentID wasmPath (fresh_node w) = Some pkg \<and>
       migrateToTarget (le_transfers L target 0 pkg) = Inr () \<and>
       (\<forall>sv now src ndB st ndB'. handleIncomingMigration sv now (Inr \<lparr>tr_Package = pkg, tr_SourceNodeID = src\<rparr>) ndB = (st, ndB') \<and> as_Success st \<longrightarrow>
          (\<exists>i. nd_heap ndB' = nd_heap ndB @ [i] \<and> in_AgentIdentity i = None)))"
proof -
  let ?args = "[''--migrate-agent'', agentID, ''--to'', target, ''--wasm'', wasmPath]"
  define f where "f = lab_defaults\<lparr>lv_migrateAgent := agentID, lv_to := target, lv_wasm := wasmPath\<rparr>"
  have p: "flag_Parse (lab_flag_set (le_conv L)) ?args lab_defaults = Parsed f []"
    by (simp add: flag_Parse.simps f_def lab_flag_set_def is_flag_def split_value_def Let_def flag_var_def bool_var_def set_value_def)
  define cfg where "cfg = applyCLIOverrides (lab_flags.truncate f) (default_config (le_nodeID L))"
  have cfg: "cfg_CheckpointDir cfg = ''./checkpoints''" by (simp add: cfg_def applyCLIOverrides_def default_config_def Let_def)
  have f: "lv_inspectCheckpoint f = ''''" "\<not> lv_simulate f" "lv_runAgent f = ''''" by (simp_all add: f_def lab_defaults_def)
  from assms(1) obtain b s where s: "NewFSProvider ''./checkpoints'' (wo_store (le_world L)) = (Inr b, s)"
    and sv: "lab_serve L f cfg ((le_world L)\<lparr>wo_store := s\<rparr>) = LabMigrated 0 nd"
    by (auto simp: lab_main_def p exit_on_error_def f config_Load_ok cfg simp flip: cfg_def split: sum.splits prod.splits)
  have nf: "no_faults s"
  proof -
    obtain r m where m: "os_MkdirAll ''./checkpoints'' (wo_store (le_world L)) = (r, m)" by fastforce
    from no_faults_os_call(5) [OF assms(2) m] remove_all_effect [of "glob_suffix ''./checkpoints'' ''.tmp'' m" m] s m show ?thesis
      by (auto simp: NewFSProvider_def cleanStaleTempFiles_def split: sum.splits)
  qed
  let ?sv = "migration_NewService (le_host L) cfg" and ?nd = "fresh_node ((le_world L)\<lparr>wo_store := s\<rparr>) :: ('a, os_state, 'b) node"
  from sv f obtain u where m: "MigrateAgent ?sv (le_transfers L) agentID wasmPath target ?nd = (Inr u, nd)"
    by (auto simp: lab_serve_def Let_def f_def split: if_splits sum.splits prod.splits)
  have fresh: "nd_active ?nd = []" "ms_storage ?sv = fs_provider ''./checkpoints''" "no_faults (wo_store (nd_world ?nd))"
    using nf by (simp_all add: fresh_node_def migration_NewService_def at_dir_def cfg)
  note k = MigrateAgent_inactive [OF m fresh]
  from k(1) idn.load_ok [of "''./checkpoints''" agentID "wo_store (nd_world nd)"]
  have "\<forall>d. fst (LoadIdentity ''./checkpoints'' agentID (wo_store (nd_world nd))) \<noteq> Inr d" by (metis option.distinct(1) prod.collapse)
  moreover from k(2) obtain pkg where "sent_package ?sv agentID wasmPath ?nd = Some pkg" "migrateToTarget (le_transfers L target 0 pkg) = Inr ()"
    "pk_AgentIdentity pkg = []" by blast
  moreover have "\<forall>sv now src ndB st ndB'. handleIncomingMigration sv now (Inr \<lparr>tr_Package = pkg, tr_SourceNodeID = src\<rparr>) ndB = (st, ndB') \<and> as_Success st \<longrightarrow>
      (\<exists>i. nd_heap ndB' = nd_heap ndB @ [i] \<and> in_AgentIdentity i = None)"
    using arrives_without_identity calculation(4) by fastforce
  ultimately show ?thesis by blast
qed

definition example_lab :: "(example_agent, Receipt list) lab_env" where
  "example_lab =
     \<lparr>le_host = example_service, le_net = example_net, le_libp2p = (\<lambda>_. Inr ()),
      le_transfers = (\<lambda>_ _ _. transfer_outcome.Confirmed \<lparr>as_AgentID = ''a'', as_NodeID = ''n'', as_Success = True, as_Error = ''''\<rparr>),
      le_sim = example_sim, le_elapsed = (\<lambda>_. 0), le_keygen = Inl ErrNotExist, le_nodeID = ''n'',
      le_conv = \<lparr>cv_ParseFloat = (\<lambda>_. Inr 1), cv_ParseInt = (\<lambda>_. Inr 1), cv_ParseUint = (\<lambda>_. Inr 1), cv_ParseDuration = (\<lambda>_. Inr 1)\<rparr>,
      le_outOfRange = 0, le_showDuration = (\<lambda>_. ''''), le_showFloat = (\<lambda>_. ''''), le_now = 0, le_events = [],
      le_world = example_world\<lparr>wo_store := \<lparr>os_files = [(''checkpoints/a.checkpoint'', ([9], True)), (''checkpoints/a.identity'', ([1, 2], True))],
        os_faults = [], os_trace = []\<rparr>\<rparr>\<rparr>"

lemma example_lab_migrates:
  "(case lab_main example_lab [''--migrate-agent'', ''a'', ''--to'', ''t'', ''--wasm'', ''w''] of LabMigrated n _ \<Rightarrow> n = 0 | _ \<Rightarrow> False)"
  by code_simp

theorem lab_migration_loses_identity_witness:
  "\<exists>nd. lab_main example_lab [''--migrate-agent'', ''a'', ''--to'', ''t'', ''--wasm'', ''w''] = LabMigrated 0 nd \<and>
     fst (LoadIdentity ''./checkpoints'' ''a'' (wo_store (le_world example_lab))) = Inr [1, 2] \<and>
     fst (LoadIdentity ''./checkpoints'' ''a'' (wo_store (nd_world nd))) \<noteq> Inr [1, 2]"
proof -
  from example_lab_migrates obtain nd where nd: "lab_main example_lab [''--migrate-agent'', ''a'', ''--to'', ''t'', ''--wasm'', ''w''] = LabMigrated 0 nd"
    by (auto split: lab_end.splits)
  have "no_faults (wo_store (le_world example_lab))" by (simp add: no_faults_def example_lab_def)
  from lab_migration_loses_identity [OF nd this] have "fst (LoadIdentity ''./checkpoints'' ''a'' (wo_store (nd_world nd))) \<noteq> Inr [1, 2]" by blast
  moreover have "fst (LoadIdentity ''./checkpoints'' ''a'' (wo_store (le_world example_lab))) = Inr [1, 2]" by code_simp
  ultimately show ?thesis using nd by blast
qed

section \<open>Reports are faithful\<close>

text \<open>The cells of a row of the hex dump from column \<open>j\<close> on.\<close>

lemma hex_byte_two: "\<exists>x y. hex_byte b = [x, y] \<and> x \<noteq> CHR '' ''"
proof -
  have "hex_digit n \<noteq> CHR '' ''" if "n < 16" for n
    using that by (auto simp: hex_digit_def nth_Cons split: nat.splits)
  moreover have "unat b div 16 < 16" using unsigned_less [of b, where 'a = nat] by simp
  ultimately show ?thesis by (auto simp: hex_byte_def)
qed

lemma hex_byte_inject: "hex_byte b = hex_byte b' \<Longrightarrow> b = b'"
proof -
  assume h: "hex_byte b = hex_byte b'"
  have d: "distinct ''0123456789abcdef''" by simp
  have u: "unat b div 16 < 16" "unat b' div 16 < 16" using unsigned_less [of b, where 'a = nat] unsigned_less [of b', where 'a = nat] by simp_all
  with h have "unat b div 16 = unat b' div 16" "unat b mod 16 = unat b' mod 16"
    using nth_eq_iff_index_eq [OF d, of "unat b div 16" "unat b' div 16"] nth_eq_iff_index_eq [OF d, of "unat b mod 16" "unat b' mod 16"]
    by (simp_all add: hex_byte_def hex_digit_def)
  then have "unat b = unat b'" by (metis mult_div_mod_eq)
  then show ?thesis by (metis unsigned_word_eqI)
qed

definition hex_cells :: "nat \<Rightarrow> bytes \<Rightarrow> string" where
  "hex_cells j row =
     concat (map (\<lambda>(j, b). hex_byte b @ '' '' @ (if j = 7 then '' '' else '''')) (enumerate j row)) @
     concat (map (\<lambda>j. ''   '' @ (if j = 7 then '' '' else '''')) [j + length row..<16])"

lemma hex_cells_Cons: "hex_cells j (b # row) = hex_byte b @ '' '' @ (if j = 7 then '' '' else '''') @ hex_cells (Suc j) row"
  by (simp add: hex_cells_def)

lemma hex_cells_Nil: "j < 16 \<Longrightarrow> hex_cells j [] = ''   '' @ (if j = 7 then '' '' else '''') @ hex_cells (Suc j) []"
  by (simp add: hex_cells_def upt_rec)

lemma hex_cells_inject:
  assumes "hex_cells j r @ x = hex_cells j r' @ x'" "j + length r \<le> 16" "j + length r' \<le> 16"
  shows "r = r' \<and> x = x'"
  using assms
proof (induction r arbitrary: j r')
  case Nil
  then show ?case
  proof (cases r')
    case (Cons b bs)
    with Nil hex_byte_two [of b] show ?thesis by (auto simp: hex_cells_Cons hex_cells_Nil)
  qed simp
next
  case (Cons b bs)
  show ?case
  proof (cases r')
    case Nil
    with Cons hex_byte_two [of b] show ?thesis by (auto simp: hex_cells_Cons hex_cells_Nil)
  next
    case (Cons b' bs')
    with Cons.prems hex_byte_two [of b] hex_byte_two [of b'] have "hex_byte b = hex_byte b'" "hex_cells (Suc j) bs @ x = hex_cells (Suc j) bs' @ x'"
      by (auto simp: hex_cells_Cons split: if_splits)
    with Cons.IH [of "Suc j" bs'] Cons.prems Cons hex_byte_inject show ?thesis by auto
  qed
qed



lemma hex_row_cells: "hex_row i row = ''  '' @ hex_nat8 i @ ''  '' @ hex_cells 0 row @ '' |'' @ map printable row @ ''|'' @ newline"
  by (simp add: hex_row_def hex_cells_def)

text \<open>
  A hex dump shows every byte: different data have different dumps.
\<close>

theorem printHexDump_inject:
  assumes "printHexDump a = printHexDump b"
  shows "a = b"
proof -
  have "dump_rows i a = dump_rows i b \<Longrightarrow> a = b" for i
  proof (induction i a arbitrary: b rule: dump_rows.induct)
    case (1 i a)
    have ne: "dump_rows i c \<noteq> []" if "c \<noteq> []" for c using that by (subst dump_rows.simps) (simp add: hex_row_cells newline_def)
    show ?case
    proof (cases "a = [] \<or> b = []")
      case True
      with 1 ne show ?thesis by (metis dump_rows.simps)
    next
      case False
      with 1(2) have "hex_row i (take 16 a) @ dump_rows (i + 16) (drop 16 a) = hex_row i (take 16 b) @ dump_rows (i + 16) (drop 16 b)"
        by (simp add: dump_rows.simps [of i a] dump_rows.simps [of i b])
      then have h: "hex_cells 0 (take 16 a) @ ('' |'' @ map printable (take 16 a) @ ''|'' @ newline @ dump_rows (i + 16) (drop 16 a)) =
          hex_cells 0 (take 16 b) @ ('' |'' @ map printable (take 16 b) @ ''|'' @ newline @ dump_rows (i + 16) (drop 16 b))"
        by (simp add: hex_row_cells)
      from hex_cells_inject [OF h] have e: "take 16 a = take 16 b" "dump_rows (i + 16) (drop 16 a) = dump_rows (i + 16) (drop 16 b)" by auto
      from 1(1) [OF _ e(2)] False e(1) show ?thesis by (metis append_take_drop_id)
    qed
  qed
  with assms show ?thesis by (simp only: printHexDump_def)
qed

theorem printHexDump_inject_witness: "printHexDump [65] \<noteq> printHexDump [66]"
  using printHexDump_inject [of "[65]" "[66]"] by auto

lemma civil_year_days:
  "civil_year y d = (y', d') \<Longrightarrow> y \<le> y' \<and> d' < year_days y' \<and> d = (\<Sum>k = y..<y'. year_days k) + d'"
proof (induction y d rule: civil_year.induct)
  case (1 y d)
  show ?case
  proof (cases "d < year_days y")
    case False
    with 1 have "Suc y \<le> y' \<and> d' < year_days y' \<and> d - year_days y = (\<Sum>k = Suc y..<y'. year_days k) + d'" by (simp add: civil_year.simps [of y d])
    moreover from this have "(\<Sum>k = y..<y'. year_days k) = year_days y + (\<Sum>k = Suc y..<y'. year_days k)" by (simp add: sum.atLeast_Suc_lessThan)
    ultimately show ?thesis using False by linarith
  qed (use 1(2) in \<open>simp add: civil_year.simps [of y d]\<close>)
qed

lemma civil_month_days:
  "civil_month ns m d = (m', d') \<Longrightarrow> d < sum_list ns \<Longrightarrow>
     m \<le> m' \<and> m' - m < length ns \<and> d' < ns ! (m' - m) \<and> d = sum_list (take (m' - m) ns) + d'"
proof (induction ns m d rule: civil_month.induct)
  case (2 n ns m d)
  show ?case
  proof (cases "d < n")
    case False
    with 2 have "Suc m \<le> m' \<and> m' - Suc m < length ns \<and> d' < ns ! (m' - Suc m) \<and> d - n = sum_list (take (m' - Suc m) ns) + d'" by simp
    moreover from this have "m' - m = Suc (m' - Suc m)" by (simp add: Suc_diff_Suc)
    ultimately show ?thesis using False by (simp, linarith)
  qed (use 2 in auto)
qed simp

text \<open>
  The dates in reports are exact: the days before the year, the days before the month and the day add up to the days since 1970, the month is one of the year's
  twelve and the day one of the month's.
\<close>

theorem civil_date_exact:
  assumes "civil_year 1970 days = (y, d)" "civil_month (month_days y) 1 d = (m, r)"
  shows "days = (\<Sum>k = 1970..<y. year_days k) + sum_list (take (m - 1) (month_days y)) + r \<and> 1 \<le> m \<and> m \<le> 12 \<and> r < month_days y ! (m - 1)"
proof -
  have "d < sum_list (month_days y)" using civil_year_days [OF assms(1)] by (simp add: month_days_def year_days_def split: if_splits)
  from civil_month_days [OF assms(2) this] civil_year_days [OF assms(1)] show ?thesis by (auto simp: month_days_def)
qed

theorem civil_date_exact_witness:
  "789 = (\<Sum>k = 1970..<1972. year_days k) + sum_list (take 1 (month_days 1972)) + 28"
proof -
  have "civil_year 1970 789 = (1972, 59)" "civil_month (month_days 1972) 1 59 = (2, 28)"
    by (simp_all add: civil_year.simps year_days_def leap_year_def month_days_def)
  from civil_date_exact [OF this] show ?thesis by simp
qed

section \<open>Documented paths\<close>

text \<open>
  Where an agent is stored: started as the manual usage says, with the path \<open>agents/liquidation/agent.wasm\<close> and the default directory, its checkpoint and
  its history are at other paths than the ones the following commands of the same instructions name.
\<close>

theorem documented_paths_differ:
  "agentIDFromPath ''agents/liquidation/agent.wasm'' = ''liquidation'' \<and>
   checkpointPath (rv_checkpointDir run_defaults) ''liquidation'' = Inr ''checkpoints/liquidation.checkpoint'' \<and>
   HistoryDir (rv_checkpointDir run_defaults) ''liquidation'' = ''checkpoints/history/liquidation''"
  by code_simp

end
