(* ===== verification/Spec2Isabelle.thy ===== *)
theory Spec2Isabelle
  imports MigrationSafe ReplaySound Inspector Runner Effects Peers Simulator Treasury Liquidation Watchers Reconciler Deployer Bindings Network Mock Report Cli
begin

text \<open>
  \<^bold>\<open>Igor\<close> is a runtime for agents that outlive the machines they run on.  An agent is a WebAssembly module; a
  node loads it, ticks it, meters what it spends, saves signed checkpoints, and can hand it to another
  node, which may replay the last tick to check that the state it received is the state the agent computed.

  \<^bold>\<open>The parts and the theories that model them\<close> (all sources are under \<open>src/\<close>).

  \<^item> \<open>Prelude\<close>: machine integers as words, byte slices as lists of bytes, Go errors as the datatype \<open>go_error\<close> and
    fallible calls as \<open>go_error + 'a\<close>, slices, little-endian codecs, decimal rendering.  \<open>Float64\<close>: rounding of
    \<open>float64\<close> products.  \<open>Paths\<close>: the lexical functions of \<open>strings\<close> and \<open>path/filepath\<close>.
  \<^item> \<open>Crypto\<close>, \<open>Lineage\<close> (\<open>pkg/lineage\<close>), \<open>Receipt\<close> (\<open>pkg/receipt\<close>), \<open>Identity\<close> (\<open>pkg/identity\<close>), \<open>Budget\<close> (\<open>pkg/budget\<close>),
    \<open>Manifest\<close> (\<open>pkg/manifest\<close>), \<open>Config\<close> (\<open>internal/config\<close> and the flag overrides of the lab node): the data an agent and a node carry.
  \<^item> \<open>EventLog\<close> (\<open>internal/eventlog\<close>): the observations of a tick, stored in an arena, sealed, and kept in a bounded history.
  \<^item> \<open>Authority\<close> (\<open>internal/authority\<close>): epochs and leases.  \<open>Peers\<close> (\<open>internal/registry\<close>): known peers and migration candidates.
  \<^item> \<open>Checkpoint\<close> (the format in \<open>internal/agent/instance.go\<close>), \<open>Storage\<close> (\<open>internal/storage\<close>): headers, and the filesystem
    provider over a model of the system calls it makes: a table of files, a plan of faults, and the trace of
    intermediate tables, each of which is what a crash at that point leaves behind.
  \<^item> \<open>Wasm\<close> (\<open>internal/wasmutil\<close>), \<open>Hostcall\<close> (\<open>internal/hostcall\<close>), \<open>Agent\<close> (\<open>internal/agent\<close>, \<open>internal/runtime\<close>, \<open>internal/settlement\<close>):
    a module as a transition system that returns, traps or makes a host call; the host functions and their registration
    from the manifest; the instance with \<open>Tick\<close>, checkpointing, resuming, receipts and the replay window.
  \<^item> \<open>Replay\<close> (\<open>internal/replay\<close>), \<open>Inspector\<close> (\<open>internal/inspector\<close>), \<open>Migration\<close> (\<open>internal/migration\<close>, \<open>pkg/protocol\<close>),
    \<open>Runner\<close> (\<open>internal/runner\<close> and the loops of \<open>cmd/igord\<close> and \<open>cmd/igord-lab\<close>), \<open>Simulator\<close> (\<open>internal/simulator\<close>).
  \<^item> \<open>Effects\<close> (\<open>sdk/igor/encoding.go\<close>, \<open>sdk/igor/effects.go\<close>): what agents serialise their state and their intents with.
  \<^item> \<open>Sdk\<close> (\<open>sdk/igor\<close>): agents as interaction trees.  A value of type \<open>'a io\<close> is a finished computation, a panic, or a call to the SDK
    with what the agent does for each answer.  The theory has the calls, the exported functions of a module around an agent
    (\<open>lifecycle_wasm.go\<close>), the lives of an agent (ticks, saves, crashes in the middle of a tick, resumes), and the readings of a
    tree that proofs use: \<open>io_wp\<close> (whatever the answers are, the result is right), \<open>io_must\<close> (as long as the answers
    are admissible, it returns and is right), \<open>io_does\<close> (the same for answers given by a stateful world), \<open>io_calls\<close> (which calls it makes).
  \<^item> \<open>Bindings\<close> (\<open>sdk/igor/hostcalls_*_wasm.go\<close>): the same functions inside a compiled agent, where arguments and answers are buffers in the
    memory of the module.  They are composed with the host functions of \<open>Hostcall\<close>, and a tree run over them is a run of the agent's tree.
    \<open>Mock\<close> (\<open>sdk/igor/hostcalls_*_stub.go\<close>, \<open>sdk/igor/mock\<close>): the same functions in a native build, and the runtime that tests install behind them.
  \<^item> The agents, one definition per method, log lines included: \<open>Watchers\<close> (\<open>agents/heartbeat\<close>, \<open>agents/research/example\<close>, \<open>agents/pricewatcher\<close>),
    \<open>Treasury\<close> (\<open>agents/sentinel\<close>), \<open>Liquidation\<close> (\<open>agents/liquidation\<close>), \<open>Reconciler\<close> (\<open>agents/research/reconciliation\<close>),
    \<open>Buyer\<close> (\<open>agents/x402buyer\<close> with its counterpart \<open>cmd/paywall\<close>), \<open>Deployer\<close> (\<open>agents/deployer\<close> with \<open>cmd/mockcloud\<close>).
  \<^item> \<open>Network\<close> (\<open>internal/p2p\<close>, \<open>internal/pricing\<close>): pings, the bootstrap of a node, price queries, and the price scan with one goroutine per
    peer, whose schedules are the runs of the step relation \<open>scan_step\<close>.
  \<^item> \<open>Demo\<close> (\<open>internal/timeline\<close>, \<open>agents/research/reconciliation/cmd/demo\<close>): incident reports, and the demo that loads the reconciler, ticks it, loses a
    node, migrates, replays and reports.  \<open>Report\<close> relates the report to what the agent did.
  \<^item> \<open>Cli\<close> (\<open>cmd/igord\<close>, \<open>cmd/igord-lab\<close>, the reports of \<open>internal/inspector\<close>): both command lines from their arguments to their exit status and output,
    over a model of Go's package \<open>flag\<close> (\<open>flag_Parse\<close>), with the conversions of \<open>strconv\<close> as the record \<open>conversions\<close>.

  A definition has the name of the Go function it models, with a prefix where two packages use one name.  State is passed
  explicitly: an operation takes the records it reads and returns them updated, with its error as a value.  An
  early return is a branch, a deferred clean-up is part of each branch that reaches it.  Time, random
  sources, HTTP answers, elapsed times and panics are arguments, in the order the code consumes them.

  \<^bold>\<open>Interfaces.\<close>  \<open>Storage\<close> states what a blob store promises and interprets it for checkpoints, receipts and identities;
  \<open>wallet_pay_state\<close> (\<open>Hostcall\<close>) is what payments rely on, interpreted by the instance in \<open>Agent\<close>; \<open>host_simulation\<close> and
  \<open>recording_host\<close> (\<open>ReplaySound\<close>) say when one set of host functions stands in for another, interpreted for the live host and,
  in \<open>Simulator\<close>, for the deterministic one; \<open>field_codec\<close> (\<open>Effects\<close>) is one encoder method with its decoder;
  \<open>keyed_less\<close> (\<open>Peers\<close>) is a comparison that sorts by a key; \<open>resumable_agent\<close> (\<open>Sdk\<close>) is an agent whose invariant survives a tick
  and a round trip through its checkpoint, hence any life, interpreted by every agent.

  \<^bold>\<open>What is shown.\<close>

  \<^item> Replay: a recorded tick, replayed, reproduces the state (\<open>ReplaySound\<close>), so that a migration target accepts it and
    self-verification does not escalate (below), and the simulator counts it as verified; the chain replay is the
    single-tick replay of each tick.  Which host calls are not replayable is stated too.
  \<^item> Durability: a save is atomic against a crash at any system call, what was saved is what a later process loads, and
    neither a tick nor a host call earns budget (\<open>Storage\<close>, \<open>Durability\<close>).
  \<^item> Lineage: the verifier accepts exactly the signed, chained and increasing histories; the histories an agent writes are
    accepted; equal heads mean equal histories unless a hash collides (\<open>Inspector\<close>).
  \<^item> Authority: epochs only advance, a tick needs a valid lease, an owner that ticks regularly keeps its lease, and at most
    one side of a migration can tick (\<open>Authority\<close>, \<open>Runner\<close>, \<open>MigrationSafe\<close>).
  \<^item> Termination: retries are bounded, a loop whose ticks cost anything ends when the budget is spent, and a price scan ends under every
    schedule after two steps per peer, with the prices of the peers that answered.
  \<^item> Membrane and money: undeclared host functions do not exist for a module, HTTP and payments respect their
    configuration, metering does not overflow.
  \<^item> Effects: intents are begun at most once across crashes, and the codecs round-trip.
  \<^item> Agents: the state of each survives any sequence of ticks, crashes and resumes; the treasury balances its books, a watcher that was
    down and catches up has the state of one that was not, a case is finalized under one key once the intent is saved, the
    deployer pays before it deploys and deploys once.  Together with the providers they talk to, the buyer obtains what it paid for
    and the deployer ends with a running deployment.
  \<^item> Compiled agents and tests: a payment through the bindings happens or leaves no trace, a request reaches the client as the agent wrote it, and what a
    test reads from a mock is what the agent did under it.
  \<^item> Reports: the demo claims a successful replay only when every tick the second node recorded replays to its hash, and its timeline shows the
    finalization of a case once.
  \<^item> Command lines (\<open>Cli\<close>): which arguments reach which operation, that the exit status of \<open>igord verify\<close> is its verdict, that a dump determines its bytes.
  \<^item> Where the code does not do what it means to (a tick can overdraw, unrecorded calls cannot be replayed, a failed
    \<open>MigrateAgent\<close> strands the agent, a migration from the command line loses the identity, a restart forgets the epoch, a budget override is lost, a crash makes an agent pay or finalize
    twice, a clock that runs backwards stalls a watcher), the theorem says what it does.

  \<^bold>\<open>Parameters and hypotheses.\<close>  SHA-256 and Ed25519 are the record \<open>crypto\<close>, with lengths and sign-then-verify as the
  hypothesis \<open>crypto_ok\<close>; collisions are never assumed away but appear in conclusions.  The WebAssembly engine is the records
  \<open>guest\<close> and \<open>engine\<close>; that a resumed module cannot be told apart from the one that was captured is the
  hypothesis \<open>boots_to\<close> with a \<open>bisimulation\<close>, that reading and writing state makes no host calls is \<open>quiet_checkpoint\<close>.
  \<open>encoding/json\<close>, libp2p and the HTTP client are functions or outcomes passed in (records \<open>price_json\<close> with \<open>json_ok\<close> and \<open>p2p_net\<close> in \<open>Network\<close>).
  The allocator of a compiled agent is the record \<open>go_heap\<close>, with what is relied on of it as \<open>heap_ok\<close>.  Each is instantiated by a small
  concrete agent in the examples the witnesses use.

  \<^bold>\<open>Fuel and bounds.\<close>  \<open>sy_tickFuel\<close> bounds the steps of one tick, as the tick timeout bounds its time: running out is the
  timeout error of the code, so no theorem depends on it being large.  \<open>sy_fuel\<close> bounds the calls the code makes without a
  deadline; a module that exceeds it is one whose call does not return.  All other loops are structural recursions.  Sizes
  below \<open>2 ^ 32\<close> are assumed where the format has 32-bit length fields; positions in a decoder are unbounded, as \<open>int\<close> is 64 bits wide in a
  native build (in a 32-bit build a length prefix of \<open>2 ^ 31\<close> or more panics where the model reports an error).  The loop of \<open>Liquidation\<close> that catches up on missed slots and the scanners of \<open>Watchers\<close> and
  \<open>Deployer\<close> are general recursions with termination proofs.

  \<^bold>\<open>Not modelled.\<close>  Mutexes, and goroutines other than those of the price scan (each component is driven by one loop); log lines outside agents,
  texts on standard error, progress output and banners; file modes; closing of modules and runtimes; the package \<open>logging\<close>; the set-up of the demo servers, of the
  demo's libp2p hosts and of its temporary directories.  How TinyGo compiles an agent is not modelled either: \<open>Bindings\<close> starts from the SDK functions
  the compiled agent calls.
\<close>

section \<open>Migration and replay together\<close>

lemma Entries_toTickLog: "Entries (toTickLog rd) = map (\<lambda>e. (re_HostcallID e, re_Payload e)) (rd_Entries rd)"
  by (simp add: Entries_def toTickLog_def comp_def)

lemma toTickLog_number: "tl_TickNumber (toTickLog rd) = rd_TickNumber rd"
  by (simp add: toTickLog_def)

lemma ReplayTick_entries:
  assumes "Entries tk = Entries tk'" "tl_TickNumber tk = tl_TickNumber tk'"
  shows "ReplayTick fuel tickFuel G wasi E wasmBytes man state tk x = ReplayTick fuel tickFuel G wasi E wasmBytes man state tk' x"
  unfolding ReplayTick_def assms ..

lemma replayDataFromInstance_Some:
  assumes "replayDataFromInstance C i c = Some rd" "LatestSnapshot i = Some snap" "sn_TickLog snap = Some tk"
  shows "rd_PreTickState rd = sn_PreState snap" "Entries (toTickLog rd) = Entries tk"
    "tl_TickNumber (toTickLog rd) = tl_TickNumber tk" "\<exists>st. ExtractAgentState c = Inr st \<and> Sum256 C st = sn_PostStateHash snap"
  using assms
  by (auto simp: replayDataFromInstance_def Entries_toTickLog comp_def case_prod_unfold toTickLog_number split: sum.splits if_splits)




section \<open>Self-verification of honest ticks\<close>

lemma Tick_window:
  assumes "Tick S elapsed i w = (Inr again, i', w')" "wf_event_log (in_EventLog i)"
  obtains snap where "set (in_ReplayWindow i') \<subseteq> insert snap (set (in_ReplayWindow i))" "LatestSnapshot i' = Some snap"
    "in_WASMBytes i' = in_WASMBytes i" "in_Manifest i' = in_Manifest i"
  using assms(1)
proof (cases rule: Tick_cases)
  case (done_ok pre i1 w1 rs i2 w2 sealed el post i3)
  note k1 = captureState_spent [OF done_ok(3) assms(2)]
  note k2 = agent_call_spent [OF done_ok(5) begin_tick_wf]
  have "wf_event_log el" using k1 k2 SealTick_wf [OF done_ok(6)] by blast
  with captureState_spent [OF done_ok(7)] have k3: "spent (i2\<lparr>in_EventLog := el\<rparr>) i3" by simp
  have f: "in_WASMBytes i3 = in_WASMBytes i" "in_Manifest i3 = in_Manifest i" "in_ReplayWindow i3 = in_ReplayWindow i"
    using k1 k2 k3 spent_begin_tick [of i1 i2] spent_fields [of i i1] spent_fields [of "begin_tick i1" i2]
      spent_fields [of "i2\<lparr>in_EventLog := el\<rparr>" i3] by (simp_all add: begin_tick_def)
  define snap where "snap = \<lparr>sn_TickNumber = in_TickNumber i3, sn_PreState = pre, sn_PostStateHash = Sum256 (sy_crypto S) post, sn_TickLog = sealed\<rparr>"
  have w: "in_ReplayWindow i' = add_snapshot (in_replayWindowMax i3) snap (in_ReplayWindow i)"
    using done_ok(8) f(3) by (simp add: finish_tick_def Let_def snap_def)
  have "LatestSnapshot i' = Some snap"
    using LatestSnapshot_finish [of "sy_crypto S" elapsed pre post sealed i3] done_ok(8) by (simp add: snap_def)
  with w f add_snapshot_set [of "in_replayWindowMax i3" snap "in_ReplayWindow i"] done_ok(8)
  show thesis by (intro that [of snap]) (simp_all add: finish_tick_def Let_def)
qed auto

lemma verify_window_passes:
  assumes "\<forall>s\<in>set snaps. s = snap \<or> sn_TickNumber s \<le> lastVerified" "sn_TickLog snap = Some tk"
    "ReplayTick (sy_fuel S) (sy_tickFuel S) (sy_guest S) wasi E (in_WASMBytes i) (Some (in_Manifest i)) (sn_PreState snap) tk None = rr"
    "rr_Error rr = None" "Sum256 (sy_crypto S) (rr_ReplayedState rr) = sn_PostStateHash snap"
  shows "snd (verify_window S wasi E i lastVerified policy snaps) = DivergenceNone"
  using assms(1)
proof (induction snaps)
  case (Cons s snaps)
  then show ?case using assms(2-) by (cases "sn_TickNumber s \<le> lastVerified") (auto simp: Let_def)
qed simp



end
